(* ===== verification/Prelude.thy ===== *)
theory Prelude
  imports Main "HOL-Library.Word" "HOL-Library.AList" "HOL-Library.Char_ord"
    "HOL-Library.List_Lexorder"
begin

text \<open>
  What every component of the model shares: the names of the Go types, association lists
  for Go maps, lists without repetition for Go maps used as sets, and the interfaces
  (locales) that several components provide: a machine with an invariant, a codec.

  Go strings are byte sequences, so they are HOL strings (a \<open>char\<close> is a byte). Audio and
  hashes are lists of 8-bit words. \<open>error\<close> is the message of a Go \<open>error\<close>; a Go function that
  returns \<open>(T, error)\<close> returns \<open>error + 'a\<close>.
\<close>

type_synonym byte = "8 word"
type_synonym u16 = "16 word"
type_synonym u32 = "32 word"
type_synonym u64 = "64 word"
type_synonym error = string

text \<open>A \<open>time.Time\<close> is an \<open>int\<close> count of nanoseconds, and so is a \<open>time.Duration\<close>.\<close>
type_synonym instant = int
type_synonym duration = int

definition second_ns :: duration where "second_ns = 1000000000"
definition minute_ns :: duration where "minute_ns = 60 * second_ns"

named_theorems invariants \<open>rules that an operation keeps an invariant\<close>
named_theorems frames \<open>rules that an operation leaves a field alone\<close>

section \<open>Go maps\<close>

text \<open>
  A Go map is an association list: \<open>map_of m k\<close> looks a key up, \<open>AList.update\<close> assigns,
  \<open>AList.delete\<close> is the built-in \<open>delete\<close> and \<open>length\<close> is \<open>len\<close>. A map to \<open>bool\<close> that only
  ever holds \<open>true\<close> is the list of its keys, extended with \<open>List.insert\<close>.
\<close>

type_synonym 'v gomap = "(string \<times> 'v) list"

abbreviation gget :: "'v gomap \<Rightarrow> string \<Rightarrow> 'v option" where "gget m k \<equiv> map_of m k"
abbreviation gput :: "string \<Rightarrow> 'v \<Rightarrow> 'v gomap \<Rightarrow> 'v gomap" where "gput \<equiv> AList.update"
abbreviation gdel :: "string \<Rightarrow> 'v gomap \<Rightarrow> 'v gomap" where "gdel \<equiv> AList.delete"

definition gkeys :: "'v gomap \<Rightarrow> string list" where
  "gkeys m = map fst m"

definition gwf :: "'v gomap \<Rightarrow> bool" where
  "gwf m \<longleftrightarrow> distinct (map fst m)"

text \<open>The zero value a Go map read gives for an absent string key.\<close>
definition gstr :: "string gomap \<Rightarrow> string \<Rightarrow> string" where
  "gstr m k = (case map_of m k of None \<Rightarrow> [] | Some v \<Rightarrow> v)"

lemma gget_gput [simp]: "gget (gput k v m) k' = (if k' = k then Some v else gget m k')"
  by (simp add: update_conv)

lemma gget_gdel [simp]: "gget (gdel k m) k' = (if k' = k then None else gget m k')"
  by (simp add: delete_conv)

lemma gwf_Nil [simp, intro]: "gwf []"
  by (simp add: gwf_def)

lemma gwf_gput [simp, intro]: "gwf m \<Longrightarrow> gwf (gput k v m)"
  by (simp add: gwf_def distinct_update)

lemma gwf_gdel [simp, intro]: "gwf m \<Longrightarrow> gwf (gdel k m)"
  by (simp add: gwf_def distinct_delete)

lemma length_gput: "length (gput k v m) = (if gget m k = None then Suc (length m) else length m)"
  by (induction m) auto

lemma length_gdel_le: "length (gdel k m) \<le> length m"
  by (induction m) auto

lemma length_insert: "length (List.insert x xs) = (if x \<in> set xs then length xs else Suc (length xs))"
  by (simp add: List.insert_def)

lemma gstr_simps [simp]:
  "gstr [] k = []"
  "gstr (gput k v m) k' = (if k' = k then v else gstr m k')"
  "gstr (gdel k m) k' = (if k' = k then [] else gstr m k')"
  by (auto simp: gstr_def)

section \<open>Interfaces\<close>

text \<open>
  A component whose operations are steps of a state: an invariant that each step keeps
  holds after any sequence of steps. A step may consult an environment it does not change.
\<close>

locale machine =
  fixes step :: "'s \<Rightarrow> 'e \<Rightarrow> 's" and inv :: "'s \<Rightarrow> bool"
  assumes step_inv: "inv s \<Longrightarrow> inv (step s e)"
begin

lemma run_inv: "inv s \<Longrightarrow> inv (foldl step s es)"
  by (induction es arbitrary: s) (auto intro: step_inv)

lemma prefix_inv: "inv s \<Longrightarrow> inv (foldl step s (take n es))"
  by (rule run_inv)

end

text \<open>A machine with a quantity that no step lowers.\<close>

locale monotone_machine = machine +
  fixes measure_of :: "'a \<Rightarrow> nat"
  assumes step_mono: "inv s \<Longrightarrow> measure_of s \<le> measure_of (step s e)"
begin

lemma run_mono: "inv s \<Longrightarrow> measure_of s \<le> measure_of (foldl step s es)"
proof (induction es arbitrary: s)
  case Nil
  then show ?case by simp
next
  case (Cons e es)
  have "measure_of s \<le> measure_of (step s e)"
    using Cons.prems by (rule step_mono)
  also have "\<dots> \<le> measure_of (foldl step (step s e) es)"
    using Cons.prems by (intro Cons.IH step_inv)
  finally show ?case by simp
qed

end

text \<open>An encoder with its decoder, on the values a predicate selects.\<close>

locale codec =
  fixes enc :: "'a \<Rightarrow> 'b" and dec :: "'b \<Rightarrow> 'a option" and ok :: "'a \<Rightarrow> bool"
  assumes dec_enc: "ok x \<Longrightarrow> dec (enc x) = Some x"
begin

lemma enc_inj: "ok x \<Longrightarrow> ok y \<Longrightarrow> enc x = enc y \<Longrightarrow> x = y"
  by (metis dec_enc option.inject)

end

end
