(* ===== verification/Go_Text.thy ===== *)
theory Go_Text
  imports Prelude
begin

text \<open>
  The parts of Go's \<open>strings\<close>, \<open>unicode\<close> and \<open>unicode/utf8\<close> packages that the program uses,
  on byte strings. Code points up to U+00FF are spelt out; above that the two Unicode tables
  the program consults (\<open>unicode.ToLower\<close> and \<open>unicode.IsPunct\<close>) are the record \<open>uctab\<close>, an
  argument of the functions that read them. White space is spelt out in full.
\<close>

record uctab =
  uc_lower :: "nat \<Rightarrow> nat"
  uc_punct :: "nat \<Rightarrow> bool"

text \<open>A table that knows no code point above U+00FF, for evaluation on Latin text.\<close>
definition latin_uctab :: uctab where
  "latin_uctab = \<lparr>uc_lower = (\<lambda>r. r), uc_punct = (\<lambda>_. False)\<rparr>"

section \<open>Bytes\<close>

definition bval :: "char \<Rightarrow> nat" where "bval c = of_char c"
definition bchr :: "nat \<Rightarrow> char" where "bchr n = char_of n"

definition is_digit :: "char \<Rightarrow> bool" where
  "is_digit c \<longleftrightarrow> 48 \<le> bval c \<and> bval c \<le> 57"
definition is_lower :: "char \<Rightarrow> bool" where
  "is_lower c \<longleftrightarrow> 97 \<le> bval c \<and> bval c \<le> 122"
definition is_upper :: "char \<Rightarrow> bool" where
  "is_upper c \<longleftrightarrow> 65 \<le> bval c \<and> bval c \<le> 90"
definition is_alpha :: "char \<Rightarrow> bool" where
  "is_alpha c \<longleftrightarrow> is_lower c \<or> is_upper c"
definition is_alnum :: "char \<Rightarrow> bool" where
  "is_alnum c \<longleftrightarrow> is_alpha c \<or> is_digit c"

lemmas char_classes = is_digit_def is_lower_def is_upper_def is_alpha_def is_alnum_def bval_def

definition digit_val :: "char \<Rightarrow> nat" where "digit_val c = bval c - 48"
definition digit_char :: "nat \<Rightarrow> char" where "digit_char n = bchr (48 + n)"

lemma bval_Char: "bval (Char b0 b1 b2 b3 b4 b5 b6 b7) =
    of_bool b0 + 2 * of_bool b1 + 4 * of_bool b2 + 8 * of_bool b3 + 16 * of_bool b4
    + 32 * of_bool b5 + 64 * of_bool b6 + 128 * of_bool b7"
  by (simp add: bval_def)

lemma bval_bchr [simp]: "n < 256 \<Longrightarrow> bval (bchr n) = n"
  by (simp add: bval_def bchr_def)

lemma bchr_bval [simp]: "bchr (bval c) = c"
  by (simp add: bval_def bchr_def)

lemma bval_less [simp]: "bval c < 256"
  by (simp add: bval_def)

lemma digit_char_val [simp]: "n < 10 \<Longrightarrow> digit_val (digit_char n) = n"
  by (simp add: digit_val_def digit_char_def)

lemma is_digit_digit_char [simp]: "n < 10 \<Longrightarrow> is_digit (digit_char n)"
  by (simp add: is_digit_def digit_char_def)

section \<open>UTF-8\<close>

text \<open>\<open>utf8.RuneError\<close>\<close>
definition rune_error :: nat where "rune_error = 65533"

definition cont_byte :: "nat \<Rightarrow> bool" where "cont_byte b \<longleftrightarrow> 128 \<le> b \<and> b \<le> 191"

definition second_ok :: "nat \<Rightarrow> nat \<Rightarrow> bool" where
  "second_ok b0 b1 \<longleftrightarrow>
     (if b0 = 224 then 160 \<le> b1 \<and> b1 \<le> 191
      else if b0 = 237 then 128 \<le> b1 \<and> b1 \<le> 159
      else if b0 = 240 then 144 \<le> b1 \<and> b1 \<le> 191
      else if b0 = 244 then 128 \<le> b1 \<and> b1 \<le> 143
      else cont_byte b1)"

text \<open>\<open>utf8.DecodeRune\<close>: the code point and the bytes it took; one byte for an invalid start.\<close>
fun decode_rune :: "string \<Rightarrow> nat \<times> nat" where
  "decode_rune [] = (rune_error, 0)"
| "decode_rune (c0 # cs) =
     (let b0 = bval c0 in
      if b0 < 128 then (b0, 1)
      else if 194 \<le> b0 \<and> b0 \<le> 223 then
        (case cs of c1 # _ \<Rightarrow>
           if cont_byte (bval c1) then ((b0 - 192) * 64 + (bval c1 - 128), 2) else (rune_error, 1)
         | [] \<Rightarrow> (rune_error, 1))
      else if 224 \<le> b0 \<and> b0 \<le> 239 then
        (case cs of c1 # c2 # _ \<Rightarrow>
           if second_ok b0 (bval c1) \<and> cont_byte (bval c2)
           then ((b0 - 224) * 4096 + (bval c1 - 128) * 64 + (bval c2 - 128), 3)
           else (rune_error, 1)
         | _ \<Rightarrow> (rune_error, 1))
      else if 240 \<le> b0 \<and> b0 \<le> 244 then
        (case cs of c1 # c2 # c3 # _ \<Rightarrow>
           if second_ok b0 (bval c1) \<and> cont_byte (bval c2) \<and> cont_byte (bval c3)
           then ((b0 - 240) * 262144 + (bval c1 - 128) * 4096 + (bval c2 - 128) * 64
                 + (bval c3 - 128), 4)
           else (rune_error, 1)
         | _ \<Rightarrow> (rune_error, 1))
      else (rune_error, 1))"

text \<open>\<open>utf8.AppendRune\<close>: surrogates and values out of range encode as U+FFFD.\<close>
definition encode_rune :: "nat \<Rightarrow> string" where
  "encode_rune r0 =
     (let r = (if r0 > 1114111 \<or> (55296 \<le> r0 \<and> r0 \<le> 57343) then rune_error else r0) in
      if r < 128 then [bchr r]
      else if r < 2048 then [bchr (192 + r div 64), bchr (128 + r mod 64)]
      else if r < 65536 then
        [bchr (224 + r div 4096), bchr (128 + r div 64 mod 64), bchr (128 + r mod 64)]
      else [bchr (240 + r div 262144), bchr (128 + r div 4096 mod 64),
            bchr (128 + r div 64 mod 64), bchr (128 + r mod 64)])"

text \<open>\<open>for _, r := range s\<close>: the code points of a string.\<close>
function runes :: "string \<Rightarrow> nat list" where
  "runes s = (if s = [] then [] else
     (case decode_rune s of (r, n) \<Rightarrow> r # runes (drop (max 1 n) s)))"
  by pat_completeness auto
termination
  by (relation "measure length") auto

declare runes.simps [simp del]

lemma runes_Nil [simp]: "runes [] = []"
  by (simp add: runes.simps)

definition ascii :: "string \<Rightarrow> bool" where
  "ascii s \<longleftrightarrow> (\<forall>c \<in> set s. bval c < 128)"

lemma ascii_simps [simp]:
  "ascii []" "ascii (c # s) \<longleftrightarrow> bval c < 128 \<and> ascii s" "ascii (s @ t) \<longleftrightarrow> ascii s \<and> ascii t"
  by (auto simp: ascii_def)

lemma runes_ascii_Cons: "bval c < 128 \<Longrightarrow> runes (c # s) = bval c # runes s"
  by (simp add: runes.simps [of "c # s"] Let_def)

lemma runes_ascii: "ascii s \<Longrightarrow> runes s = map bval s"
  by (induction s) (auto simp: runes_ascii_Cons)

section \<open>Package strings\<close>

definition has_prefix :: "string \<Rightarrow> string \<Rightarrow> bool" where
  "has_prefix s p \<longleftrightarrow> take (length p) s = p"

definition has_suffix :: "string \<Rightarrow> string \<Rightarrow> bool" where
  "has_suffix s p \<longleftrightarrow> length p \<le> length s \<and> drop (length s - length p) s = p"

definition trim_prefix :: "string \<Rightarrow> string \<Rightarrow> string" where
  "trim_prefix s p = (if has_prefix s p then drop (length p) s else s)"

text \<open>\<open>strings.ReplaceAll\<close> of a one-byte string by a one-byte string.\<close>
definition replace_byte :: "char \<Rightarrow> char \<Rightarrow> string \<Rightarrow> string" where
  "replace_byte a b s = map (\<lambda>c. if c = a then b else c) s"

text \<open>\<open>strings.Cut\<close> and \<open>strings.Split\<close> at a one-byte separator.\<close>
definition cut_byte :: "char \<Rightarrow> string \<Rightarrow> string \<times> string \<times> bool" where
  "cut_byte d s =
     (case dropWhile (\<lambda>c. c \<noteq> d) s of
        [] \<Rightarrow> (s, [], False)
      | _ # r \<Rightarrow> (takeWhile (\<lambda>c. c \<noteq> d) s, r, True))"

fun split_byte :: "char \<Rightarrow> string \<Rightarrow> string list" where
  "split_byte d [] = [[]]"
| "split_byte d (c # s) =
     (if c = d then [] # split_byte d s
      else (case split_byte d s of x # xs \<Rightarrow> (c # x) # xs | [] \<Rightarrow> [[c]]))"

text \<open>\<open>strings.TrimRight(s, "/")\<close>\<close>
definition trim_right_byte :: "char \<Rightarrow> string \<Rightarrow> string" where
  "trim_right_byte d s = rev (dropWhile (\<lambda>c. c = d) (rev s))"

text \<open>\<open>strings.ContainsAny\<close> for a set given by its code points.\<close>
definition contains_any :: "string \<Rightarrow> nat list \<Rightarrow> bool" where
  "contains_any s rs \<longleftrightarrow> (\<exists>r \<in> set (runes s). r \<in> set rs)"

fun contains_sub :: "string \<Rightarrow> string \<Rightarrow> bool" where
  "contains_sub [] p = (p = [])"
| "contains_sub (c # s) p = (has_prefix (c # s) p \<or> contains_sub s p)"

text \<open>\<open>unicode.IsSpace\<close>\<close>
definition is_space :: "nat \<Rightarrow> bool" where
  "is_space r \<longleftrightarrow> r \<in> {9, 10, 11, 12, 13, 32, 133, 160, 5760, 8232, 8233, 8239, 8287, 12288}
     \<or> (8192 \<le> r \<and> r \<le> 8202)"

text \<open>\<open>unicode.IsPunct\<close>: category P, up to U+00FF spelt out.\<close>
definition is_punct :: "uctab \<Rightarrow> nat \<Rightarrow> bool" where
  "is_punct u r \<longleftrightarrow>
     (if r \<le> 255 then
        (33 \<le> r \<and> r \<le> 35) \<or> (37 \<le> r \<and> r \<le> 42) \<or> (44 \<le> r \<and> r \<le> 47) \<or> r = 58 \<or> r = 59
        \<or> r = 63 \<or> r = 64 \<or> (91 \<le> r \<and> r \<le> 93) \<or> r = 95 \<or> r = 123 \<or> r = 125
        \<or> r = 161 \<or> r = 167 \<or> r = 171 \<or> r = 182 \<or> r = 183 \<or> r = 187 \<or> r = 191
      else uc_punct u r)"

text \<open>\<open>unicode.ToLower\<close>\<close>
definition rune_lower :: "uctab \<Rightarrow> nat \<Rightarrow> nat" where
  "rune_lower u r =
     (if r \<le> 255 then
        (if 65 \<le> r \<and> r \<le> 90 then r + 32
         else if 192 \<le> r \<and> r \<le> 222 \<and> r \<noteq> 215 then r + 32 else r)
      else uc_lower u r)"

text \<open>\<open>strings.Map\<close> and \<open>strings.ToLower\<close>, on code points and back to bytes.\<close>
definition map_runes :: "(nat \<Rightarrow> nat) \<Rightarrow> string \<Rightarrow> string" where
  "map_runes f s = concat (map (\<lambda>r. encode_rune (f r)) (runes s))"

definition to_lower :: "uctab \<Rightarrow> string \<Rightarrow> string" where
  "to_lower u s = map_runes (rune_lower u) s"

text \<open>\<open>strings.Fields\<close> and \<open>strings.TrimSpace\<close>, on the pieces a string decodes to.\<close>
function pieces :: "string \<Rightarrow> (nat \<times> string) list" where
  "pieces s = (if s = [] then [] else
     (case decode_rune s of (r, n) \<Rightarrow> (r, take (max 1 n) s) # pieces (drop (max 1 n) s)))"
  by pat_completeness auto
termination
  by (relation "measure length") auto

declare pieces.simps [simp del]

definition flatten :: "(nat \<times> string) list \<Rightarrow> string" where
  "flatten ps = concat (map snd ps)"

definition trim_space :: "string \<Rightarrow> string" where
  "trim_space s =
     flatten (rev (dropWhile (is_space \<circ> fst) (rev (dropWhile (is_space \<circ> fst) (pieces s)))))"

fun fields_aux :: "(nat \<times> string) list \<Rightarrow> string \<Rightarrow> string list" where
  "fields_aux [] acc = (if acc = [] then [] else [acc])"
| "fields_aux ((r, b) # ps) acc =
     (if is_space r then (if acc = [] then fields_aux ps [] else acc # fields_aux ps [])
      else fields_aux ps (acc @ b))"

definition text_fields :: "string \<Rightarrow> string list" where
  "text_fields s = fields_aux (pieces s) []"

text \<open>\<open>strings.Join(xs, " ")\<close>\<close>
fun join_space :: "string list \<Rightarrow> string" where
  "join_space [] = []"
| "join_space [x] = x"
| "join_space (x # xs) = x @ CHR 32 # join_space xs"

lemma pieces_Nil [simp]: "pieces [] = []"
  by (simp add: pieces.simps)

lemma pieces_ascii: "ascii s \<Longrightarrow> pieces s = map (\<lambda>c. (bval c, [c])) s"
proof (induction s)
  case (Cons c s)
  then show ?case by (simp add: pieces.simps [of "c # s"] Let_def)
qed simp

lemma flatten_pieces: "flatten (pieces s) = s"
proof (induction s rule: pieces.induct)
  case (1 s)
  then show ?case
    by (cases "s = []") (auto simp: pieces.simps [of s] flatten_def split: prod.splits)
qed

section \<open>Decimal\<close>

text \<open>\<open>strconv.FormatUint\<close> and \<open>strconv.FormatInt\<close> in base 10.\<close>
fun nat_text :: "nat \<Rightarrow> string" where
  "nat_text n = (if n < 10 then [digit_char n] else nat_text (n div 10) @ [digit_char (n mod 10)])"

declare nat_text.simps [simp del]

lemma nat_text_small:
  "n < 10 \<Longrightarrow> nat_text n = [digit_char n]"
  "10 \<le> n \<Longrightarrow> nat_text n = nat_text (n div 10) @ [digit_char (n mod 10)]"
  by (simp_all add: nat_text.simps [of n])

definition int_text :: "int \<Rightarrow> string" where
  "int_text i = (if i < 0 then CHR 45 # nat_text (nat (- i)) else nat_text (nat i))"

definition digits_val :: "string \<Rightarrow> nat" where
  "digits_val s = foldl (\<lambda>n c. n * 10 + digit_val c) 0 s"

lemma nat_text_digits: "\<forall>c \<in> set (nat_text n). is_digit c"
proof (induction n rule: nat_text.induct)
  case (1 n)
  then show ?case by (cases "n < 10") (auto simp: nat_text.simps [of n])
qed

lemma nat_text_nonempty [simp]: "nat_text n \<noteq> []"
  by (simp add: nat_text.simps [of n])

lemma digits_val_snoc: "digits_val (s @ [c]) = digits_val s * 10 + digit_val c"
  by (simp add: digits_val_def)

lemma digits_val_nat_text [simp]: "digits_val (nat_text n) = n"
proof (induction n rule: nat_text.induct)
  case (1 n)
  then show ?case
    by (cases "n < 10")
      (auto simp: nat_text.simps [of n] digits_val_snoc, simp add: digits_val_def)
qed

end
