(* ===== verification/Go_Encoding.thy ===== *)
theory Go_Encoding
  imports Go_Text
begin

text \<open>
  Go's \<open>encoding/hex\<close>, \<open>encoding/base64\<close> (the strict standard alphabet) and
  \<open>encoding/binary\<close> (little endian), as far as the program uses them, with their round trips.
\<close>

definition bytes_of :: "string \<Rightarrow> byte list" where "bytes_of s = map (\<lambda>c. word_of_nat (bval c)) s"
definition string_of :: "byte list \<Rightarrow> string" where "string_of bs = map (\<lambda>b. bchr (unat b)) bs"

lemma unat_word_of_nat8 [simp]: "n < 256 \<Longrightarrow> unat (word_of_nat n :: byte) = n"
  by (simp add: unat_of_nat)

lemma string_of_bytes_of [simp]: "string_of (bytes_of s) = s"
  by (simp add: string_of_def bytes_of_def comp_def)

lemma length_bytes_of [simp]: "length (bytes_of s) = length s"
  by (simp add: bytes_of_def)

lemma length_string_of [simp]: "length (string_of bs) = length bs"
  by (simp add: string_of_def)

section \<open>Hexadecimal\<close>

definition hex_digit :: "nat \<Rightarrow> char" where
  "hex_digit n = (if n < 10 then bchr (48 + n) else bchr (87 + n))"

definition hex_val :: "char \<Rightarrow> nat option" where
  "hex_val c = (let b = bval c in
     if 48 \<le> b \<and> b \<le> 57 then Some (b - 48)
     else if 97 \<le> b \<and> b \<le> 102 then Some (b - 87)
     else if 65 \<le> b \<and> b \<le> 70 then Some (b - 55)
     else None)"

definition hex_encode :: "byte list \<Rightarrow> string" where
  "hex_encode bs = concat (map (\<lambda>b. [hex_digit (unat b div 16), hex_digit (unat b mod 16)]) bs)"

fun hex_decode :: "string \<Rightarrow> byte list option" where
  "hex_decode [] = Some []"
| "hex_decode [_] = None"
| "hex_decode (a # b # s) =
     (case hex_val a of None \<Rightarrow> None
      | Some x \<Rightarrow> (case hex_val b of None \<Rightarrow> None
        | Some y \<Rightarrow> (case hex_decode s of None \<Rightarrow> None
          | Some bs \<Rightarrow> Some (word_of_nat (x * 16 + y) # bs))))"

lemma hex_val_digit [simp]: "n < 16 \<Longrightarrow> hex_val (hex_digit n) = Some n"
  by (auto simp: hex_val_def hex_digit_def Let_def)

lemma byte_less [simp]: "unat (b :: byte) < 256"
proof -
  have "unat b < 2 ^ LENGTH(8)" by (rule unsigned_less)
  then show ?thesis by simp
qed

lemma byte_div_less: "unat (b :: byte) div 16 < 16"
  using byte_less [of b] by linarith

lemma hex_decode_encode [simp]: "hex_decode (hex_encode bs) = Some bs"
proof (induction bs)
  case (Cons b bs)
  then show ?case
    by (simp add: hex_encode_def byte_div_less)
qed (simp add: hex_encode_def)

lemma length_hex_encode [simp]: "length (hex_encode bs) = 2 * length bs"
  by (induction bs) (auto simp: hex_encode_def)

lemma length_hex_decode: "hex_decode s = Some bs \<Longrightarrow> length s = 2 * length bs"
  by (induction s arbitrary: bs rule: hex_decode.induct) (auto split: option.splits)

interpretation hexc: codec hex_encode hex_decode "\<lambda>_. True"
  by unfold_locales simp

lemma word_of_nat_unat: "n = unat v \<Longrightarrow> word_of_nat n = v"
  by simp

section \<open>Base64\<close>

definition b64_char :: "nat \<Rightarrow> char" where
  "b64_char n =
     (if n < 26 then bchr (65 + n) else if n < 52 then bchr (71 + n)
      else if n < 62 then bchr (n - 4) else if n = 62 then CHR ''+'' else CHR ''/'')"

definition b64_val :: "char \<Rightarrow> nat option" where
  "b64_val c = (let b = bval c in
     if 65 \<le> b \<and> b \<le> 90 then Some (b - 65)
     else if 97 \<le> b \<and> b \<le> 122 then Some (b - 71)
     else if 48 \<le> b \<and> b \<le> 57 then Some (b + 4)
     else if b = 43 then Some 62 else if b = 47 then Some 63 else None)"

definition pad_char :: char where "pad_char = CHR ''=''"

lemma bval_specials [simp]:
  "bval CHR ''+'' = 43" "bval CHR ''/'' = 47" "bval CHR ''='' = 61"
  by (simp_all add: bval_def)

lemma b64_val_char [simp]: "n < 64 \<Longrightarrow> b64_val (b64_char n) = Some n"
  by (auto simp: b64_val_def b64_char_def Let_def)

lemma b64_val_pad [simp]: "b64_val pad_char = None"
  by (simp add: b64_val_def pad_char_def Let_def)

lemma b64_char_not_pad [simp]: "n < 64 \<Longrightarrow> b64_char n \<noteq> pad_char"
  by (metis b64_val_char b64_val_pad option.distinct(1))

lemma b64_val_less: "b64_val c = Some n \<Longrightarrow> n < 64"
  by (auto simp: b64_val_def Let_def split: if_splits)

text \<open>\<open>base64.StdEncoding.EncodedLen\<close> and \<open>EncodeToString\<close>\<close>

definition b64_encoded_len :: "nat \<Rightarrow> nat" where
  "b64_encoded_len n = (n + 2) div 3 * 4"

fun b64_encode :: "byte list \<Rightarrow> string" where
  "b64_encode [] = []"
| "b64_encode [x] =
     (let n = unat x * 16 in [b64_char (n div 64), b64_char (n mod 64), pad_char, pad_char])"
| "b64_encode [x, y] =
     (let n = unat x * 1024 + unat y * 4 in
      [b64_char (n div 4096), b64_char (n div 64 mod 64), b64_char (n mod 64), pad_char])"
| "b64_encode (x # y # z # bs) =
     (let n = unat x * 65536 + unat y * 256 + unat z in
      b64_char (n div 262144) # b64_char (n div 4096 mod 64) # b64_char (n div 64 mod 64)
      # b64_char (n mod 64) # b64_encode bs)"

text \<open>
  One quantum at a time. With \<open>Strict\<close> the bits a short final quantum does not use must be
  zero; \<open>=\<close> is legal in the last two places of the last quantum only.
\<close>
fun b64_quanta :: "string \<Rightarrow> byte list option" where
  "b64_quanta [] = Some []"
| "b64_quanta (a # b # c # d # s) =
     (case b64_val a of None \<Rightarrow> None
      | Some va \<Rightarrow> (case b64_val b of None \<Rightarrow> None
      | Some vb \<Rightarrow>
          if c = pad_char then
            (if d = pad_char \<and> s = [] \<and> vb mod 16 = 0
             then Some [word_of_nat ((va * 64 + vb) div 16)] else None)
          else (case b64_val c of None \<Rightarrow> None
            | Some vc \<Rightarrow>
                if d = pad_char then
                  (if s = [] \<and> vc mod 4 = 0
                   then (let n = (va * 4096 + vb * 64 + vc) div 4 in
                         Some [word_of_nat (n div 256), word_of_nat (n mod 256)])
                   else None)
                else (case b64_val d of None \<Rightarrow> None
                  | Some vd \<Rightarrow>
                      (let n = va * 262144 + vb * 4096 + vc * 64 + vd in
                       case b64_quanta s of None \<Rightarrow> None
                       | Some bs \<Rightarrow> Some (word_of_nat (n div 65536) # word_of_nat (n div 256 mod 256)
                                          # word_of_nat (n mod 256) # bs))))))"
| "b64_quanta _ = None"

text \<open>The decoder skips carriage returns and line feeds wherever they stand.\<close>
definition b64_decode :: "string \<Rightarrow> byte list option" where
  "b64_decode s = b64_quanta (filter (\<lambda>c. bval c \<noteq> 10 \<and> bval c \<noteq> 13) s)"

text \<open>
  \<open>base64.StdEncoding\<close> without \<open>Strict\<close>: the unused bits of a short final quantum may be set.
  Clearing them in the last character before the padding leaves a strict text.
\<close>
definition b64_mask :: "nat \<Rightarrow> char \<Rightarrow> char" where
  "b64_mask m c = (case b64_val c of None \<Rightarrow> c | Some v \<Rightarrow> b64_char (v div m * m))"

definition b64_clear :: "string \<Rightarrow> string" where
  "b64_clear s = (case rev s of
       p # q # c # r \<Rightarrow>
         if p = pad_char \<and> q = pad_char then rev (p # q # b64_mask 16 c # r)
         else if p = pad_char then rev (p # b64_mask 4 q # c # r) else s
     | _ \<Rightarrow> s)"

definition b64_decode_lax :: "string \<Rightarrow> byte list option" where
  "b64_decode_lax s = b64_quanta (b64_clear (filter (\<lambda>c. bval c \<noteq> 10 \<and> bval c \<noteq> 13) s))"

lemma b64_char_not_eol [simp]:
  "n < 64 \<Longrightarrow> bval (b64_char n) \<noteq> 10 \<and> bval (b64_char n) \<noteq> 13"
  by (auto simp: b64_char_def)

lemma byte_bounds: "unat (x :: byte) \<le> 255"
  using byte_less [of x] by linarith

lemma radix:
  "y < b \<Longrightarrow> (x * b + y) div b = (x :: nat)"
  "y < b \<Longrightarrow> (x * b + y) mod b = y"
  by simp_all

lemma base64_steps:
  "m0 + d1 * 64 = n \<Longrightarrow> m1 + d2 * 64 = d1 \<Longrightarrow> d2 * 4096 + m1 * 64 + m0 = (n :: nat)"
  "m0 + d1 * 64 = n \<Longrightarrow> m1 + d2 * 64 = d1 \<Longrightarrow> m2 + d3 * 64 = d2 \<Longrightarrow>
     d3 * 262144 + m2 * 4096 + m1 * 64 + m0 = (n :: nat)"
  by linarith+

lemma base64:
  "n div 4096 * 4096 + n div 64 mod 64 * 64 + n mod 64 = (n :: nat)"
  "n div 262144 * 262144 + n div 4096 mod 64 * 4096 + n div 64 mod 64 * 64 + n mod 64 = (n :: nat)"
proof -
  have "n div 4096 = n div 64 div 64" "n div 262144 = n div 64 div 64 div 64"
    by (simp_all add: div_mult2_eq [symmetric])
  then show "n div 4096 * 4096 + n div 64 mod 64 * 64 + n mod 64 = n"
    "n div 262144 * 262144 + n div 4096 mod 64 * 4096 + n div 64 mod 64 * 64 + n mod 64 = n"
    by (simp_all only:) (rule base64_steps; rule mod_div_mult_eq)+
qed

lemma b64_quantum1:
  "va < 64 \<Longrightarrow> vb < 64 \<Longrightarrow> vb mod 16 = 0 \<Longrightarrow>
     b64_quanta [b64_char va, b64_char vb, pad_char, pad_char]
       = Some [word_of_nat ((va * 64 + vb) div 16)]"
  by simp

lemma b64_quantum2:
  "va < 64 \<Longrightarrow> vb < 64 \<Longrightarrow> vc < 64 \<Longrightarrow> vc mod 4 = 0 \<Longrightarrow>
     b64_quanta [b64_char va, b64_char vb, b64_char vc, pad_char]
       = Some [word_of_nat ((va * 4096 + vb * 64 + vc) div 4 div 256),
               word_of_nat ((va * 4096 + vb * 64 + vc) div 4 mod 256)]"
  by (simp add: Let_def)

lemma b64_quantum3:
  "va < 64 \<Longrightarrow> vb < 64 \<Longrightarrow> vc < 64 \<Longrightarrow> vd < 64 \<Longrightarrow> b64_quanta s = Some bs \<Longrightarrow>
     b64_quanta (b64_char va # b64_char vb # b64_char vc # b64_char vd # s)
       = (let n = va * 262144 + vb * 4096 + vc * 64 + vd in
          Some (word_of_nat (n div 65536) # word_of_nat (n div 256 mod 256)
            # word_of_nat (n mod 256) # bs))"
  by (simp add: Let_def)

lemma b64_quanta_encode: "b64_quanta (b64_encode bs) = Some bs"
proof (induction bs rule: b64_encode.induct)
  case 1
  show ?case by simp
next
  case (2 x)
  define n where "n = unat x * 16"
  have "n div 64 < 64" using byte_bounds [of x] n_def by linarith
  moreover have "n mod 64 mod 16 = 0" unfolding n_def by presburger
  moreover have "(n div 64 * 64 + n mod 64) div 16 = unat x"
    unfolding div_mult_mod_eq n_def by simp
  ultimately show ?case
    using b64_quantum1 [of "n div 64" "n mod 64"] unfolding b64_encode.simps Let_def n_def by simp
next
  case (3 x y)
  define n where "n = unat x * 1024 + unat y * 4"
  have n4: "n div 4 = unat x * 256 + unat y" unfolding n_def by simp
  have "n div 4096 < 64" using byte_bounds [of x] byte_bounds [of y] n_def by linarith
  moreover have "n mod 64 mod 4 = 0" unfolding n_def by (simp add: mod_mod_cancel)
  ultimately have "b64_quanta [b64_char (n div 4096), b64_char (n div 64 mod 64),
      b64_char (n mod 64), pad_char] = Some [word_of_nat (n div 4 div 256), word_of_nat (n div 4 mod 256)]"
    using b64_quantum2 [of "n div 4096" "n div 64 mod 64" "n mod 64"] unfolding base64 by simp
  then show ?case
    unfolding b64_encode.simps Let_def n4 radix [OF byte_less] n_def by simp
next
  case (4 x y z bs)
  define n where "n = unat x * 65536 + unat y * 256 + unat z"
  have "n div 262144 < 64"
    using byte_bounds [of x] byte_bounds [of y] byte_bounds [of z] n_def by linarith
  then have q: "b64_quanta (b64_char (n div 262144) # b64_char (n div 4096 mod 64)
      # b64_char (n div 64 mod 64) # b64_char (n mod 64) # b64_encode bs)
      = Some (word_of_nat (n div 65536) # word_of_nat (n div 256 mod 256)
          # word_of_nat (n mod 256) # bs)"
    using b64_quantum3 [of "n div 262144" "n div 4096 mod 64" "n div 64 mod 64" "n mod 64", OF _ _ _ _ "4.IH"]
    unfolding base64 Let_def by simp
  have n: "n = (unat x * 256 + unat y) * 256 + unat z" unfolding n_def by simp
  have "n mod 256 = unat z" "n div 256 = unat x * 256 + unat y"
    unfolding n by (rule radix, rule byte_less)+
  moreover have "n div 65536 = n div 256 div 256" by (simp add: div_mult2_eq [symmetric])
  ultimately show ?case
    using q unfolding b64_encode.simps Let_def n_def [symmetric]
    by (simp only: radix [OF byte_less] word_of_nat_unat)
qed

lemma b64_encode_filter:
  "filter (\<lambda>c. bval c \<noteq> 10 \<and> bval c \<noteq> 13) (b64_encode bs) = b64_encode bs"
proof (induction bs rule: b64_encode.induct)
  case (2 x)
  have "unat x * 16 div 64 < 64" using byte_bounds [of x] by linarith
  then show ?case by (simp add: Let_def pad_char_def)
next
  case (3 x y)
  have "(unat x * 1024 + unat y * 4) div 4096 < 64"
    using byte_bounds [of x] byte_bounds [of y] by linarith
  then show ?case by (simp add: Let_def pad_char_def)
next
  case (4 x y z bs)
  have "(unat x * 65536 + unat y * 256 + unat z) div 262144 < 64"
    using byte_bounds [of x] byte_bounds [of y] byte_bounds [of z] by linarith
  then show ?case using "4.IH" by (simp add: Let_def)
qed simp

lemma b64_decode_encode [simp]: "b64_decode (b64_encode bs) = Some bs"
  by (simp only: b64_decode_def b64_encode_filter b64_quanta_encode)

lemma length_b64_encode: "length (b64_encode bs) = b64_encoded_len (length bs)"
proof (induction bs rule: b64_encode.induct)
  case (4 x y z bs)
  have "(length bs + 5) div 3 = Suc ((length bs + 2) div 3)" by presburger
  with "4.IH" show ?case by (simp add: b64_encoded_len_def Let_def add.commute)
qed (auto simp: b64_encoded_len_def Let_def)

lemma b64_encode_eq_Nil [simp]: "b64_encode bs = [] \<longleftrightarrow> bs = []"
  by (induction bs rule: b64_encode.induct) (auto simp: Let_def)

lemma length_b64_quanta: "b64_quanta s = Some bs \<Longrightarrow> 4 * length bs \<le> 3 * length s"
proof (induction s arbitrary: bs rule: b64_quanta.induct)
  case (2 a b c d s)
  then show ?case by (fastforce simp: Let_def split: option.splits if_splits)
qed auto

lemma length_b64_decode: "b64_decode s = Some bs \<Longrightarrow> 4 * length bs \<le> 3 * length s"
  unfolding b64_decode_def
  by (drule length_b64_quanta) (meson le_trans length_filter_le mult_le_mono2)

interpretation b64c: codec b64_encode b64_decode "\<lambda>_. True"
  by unfold_locales simp

section \<open>Little endian\<close>

definition put_u16 :: "u16 \<Rightarrow> byte list" where
  "put_u16 v = [word_of_nat (unat v mod 256), word_of_nat (unat v div 256)]"

definition put_u32 :: "u32 \<Rightarrow> byte list" where
  "put_u32 v = [word_of_nat (unat v mod 256), word_of_nat (unat v div 256 mod 256),
     word_of_nat (unat v div 65536 mod 256), word_of_nat (unat v div 16777216)]"

text \<open>\<open>binary.LittleEndian.Uint16\<close> and \<open>Uint32\<close> panic on a short slice: None.\<close>
definition get_u16 :: "byte list \<Rightarrow> u16 option" where
  "get_u16 bs = (case bs of a # b # _ \<Rightarrow> Some (word_of_nat (unat a + unat b * 256)) | _ \<Rightarrow> None)"

definition get_u32 :: "byte list \<Rightarrow> u32 option" where
  "get_u32 bs = (case bs of a # b # c # d # _ \<Rightarrow>
       Some (word_of_nat (unat a + unat b * 256 + unat c * 65536 + unat d * 16777216))
     | _ \<Rightarrow> None)"

lemma get_put_u16 [simp]: "get_u16 (put_u16 v @ r) = Some v"
proof -
  have "unat v < 2 ^ LENGTH(16)" by (rule unsigned_less)
  then have hi: "unat v div 256 < 256" by (simp add: div_less_iff_less_mult)
  have lo: "unat v mod 256 < 256" by simp
  show ?thesis
    unfolding get_u16_def put_u16_def append_Cons append_Nil list.case
    by (simp only: unat_word_of_nat8 [OF lo] unat_word_of_nat8 [OF hi] option.inject)
      (rule word_of_nat_unat, presburger)
qed

lemma base256_steps:
  "m0 + d1 * 256 = n \<Longrightarrow> m1 + d2 * 256 = d1 \<Longrightarrow> m2 + d3 * 256 = d2 \<Longrightarrow>
     m0 + m1 * 256 + m2 * 65536 + d3 * 16777216 = (n :: nat)"
  by linarith

lemma base256: "n mod 256 + n div 256 mod 256 * 256 + n div 65536 mod 256 * 65536
    + n div 16777216 * 16777216 = (n :: nat)"
proof -
  have "n div 65536 = n div 256 div 256" "n div 16777216 = n div 256 div 256 div 256"
    by (simp_all add: div_mult2_eq [symmetric])
  then show ?thesis
    by (simp only:) (rule base256_steps; rule mod_div_mult_eq)
qed

lemma get_put_u32 [simp]: "get_u32 (put_u32 v @ r) = Some v"
proof -
  have "unat v < 2 ^ LENGTH(32)" by (rule unsigned_less)
  then have hi: "unat v div 16777216 < 256" by (simp add: div_less_iff_less_mult)
  have lo: "n mod 256 < 256" for n :: nat by simp
  show ?thesis
    unfolding get_u32_def put_u32_def append_Cons append_Nil list.case
    by (simp only: unat_word_of_nat8 [OF lo] unat_word_of_nat8 [OF hi] option.inject)
      (rule word_of_nat_unat, rule base256)
qed

lemmas get_put_last [simp] = get_put_u16 [where r = "[]", simplified] get_put_u32 [where r = "[]", simplified]

lemma unat_word_of_nat32: "n < 4294967296 \<Longrightarrow> unat (word_of_nat n :: u32) = n"
  by (simp add: unat_of_nat)

lemma length_put [simp]: "length (put_u16 v) = 2" "length (put_u32 w) = 4"
  by (simp_all add: put_u16_def put_u32_def)

end
