(* ===== verification/Audio_Wav.thy ===== *)
theory Audio_Wav
  imports Go_Encoding
begin

text \<open>
  packages/go/audio/wav.go: the reader and writer of RIFF/WAVE files the terminal client uses.
  The reader is the loop over RIFF chunks of \<open>ReadPCM16WAV\<close>; offsets and sizes are natural
  numbers, which is exact because the code keeps them in 64 bits and the file is bounded.
\<close>

definition tag_RIFF :: "byte list" where "tag_RIFF = bytes_of ''RIFF''"
definition tag_WAVE :: "byte list" where "tag_WAVE = bytes_of ''WAVE''"
definition tag_fmt :: "byte list" where "tag_fmt = bytes_of ''fmt ''"
definition tag_data :: "byte list" where "tag_data = bytes_of ''data''"

text \<open>The condition on the \<open>fmt \<close> chunk.\<close>
definition wav_fmt_ok :: "int \<Rightarrow> byte list \<Rightarrow> bool" where
  "wav_fmt_ok rate chunk \<longleftrightarrow>
     \<not> length chunk < 16
     \<and> get_u16 chunk = Some 1
     \<and> get_u16 (drop 2 chunk) = Some 1
     \<and> (case get_u32 (drop 4 chunk) of None \<Rightarrow> False | Some r \<Rightarrow> int (unat r) = rate)
     \<and> get_u16 (drop 12 chunk) = Some 2
     \<and> get_u16 (drop 14 chunk) = Some 16"

definition slice_panic :: error where
  "slice_panic = ''panic: slice bounds out of range''"

text \<open>The switch on a chunk's tag, over the loop's two variables.\<close>
definition wav_chunk ::
  "int \<Rightarrow> nat \<Rightarrow> byte list \<Rightarrow> byte list \<Rightarrow> bool \<Rightarrow> byte list option \<Rightarrow> error + (bool \<times> byte list option)"
where
  "wav_chunk rate max_bytes tag chunk valid pcm =
     (if tag = tag_fmt then
        (if \<not> wav_fmt_ok rate chunk then Inl ''WAV must be PCM16 mono'' else Inr (True, pcm))
      else if tag = tag_data then
        (if pcm \<noteq> None \<or> length chunk = 0 \<or> length chunk > max_bytes \<or> length chunk mod 2 \<noteq> 0
         then Inl ''invalid PCM data'' else Inr (valid, Some chunk))
      else Inr (valid, pcm))"

function wav_chunks ::
  "int \<Rightarrow> nat \<Rightarrow> byte list \<Rightarrow> nat \<Rightarrow> bool \<Rightarrow> byte list option \<Rightarrow> error + (bool \<times> byte list option)"
where
  "wav_chunks rate max_bytes data offset valid pcm =
     (if offset < length data then
        if offset + 8 > length data then Inl ''truncated WAV chunk''
        else (case get_u32 (drop (offset + 4) data) of
          None \<Rightarrow> Inl slice_panic
        | Some sz \<Rightarrow>
            if offset + 8 + unat sz > length data then Inl ''truncated WAV payload''
            else (case wav_chunk rate max_bytes (take 4 (drop offset data))
                         (take (unat sz) (drop (offset + 8) data)) valid pcm of
              Inl e \<Rightarrow> Inl e
            | Inr (valid', pcm') \<Rightarrow>
                if offset + 8 + unat sz + unat sz mod 2 > length data
                then Inl ''missing WAV chunk padding''
                else wav_chunks rate max_bytes data (offset + 8 + unat sz + unat sz mod 2) valid' pcm'))
      else Inr (valid, pcm))"
  by pat_completeness auto
termination
  by (relation "measure (\<lambda>(rate, max_bytes, data, offset, valid, pcm). length data - offset)") auto

declare wav_chunks.simps [simp del]

text \<open>
  \<open>ReadPCM16WAV\<close>: the argument is what reading the stream to its end gives, a read error or
  its bytes; the limited reader keeps at most \<open>max_bytes + 4097\<close> of them.
\<close>
definition ReadPCM16WAV :: "error + byte list \<Rightarrow> int \<Rightarrow> nat \<Rightarrow> error + byte list" where
  "ReadPCM16WAV stream rate max_bytes =
     (case stream of
        Inl e \<Rightarrow> Inl e
      | Inr all \<Rightarrow>
          (let data = take (max_bytes + 4097) all in
           if length data > max_bytes + 4096 \<or> length data < 12
              \<or> take 4 data \<noteq> tag_RIFF \<or> take 4 (drop 8 data) \<noteq> tag_WAVE
           then Inl ''invalid or oversized WAV''
           else if (case get_u32 (drop 4 data) of
                      None \<Rightarrow> True | Some n \<Rightarrow> unat n + 8 \<noteq> length data)
           then Inl ''invalid RIFF size''
           else (case wav_chunks rate max_bytes data 12 False None of
                   Inl e \<Rightarrow> Inl e
                 | Inr (valid, pcm) \<Rightarrow>
                     (if \<not> valid \<or> pcm = None then Inl ''WAV requires fmt and data chunks''
                      else Inr (the pcm)))))"

text \<open>\<open>WritePCM16WAV\<close>: the 44-byte header it builds, and its two writes.\<close>
definition wav_header :: "byte list \<Rightarrow> int \<Rightarrow> byte list" where
  "wav_header pcm rate =
     tag_RIFF @ put_u32 (word_of_nat (36 + length pcm)) @ tag_WAVE @ tag_fmt
     @ put_u32 16 @ put_u16 1 @ put_u16 1
     @ put_u32 (word_of_int rate) @ put_u32 (word_of_int (rate * 2))
     @ put_u16 2 @ put_u16 16
     @ tag_data @ put_u32 (word_of_nat (length pcm))"

definition wav_writable :: "byte list \<Rightarrow> int \<Rightarrow> bool" where
  "wav_writable pcm rate \<longleftrightarrow>
     \<not> (length pcm = 0 \<or> length pcm mod 2 \<noteq> 0 \<or> length pcm > 30 * 48000 * 2
        \<or> rate < 8000 \<or> rate > 48000)"

text \<open>
  The writer is an argument: the number of bytes and the error each \<open>Write\<close> returns. The
  result is the error, if any, and the chunks handed to the writer.
\<close>
definition WritePCM16WAV ::
  "(byte list \<Rightarrow> nat \<times> error option) \<Rightarrow> byte list \<Rightarrow> int \<Rightarrow> error option \<times> byte list list"
where
  "WritePCM16WAV w pcm rate =
     (if \<not> wav_writable pcm rate then (Some ''invalid output PCM format or size'', [])
      else
        (let header = wav_header pcm rate in
         case w header of
           (_, Some e) \<Rightarrow> (Some e, [header])
         | (n, None) \<Rightarrow>
             (if n \<noteq> length header then (Some ''short write'', [header])
              else (case w pcm of
                  (_, Some e) \<Rightarrow> (Some e, [header, pcm])
                | (m, None) \<Rightarrow>
                    (if m \<noteq> length pcm then (Some ''short write'', [header, pcm])
                     else (None, [header, pcm]))))))"

text \<open>A writer that never fails.\<close>
definition full_writer :: "byte list \<Rightarrow> nat \<times> error option" where
  "full_writer bs = (length bs, None)"

section \<open>What the reader returns\<close>

definition wav_pcm_ok :: "nat \<Rightarrow> byte list \<Rightarrow> byte list \<Rightarrow> bool" where
  "wav_pcm_ok max_bytes data p \<longleftrightarrow>
     p \<noteq> [] \<and> even (length p) \<and> length p \<le> max_bytes
     \<and> (\<exists>off. p = take (length p) (drop off data))"

lemma take_length_drop: "p = take n (drop off data) \<Longrightarrow> p = take (length p) (drop off data)"
  by (simp add: min_def)

lemma wav_chunk_pcm:
  assumes "wav_chunk rate max_bytes tag (take n (drop off data)) valid pcm = Inr (v', Some p)"
    and "\<And>q. pcm = Some q \<Longrightarrow> wav_pcm_ok max_bytes data q"
  shows "wav_pcm_ok max_bytes data p"
proof (cases "pcm = Some p")
  case True
  then show ?thesis by (rule assms(2))
next
  case False
  with assms(1) have "p = take n (drop off data)" "p \<noteq> []" "length p \<le> max_bytes" "length p mod 2 = 0"
    by (auto simp: wav_chunk_def split: if_splits)
  then show ?thesis
    unfolding wav_pcm_ok_def by (metis even_iff_mod_2_eq_zero take_length_drop)
qed

lemma wav_chunks_pcm:
  "wav_chunks rate max_bytes data offset valid pcm = Inr (v', Some p) \<Longrightarrow>
     (\<And>q. pcm = Some q \<Longrightarrow> wav_pcm_ok max_bytes data q) \<Longrightarrow> wav_pcm_ok max_bytes data p"
proof (induction rate max_bytes data offset valid pcm rule: wav_chunks.induct)
  case (1 rate max_bytes data offset valid pcm)
  show ?case
  proof (cases "offset < length data")
    case False
    with "1.prems" show ?thesis by (simp add: wav_chunks.simps [of rate max_bytes data offset])
  next
    case True
    with "1.prems"(1) obtain sz v pc where
      c: "\<not> offset + 8 > length data" "get_u32 (drop (offset + 4) data) = Some sz"
         "\<not> offset + 8 + unat sz > length data"
         "wav_chunk rate max_bytes (take 4 (drop offset data))
            (take (unat sz) (drop (offset + 8) data)) valid pcm = Inr (v, pc)"
         "\<not> offset + 8 + unat sz + unat sz mod 2 > length data"
      and rec: "wav_chunks rate max_bytes data (offset + 8 + unat sz + unat sz mod 2) v pc
         = Inr (v', Some p)"
      by (auto simp: wav_chunks.simps [of rate max_bytes data offset]
          split: if_splits option.splits sum.splits)
    show ?thesis
      by (rule "1.IH" [OF True c(1,2,3,4) refl c(5) rec]) (use c(4) "1.prems"(2) in \<open>auto dest: wav_chunk_pcm\<close>)
  qed
qed

lemma get_u32_Some: "4 \<le> length bs \<Longrightarrow> \<exists>v. get_u32 bs = Some v"
  by (auto simp: get_u32_def split: list.split)

lemma wav_chunk_no_panic: "wav_chunk rate max_bytes tag chunk valid pcm \<noteq> Inl slice_panic"
  by (simp add: wav_chunk_def slice_panic_def)

lemma wav_chunks_no_panic: "wav_chunks rate max_bytes data offset valid pcm \<noteq> Inl slice_panic"
proof (induction rate max_bytes data offset valid pcm rule: wav_chunks.induct)
  case (1 rate max_bytes data offset valid pcm)
  show ?case
  proof (cases "offset < length data \<and> \<not> offset + 8 > length data")
    case False
    then show ?thesis
      by (auto simp: wav_chunks.simps [of rate max_bytes data offset] slice_panic_def)
  next
    case True
    then have "4 \<le> length (drop (offset + 4) data)" by auto
    then obtain sz where sz: "get_u32 (drop (offset + 4) data) = Some sz"
      using get_u32_Some by blast
    let ?w = "wav_chunk rate max_bytes (take 4 (drop offset data))
      (take (unat sz) (drop (offset + 8) data)) valid pcm"
    show ?thesis
    proof (cases ?w)
      case (Inl e)
      then show ?thesis
        using True sz wav_chunk_no_panic [of rate max_bytes]
        by (simp add: wav_chunks.simps [of rate max_bytes data offset]) (auto simp: slice_panic_def)
    next
      case (Inr vp)
      then show ?thesis
        using True sz "1.IH" [OF _ _ sz _ _ refl, of "fst vp" "snd vp"]
        by (cases vp) (auto simp: wav_chunks.simps [of rate max_bytes data offset] slice_panic_def)
    qed
  qed
qed

text \<open>
  Whatever the file holds, the reader stays inside its buffer (it never panics), and the
  audio it returns is a nonempty, even number of bytes within the caller's limit, taken
  unchanged from one place of the file.
\<close>
theorem read_wav_safe:
  "case ReadPCM16WAV (Inr wav) rate max_bytes of
     Inl e \<Rightarrow> e \<noteq> slice_panic
   | Inr p \<Rightarrow> wav_pcm_ok max_bytes wav p"
proof (cases "length wav > max_bytes + 4096")
  case True
  then show ?thesis by (simp add: ReadPCM16WAV_def slice_panic_def)
next
  case False
  then have whole: "take (max_bytes + 4097) wav = wav" by simp
  show ?thesis
    using wav_chunks_no_panic [of rate max_bytes wav 12 False None]
      wav_chunks_pcm [of rate max_bytes wav 12 False None]
    unfolding ReadPCM16WAV_def sum.case whole Let_def
    by (auto simp: slice_panic_def split: sum.splits option.splits)
qed

section \<open>Round trip\<close>

lemma length_tags [simp]:
  "length tag_RIFF = 4" "length tag_WAVE = 4" "length tag_fmt = 4" "length tag_data = 4"
  by (simp_all add: tag_RIFF_def tag_WAVE_def tag_fmt_def tag_data_def)

lemma tag_data_fmt [simp]: "tag_data \<noteq> tag_fmt"
  by (simp add: tag_fmt_def tag_data_def bytes_of_def bval_def)

lemma length_wav_header [simp]: "length (wav_header pcm rate) = 44"
  by (simp add: wav_header_def)

text \<open>The reader's view of a file the writer produced: two chunks, at 12 and at 36.\<close>

lemma wav_header_views:
  fixes pcm :: "byte list" and rate :: int
  defines "data \<equiv> wav_header pcm rate @ pcm"
  shows "take 4 data = tag_RIFF" "take 4 (drop 8 data) = tag_WAVE"
    "get_u32 (drop 4 data) = Some (word_of_nat (36 + length pcm))"
    "take 4 (drop 12 data) = tag_fmt" "get_u32 (drop 16 data) = Some 16"
    "take 16 (drop 20 data) = put_u16 1 @ put_u16 1 @ put_u32 (word_of_int rate)
       @ put_u32 (word_of_int (rate * 2)) @ put_u16 2 @ put_u16 16"
    "take 4 (drop 36 data) = tag_data" "get_u32 (drop 40 data) = Some (word_of_nat (length pcm))"
    "drop 44 data = pcm"
  unfolding data_def wav_header_def by simp_all

lemma wav_fmt_ok_header:
  assumes "8000 \<le> rate" "rate \<le> 48000"
  shows "wav_fmt_ok rate (put_u16 1 @ put_u16 1 @ put_u32 (word_of_int rate)
       @ put_u32 byte_rate @ put_u16 2 @ put_u16 16)"
proof -
  have "int (unat (word_of_int rate :: u32)) = rate"
    using assms by (simp add: unsigned_of_int take_bit_int_eq_self)
  then show ?thesis
    unfolding wav_fmt_ok_def by simp
qed

text \<open>
  Reading back a file the client wrote gives the audio it was given, at the same rate and
  with any limit the audio fits in: the writer's output is one well-formed WAV file.
\<close>
theorem wav_roundtrip:
  assumes "wav_writable pcm rate" and "length pcm \<le> max_bytes"
  shows "ReadPCM16WAV (Inr (concat (snd (WritePCM16WAV full_writer pcm rate)))) rate max_bytes
    = Inr pcm"
proof -
  let ?data = "wav_header pcm rate @ pcm"
  have len: "length pcm \<noteq> 0" "length pcm mod 2 = 0" "length pcm \<le> 2880000"
    and rate: "8000 \<le> rate" "rate \<le> 48000"
    using assms(1) by (auto simp: wav_writable_def)
  have u: "unat (word_of_nat (36 + length pcm) :: u32) = 36 + length pcm"
    "unat (word_of_nat (length pcm) :: u32) = length pcm"
    using len(3) by (intro unat_word_of_nat32; simp)+
  have w: "concat (snd (WritePCM16WAV full_writer pcm rate)) = ?data"
    using assms(1) by (simp add: WritePCM16WAV_def full_writer_def Let_def)
  have t: "take (max_bytes + 4097) ?data = ?data" using assms(2) by simp
  have d: "wav_chunks rate max_bytes ?data 36 True None = Inr (True, Some pcm)"
    using len assms(2)
    by (simp add: wav_chunks.simps [of rate max_bytes ?data] wav_header_views u wav_chunk_def
        del: drop_append take_append)
  have "wav_chunks rate max_bytes ?data 12 False None = Inr (True, Some pcm)"
    using d rate
    by (simp add: wav_chunks.simps [of rate max_bytes ?data 12] wav_header_views wav_chunk_def
        wav_fmt_ok_header del: drop_append take_append)
  then show ?thesis
    unfolding w unfolding ReadPCM16WAV_def sum.case t Let_def
    using assms(2) by (simp add: wav_header_views u del: drop_append take_append of_nat_add)
qed

theorem wav_roundtrip_witness:
  "ReadPCM16WAV (Inr (concat (snd (WritePCM16WAV full_writer [1, 2, 3, 4] 16000)))) 16000 960000
    = Inr [1, 2, 3, 4]"
  by (rule wav_roundtrip) (simp_all add: wav_writable_def)

end
