(* ===== verification/Go_Json.thy ===== *)
theory Go_Json
  imports Go_Encoding
begin

text \<open>
  The part of Go's \<open>encoding/json\<close> the program uses: a parser on byte strings that returns the
  rest of its input (as \<open>json.Decoder\<close> does), the raw text of an object's members (for
  \<open>json.RawMessage\<close> and for decoding into structs), and the encoder with its sorted map keys
  and HTML escaping. Numbers keep their literal; what \<open>float64\<close> makes of a literal is an
  argument of the functions that decode into \<open>any\<close> without \<open>UseNumber\<close>.
\<close>

datatype json =
    JNull
  | JBool bool
  | JNum string
  | JStr string
  | JArr "json list"
  | JObj "(string \<times> json) list"

section \<open>Tokens\<close>

definition json_ws :: "char \<Rightarrow> bool" where
  "json_ws c \<longleftrightarrow> bval c \<in> {9, 10, 13, 32}"

definition skip_ws :: "string \<Rightarrow> string" where
  "skip_ws s = dropWhile json_ws s"

definition hex4 :: "char \<Rightarrow> char \<Rightarrow> char \<Rightarrow> char \<Rightarrow> nat option" where
  "hex4 a b c d =
     (case (hex_val a, hex_val b, hex_val c, hex_val d) of
        (Some w, Some x, Some y, Some z) \<Rightarrow> Some (w * 4096 + x * 256 + y * 16 + z)
      | _ \<Rightarrow> None)"

definition is_surrogate :: "nat \<Rightarrow> bool" where
  "is_surrogate r \<longleftrightarrow> 55296 \<le> r \<and> r \<le> 57343"

text \<open>A low surrogate escape right after a high one: the pair's code point, and what follows.\<close>
definition low_surrogate :: "nat \<Rightarrow> string \<Rightarrow> (nat \<times> string) option" where
  "low_surrogate hi s =
     (case s of
        b # u # h1 # h2 # h3 # h4 # r \<Rightarrow>
          if bval b = 92 \<and> bval u = 117 \<and> hi \<le> 56319 then
            (case hex4 h1 h2 h3 h4 of
               Some lo \<Rightarrow> if 56320 \<le> lo \<and> lo \<le> 57343
                 then Some (65536 + (hi - 55296) * 1024 + (lo - 56320), r) else None
             | None \<Rightarrow> None)
          else None
      | _ \<Rightarrow> None)"

lemma low_surrogate_length: "low_surrogate hi s = Some (r, t) \<Longrightarrow> length t < length s"
  by (auto simp: low_surrogate_def split: list.splits if_splits option.splits)

definition simple_escape :: "char \<Rightarrow> nat option" where
  "simple_escape c = (let b = bval c in
     if b = 34 \<or> b = 92 \<or> b = 47 then Some b
     else if b = 98 then Some 8 else if b = 102 then Some 12 else if b = 110 then Some 10
     else if b = 114 then Some 13 else if b = 116 then Some 9 else None)"

text \<open>
  The next unit of a string literal: its closing quote (\<open>None\<close>), or an escape or character with
  the bytes it stands for; invalid UTF-8 and lone surrogates become U+FFFD.
\<close>
definition str_unit :: "string \<Rightarrow> (string option \<times> string) option" where
  "str_unit s =
     (case s of
        [] \<Rightarrow> None
      | c # cs \<Rightarrow>
          if bval c = 34 then Some (None, cs)
          else if bval c < 32 then None
          else if bval c \<noteq> 92 \<and> bval c < 128 then Some (Some [c], cs)
          else if bval c = 92 then
            (case cs of
               [] \<Rightarrow> None
             | e # es \<Rightarrow>
                (case simple_escape e of
                   Some b \<Rightarrow> Some (Some [bchr b], es)
                 | None \<Rightarrow>
                     if bval e = 117 then
                       (case es of
                          h1 # h2 # h3 # h4 # r \<Rightarrow>
                            (case hex4 h1 h2 h3 h4 of
                               None \<Rightarrow> None
                             | Some n \<Rightarrow>
                                 if is_surrogate n then
                                   (case low_surrogate n r of
                                      Some (m, r') \<Rightarrow> Some (Some (encode_rune m), r')
                                    | None \<Rightarrow> Some (Some (encode_rune rune_error), r))
                                 else Some (Some (encode_rune n), r))
                        | _ \<Rightarrow> None)
                     else None))
          else (case decode_rune (c # cs) of (r, n) \<Rightarrow> Some (Some (encode_rune r), drop (n - 1) cs)))"

lemma str_unit_length: "str_unit s = Some (b, r) \<Longrightarrow> length r < length s"
  unfolding str_unit_def
  by (auto split: list.splits if_splits option.splits prod.splits dest: low_surrogate_length
      simp del: decode_rune.simps)

text \<open>A string literal after its opening quote: the bytes it stands for, and the rest.\<close>
function lex_str :: "string \<Rightarrow> (string \<times> string) option" where
  "lex_str s =
     (case str_unit s of
        None \<Rightarrow> None
      | Some (None, r) \<Rightarrow> Some ([], r)
      | Some (Some b, r) \<Rightarrow> map_option (apfst (append b)) (lex_str r))"
  by pat_completeness auto
termination
  by (relation "measure length") (auto dest: str_unit_length)

declare lex_str.simps [simp del]

lemma lex_str_length: "lex_str s = Some (t, r) \<Longrightarrow> length r < length s"
proof (induction s arbitrary: t rule: lex_str.induct)
  case (1 s)
  then show ?case
    by (fastforce simp: lex_str.simps [of s] split: option.splits prod.splits dest: str_unit_length)
qed

text \<open>A number literal, as the JSON grammar has it.\<close>

definition lex_digits :: "string \<Rightarrow> (string \<times> string) option" where
  "lex_digits s = (if takeWhile is_digit s = [] then None
     else Some (takeWhile is_digit s, dropWhile is_digit s))"

definition lex_int :: "string \<Rightarrow> (string \<times> string) option" where
  "lex_int s = (case s of c # r \<Rightarrow> if bval c = 48 then Some ([c], r) else lex_digits s | [] \<Rightarrow> None)"

definition lex_frac :: "string \<Rightarrow> (string \<times> string) option" where
  "lex_frac s = (case s of
       c # r \<Rightarrow> if bval c = 46 then map_option (apfst (Cons c)) (lex_digits r) else Some ([], s)
     | [] \<Rightarrow> Some ([], s))"

definition lex_exp :: "string \<Rightarrow> (string \<times> string) option" where
  "lex_exp s = (case s of
       c # r \<Rightarrow>
         if bval c = 101 \<or> bval c = 69 then
           (case r of
              d # r' \<Rightarrow> if bval d = 43 \<or> bval d = 45
                then map_option (apfst (\<lambda>t. c # d # t)) (lex_digits r')
                else map_option (apfst (Cons c)) (lex_digits r)
            | [] \<Rightarrow> None)
         else Some ([], s)
     | [] \<Rightarrow> Some ([], s))"

definition lex_num :: "string \<Rightarrow> (string \<times> string) option" where
  "lex_num s =
     (let sg = (case s of c # _ \<Rightarrow> if bval c = 45 then [c] else [] | [] \<Rightarrow> []) in
      case lex_int (drop (length sg) s) of
        None \<Rightarrow> None
      | Some (i, r1) \<Rightarrow> (case lex_frac r1 of
          None \<Rightarrow> None
        | Some (f, r2) \<Rightarrow> (case lex_exp r2 of
            None \<Rightarrow> None
          | Some (e, r3) \<Rightarrow> Some (sg @ i @ f @ e, r3))))"

lemma lex_digits_append: "lex_digits s = Some (t, r) \<Longrightarrow> t @ r = s \<and> t \<noteq> []"
  by (auto simp: lex_digits_def split: if_splits)

lemma lex_int_append: "lex_int s = Some (t, r) \<Longrightarrow> t @ r = s \<and> t \<noteq> []"
  by (auto simp: lex_int_def split: list.splits if_splits dest: lex_digits_append)

lemma lex_frac_append: "lex_frac s = Some (t, r) \<Longrightarrow> t @ r = s"
  by (auto simp: lex_frac_def split: list.splits if_splits dest: lex_digits_append)

lemma lex_exp_append: "lex_exp s = Some (t, r) \<Longrightarrow> t @ r = s"
  by (auto simp: lex_exp_def split: list.splits if_splits dest: lex_digits_append)

lemma lex_num_append: "lex_num s = Some (t, r) \<Longrightarrow> t @ r = s \<and> t \<noteq> []"
  unfolding lex_num_def Let_def
  by (auto split: option.splits prod.splits list.splits if_splits
      dest!: lex_int_append lex_frac_append lex_exp_append)

lemma lex_num_length: "lex_num s = Some (t, r) \<Longrightarrow> length r < length s"
  by (drule lex_num_append) auto

datatype tok = TOpenO | TCloseO | TOpenA | TCloseA | TComma | TColon | TLit json

definition word_tok :: "string \<Rightarrow> json \<Rightarrow> string \<Rightarrow> (tok \<times> string) option" where
  "word_tok w v s = (if has_prefix s w then Some (TLit v, drop (length w) s) else None)"

text \<open>The next token after white space, and the rest.\<close>
definition next_tok :: "string \<Rightarrow> (tok \<times> string) option" where
  "next_tok s0 =
     (case skip_ws s0 of
        [] \<Rightarrow> None
      | c # r \<Rightarrow>
          if c = CHR ''{'' then Some (TOpenO, r)
          else if c = CHR ''}'' then Some (TCloseO, r)
          else if c = CHR ''['' then Some (TOpenA, r)
          else if c = CHR '']'' then Some (TCloseA, r)
          else if c = CHR '','' then Some (TComma, r)
          else if c = CHR '':'' then Some (TColon, r)
          else if bval c = 34 then map_option (apfst (\<lambda>t. TLit (JStr t))) (lex_str r)
          else if c = CHR ''t'' then word_tok ''true'' (JBool True) (c # r)
          else if c = CHR ''f'' then word_tok ''false'' (JBool False) (c # r)
          else if c = CHR ''n'' then word_tok ''null'' JNull (c # r)
          else map_option (apfst (\<lambda>t. TLit (JNum t))) (lex_num (c # r)))"

lemma skip_ws_length: "length (skip_ws s) \<le> length s"
  by (simp add: skip_ws_def length_dropWhile_le)

lemma next_tok_length: "next_tok s = Some (t, r) \<Longrightarrow> length r < length s"
proof -
  assume *: "next_tok s = Some (t, r)"
  then have "length r < length (skip_ws s)"
    unfolding next_tok_def
    by (auto simp: word_tok_def split: list.splits if_splits dest!: lex_str_length lex_num_length)
  then show ?thesis using skip_ws_length [of s] by linarith
qed

section \<open>Values\<close>

text \<open>
  The parser is the scanner's stack of open arrays and objects, driven token by token.
\<close>
datatype frame = FArr "json list" | FObj "(string \<times> json) list" string
datatype mode = MVal | MFirst | MKey0 | MKey | MColon | MAfter

definition json_max_depth :: nat where "json_max_depth = 10000"

fun deliver :: "json \<Rightarrow> frame list \<Rightarrow> json + (mode \<times> frame list)" where
  "deliver v [] = Inl v"
| "deliver v (FArr xs # fs) = Inr (MAfter, FArr (xs @ [v]) # fs)"
| "deliver v (FObj kvs k # fs) = Inr (MAfter, FObj (kvs @ [(k, v)]) k # fs)"

definition value_step :: "tok \<Rightarrow> frame list \<Rightarrow> (json + (mode \<times> frame list)) option" where
  "value_step t fs =
     (case t of
        TLit v \<Rightarrow> Some (deliver v fs)
      | TOpenA \<Rightarrow> if length fs < json_max_depth then Some (Inr (MFirst, FArr [] # fs)) else None
      | TOpenO \<Rightarrow> if length fs < json_max_depth then Some (Inr (MKey0, FObj [] [] # fs)) else None
      | _ \<Rightarrow> None)"

definition key_step :: "tok \<Rightarrow> frame list \<Rightarrow> (json + (mode \<times> frame list)) option" where
  "key_step t fs =
     (case t of
        TLit v \<Rightarrow> (case v of
            JStr k \<Rightarrow> (case fs of FObj kvs _ # fs' \<Rightarrow> Some (Inr (MColon, FObj kvs k # fs')) | _ \<Rightarrow> None)
          | _ \<Rightarrow> None)
      | _ \<Rightarrow> None)"

text \<open>The open array or object ends.\<close>
definition close_step :: "tok \<Rightarrow> frame list \<Rightarrow> (json + (mode \<times> frame list)) option" where
  "close_step t fs =
     (case fs of
        FArr xs # fs' \<Rightarrow> if t = TCloseA then Some (deliver (JArr xs) fs') else None
      | FObj kvs _ # fs' \<Rightarrow> if t = TCloseO then Some (deliver (JObj kvs) fs') else None
      | [] \<Rightarrow> None)"

definition json_step :: "mode \<Rightarrow> tok \<Rightarrow> frame list \<Rightarrow> (json + (mode \<times> frame list)) option" where
  "json_step m t fs =
     (case m of
        MVal \<Rightarrow> value_step t fs
      | MFirst \<Rightarrow> if t = TCloseA then close_step t fs else value_step t fs
      | MKey0 \<Rightarrow> if t = TCloseO then close_step t fs else key_step t fs
      | MKey \<Rightarrow> key_step t fs
      | MColon \<Rightarrow> if t = TColon then Some (Inr (MVal, fs)) else None
      | MAfter \<Rightarrow>
          (if t = TComma then
             (case fs of
                FArr _ # _ \<Rightarrow> Some (Inr (MVal, fs)) | FObj _ _ # _ \<Rightarrow> Some (Inr (MKey, fs)) | [] \<Rightarrow> None)
           else close_step t fs))"

function json_run :: "mode \<Rightarrow> frame list \<Rightarrow> string \<Rightarrow> (json \<times> string) option" where
  "json_run m fs s =
     (case next_tok s of
        None \<Rightarrow> None
      | Some (t, r) \<Rightarrow>
          (case json_step m t fs of
             None \<Rightarrow> None
           | Some (Inl v) \<Rightarrow> Some (v, r)
           | Some (Inr (m', fs')) \<Rightarrow> json_run m' fs' r))"
  by pat_completeness auto
termination
  by (relation "measure (\<lambda>(m, fs, s). length s)") (auto dest: next_tok_length)

declare json_run.simps [simp del]

text \<open>One value off the front of the input, as \<open>Decoder.Decode\<close> takes it.\<close>
definition json_prefix :: "string \<Rightarrow> (json \<times> string) option" where
  "json_prefix s = json_run MVal [] s"

text \<open>The whole input is one value, as \<open>json.Unmarshal\<close> and \<open>json.Valid\<close> require.\<close>
definition json_whole :: "string \<Rightarrow> json option" where
  "json_whole s = (case json_prefix s of
       Some (v, r) \<Rightarrow> if skip_ws r = [] then Some v else None
     | None \<Rightarrow> None)"

definition json_valid :: "string \<Rightarrow> bool" where
  "json_valid s \<longleftrightarrow> json_whole s \<noteq> None"

lemma json_run_length: "json_run m fs s = Some (v, r) \<Longrightarrow> length r < length s"
proof (induction m fs s rule: json_run.induct)
  case (1 m fs s)
  then show ?case
    by (fastforce simp: json_run.simps [of m fs s] dest: next_tok_length
        split: option.splits sum.splits prod.splits)
qed

lemma json_prefix_length: "json_prefix s = Some (v, r) \<Longrightarrow> length r < length s"
  unfolding json_prefix_def by (rule json_run_length)

section \<open>Raw members\<close>

text \<open>
  The members of the object at the front of the input, each with the text of its value, in
  the order they stand; what follows the object is the second result.
\<close>
function raw_loop :: "string \<Rightarrow> ((string \<times> string) list \<times> string) option" where
  "raw_loop s =
     (case next_tok s of
        Some (TLit (JStr k), r1) \<Rightarrow>
          (case next_tok r1 of
             Some (TColon, r2) \<Rightarrow>
               (case json_prefix r2 of
                  Some (_, r3) \<Rightarrow>
                    (let raw = take (length (skip_ws r2) - length r3) (skip_ws r2) in
                     case next_tok r3 of
                       Some (TComma, r4) \<Rightarrow> map_option (apfst (Cons (k, raw))) (raw_loop r4)
                     | Some (TCloseO, r4) \<Rightarrow> Some ([(k, raw)], r4)
                     | _ \<Rightarrow> None)
                | None \<Rightarrow> None)
           | _ \<Rightarrow> None)
      | _ \<Rightarrow> None)"
  by pat_completeness auto
termination
  by (relation "measure length") (auto dest!: next_tok_length json_prefix_length)

declare raw_loop.simps [simp del]

definition raw_members :: "string \<Rightarrow> ((string \<times> string) list \<times> string) option" where
  "raw_members s =
     (case next_tok s of
        Some (TOpenO, r) \<Rightarrow>
          (case next_tok r of Some (TCloseO, r') \<Rightarrow> Some ([], r') | _ \<Rightarrow> raw_loop r)
      | _ \<Rightarrow> None)"

text \<open>The fold under which a key names a struct field: upper case, U+017F and U+212A included.\<close>
fun fold_name :: "string \<Rightarrow> string" where
  "fold_name (a # b # c # s) =
     (if bval a = 226 \<and> bval b = 132 \<and> bval c = 170 then CHR ''K'' # fold_name s
      else if bval a = 197 \<and> bval b = 191 then CHR ''S'' # fold_name (c # s)
      else (if is_lower a then bchr (bval a - 32) else a) # fold_name (b # c # s))"
| "fold_name (a # b # s) =
     (if bval a = 197 \<and> bval b = 191 then CHR ''S'' # fold_name s
      else (if is_lower a then bchr (bval a - 32) else a) # fold_name (b # s))"
| "fold_name (a # s) = (if is_lower a then bchr (bval a - 32) else a) # fold_name s"
| "fold_name [] = []"

definition names_field :: "string \<Rightarrow> string \<Rightarrow> bool" where
  "names_field key name \<longleftrightarrow> fold_name key = fold_name name"

text \<open>
  Decoding members into a struct: \<open>upd\<close> stores one member, \<open>None\<close> where the value has the wrong
  type or (with \<open>DisallowUnknownFields\<close>) the struct has no such field.
\<close>
fun decode_members :: "(string \<Rightarrow> string \<Rightarrow> 'r \<Rightarrow> 'r option) \<Rightarrow> (string \<times> string) list \<Rightarrow> 'r \<Rightarrow> 'r option"
where
  "decode_members upd [] x = Some x"
| "decode_members upd ((k, raw) # ms) x =
     (case upd k raw x of None \<Rightarrow> None | Some y \<Rightarrow> decode_members upd ms y)"

text \<open>
  A struct at the front of the input, and what follows; \<open>null\<close> leaves the struct as it is.
\<close>
definition decode_struct ::
  "(string \<Rightarrow> string \<Rightarrow> 'r \<Rightarrow> 'r option) \<Rightarrow> 'r \<Rightarrow> string \<Rightarrow> ('r \<times> string) option"
where
  "decode_struct upd x s =
     (case json_prefix s of
        None \<Rightarrow> None
      | Some (JNull, r) \<Rightarrow> Some (x, r)
      | Some _ \<Rightarrow>
          (case raw_members s of
             None \<Rightarrow> None
           | Some (ms, r) \<Rightarrow> map_option (\<lambda>y. (y, r)) (decode_members upd ms x)))"

text \<open>\<open>decoder.Decode(new(any)) == io.EOF\<close>: only white space is left.\<close>
definition at_eof :: "string \<Rightarrow> bool" where
  "at_eof r \<longleftrightarrow> skip_ws r = []"

text \<open>A struct that is the whole of a text, for nested structs.\<close>
definition decode_whole :: "(string \<Rightarrow> string \<Rightarrow> 'r \<Rightarrow> 'r option) \<Rightarrow> 'r \<Rightarrow> string \<Rightarrow> 'r option" where
  "decode_whole upd x s =
     (case decode_struct upd x s of Some (y, r) \<Rightarrow> if at_eof r then Some y else None | None \<Rightarrow> None)"

text \<open>
  Scalars: the outer option is the type error, the inner one says that \<open>null\<close> left the field.
\<close>
definition raw_string :: "string \<Rightarrow> string option option" where
  "raw_string raw = (case json_whole raw of
       Some (JStr s) \<Rightarrow> Some (Some s) | Some JNull \<Rightarrow> Some None | _ \<Rightarrow> None)"

definition raw_bool :: "string \<Rightarrow> bool option option" where
  "raw_bool raw = (case json_whole raw of
       Some (JBool b) \<Rightarrow> Some (Some b) | Some JNull \<Rightarrow> Some None | _ \<Rightarrow> None)"

text \<open>
  A string field of an anonymous struct, where the decoding error is dropped: \<open>[]\<close> unless the
  text is an object, and members of another type are skipped.
\<close>
definition member_string :: "string \<Rightarrow> string \<Rightarrow> string" where
  "member_string name txt =
     (if \<not> json_valid txt then []
      else (case raw_members txt of
          None \<Rightarrow> []
        | Some (ms, _) \<Rightarrow>
            foldl (\<lambda>s (k, raw). if names_field k name
                then (case raw_string raw of Some (Some t) \<Rightarrow> t | _ \<Rightarrow> s) else s) [] ms))"

text \<open>
  A \<open>map[string]json.RawMessage\<close> off the front of the input: the members, the last of equal
  keys first. \<open>raw_get\<close> and \<open>raw_get_int\<close> are \<open>json.Unmarshal(m[k], &v)\<close> with the error dropped.
\<close>
definition decode_raw_map :: "string \<Rightarrow> (string \<times> string) list option" where
  "decode_raw_map s =
     (case json_prefix s of
        Some (JNull, _) \<Rightarrow> Some []
      | Some (JObj _, _) \<Rightarrow> map_option (rev \<circ> fst) (raw_members s)
      | _ \<Rightarrow> None)"

definition raw_get :: "(string \<times> string) list \<Rightarrow> string \<Rightarrow> string" where
  "raw_get m k = (case map_of m k of
       Some raw \<Rightarrow> (case raw_string raw of Some (Some s) \<Rightarrow> s | _ \<Rightarrow> []) | None \<Rightarrow> [])"

text \<open>\<open>strconv.ParseInt\<close> and \<open>ParseUint\<close> of a literal, in 64 bits.\<close>
definition parse_int64 :: "string \<Rightarrow> int option" where
  "parse_int64 l =
     (let neg = (case l of c # _ \<Rightarrow> bval c = 45 | [] \<Rightarrow> False);
          ds = (if neg then tl l else l) in
      if ds = [] \<or> \<not> list_all is_digit ds then None
      else (let v = (if neg then - int (digits_val ds) else int (digits_val ds)) in
            if - 9223372036854775808 \<le> v \<and> v \<le> 9223372036854775807 then Some v else None))"

definition parse_uint64 :: "string \<Rightarrow> u64 option" where
  "parse_uint64 l =
     (if l = [] \<or> \<not> list_all is_digit l \<or> digits_val l > 18446744073709551615 then None
      else Some (word_of_nat (digits_val l)))"

definition raw_int :: "string \<Rightarrow> int option option" where
  "raw_int raw = (case json_whole raw of
       Some (JNum l) \<Rightarrow> map_option Some (parse_int64 l) | Some JNull \<Rightarrow> Some None | _ \<Rightarrow> None)"

definition raw_uint64 :: "string \<Rightarrow> u64 option option" where
  "raw_uint64 raw = (case json_whole raw of
       Some (JNum l) \<Rightarrow> map_option Some (parse_uint64 l) | Some JNull \<Rightarrow> Some None | _ \<Rightarrow> None)"

definition raw_get_int :: "(string \<times> string) list \<Rightarrow> string \<Rightarrow> int" where
  "raw_get_int m k = (case map_of m k of
       Some raw \<Rightarrow> (case raw_int raw of Some (Some i) \<Rightarrow> i | _ \<Rightarrow> 0) | None \<Rightarrow> 0)"

text \<open>Store a decoded scalar, keeping the old value on \<open>null\<close>.\<close>
definition store :: "'v option option \<Rightarrow> ('v \<Rightarrow> 'r \<Rightarrow> 'r) \<Rightarrow> 'r \<Rightarrow> 'r option" where
  "store v upd x = (case v of None \<Rightarrow> None | Some None \<Rightarrow> Some x | Some (Some y) \<Rightarrow> Some (upd y x))"

text \<open>
  Struct fields by name, with a function that stores the raw value: \<open>strict_fields\<close> is
  \<open>DisallowUnknownFields\<close>, \<open>lax_fields\<close> skips a key the struct does not have.
\<close>
type_synonym 'r fields = "(string \<times> (string \<Rightarrow> 'r \<Rightarrow> 'r option)) list"

definition find_field :: "'r fields \<Rightarrow> string \<Rightarrow> (string \<Rightarrow> 'r \<Rightarrow> 'r option) option" where
  "find_field fs k = map_option snd (find (\<lambda>(n, _). names_field k n) fs)"

definition strict_fields :: "'r fields \<Rightarrow> string \<Rightarrow> string \<Rightarrow> 'r \<Rightarrow> 'r option" where
  "strict_fields fs k raw x = (case find_field fs k of None \<Rightarrow> None | Some g \<Rightarrow> g raw x)"

definition lax_fields :: "'r fields \<Rightarrow> string \<Rightarrow> string \<Rightarrow> 'r \<Rightarrow> 'r option" where
  "lax_fields fs k raw x = (case find_field fs k of None \<Rightarrow> Some x | Some g \<Rightarrow> g raw x)"

definition string_field :: "string \<Rightarrow> (string \<Rightarrow> 'r \<Rightarrow> 'r) \<Rightarrow> string \<times> (string \<Rightarrow> 'r \<Rightarrow> 'r option)" where
  "string_field n upd = (n, \<lambda>raw. store (raw_string raw) upd)"

definition int_field :: "string \<Rightarrow> (int \<Rightarrow> 'r \<Rightarrow> 'r) \<Rightarrow> string \<times> (string \<Rightarrow> 'r \<Rightarrow> 'r option)" where
  "int_field n upd = (n, \<lambda>raw. store (raw_int raw) upd)"

definition uint64_field :: "string \<Rightarrow> (u64 \<Rightarrow> 'r \<Rightarrow> 'r) \<Rightarrow> string \<times> (string \<Rightarrow> 'r \<Rightarrow> 'r option)" where
  "uint64_field n upd = (n, \<lambda>raw. store (raw_uint64 raw) upd)"

definition bool_field :: "string \<Rightarrow> (bool \<Rightarrow> 'r \<Rightarrow> 'r) \<Rightarrow> string \<times> (string \<Rightarrow> 'r \<Rightarrow> 'r option)" where
  "bool_field n upd = (n, \<lambda>raw. store (raw_bool raw) upd)"

text \<open>A \<open>json.RawMessage\<close> keeps the text, \<open>null\<close> included.\<close>
definition raw_field :: "string \<Rightarrow> (string \<Rightarrow> 'r \<Rightarrow> 'r) \<Rightarrow> string \<times> (string \<Rightarrow> 'r \<Rightarrow> 'r option)" where
  "raw_field n upd = (n, \<lambda>raw x. Some (upd raw x))"

text \<open>A nested struct.\<close>
definition struct_field ::
  "string \<Rightarrow> 'a fields \<Rightarrow> ('r \<Rightarrow> 'a) \<Rightarrow> ('a \<Rightarrow> 'r \<Rightarrow> 'r) \<Rightarrow> string \<times> (string \<Rightarrow> 'r \<Rightarrow> 'r option)"
where
  "struct_field n fs get upd = (n, \<lambda>raw x.
     map_option (\<lambda>y. upd y x) (decode_whole (strict_fields fs) (get x) raw))"

text \<open>
  \<open>json.Unmarshal(s, &x)\<close> into a plain struct with the error reported, and with it dropped: then a
  member of another type leaves its field alone.
\<close>
definition unmarshal :: "'r fields \<Rightarrow> 'r \<Rightarrow> string \<Rightarrow> 'r option" where
  "unmarshal fs zero s = decode_whole (lax_fields fs) zero s"

definition lenient_fields :: "'r fields \<Rightarrow> string \<Rightarrow> string \<Rightarrow> 'r \<Rightarrow> 'r option" where
  "lenient_fields fs k raw x = (case find_field fs k of None \<Rightarrow> Some x
     | Some g \<Rightarrow> Some (case g raw x of None \<Rightarrow> x | Some y \<Rightarrow> y))"

definition unmarshal_lenient :: "'r fields \<Rightarrow> 'r \<Rightarrow> string \<Rightarrow> 'r" where
  "unmarshal_lenient fs zero s =
     (case decode_whole (lenient_fields fs) zero s of None \<Rightarrow> zero | Some y \<Rightarrow> y)"

text \<open>A pointer to a struct: \<open>null\<close> is nil, an object is decoded into what is there already.\<close>
definition pointer_field ::
  "string \<Rightarrow> 'a fields \<Rightarrow> 'a \<Rightarrow> ('r \<Rightarrow> 'a option) \<Rightarrow> ('a option \<Rightarrow> 'r \<Rightarrow> 'r)
   \<Rightarrow> string \<times> (string \<Rightarrow> 'r \<Rightarrow> 'r option)"
where
  "pointer_field n fs zero get upd = (n, \<lambda>raw x.
     if json_whole raw = Some JNull then Some (upd None x)
     else map_option (\<lambda>y. upd (Some y) x)
       (decode_whole (strict_fields fs) (case get x of None \<Rightarrow> zero | Some y \<Rightarrow> y) raw))"

text \<open>
  A \<open>float64\<close> field keeps the literal. Decoding fails only where the literal rounds to infinity,
  at \<open>2^1024 - 2^970\<close>.
\<close>
definition f64_parts :: "string \<Rightarrow> nat \<times> int" where
  "f64_parts l =
     (let u = filter (\<lambda>c. bval c \<noteq> 45) (takeWhile (\<lambda>c. bval c \<noteq> 101 \<and> bval c \<noteq> 69) l);
          e = drop 1 (dropWhile (\<lambda>c. bval c \<noteq> 101 \<and> bval c \<noteq> 69) l);
          frac = drop 1 (dropWhile (\<lambda>c. bval c \<noteq> 46) u);
          ex = (case e of [] \<Rightarrow> 0
                | c # r \<Rightarrow> if bval c = 45 then - int (digits_val r)
                           else if bval c = 43 then int (digits_val r) else int (digits_val e))
      in (digits_val (filter is_digit u), ex - int (length frac)))"

definition f64_limit :: nat where "f64_limit = 2 ^ 1024 - 2 ^ 970"

definition f64_ok :: "string \<Rightarrow> bool" where
  "f64_ok l = (case f64_parts l of (m, e) \<Rightarrow>
     if 0 \<le> e then m = 0 \<or> m * 10 ^ nat e < f64_limit else m < f64_limit * 10 ^ nat (- e))"

text \<open>Is the \<open>float64\<close> of a literal greater than zero? Up to \<open>2^-1075\<close> it rounds to zero.\<close>
definition f64_pos :: "string \<Rightarrow> bool" where
  "f64_pos l \<longleftrightarrow> (case l of c # _ \<Rightarrow> bval c \<noteq> 45 | [] \<Rightarrow> False)
     \<and> (case f64_parts l of (m, e) \<Rightarrow> 10 ^ nat (- e) < m * 10 ^ nat e * 2 ^ 1075)"

definition raw_float :: "string \<Rightarrow> string option option" where
  "raw_float raw = (case json_whole raw of
       Some (JNum l) \<Rightarrow> if f64_ok l then Some (Some l) else None
     | Some JNull \<Rightarrow> Some None | _ \<Rightarrow> None)"

definition float_field :: "string \<Rightarrow> (string \<Rightarrow> 'r \<Rightarrow> 'r) \<Rightarrow> string \<times> (string \<Rightarrow> 'r \<Rightarrow> 'r option)" where
  "float_field n upd = (n, \<lambda>raw. store (raw_float raw) upd)"

text \<open>
  A \<open>[]byte\<close> field: base64 (without \<open>Strict\<close>), an array of numbers, or \<open>null\<close> for nil.
\<close>
definition byte_elem :: "json \<Rightarrow> byte option" where
  "byte_elem v = (case v of
       JNum l \<Rightarrow> (case parse_uint64 l of
           Some w \<Rightarrow> if unat w \<le> 255 then Some (word_of_nat (unat w)) else None | None \<Rightarrow> None)
     | JNull \<Rightarrow> Some 0 | _ \<Rightarrow> None)"

definition raw_bytes :: "string \<Rightarrow> byte list option" where
  "raw_bytes raw = (case json_whole raw of
       Some (JStr s) \<Rightarrow> b64_decode_lax s
     | Some (JArr vs) \<Rightarrow> those (map byte_elem vs)
     | Some JNull \<Rightarrow> Some []
     | _ \<Rightarrow> None)"

definition bytes_field :: "string \<Rightarrow> (byte list \<Rightarrow> 'r \<Rightarrow> 'r) \<Rightarrow> string \<times> (string \<Rightarrow> 'r \<Rightarrow> 'r option)" where
  "bytes_field n upd = (n, \<lambda>raw x. map_option (\<lambda>v. upd v x) (raw_bytes raw))"

lemmas field_defs = bytes_field_def string_field_def int_field_def uint64_field_def bool_field_def raw_field_def
  struct_field_def pointer_field_def float_field_def strict_fields_def lax_fields_def find_field_def
  lenient_fields_def unmarshal_def unmarshal_lenient_def

section \<open>Encoding\<close>

definition hex_quad :: "nat \<Rightarrow> string" where
  "hex_quad n = [hex_digit (n div 4096 mod 16), hex_digit (n div 256 mod 16),
     hex_digit (n div 16 mod 16), hex_digit (n mod 16)]"

definition u_escape :: "nat \<Rightarrow> string" where
  "u_escape n = bchr 92 # CHR ''u'' # hex_quad n"

definition quote_piece :: "nat \<times> string \<Rightarrow> string" where
  "quote_piece p = (case p of (r, b) \<Rightarrow>
     if r < 128 then
       (if r = 34 \<or> r = 92 then [bchr 92, bchr r]
        else if r = 8 then [bchr 92, CHR ''b''] else if r = 12 then [bchr 92, CHR ''f'']
        else if r = 10 then [bchr 92, CHR ''n''] else if r = 13 then [bchr 92, CHR ''r'']
        else if r = 9 then [bchr 92, CHR ''t'']
        else if r < 32 \<or> r = 60 \<or> r = 62 \<or> r = 38 then u_escape r
        else b)
     else if r = rune_error \<and> length b = 1 then u_escape rune_error
     else if r = 8232 \<or> r = 8233 then u_escape r
     else b)"

definition json_quote :: "string \<Rightarrow> string" where
  "json_quote s = bchr 34 # concat (map quote_piece (pieces s)) @ [bchr 34]"

text \<open>A Go map from an object's members: the last of equal keys wins, keys in byte order.\<close>
definition go_map :: "(string \<times> 'v) list \<Rightarrow> (string \<times> 'v) list" where
  "go_map kvs = sort_key fst (foldl (\<lambda>m (k, v). gput k v m) [] kvs)"

definition comma :: "string list \<Rightarrow> string" where
  "comma ts = concat (case ts of [] \<Rightarrow> [] | t # r \<Rightarrow> t # map (Cons (CHR '','')) r)"

definition obj_text :: "(string \<times> string) list \<Rightarrow> string" where
  "obj_text kts = CHR ''{'' # comma (map (\<lambda>(k, t). json_quote k @ CHR '':'' # t) kts) @ [CHR ''}'']"

definition arr_text :: "string list \<Rightarrow> string" where
  "arr_text ts = CHR ''['' # comma ts @ [CHR '']'']"

definition bool_text :: "bool \<Rightarrow> string" where
  "bool_text b = (if b then ''true'' else ''false'')"

text \<open>\<open>json.Marshal\<close> of a decoded \<open>any\<close>; \<open>num\<close> is the text of a number.\<close>
fun json_text :: "(string \<Rightarrow> string) \<Rightarrow> json \<Rightarrow> string" where
  "json_text num JNull = ''null''"
| "json_text num (JBool b) = bool_text b"
| "json_text num (JNum l) = num l"
| "json_text num (JStr s) = json_quote s"
| "json_text num (JArr xs) = arr_text (map (json_text num) xs)"
| "json_text num (JObj kvs) = obj_text (go_map (map (\<lambda>(k, v). (k, json_text num v)) kvs))"

text \<open>Does every number of a value pass a test (has it a \<open>float64\<close>)?\<close>
fun json_nums :: "(string \<Rightarrow> bool) \<Rightarrow> json \<Rightarrow> bool" where
  "json_nums ok (JNum l) = ok l"
| "json_nums ok (JArr xs) = list_all (json_nums ok) xs"
| "json_nums ok (JObj kvs) = list_all (\<lambda>(k, v). json_nums ok v) kvs"
| "json_nums ok _ = True"

text \<open>
  \<open>json.RawMessage\<close> inside a marshalled value is compacted: white space outside strings goes,
  and \<open><\<close>, \<open>>\<close>, \<open>&\<close>, U+2028 and U+2029 are escaped.
\<close>
fun compact_aux :: "bool \<Rightarrow> string \<Rightarrow> string" where
  "compact_aux instr [] = []"
| "compact_aux instr (c # s) =
     (if bval c = 60 \<or> bval c = 62 \<or> bval c = 38 then u_escape (bval c) @ compact_aux instr s
      else if instr \<and> bval c = 92 then
        (case s of [] \<Rightarrow> [c] | d # s' \<Rightarrow> c # d # compact_aux instr s')
      else if bval c = 34 then c # compact_aux (\<not> instr) s
      else if \<not> instr \<and> json_ws c then compact_aux instr s
      else if bval c = 226 \<and> has_prefix s [bchr 128, bchr 168]
        then u_escape 8232 @ compact_aux instr (drop 2 s)
      else if bval c = 226 \<and> has_prefix s [bchr 128, bchr 169]
        then u_escape 8233 @ compact_aux instr (drop 2 s)
      else c # compact_aux instr s)"

definition json_compact :: "string \<Rightarrow> string" where
  "json_compact s = compact_aux False s"

section \<open>Evaluation\<close>

named_theorems json_eval \<open>rules that evaluate the parser on a concrete text\<close>

lemmas [json_eval] =
  json_whole_def json_prefix_def json_run.simps next_tok_def skip_ws_def json_ws_def
  word_tok_def has_prefix_def lex_str.simps str_unit_def bval_Char lex_num_def lex_int_def
  lex_digits_def lex_frac_def lex_exp_def is_digit_def json_step_def value_step_def
  key_step_def close_step_def json_max_depth_def simple_escape_def Let_def
  raw_members_def raw_loop.simps decode_struct_def decode_whole_def at_eof_def
  member_string_def decode_raw_map_def raw_get_def raw_get_int_def
  raw_string_def raw_bool_def raw_int_def raw_uint64_def store_def names_field_def
  is_lower_def field_defs parse_uint64_def parse_int64_def digits_val_def digit_val_def

end
