(* ===== verification/Voice_Wire.thy ===== *)
theory Voice_Wire
  imports Go_Json
begin

text \<open>
  The public voice protocol, \<open>packages/go/voicewire/event.go\<close>: the event types, the \<open>Event\<close>
  struct and its JSON decoding, and the validation of what a client may send
  (\<open>DecodeClientVersion\<close>, \<open>ValidID\<close>, \<open>DecodeAudio\<close>). The specification is \<open>client_msg\<close>: the
  shapes of client message the protocol has; \<open>client_event_iff\<close> shows that the checks of
  the decoder, taken in their order, accept exactly the events of those shapes.
\<close>

section \<open>Constants\<close>

abbreviation Version :: int where "Version \<equiv> 1"
abbreviation InputSampleRate :: int where "InputSampleRate \<equiv> 16000"
abbreviation MaxAudioChunkBytes :: nat where "MaxAudioChunkBytes \<equiv> 32000"
abbreviation MaxTurnBytes :: nat where "MaxTurnBytes \<equiv> 960000"

abbreviation SessionStart :: string where "SessionStart \<equiv> ''session.start''"
abbreviation SessionReady :: string where "SessionReady \<equiv> ''session.ready''"
abbreviation SessionState :: string where "SessionState \<equiv> ''session.state''"
abbreviation SessionStop :: string where "SessionStop \<equiv> ''session.stop''"
abbreviation SessionStopped :: string where "SessionStopped \<equiv> ''session.stopped''"
abbreviation SessionRenewed :: string where "SessionRenewed \<equiv> ''session.renewed''"
abbreviation AudioAppend :: string where "AudioAppend \<equiv> ''audio.append''"
abbreviation TurnCommit :: string where "TurnCommit \<equiv> ''turn.commit''"
abbreviation TurnCancel :: string where "TurnCancel \<equiv> ''turn.cancel''"
abbreviation TurnStarted :: string where "TurnStarted \<equiv> ''turn.started''"
abbreviation TurnCompleted :: string where "TurnCompleted \<equiv> ''turn.completed''"
abbreviation TurnInterrupted :: string where "TurnInterrupted \<equiv> ''turn.interrupted''"
abbreviation Transcript :: string where "Transcript \<equiv> ''transcript''"
abbreviation AudioOutput :: string where "AudioOutput \<equiv> ''audio.output''"
abbreviation ToolStarted :: string where "ToolStarted \<equiv> ''tool.started''"
abbreviation ToolResult :: string where "ToolResult \<equiv> ''tool.result''"
abbreviation ToolConfirmation :: string where "ToolConfirmation \<equiv> ''tool.confirmation''"
abbreviation ToolConfirm :: string where "ToolConfirm \<equiv> ''tool.confirm''"
abbreviation ErrorEvent :: string where "ErrorEvent \<equiv> ''error''"

section \<open>The event\<close>

text \<open>The \<open>float64\<close> fields hold number literals.\<close>
record metrics =
  m_FirstAudioMS :: string
  m_DurationMS :: string
  m_InterruptionMS :: string

record voice_tool =
  vt_OperationID :: string
  vt_Name :: string
  vt_Arguments :: string
  vt_Result :: string
  vt_Approved :: "bool option"

record event =
  ev_AgentID :: string
  ev_UI :: string
  ev_Version :: int
  ev_Type :: string
  ev_SessionID :: string
  ev_TurnID :: string
  ev_Sequence :: u64
  ev_Provider :: string
  ev_RequestID :: string
  ev_State :: string
  ev_Audio :: string
  ev_SampleRate :: int
  ev_Text :: string
  ev_Role :: string
  ev_Stage :: string
  ev_Code :: string
  ev_Message :: string
  ev_Metrics :: "metrics option"
  ev_Tool :: "voice_tool option"

definition zero_metrics :: metrics where
  "zero_metrics = \<lparr>m_FirstAudioMS = ''0'', m_DurationMS = ''0'', m_InterruptionMS = ''0''\<rparr>"

definition zero_tool :: voice_tool where
  "zero_tool = \<lparr>vt_OperationID = [], vt_Name = [], vt_Arguments = [], vt_Result = [],
     vt_Approved = None\<rparr>"

definition zero_event :: event where
  "zero_event = \<lparr>ev_AgentID = [], ev_UI = [], ev_Version = 0, ev_Type = [], ev_SessionID = [],
     ev_TurnID = [], ev_Sequence = 0, ev_Provider = [], ev_RequestID = [], ev_State = [],
     ev_Audio = [], ev_SampleRate = 0, ev_Text = [], ev_Role = [], ev_Stage = [], ev_Code = [],
     ev_Message = [], ev_Metrics = None, ev_Tool = None\<rparr>"

definition metrics_fields :: "metrics fields" where
  "metrics_fields =
     [float_field ''firstAudioMs'' (\<lambda>v m. m\<lparr>m_FirstAudioMS := v\<rparr>),
      float_field ''durationMs'' (\<lambda>v m. m\<lparr>m_DurationMS := v\<rparr>),
      float_field ''interruptionMs'' (\<lambda>v m. m\<lparr>m_InterruptionMS := v\<rparr>)]"

text \<open>A pointer to a \<open>bool\<close>: \<open>null\<close> is nil.\<close>
definition bool_pointer_field ::
  "string \<Rightarrow> (bool option \<Rightarrow> 'r \<Rightarrow> 'r) \<Rightarrow> string \<times> (string \<Rightarrow> 'r \<Rightarrow> 'r option)"
where
  "bool_pointer_field n upd = (n, \<lambda>raw x. map_option (\<lambda>v. upd v x) (raw_bool raw))"

definition tool_fields :: "voice_tool fields" where
  "tool_fields =
     [string_field ''operationId'' (\<lambda>v t. t\<lparr>vt_OperationID := v\<rparr>),
      string_field ''name'' (\<lambda>v t. t\<lparr>vt_Name := v\<rparr>),
      raw_field ''arguments'' (\<lambda>v t. t\<lparr>vt_Arguments := v\<rparr>),
      raw_field ''result'' (\<lambda>v t. t\<lparr>vt_Result := v\<rparr>),
      bool_pointer_field ''approved'' (\<lambda>v t. t\<lparr>vt_Approved := v\<rparr>)]"

definition event_fields :: "event fields" where
  "event_fields =
     [string_field ''agentId'' (\<lambda>v e. e\<lparr>ev_AgentID := v\<rparr>),
      raw_field ''ui'' (\<lambda>v e. e\<lparr>ev_UI := v\<rparr>),
      int_field ''version'' (\<lambda>v e. e\<lparr>ev_Version := v\<rparr>),
      string_field ''type'' (\<lambda>v e. e\<lparr>ev_Type := v\<rparr>),
      string_field ''sessionId'' (\<lambda>v e. e\<lparr>ev_SessionID := v\<rparr>),
      string_field ''turnId'' (\<lambda>v e. e\<lparr>ev_TurnID := v\<rparr>),
      uint64_field ''sequence'' (\<lambda>v e. e\<lparr>ev_Sequence := v\<rparr>),
      string_field ''provider'' (\<lambda>v e. e\<lparr>ev_Provider := v\<rparr>),
      string_field ''requestId'' (\<lambda>v e. e\<lparr>ev_RequestID := v\<rparr>),
      string_field ''state'' (\<lambda>v e. e\<lparr>ev_State := v\<rparr>),
      string_field ''audio'' (\<lambda>v e. e\<lparr>ev_Audio := v\<rparr>),
      int_field ''sampleRate'' (\<lambda>v e. e\<lparr>ev_SampleRate := v\<rparr>),
      string_field ''text'' (\<lambda>v e. e\<lparr>ev_Text := v\<rparr>),
      string_field ''role'' (\<lambda>v e. e\<lparr>ev_Role := v\<rparr>),
      string_field ''stage'' (\<lambda>v e. e\<lparr>ev_Stage := v\<rparr>),
      string_field ''code'' (\<lambda>v e. e\<lparr>ev_Code := v\<rparr>),
      string_field ''message'' (\<lambda>v e. e\<lparr>ev_Message := v\<rparr>),
      pointer_field ''metrics'' metrics_fields zero_metrics ev_Metrics (\<lambda>v e. e\<lparr>ev_Metrics := v\<rparr>),
      pointer_field ''tool'' tool_fields zero_tool ev_Tool (\<lambda>v e. e\<lparr>ev_Tool := v\<rparr>)]"

section \<open>Validation\<close>

definition id_char :: "nat \<Rightarrow> bool" where
  "id_char c \<longleftrightarrow> (97 \<le> c \<and> c \<le> 122) \<or> (65 \<le> c \<and> c \<le> 90) \<or> (48 \<le> c \<and> c \<le> 57) \<or> c = 95 \<or> c = 45"

definition ValidID :: "string \<Rightarrow> bool" where
  "ValidID s \<longleftrightarrow> \<not> (length s = 0 \<or> length s > 128) \<and> list_all id_char (runes s)"

definition DecodeAudio :: "string \<Rightarrow> error + byte list" where
  "DecodeAudio encoded =
     (if length encoded > b64_encoded_len MaxAudioChunkBytes
      then Inl ''audio chunk exceeds one second''
      else (case b64_decode encoded of
          None \<Rightarrow> Inl ''audio must be nonempty base64 PCM16''
        | Some pcm \<Rightarrow>
            if length pcm = 0 \<or> length pcm mod 2 \<noteq> 0
            then Inl ''audio must be nonempty base64 PCM16'' else Inr pcm))"

text \<open>The \<open>switch event.Type\<close>: the error of a case, if any.\<close>
definition client_type_error :: "event \<Rightarrow> error option" where
  "client_type_error e =
     (if ev_Type e = SessionStart then
        (if ev_SessionID e \<noteq> [] \<or> ev_TurnID e \<noteq> [] \<or> ev_Sequence e \<noteq> 0
         then Some ''session.start cannot reuse identifiers'' else None)
      else if ev_Type e = AudioAppend then
        (if ev_TurnID e = [] \<or> ev_Sequence e = 0 \<or> ev_SampleRate e \<noteq> InputSampleRate
         then Some ''audio requires turnId, sequence and sampleRate 16000''
         else (case DecodeAudio (ev_Audio e) of Inl err \<Rightarrow> Some err | Inr _ \<Rightarrow> None))
      else if ev_Type e = TurnCommit \<or> ev_Type e = TurnCancel then
        (if ev_TurnID e = [] then Some ''turnId is required'' else None)
      else if ev_Type e = SessionStop then None
      else if ev_Type e = ToolConfirm then
        (case ev_Tool e of
           None \<Rightarrow> Some ''confirmation requires operationId and approved only''
         | Some t \<Rightarrow>
             if \<not> ValidID (vt_OperationID t) \<or> vt_Approved t = None \<or> vt_Name t \<noteq> []
                \<or> vt_Arguments t \<noteq> [] \<or> vt_Result t \<noteq> []
             then Some ''confirmation requires operationId and approved only'' else None)
      else Some ''unsupported client event'')"

text \<open>The checks after decoding, in the order of the code.\<close>
definition client_event :: "int \<Rightarrow> event \<Rightarrow> error + event" where
  "client_event expected e =
     (if (expected \<noteq> Version \<and> expected \<noteq> 2) \<or> ev_Version e \<noteq> expected
      then Inl ''unsupported protocol version''
      else if (ev_SessionID e \<noteq> [] \<and> \<not> ValidID (ev_SessionID e))
           \<or> (ev_TurnID e \<noteq> [] \<and> \<not> ValidID (ev_TurnID e))
      then Inl ''identifiers must be 1-128 ASCII letters, digits, underscores or hyphens''
      else if ev_UI e \<noteq> [] \<or> (ev_AgentID e \<noteq> [] \<and>
           (ev_Version e \<noteq> 2 \<or> ev_Type e \<noteq> SessionStart \<or> \<not> ValidID (ev_AgentID e)))
      then Inl ''invalid v2 fields''
      else (case client_type_error e of
        Some err \<Rightarrow> Inl err
      | None \<Rightarrow>
          if ev_Type e \<noteq> SessionStart \<and> ev_SessionID e = [] then Inl ''sessionId is required''
          else if ev_Text e \<noteq> [] \<or> ev_State e \<noteq> [] \<or> ev_Role e \<noteq> [] \<or> ev_Stage e \<noteq> []
               \<or> ev_Code e \<noteq> [] \<or> ev_Message e \<noteq> [] \<or> ev_Metrics e \<noteq> None
               \<or> (ev_Tool e \<noteq> None \<and> ev_Type e \<noteq> ToolConfirm)
          then Inl ''server fields are not allowed in client events''
          else if ev_Type e \<noteq> AudioAppend \<and> (ev_Audio e \<noteq> [] \<or> ev_SampleRate e \<noteq> 0)
          then Inl ''audio fields require audio.append''
          else if ev_RequestID e \<noteq> [] \<and> (ev_Type e \<noteq> SessionStart \<or> \<not> ValidID (ev_RequestID e))
          then Inl ''requestId requires session.start and a valid ID''
          else if ev_Type e \<noteq> SessionStart \<and> ev_Provider e \<noteq> []
          then Inl ''provider is only allowed in session.start''
          else if ev_Type e \<noteq> AudioAppend \<and> ev_Sequence e \<noteq> 0
          then Inl ''sequence is only allowed in audio.append''
          else Inr e))"

definition DecodeClientVersion :: "string \<Rightarrow> int \<Rightarrow> error + event" where
  "DecodeClientVersion data expected =
     (case decode_struct (strict_fields event_fields) zero_event data of
        None \<Rightarrow> Inl ''invalid JSON event''
      | Some (e, rest) \<Rightarrow>
          if \<not> at_eof rest then Inl ''expected one JSON event'' else client_event expected e)"

definition DecodeClient :: "string \<Rightarrow> error + event" where
  "DecodeClient data = DecodeClientVersion data Version"

section \<open>Identifiers and audio\<close>

lemma id_char_ascii: "id_char r \<Longrightarrow> r < 128"
  by (auto simp: id_char_def)

lemma three_byte_ge: "224 \<le> b0 \<Longrightarrow> second_ok b0 b1 \<Longrightarrow> 128 \<le> (b0 - 224) * 4096 + (b1 - 128) * 64 + x"
  by (cases "b0 = 224") (auto simp: second_ok_def cont_byte_def dest!: le_Suc_ex)

lemma four_byte_ge:
  "240 \<le> b0 \<Longrightarrow> second_ok b0 b1 \<Longrightarrow> 128 \<le> (b0 - 240) * 262144 + (b1 - 128) * 4096 + x * 64 + y"
  by (cases "b0 = 240") (auto simp: second_ok_def cont_byte_def dest!: le_Suc_ex)

lemma decode_rune_rune_ge: "128 \<le> bval c \<Longrightarrow> 128 \<le> fst (decode_rune (c # s))"
proof -
  assume c: "128 \<le> bval c"
  have err: "128 \<le> rune_error" by (simp add: rune_error_def)
  show ?thesis
    using c err
    by (simp add: Let_def three_byte_ge four_byte_ge split: list.split) linarith?
qed

lemma id_runes_ascii: "list_all id_char (runes s) \<Longrightarrow> ascii s"
proof (induction s)
  case (Cons c s)
  have "bval c < 128"
  proof (rule ccontr)
    assume "\<not> bval c < 128"
    then have "128 \<le> fst (decode_rune (c # s))" by (intro decode_rune_rune_ge) simp
    moreover have "fst (decode_rune (c # s)) \<in> set (runes (c # s))"
      by (simp add: runes.simps [of "c # s"] split_beta del: decode_rune.simps)
    ultimately show False
      using Cons.prems id_char_ascii by (fastforce simp: list_all_iff)
  qed
  with Cons show ?case by (simp add: runes_ascii_Cons)
qed simp

text \<open>An identifier is one to 128 bytes, each an ASCII letter, a digit, \<open>_\<close> or \<open>-\<close>.\<close>
lemma ValidID_iff:
  "ValidID s \<longleftrightarrow> 0 < length s \<and> length s \<le> 128 \<and> (\<forall>c \<in> set s. id_char (bval c))"
proof -
  have "ascii s" if "\<forall>c \<in> set s. id_char (bval c)"
    using that id_char_ascii by (auto simp: ascii_def)
  moreover have "runes s = map bval s" if "ascii s"
    using that by (rule runes_ascii)
  ultimately have "list_all id_char (runes s) \<longleftrightarrow> (\<forall>c \<in> set s. id_char (bval c))"
    using id_runes_ascii [of s] by (metis (no_types, lifting) list.pred_map list_all_iff o_apply)
  then show ?thesis by (simp add: ValidID_def not_less)
qed

lemma DecodeAudio_Inr:
  "DecodeAudio a = Inr pcm \<longleftrightarrow>
     length a \<le> b64_encoded_len MaxAudioChunkBytes \<and> b64_decode a = Some pcm
     \<and> pcm \<noteq> [] \<and> even (length pcm)"
  by (auto simp: DecodeAudio_def even_iff_mod_2_eq_zero split: option.splits)

lemma DecodeAudio_length:
  assumes "DecodeAudio a = Inr pcm"
  shows "2 \<le> length pcm" "even (length pcm)" "length pcm \<le> MaxAudioChunkBytes"
proof -
  have *: "length a \<le> 42668" "b64_decode a = Some pcm" "pcm \<noteq> []" "even (length pcm)"
    using assms by (auto simp: DecodeAudio_Inr b64_encoded_len_def)
  show "2 \<le> length pcm" using *(3,4) by (cases pcm; cases "tl pcm") auto
  show "even (length pcm)" using * by auto
  have "4 * length pcm \<le> 3 * length a" using *(2) by (rule length_b64_decode)
  then have "length pcm \<le> 32001" using *(1) by linarith
  moreover have "length pcm \<noteq> 32001" using *(4) by (metis odd_numeral)
  ultimately show "length pcm \<le> MaxAudioChunkBytes" by linarith
qed

lemma b64_encoded_len_le: "b64_encoded_len n \<le> 4 * k \<longleftrightarrow> n \<le> 3 * k"
proof -
  have "(n + 2) div 3 < Suc k \<longleftrightarrow> n + 2 < Suc k * 3"
    by (rule div_less_iff_less_mult) simp
  then show ?thesis by (auto simp: b64_encoded_len_def less_Suc_eq_le)
qed

lemma DecodeAudio_encode:
  "DecodeAudio (b64_encode pcm) = Inr pcm \<longleftrightarrow>
     pcm \<noteq> [] \<and> even (length pcm) \<and> length pcm \<le> MaxAudioChunkBytes"
proof -
  have "b64_encoded_len (length pcm) \<le> b64_encoded_len MaxAudioChunkBytes \<longleftrightarrow> length pcm \<le> 32001"
    using b64_encoded_len_le [of "length pcm" 10667] by (simp add: b64_encoded_len_def)
  then show ?thesis
    by (auto simp: DecodeAudio_Inr length_b64_encode dest: DecodeAudio_length)
qed

section \<open>What a client may send\<close>

datatype client_msg =
    CStart string string string
  | CAudio string string u64 string
  | CCommit string string
  | CCancel string string
  | CStop string string
  | CConfirm string string string bool

text \<open>The event a client message is on the wire.\<close>
fun client_wire :: "int \<Rightarrow> client_msg \<Rightarrow> event" where
  "client_wire v (CStart agent request provider) =
     zero_event\<lparr>ev_Version := v, ev_Type := SessionStart, ev_AgentID := agent,
       ev_RequestID := request, ev_Provider := provider\<rparr>"
| "client_wire v (CAudio sid turn seq audio) =
     zero_event\<lparr>ev_Version := v, ev_Type := AudioAppend, ev_SessionID := sid, ev_TurnID := turn,
       ev_Sequence := seq, ev_Audio := audio, ev_SampleRate := InputSampleRate\<rparr>"
| "client_wire v (CCommit sid turn) =
     zero_event\<lparr>ev_Version := v, ev_Type := TurnCommit, ev_SessionID := sid, ev_TurnID := turn\<rparr>"
| "client_wire v (CCancel sid turn) =
     zero_event\<lparr>ev_Version := v, ev_Type := TurnCancel, ev_SessionID := sid, ev_TurnID := turn\<rparr>"
| "client_wire v (CStop sid turn) =
     zero_event\<lparr>ev_Version := v, ev_Type := SessionStop, ev_SessionID := sid, ev_TurnID := turn\<rparr>"
| "client_wire v (CConfirm sid turn oper approved) =
     zero_event\<lparr>ev_Version := v, ev_Type := ToolConfirm, ev_SessionID := sid, ev_TurnID := turn,
       ev_Tool := Some (zero_tool\<lparr>vt_OperationID := oper, vt_Approved := Some approved\<rparr>)\<rparr>"

definition opt_id :: "string \<Rightarrow> bool" where
  "opt_id s \<longleftrightarrow> s = [] \<or> ValidID s"

text \<open>Which messages are legal in version \<open>v\<close> of the protocol.\<close>
fun client_legal :: "int \<Rightarrow> client_msg \<Rightarrow> bool" where
  "client_legal v (CStart agent request provider) =
     (opt_id request \<and> (if v = 2 then opt_id agent else agent = []))"
| "client_legal v (CAudio sid turn seq audio) =
     (ValidID sid \<and> ValidID turn \<and> seq \<noteq> 0 \<and> (\<exists>pcm. DecodeAudio audio = Inr pcm))"
| "client_legal v (CCommit sid turn) = (ValidID sid \<and> ValidID turn)"
| "client_legal v (CCancel sid turn) = (ValidID sid \<and> ValidID turn)"
| "client_legal v (CStop sid turn) = (ValidID sid \<and> opt_id turn)"
| "client_legal v (CConfirm sid turn oper approved) = (ValidID sid \<and> opt_id turn \<and> ValidID oper)"

text \<open>The message an event stands for.\<close>
definition client_read :: "event \<Rightarrow> client_msg" where
  "client_read e =
     (if ev_Type e = SessionStart then CStart (ev_AgentID e) (ev_RequestID e) (ev_Provider e)
      else if ev_Type e = AudioAppend
        then CAudio (ev_SessionID e) (ev_TurnID e) (ev_Sequence e) (ev_Audio e)
      else if ev_Type e = TurnCommit then CCommit (ev_SessionID e) (ev_TurnID e)
      else if ev_Type e = TurnCancel then CCancel (ev_SessionID e) (ev_TurnID e)
      else if ev_Type e = SessionStop then CStop (ev_SessionID e) (ev_TurnID e)
      else (case ev_Tool e of
          Some t \<Rightarrow> CConfirm (ev_SessionID e) (ev_TurnID e) (vt_OperationID t) (vt_Approved t = Some True)
        | None \<Rightarrow> CStop [] []))"

lemma not_ValidID_Nil [simp]: "\<not> ValidID []"
  by (simp add: ValidID_def)

lemma client_wire_accepted:
  "v \<in> {1, 2} \<Longrightarrow> client_legal v m \<Longrightarrow> client_event v (client_wire v m) = Inr (client_wire v m)"
  by (cases m) (auto simp: client_event_def client_type_error_def zero_event_def zero_tool_def
      opt_id_def split: if_splits)

lemma client_type_error_None:
  "client_type_error e = None \<Longrightarrow>
     ev_Type e \<in> {SessionStart, AudioAppend, TurnCommit, TurnCancel, SessionStop, ToolConfirm}"
  by (auto simp: client_type_error_def split: if_splits)

lemmas client_defs = client_event_def client_type_error_def client_read_def opt_id_def
  zero_event_def zero_tool_def

lemma client_event_Inr:
  assumes "client_event v e = Inr e'"
  shows "e' = e" "v \<in> {1, 2}" "client_legal v (client_read e)" "client_wire v (client_read e) = e"
proof -
  have ty: "client_type_error e = None"
    using assms by (auto simp: client_event_def split: if_splits option.splits)
  show "e' = e" "v \<in> {1, 2}"
    using assms by (auto simp: client_event_def split: if_splits option.splits)
  note facts = assms ty
  from client_type_error_None [OF ty]
  consider "ev_Type e = SessionStart" | "ev_Type e = AudioAppend" | "ev_Type e = TurnCommit"
    | "ev_Type e = TurnCancel" | "ev_Type e = SessionStop" | "ev_Type e = ToolConfirm" by blast
  then have "client_legal v (client_read e) \<and> client_wire v (client_read e) = e"
  proof cases
    case 1
    then show ?thesis using facts by (cases e, simp add: client_defs split: if_splits, auto)
  next
    case 2
    then show ?thesis using facts by (cases e) (simp add: client_defs split: if_splits sum.splits)
  next
    case 3
    then show ?thesis using facts by (cases e) (simp add: client_defs split: if_splits)
  next
    case 4
    then show ?thesis using facts by (cases e) (simp add: client_defs split: if_splits)
  next
    case 5
    then show ?thesis using facts by (cases e) (simp add: client_defs split: if_splits)
  next
    case 6
    then obtain t where "ev_Tool e = Some t"
      using ty by (auto simp: client_defs split: option.splits)
    then show ?thesis using facts 6
      by (cases e; cases t) (auto simp: client_defs split: if_splits)
  qed
  then show "client_legal v (client_read e)" "client_wire v (client_read e) = e" by auto
qed

text \<open>
  C40. The voice decoder accepts a text, in either version of the protocol, exactly when it is
  one JSON event with only known fields, and that event is the wire form of a legal client
  message: start, audio, commit, cancel, stop or confirm, with valid identifiers where they are
  required and every other field empty.
\<close>
theorem DecodeClientVersion_iff:
  "DecodeClientVersion data v = Inr e \<longleftrightarrow>
     (\<exists>rest. decode_struct (strict_fields event_fields) zero_event data = Some (e, rest) \<and> at_eof rest)
     \<and> v \<in> {1, 2} \<and> (\<exists>m. client_legal v m \<and> e = client_wire v m)"
proof -
  have "client_event v e' = Inr e \<longleftrightarrow> e' = e \<and> v \<in> {1, 2} \<and> (\<exists>m. client_legal v m \<and> e = client_wire v m)"
    for e' using client_event_Inr [of v e' e] client_wire_accepted [of v] by metis
  then show ?thesis
    by (auto simp: DecodeClientVersion_def split: option.splits prod.splits)
qed

end
