(* ===== verification/Agent_Wire.thy ===== *)
theory Agent_Wire
  imports Go_Json
begin

text \<open>
  The agent session protocol, \<open>packages/go/agentwire/protocol.go\<close> and \<open>session.go\<close>: the
  principal, start, command, event and message structs with their JSON decoding, and the
  validation of each message kind. An \<open>error option\<close> is a Go \<open>error\<close> (\<open>None\<close> is nil). The
  abstract specifications are \<open>agent_cmd\<close>, the commands a peer may send, and
  \<open>v1_message\<close>, the messages the first version of the protocol has.
\<close>

section \<open>Constants\<close>

abbreviation Protocol :: string where "Protocol \<equiv> ''agent-session/v1''"
abbreviation ProtocolV2 :: string where "ProtocolV2 \<equiv> ''agent-session/v2''"
abbreviation OpenSession :: string where "OpenSession \<equiv> ''session.open''"
abbreviation SessionAccepted :: string where "SessionAccepted \<equiv> ''session.accepted''"
abbreviation SessionCommand :: string where "SessionCommand \<equiv> ''session.command''"
abbreviation SessionEvent :: string where "SessionEvent \<equiv> ''session.event''"
abbreviation MaxMessageBytes :: nat where "MaxMessageBytes \<equiv> 262144"
abbreviation MaxAudioBytes :: nat where "MaxAudioBytes \<equiv> 131072"
abbreviation RemoteQueueDepth :: nat where "RemoteQueueDepth \<equiv> 8"
abbreviation MaxRemoteSessions :: int where "MaxRemoteSessions \<equiv> 32"

abbreviation Idle :: string where "Idle \<equiv> ''idle''"
abbreviation Listening :: string where "Listening \<equiv> ''listening''"
abbreviation Responding :: string where "Responding \<equiv> ''responding''"
abbreviation Closed :: string where "Closed \<equiv> ''closed''"
abbreviation MaxTurns :: nat where "MaxTurns \<equiv> 128"

abbreviation InputAudio :: string where "InputAudio \<equiv> ''input.audio''"
abbreviation InputCommit :: string where "InputCommit \<equiv> ''input.commit''"
abbreviation InputCancel :: string where "InputCancel \<equiv> ''input.cancel''"
abbreviation InputConfirmation :: string where "InputConfirmation \<equiv> ''input.confirmation''"
abbreviation InputClose :: string where "InputClose \<equiv> ''input.close''"

abbreviation AgentSessionReady :: string where "AgentSessionReady \<equiv> ''agent.session.ready''"
abbreviation AgentSessionState :: string where "AgentSessionState \<equiv> ''agent.session.state''"
abbreviation AgentSessionRenewed :: string where "AgentSessionRenewed \<equiv> ''agent.session.renewed''"
abbreviation AgentSessionClosed :: string where "AgentSessionClosed \<equiv> ''agent.session.closed''"
abbreviation OutputAudio :: string where "OutputAudio \<equiv> ''output.audio''"
abbreviation OutputTranscript :: string where "OutputTranscript \<equiv> ''output.transcript''"
abbreviation AgentTurnStarted :: string where "AgentTurnStarted \<equiv> ''turn.started''"
abbreviation AgentTurnCompleted :: string where "AgentTurnCompleted \<equiv> ''turn.completed''"
abbreviation AgentTurnInterrupted :: string where "AgentTurnInterrupted \<equiv> ''turn.interrupted''"
abbreviation AgentToolStarted :: string where "AgentToolStarted \<equiv> ''tool.started''"
abbreviation AgentToolResult :: string where "AgentToolResult \<equiv> ''tool.result''"
abbreviation AgentToolConfirmation :: string where "AgentToolConfirmation \<equiv> ''tool.confirmation''"
abbreviation AgentError :: string where "AgentError \<equiv> ''agent.error''"

section \<open>Structs\<close>

record tool_spec =
  ts_Name :: string
  ts_Description :: string
  ts_Parameters :: string

record principal =
  p_Subject :: string
  p_ClientCode :: string
  p_SessionRef :: string
  p_DeviceID :: string
  p_Authenticated :: bool

record session_start =
  st_Protocol :: string
  st_SessionID :: string
  st_RequestID :: string
  st_AgentID :: string
  st_Provider :: string
  st_Principal :: principal

record agent_command =
  ac_Type :: string
  ac_SessionID :: string
  ac_TurnID :: string
  ac_Sequence :: u64
  ac_Audio :: "byte list"
  ac_OperationID :: string
  ac_Approved :: bool

text \<open>The \<open>float64\<close> fields hold number literals.\<close>
record agent_metrics =
  am_FirstAudioMS :: string
  am_DurationMS :: string
  am_InterruptionMS :: string

record agent_tool =
  at_OperationID :: string
  at_Name :: string
  at_Arguments :: string
  at_Result :: string

record agent_event =
  ae_UI :: string
  ae_Type :: string
  ae_TurnID :: string
  ae_Sequence :: u64
  ae_Provider :: string
  ae_State :: string
  ae_Audio :: "byte list"
  ae_SampleRate :: int
  ae_Text :: string
  ae_Role :: string
  ae_Stage :: string
  ae_Code :: string
  ae_Message :: string
  ae_Metrics :: "agent_metrics option"
  ae_Tool :: "agent_tool option"

record message =
  mg_Protocol :: string
  mg_Kind :: string
  mg_AgentID :: string
  mg_Start :: "session_start option"
  mg_Command :: "agent_command option"
  mg_Event :: "agent_event option"

definition zero_principal :: principal where
  "zero_principal = \<lparr>p_Subject = [], p_ClientCode = [], p_SessionRef = [], p_DeviceID = [],
     p_Authenticated = False\<rparr>"

definition zero_start :: session_start where
  "zero_start = \<lparr>st_Protocol = [], st_SessionID = [], st_RequestID = [], st_AgentID = [],
     st_Provider = [], st_Principal = zero_principal\<rparr>"

definition zero_command :: agent_command where
  "zero_command = \<lparr>ac_Type = [], ac_SessionID = [], ac_TurnID = [], ac_Sequence = 0, ac_Audio = [],
     ac_OperationID = [], ac_Approved = False\<rparr>"

definition zero_agent_metrics :: agent_metrics where
  "zero_agent_metrics = \<lparr>am_FirstAudioMS = ''0'', am_DurationMS = ''0'', am_InterruptionMS = ''0''\<rparr>"

definition zero_agent_tool :: agent_tool where
  "zero_agent_tool = \<lparr>at_OperationID = [], at_Name = [], at_Arguments = [], at_Result = []\<rparr>"

definition zero_agent_event :: agent_event where
  "zero_agent_event = \<lparr>ae_UI = [], ae_Type = [], ae_TurnID = [], ae_Sequence = 0, ae_Provider = [],
     ae_State = [], ae_Audio = [], ae_SampleRate = 0, ae_Text = [], ae_Role = [], ae_Stage = [],
     ae_Code = [], ae_Message = [], ae_Metrics = None, ae_Tool = None\<rparr>"

definition zero_message :: message where
  "zero_message = \<lparr>mg_Protocol = [], mg_Kind = [], mg_AgentID = [], mg_Start = None,
     mg_Command = None, mg_Event = None\<rparr>"

section \<open>Decoding\<close>

definition principal_fields :: "principal fields" where
  "principal_fields =
     [string_field ''subject'' (\<lambda>v p. p\<lparr>p_Subject := v\<rparr>),
      string_field ''clientCode'' (\<lambda>v p. p\<lparr>p_ClientCode := v\<rparr>),
      string_field ''sessionRef'' (\<lambda>v p. p\<lparr>p_SessionRef := v\<rparr>),
      string_field ''deviceId'' (\<lambda>v p. p\<lparr>p_DeviceID := v\<rparr>),
      bool_field ''authenticated'' (\<lambda>v p. p\<lparr>p_Authenticated := v\<rparr>)]"

definition start_fields :: "session_start fields" where
  "start_fields =
     [string_field ''sessionId'' (\<lambda>v s. s\<lparr>st_SessionID := v\<rparr>),
      string_field ''requestId'' (\<lambda>v s. s\<lparr>st_RequestID := v\<rparr>),
      string_field ''agentId'' (\<lambda>v s. s\<lparr>st_AgentID := v\<rparr>),
      string_field ''provider'' (\<lambda>v s. s\<lparr>st_Provider := v\<rparr>),
      struct_field ''principal'' principal_fields st_Principal (\<lambda>v s. s\<lparr>st_Principal := v\<rparr>)]"

definition command_fields :: "agent_command fields" where
  "command_fields =
     [string_field ''type'' (\<lambda>v c. c\<lparr>ac_Type := v\<rparr>),
      string_field ''sessionId'' (\<lambda>v c. c\<lparr>ac_SessionID := v\<rparr>),
      string_field ''turnId'' (\<lambda>v c. c\<lparr>ac_TurnID := v\<rparr>),
      uint64_field ''sequence'' (\<lambda>v c. c\<lparr>ac_Sequence := v\<rparr>),
      bytes_field ''audio'' (\<lambda>v c. c\<lparr>ac_Audio := v\<rparr>),
      string_field ''operationId'' (\<lambda>v c. c\<lparr>ac_OperationID := v\<rparr>),
      bool_field ''approved'' (\<lambda>v c. c\<lparr>ac_Approved := v\<rparr>)]"

definition agent_metrics_fields :: "agent_metrics fields" where
  "agent_metrics_fields =
     [float_field ''firstAudioMs'' (\<lambda>v m. m\<lparr>am_FirstAudioMS := v\<rparr>),
      float_field ''durationMs'' (\<lambda>v m. m\<lparr>am_DurationMS := v\<rparr>),
      float_field ''interruptionMs'' (\<lambda>v m. m\<lparr>am_InterruptionMS := v\<rparr>)]"

definition agent_tool_fields :: "agent_tool fields" where
  "agent_tool_fields =
     [string_field ''operationId'' (\<lambda>v t. t\<lparr>at_OperationID := v\<rparr>),
      string_field ''name'' (\<lambda>v t. t\<lparr>at_Name := v\<rparr>),
      raw_field ''arguments'' (\<lambda>v t. t\<lparr>at_Arguments := v\<rparr>),
      raw_field ''result'' (\<lambda>v t. t\<lparr>at_Result := v\<rparr>)]"

definition agent_event_fields :: "agent_event fields" where
  "agent_event_fields =
     [raw_field ''ui'' (\<lambda>v e. e\<lparr>ae_UI := v\<rparr>),
      string_field ''type'' (\<lambda>v e. e\<lparr>ae_Type := v\<rparr>),
      string_field ''turnId'' (\<lambda>v e. e\<lparr>ae_TurnID := v\<rparr>),
      uint64_field ''sequence'' (\<lambda>v e. e\<lparr>ae_Sequence := v\<rparr>),
      string_field ''provider'' (\<lambda>v e. e\<lparr>ae_Provider := v\<rparr>),
      string_field ''state'' (\<lambda>v e. e\<lparr>ae_State := v\<rparr>),
      bytes_field ''audio'' (\<lambda>v e. e\<lparr>ae_Audio := v\<rparr>),
      int_field ''sampleRate'' (\<lambda>v e. e\<lparr>ae_SampleRate := v\<rparr>),
      string_field ''text'' (\<lambda>v e. e\<lparr>ae_Text := v\<rparr>),
      string_field ''role'' (\<lambda>v e. e\<lparr>ae_Role := v\<rparr>),
      string_field ''stage'' (\<lambda>v e. e\<lparr>ae_Stage := v\<rparr>),
      string_field ''code'' (\<lambda>v e. e\<lparr>ae_Code := v\<rparr>),
      string_field ''message'' (\<lambda>v e. e\<lparr>ae_Message := v\<rparr>),
      pointer_field ''metrics'' agent_metrics_fields zero_agent_metrics ae_Metrics
        (\<lambda>v e. e\<lparr>ae_Metrics := v\<rparr>),
      pointer_field ''tool'' agent_tool_fields zero_agent_tool ae_Tool (\<lambda>v e. e\<lparr>ae_Tool := v\<rparr>)]"

definition message_fields :: "message fields" where
  "message_fields =
     [string_field ''protocol'' (\<lambda>v m. m\<lparr>mg_Protocol := v\<rparr>),
      string_field ''kind'' (\<lambda>v m. m\<lparr>mg_Kind := v\<rparr>),
      string_field ''agentId'' (\<lambda>v m. m\<lparr>mg_AgentID := v\<rparr>),
      pointer_field ''start'' start_fields zero_start mg_Start (\<lambda>v m. m\<lparr>mg_Start := v\<rparr>),
      pointer_field ''command'' command_fields zero_command mg_Command (\<lambda>v m. m\<lparr>mg_Command := v\<rparr>),
      pointer_field ''event'' agent_event_fields zero_agent_event mg_Event (\<lambda>v m. m\<lparr>mg_Event := v\<rparr>)]"

text \<open>What only the second version of the protocol has.\<close>
definition v2_event :: "message \<Rightarrow> bool" where
  "v2_event m \<longleftrightarrow> (case mg_Event m of None \<Rightarrow> False | Some e \<Rightarrow> ae_UI e \<noteq> [])"

definition v2_identity :: "message \<Rightarrow> bool" where
  "v2_identity m \<longleftrightarrow>
     (case mg_Start m of
        None \<Rightarrow> False
      | Some s \<Rightarrow> (let p = st_Principal s in
          p_ClientCode p \<noteq> [] \<or> p_SessionRef p \<noteq> [] \<or> p_DeviceID p \<noteq> [] \<or> p_Authenticated p))"

definition DecodeProtocol :: "string \<Rightarrow> string \<Rightarrow> error + message" where
  "DecodeProtocol data expected =
     (if length data = 0 \<or> length data > MaxMessageBytes
      then Inl ''invalid Agent Session message size''
      else (case decode_struct (strict_fields message_fields) zero_message data of
          None \<Rightarrow> Inl ''invalid Agent Session JSON''
        | Some (m, rest) \<Rightarrow>
            if \<not> at_eof rest then Inl ''trailing Agent Session JSON''
            else if (expected \<noteq> Protocol \<and> expected \<noteq> ProtocolV2) \<or> mg_Protocol m \<noteq> expected
            then Inl ''unsupported Agent Session protocol''
            else if mg_Protocol m = Protocol \<and> v2_event m then Inl ''v2 event on v1''
            else if mg_Protocol m = Protocol \<and> v2_identity m then Inl ''v2 identity on v1''
            else Inr m))"

section \<open>Validation\<close>

text \<open>\<open>^[A-Za-z0-9][A-Za-z0-9._:-]{0,127}$\<close>\<close>
definition ident_char :: "char \<Rightarrow> bool" where
  "ident_char c \<longleftrightarrow> is_alnum c \<or> bval c \<in> {45, 46, 58, 95}"

definition identifier_ok :: "string \<Rightarrow> bool" where
  "identifier_ok s \<longleftrightarrow> (case s of [] \<Rightarrow> False
     | c # cs \<Rightarrow> is_alnum c \<and> length cs \<le> 127 \<and> list_all ident_char cs)"

definition ValidatePrincipal :: "principal \<Rightarrow> error option" where
  "ValidatePrincipal p =
     (if \<not> identifier_ok (p_Subject p) then Some ''invalid Agent Session principal''
      else if p_Authenticated p \<and> (p_ClientCode p = [] \<or> p_SessionRef p = [])
      then Some ''incomplete authenticated principal''
      else if list_ex (\<lambda>v. v \<noteq> [] \<and> \<not> identifier_ok v) [p_ClientCode p, p_SessionRef p, p_DeviceID p]
      then Some ''invalid principal context'' else None)"

definition ValidateOpen :: "message \<Rightarrow> error option" where
  "ValidateOpen m =
     (case mg_Start m of
        None \<Rightarrow> Some ''invalid Agent Session open message''
      | Some s \<Rightarrow>
          if mg_Kind m \<noteq> OpenSession \<or> mg_Command m \<noteq> None \<or> mg_Event m \<noteq> None
             \<or> mg_AgentID m \<noteq> st_AgentID s
          then Some ''invalid Agent Session open message''
          else if \<not> identifier_ok (mg_AgentID m) \<or> \<not> identifier_ok (st_SessionID s)
          then Some ''invalid Agent Session identity''
          else if st_RequestID s \<noteq> [] \<and> \<not> identifier_ok (st_RequestID s)
          then Some ''invalid Agent Session request identity''
          else ValidatePrincipal (st_Principal s))"

definition ValidateAccepted :: "string \<Rightarrow> message \<Rightarrow> error option" where
  "ValidateAccepted expectedAgent m =
     (if mg_Kind m \<noteq> SessionAccepted \<or> mg_AgentID m \<noteq> expectedAgent \<or> mg_Start m \<noteq> None
         \<or> mg_Command m \<noteq> None \<or> mg_Event m \<noteq> None
      then Some ''invalid Agent Session acceptance'' else None)"

text \<open>\<open>%q\<close> of printable ASCII text.\<close>
definition q_text :: "string \<Rightarrow> string" where
  "q_text s = bchr 34 # concat (map (\<lambda>c. if bval c = 34 \<or> bval c = 92 then [bchr 92, c] else [c]) s) @ [bchr 34]"

definition command_error :: "agent_command \<Rightarrow> error option" where
  "command_error c =
     (if ac_Type c = InputAudio then
        (if \<not> identifier_ok (ac_TurnID c) \<or> ac_Sequence c = 0 \<or> length (ac_Audio c) = 0
            \<or> length (ac_Audio c) > MaxAudioBytes \<or> length (ac_Audio c) mod 2 \<noteq> 0
         then Some ''invalid Agent Session audio frame'' else None)
      else if ac_Type c = InputCommit \<or> ac_Type c = InputCancel then
        (if \<not> identifier_ok (ac_TurnID c) \<or> ac_Sequence c \<noteq> 0 \<or> length (ac_Audio c) \<noteq> 0
         then Some ''invalid Agent Session turn command'' else None)
      else if ac_Type c = InputConfirmation then
        (if \<not> identifier_ok (ac_OperationID c) \<or> ac_Sequence c \<noteq> 0 \<or> length (ac_Audio c) \<noteq> 0
         then Some ''invalid Agent Session confirmation'' else None)
      else if ac_Type c = InputClose then
        (if ac_TurnID c \<noteq> [] \<or> ac_Sequence c \<noteq> 0 \<or> length (ac_Audio c) \<noteq> 0
         then Some ''invalid Agent Session close'' else None)
      else Some (''unsupported Agent Session command '' @ q_text (ac_Type c)))"

definition ValidateCommand :: "string \<Rightarrow> message \<Rightarrow> error option" where
  "ValidateCommand sessionID m =
     (case mg_Command m of
        None \<Rightarrow> Some ''invalid Agent Session command''
      | Some c \<Rightarrow>
          if mg_Kind m \<noteq> SessionCommand \<or> mg_Start m \<noteq> None \<or> mg_Event m \<noteq> None
             \<or> mg_AgentID m \<noteq> [] \<or> ac_SessionID c \<noteq> sessionID
          then Some ''invalid Agent Session command'' else command_error c)"

definition event_error :: "string \<Rightarrow> agent_event \<Rightarrow> error option" where
  "event_error proto e =
     (let t = ae_Type e in
      if t = AgentSessionReady \<or> t = AgentSessionRenewed then
        (if ae_Provider e = [] \<or> ae_State e = []
         then Some ''invalid Agent Session lifecycle event'' else None)
      else if t = AgentSessionState \<or> t = AgentSessionClosed then
        (if ae_State e = [] then Some ''invalid Agent Session state event'' else None)
      else if t = OutputTranscript \<or> t = AgentTurnStarted \<or> t = AgentTurnCompleted
              \<or> t = AgentTurnInterrupted then
        (if \<not> identifier_ok (ae_TurnID e) then Some ''invalid Agent Session turn event'' else None)
      else if t = AgentToolStarted \<or> t = AgentToolResult \<or> t = AgentToolConfirmation then
        (case ae_Tool e of
           None \<Rightarrow> Some ''invalid Agent Session tool event''
         | Some tool \<Rightarrow>
             if \<not> identifier_ok (ae_TurnID e) \<or> \<not> identifier_ok (at_OperationID tool)
             then Some ''invalid Agent Session tool event'' else None)
      else if t = ''ui.a2ui'' then
        (if proto \<noteq> ProtocolV2 \<or> length (ae_UI e) = 0 \<or> length (ae_UI e) > 16384
            \<or> \<not> json_valid (ae_UI e)
         then Some ''invalid UI event'' else None)
      else if t = AgentError then
        (if ae_Code e = [] \<or> ae_Message e = []
         then Some ''invalid Agent Session error event'' else None)
      else if t = OutputAudio then
        (if \<not> identifier_ok (ae_TurnID e) \<or> ae_Sequence e = 0 \<or> length (ae_Audio e) = 0
            \<or> length (ae_Audio e) > MaxAudioBytes \<or> length (ae_Audio e) mod 2 \<noteq> 0
            \<or> ae_SampleRate e \<le> 0
         then Some ''invalid Agent Session output audio'' else None)
      else Some (''unsupported Agent Session event '' @ q_text (ae_Type e)))"

definition ValidateEvent :: "message \<Rightarrow> error option" where
  "ValidateEvent m =
     (case mg_Event m of
        None \<Rightarrow> Some ''invalid Agent Session event''
      | Some e \<Rightarrow>
          if mg_Kind m \<noteq> SessionEvent \<or> mg_Start m \<noteq> None \<or> mg_Command m \<noteq> None \<or> mg_AgentID m \<noteq> []
          then Some ''invalid Agent Session event'' else event_error (mg_Protocol m) e)"

section \<open>Encoding\<close>

text \<open>\<open>WriteJSON\<close> of the structs, with their \<open>omitempty\<close> fields. \<open>Encoder.Encode\<close> ends with a newline.\<close>

definition opt_member :: "bool \<Rightarrow> string \<Rightarrow> string \<Rightarrow> (string \<times> string) list" where
  "opt_member present k v = (if present then [(k, v)] else [])"

definition opt_string :: "string \<Rightarrow> string \<Rightarrow> (string \<times> string) list" where
  "opt_string k v = opt_member (v \<noteq> []) k (json_quote v)"

definition opt_nat :: "string \<Rightarrow> nat \<Rightarrow> (string \<times> string) list" where
  "opt_nat k v = opt_member (v \<noteq> 0) k (nat_text v)"

definition opt_bytes :: "string \<Rightarrow> byte list \<Rightarrow> (string \<times> string) list" where
  "opt_bytes k v = opt_member (v \<noteq> []) k (json_quote (b64_encode v))"

definition opt_raw :: "string \<Rightarrow> string \<Rightarrow> (string \<times> string) list" where
  "opt_raw k v = opt_member (v \<noteq> []) k (json_compact v)"

definition opt_float :: "string \<Rightarrow> string \<Rightarrow> (string \<times> string) list" where
  "opt_float k v = opt_member (fst (f64_parts v) \<noteq> 0) k v"

definition principal_text :: "principal \<Rightarrow> string" where
  "principal_text p = obj_text
     ([(''subject'', json_quote (p_Subject p))] @ opt_string ''clientCode'' (p_ClientCode p)
      @ opt_string ''sessionRef'' (p_SessionRef p) @ opt_string ''deviceId'' (p_DeviceID p)
      @ opt_member (p_Authenticated p) ''authenticated'' ''true'')"

definition start_text :: "session_start \<Rightarrow> string" where
  "start_text s = obj_text
     ([(''sessionId'', json_quote (st_SessionID s))] @ opt_string ''requestId'' (st_RequestID s)
      @ [(''agentId'', json_quote (st_AgentID s))] @ opt_string ''provider'' (st_Provider s)
      @ [(''principal'', principal_text (st_Principal s))])"

definition command_text :: "agent_command \<Rightarrow> string" where
  "command_text c = obj_text
     ([(''type'', json_quote (ac_Type c)), (''sessionId'', json_quote (ac_SessionID c))]
      @ opt_string ''turnId'' (ac_TurnID c) @ opt_nat ''sequence'' (unat (ac_Sequence c))
      @ opt_bytes ''audio'' (ac_Audio c) @ opt_string ''operationId'' (ac_OperationID c)
      @ opt_member (ac_Approved c) ''approved'' ''true'')"

definition agent_metrics_text :: "agent_metrics \<Rightarrow> string" where
  "agent_metrics_text m = obj_text
     (opt_float ''firstAudioMs'' (am_FirstAudioMS m) @ opt_float ''durationMs'' (am_DurationMS m)
      @ opt_float ''interruptionMs'' (am_InterruptionMS m))"

definition agent_tool_text :: "agent_tool \<Rightarrow> string" where
  "agent_tool_text t = obj_text
     ([(''operationId'', json_quote (at_OperationID t))] @ opt_string ''name'' (at_Name t)
      @ opt_raw ''arguments'' (at_Arguments t) @ opt_raw ''result'' (at_Result t))"

definition agent_event_text :: "agent_event \<Rightarrow> string" where
  "agent_event_text e = obj_text
     (opt_raw ''ui'' (ae_UI e) @ [(''type'', json_quote (ae_Type e))]
      @ opt_string ''turnId'' (ae_TurnID e) @ opt_nat ''sequence'' (unat (ae_Sequence e))
      @ opt_string ''provider'' (ae_Provider e) @ opt_string ''state'' (ae_State e)
      @ opt_bytes ''audio'' (ae_Audio e)
      @ opt_member (ae_SampleRate e \<noteq> 0) ''sampleRate'' (int_text (ae_SampleRate e))
      @ opt_string ''text'' (ae_Text e) @ opt_string ''role'' (ae_Role e)
      @ opt_string ''stage'' (ae_Stage e) @ opt_string ''code'' (ae_Code e)
      @ opt_string ''message'' (ae_Message e)
      @ (case ae_Metrics e of None \<Rightarrow> [] | Some m \<Rightarrow> [(''metrics'', agent_metrics_text m)])
      @ (case ae_Tool e of None \<Rightarrow> [] | Some t \<Rightarrow> [(''tool'', agent_tool_text t)]))"

definition message_text :: "message \<Rightarrow> string" where
  "message_text m = obj_text
     ([(''protocol'', json_quote (mg_Protocol m)), (''kind'', json_quote (mg_Kind m))]
      @ opt_string ''agentId'' (mg_AgentID m)
      @ (case mg_Start m of None \<Rightarrow> [] | Some s \<Rightarrow> [(''start'', start_text s)])
      @ (case mg_Command m of None \<Rightarrow> [] | Some c \<Rightarrow> [(''command'', command_text c)])
      @ (case mg_Event m of None \<Rightarrow> [] | Some e \<Rightarrow> [(''event'', agent_event_text e)])) @ [bchr 10]"

section \<open>Facts about the validators\<close>

lemma identifier_ok_iff:
  "identifier_ok s \<longleftrightarrow> s \<noteq> [] \<and> length s \<le> 128 \<and> is_alnum (hd s) \<and> (\<forall>c \<in> set s. ident_char c)"
  by (cases s) (auto simp: identifier_ok_def ident_char_def list_all_iff)

lemma not_identifier_Nil [simp]: "\<not> identifier_ok []"
  by (simp add: identifier_ok_def)

text \<open>
  A message the decoder returns has the protocol version that was asked for, and under the
  first version it carries no UI and no client identity: nothing of the second version leaks
  into a session of the first.
\<close>
lemma DecodeProtocol_version:
  "case DecodeProtocol data expected of
     Inl _ \<Rightarrow> True
   | Inr m \<Rightarrow> mg_Protocol m = expected \<and> expected \<in> {Protocol, ProtocolV2}
       \<and> length data \<le> MaxMessageBytes
       \<and> (if expected = Protocol then \<not> v2_event m \<and> \<not> v2_identity m else True)"
  by (auto simp: DecodeProtocol_def split: option.split prod.split)

end
