(* ===== verification/Conversation.thy ===== *)
theory Conversation
  imports Voice_Wire Agent_Wire
begin

text \<open>
  The per-connection turn state of the voice conversation,
  \<open>apps/personal-assistant-agent/internal/fake/conversation/session.go\<close>: which turn is
  listening or responding, the next audio sequence number, the audio collected so far and the
  turn ids used. The specification is a machine that keeps the list of accepted frames;
  \<open>conversation_refines\<close> shows that every sequence of calls answers as the specification does.
\<close>

record session =
  cs_ID :: string
  cs_State :: string
  cs_TurnID :: string
  cs_sequence :: u64
  cs_pcm :: "byte list"
  cs_usedTurns :: "string list"

section \<open>Operations\<close>

text \<open>\<open>New\<close>, given the identifier \<open>rand.Text()\<close> returns.\<close>
definition NewSession :: "string \<Rightarrow> session" where
  "NewSession rid = \<lparr>cs_ID = rid, cs_State = Idle, cs_TurnID = [], cs_sequence = 0, cs_pcm = [],
     cs_usedTurns = []\<rparr>"

definition opens_turn :: "session \<Rightarrow> event \<Rightarrow> bool" where
  "opens_turn s e \<longleftrightarrow>
     cs_State s = Idle \<or> (cs_State s = Responding \<and> ev_TurnID e \<noteq> cs_TurnID s)"

definition Append :: "event \<Rightarrow> session \<Rightarrow> session \<times> (error + string)" where
  "Append e s =
     (if cs_State s = Closed \<or> ev_SessionID e \<noteq> cs_ID s then (s, Inl ''invalid session'')
      else (case DecodeAudio (ev_Audio e) of
          Inl err \<Rightarrow> (s, Inl err)
        | Inr pcm \<Rightarrow>
          (let newTurn = opens_turn s e in
           if newTurn \<and> (ev_Sequence e \<noteq> 1 \<or> ev_TurnID e \<in> set (cs_usedTurns s)
                          \<or> MaxTurns \<le> length (cs_usedTurns s))
           then (s, Inl ''new turn requires unused turnId and sequence 1; maximum 128 turns'')
           else if \<not> newTurn \<and> (cs_State s \<noteq> Listening \<or> ev_TurnID e \<noteq> cs_TurnID s
                                \<or> ev_Sequence e \<noteq> cs_sequence s + 1)
           then (s, Inl ''unexpected turn or audio sequence'')
           else if \<not> newTurn \<and> length (cs_pcm s) + length pcm > MaxTurnBytes
           then (s, Inl ''turn audio exceeds 30 seconds'')
           else
             (let interrupted = (if newTurn \<and> cs_State s = Responding then cs_TurnID s else []);
                  s1 = (if newTurn
                        then s\<lparr>cs_TurnID := ev_TurnID e,
                               cs_usedTurns := List.insert (ev_TurnID e) (cs_usedTurns s),
                               cs_pcm := [], cs_State := Listening\<rparr>
                        else s)
              in (s1\<lparr>cs_sequence := ev_Sequence e, cs_pcm := cs_pcm s1 @ pcm\<rparr>, Inr interrupted)))))"

definition Commit :: "string \<Rightarrow> session \<Rightarrow> session \<times> (error + byte list)" where
  "Commit turn s =
     (if cs_State s \<noteq> Listening \<or> turn \<noteq> cs_TurnID s \<or> length (cs_pcm s) = 0
      then (s, Inl ''no listening turn to commit'')
      else (s\<lparr>cs_pcm := [], cs_State := Responding\<rparr>, Inr (cs_pcm s)))"

definition Cancel :: "string \<Rightarrow> session \<Rightarrow> session \<times> error option" where
  "Cancel turn s =
     (if turn \<noteq> cs_TurnID s \<or> (cs_State s \<noteq> Listening \<and> cs_State s \<noteq> Responding)
      then (s, Some ''no active matching turn'')
      else (s\<lparr>cs_State := Idle, cs_pcm := []\<rparr>, None))"

definition CompleteTurn :: "string \<Rightarrow> session \<Rightarrow> session \<times> bool" where
  "CompleteTurn turn s =
     (if cs_State s \<noteq> Responding \<or> cs_TurnID s \<noteq> turn then (s, False)
      else (s\<lparr>cs_State := Idle\<rparr>, True))"

definition CloseSession :: "session \<Rightarrow> session" where
  "CloseSession s = s\<lparr>cs_State := Closed, cs_pcm := []\<rparr>"

datatype call = CallAppend event | CallCommit string | CallCancel string | CallComplete string | CallClose

datatype answer =
    Appended "error + string"
  | Committed "error + byte list"
  | Cancelled "error option"
  | Completed bool
  | ClosedDown

text \<open>The owner serializes calls: one after another.\<close>
fun conv_call :: "session \<Rightarrow> call \<Rightarrow> session \<times> answer" where
  "conv_call s (CallAppend e) = apsnd Appended (Append e s)"
| "conv_call s (CallCommit t) = apsnd Committed (Commit t s)"
| "conv_call s (CallCancel t) = apsnd Cancelled (Cancel t s)"
| "conv_call s (CallComplete t) = apsnd Completed (CompleteTurn t s)"
| "conv_call s CallClose = (CloseSession s, ClosedDown)"

definition conv_step :: "session \<Rightarrow> call \<Rightarrow> session" where
  "conv_step s c = fst (conv_call s c)"

fun conv_answers :: "session \<Rightarrow> call list \<Rightarrow> answer list" where
  "conv_answers s [] = []"
| "conv_answers s (c # cs) = (case conv_call s c of (s', a) \<Rightarrow> a # conv_answers s' cs)"

section \<open>Invariant\<close>

definition conv_inv :: "session \<Rightarrow> bool" where
  "conv_inv s \<longleftrightarrow>
     cs_State s \<in> {Idle, Listening, Responding, Closed}
     \<and> distinct (cs_usedTurns s) \<and> length (cs_usedTurns s) \<le> MaxTurns
     \<and> (if cs_State s = Listening
        then cs_TurnID s \<in> set (cs_usedTurns s) \<and> 0 < length (cs_pcm s)
             \<and> length (cs_pcm s) \<le> MaxTurnBytes \<and> even (length (cs_pcm s))
             \<and> 0 < unat (cs_sequence s) \<and> 2 * unat (cs_sequence s) \<le> length (cs_pcm s)
        else cs_pcm s = [])"

lemma conv_inv_NewSession [simp]: "conv_inv (NewSession rid)"
  by (simp add: conv_inv_def NewSession_def)

lemma next_sequence:
  assumes "2 * unat (q :: u64) \<le> n" "n \<le> MaxTurnBytes"
  shows "unat (q + 1) = Suc (unat q)"
proof -
  have "unat q + unat (1 :: u64) < 2 ^ LENGTH(64)" using assms by simp
  then show ?thesis by (simp add: unat_add_lem [THEN iffD1])
qed

text \<open>A turn's audio holds at least two bytes a frame, so its sequence number never wraps.\<close>
lemma Append_cases:
  obtains (unchanged) "fst (Append e s) = s"
  | (opened) pcm where "DecodeAudio (ev_Audio e) = Inr pcm" "ev_Sequence e = 1"
      "ev_TurnID e \<notin> set (cs_usedTurns s)" "length (cs_usedTurns s) < MaxTurns"
      "fst (Append e s) = s\<lparr>cs_TurnID := ev_TurnID e,
         cs_usedTurns := ev_TurnID e # cs_usedTurns s, cs_pcm := pcm, cs_State := Listening,
         cs_sequence := 1\<rparr>"
  | (heard) pcm where "DecodeAudio (ev_Audio e) = Inr pcm" "cs_State s = Listening"
      "ev_Sequence e = cs_sequence s + 1" "length (cs_pcm s) + length pcm \<le> MaxTurnBytes"
      "fst (Append e s) = s\<lparr>cs_sequence := cs_sequence s + 1, cs_pcm := cs_pcm s @ pcm\<rparr>"
proof (cases "DecodeAudio (ev_Audio e)")
  case (Inl err)
  then show ?thesis using unchanged by (simp add: Append_def)
next
  case (Inr pcm)
  show ?thesis
  proof (cases "opens_turn s e")
    case True
    then show ?thesis using Inr unchanged opened [of pcm]
      by (fastforce simp: Append_def List.insert_def Let_def split: if_splits)
  next
    case False
    then show ?thesis using Inr unchanged heard [of pcm]
      by (fastforce simp: Append_def Let_def split: if_splits)
  qed
qed

text \<open>A turn's audio holds at least two bytes a frame, so its sequence number never wraps.\<close>
lemma conv_inv_Append [invariants]:
  assumes "conv_inv s"
  shows "conv_inv (fst (Append e s))"
proof (cases e s rule: Append_cases)
  case unchanged
  then show ?thesis using assms by simp
next
  case (opened pcm)
  then show ?thesis using assms DecodeAudio_length [OF opened(1)]
    by (auto simp: conv_inv_def)
next
  case (heard pcm)
  have "2 * unat (cs_sequence s) \<le> length (cs_pcm s)" "length (cs_pcm s) \<le> MaxTurnBytes"
    using assms heard(2) by (simp_all add: conv_inv_def)
  then have "unat (cs_sequence s + 1) = Suc (unat (cs_sequence s))" by (rule next_sequence)
  then show ?thesis using assms heard DecodeAudio_length [OF heard(1)]
    by (simp add: conv_inv_def)
qed

lemma conv_inv_Commit [invariants]: "conv_inv s \<Longrightarrow> conv_inv (fst (Commit t s))"
  by (auto simp: Commit_def conv_inv_def)

lemma conv_inv_Cancel [invariants]: "conv_inv s \<Longrightarrow> conv_inv (fst (Cancel t s))"
  by (auto simp: Cancel_def conv_inv_def)

lemma conv_inv_CompleteTurn [invariants]: "conv_inv s \<Longrightarrow> conv_inv (fst (CompleteTurn t s))"
  by (auto simp: CompleteTurn_def conv_inv_def)

lemma conv_inv_CloseSession [invariants]: "conv_inv s \<Longrightarrow> conv_inv (CloseSession s)"
  by (auto simp: CloseSession_def conv_inv_def)

lemma conv_inv_step: "conv_inv s \<Longrightarrow> conv_inv (conv_step s c)"
  by (cases c) (auto simp: conv_step_def intro: invariants)

interpretation conv: machine conv_step conv_inv
  by unfold_locales (rule conv_inv_step)

text \<open>Turn ids are never forgotten.\<close>
text \<open>Turn ids are never forgotten.\<close>
lemma used_turns_step: "length (cs_usedTurns s) \<le> length (cs_usedTurns (conv_step s c))"
proof (cases c)
  case (CallAppend e)
  then show ?thesis by (cases e s rule: Append_cases) (simp_all add: conv_step_def)
qed (auto simp: conv_step_def Commit_def Cancel_def CompleteTurn_def CloseSession_def)

interpretation conv_turns: monotone_machine conv_step conv_inv "\<lambda>s. length (cs_usedTurns s)"
  by unfold_locales (rule used_turns_step)

section \<open>Specification\<close>

text \<open>The phase of the conversation, with the frames of the turn being heard.\<close>
datatype phase = Resting | Hearing string "byte list list" | Answering string | Over

definition spec_open ::
  "string \<Rightarrow> event \<Rightarrow> byte list \<Rightarrow> phase \<times> string list \<Rightarrow> (phase \<times> string list) \<times> (error + string)"
where
  "spec_open interrupted e pcm st =
     (if ev_Sequence e = 1 \<and> ev_TurnID e \<notin> set (snd st) \<and> length (snd st) < MaxTurns
      then ((Hearing (ev_TurnID e) [pcm], ev_TurnID e # snd st), Inr interrupted)
      else (st, Inl ''new turn requires unused turnId and sequence 1; maximum 128 turns''))"

definition spec_append ::
  "string \<Rightarrow> event \<Rightarrow> phase \<times> string list \<Rightarrow> (phase \<times> string list) \<times> (error + string)"
where
  "spec_append sid e st =
     (if fst st = Over \<or> ev_SessionID e \<noteq> sid then (st, Inl ''invalid session'')
      else (case DecodeAudio (ev_Audio e) of
          Inl err \<Rightarrow> (st, Inl err)
        | Inr pcm \<Rightarrow>
          (case fst st of
             Resting \<Rightarrow> spec_open [] e pcm st
           | Answering t \<Rightarrow>
               if ev_TurnID e \<noteq> t then spec_open t e pcm st
               else (st, Inl ''unexpected turn or audio sequence'')
           | Hearing t fs \<Rightarrow>
               if ev_TurnID e \<noteq> t \<or> unat (ev_Sequence e) \<noteq> length fs + 1
               then (st, Inl ''unexpected turn or audio sequence'')
               else if length (concat fs) + length pcm > MaxTurnBytes
               then (st, Inl ''turn audio exceeds 30 seconds'')
               else ((Hearing t (fs @ [pcm]), snd st), Inr [])
           | Over \<Rightarrow> (st, Inl ''invalid session''))))"

fun spec_call :: "string \<Rightarrow> phase \<times> string list \<Rightarrow> call \<Rightarrow> (phase \<times> string list) \<times> answer" where
  "spec_call sid st (CallAppend e) = apsnd Appended (spec_append sid e st)"
| "spec_call sid (ph, used) (CallCommit t) =
     (case ph of
        Hearing t' fs \<Rightarrow> if t = t' then ((Answering t, used), Committed (Inr (concat fs)))
          else ((ph, used), Committed (Inl ''no listening turn to commit''))
      | _ \<Rightarrow> ((ph, used), Committed (Inl ''no listening turn to commit'')))"
| "spec_call sid (ph, used) (CallCancel t) =
     (if (\<exists>fs. ph = Hearing t fs) \<or> ph = Answering t then ((Resting, used), Cancelled None)
      else ((ph, used), Cancelled (Some ''no active matching turn'')))"
| "spec_call sid (ph, used) (CallComplete t) =
     (if ph = Answering t then ((Resting, used), Completed True) else ((ph, used), Completed False))"
| "spec_call sid (ph, used) CallClose = ((Over, used), ClosedDown)"

fun spec_answers :: "string \<Rightarrow> phase \<times> string list \<Rightarrow> call list \<Rightarrow> answer list" where
  "spec_answers sid st [] = []"
| "spec_answers sid st (c # cs) = (case spec_call sid st c of (st', a) \<Rightarrow> a # spec_answers sid st' cs)"

definition conv_rel :: "string \<Rightarrow> session \<Rightarrow> phase \<times> string list \<Rightarrow> bool" where
  "conv_rel sid s st \<longleftrightarrow>
     conv_inv s \<and> cs_ID s = sid \<and> cs_usedTurns s = snd st
     \<and> (case fst st of
          Resting \<Rightarrow> cs_State s = Idle
        | Hearing t fs \<Rightarrow> cs_State s = Listening \<and> cs_TurnID s = t \<and> cs_pcm s = concat fs
            \<and> unat (cs_sequence s) = length fs
        | Answering t \<Rightarrow> cs_State s = Responding \<and> cs_TurnID s = t
        | Over \<Rightarrow> cs_State s = Closed)"

lemma conv_rel_next:
  assumes "conv_rel sid s st" "cs_State s = Listening"
  shows "q = cs_sequence s + 1 \<longleftrightarrow> unat q = Suc (unat (cs_sequence s))"
proof -
  have "2 * unat (cs_sequence s) \<le> length (cs_pcm s)" "length (cs_pcm s) \<le> MaxTurnBytes"
    using assms by (simp_all add: conv_rel_def conv_inv_def)
  then show ?thesis by (metis next_sequence word_unat_eq_iff)
qed

lemma conv_rel_Append:
  assumes "conv_rel sid s st"
  shows "snd (Append e s) = snd (spec_append sid e st)
    \<and> conv_rel sid (fst (Append e s)) (fst (spec_append sid e st))"
proof -
  have inv: "conv_inv (fst (Append e s))"
    using assms by (intro conv_inv_Append) (simp add: conv_rel_def)
  obtain ph used where st: "st = (ph, used)" by (cases st)
  show ?thesis
  proof (cases ph)
    case Resting
    then show ?thesis using assms inv
      by (auto simp: conv_rel_def st spec_append_def spec_open_def Append_def opens_turn_def Let_def
          List.insert_def split: sum.splits if_splits)
  next
    case (Hearing t fs)
    then have l: "cs_State s = Listening" using assms by (simp add: conv_rel_def st)
    show ?thesis using assms inv Hearing conv_rel_next [OF assms l, of "ev_Sequence e"]
      by (auto simp: conv_rel_def st spec_append_def Append_def opens_turn_def Let_def
          split: sum.splits if_splits)
  next
    case (Answering t)
    then show ?thesis using assms inv
      by (auto simp: conv_rel_def st spec_append_def spec_open_def Append_def opens_turn_def Let_def
          List.insert_def split: sum.splits if_splits)
  next
    case Over
    then show ?thesis using assms
      by (auto simp: conv_rel_def st spec_append_def Append_def)
  qed
qed

lemma conv_rel_call:
  assumes "conv_rel sid s st"
  shows "snd (conv_call s c) = snd (spec_call sid st c)
    \<and> conv_rel sid (fst (conv_call s c)) (fst (spec_call sid st c))"
proof -
  have inv: "conv_inv (fst (conv_call s c))"
    using assms conv_inv_step [of s c] by (simp add: conv_rel_def conv_step_def)
  obtain ph used where st: "st = (ph, used)" by (cases st)
  show ?thesis
  proof (cases c)
    case (CallAppend e)
    then show ?thesis using conv_rel_Append [OF assms, of e] by simp
  qed (use assms inv in \<open>cases ph; force simp: conv_rel_def st Commit_def Cancel_def CompleteTurn_def
      CloseSession_def conv_inv_def split: if_splits\<close>)+
qed

lemma conv_answers_rel:
  "conv_rel sid s st \<Longrightarrow> conv_answers s cs = spec_answers sid st cs"
proof (induction cs arbitrary: s st)
  case (Cons c cs)
  from conv_rel_call [OF Cons.prems, of c] Cons.IH show ?case
    by (auto split: prod.split)
qed simp

section \<open>Properties\<close>

text \<open>
  C23. A conversation answers any sequence of calls exactly as its specification does: a turn
  opens once, on sequence 1, its frames arrive in order without a gap and hold at most 30
  seconds, a committed turn returns the concatenation of its frames, and a rejected call
  changes nothing.
\<close>
theorem conversation_refines:
  "conv_answers (NewSession sid) cs = spec_answers sid (Resting, []) cs"
  by (rule conv_answers_rel) (simp add: conv_rel_def, simp add: NewSession_def)

text \<open>
  After any sequence of calls at most 128 distinct turns were opened, audio is held only
  while a turn is listening, and then it is whole samples of at most 30 seconds, at least one
  sample for each frame counted by the sequence number.
\<close>
theorem conversation_invariant:
  "conv_inv (foldl conv_step (NewSession sid) cs)"
  by (rule conv.run_inv) simp

end
