(* ===== verification/Mcp_Types.thy ===== *)
theory Mcp_Types
  imports Go_Json
begin

text \<open>
  The tool protocol's types, \<open>packages/go/mcpwire/types.go\<close> and \<open>policy.go\<close>: tools, results,
  \<open>TextResult\<close>, \<open>Failure\<close>, \<open>Status\<close>, \<open>Compile\<close> and \<open>Validate\<close>. The JSON Schema library
  (\<open>santhosh-tekuri/jsonschema\<close>), SHA-256, the decimal text of a \<open>float64\<close> and the matching of a
  configured regular expression are not the repository's: they are the fields of \<open>lib\<close>, an
  argument of what uses them.
\<close>

abbreviation ProtocolVersion :: string where "ProtocolVersion \<equiv> ''2025-11-25''"
abbreviation MaxMessage :: nat where "MaxMessage \<equiv> 262144"

type_synonym policy = string
abbreviation ReadOnly :: string where "ReadOnly \<equiv> ''read_only''"
abbreviation ExplicitIntent :: string where "ExplicitIntent \<equiv> ''explicit_intent''"
abbreviation ConfirmLater :: string where "ConfirmLater \<equiv> ''confirm_later''"

text \<open>\<open>^[a-z][a-z0-9_]{0,23}$\<close>\<close>
definition alias_ok :: "string \<Rightarrow> bool" where
  "alias_ok s \<longleftrightarrow> (case s of [] \<Rightarrow> False
     | c # cs \<Rightarrow> is_lower c \<and> length cs \<le> 23
         \<and> list_all (\<lambda>d. is_lower d \<or> is_digit d \<or> bval d = 95) cs)"

record tool =
  tl_Server :: string
  tl_OriginalName :: string
  tl_HostPolicy :: policy
  tl_Name :: string
  tl_Description :: string
  tl_InputSchema :: string
  tl_Annotations :: "(string \<times> json) list"

record content =
  ct_Type :: string
  ct_Text :: string

record result =
  rs_Content :: "content list"
  rs_IsError :: bool

text \<open>\<open>text\<close> is what \<open>json.Marshal\<close> makes of the value.\<close>
definition TextResult :: "string \<Rightarrow> bool \<Rightarrow> result" where
  "TextResult txt failed =
     \<lparr>rs_Content = [\<lparr>ct_Type = ''text'', ct_Text = txt\<rparr>], rs_IsError = failed\<rparr>"

definition Failure :: "string \<Rightarrow> result" where
  "Failure code =
     TextResult (obj_text [(''code'', json_quote code), (''status'', json_quote ''error'')]) True"

definition Status :: "result \<Rightarrow> string" where
  "Status r = (case rs_Content r of [] \<Rightarrow> [] | c # _ \<Rightarrow> member_string ''status'' (ct_Text c))"

definition content_text :: "content \<Rightarrow> string" where
  "content_text c = obj_text [(''type'', json_quote (ct_Type c)), (''text'', json_quote (ct_Text c))]"

text \<open>\<open>json.Marshal\<close> of a result (its content is never nil here).\<close>
definition result_text :: "result \<Rightarrow> string" where
  "result_text r = obj_text
     ([(''content'', arr_text (map content_text (rs_Content r)))]
      @ (if rs_IsError r then [(''isError'', ''true'')] else []))"

section \<open>Decoding into any\<close>

text \<open>
  What \<open>json.Unmarshal\<close> leaves in an \<open>any\<close>: maps with the last of equal keys, and nil in place
  of a number that is out of range; the flag says that there was no error.
\<close>
fun any_value :: "json \<Rightarrow> json" where
  "any_value (JNum l) = (if f64_ok l then JNum l else JNull)"
| "any_value (JArr xs) = JArr (map any_value xs)"
| "any_value (JObj kvs) = JObj (go_map (map (\<lambda>(k, v). (k, any_value v)) kvs))"
| "any_value v = v"

definition unmarshal_any :: "string \<Rightarrow> json \<times> bool" where
  "unmarshal_any s = (case json_whole s of
       None \<Rightarrow> (JNull, False) | Some v \<Rightarrow> (any_value v, json_nums f64_ok v))"

section \<open>Libraries\<close>

record 'sch lib =
  sha256 :: "byte list \<Rightarrow> byte list"
  f64_text :: "string \<Rightarrow> string"
  regex_match :: "string \<Rightarrow> string \<Rightarrow> bool"
  schema_compile :: "json \<Rightarrow> 'sch option"
  schema_check :: "'sch \<Rightarrow> json \<Rightarrow> bool"
  unicode :: uctab

definition CompileSchema :: "'sch lib \<Rightarrow> string \<Rightarrow> 'sch option" where
  "CompileSchema L schema =
     (case unmarshal_any schema of (doc, ok) \<Rightarrow> if \<not> ok then None else schema_compile L doc)"

definition Validate :: "'sch lib \<Rightarrow> 'sch \<Rightarrow> string \<Rightarrow> error option" where
  "Validate L schema args =
     (if length args > 16384 then Some ''arguments exceed limit''
      else (case unmarshal_any args of (v, ok) \<Rightarrow>
          if \<not> ok then Some ''invalid JSON''
          else if schema_check L schema v then None else Some ''schema mismatch''))"

text \<open>\<open>json.Marshal\<close> of what \<open>json.Unmarshal\<close> left in an \<open>any\<close>, both errors dropped.\<close>
definition canonical_any :: "'sch lib \<Rightarrow> string \<Rightarrow> string" where
  "canonical_any L args = json_text (f64_text L) (fst (unmarshal_any args))"

text \<open>A library for evaluation: every document is a schema that accepts every value.\<close>
definition toy_lib :: "unit lib" where
  "toy_lib = \<lparr>sha256 = (\<lambda>b. take 4 (rev b)), f64_text = (\<lambda>l. l), regex_match = (\<lambda>p t. p = t),
     schema_compile = (\<lambda>_. Some ()), schema_check = (\<lambda>_ _. True), unicode = latin_uctab\<rparr>"

lemma Failure_simps [simp]: "rs_IsError (Failure c)" "length (rs_Content (Failure c)) = 1"
  by (simp_all add: Failure_def TextResult_def)

end
