(* ===== verification/Go_Time.thy ===== *)
theory Go_Time
  imports Go_Text
begin

text \<open>
  The part of Go's \<open>time\<close> package the program uses: \<open>time.Parse(time.RFC3339, s)\<close> with what it
  accepts beyond the RFC (a one-digit hour, a fraction after a comma), \<open>Format(time.RFC3339)\<close>,
  and the proleptic Gregorian calendar. A time is a pair of Unix seconds and nanoseconds.
\<close>

section \<open>Calendar\<close>

definition leap :: "int \<Rightarrow> bool" where
  "leap y \<longleftrightarrow> 4 dvd y \<and> (\<not> 100 dvd y \<or> 400 dvd y)"

text \<open>Days before the first of January of year \<open>y\<close>, from that of year 0.\<close>
definition year_start :: "int \<Rightarrow> int" where
  "year_start y = 365 * y + (y + 3) div 4 - (y + 99) div 100 + (y + 399) div 400"

definition month_len :: "int \<Rightarrow> nat \<Rightarrow> int" where
  "month_len y m = (if m = 2 then (if leap y then 29 else 28)
     else if m \<in> {4, 6, 9, 11} then 30 else 31)"

definition month_start :: "int \<Rightarrow> nat \<Rightarrow> int" where
  "month_start y m = sum_list (map (month_len y) [1..<m])"

text \<open>Day number 0 is 1970-01-01.\<close>
definition epoch_day :: int where "epoch_day = 719528"

definition day_number :: "int \<Rightarrow> nat \<Rightarrow> int \<Rightarrow> int" where
  "day_number y m d = year_start y + month_start y m + (d - 1) - epoch_day"

text \<open>The year that holds a day: an estimate from the mean year, off by one at most.\<close>
definition year_of :: "int \<Rightarrow> int" where
  "year_of n =
     (let g = n + epoch_day; y = g * 400 div 146097 in
      if g < year_start y then y - 1 else if year_start (y + 1) \<le> g then y + 1 else y)"

definition month_of :: "int \<Rightarrow> int \<Rightarrow> nat" where
  "month_of y k = length (filter (\<lambda>m. month_start y m \<le> k) [1..<13])"

definition civil :: "int \<Rightarrow> int \<times> nat \<times> int" where
  "civil n =
     (let y = year_of n; k = n + epoch_day - year_start y; m = month_of y k
      in (y, m, k - month_start y m + 1))"

definition civil_valid :: "int \<Rightarrow> nat \<Rightarrow> int \<Rightarrow> bool" where
  "civil_valid y m d \<longleftrightarrow> 1 \<le> m \<and> m \<le> 12 \<and> 1 \<le> d \<and> d \<le> month_len y m"

definition unix_of :: "int \<Rightarrow> nat \<Rightarrow> int \<Rightarrow> nat \<Rightarrow> nat \<Rightarrow> nat \<Rightarrow> int" where
  "unix_of y m d h mi se = day_number y m d * 86400 + int h * 3600 + int mi * 60 + int se"

lemma div_bounds:
  fixes x c :: int
  assumes "0 < c"
  shows "c * (x div c) \<le> x" "x < c * (x div c) + c"
proof -
  have e: "x = c * (x div c) + x mod c" by simp
  have "0 \<le> x mod c" "x mod c < c" using assms by simp_all
  then show "c * (x div c) \<le> x" "x < c * (x div c) + c"
    using e by linarith+
qed

lemma div_shift:
  fixes y c :: int
  assumes "0 < c"
  shows "(y + 1 + (c - 1)) div c = (y + (c - 1)) div c + (if c dvd y then 1 else 0)"
proof -
  obtain q r where y: "y = c * q + r" and r: "0 \<le> r" "r < c"
    using assms by (metis mult_div_mod_eq pos_mod_bound pos_mod_sign)
  have "(y + 1 + (c - 1)) div c = q + 1"
    using y r assms int_div_pos_eq [of "y + 1 + (c - 1)" c "q + 1" r] by (simp add: algebra_simps)
  moreover have "(y + (c - 1)) div c = (if r = 0 then q else q + 1)"
    using y r assms int_div_pos_eq [of "y + (c - 1)" c q "c - 1"]
      int_div_pos_eq [of "y + (c - 1)" c "q + 1" "r - 1"]
    by (auto simp: algebra_simps)
  moreover have "c dvd y \<longleftrightarrow> r = 0"
    using y r by (simp add: dvd_eq_mod_eq_0)
  ultimately show ?thesis by simp
qed

lemma year_start_Suc: "year_start (y + 1) = year_start y + (if leap y then 366 else 365)"
proof -
  have d: "100 dvd y \<Longrightarrow> 4 dvd y" "400 dvd y \<Longrightarrow> 100 dvd y"
    by (erule dvd_trans [rotated], simp)+
  have e: "(y + 1 + 3) div 4 = (y + 3) div 4 + (if 4 dvd y then 1 else 0)"
    "(y + 1 + 99) div 100 = (y + 99) div 100 + (if 100 dvd y then 1 else 0)"
    "(y + 1 + 399) div 400 = (y + 399) div 400 + (if 400 dvd y then 1 else 0)"
    using div_shift [of 4 y] div_shift [of 100 y] div_shift [of 400 y] by simp_all
  define a where "a = (y + 3) div 4"
  define b where "b = (y + 99) div 100"
  define c where "c = (y + 399) div 400"
  show ?thesis
    unfolding year_start_def e leap_def a_def [symmetric] b_def [symmetric] c_def [symmetric]
    using d by (cases "4 dvd y"; cases "100 dvd y"; cases "400 dvd y") (simp_all only: if_True if_False, simp_all)
qed

lemma year_start_bounds:
  "146097 * y \<le> 400 * year_start y + 400" "400 * year_start y \<le> 146097 * y + 1000"
proof -
  define a where "a = (y + 3) div 4"
  define b where "b = (y + 99) div 100"
  define c where "c = (y + 399) div 400"
  have "4 * a \<le> y + 3" "y + 3 < 4 * a + 4" "100 * b \<le> y + 99" "y + 99 < 100 * b + 100"
    "400 * c \<le> y + 399" "y + 399 < 400 * c + 400"
    unfolding a_def b_def c_def by (simp_all only: div_bounds zero_less_numeral)
  moreover have "year_start y = 365 * y + a - b + c"
    by (simp add: year_start_def a_def b_def c_def)
  ultimately show "146097 * y \<le> 400 * year_start y + 400" "400 * year_start y \<le> 146097 * y + 1000"
    by (simp_all add: algebra_simps)
qed

lemma year_start_mono: "y \<le> z \<Longrightarrow> year_start y \<le> year_start z"
proof (induction z rule: int_ge_induct)
  case (step z)
  then show ?case by (simp add: year_start_Suc)
qed simp

lemma year_of_bounds:
  "year_start (year_of n) \<le> n + epoch_day" "n + epoch_day < year_start (year_of n + 1)"
proof -
  define g where "g = n + epoch_day"
  define y where "y = g * 400 div 146097"
  have y: "146097 * y \<le> g * 400" "g * 400 < 146097 * y + 146097"
    unfolding y_def by (simp_all only: div_bounds zero_less_numeral)
  have low: "year_start (y - 1) \<le> g"
    using year_start_bounds(2) [of "y - 1"] y by (simp add: algebra_simps)
  have high: "g < year_start (y + 1 + 1)"
    using year_start_bounds(1) [of "y + 1 + 1"] y by (simp add: algebra_simps)
  have "year_of n = (if g < year_start y then y - 1 else if year_start (y + 1) \<le> g then y + 1 else y)"
    by (simp add: year_of_def g_def y_def Let_def)
  then show "year_start (year_of n) \<le> n + epoch_day" "n + epoch_day < year_start (year_of n + 1)"
    using low high by (auto simp: g_def not_less not_le split: if_splits)
qed

lemma year_of_eq:
  assumes "year_start y \<le> n + epoch_day" "n + epoch_day < year_start (y + 1)"
  shows "year_of n = y"
proof (rule ccontr)
  assume "year_of n \<noteq> y"
  then consider "year_of n + 1 \<le> y" | "y + 1 \<le> year_of n" by linarith
  then show False
    using assms year_of_bounds [of n] year_start_mono [of "year_of n + 1" y]
      year_start_mono [of "y + 1" "year_of n"]
    by cases linarith+
qed

lemma month_start_eqs:
  "month_start y 1 = 0" "month_start y (Suc 0) = 0" "month_start y 2 = 31" "month_start y 3 = 31 + month_len y 2"
  "month_start y 4 = 62 + month_len y 2" "month_start y 5 = 92 + month_len y 2"
  "month_start y 6 = 123 + month_len y 2" "month_start y 7 = 153 + month_len y 2"
  "month_start y 8 = 184 + month_len y 2" "month_start y 9 = 215 + month_len y 2"
  "month_start y 10 = 245 + month_len y 2" "month_start y 11 = 276 + month_len y 2"
  "month_start y 12 = 306 + month_len y 2"
  by (simp_all add: month_start_def upt_rec month_len_def)

lemma month_cases:
  assumes "1 \<le> m" "m \<le> (12 :: nat)"
  obtains "m = 1" | "m = 2" | "m = 3" | "m = 4" | "m = 5" | "m = 6" | "m = 7" | "m = 8" | "m = 9"
    | "m = 10" | "m = 11" | "m = 12"
  using assms by (auto simp: le_Suc_eq numeral_eq_Suc)

lemma month_of_start:
  assumes "civil_valid y m d"
  shows "month_of y (month_start y m + (d - 1)) = m"
proof -
  have len: "month_len y 2 \<in> {28, 29}" by (simp add: month_len_def)
  have upt: "[1..<13] = [1, 2, 3, 4, 5, 6, 7, 8, 9, 10, 11, 12 :: nat]" by (simp add: upt_rec)
  have m: "1 \<le> m" "m \<le> 12" and d: "1 \<le> d" "d \<le> month_len y m"
    using assms by (auto simp: civil_valid_def)
  from m show ?thesis
    using len d unfolding month_of_def upt
    by (cases m rule: month_cases) (auto simp: month_start_eqs month_len_def)
qed

lemma month_start_less:
  assumes "civil_valid y m d"
  shows "month_start y m + (d - 1) < (if leap y then 366 else 365)"
proof -
  have m: "1 \<le> m" "m \<le> 12" and d: "1 \<le> d" "d \<le> month_len y m"
    using assms by (auto simp: civil_valid_def)
  from m show ?thesis
    using d by (cases m rule: month_cases) (auto simp: month_start_eqs month_len_def)
qed

lemma month_start_nonneg: "0 \<le> month_start y m"
  unfolding month_start_def by (rule sum_list_nonneg) (auto simp: month_len_def)

lemma civil_day_number:
  assumes "civil_valid y m d"
  shows "civil (day_number y m d) = (y, m, d)"
proof -
  let ?k = "month_start y m + (d - 1)"
  have "0 \<le> ?k" using month_start_nonneg [of y m] assms by (simp add: civil_valid_def)
  then have "year_of (day_number y m d) = y"
    using month_start_less [OF assms]
    by (intro year_of_eq) (simp_all add: day_number_def year_start_Suc)
  then show ?thesis
    using month_of_start [OF assms] by (simp add: civil_def Let_def day_number_def)
qed

lemma month_interval:
  assumes "0 \<le> k" "k < (if leap y then 366 else 365)"
  shows "\<exists>m \<ge> 1. m \<le> 12 \<and> month_start y m \<le> k \<and> k < month_start y m + month_len y m"
proof -
  have step: "month_start y (Suc m) = month_start y m + month_len y m" if "1 \<le> m" for m
    using that by (simp add: month_start_def)
  have total: "month_start y 13 = (if leap y then 366 else 365)"
    using step [of 12] by (simp add: month_start_eqs month_len_def)
  define m where "m = (LEAST m. k < month_start y (Suc m))"
  have "k < month_start y (Suc 12)" using assms total by simp
  then have less: "k < month_start y (Suc m)" and le: "m \<le> 12"
    unfolding m_def by (rule LeastI, rule Least_le)
  have "m \<noteq> 0" using less assms by (cases "m = 0") (auto simp: month_start_eqs)
  then have "\<not> k < month_start y (Suc (m - 1))"
    unfolding m_def by (intro not_less_Least) simp
  then show ?thesis using less le step [of m] \<open>m \<noteq> 0\<close> by (intro exI [of _ m]) auto
qed

text \<open>Every day has a calendar date, and that date is the day's.\<close>
lemma day_number_civil:
  assumes "civil n = (y, m, d)"
  shows "civil_valid y m d" "day_number y m d = n"
proof -
  define k where "k = n + epoch_day - year_start y"
  have y: "y = year_of n" and m: "m = month_of y k" and d: "d = k - month_start y m + 1"
    using assms by (auto simp: civil_def Let_def k_def)
  have k: "0 \<le> k" "k < (if leap y then 366 else 365)"
    using year_of_bounds [of n] by (simp_all add: k_def y year_start_Suc)
  obtain m' where m': "1 \<le> m'" "m' \<le> 12" "month_start y m' \<le> k"
      "k < month_start y m' + month_len y m'"
    using month_interval [OF k] by blast
  then have "civil_valid y m' (k - month_start y m' + 1)" by (simp add: civil_valid_def)
  then have "month_of y k = m'" using month_of_start [of y m' "k - month_start y m' + 1"] by simp
  then have "1 \<le> m" "m \<le> 12" "month_start y m \<le> k" "k < month_start y m + month_len y m"
    using m' by (simp_all add: m)
  then show "civil_valid y m d" "day_number y m d = n"
    by (auto simp: civil_valid_def d day_number_def k_def)
qed

section \<open>RFC 3339\<close>

text \<open>Parsers take characters off the front of the text; \<open>None\<close> is the error.\<close>
type_synonym 'a taker = "string \<Rightarrow> ('a \<times> string) option"

definition lit :: "char \<Rightarrow> string \<Rightarrow> string option" where
  "lit c s = (case s of d # r \<Rightarrow> if d = c then Some r else None | [] \<Rightarrow> None)"

text \<open>Exactly \<open>n\<close> digits.\<close>
definition take_digits :: "nat \<Rightarrow> nat taker" where
  "take_digits n s =
     (if length s \<ge> n \<and> list_all is_digit (take n s) then Some (digits_val (take n s), drop n s) else None)"

text \<open>\<open>getnum(s, false)\<close>: two digits, or one.\<close>
definition take_hour :: "nat taker" where
  "take_hour s = (case take_digits 2 s of Some x \<Rightarrow> Some x | None \<Rightarrow> take_digits 1 s)"

definition in_range :: "nat \<Rightarrow> nat \<Rightarrow> (nat \<times> string) option \<Rightarrow> (nat \<times> string) option" where
  "in_range lo hi x = (case x of Some (v, r) \<Rightarrow> if lo \<le> v \<and> v \<le> hi then Some (v, r) else None | None \<Rightarrow> None)"

text \<open>A fractional second, which the layout does not have but \<open>Parse\<close> accepts.\<close>
definition take_fraction :: "string \<Rightarrow> nat \<times> string" where
  "take_fraction s =
     (case s of
        c # d # r \<Rightarrow>
          if (bval c = 46 \<or> bval c = 44) \<and> is_digit d then
            (let ds = take 9 (takeWhile is_digit (d # r))
             in (digits_val ds * 10 ^ (9 - length ds), dropWhile is_digit (d # r)))
          else (0, s)
      | _ \<Rightarrow> (0, s))"

text \<open>The offset in seconds: \<open>Z\<close>, or a sign with hours up to 24 and minutes up to 60.\<close>
definition take_zone :: "int taker" where
  "take_zone s =
     (case s of
        [] \<Rightarrow> None
      | c # r \<Rightarrow>
          if c = CHR ''Z'' then Some (0, r)
          else if bval c = 43 \<or> bval c = 45 then
            Option.bind (in_range 0 24 (take_digits 2 r)) (\<lambda>(h, r1).
            Option.bind (lit CHR '':'' r1) (\<lambda>r2.
            Option.bind (in_range 0 60 (take_digits 2 r2)) (\<lambda>(m, r3).
              let off = int (h * 3600 + m * 60)
              in Some (if bval c = 45 then - off else off, r3))))
          else None)"

definition take_date :: "(int \<times> nat \<times> int) taker" where
  "take_date s =
     Option.bind (take_digits 4 s) (\<lambda>(y, r1).
     Option.bind (lit CHR ''-'' r1) (\<lambda>r2.
     Option.bind (in_range 1 12 (take_digits 2 r2)) (\<lambda>(m, r3).
     Option.bind (lit CHR ''-'' r3) (\<lambda>r4.
     Option.bind (take_digits 2 r4) (\<lambda>(d, r5). Some ((int y, m, int d), r5))))))"

definition take_clock :: "(nat \<times> nat \<times> nat \<times> nat) taker" where
  "take_clock s =
     Option.bind (in_range 0 23 (take_hour s)) (\<lambda>(h, r1).
     Option.bind (lit CHR '':'' r1) (\<lambda>r2.
     Option.bind (in_range 0 59 (take_digits 2 r2)) (\<lambda>(m, r3).
     Option.bind (lit CHR '':'' r3) (\<lambda>r4.
     Option.bind (in_range 0 59 (take_digits 2 r4)) (\<lambda>(se, r5).
       case take_fraction r5 of (ns, r6) \<Rightarrow> Some ((h, m, se, ns), r6))))))"

text \<open>\<open>time.Parse(time.RFC3339, s)\<close>: Unix seconds and nanoseconds.\<close>
definition parse_rfc3339 :: "string \<Rightarrow> (int \<times> nat) option" where
  "parse_rfc3339 s =
     Option.bind (take_date s) (\<lambda>((y, m, d), r1).
     Option.bind (lit CHR ''T'' r1) (\<lambda>r2.
     Option.bind (take_clock r2) (\<lambda>((h, mi, se, ns), r3).
     Option.bind (take_zone r3) (\<lambda>(z, r4).
       if r4 = [] \<and> civil_valid y m d then Some (unix_of y m d h mi se - z, ns) else None))))"

text \<open>\<open>Format(time.RFC3339)\<close> at an offset from UTC in seconds.\<close>

definition pad :: "nat \<Rightarrow> nat \<Rightarrow> string" where
  "pad w n = (let t = nat_text n in replicate (w - length t) CHR ''0'' @ t)"

definition year_text :: "int \<Rightarrow> string" where
  "year_text y = (if y < 0 then CHR ''-'' # pad 4 (nat (- y)) else pad 4 (nat y))"

definition zone_text :: "int \<Rightarrow> string" where
  "zone_text z = (if z = 0 then ''Z''
     else (let m = nat (\<bar>z\<bar> div 60) in
       (if z < 0 \<and> m \<noteq> 0 then CHR ''-'' else CHR ''+'') # pad 2 (m div 60) @ CHR '':'' # pad 2 (m mod 60)))"

definition date_text :: "int \<times> nat \<times> int \<Rightarrow> string" where
  "date_text c = (case c of (y, m, d) \<Rightarrow>
     year_text y @ CHR ''-'' # pad 2 m @ CHR ''-'' # pad 2 (nat d))"

definition clock_text :: "nat \<Rightarrow> string" where
  "clock_text s = pad 2 (s div 3600) @ CHR '':'' # pad 2 (s div 60 mod 60) @ CHR '':'' # pad 2 (s mod 60)"

definition format_rfc3339 :: "int \<Rightarrow> int \<Rightarrow> string" where
  "format_rfc3339 z unix =
     (let t = unix + z in
      date_text (civil (t div 86400)) @ CHR ''T'' # clock_text (nat (t mod 86400)) @ zone_text z)"

section \<open>Round trip\<close>

lemma digits_val_zeros: "digits_val (replicate k CHR ''0'' @ t) = digits_val t"
proof -
  have "foldl (\<lambda>n c. n * 10 + digit_val c) 0 (replicate k CHR ''0'') = 0"
    by (induction k) (simp_all add: digit_val_def bval_Char)
  then show ?thesis by (simp add: digits_val_def)
qed

lemma length_nat_text: "n < 10 ^ w \<Longrightarrow> 0 < w \<Longrightarrow> length (nat_text n) \<le> w"
proof (induction n arbitrary: w rule: nat_text.induct)
  case (1 n)
  show ?case
  proof (cases "n < 10")
    case True
    then show ?thesis using 1 by (simp add: nat_text.simps [of n])
  next
    case False
    then obtain v where w: "w = Suc v" "0 < v"
      using 1(2,3) by (cases w; cases "w - 1") auto
    then have "n div 10 < 10 ^ v" using 1(2) by (simp add: less_mult_imp_div_less mult.commute)
    then show ?thesis using 1(1) [OF False, of v] False w by (simp add: nat_text.simps [of n])
  qed
qed

lemma length_pad: "n < 10 ^ w \<Longrightarrow> 0 < w \<Longrightarrow> length (pad w n) = w"
  using length_nat_text [of n w] by (simp add: pad_def Let_def)

lemma digits_pad: "list_all is_digit (pad w n)"
  using nat_text_digits [of n] by (auto simp: pad_def Let_def list_all_iff is_digit_def bval_Char)

lemma take_digits_pad:
  assumes "n < 10 ^ w" "0 < w"
  shows "take_digits w (pad w n @ r) = Some (n, r)"
  using length_pad [OF assms] digits_pad [of w n]
  by (simp add: take_digits_def) (simp add: pad_def Let_def digits_val_zeros)

lemma take_digits_pads [simp]:
  "n < 10000 \<Longrightarrow> take_digits 4 (pad 4 n @ r) = Some (n, r)"
  "n < 100 \<Longrightarrow> take_digits 2 (pad 2 n @ r) = Some (n, r)"
  by (rule take_digits_pad; simp)+

lemma lit_same [simp]: "lit c (c # r) = Some r"
  by (simp add: lit_def)

lemma take_date_text:
  assumes "civil_valid y m d" "0 \<le> y" "y \<le> 9999"
  shows "take_date (date_text (y, m, d) @ r) = Some ((y, m, d), r)"
proof -
  have "month_len y m \<le> 31" by (simp add: month_len_def)
  then have "m < 100" "nat d < 100" "nat y < 10000" "1 \<le> m" "m \<le> 12" "0 \<le> d"
    using assms by (auto simp: civil_valid_def)
  then show ?thesis using assms
    by (simp add: take_date_def date_text_def year_text_def in_range_def)
qed

lemma take_clock_text:
  assumes "s < 86400" "take_fraction r = (0, r)"
  shows "take_clock (clock_text s @ r) = Some ((s div 3600, s div 60 mod 60, s mod 60, 0), r)"
proof -
  have "s div 3600 < 24" using assms(1) by (simp add: less_mult_imp_div_less)
  moreover have "s div 60 mod 60 < 60" "s mod 60 < 60" by simp_all
  ultimately show ?thesis using assms(2)
    by (simp add: take_clock_def clock_text_def take_hour_def in_range_def less_Suc_eq_le [symmetric])
qed

lemma clock_seconds: "(s :: nat) div 3600 * 3600 + s div 60 mod 60 * 60 + s mod 60 = s"
proof -
  define t where "t = s div 60"
  define a where "a = t div 60"
  define b where "b = t mod 60"
  have "s div 3600 = a" by (simp add: a_def t_def div_mult2_eq [symmetric])
  moreover have "t = a * 60 + b" by (simp add: a_def b_def)
  moreover have "s = t * 60 + s mod 60" by (simp add: t_def)
  ultimately show ?thesis by (simp add: t_def [symmetric] b_def [symmetric])
qed

definition year_at :: "int \<Rightarrow> int" where
  "year_at unix = fst (civil (unix div 86400))"

text \<open>An instant of the years 0 to 9999 survives being written in UTC and read back.\<close>
theorem parse_format_rfc3339:
  assumes "0 \<le> year_at unix" "year_at unix \<le> 9999"
  shows "parse_rfc3339 (format_rfc3339 0 unix) = Some (unix, 0)"
proof -
  obtain y m d where c: "civil (unix div 86400) = (y, m, d)" by (metis prod_cases3)
  note day = day_number_civil [OF c]
  define s where "s = nat (unix mod 86400)"
  have s: "s < 86400" "int s = unix mod 86400" by (auto simp: s_def nat_less_iff)
  have "take_fraction ''Z'' = (0, ''Z'')" by (simp add: take_fraction_def)
  then have clock: "take_clock (clock_text s @ ''Z'') = Some ((s div 3600, s div 60 mod 60, s mod 60, 0), ''Z'')"
    using s(1) by (intro take_clock_text)
  have "unix_of y m d (s div 3600) (s div 60 mod 60) (s mod 60)
      = unix div 86400 * 86400 + int (s div 3600 * 3600 + s div 60 mod 60 * 60 + s mod 60)"
    by (simp add: unix_of_def day(2))
  also have "\<dots> = unix" unfolding clock_seconds s(2) by simp
  finally have u: "unix_of y m d (s div 3600) (s div 60 mod 60) (s mod 60) = unix" .
  have "format_rfc3339 0 unix = date_text (y, m, d) @ CHR ''T'' # clock_text s @ ''Z''"
    by (simp add: format_rfc3339_def c s_def zone_text_def)
  then show ?thesis
    using assms u clock day(1) take_date_text [OF day(1), of "CHR ''T'' # clock_text s @ ''Z''"]
    by (simp add: parse_rfc3339_def year_at_def c take_zone_def)
qed

end
