(* ===== verification/Action_Runtime.thy ===== *)
theory Action_Runtime
  imports Mcp_Types Go_Time Voice_Wire Agent_Wire
begin

text \<open>
  The tool orchestrator, \<open>packages/go/actionruntime\<close> (\<open>tools.go\<close>, \<open>datetime_format.go\<close>,
  \<open>profile.go\<close>): it decides whether a tool call of the model may run. \<open>New\<close> binds the allowed
  tools to trusted profiles; \<open>Plan\<close> answers at once or hands out a job; \<open>Execute\<close> runs a job on
  the backend and \<open>Complete\<close> records its result; \<open>ObserveUser\<close>, \<open>Confirm\<close> and \<open>Interrupt\<close> carry
  the user's decisions. Every operation that reads the clock takes the reading \<open>now\<close>.
\<close>

section \<open>State\<close>

record profile =
  pf_Policy :: string
  pf_Direct :: bool
  pf_ConfirmationPhrase :: string
  pf_AllowUIConfirmation :: bool
  pf_DateTimeFields :: "string list"
  pf_IntentPattern :: string

record 'sch binding =
  bd_tool :: tool
  bd_schema :: 'sch
  bd_policy :: policy
  bd_original :: string
  bd_profile :: profile

record pending =
  pd_OperationID :: string
  pd_Name :: string
  pd_Args :: string
  pd_TurnID :: string
  pd_Expires :: instant
  pd_Approved :: bool

record 'sch orch =
  or_intentTurn :: string
  or_intentText :: string
  or_tools :: "'sch binding gomap"
  or_Specs :: "tool_spec list"
  or_namespace :: string
  or_Pending :: "pending option"
  or_seen :: "string gomap"
  or_cache :: "result gomap"
  or_calls :: nat
  or_attempted :: "string list"

record job =
  jb_ID :: string
  jb_Name :: string
  jb_Key :: string
  jb_TurnID :: string
  jb_Args :: string
  jb_Confirmed :: bool

section \<open>Construction\<close>

text \<open>\<open>^[a-zA-Z][a-zA-Z0-9_]*$\<close>\<close>
definition modelToolName :: "string \<Rightarrow> bool" where
  "modelToolName s \<longleftrightarrow> (case s of [] \<Rightarrow> False
     | c # cs \<Rightarrow> is_alpha c \<and> list_all (\<lambda>d. is_alnum d \<or> bval d = 95) cs)"

definition model_name :: "string \<Rightarrow> string" where
  "model_name n = replace_byte CHR ''-'' CHR ''_'' (replace_byte CHR ''.'' CHR ''_'' n)"

text \<open>Portuguese text, by code point.\<close>
abbreviation acao :: string where "acao \<equiv> ''a'' @ encode_rune 231 @ encode_rune 227 @ ''o''"

definition approval_note :: "string \<Rightarrow> string" where
  "approval_note phrase =
     '' Esta '' @ acao @ '' exige confirma'' @ tl acao @ '' do usu'' @ encode_rune 225
     @ ''rio em um turno posterior. Se receber confirmation_required, pe'' @ encode_rune 231 @ ''a ''
     @ phrase @ '', depois chame novamente com os mesmos argumentos.''"

text \<open>One discovered tool that is permitted.\<close>
definition bind_tool ::
  "'sch lib \<Rightarrow> profile gomap \<Rightarrow> tool \<Rightarrow> 'sch orch \<Rightarrow> error + 'sch orch"
where
  "bind_tool L profiles t s =
     (let name = model_name (tl_Name t) in
      if \<not> modelToolName name \<or> length name > 64 \<or> length (tl_Description t) > 4096
      then Inl ''unsupported tool metadata''
      else if gget (or_tools s) name \<noteq> None then Inl ''tool name mapping collision''
      else (case CompileSchema L (tl_InputSchema t) of
          None \<Rightarrow> Inl ''invalid MCP tool schema''
        | Some schema \<Rightarrow>
          (let original = (if tl_OriginalName t = [] then tl_Name t else tl_OriginalName t) in
           case gget profiles original of
             None \<Rightarrow> Inl ''missing trusted tool profile''
           | Some profile \<Rightarrow>
             (let policy = pf_Policy profile in
              if tl_HostPolicy t \<noteq> [] \<and> tl_HostPolicy t \<noteq> policy
              then Inl ''tool policy differs from host profile''
              else
                Inr (s\<lparr>or_tools := gput name \<lparr>bd_tool = t, bd_schema = schema, bd_policy = policy,
                         bd_original = original, bd_profile = profile\<rparr> (or_tools s),
                       or_Specs := or_Specs s @ [\<lparr>ts_Name = name,
                         ts_Description = tl_Description t
                           @ (if policy = ConfirmLater
                              then approval_note (pf_ConfirmationPhrase profile) else []),
                         ts_Parameters = tl_InputSchema t\<rparr>]\<rparr>)))))"

fun bind_tools ::
  "'sch lib \<Rightarrow> string list \<Rightarrow> profile gomap \<Rightarrow> tool list \<Rightarrow> 'sch orch \<Rightarrow> error + 'sch orch"
where
  "bind_tools L allowed profiles [] s =
     (if or_Specs s = [] then Inl ''no allowed MCP tools discovered'' else Inr s)"
| "bind_tools L allowed profiles (t # ts) s =
     (if tl_Name t \<notin> set allowed then bind_tools L allowed profiles ts s
      else (case bind_tool L profiles t s of
          Inl e \<Rightarrow> Inl e | Inr s' \<Rightarrow> bind_tools L allowed profiles ts s'))"

definition fresh_orch :: "string \<Rightarrow> 'sch orch" where
  "fresh_orch namespace =
     \<lparr>or_intentTurn = [], or_intentText = [], or_tools = [], or_Specs = [], or_namespace = namespace,
      or_Pending = None, or_seen = [], or_cache = [], or_calls = 0, or_attempted = []\<rparr>"

definition NewOrch ::
  "'sch lib \<Rightarrow> error + tool list \<Rightarrow> string list \<Rightarrow> string \<Rightarrow> profile gomap \<Rightarrow> error + 'sch orch"
where
  "NewOrch L discovered allowed namespace profiles =
     (case discovered of
        Inl e \<Rightarrow> Inl e
      | Inr ts \<Rightarrow> bind_tools L allowed profiles ts (fresh_orch namespace))"

section \<open>Dates\<close>

text \<open>The error of one date field, \<open>None\<close> where it is absent or well formed.\<close>

abbreviation not_string_message :: string where
  "not_string_message \<equiv> ''Deve ser uma string RFC3339, n'' @ encode_rune 227 @ ''o objeto, n''
     @ encode_rune 250 @ ''mero ou null.''"

abbreviation bad_date_message :: string where
  "bad_date_message \<equiv> ''Use data completa com ano, T, segundos e offset expl'' @ encode_rune 237
     @ ''cito (ou Z), sem fra'' @ encode_rune 231 @ encode_rune 245 @ ''es.''"

definition date_ok :: "string \<Rightarrow> bool" where
  "date_ok txt \<longleftrightarrow>
     (case parse_rfc3339 txt of
        None \<Rightarrow> False
      | Some (_, ns) \<Rightarrow> ns = 0 \<and> \<not> contains_any txt [46, 44])"

text \<open>\<open>json.Unmarshal(raw, &text)\<close> accepts \<open>null\<close> and leaves the empty string.\<close>
definition date_field_error :: "(string \<times> string) list \<Rightarrow> string \<Rightarrow> string option" where
  "date_field_error values field =
     (case gget (rev values) field of
        None \<Rightarrow> None
      | Some raw \<Rightarrow>
        (case raw_string raw of
           None \<Rightarrow> Some not_string_message
         | Some t \<Rightarrow> if date_ok (case t of None \<Rightarrow> [] | Some x \<Rightarrow> x) then None
                      else Some bad_date_message))"

abbreviation date_instruction :: string where
  "date_instruction \<equiv> ''Nenhuma '' @ acao @ '' executada. Converta os campos indicados para RFC3339 a partir dos dados do usu''
     @ encode_rune 225 @ ''rio e chame novamente a ferramenta com os argumentos corrigidos. O exemplo ilustra formato, n''
     @ encode_rune 227 @ ''o valores padr'' @ encode_rune 227 @ ''o. Se faltar ano, hor'' @ encode_rune 225
     @ ''rio, dura'' @ tl acao @ '' ou fuso, pergunte ao usu'' @ encode_rune 225 @ ''rio; n'' @ encode_rune 227
     @ ''o adivinhe. N'' @ encode_rune 227 @ ''o pe'' @ encode_rune 231 @ ''a confirma'' @ tl acao
     @ '' gen'' @ encode_rune 233 @ ''rica para corrigir formata'' @ tl acao @ '' e n'' @ encode_rune 227
     @ ''o anuncie sucesso.''"

definition date_error_text :: "(string \<times> string) list \<Rightarrow> string" where
  "date_error_text errs = obj_text
     [(''code'', json_quote ''invalid_datetime_format''),
      (''example'', obj_text [(''end'', json_quote ''2026-09-18T11:00:00-03:00''),
                           (''start'', json_quote ''2026-09-18T10:00:00-03:00'')]),
      (''expected_format'', json_quote (''AAAA-MM-DDTHH:MM:SS'' @ encode_rune 177 @ ''HH:MM (ou Z)'')),
      (''fields'', obj_text (map (\<lambda>(k, v). (k, json_quote v)) (go_map errs))),
      (''instruction'', json_quote date_instruction),
      (''status'', json_quote ''error'')]"

definition date_errors :: "(string \<times> string) list \<Rightarrow> string list \<Rightarrow> (string \<times> string) list" where
  "date_errors values dateFields =
     List.map_filter (\<lambda>f. map_option (Pair f) (date_field_error values f)) dateFields"

definition DateTimeFormatError :: "string \<Rightarrow> string list \<Rightarrow> result option" where
  "DateTimeFormatError args dateFields =
     (if \<not> json_valid args \<or> json_whole args = Some JNull then None
      else (case raw_members args of
          None \<Rightarrow> None
        | Some (values, _) \<Rightarrow>
            (case date_errors values dateFields of
               [] \<Rightarrow> None
             | errs \<Rightarrow> Some (TextResult (date_error_text errs) True))))"

section \<open>Planning\<close>

text \<open>The key of an operation: namespace, tool name and canonical arguments.\<close>
definition op_key :: "'sch lib \<Rightarrow> string \<Rightarrow> string \<Rightarrow> string \<Rightarrow> string" where
  "op_key L namespace name args =
     hex_encode (sha256 L (bytes_of (namespace @ bchr 0 # name @ bchr 0 # canonical_any L args)))"

definition tool_named :: "'sch orch \<Rightarrow> string \<Rightarrow> 'sch binding option" where
  "tool_named s n = find (\<lambda>b. tl_Name (bd_tool b) = n) (map snd (or_tools s))"

definition ConfirmationPhrase :: "'sch orch \<Rightarrow> string" where
  "ConfirmationPhrase s =
     (case or_Pending s of
        None \<Rightarrow> ''confirmo executar''
      | Some p \<Rightarrow>
        (case tool_named s (pd_Name p) of
           None \<Rightarrow> ''confirmo executar''
         | Some b \<Rightarrow> pf_ConfirmationPhrase (bd_profile b)))"

definition matchesIntent :: "'sch lib \<Rightarrow> string \<Rightarrow> string \<Rightarrow> bool" where
  "matchesIntent L txt pattern \<longleftrightarrow> pattern \<noteq> [] \<and> regex_match L pattern txt"

definition confirm_text :: "'sch orch \<Rightarrow> pending \<Rightarrow> string" where
  "confirm_text s p = obj_text
     [(''instruction'', json_quote (''Pe'' @ encode_rune 231 @ ''a confirma'' @ tl acao @ '' expl''
         @ encode_rune 237 @ ''cita em um novo turno: '' @ ConfirmationPhrase s @ ''. N'' @ encode_rune 227
         @ ''o anuncie sucesso. Ap'' @ encode_rune 243 @ ''s confirma'' @ tl acao
         @ '', chame novamente a mesma ferramenta com o mesmo alvo.'')),
      (''operation_id'', json_quote (pd_OperationID p)),
      (''status'', json_quote ''confirmation_required''),
      (''target'', json_compact (pd_Args p))]"

definition plan_fail ::
  "string \<Rightarrow> string \<Rightarrow> string \<Rightarrow> string \<Rightarrow> 'sch orch \<Rightarrow> string \<Rightarrow> 'sch orch \<times> job \<times> result option"
where
  "plan_fail ident name turn args s code =
     (s, \<lparr>jb_ID = ident,
          jb_Name = (case gget (or_tools s) name of None \<Rightarrow> name | Some b \<Rightarrow> tl_Name (bd_tool b)),
          jb_Key = [], jb_TurnID = turn, jb_Args = args, jb_Confirmed = False\<rparr>,
      Some (Failure code))"

text \<open>Is this the pending operation?\<close>
definition same_pending :: "'sch lib \<Rightarrow> 'sch orch \<Rightarrow> job \<Rightarrow> pending \<Rightarrow> bool" where
  "same_pending L s j p \<longleftrightarrow>
     pd_Name p = jb_Name j \<and> op_key L (or_namespace s) (pd_Name p) (pd_Args p) = jb_Key j"

text \<open>A tool that needs confirmation in a later turn: run it, or ask.\<close>
definition plan_confirm ::
  "'sch lib \<Rightarrow> instant \<Rightarrow> job \<Rightarrow> 'sch orch \<Rightarrow> 'sch orch \<times> job \<times> result option"
where
  "plan_confirm L now j s =
     (case or_Pending s of
        Some p \<Rightarrow>
          if now < pd_Expires p \<and> same_pending L s j p \<and> pd_Approved p
          then (s\<lparr>or_Pending := None, or_attempted := List.insert (jb_Key j) (or_attempted s)\<rparr>,
                j\<lparr>jb_Confirmed := True\<rparr>, None)
          else
            (let p' = (if \<not> same_pending L s j p \<or> pd_Expires p < now
                       then \<lparr>pd_OperationID = jb_ID j, pd_Name = jb_Name j, pd_Args = jb_Args j,
                             pd_TurnID = jb_TurnID j, pd_Expires = now + 60 * second_ns,
                             pd_Approved = False\<rparr>
                       else p);
                 s' = s\<lparr>or_Pending := Some p'\<rparr>
             in (s', j, Some (TextResult (confirm_text s' p') False)))
      | None \<Rightarrow>
            (let p' = \<lparr>pd_OperationID = jb_ID j, pd_Name = jb_Name j, pd_Args = jb_Args j,
                       pd_TurnID = jb_TurnID j, pd_Expires = now + 60 * second_ns,
                       pd_Approved = False\<rparr>;
                 s' = s\<lparr>or_Pending := Some p'\<rparr>
             in (s', j, Some (TextResult (confirm_text s' p') False))))"

text \<open>\<open>Plan\<close> after the call has been counted: replay, permission, and the attempt.\<close>
definition plan_counted ::
  "'sch lib \<Rightarrow> instant \<Rightarrow> string \<Rightarrow> 'sch binding \<Rightarrow> job \<Rightarrow> 'sch orch \<Rightarrow> 'sch orch \<times> job \<times> result option"
where
  "plan_counted L now name b j s =
     (if bd_policy b \<noteq> ReadOnly \<and> gget (or_cache s) (jb_Key j) \<noteq> None
      then (s, j, gget (or_cache s) (jb_Key j))
      else if bd_policy b \<noteq> ReadOnly \<and> jb_Key j \<in> set (or_attempted s)
      then plan_fail (jb_ID j) name (jb_TurnID j) (jb_Args j) s ''mutation_outcome_pending_or_unknown''
      else if bd_policy b = ConfirmLater then plan_confirm L now j s
      else if bd_policy b = ExplicitIntent \<and> \<not> pf_Direct (bd_profile b)
           \<and> (or_intentTurn s \<noteq> jb_TurnID j
              \<or> \<not> matchesIntent L (or_intentText s) (pf_IntentPattern (bd_profile b)))
      then plan_fail (jb_ID j) name (jb_TurnID j) (jb_Args j) s ''clarification_required''
      else if bd_policy b \<noteq> ReadOnly
      then (s\<lparr>or_attempted := List.insert (jb_Key j) (or_attempted s)\<rparr>, j, None)
      else (s, j, None))"

definition Plan ::
  "'sch lib \<Rightarrow> instant \<Rightarrow> string \<Rightarrow> string \<Rightarrow> string \<Rightarrow> string \<Rightarrow> 'sch orch \<Rightarrow> 'sch orch \<times> job \<times> result option"
where
  "Plan L now ident name turn args s =
     (if \<not> ValidID ident then plan_fail ident name turn args s ''invalid_tool_id''
      else (case gget (or_tools s) name of
          None \<Rightarrow> plan_fail ident name turn args s ''tool_not_allowed''
        | Some b \<Rightarrow>
          (case (if pf_DateTimeFields (bd_profile b) = [] then None
                 else DateTimeFormatError args (pf_DateTimeFields (bd_profile b))) of
             Some r \<Rightarrow>
               (s, \<lparr>jb_ID = ident, jb_Name = tl_Name (bd_tool b), jb_Key = [], jb_TurnID = turn,
                    jb_Args = args, jb_Confirmed = False\<rparr>, Some r)
           | None \<Rightarrow>
             if Validate L (bd_schema b) args \<noteq> None
             then plan_fail ident name turn args s ''invalid_arguments''
             else
               (let k = op_key L (or_namespace s) (tl_Name (bd_tool b)) args in
                if gget (or_seen s) ident \<noteq> None \<and> gget (or_seen s) ident \<noteq> Some k
                then plan_fail ident name turn args s ''tool_id_conflict''
                else if 128 \<le> or_calls s then plan_fail ident name turn args s ''tool_limit_reached''
                else
                  plan_counted L now name b
                    \<lparr>jb_ID = ident, jb_Name = tl_Name (bd_tool b), jb_Key = k, jb_TurnID = turn,
                     jb_Args = args, jb_Confirmed = False\<rparr>
                    (s\<lparr>or_calls := or_calls s + 1, or_seen := gput ident k (or_seen s)\<rparr>)))))"

section \<open>Running\<close>

text \<open>\<open>Execute\<close>, given what \<open>backend.Call\<close> returned.\<close>
definition Execute :: "error + result \<Rightarrow> job \<Rightarrow> result" where
  "Execute outcome j =
     (case outcome of
        Inl _ \<Rightarrow> Failure ''mcp_unavailable_or_timeout''
      | Inr r \<Rightarrow>
          if length (rs_Content r) = 0 \<or> length (rs_Content r) > 16
          then Failure ''invalid_result_content''
          else if length (result_text r) > 65536 then Failure ''result_too_large''
          else if list_ex (\<lambda>c. ct_Type c \<noteq> ''text'') (rs_Content r)
          then Failure ''unsupported_result_content'' else r)"

text \<open>A job of no known tool has the empty policy.\<close>
definition Complete :: "job \<Rightarrow> result \<Rightarrow> 'sch orch \<Rightarrow> 'sch orch" where
  "Complete j r s =
     (let policy = (case tool_named s (jb_Name j) of None \<Rightarrow> [] | Some b \<Rightarrow> bd_policy b) in
      if policy \<noteq> ReadOnly then s\<lparr>or_cache := gput (jb_Key j) r (or_cache s)\<rparr> else s)"

section \<open>The user\<close>

definition fold_accent :: "uctab \<Rightarrow> nat \<Rightarrow> nat" where
  "fold_accent u r =
     (if r \<in> {227, 225, 224, 226} then 97 else if r \<in> {233, 234} then 101
      else if r = 237 then 105 else if r \<in> {243, 244, 245} then 111
      else if r = 250 then 117 else if r = 231 then 99
      else if is_punct u r then 32 else r)"

definition normalize :: "uctab \<Rightarrow> string \<Rightarrow> string" where
  "normalize u txt = join_space (text_fields (map_runes (fold_accent u) (to_lower u txt)))"

text \<open>Quotation marks and the question mark.\<close>
definition quoted :: "string \<Rightarrow> bool" where
  "quoted txt \<longleftrightarrow> contains_any txt [34, 39, 8220, 8221, 8216, 8217, 63]"

definition ObserveUser ::
  "'sch lib \<Rightarrow> instant \<Rightarrow> string \<Rightarrow> string \<Rightarrow> 'sch orch \<Rightarrow> 'sch orch \<times> bool"
where
  "ObserveUser L now turn txt s0 =
     (let u = unicode L;
          s = s0\<lparr>or_intentTurn := turn,
                 or_intentText := (if quoted txt then [] else normalize u txt)\<rparr>
      in case or_Pending s of
           None \<Rightarrow> (s, False)
         | Some p \<Rightarrow>
           if turn = pd_TurnID p then (s, False)
           else if pd_Expires p < now then (s\<lparr>or_Pending := None\<rparr>, False)
           else
             (let phrase = normalize u txt; expected = normalize u (ConfirmationPhrase s) in
              if phrase = expected \<and> \<not> quoted txt
              then (s\<lparr>or_Pending := Some (p\<lparr>pd_Approved := True\<rparr>)\<rparr>, True)
              else if phrase = ''nao'' \<or> has_prefix phrase ''nao '' \<or> phrase = ''cancela''
                   \<or> phrase = ''cancelar'' \<or> phrase = ''cancele''
              then (s\<lparr>or_Pending := None\<rparr>, False) else (s, False)))"

definition Confirm :: "instant \<Rightarrow> string \<Rightarrow> bool \<Rightarrow> 'sch orch \<Rightarrow> 'sch orch \<times> bool" where
  "Confirm now operationID approved s =
     (case or_Pending s of
        None \<Rightarrow> (s, False)
      | Some p \<Rightarrow>
        if pd_OperationID p \<noteq> operationID \<or> pd_Expires p < now then (s, False)
        else if list_ex (\<lambda>b. tl_Name (bd_tool b) = pd_Name p
                  \<and> \<not> pf_AllowUIConfirmation (bd_profile b)) (map snd (or_tools s))
        then (s, False)
        else if approved then (s\<lparr>or_Pending := Some (p\<lparr>pd_Approved := True\<rparr>)\<rparr>, True)
        else (s\<lparr>or_Pending := None\<rparr>, True))"

definition Interrupt :: "'sch orch \<Rightarrow> 'sch orch" where
  "Interrupt s = s\<lparr>or_Pending := None, or_intentText := []\<rparr>"

section \<open>Runs\<close>

text \<open>The calls of the session's owner, in the order they happen.\<close>
datatype orch_op =
    OpPlan instant string string string string
  | OpObserve instant string string
  | OpConfirm instant string bool
  | OpInterrupt
  | OpComplete job result

fun orch_step :: "'sch lib \<Rightarrow> 'sch orch \<Rightarrow> orch_op \<Rightarrow> 'sch orch" where
  "orch_step L s (OpPlan now ident name turn args) = fst (Plan L now ident name turn args s)"
| "orch_step L s (OpObserve now turn txt) = fst (ObserveUser L now turn txt s)"
| "orch_step L s (OpConfirm now oper approved) = fst (Confirm now oper approved s)"
| "orch_step L s OpInterrupt = Interrupt s"
| "orch_step L s (OpComplete j r) = Complete j r s"

text \<open>The job an operation hands out to run.\<close>
fun orch_start :: "'sch lib \<Rightarrow> 'sch orch \<Rightarrow> orch_op \<Rightarrow> job list" where
  "orch_start L s (OpPlan now ident name turn args) =
     (case Plan L now ident name turn args s of (_, j, None) \<Rightarrow> [j] | _ \<Rightarrow> [])"
| "orch_start L s _ = []"

fun started :: "'sch lib \<Rightarrow> 'sch orch \<Rightarrow> orch_op list \<Rightarrow> job list" where
  "started L s [] = []"
| "started L s (x # xs) = orch_start L s x @ started L (orch_step L s x) xs"

abbreviation orch_run :: "'sch lib \<Rightarrow> 'sch orch \<Rightarrow> orch_op list \<Rightarrow> 'sch orch" where
  "orch_run L s ops \<equiv> foldl (orch_step L) s ops"

definition policy_of :: "'sch orch \<Rightarrow> job \<Rightarrow> policy" where
  "policy_of s j = (case tool_named s (jb_Name j) of None \<Rightarrow> [] | Some b \<Rightarrow> bd_policy b)"

section \<open>Case analysis\<close>

definition counted_job :: "'sch lib \<Rightarrow> 'sch orch \<Rightarrow> 'sch binding \<Rightarrow> string \<Rightarrow> string \<Rightarrow> string \<Rightarrow> job" where
  "counted_job L s b ident turn args =
     \<lparr>jb_ID = ident, jb_Name = tl_Name (bd_tool b),
      jb_Key = op_key L (or_namespace s) (tl_Name (bd_tool b)) args, jb_TurnID = turn,
      jb_Args = args, jb_Confirmed = False\<rparr>"

definition counted_orch :: "'sch orch \<Rightarrow> job \<Rightarrow> 'sch orch" where
  "counted_orch s j =
     s\<lparr>or_calls := or_calls s + 1, or_seen := gput (jb_ID j) (jb_Key j) (or_seen s)\<rparr>"

lemma Plan_cases:
  obtains (refused) j r where "Plan L now ident name turn args s = (s, j, Some r)"
  | (counted) b where "gget (or_tools s) name = Some b" "ValidID ident"
      "Validate L (bd_schema b) args = None" "or_calls s < 128"
      "gget (or_seen s) ident \<in> {None, Some (jb_Key (counted_job L s b ident turn args))}"
      "Plan L now ident name turn args s =
         plan_counted L now name b (counted_job L s b ident turn args)
           (counted_orch s (counted_job L s b ident turn args))"
proof (cases "ValidID ident")
  case False
  then show ?thesis using refused by (simp add: Plan_def plan_fail_def)
next
  case True
  show ?thesis
  proof (cases "gget (or_tools s) name")
    case None
    then show ?thesis using refused True by (simp add: Plan_def plan_fail_def)
  next
    case (Some b)
    show ?thesis
      using refused counted [OF Some True] True Some
      by (fastforce simp: Plan_def plan_fail_def Let_def counted_job_def counted_orch_def
          split: option.splits if_splits)
  qed
qed

definition asked :: "instant \<Rightarrow> job \<Rightarrow> pending" where
  "asked now j = \<lparr>pd_OperationID = jb_ID j, pd_Name = jb_Name j, pd_Args = jb_Args j,
     pd_TurnID = jb_TurnID j, pd_Expires = now + 60 * second_ns, pd_Approved = False\<rparr>"

lemma plan_counted_cases:
  obtains (refused) j' r where "plan_counted L now name b j s = (s, j', Some r)"
  | (asked) p r where "plan_counted L now name b j s = (s\<lparr>or_Pending := Some p\<rparr>, j, Some r)"
      "or_Pending s = Some p \<or> p = asked now j"
  | (confirmed) p where "bd_policy b = ConfirmLater" "jb_Key j \<notin> set (or_attempted s)"
      "or_Pending s = Some p" "now < pd_Expires p" "same_pending L s j p" "pd_Approved p"
      "plan_counted L now name b j s =
         (s\<lparr>or_Pending := None, or_attempted := jb_Key j # or_attempted s\<rparr>,
          j\<lparr>jb_Confirmed := True\<rparr>, None)"
  | (run) "bd_policy b \<noteq> ConfirmLater" "bd_policy b \<noteq> ReadOnly"
      "jb_Key j \<notin> set (or_attempted s)"
      "bd_policy b = ExplicitIntent \<longrightarrow> pf_Direct (bd_profile b)
         \<or> (or_intentTurn s = jb_TurnID j
            \<and> matchesIntent L (or_intentText s) (pf_IntentPattern (bd_profile b)))"
      "plan_counted L now name b j s = (s\<lparr>or_attempted := jb_Key j # or_attempted s\<rparr>, j, None)"
  | (run_read) "bd_policy b = ReadOnly" "plan_counted L now name b j s = (s, j, None)"
proof (cases "bd_policy b = ReadOnly")
  case True
  then show ?thesis using run_read by (simp add: plan_counted_def)
next
  case mutation: False
  show ?thesis
  proof (cases "gget (or_cache s) (jb_Key j) \<noteq> None \<or> jb_Key j \<in> set (or_attempted s)")
    case True
    then have "\<exists>j' r. plan_counted L now name b j s = (s, j', Some r)"
      using mutation
      by (cases "gget (or_cache s) (jb_Key j)") (auto simp: plan_counted_def plan_fail_def)
    then show ?thesis using refused by blast
  next
    case new: False
    show ?thesis
    proof (cases "bd_policy b = ConfirmLater")
      case True
      then have planned: "plan_counted L now name b j s = plan_confirm L now j s"
        using new mutation by (simp add: plan_counted_def)
      show ?thesis
      proof (cases "or_Pending s")
        case None
        then show ?thesis
          using asked [of "asked now j"] planned by (simp add: plan_confirm_def Let_def asked_def)
      next
        case (Some p)
        show ?thesis
        proof (cases "now < pd_Expires p \<and> same_pending L s j p \<and> pd_Approved p")
          case True
          then show ?thesis
            using confirmed [of p] Some planned new \<open>bd_policy b = ConfirmLater\<close>
            by (simp add: plan_confirm_def List.insert_def)
        next
          case stale: False
          show ?thesis
          proof (cases "\<not> same_pending L s j p \<or> pd_Expires p < now")
            case True
            have "plan_confirm L now j s = (s\<lparr>or_Pending := Some (asked now j)\<rparr>, j,
                Some (TextResult (confirm_text (s\<lparr>or_Pending := Some (asked now j)\<rparr>) (asked now j)) False))"
              by (simp only: plan_confirm_def Some option.case stale True if_False if_True Let_def asked_def)
            then show ?thesis using asked [of "asked now j"] planned by simp
          next
            case False
            have "plan_confirm L now j s = (s\<lparr>or_Pending := Some p\<rparr>, j,
                Some (TextResult (confirm_text (s\<lparr>or_Pending := Some p\<rparr>) p) False))"
              by (simp only: plan_confirm_def Some option.case stale False if_False Let_def)
            then show ?thesis using asked [of p] planned Some by simp
          qed
        qed
      qed
    next
      case direct: False
      let ?unclear = "bd_policy b = ExplicitIntent \<and> \<not> pf_Direct (bd_profile b)
           \<and> (or_intentTurn s \<noteq> jb_TurnID j
              \<or> \<not> matchesIntent L (or_intentText s) (pf_IntentPattern (bd_profile b)))"
      show ?thesis
      proof (cases ?unclear)
        case True
        then have "\<exists>j' r. plan_counted L now name b j s = (s, j', Some r)"
          using new mutation by (simp add: plan_counted_def plan_fail_def)
        then show ?thesis using refused by blast
      next
        case False
        have "plan_counted L now name b j s = (s\<lparr>or_attempted := jb_Key j # or_attempted s\<rparr>, j, None)"
          using new mutation direct unfolding plan_counted_def if_not_P [OF False]
          by (simp add: List.insert_def)
        then show ?thesis using run [OF direct mutation] new False by blast
      qed
    qed
  qed
qed

section \<open>Frames\<close>

lemma counted_orch_frame [simp]:
  "or_tools (counted_orch s j) = or_tools s" "or_namespace (counted_orch s j) = or_namespace s"
  "or_Pending (counted_orch s j) = or_Pending s" "or_attempted (counted_orch s j) = or_attempted s"
  "or_intentTurn (counted_orch s j) = or_intentTurn s"
  "or_intentText (counted_orch s j) = or_intentText s" "or_cache (counted_orch s j) = or_cache s"
  by (simp_all add: counted_orch_def)

lemma counted_job_simps [simp]:
  "jb_ID (counted_job L s b i t a) = i" "jb_TurnID (counted_job L s b i t a) = t"
  "jb_Args (counted_job L s b i t a) = a"
  "jb_Name (counted_job L s b i t a) = tl_Name (bd_tool b)"
  "jb_Key (counted_job L s b i t a) = op_key L (or_namespace s) (tl_Name (bd_tool b)) a"
  by (simp_all add: counted_job_def)

definition same_tools :: "'sch orch \<Rightarrow> 'sch orch \<Rightarrow> bool" where
  "same_tools s s' \<longleftrightarrow> or_tools s' = or_tools s \<and> or_namespace s' = or_namespace s
     \<and> or_Specs s' = or_Specs s"

lemma ObserveUser_frame:
  "same_tools s (fst (ObserveUser L now turn txt s))"
  "or_attempted (fst (ObserveUser L now turn txt s)) = or_attempted s"
  "or_seen (fst (ObserveUser L now turn txt s)) = or_seen s"
  "or_calls (fst (ObserveUser L now turn txt s)) = or_calls s"
  by (auto simp: ObserveUser_def same_tools_def Let_def split: option.split)

lemma Confirm_frame:
  "same_tools s (fst (Confirm now oper ok s))"
  "or_attempted (fst (Confirm now oper ok s)) = or_attempted s"
  "or_seen (fst (Confirm now oper ok s)) = or_seen s"
  "or_calls (fst (Confirm now oper ok s)) = or_calls s"
  "or_intentTurn (fst (Confirm now oper ok s)) = or_intentTurn s"
  "or_intentText (fst (Confirm now oper ok s)) = or_intentText s"
  by (auto simp: Confirm_def same_tools_def split: option.split)

lemma Interrupt_frame:
  "same_tools s (Interrupt s)" "or_attempted (Interrupt s) = or_attempted s"
  "or_seen (Interrupt s) = or_seen s" "or_calls (Interrupt s) = or_calls s"
  by (simp_all add: Interrupt_def same_tools_def)

lemma Complete_frame:
  "same_tools s (Complete j r s)" "or_attempted (Complete j r s) = or_attempted s"
  "or_seen (Complete j r s) = or_seen s" "or_calls (Complete j r s) = or_calls s"
  "or_Pending (Complete j r s) = or_Pending s" "or_intentTurn (Complete j r s) = or_intentTurn s"
  "or_intentText (Complete j r s) = or_intentText s"
  by (simp_all add: Complete_def same_tools_def Let_def)

lemma same_tools_step [frames]: "same_tools s (orch_step L s x)"
proof (cases x)
  case (OpPlan now ident name turn args)
  show ?thesis
  proof (cases L now ident name turn args s rule: Plan_cases)
    case (refused j r)
    then show ?thesis by (simp add: OpPlan same_tools_def)
  next
    case (counted b)
    let ?j = "counted_job L s b ident turn args"
    show ?thesis
      by (cases L now name b ?j "counted_orch s ?j" rule: plan_counted_cases)
        (simp_all add: OpPlan counted(6) same_tools_def counted_orch_def)
  qed
qed (simp_all add: ObserveUser_frame Confirm_frame Interrupt_frame Complete_frame)

lemma policy_of_step [simp]: "policy_of (orch_step L s x) = policy_of s"
  using same_tools_step [of s L x] by (auto simp: policy_of_def tool_named_def same_tools_def fun_eq_iff)

section \<open>Well-formed bindings\<close>

text \<open>Each tool is bound under the name the model knows it by.\<close>
definition orch_wf :: "'sch orch \<Rightarrow> bool" where
  "orch_wf s \<longleftrightarrow> gwf (or_tools s)
     \<and> list_all (\<lambda>(n, b). model_name (tl_Name (bd_tool b)) = n \<and> modelToolName n \<and> length n \<le> 64
          \<and> bd_policy b = pf_Policy (bd_profile b)) (or_tools s)
     \<and> map ts_Name (or_Specs s) = map fst (or_tools s)"

lemma orch_wf_step [invariants]: "orch_wf s \<Longrightarrow> orch_wf (orch_step L s x)"
  using same_tools_step [of s L x] by (simp add: orch_wf_def same_tools_def)

interpretation bindings: machine "orch_step L" orch_wf for L
  by unfold_locales (rule orch_wf_step)

lemma tool_named_bound:
  assumes "orch_wf s" "gget (or_tools s) n = Some b"
  shows "tool_named s (tl_Name (bd_tool b)) = Some b"
proof -
  have member: "(n, b) \<in> set (or_tools s)" using assms(2) by (rule map_of_SomeD)
  then have "\<exists>b'. tool_named s (tl_Name (bd_tool b)) = Some b'"
    by (force simp: tool_named_def find_None_iff simp flip: not_None_eq)
  then obtain b' where b': "tool_named s (tl_Name (bd_tool b)) = Some b'" by blast
  then have "b' \<in> set (map snd (or_tools s))" "tl_Name (bd_tool b') = tl_Name (bd_tool b)"
    by (auto simp: tool_named_def find_Some_iff nth_mem)
  then obtain n' where n': "(n', b') \<in> set (or_tools s)" by auto
  have "model_name (tl_Name (bd_tool b')) = n'" "model_name (tl_Name (bd_tool b)) = n"
    using assms(1) member n' by (auto simp: orch_wf_def list_all_iff)
  then have "n' = n" using \<open>tl_Name (bd_tool b') = tl_Name (bd_tool b)\<close> by simp
  then have "b' = b" using assms n' member by (auto simp: orch_wf_def gwf_def eq_key_imp_eq_value)
  then show ?thesis using b' by simp
qed

lemma policy_of_counted:
  assumes "orch_wf s" "gget (or_tools s) n = Some b"
  shows "policy_of s (counted_job L s b ident turn args) = bd_policy b"
  using tool_named_bound [OF assms] by (simp add: policy_of_def)

lemma policy_of_confirmed [simp]: "policy_of s (j\<lparr>jb_Confirmed := c\<rparr>) = policy_of s j"
  by (simp add: policy_of_def)

lemma gput_new: "gget m k = None \<Longrightarrow> gput k v m = m @ [(k, v)]"
  by (induction m) (auto split: if_splits)

lemma bind_tool_cases:
  assumes "bind_tool L profiles t s = Inr s'"
  obtains b spec where "or_tools s' = gput (model_name (tl_Name t)) b (or_tools s)"
    "or_Specs s' = or_Specs s @ [spec]" "ts_Name spec = model_name (tl_Name t)" "bd_tool b = t"
    "bd_policy b = pf_Policy (bd_profile b)" "gget (or_tools s) (model_name (tl_Name t)) = None"
    "modelToolName (model_name (tl_Name t))" "length (model_name (tl_Name t)) \<le> 64"
proof -
  have free: "gget (or_tools s) (model_name (tl_Name t)) = None"
    and name: "modelToolName (model_name (tl_Name t))" "length (model_name (tl_Name t)) \<le> 64"
    using assms by (auto simp: bind_tool_def Let_def split: if_splits)
  obtain schema where schema: "CompileSchema L (tl_InputSchema t) = Some schema"
    using assms by (auto simp: bind_tool_def Let_def split: if_splits option.splits)
  define original where "original = (if tl_OriginalName t = [] then tl_Name t else tl_OriginalName t)"
  obtain pf where pf: "gget profiles original = Some pf"
    using assms by (auto simp: bind_tool_def Let_def original_def split: if_splits option.splits)
  show ?thesis
    using assms that [OF _ _ _ _ _ free name] free name schema pf
    by (auto simp: bind_tool_def Let_def simp flip: original_def split: if_splits)
qed

lemma bind_tool_wf:
  assumes "bind_tool L profiles t s = Inr s'" "orch_wf s"
  shows "orch_wf s'"
  using assms(1)
proof (cases rule: bind_tool_cases)
  case (1 b spec)
  then show ?thesis using assms(2) by (simp add: orch_wf_def gput_new gwf_def map_of_eq_None_iff)
qed

lemma bind_tools_wf: "bind_tools L allowed profiles ts s = Inr s' \<Longrightarrow> orch_wf s \<Longrightarrow> orch_wf s'"
proof (induction ts arbitrary: s)
  case (Cons t ts)
  then show ?case by (auto split: if_splits sum.splits dest: bind_tool_wf)
qed (auto split: if_splits)

lemma NewOrch_wf: "NewOrch L ts allowed ns profiles = Inr s \<Longrightarrow> orch_wf s"
  using bind_tools_wf [of L allowed profiles _ "fresh_orch ns" s]
  by (auto simp: NewOrch_def split: sum.splits) (simp add: fresh_orch_def orch_wf_def)

section \<open>What a run starts\<close>

lemma orch_start_cases:
  assumes "j \<in> set (orch_start L s x)"
  obtains (confirmed) now ident name turn args b p where "x = OpPlan now ident name turn args"
      "gget (or_tools s) name = Some b" "bd_policy b = ConfirmLater"
      "j = counted_job L s b ident turn args\<lparr>jb_Confirmed := True\<rparr>"
      "jb_Key j \<notin> set (or_attempted s)" "or_Pending s = Some p" "now < pd_Expires p"
      "same_pending L s j p" "pd_Approved p"
      "orch_step L s x = counted_orch s j\<lparr>or_Pending := None, or_attempted := jb_Key j # or_attempted s\<rparr>"
  | (run) now ident name turn args b where "x = OpPlan now ident name turn args"
      "gget (or_tools s) name = Some b" "bd_policy b \<noteq> ConfirmLater" "bd_policy b \<noteq> ReadOnly"
      "j = counted_job L s b ident turn args" "jb_Key j \<notin> set (or_attempted s)"
      "bd_policy b = ExplicitIntent \<longrightarrow> pf_Direct (bd_profile b)
         \<or> (or_intentTurn s = jb_TurnID j
            \<and> matchesIntent L (or_intentText s) (pf_IntentPattern (bd_profile b)))"
      "orch_step L s x = counted_orch s j\<lparr>or_attempted := jb_Key j # or_attempted s\<rparr>"
  | (run_read) now ident name turn args b where "x = OpPlan now ident name turn args"
      "gget (or_tools s) name = Some b" "bd_policy b = ReadOnly"
      "j = counted_job L s b ident turn args" "orch_step L s x = counted_orch s j"
proof -
  obtain now ident name turn args where x: "x = OpPlan now ident name turn args"
    using assms by (cases x) auto
  obtain s' where plan: "Plan L now ident name turn args s = (s', j, None)"
    using assms unfolding x
    by (cases "Plan L now ident name turn args s") (auto split: prod.splits option.splits)
  show ?thesis
  proof (cases L now ident name turn args s rule: Plan_cases)
    case (refused j r)
    then show ?thesis using plan by simp
  next
    case (counted b)
    let ?j = "counted_job L s b ident turn args"
    show ?thesis
    proof (cases L now name b ?j "counted_orch s ?j" rule: plan_counted_cases)
      case (confirmed p)
      have "counted_orch s (?j\<lparr>jb_Confirmed := True\<rparr>) = counted_orch s ?j"
        by (simp add: counted_orch_def)
      moreover have "same_pending L s (?j\<lparr>jb_Confirmed := True\<rparr>) p"
        using confirmed(5) by (auto simp: same_pending_def)
      ultimately show ?thesis
        using that(1) [OF x counted(1) confirmed(1)] confirmed plan counted(6) x
        by simp
    next
      case run
      then have "j = ?j" using plan counted(6) by simp
      then show ?thesis using that(2) [OF x counted(1) run(1,2)] run x counted(6) by simp
    next
      case run_read
      then have "j = ?j" using plan counted(6) by simp
      then show ?thesis using that(3) [OF x counted(1) run_read(1)] run_read x counted(6) by simp
    qed (use plan counted(6) in simp_all)
  qed
qed

lemma orch_start_at_most_one: "length (orch_start L s x) \<le> 1"
  by (cases x) (auto split: prod.split option.split)

lemma start_attempts:
  assumes "j \<in> set (orch_start L s x)" "orch_wf s" "policy_of s j \<noteq> ReadOnly"
  shows "jb_Key j \<notin> set (or_attempted s)" "jb_Key j \<in> set (or_attempted (orch_step L s x))"
  using assms(1)
  by (cases rule: orch_start_cases; use policy_of_counted [OF assms(2)] assms(3) in force)+

text \<open>What one operation does to the counters.\<close>
lemma orch_step_counters:
  "set (or_attempted s) \<subseteq> set (or_attempted (orch_step L s x))
   \<and> (or_calls (orch_step L s x) = or_calls s \<and> or_seen (orch_step L s x) = or_seen s
      \<or> (\<exists>i k. or_calls s < 128 \<and> or_calls (orch_step L s x) = or_calls s + 1
          \<and> gget (or_seen s) i \<in> {None, Some k} \<and> or_seen (orch_step L s x) = gput i k (or_seen s)))"
proof (cases x)
  case (OpPlan now ident name turn args)
  show ?thesis
  proof (cases L now ident name turn args s rule: Plan_cases)
    case (refused j r)
    then show ?thesis by (simp add: OpPlan)
  next
    case (counted b)
    let ?j = "counted_job L s b ident turn args"
    have "set (or_attempted s) \<subseteq> set (or_attempted (orch_step L s x))
      \<and> or_calls (orch_step L s x) = or_calls s + 1
      \<and> or_seen (orch_step L s x) = gput ident (jb_Key ?j) (or_seen s)"
      by (cases L now name b ?j "counted_orch s ?j" rule: plan_counted_cases)
        (auto simp: OpPlan counted(6) counted_orch_def)
    then show ?thesis using counted(4,5) by blast
  qed
qed (simp_all add: ObserveUser_frame Confirm_frame Interrupt_frame Complete_frame)

lemma attempted_step: "set (or_attempted s) \<subseteq> set (or_attempted (orch_step L s x))"
  using orch_step_counters [of s L x] by blast

lemma seen_step:
  "gget (or_seen s) i = Some k \<Longrightarrow> gget (or_seen (orch_step L s x)) i = Some k"
  using orch_step_counters [of s L x] by auto

lemma seen_run: "gget (or_seen s) i = Some k \<Longrightarrow> gget (or_seen (orch_run L s xs)) i = Some k"
  by (induction xs arbitrary: s) (auto intro: seen_step)

definition orch_count :: "'sch orch \<Rightarrow> bool" where
  "orch_count s \<longleftrightarrow> or_calls s \<le> 128 \<and> gwf (or_seen s) \<and> length (or_seen s) \<le> or_calls s"

lemma orch_count_step [invariants]: "orch_count s \<Longrightarrow> orch_count (orch_step L s x)"
  using orch_step_counters [of s L x] by (auto simp: orch_count_def length_gput)

interpretation budget: machine "orch_step L" orch_count for L
  by unfold_locales (rule orch_count_step)

lemma start_seen:
  "j \<in> set (orch_start L s x) \<Longrightarrow> gget (or_seen (orch_step L s x)) (jb_ID j) = Some (jb_Key j)"
  by (erule orch_start_cases) (simp_all add: counted_orch_def)

lemma start_counts:
  "orch_start L s x \<noteq> [] \<Longrightarrow> or_calls (orch_step L s x) = or_calls s + 1"
proof -
  assume "orch_start L s x \<noteq> []"
  then obtain j where "j \<in> set (orch_start L s x)" by (cases "orch_start L s x") auto
  then show ?thesis by (cases rule: orch_start_cases) (simp_all add: counted_orch_def)
qed

lemma calls_step: "or_calls s \<le> or_calls (orch_step L s x)"
  using orch_step_counters [of s L x] by auto

lemma started_length:
  "orch_count s \<Longrightarrow> length (started L s xs) + or_calls s \<le> 128"
proof (induction xs arbitrary: s)
  case (Cons x xs)
  have "length (orch_start L s x) + or_calls s \<le> or_calls (orch_step L s x)"
    using start_counts [of L s x] orch_start_at_most_one [of L s x] calls_step [of s L x]
    by (cases "orch_start L s x") auto
  moreover have "length (started L (orch_step L s x) xs) + or_calls (orch_step L s x) \<le> 128"
    using Cons by (blast intro: orch_count_step)
  ultimately show ?case by simp
qed (simp add: orch_count_def)

lemma started_seen:
  "j \<in> set (started L s xs) \<Longrightarrow> gget (or_seen (orch_run L s xs)) (jb_ID j) = Some (jb_Key j)"
  by (induction xs arbitrary: s) (auto dest: start_seen intro: seen_run)

lemma started_mutations:
  assumes "orch_wf s"
  shows "distinct (map jb_Key (filter (\<lambda>j. policy_of s j \<noteq> ReadOnly) (started L s xs)))
    \<and> set (map jb_Key (filter (\<lambda>j. policy_of s j \<noteq> ReadOnly) (started L s xs))) \<inter> set (or_attempted s) = {}"
  using assms
proof (induction xs arbitrary: s)
  case (Cons x xs)
  let ?mut = "\<lambda>j. policy_of s j \<noteq> ReadOnly"
  let ?rest = "map jb_Key (filter ?mut (started L (orch_step L s x) xs))"
  have rest: "distinct ?rest" "set ?rest \<inter> set (or_attempted (orch_step L s x)) = {}"
    using Cons.IH [OF orch_wf_step [OF Cons.prems], of L x] by simp_all
  have "distinct (map jb_Key (filter ?mut (orch_start L s x)))"
    using orch_start_at_most_one [of L s x] by (cases "orch_start L s x") auto
  moreover have "jb_Key j \<notin> set (or_attempted s) \<and> jb_Key j \<notin> set ?rest"
    if "j \<in> set (orch_start L s x)" "?mut j" for j
    using start_attempts [OF that(1) Cons.prems that(2)] rest(2) by blast
  ultimately show ?case
    using rest attempted_step [of s L x] by auto
qed simp

lemma NewOrch_fresh:
  "NewOrch L ts allowed ns profiles = Inr s \<Longrightarrow>
     or_calls s = 0 \<and> or_seen s = [] \<and> or_attempted s = [] \<and> or_Pending s = None
     \<and> or_intentTurn s = [] \<and> or_intentText s = []"
proof -
  have bind: "or_calls s' = or_calls s \<and> or_seen s' = or_seen s \<and> or_attempted s' = or_attempted s
      \<and> or_Pending s' = or_Pending s \<and> or_intentTurn s' = or_intentTurn s
      \<and> or_intentText s' = or_intentText s"
    if "bind_tool L profiles t s = Inr s'" for t and s s' :: "'a orch"
    using that by (auto simp: bind_tool_def Let_def split: if_splits option.splits)
  have "or_calls s' = or_calls s \<and> or_seen s' = or_seen s \<and> or_attempted s' = or_attempted s
      \<and> or_Pending s' = or_Pending s \<and> or_intentTurn s' = or_intentTurn s
      \<and> or_intentText s' = or_intentText s"
    if "bind_tools L allowed profiles ts s = Inr s'" for ts and s s' :: "'a orch"
    using that by (induction ts arbitrary: s) (auto split: if_splits sum.splits dest!: bind)
  from this [of _ "fresh_orch ns" s]
  show "NewOrch L ts allowed ns profiles = Inr s \<Longrightarrow> ?thesis"
    by (auto simp: NewOrch_def fresh_orch_def split: sum.splits)
qed

section \<open>Authority\<close>

text \<open>
  What the sequence of calls says about a pending operation: some \<open>Plan\<close> proposed it, and later
  the user said its confirmation phrase in another turn, or confirmed it in an interface the
  tool's profile allows (in any turn), before it expired.
\<close>

definition proposes :: "'sch orch \<Rightarrow> pending \<Rightarrow> orch_op \<Rightarrow> bool" where
  "proposes s p x \<longleftrightarrow>
     (case x of
        OpPlan now ident name turn args \<Rightarrow>
          pd_OperationID p = ident \<and> pd_TurnID p = turn \<and> pd_Args p = args
          \<and> pd_Expires p = now + 60 * second_ns
          \<and> (case gget (or_tools s) name of None \<Rightarrow> False | Some b \<Rightarrow> pd_Name p = tl_Name (bd_tool b))
      | _ \<Rightarrow> False)"

definition phrase_of :: "'sch orch \<Rightarrow> pending \<Rightarrow> string" where
  "phrase_of s p = (case tool_named s (pd_Name p) of None \<Rightarrow> ''confirmo executar''
     | Some b \<Rightarrow> pf_ConfirmationPhrase (bd_profile b))"

definition approves :: "'sch lib \<Rightarrow> 'sch orch \<Rightarrow> pending \<Rightarrow> orch_op \<Rightarrow> bool" where
  "approves L s p x \<longleftrightarrow>
     (case x of
        OpObserve now turn txt \<Rightarrow>
          turn \<noteq> pd_TurnID p \<and> now \<le> pd_Expires p \<and> \<not> quoted txt
          \<and> normalize (unicode L) txt = normalize (unicode L) (phrase_of s p)
      | OpConfirm now oper ok \<Rightarrow>
          ok \<and> oper = pd_OperationID p \<and> now \<le> pd_Expires p
          \<and> list_all (\<lambda>b. tl_Name (bd_tool b) = pd_Name p \<longrightarrow> pf_AllowUIConfirmation (bd_profile b))
              (map snd (or_tools s))
      | _ \<Rightarrow> False)"

text \<open>The words of a refusal, after normalisation.\<close>
definition refuses :: "string \<Rightarrow> bool" where
  "refuses phrase \<longleftrightarrow> phrase = ''nao'' \<or> has_prefix phrase ''nao '' \<or> phrase = ''cancela''
     \<or> phrase = ''cancelar'' \<or> phrase = ''cancele''"

text \<open>
  What takes a pending operation back: an interruption, a refusal or any words in another turn once
  it has expired, and a refusal in an interface the tool's profile allows.
\<close>
definition revokes :: "'sch lib \<Rightarrow> 'sch orch \<Rightarrow> pending \<Rightarrow> orch_op \<Rightarrow> bool" where
  "revokes L s p x \<longleftrightarrow>
     (case x of
        OpObserve now turn txt \<Rightarrow>
          turn \<noteq> pd_TurnID p \<and> (pd_Expires p < now
            \<or> refuses (normalize (unicode L) txt)
              \<and> (quoted txt \<or> normalize (unicode L) txt \<noteq> normalize (unicode L) (phrase_of s p)))
      | OpConfirm now oper ok \<Rightarrow>
          \<not> ok \<and> oper = pd_OperationID p \<and> now \<le> pd_Expires p
          \<and> list_all (\<lambda>b. tl_Name (bd_tool b) = pd_Name p \<longrightarrow> pf_AllowUIConfirmation (bd_profile b))
              (map snd (or_tools s))
      | OpInterrupt \<Rightarrow> True
      | _ \<Rightarrow> False)"

text \<open>Proposed by a call, and not taken back since.\<close>
definition proposed_in :: "'sch lib \<Rightarrow> 'sch orch \<Rightarrow> pending \<Rightarrow> orch_op list \<Rightarrow> bool" where
  "proposed_in L s p xs \<longleftrightarrow>
     (\<exists>before x after. xs = before @ x # after \<and> proposes s p x \<and> \<not> list_ex (revokes L s p) after)"

text \<open>Approved by a call that comes after the one that proposed it, and not taken back since.\<close>
definition approved_in :: "'sch lib \<Rightarrow> 'sch orch \<Rightarrow> pending \<Rightarrow> orch_op list \<Rightarrow> bool" where
  "approved_in L s p xs \<longleftrightarrow>
     (\<exists>before x after. xs = before @ x # after \<and> proposed_in L s p before \<and> approves L s p x
        \<and> \<not> list_ex (revokes L s p) after)"

text \<open>The last turn the user spoke in, and what may be read from it.\<close>
definition intent_step :: "'sch lib \<Rightarrow> string \<times> string \<Rightarrow> orch_op \<Rightarrow> string \<times> string" where
  "intent_step L i x =
     (case x of
        OpObserve _ turn txt \<Rightarrow> (turn, if quoted txt then [] else normalize (unicode L) txt)
      | OpInterrupt \<Rightarrow> (fst i, [])
      | _ \<Rightarrow> i)"

definition intent_of :: "'sch lib \<Rightarrow> orch_op list \<Rightarrow> string \<times> string" where
  "intent_of L xs = foldl (intent_step L) ([], []) xs"

lemma approval_snoc:
  "proposed_in L s p xs \<Longrightarrow> \<not> revokes L s p x \<Longrightarrow> proposed_in L s p (xs @ [x])"
  "approved_in L s p xs \<Longrightarrow> \<not> revokes L s p x \<Longrightarrow> approved_in L s p (xs @ [x])"
  "proposed_in L s p xs \<Longrightarrow> approves L s p x \<Longrightarrow> approved_in L s p (xs @ [x])"
  "proposes s p x \<Longrightarrow> proposed_in L s p (xs @ [x])"
proof -
  have snoc: "\<exists>before y after. xs @ [x] = before @ y # after \<and> P before y \<and> \<not> list_ex (revokes L s p) after"
    if ex: "\<exists>before y after. xs = before @ y # after \<and> P before y \<and> \<not> list_ex (revokes L s p) after"
      and stands: "\<not> revokes L s p x" for P
  proof -
    obtain before y after where "xs = before @ y # after" "P before y" "\<not> list_ex (revokes L s p) after"
      using ex by blast
    then show ?thesis using stands by (intro exI [of _ before] exI [of _ y] exI [of _ "after @ [x]"]) simp
  qed
  show "proposed_in L s p xs \<Longrightarrow> \<not> revokes L s p x \<Longrightarrow> proposed_in L s p (xs @ [x])"
    unfolding proposed_in_def by (rule snoc)
  show "approved_in L s p xs \<Longrightarrow> \<not> revokes L s p x \<Longrightarrow> approved_in L s p (xs @ [x])"
    unfolding approved_in_def using snoc [of "\<lambda>before y. proposed_in L s p before \<and> approves L s p y"] by simp
  show "proposed_in L s p xs \<Longrightarrow> approves L s p x \<Longrightarrow> approved_in L s p (xs @ [x])"
    unfolding approved_in_def by (intro exI [of _ xs] exI [of _ x] exI [of _ "[]"]) simp
  show "proposes s p x \<Longrightarrow> proposed_in L s p (xs @ [x])"
    unfolding proposed_in_def by (intro exI [of _ xs] exI [of _ x] exI [of _ "[]"]) simp
qed

lemma evidence_Approved [simp]:
  "proposed_in L s (p\<lparr>pd_Approved := a\<rparr>) xs = proposed_in L s p xs"
  "approves L s (p\<lparr>pd_Approved := a\<rparr>) x = approves L s p x"
  "revokes L s (p\<lparr>pd_Approved := a\<rparr>) x = revokes L s p x"
  "approved_in L s (p\<lparr>pd_Approved := a\<rparr>) xs = approved_in L s p xs"
proof -
  have "proposes s (p\<lparr>pd_Approved := a\<rparr>) y = proposes s p y" for y
    by (cases y) (simp_all add: proposes_def split: option.split)
  moreover show rev: "revokes L s (p\<lparr>pd_Approved := a\<rparr>) x = revokes L s p x" for x
    by (simp add: revokes_def phrase_of_def split: orch_op.split)
  ultimately show pr: "proposed_in L s (p\<lparr>pd_Approved := a\<rparr>) xs = proposed_in L s p xs" for xs
    by (simp add: proposed_in_def list_ex_iff)
  show appr: "approves L s (p\<lparr>pd_Approved := a\<rparr>) x = approves L s p x" for x
    by (simp add: approves_def phrase_of_def split: orch_op.split)
  show "approved_in L s (p\<lparr>pd_Approved := a\<rparr>) xs = approved_in L s p xs"
    by (simp add: approved_in_def pr appr rev list_ex_iff)
qed

definition pending_ok :: "'sch lib \<Rightarrow> 'sch orch \<Rightarrow> orch_op list \<Rightarrow> pending \<Rightarrow> bool" where
  "pending_ok L s xs p \<longleftrightarrow> proposed_in L s p xs \<and> (pd_Approved p \<longrightarrow> approved_in L s p xs)"

lemma pending_ok_snoc: "pending_ok L s xs p \<Longrightarrow> \<not> revokes L s p x \<Longrightarrow> pending_ok L s (xs @ [x]) p"
  by (auto simp: pending_ok_def intro: approval_snoc)

lemma pending_ok_approved:
  "pending_ok L s xs p \<Longrightarrow> approves L s p x \<Longrightarrow> \<not> revokes L s p x \<Longrightarrow> pending_ok L s (xs @ [x]) (p\<lparr>pd_Approved := True\<rparr>)"
  by (auto simp: pending_ok_def intro: approval_snoc)

lemma same_tools_evidence:
  assumes "same_tools s s'"
  shows "pending_ok L s' xs p = pending_ok L s xs p"
proof -
  have t: "or_tools s' = or_tools s" using assms by (simp add: same_tools_def)
  have "proposes s' p y = proposes s p y" for p y by (cases y) (simp_all add: proposes_def t)
  then have "proposes s' p = proposes s p" for p by (intro ext)
  moreover have "approves L s' p y = approves L s p y" for p y
    by (cases y) (simp_all add: approves_def phrase_of_def tool_named_def t)
  then have "approves L s' p = approves L s p" for p by (intro ext)
  moreover have "revokes L s' p y = revokes L s p y" for p y
    by (cases y) (simp_all add: revokes_def phrase_of_def tool_named_def t)
  then have "revokes L s' p = revokes L s p" for p by (intro ext)
  ultimately show ?thesis
    by (simp add: pending_ok_def proposed_in_def approved_in_def)
qed

lemma pending_step:
  assumes "\<And>p. or_Pending s = Some p \<Longrightarrow> pending_ok L s xs p"
    and "or_Pending (orch_step L s x) = Some p"
  shows "pending_ok L s (xs @ [x]) p"
proof (cases x)
  case (OpPlan now ident name turn args)
  have keep: "pending_ok L s (xs @ [x]) q" if "or_Pending s = Some q" for q
    by (rule pending_ok_snoc [OF assms(1) [OF that]]) (simp add: revokes_def OpPlan)
  show ?thesis
  proof (cases L now ident name turn args s rule: Plan_cases)
    case (refused j r)
    then show ?thesis using assms keep by (simp add: OpPlan)
  next
    case (counted b)
    let ?j = "counted_job L s b ident turn args"
    have "proposes s (asked now ?j) x"
      using counted(1) by (simp add: proposes_def OpPlan asked_def)
    then have new: "pending_ok L s (xs @ [x]) (asked now ?j)"
      by (simp add: pending_ok_def approval_snoc(4)) (simp add: asked_def)
    show ?thesis
      using assms new keep
      by (cases L now name b ?j "counted_orch s ?j" rule: plan_counted_cases)
        (auto simp: OpPlan counted(6))
  qed
next
  case (OpObserve now turn said)
  then show ?thesis
  proof (cases "or_Pending s")
    case None
    then show ?thesis using assms by (simp add: OpObserve ObserveUser_def Let_def)
  next
    case (Some p0)
    have ok: "pending_ok L s xs p0" using assms(1) Some by simp
    have phrase: "ConfirmationPhrase (s\<lparr>or_intentTurn := a, or_intentText := b\<rparr>) = phrase_of s p0" for a b :: string
      by (simp add: ConfirmationPhrase_def phrase_of_def Some tool_named_def)
    have "p = p0 \<and> \<not> revokes L s p0 x \<or> (p = p0\<lparr>pd_Approved := True\<rparr> \<and> approves L s p0 x \<and> \<not> revokes L s p0 x)"
      using assms(2) Some
      by (auto simp: OpObserve ObserveUser_def Let_def approves_def revokes_def refuses_def phrase split: if_splits)
    then show ?thesis
      using ok by (auto intro: pending_ok_snoc pending_ok_approved)
  qed
next
  case (OpConfirm now oper ok)
  then show ?thesis
  proof (cases "or_Pending s")
    case None
    then show ?thesis using assms by (simp add: OpConfirm Confirm_def)
  next
    case (Some p0)
    have ok: "pending_ok L s xs p0" using assms(1) Some by simp
    have "p = p0 \<and> \<not> revokes L s p0 x \<or> (p = p0\<lparr>pd_Approved := True\<rparr> \<and> approves L s p0 x \<and> \<not> revokes L s p0 x)"
      using assms(2) Some
      by (auto simp: OpConfirm Confirm_def approves_def revokes_def list_ex_iff list_all_iff split: if_splits)
    then show ?thesis
      using ok by (auto intro: pending_ok_snoc pending_ok_approved)
  qed
next
  case OpInterrupt
  then show ?thesis using assms by (simp add: Interrupt_def)
next
  case (OpComplete j r)
  then show ?thesis using assms by (auto simp: Complete_frame revokes_def intro!: pending_ok_snoc)
qed

lemma intent_frame_Plan:
  "or_intentTurn (fst (Plan L now ident name turn args s)) = or_intentTurn s
   \<and> or_intentText (fst (Plan L now ident name turn args s)) = or_intentText s"
proof (cases L now ident name turn args s rule: Plan_cases)
  case (counted b)
  show ?thesis
    by (cases L now name b "counted_job L s b ident turn args"
          "counted_orch s (counted_job L s b ident turn args)" rule: plan_counted_cases)
      (simp_all add: counted(6))
qed simp

lemma intent_step_frame:
  "(or_intentTurn (orch_step L s x), or_intentText (orch_step L s x))
    = intent_step L (or_intentTurn s, or_intentText s) x"
  by (cases x) (auto simp: intent_step_def intent_frame_Plan Confirm_frame Complete_frame
      Interrupt_def ObserveUser_def Let_def split: option.split)

text \<open>The state after a run, from the sequence of calls.\<close>
lemma run_evidence:
  assumes "NewOrch L ts allowed ns profiles = Inr s0"
  shows "(\<forall>p. or_Pending (orch_run L s0 xs) = Some p \<longrightarrow> pending_ok L s0 xs p)
    \<and> (or_intentTurn (orch_run L s0 xs), or_intentText (orch_run L s0 xs)) = intent_of L xs
    \<and> same_tools s0 (orch_run L s0 xs)"
proof (induction xs rule: rev_induct)
  case Nil
  then show ?case using NewOrch_fresh [OF assms] by (simp add: intent_of_def same_tools_def)
next
  case (snoc x xs)
  let ?s = "orch_run L s0 xs"
  have tools: "same_tools s0 ?s" "same_tools s0 (orch_step L ?s x)"
    using snoc.IH same_tools_step [of ?s L x] by (auto simp: same_tools_def)
  have ok: "pending_ok L ?s xs p" if "or_Pending ?s = Some p" for p
    using snoc.IH that same_tools_evidence [OF tools(1)] by blast
  have "pending_ok L s0 (xs @ [x]) p" if "or_Pending (orch_step L ?s x) = Some p" for p
    using pending_step [OF ok that] same_tools_evidence [OF tools(1)] by blast
  then show ?case
    using snoc.IH tools(2) intent_step_frame [of L ?s x] by (simp add: intent_of_def)
qed

text \<open>
  Who let a job of the binding \<open>b\<close> run after the calls \<open>xs\<close>. A \<open>confirm_later\<close> tool needs an approval
  that stands; an \<open>explicit_intent\<close> tool the user's last words, unless its trusted profile is direct;
  a \<open>read_only\<close> tool needs nobody.
\<close>
definition authorised :: "'sch lib \<Rightarrow> 'sch orch \<Rightarrow> orch_op list \<Rightarrow> instant \<Rightarrow> 'sch binding \<Rightarrow> job \<Rightarrow> bool" where
  "authorised L s xs now b j \<longleftrightarrow>
     (if bd_policy b = ConfirmLater then
        (\<exists>p. approved_in L s p xs \<and> now < pd_Expires p \<and> pd_Name p = jb_Name j
           \<and> op_key L (or_namespace s) (pd_Name p) (pd_Args p) = jb_Key j)
      else if bd_policy b = ExplicitIntent then
        pf_Direct (bd_profile b)
        \<or> (fst (intent_of L xs) = jb_TurnID j
           \<and> matchesIntent L (snd (intent_of L xs)) (pf_IntentPattern (bd_profile b)))
      else True)"

text \<open>
  The job of a call: a bound tool under a valid id, with arguments its schema accepts; the very
  arguments and turn of the call, and the key of the operation. Only a job that was confirmed says so.
\<close>
definition job_of_call :: "'sch lib \<Rightarrow> 'sch orch \<Rightarrow> string \<Rightarrow> string \<Rightarrow> string \<Rightarrow> string \<Rightarrow> 'sch binding \<Rightarrow> job \<Rightarrow> bool" where
  "job_of_call L s ident name turn args b j \<longleftrightarrow>
     gget (or_tools s) name = Some b \<and> ValidID ident \<and> Validate L (bd_schema b) args = None
     \<and> j = \<lparr>jb_ID = ident, jb_Name = tl_Name (bd_tool b), jb_Key = op_key L (or_namespace s) (tl_Name (bd_tool b)) args,
            jb_TurnID = turn, jb_Args = args, jb_Confirmed = (bd_policy b = ConfirmLater)\<rparr>"

lemma orch_start_call:
  assumes "j \<in> set (orch_start L s (OpPlan now ident name turn args))"
  shows "\<exists>b. job_of_call L s ident name turn args b j"
proof -
  obtain s' where plan: "Plan L now ident name turn args s = (s', j, None)"
    using assms by (cases "Plan L now ident name turn args s") (auto split: option.splits)
  show ?thesis
  proof (cases L now ident name turn args s rule: Plan_cases)
    case (counted b)
    have "j = counted_job L s b ident turn args\<lparr>jb_Confirmed := (bd_policy b = ConfirmLater)\<rparr>"
      using plan unfolding counted(6)
      by (cases L now name b "counted_job L s b ident turn args" "counted_orch s (counted_job L s b ident turn args)"
          rule: plan_counted_cases) (simp_all add: counted_job_def)
    then show ?thesis using counted(1-3) by (auto simp: job_of_call_def counted_job_def)
  qed (use plan in simp)
qed

text \<open>What the calls before a job say, for a job that \<open>Plan\<close> hands out and for any started job.\<close>
lemma Plan_authorised:
  assumes "NewOrch L ts allowed ns profiles = Inr s0"
    and "Plan L now ident name turn args (orch_run L s0 xs) = (s', j, None)"
  shows "\<exists>b. job_of_call L s0 ident name turn args b j \<and> authorised L s0 xs now b j"
proof -
  let ?s = "orch_run L s0 xs"
  note ev = run_evidence [OF assms(1), of xs]
  have tools: "or_tools ?s = or_tools s0" "or_namespace ?s = or_namespace s0"
    using ev by (simp_all add: same_tools_def)
  have intent: "intent_of L xs = (or_intentTurn ?s, or_intentText ?s)" using ev by simp
  have j: "j \<in> set (orch_start L ?s (OpPlan now ident name turn args))" using assms(2) by simp
  obtain b where b: "job_of_call L s0 ident name turn args b j"
    using orch_start_call [OF j] by (auto simp: job_of_call_def tools)
  then have bound: "gget (or_tools s0) name = Some b" by (simp add: job_of_call_def)
  have "authorised L s0 xs now b j"
    using j
  proof (cases rule: orch_start_cases)
    case (confirmed now' ident' name' turn' args' b' p)
    have "approved_in L s0 p xs" using ev confirmed by (simp add: pending_ok_def)
    moreover have "pd_Name p = jb_Name j \<and> op_key L (or_namespace s0) (pd_Name p) (pd_Args p) = jb_Key j"
      using confirmed(8) by (auto simp: same_pending_def tools)
    ultimately have "\<exists>p. approved_in L s0 p xs \<and> now < pd_Expires p \<and> pd_Name p = jb_Name j
        \<and> op_key L (or_namespace s0) (pd_Name p) (pd_Args p) = jb_Key j"
      using confirmed(1,7) by blast
    moreover have "bd_policy b = ConfirmLater" using confirmed(1-3) bound by (simp add: tools)
    ultimately show ?thesis unfolding authorised_def by simp
  next
    case (run now' ident' name' turn' args' b')
    then show ?thesis using bound by (simp add: tools authorised_def intent)
  next
    case (run_read now' ident' name' turn' args' b')
    then show ?thesis using bound by (simp add: tools authorised_def)
  qed
  then show ?thesis using b by blast
qed

lemma started_split:
  "j \<in> set (started L s xs) \<Longrightarrow>
     \<exists>before now ident name turn args after. xs = before @ OpPlan now ident name turn args # after
       \<and> (\<exists>s'. Plan L now ident name turn args (orch_run L s before) = (s', j, None))"
proof (induction xs arbitrary: s)
  case (Cons x xs)
  show ?case
  proof (cases "j \<in> set (orch_start L s x)")
    case True
    then obtain now ident name turn args where x: "x = OpPlan now ident name turn args" by (cases x) auto
    moreover obtain s' where "Plan L now ident name turn args s = (s', j, None)"
      using True unfolding x by (cases "Plan L now ident name turn args s") (auto split: option.splits)
    ultimately have "x # xs = [] @ OpPlan now ident name turn args # xs
        \<and> (\<exists>s'. Plan L now ident name turn args (orch_run L s []) = (s', j, None))" by simp
    then show ?thesis by blast
  next
    case False
    then obtain before now ident name turn args after s' where "xs = before @ OpPlan now ident name turn args # after"
      "Plan L now ident name turn args (orch_run L (orch_step L s x) before) = (s', j, None)"
      using Cons by force
    then have "x # xs = (x # before) @ OpPlan now ident name turn args # after
        \<and> (\<exists>s'. Plan L now ident name turn args (orch_run L s (x # before)) = (s', j, None))" by simp
    then show ?thesis by blast
  qed
qed simp

section \<open>Properties\<close>

text \<open>
  C5. Whatever the model, the user and the backend do, and in whatever order, no two jobs that
  change something (any policy but \<open>read_only\<close>) are started under the same operation key: each
  distinct set of arguments is attempted at most once in a session.
\<close>
theorem mutations_at_most_once:
  "case NewOrch L ts allowed ns profiles of
     Inl _ \<Rightarrow> True
   | Inr s \<Rightarrow> distinct (map jb_Key (filter (\<lambda>j. policy_of s j \<noteq> ReadOnly) (started L s ops)))"
  by (auto split: sum.split dest!: NewOrch_wf intro: started_mutations [THEN conjunct1])

text \<open>
  A session starts at most 128 jobs, and a tool call id is bound for good: two jobs with the
  same id have the same operation key.
\<close>
theorem call_budget:
  "case NewOrch L ts allowed ns profiles of
     Inl _ \<Rightarrow> True
   | Inr s \<Rightarrow> length (started L s ops) \<le> 128
       \<and> single_valued (set (map (\<lambda>j. (jb_ID j, jb_Key j)) (started L s ops)))"
proof (cases "NewOrch L ts allowed ns profiles")
  case (Inr s)
  have "orch_count s" using NewOrch_fresh [OF Inr] by (simp add: orch_count_def)
  then have "length (started L s ops) + or_calls s \<le> 128" by (rule started_length)
  moreover have "single_valued (set (map (\<lambda>j. (jb_ID j, jb_Key j)) (started L s ops)))"
    by (auto simp: single_valued_def dest!: started_seen)
  ultimately show ?thesis by (simp add: Inr)
qed simp

text \<open>
  C1. A job that \<open>Plan\<close> hands out is the job of the call: a bound tool, a valid id, arguments its schema
  accepts, and exactly these arguments. And it was authorised by the calls before it. A \<open>confirm_later\<close>
  tool runs only if an earlier \<open>Plan\<close> proposed that tool with the same canonical arguments and the
  user then approved it, either by saying its phrase unquoted in another turn or, where its profile
  allows it, by confirming that operation in the interface; the approval came within a minute of the
  proposal, and between the proposal and the job there was no interruption and no refusal. An
  \<open>explicit_intent\<close> tool whose profile is not direct runs only in the turn of the user's last words,
  when these match its pattern. Tools with a direct profile and \<open>read_only\<close> tools need no approval.
\<close>
theorem plan_authorised:
  assumes "NewOrch L ts allowed ns profiles = Inr s0"
    and "Plan L now ident name turn args (orch_run L s0 xs) = (s', j, None)"
  shows "\<exists>b. job_of_call L s0 ident name turn args b j \<and> authorised L s0 xs now b j"
  using assms by (rule Plan_authorised)

section \<open>A confirmed run\<close>

definition toy_tool :: tool where
  "toy_tool = \<lparr>tl_Server = [], tl_OriginalName = [], tl_HostPolicy = [], tl_Name = ''t'',
     tl_Description = [], tl_InputSchema = ''{}'', tl_Annotations = []\<rparr>"

definition toy_profile :: profile where
  "toy_profile = \<lparr>pf_Policy = ConfirmLater, pf_Direct = False, pf_ConfirmationPhrase = ''sim'',
     pf_AllowUIConfirmation = False, pf_DateTimeFields = [], pf_IntentPattern = []\<rparr>"

definition toy_binding :: "unit binding" where
  "toy_binding = \<lparr>bd_tool = toy_tool, bd_schema = (), bd_policy = ConfirmLater, bd_original = ''t'',
     bd_profile = toy_profile\<rparr>"

definition toy_orch :: "unit orch" where
  "toy_orch = (fresh_orch [])\<lparr>or_tools := [(''t'', toy_binding)], or_Specs :=
     [\<lparr>ts_Name = ''t'', ts_Description = approval_note ''sim'', ts_Parameters = ''{}''\<rparr>]\<rparr>"

definition toy_calls :: "orch_op list" where
  "toy_calls = [OpPlan 0 ''i'' ''t'' ''u'' ''{}'', OpObserve 1 ''v'' ''sim'']"

lemma toy_new: "NewOrch toy_lib (Inr [toy_tool]) [''t''] [] [(''t'', toy_profile)] = Inr toy_orch"
  by (simp add: NewOrch_def bind_tool_def toy_tool_def toy_profile_def toy_orch_def toy_binding_def
      fresh_orch_def model_name_def replace_byte_def modelToolName_def is_alpha_def is_upper_def
      CompileSchema_def unmarshal_any_def json_eval toy_lib_def go_map_def)

lemma toy_plan: "\<exists>s' j. Plan toy_lib 2 ''j'' ''t'' ''w'' ''{}'' (orch_run toy_lib toy_orch toy_calls) = (s', j, None)"
proof -
  have args: "Validate toy_lib () ''{}'' = None"
    by (simp add: Validate_def unmarshal_any_def json_eval toy_lib_def go_map_def)
  have ids: "ValidID ''i''" "ValidID ''j''"
    by (simp_all add: ValidID_iff id_char_def bval_Char)
  have said: "\<not> quoted ''sim''"
    by (simp add: quoted_def contains_any_def runes_ascii bval_Char)
  show ?thesis
    by (simp add: toy_calls_def Plan_def plan_counted_def plan_confirm_def toy_orch_def fresh_orch_def
        toy_binding_def toy_profile_def toy_tool_def args ids said ObserveUser_def ConfirmationPhrase_def
        tool_named_def same_pending_def second_ns_def Let_def)
qed

theorem plan_authorised_witness:
  "\<exists>j b. snd (snd (Plan toy_lib 2 ''j'' ''t'' ''w'' ''{}'' (orch_run toy_lib toy_orch toy_calls))) = None
     \<and> job_of_call toy_lib toy_orch ''j'' ''t'' ''w'' ''{}'' b j \<and> jb_Confirmed j \<and> authorised toy_lib toy_orch toy_calls 2 b j"
proof -
  obtain s' j where plan:
    "Plan toy_lib 2 ''j'' ''t'' ''w'' ''{}'' (orch_run toy_lib toy_orch toy_calls) = (s', j, None)"
    using toy_plan by blast
  obtain b where b: "job_of_call toy_lib toy_orch ''j'' ''t'' ''w'' ''{}'' b j" "authorised toy_lib toy_orch toy_calls 2 b j"
    using plan_authorised [OF toy_new plan] by blast
  then have "jb_Confirmed j" by (auto simp: job_of_call_def toy_orch_def toy_binding_def)
  then show ?thesis using b plan by auto
qed

end
