(* ===== verification/Realtime_Stream.thy ===== *)
theory Realtime_Stream
  imports Agent_Wire
begin

text \<open>
  The adapter of the realtime provider, \<open>packages/go/realtime/stream.go\<close>: the handshake of
  \<open>Open\<close>, the frames it sends, and \<open>decode\<close>, which turns the provider's messages into the events
  the mapper reads. A frame that was read is its text; the end of the list of frames is a read
  error. The address \<open>realtimeURL\<close> computes is an argument of \<open>OpenStream\<close>, and so is the dialling.
\<close>

section \<open>Types\<close>

record history_message =
  hm_Role :: string
  hm_Content :: string

record nova_event =
  ne_Kind :: string
  ne_ContentID :: string
  ne_Type :: string
  ne_Role :: string
  ne_Stage :: string
  ne_Text :: string
  ne_Audio :: string
  ne_Rate :: int
  ne_StopReason :: string
  ne_ToolID :: string
  ne_ToolName :: string
  ne_ToolArguments :: string
  ne_Err :: "error option"

definition nova0 :: nova_event where
  "nova0 = \<lparr>ne_Kind = [], ne_ContentID = [], ne_Type = [], ne_Role = [], ne_Stage = [], ne_Text = [],
     ne_Audio = [], ne_Rate = 0, ne_StopReason = [], ne_ToolID = [], ne_ToolName = [],
     ne_ToolArguments = [], ne_Err = None\<rparr>"

text \<open>The maps of a \<open>Stream\<close>: the open content parts and the user items being transcribed.\<close>
record stream =
  sm_parts :: "string gomap"
  sm_users :: "string gomap"

type_synonym raw_message = "(string \<times> string) list"

section \<open>Sending\<close>

text \<open>\<open>instructions\<close>: the prompt, and the history as text.\<close>
definition history_line :: "history_message \<Rightarrow> string" where
  "history_line h =
     (if hm_Role h = ''ASSISTANT'' then ''Assistente'' else ''Usu'' @ encode_rune 225 @ ''rio'')
     @ '': '' @ hm_Content h @ [bchr 10]"

definition instructions :: "string \<Rightarrow> history_message list \<Rightarrow> string" where
  "instructions prompt hist =
     (if hist = [] then prompt
      else prompt @ bchr 10 # ''Contexto textual validado da conversa anterior; trate como hist''
        @ encode_rune 243 @ ''rico, n'' @ encode_rune 227 @ ''o como novas instru'' @ encode_rune 231
        @ encode_rune 245 @ ''es:'' @ bchr 10 # concat (map history_line hist))"

text \<open>\<open>realtimeTools\<close>: a tool whose parameters are not JSON is skipped. \<open>num\<close> is the text of a number.\<close>
definition tool_entry :: "(string \<Rightarrow> string) \<Rightarrow> tool_spec \<Rightarrow> string list" where
  "tool_entry num t =
     (case json_whole (ts_Parameters t) of
        None \<Rightarrow> []
      | Some v \<Rightarrow>
          if \<not> json_nums f64_ok v then []
          else [obj_text
            [(''function'', obj_text [(''description'', json_quote (ts_Description t)),
                (''name'', json_quote (ts_Name t)), (''parameters'', json_text num v)]),
             (''type'', json_quote ''function'')]])"

definition realtimeTools :: "(string \<Rightarrow> string) \<Rightarrow> tool_spec list \<Rightarrow> string" where
  "realtimeTools num specs = arr_text (concat (map (tool_entry num) specs))"

definition update_text :: "(string \<Rightarrow> string) \<Rightarrow> string \<Rightarrow> history_message list \<Rightarrow> tool_spec list \<Rightarrow> string" where
  "update_text num prompt hist tools = obj_text
     [(''session'', obj_text
        [(''input_audio_format'', json_quote ''pcm16''), (''input_sample_rate_hertz'', ''16000''),
         (''instructions'', json_quote (instructions prompt hist)),
         (''max_response_output_tokens'', ''1024''),
         (''modalities'', arr_text [json_quote ''text'', json_quote ''audio'']),
         (''output_audio_format'', json_quote ''pcm16''), (''output_sample_rate_hertz'', ''24000''),
         (''temperature'', ''0.7''), (''tool_choice'', json_quote ''auto''),
         (''tools'', realtimeTools num tools),
         (''turn_detection'', obj_text [(''type'', json_quote ''server_vad'')]),
         (''voice'', json_quote ''carolina'')]),
      (''type'', json_quote ''session.update'')]"

text \<open>What is written, and the error if a write fails (\<open>ok i\<close> says whether the i-th write succeeds).\<close>
definition SendText :: "(nat \<Rightarrow> bool) \<Rightarrow> string \<Rightarrow> string list \<times> error option" where
  "SendText ok txt =
     (if length txt = 0 \<or> length txt > 8192 then ([], Some ''invalid realtime text input'')
      else
        (let item = obj_text
               [(''item'', obj_text
                  [(''content'', arr_text [obj_text [(''text'', json_quote txt), (''type'', json_quote ''input_text'')]]),
                   (''role'', json_quote ''user''), (''type'', json_quote ''message'')]),
                (''type'', json_quote ''conversation.item.create'')];
             create = obj_text [(''type'', json_quote ''response.create'')]
         in if \<not> ok 0 then ([], Some ''LiteLLM Realtime text transport disconnected'')
            else if \<not> ok 1 then ([item], Some ''LiteLLM Realtime response request failed'')
            else ([item, create], None)))"

definition SendAudio :: "(nat \<Rightarrow> bool) \<Rightarrow> string \<Rightarrow> string list \<times> error option" where
  "SendAudio ok encoded =
     (if \<not> ok 0 then ([], Some ''LiteLLM Realtime audio transport disconnected'')
      else ([obj_text [(''audio'', json_quote encoded), (''type'', json_quote ''input_audio_buffer.append'')]], None))"

text \<open>\<open>data\<close> is the JSON of the result.\<close>
definition SendToolResult :: "(nat \<Rightarrow> bool) \<Rightarrow> string \<Rightarrow> string \<Rightarrow> string list \<times> error option" where
  "SendToolResult ok ident data =
     (if length data > 65536 then ([], Some ''invalid tool result'')
      else if \<not> ok 0 then ([], Some ''LiteLLM Realtime tool result transport failed'')
      else ([obj_text
          [(''item'', obj_text [(''call_id'', json_quote ident), (''output'', json_quote data),
             (''type'', json_quote ''function_call_output'')]),
           (''type'', json_quote ''conversation.item.create'')]], None))"

section \<open>Receiving\<close>

definition messageType :: "raw_message \<Rightarrow> string" where
  "messageType m = raw_get m ''type''"

text \<open>Wait for \<open>session.updated\<close>; an unreadable frame or an error message ends the attempt.\<close>
fun await_updated :: "string list \<Rightarrow> error + string list" where
  "await_updated [] = Inl ''LiteLLM Realtime configuration failed''"
| "await_updated (f # fs) =
     (case decode_raw_map f of
        None \<Rightarrow> Inl ''LiteLLM Realtime configuration failed''
      | Some m \<Rightarrow>
          if messageType m = ''session.updated'' then Inr fs
          else if messageType m = ''error'' then Inl ''LiteLLM rejected Nova session''
          else await_updated fs)"

text \<open>
  \<open>Open\<close>: \<open>address\<close> is \<open>realtimeURL\<close>'s result, \<open>dial\<close> the status of a refused connection (0 when
  there was no response) or \<open>None\<close>, \<open>wrote\<close> whether the update could be written. The result is
  the new stream and the frames still to read.
\<close>
definition OpenStream ::
  "string \<Rightarrow> string \<Rightarrow> error + string \<Rightarrow> nat option \<Rightarrow> bool \<Rightarrow> string list \<Rightarrow> error + stream \<times> string list"
where
  "OpenStream apiKey model address dial wrote frames =
     (if apiKey = [] \<or> model = [] then Inl ''LiteLLM API key and realtime model required''
      else (case address of
          Inl e \<Rightarrow> Inl e
        | Inr _ \<Rightarrow>
          (case dial of
             Some code \<Rightarrow> Inl (if code \<noteq> 0
               then ''LiteLLM Realtime unavailable (HTTP '' @ nat_text code @ '')''
               else ''LiteLLM Realtime unavailable'')
           | None \<Rightarrow>
             (case frames of
                [] \<Rightarrow> Inl ''LiteLLM Realtime handshake failed''
              | f # fs \<Rightarrow>
                  if (case decode_raw_map f of None \<Rightarrow> True | Some m \<Rightarrow> messageType m \<noteq> ''session.created'')
                  then Inl ''LiteLLM Realtime handshake failed''
                  else if \<not> wrote then Inl ''LiteLLM Realtime startup failed''
                  else (case await_updated fs of
                      Inl e \<Rightarrow> Inl e
                    | Inr rest \<Rightarrow> Inr (\<lparr>sm_parts = [], sm_users = []\<rparr>, rest))))))"

definition partKey :: "string \<Rightarrow> int \<Rightarrow> string" where
  "partKey item index = item @ CHR '':'' # int_text index"

text \<open>\<open>strings.ToUpper(s) == t\<close> for an ASCII \<open>t\<close>: U+0131 and U+017F have ASCII capitals.\<close>
definition upper_eq :: "string \<Rightarrow> string \<Rightarrow> bool" where
  "upper_eq s t \<longleftrightarrow>
     map (\<lambda>r. if 97 \<le> r \<and> r \<le> 122 then r - 32 else if r = 305 then 73 else if r = 383 then 83 else r) (runes s)
     = map bval t"

text \<open>User transcription: a first delta opens the user's content.\<close>
definition user_start :: "string \<Rightarrow> nova_event" where
  "user_start item = nova0\<lparr>ne_Kind := ''contentStart'', ne_ContentID := item, ne_Type := ''TEXT'',
     ne_Role := ''USER'', ne_Stage := ''FINAL''\<rparr>"

definition assistant_start :: "string \<Rightarrow> string \<Rightarrow> nova_event" where
  "assistant_start key typ = nova0\<lparr>ne_Kind := ''contentStart'', ne_ContentID := key, ne_Type := typ,
     ne_Role := ''ASSISTANT'', ne_Stage := ''FINAL'', ne_Rate := 24000\<rparr>"

definition text_output :: "string \<Rightarrow> string \<Rightarrow> nova_event" where
  "text_output key t = nova0\<lparr>ne_Kind := ''textOutput'', ne_ContentID := key, ne_Text := t\<rparr>"

definition decode_user_delta :: "raw_message \<Rightarrow> string \<Rightarrow> stream \<Rightarrow> stream \<times> nova_event list" where
  "decode_user_delta m item s =
     (let delta = raw_get m ''delta'' in
      case gget (sm_users s) item of
        None \<Rightarrow> (s\<lparr>sm_users := gput item delta (sm_users s)\<rparr>, [user_start item, text_output item delta])
      | Some u \<Rightarrow> (s\<lparr>sm_users := gput item (u @ delta) (sm_users s)\<rparr>, [text_output item delta]))"

definition decode_user_done :: "raw_message \<Rightarrow> string \<Rightarrow> stream \<Rightarrow> stream \<times> nova_event list" where
  "decode_user_done m item s =
     (let opening = (if gget (sm_users s) item = None
            then [user_start item, text_output item (raw_get m ''transcript'')] else [])
      in (s\<lparr>sm_users := gdel item (sm_users s)\<rparr>,
          opening @ [nova0\<lparr>ne_Kind := ''contentEnd'', ne_ContentID := item, ne_StopReason := ''PARTIAL_TURN''\<rparr>]))"

definition decode_part :: "raw_message \<Rightarrow> string \<Rightarrow> stream \<Rightarrow> stream \<times> nova_event list" where
  "decode_part m key s =
     (let t = member_string ''type'' (case map_of m ''part'' of Some raw \<Rightarrow> raw | None \<Rightarrow> []) in
      if upper_eq t ''TEXT'' then (s\<lparr>sm_parts := gput key ''TEXT'' (sm_parts s)\<rparr>, [assistant_start key ''TEXT''])
      else if upper_eq t ''AUDIO'' then (s\<lparr>sm_parts := gput key ''AUDIO'' (sm_parts s)\<rparr>, [assistant_start key ''AUDIO''])
      else (s, []))"

definition decode_delta :: "raw_message \<Rightarrow> string \<Rightarrow> string \<Rightarrow> stream \<Rightarrow> stream \<times> nova_event list" where
  "decode_delta m key typ s =
     (let delta = raw_get m ''delta'';
          fresh = (gget (sm_parts s) key = None);
          out = (if typ = ''AUDIO''
                 then nova0\<lparr>ne_Kind := ''audioOutput'', ne_ContentID := key, ne_Audio := delta\<rparr>
                 else text_output key delta)
      in (if fresh then s\<lparr>sm_parts := gput key typ (sm_parts s)\<rparr> else s,
          (if fresh then [assistant_start key typ] else []) @ [out]))"

definition decode_tool_call :: "raw_message \<Rightarrow> nova_event list" where
  "decode_tool_call m =
     (let ident = raw_get m ''call_id''; name = raw_get m ''name''; args = raw_get m ''arguments'' in
      if ident = [] \<or> name = [] \<or> \<not> json_valid args
      then [nova0\<lparr>ne_Err := Some ''invalid LiteLLM tool call''\<rparr>]
      else (let cid = ''tool:'' @ ident in
        [nova0\<lparr>ne_Kind := ''contentStart'', ne_ContentID := cid, ne_Type := ''TOOL'', ne_Role := ''TOOL''\<rparr>,
         nova0\<lparr>ne_Kind := ''toolUse'', ne_ContentID := cid, ne_ToolID := ident, ne_ToolName := name,
               ne_ToolArguments := args\<rparr>,
         nova0\<lparr>ne_Kind := ''contentEnd'', ne_ContentID := cid, ne_StopReason := ''TOOL_USE''\<rparr>]))"

definition stream_decode :: "raw_message \<Rightarrow> stream \<Rightarrow> stream \<times> nova_event list" where
  "stream_decode m s =
     (let kind = messageType m;
          item = raw_get m ''item_id'';
          key = partKey item (raw_get_int m ''content_index'')
      in
      if kind = ''input_audio_buffer.speech_started'' then (s, [nova0\<lparr>ne_Kind := ''interrupted''\<rparr>])
      else if kind = ''conversation.item.input_audio_transcription.delta'' then decode_user_delta m item s
      else if kind = ''conversation.item.input_audio_transcription.completed'' then decode_user_done m item s
      else if kind = ''response.content_part.added'' then decode_part m key s
      else if kind = ''response.text.delta'' then decode_delta m key ''TEXT'' s
      else if kind = ''response.audio.delta'' then decode_delta m key ''AUDIO'' s
      else if kind = ''response.text.done'' \<or> kind = ''response.audio.done'' then
        (s\<lparr>sm_parts := gdel key (sm_parts s)\<rparr>, [nova0\<lparr>ne_Kind := ''contentEnd'', ne_ContentID := key\<rparr>])
      else if kind = ''response.function_call_arguments.done'' then (s, decode_tool_call m)
      else if kind = ''response.done'' then
        (let st = member_string ''status'' (case map_of m ''response'' of Some raw \<Rightarrow> raw | None \<Rightarrow> []) in
         if st \<noteq> [] \<and> st \<noteq> ''completed''
         then (s, [nova0\<lparr>ne_Err := Some ''LiteLLM Realtime response failed''\<rparr>])
         else (s, [nova0\<lparr>ne_Kind := ''completionEnd'', ne_StopReason := ''END_TURN''\<rparr>]))
      else if kind = ''error'' then (s, [nova0\<lparr>ne_Err := Some ''LiteLLM Realtime provider failed''\<rparr>])
      else (s, []))"

text \<open>Events go out up to the first one with an error, which ends the stream.\<close>
definition until_error :: "nova_event list \<Rightarrow> nova_event list \<times> bool" where
  "until_error es =
     (case dropWhile (\<lambda>e. ne_Err e = None) es of
        [] \<Rightarrow> (es, False)
      | e # _ \<Rightarrow> (takeWhile (\<lambda>e. ne_Err e = None) es @ [e], True))"

text \<open>\<open>read\<close>: the events of the frames, until a frame cannot be read or an error event goes out.\<close>
fun stream_read :: "stream \<Rightarrow> string list \<Rightarrow> nova_event list" where
  "stream_read s [] = []"
| "stream_read s (f # fs) =
     (case decode_raw_map f of
        None \<Rightarrow> []
      | Some m \<Rightarrow>
          (case stream_decode m s of (s', es) \<Rightarrow>
             (case until_error es of (out, ended) \<Rightarrow> out @ (if ended then [] else stream_read s' fs))))"

section \<open>What the mapper may rely on\<close>

text \<open>
  A well-formed provider event: audio content has the output rate, and a tool call has an id, a
  name and arguments that are JSON.
\<close>
definition nova_ok :: "nova_event \<Rightarrow> bool" where
  "nova_ok e \<longleftrightarrow>
     (if ne_Kind e = ''contentStart'' then
        (if ne_Role e = ''ASSISTANT'' then ne_Type e \<in> {''TEXT'', ''AUDIO''} \<and> ne_Rate e = 24000
         else (ne_Role e, ne_Type e) \<in> {(''USER'', ''TEXT''), (''TOOL'', ''TOOL'')})
      else if ne_Kind e = ''toolUse''
        then ne_ToolID e \<noteq> [] \<and> ne_ToolName e \<noteq> [] \<and> json_valid (ne_ToolArguments e)
      else ne_Kind e \<in> {''interrupted'', ''textOutput'', ''audioOutput'', ''contentEnd'', ''completionEnd''}
        \<or> (ne_Kind e = [] \<and> ne_Err e \<noteq> None))"

lemma nova_ok_starts [simp]:
  "nova_ok (user_start i)" "nova_ok (text_output k t)"
  "t \<in> {''TEXT'', ''AUDIO''} \<Longrightarrow> nova_ok (assistant_start k t)"
  by (auto simp: nova_ok_def user_start_def text_output_def assistant_start_def)

lemma nova_ok_tool_call: "list_all nova_ok (decode_tool_call m)"
  by (simp add: decode_tool_call_def nova_ok_def nova0_def Let_def)

lemma nova_ok_delta: "t \<in> {''TEXT'', ''AUDIO''} \<Longrightarrow> list_all nova_ok (snd (decode_delta m key t s))"
  by (auto simp: decode_delta_def Let_def nova_ok_def nova0_def text_output_def assistant_start_def)

lemma nova_ok_user:
  "list_all nova_ok (snd (decode_user_delta m i s))" "list_all nova_ok (snd (decode_user_done m i s))"
  by (auto simp: decode_user_delta_def decode_user_done_def Let_def nova_ok_def nova0_def
      user_start_def text_output_def split: option.split)

lemma nova_ok_part: "list_all nova_ok (snd (decode_part m key s))"
  by (simp add: decode_part_def Let_def)

lemma nova_ok_decode: "list_all nova_ok (snd (stream_decode m s))"
proof -
  have plain: "nova_ok (nova0\<lparr>ne_Kind := ''interrupted''\<rparr>)"
    "nova_ok (nova0\<lparr>ne_Kind := ''contentEnd'', ne_ContentID := k\<rparr>)"
    "nova_ok (nova0\<lparr>ne_Err := Some x\<rparr>)"
    "nova_ok (nova0\<lparr>ne_Kind := ''completionEnd'', ne_StopReason := y\<rparr>)" for k x y
    by (simp_all add: nova_ok_def nova0_def)
  show ?thesis
    by (simp add: stream_decode_def Let_def plain nova_ok_tool_call nova_ok_delta nova_ok_user nova_ok_part)
qed

lemma set_until_error: "set (fst (until_error es)) \<subseteq> set es"
proof (cases "dropWhile (\<lambda>e. ne_Err e = None) es")
  case Nil
  show ?thesis unfolding until_error_def Nil by simp
next
  case (Cons e r)
  then have "e \<in> set es" by (metis list.set_intros(1) set_dropWhileD)
  then show ?thesis unfolding until_error_def Cons by (auto dest: set_takeWhileD)
qed

text \<open>
  Every event the stream hands on is well formed, whatever frames the provider sends: content
  starts have a known role and type and the 24 kHz rate, and a tool call has a non-empty id and
  name and arguments that parse as JSON.
\<close>
theorem stream_events_ok: "list_all nova_ok (stream_read s frames)"
proof (induction frames arbitrary: s)
  case (Cons f fs)
  show ?case
  proof (cases "decode_raw_map f")
    case (Some m)
    obtain s' es where d: "stream_decode m s = (s', es)" by fastforce
    have "list_all nova_ok es" using nova_ok_decode [of m s] d by simp
    then have "list_all nova_ok (fst (until_error es))"
      using set_until_error [of es] by (auto simp: list_all_iff)
    then show ?thesis using Some d Cons by (cases "until_error es") simp
  qed simp
qed simp

end
