(* ===== verification/Realtime_Mapper.thy ===== *)
theory Realtime_Mapper
  imports Realtime_Stream Voice_Wire
begin

text \<open>
  The state machine between the realtime provider and the voice protocol,
  \<open>packages/go/realtime/mapper.go\<close>: turns open, respond, complete and are interrupted; audio of a
  turn is numbered; finished turns go to the history. Operations that read the clock take one
  reading, \<open>now\<close>; \<open>fresh\<close> is what \<open>rand.Text()\<close> returns. \<open>stream_ok\<close> is the specification of
  the outgoing event stream that the voice client relies on.
\<close>

section \<open>State\<close>

record nova_content =
  nc_turn :: string
  nc_kind :: string
  nc_role :: string
  nc_stage :: string
  nc_text :: string
  nc_rate :: int

record mapper =
  mp_TurnID :: string
  mp_State :: string
  mp_History :: "history_message list"
  mp_nextInput :: string
  mp_answered :: "string list"
  mp_cancelled :: "string list"
  mp_contents :: "nova_content gomap"
  mp_users :: "string gomap"
  mp_sequence :: u64
  mp_started :: instant
  mp_firstAudio :: duration
  mp_waitingUser :: bool

text \<open>The zero \<open>time.Time\<close>, and \<open>time.Since\<close>, which saturates.\<close>
definition zero_time :: instant where "zero_time = - 62135596800 * second_ns"

definition since :: "instant \<Rightarrow> instant \<Rightarrow> duration" where
  "since now t = max (- 9223372036854775808) (min 9223372036854775807 (now - t))"

definition NewMapper :: "history_message list \<Rightarrow> mapper" where
  "NewMapper hist = \<lparr>mp_TurnID = [], mp_State = Idle, mp_History = hist, mp_nextInput = [],
     mp_answered = [], mp_cancelled = [], mp_contents = [], mp_users = [], mp_sequence = 0,
     mp_started = zero_time, mp_firstAudio = 0, mp_waitingUser = False\<rparr>"

section \<open>Events\<close>

text \<open>\<open>Duration.Microseconds\<close>, which rounds towards zero.\<close>
definition microseconds :: "duration \<Rightarrow> int" where
  "microseconds d = sgn d * (\<bar>d\<bar> div 1000)"

definition FirstAudioMicros :: "mapper \<Rightarrow> int" where
  "FirstAudioMicros m = microseconds (mp_firstAudio m)"

text \<open>Milliseconds of a duration, in microsecond steps, as JSON writes the \<open>float64\<close>.\<close>
definition ms_text :: "duration \<Rightarrow> string" where
  "ms_text d =
     (let us = microseconds d; n = nat \<bar>us\<bar>; fr = n mod 1000;
          digits = (if fr = 0 then [] else if fr mod 100 = 0 then nat_text (fr div 100)
                    else if fr mod 10 = 0 then (if fr < 100 then ''0'' else []) @ nat_text (fr div 10)
                    else (if fr < 10 then ''00'' else if fr < 100 then ''0'' else []) @ nat_text fr)
      in (if us < 0 then ''-'' else []) @ nat_text (n div 1000)
         @ (if digits = [] then [] else CHR ''.'' # digits))"

definition turn_event :: "string \<Rightarrow> string \<Rightarrow> event" where
  "turn_event typ turn = zero_event\<lparr>ev_Type := typ, ev_TurnID := turn\<rparr>"

definition mapper_state :: "mapper \<Rightarrow> event" where
  "mapper_state m = (turn_event SessionState (mp_TurnID m))\<lparr>ev_State := mp_State m\<rparr>"

section \<open>Operations of the session\<close>

definition StartAssistant :: "instant \<Rightarrow> string \<Rightarrow> mapper \<Rightarrow> mapper \<times> event list" where
  "StartAssistant now ident m =
     (let m' = m\<lparr>mp_TurnID := ident, mp_State := Responding, mp_started := now,
                 mp_waitingUser := False, mp_sequence := 0\<rparr>
      in (m', [turn_event TurnStarted ident, mapper_state m']))"

definition QueueInput :: "string \<Rightarrow> mapper \<Rightarrow> mapper" where
  "QueueInput ident m = m\<lparr>mp_nextInput := ident\<rparr>"

text \<open>With one reading of the clock the interruption itself takes no time.\<close>
definition InterruptTurn :: "mapper \<Rightarrow> mapper \<times> event list" where
  "InterruptTurn m =
     (if mp_TurnID m = [] \<or> mp_TurnID m \<in> set (mp_cancelled m) \<or> mp_State m = Idle then (m, [])
      else
        (let m' = m\<lparr>mp_cancelled := List.insert (mp_TurnID m) (mp_cancelled m), mp_State := Idle\<rparr>
         in (m', [(turn_event TurnInterrupted (mp_TurnID m))\<lparr>ev_Metrics := Some (zero_metrics
               \<lparr>m_InterruptionMS := ms_text 0\<rparr>)\<rparr>, mapper_state m'])))"

definition StartInput :: "instant \<Rightarrow> string \<Rightarrow> mapper \<Rightarrow> mapper \<times> event list" where
  "StartInput now ident m =
     (case (if mp_State m = Responding then InterruptTurn m else (m, [])) of
        (m1, es) \<Rightarrow>
          (let m2 = m1\<lparr>mp_nextInput := ident, mp_TurnID := ident, mp_State := Listening,
                       mp_started := now, mp_firstAudio := 0, mp_sequence := 0, mp_waitingUser := True\<rparr>
           in (m2, es @ [turn_event TurnStarted ident, mapper_state m2])))"

definition CommitInput :: "instant \<Rightarrow> mapper \<Rightarrow> mapper" where
  "CommitInput now m = m\<lparr>mp_started := now\<rparr>"

definition complete_turn :: "instant \<Rightarrow> mapper \<Rightarrow> mapper \<times> event list" where
  "complete_turn now m =
     (let m' = m\<lparr>mp_State := Idle, mp_answered := List.insert (mp_TurnID m) (mp_answered m)\<rparr>
      in (m', [(turn_event TurnCompleted (mp_TurnID m))\<lparr>ev_Metrics := Some (zero_metrics
             \<lparr>m_FirstAudioMS := ms_text (mp_firstAudio m), m_DurationMS := ms_text (since now (mp_started m))\<rparr>)\<rparr>,
           mapper_state m']))"

section \<open>Mapping provider events\<close>

definition historyBytes :: "history_message list \<Rightarrow> nat" where
  "historyBytes hs = sum_list (map (\<lambda>h. length (hm_Content h)) hs)"

definition slice_panic :: error where
  "slice_panic = ''panic: slice bounds out of range''"

text \<open>\<open>m.History[2:]\<close> panics on a single message.\<close>
function trim_history :: "history_message list \<Rightarrow> error + history_message list" where
  "trim_history hs =
     (if length hs > 32 \<or> historyBytes hs > 65536
      then (if length hs < 2 then Inl slice_panic else trim_history (drop 2 hs))
      else Inr hs)"
  by pat_completeness auto
termination
  by (relation "measure length") auto

declare trim_history.simps [simp del]

definition new_content :: "mapper \<Rightarrow> nova_event \<Rightarrow> int \<Rightarrow> nova_content" where
  "new_content m e rate = \<lparr>nc_turn = mp_TurnID m, nc_kind = ne_Type e, nc_role = ne_Role e,
     nc_stage = ne_Stage e, nc_text = [], nc_rate = rate\<rparr>"

text \<open>\<open>contentStart\<close> of the user: interrupt, and open a turn if the current one is spent.\<close>
definition map_user_start ::
  "instant \<Rightarrow> string \<Rightarrow> nova_event \<Rightarrow> mapper \<Rightarrow> mapper \<times> (error + event list)"
where
  "map_user_start now fresh e m0 =
     (case (let m = m0\<lparr>mp_waitingUser := False\<rparr> in
            if mp_State m = Responding then InterruptTurn m else (m, [])) of
        (m1, es1) \<Rightarrow>
        (let spent = (mp_TurnID m1 = [] \<or> mp_TurnID m1 \<in> set (mp_answered m1)
                      \<or> mp_TurnID m1 \<in> set (mp_cancelled m1));
             next = mp_nextInput m1;
             ident = (if next = [] \<or> next \<in> set (mp_answered m1) \<or> next \<in> set (mp_cancelled m1)
                      then fresh else next);
             m2 = (if spent then m1\<lparr>mp_TurnID := ident, mp_started := now, mp_firstAudio := 0,
                                    mp_sequence := 0\<rparr> else m1);
             es2 = (if spent then es1 @ [turn_event TurnStarted ident] else es1);
             m3 = m2\<lparr>mp_State := Listening\<rparr>
         in if MaxTurns \<le> length (mp_answered m3) + length (mp_cancelled m3)
            then (m3, Inl ''Nova session turn limit reached'')
            else (let m4 = m3\<lparr>mp_contents := gput (ne_ContentID e) (new_content m3 e 0) (mp_contents m3)\<rparr>
                  in (m4, Inr (es2 @ [mapper_state m4])))))"

definition map_start ::
  "instant \<Rightarrow> string \<Rightarrow> nova_event \<Rightarrow> mapper \<Rightarrow> mapper \<times> (error + event list)"
where
  "map_start now fresh e m =
     (if ne_Role e = ''USER'' then map_user_start now fresh e m
      else if mp_waitingUser m then (m, Inr [])
      else if 1024 \<le> length (mp_contents m) then (m, Inl ''Nova content limit reached'')
      else
        (let m1 = m\<lparr>mp_contents := gput (ne_ContentID e) (new_content m e (ne_Rate e)) (mp_contents m)\<rparr>
         in if ne_Role e = ''ASSISTANT'' \<and> (ne_Type e = ''AUDIO'' \<or> ne_Stage e = ''SPECULATIVE'')
               \<and> mp_TurnID m \<notin> set (mp_cancelled m)
            then (let m2 = m1\<lparr>mp_State := Responding\<rparr> in (m2, Inr [mapper_state m2]))
            else (m1, Inr [])))"

definition map_text :: "nova_event \<Rightarrow> nova_content \<Rightarrow> mapper \<Rightarrow> mapper \<times> (error + event list)" where
  "map_text e c m =
     (if length (nc_text c) + length (ne_Text e) > 8192
      then (m, Inl ''Nova transcript limit reached'')
      else (m\<lparr>mp_contents := gput (ne_ContentID e) (c\<lparr>nc_text := nc_text c @ ne_Text e\<rparr>) (mp_contents m)\<rparr>,
            Inr [(turn_event Transcript (nc_turn c))\<lparr>ev_Role := nc_role c, ev_Stage := nc_stage c,
                   ev_Text := ne_Text e\<rparr>]))"

definition map_audio :: "instant \<Rightarrow> nova_event \<Rightarrow> nova_content \<Rightarrow> mapper \<Rightarrow> mapper \<times> (error + event list)" where
  "map_audio now e c m =
     (if mp_State m \<noteq> Responding then (m, Inr [])
      else (case b64_decode (ne_Audio e) of
          None \<Rightarrow> (m, Inl ''invalid Nova PCM format'')
        | Some pcm \<Rightarrow>
            if length pcm = 0 \<or> length pcm mod 2 \<noteq> 0 \<or> length pcm > 262144 \<or> nc_rate c \<noteq> 24000
            then (m, Inl ''invalid Nova PCM format'')
            else
              (let m' = m\<lparr>mp_sequence := mp_sequence m + 1,
                          mp_firstAudio := (if mp_firstAudio m = 0 then since now (mp_started m)
                                            else mp_firstAudio m)\<rparr>
               in (m', Inr [(turn_event AudioOutput (nc_turn c))\<lparr>ev_Sequence := mp_sequence m',
                      ev_SampleRate := nc_rate c, ev_Audio := ne_Audio e\<rparr>]))))"

definition map_tool :: "nova_event \<Rightarrow> nova_content \<Rightarrow> mapper \<Rightarrow> mapper \<times> (error + event list)" where
  "map_tool e c m =
     (m, Inr [(turn_event ToolStarted (nc_turn c))\<lparr>ev_Tool := Some (zero_tool\<lparr>vt_OperationID := ne_ToolID e,
           vt_Name := ne_ToolName e, vt_Arguments := ne_ToolArguments e\<rparr>)\<rparr>])"

text \<open>A final text ends: the user's words are kept, and with the answer they go to the history.\<close>
definition map_final :: "nova_content \<Rightarrow> mapper \<Rightarrow> error + mapper" where
  "map_final c m =
     (if nc_role c = ''USER'' then
        (let txt = (if gstr (mp_users m) (nc_turn c) \<noteq> []
                    then gstr (mp_users m) (nc_turn c) @ '' '' @ nc_text c else nc_text c) in
         if length txt > 8192 then Inl ''Nova user transcript limit reached''
         else Inr (m\<lparr>mp_users := gput (nc_turn c) txt (mp_users m)\<rparr>))
      else if nc_role c = ''ASSISTANT'' \<and> gstr (mp_users m) (nc_turn c) \<noteq> [] then
        (case trim_history (mp_History m @
              [\<lparr>hm_Role = ''USER'', hm_Content = gstr (mp_users m) (nc_turn c)\<rparr>,
               \<lparr>hm_Role = ''ASSISTANT'', hm_Content = nc_text c\<rparr>]) of
           Inl err \<Rightarrow> Inl err
         | Inr hist \<Rightarrow> Inr (m\<lparr>mp_History := hist, mp_users := gdel (nc_turn c) (mp_users m)\<rparr>))
      else Inr m)"

definition map_end :: "instant \<Rightarrow> nova_event \<Rightarrow> nova_content \<Rightarrow> mapper \<Rightarrow> mapper \<times> (error + event list)" where
  "map_end now e c m0 =
     (let m = m0\<lparr>mp_contents := gdel (ne_ContentID e) (mp_contents m0)\<rparr> in
      if ne_StopReason e = ''INTERRUPTED'' then apsnd Inr (InterruptTurn m)
      else
        (case (if nc_kind c = ''TEXT'' \<and> nc_stage c = ''FINAL'' then map_final c m else Inr m) of
           Inl err \<Rightarrow> (m, Inl err)
         | Inr m1 \<Rightarrow>
             if nc_kind c = ''TEXT'' \<and> nc_stage c = ''FINAL'' \<and> nc_role c = ''ASSISTANT''
                \<and> ne_StopReason e = ''END_TURN'' \<and> mp_State m1 = Responding \<and> 0 < mp_sequence m1
             then apsnd Inr (complete_turn now m1)
             else if nc_kind c = ''AUDIO'' \<and> ne_StopReason e = ''END_TURN'' \<and> mp_State m1 = Responding
             then apsnd Inr (complete_turn now m1)
             else (m1, Inr [])))"

text \<open>\<open>Map\<close>\<close>
definition MapEvent :: "instant \<Rightarrow> string \<Rightarrow> nova_event \<Rightarrow> mapper \<Rightarrow> mapper \<times> (error + event list)" where
  "MapEvent now fresh e m =
     (case ne_Err e of
        Some err \<Rightarrow> (m, Inl err)
      | None \<Rightarrow>
        if ne_Kind e = ''interrupted'' then apsnd Inr (InterruptTurn m)
        else if ne_Kind e = ''completionEnd'' \<and> ne_StopReason e = ''END_TURN'' \<and> mp_State m = Responding
             \<and> 0 < mp_sequence m
        then apsnd Inr (complete_turn now m)
        else if ne_Kind e = ''contentStart'' then map_start now fresh e m
        else (case gget (mp_contents m) (ne_ContentID e) of
            None \<Rightarrow> (m, Inr [])
          | Some c \<Rightarrow>
              if nc_turn c \<in> set (mp_cancelled m) \<or> nc_turn c \<noteq> mp_TurnID m then (m, Inr [])
              else if ne_Kind e = ''textOutput'' then map_text e c m
              else if ne_Kind e = ''audioOutput'' then map_audio now e c m
              else if ne_Kind e = ''toolUse'' then map_tool e c m
              else if ne_Kind e = ''contentEnd'' then map_end now e c m
              else (m, Inr [])))"

section \<open>Runs\<close>

datatype mapper_op =
    MStartAssistant instant string
  | MQueueInput string
  | MStartInput instant string
  | MCommit instant
  | MInterrupt
  | MMap instant string nova_event

fun mapper_call :: "mapper \<Rightarrow> mapper_op \<Rightarrow> mapper \<times> (error + event list)" where
  "mapper_call m (MStartAssistant now ident) = apsnd Inr (StartAssistant now ident m)"
| "mapper_call m (MQueueInput ident) = (QueueInput ident m, Inr [])"
| "mapper_call m (MStartInput now ident) = apsnd Inr (StartInput now ident m)"
| "mapper_call m (MCommit now) = (CommitInput now m, Inr [])"
| "mapper_call m MInterrupt = apsnd Inr (InterruptTurn m)"
| "mapper_call m (MMap now fresh e) = MapEvent now fresh e m"

text \<open>The events that go out; the session ends at the first error.\<close>
fun mapper_outputs :: "mapper \<Rightarrow> mapper_op list \<Rightarrow> event list" where
  "mapper_outputs m [] = []"
| "mapper_outputs m (x # xs) =
     (case mapper_call m x of
        (_, Inl _) \<Rightarrow> []
      | (m', Inr es) \<Rightarrow> es @ mapper_outputs m' xs)"

section \<open>Specification of the outgoing stream\<close>

text \<open>
  The reader keeps the number of the last audio frame and the interrupted turns. A started turn
  numbers its audio from 1 without gaps; an interrupted turn is interrupted once and then never
  heard of again: no audio, transcript, tool or completion.
\<close>
definition track_step :: "u64 \<times> string list \<Rightarrow> event \<Rightarrow> (u64 \<times> string list) option" where
  "track_step st e =
     (let t = ev_TurnID e; dead = t \<in> set (snd st) in
      if ev_Type e = TurnStarted then Some (0, snd st)
      else if ev_Type e = AudioOutput then
        (if dead \<or> ev_Sequence e \<noteq> fst st + 1 then None else Some (fst st + 1, snd st))
      else if ev_Type e = TurnInterrupted then (if dead then None else Some (fst st, t # snd st))
      else if ev_Type e \<in> {Transcript, ToolStarted, TurnCompleted} then (if dead then None else Some st)
      else Some st)"

fun track :: "u64 \<times> string list \<Rightarrow> event list \<Rightarrow> (u64 \<times> string list) option" where
  "track st [] = Some st"
| "track st (e # es) = (case track_step st e of None \<Rightarrow> None | Some st' \<Rightarrow> track st' es)"

definition stream_ok :: "event list \<Rightarrow> bool" where
  "stream_ok es \<longleftrightarrow> track (0, []) es \<noteq> None"

section \<open>The mapper keeps to it\<close>

definition pos :: "mapper \<Rightarrow> u64 \<times> string list" where
  "pos m = (mp_sequence m, mp_cancelled m)"

text \<open>A turn that was interrupted and responds again has sent no audio.\<close>
definition quiet :: "mapper \<Rightarrow> bool" where
  "quiet m \<longleftrightarrow> (mp_TurnID m \<in> set (mp_cancelled m) \<and> mp_State m = Responding \<longrightarrow> mp_sequence m = 0)"

definition tracks :: "mapper \<Rightarrow> mapper \<times> event list \<Rightarrow> bool" where
  "tracks m r \<longleftrightarrow> track (pos m) (snd r) = Some (pos (fst r)) \<and> quiet (fst r)"

definition tracks_result :: "mapper \<Rightarrow> mapper \<times> (error + event list) \<Rightarrow> bool" where
  "tracks_result m r \<longleftrightarrow> (case snd r of Inl _ \<Rightarrow> True | Inr es \<Rightarrow> tracks m (fst r, es))"

lemma track_append: "track st (es @ fs) = (case track st es of None \<Rightarrow> None | Some st' \<Rightarrow> track st' fs)"
  by (induction es arbitrary: st) (auto split: option.split)

lemma turn_event_simps [simp]:
  "ev_Type (turn_event t i) = t" "ev_TurnID (turn_event t i) = i"
  "ev_Type (mapper_state m) = SessionState"
  by (simp_all add: turn_event_def mapper_state_def)

lemma tracks_result_Inr [simp]: "tracks_result m (apsnd Inr r) = tracks m r"
  by (simp add: tracks_result_def)

lemma tracks_quiet_update:
  "quiet m \<Longrightarrow> tracks_result m (m, Inr [])"
  by (simp add: tracks_result_def tracks_def)

lemma tracks_InterruptTurn: "quiet m \<Longrightarrow> tracks m (InterruptTurn m)"
  by (auto simp: InterruptTurn_def tracks_def pos_def quiet_def Let_def track_step_def List.insert_def)

lemma tracks_complete_turn:
  "mp_TurnID m \<notin> set (mp_cancelled m) \<Longrightarrow> tracks m (complete_turn now m)"
  by (simp add: complete_turn_def tracks_def pos_def quiet_def Let_def track_step_def)

lemma tracks_StartAssistant: "tracks m (StartAssistant now ident m)"
  by (simp add: StartAssistant_def tracks_def pos_def quiet_def Let_def track_step_def)

lemma InterruptTurn_state: "mp_State (fst (InterruptTurn m)) = Responding \<longrightarrow> mp_TurnID m = [] \<or> mp_TurnID m \<in> set (mp_cancelled m)"
  by (simp add: InterruptTurn_def Let_def)

lemma tracks_interrupting:
  "quiet m \<Longrightarrow> tracks m (if mp_State m = Responding then InterruptTurn m else (m, []))"
  by (simp add: tracks_InterruptTurn) (simp add: tracks_def)

lemma tracks_StartInput:
  assumes "quiet m"
  shows "tracks m (StartInput now ident m)"
proof -
  obtain m1 es where r: "(if mp_State m = Responding then InterruptTurn m else (m, [])) = (m1, es)"
    by fastforce
  have "track (pos m) es = Some (pos m1)"
    using tracks_interrupting [OF assms] r by (simp add: tracks_def)
  then show ?thesis
    by (simp add: StartInput_def r tracks_def track_append Let_def track_step_def) (simp add: pos_def quiet_def)
qed

lemma tracks_map_user_start:
  assumes "quiet m"
  shows "tracks_result m (map_user_start now fresh e m)"
proof -
  let ?m = "m\<lparr>mp_waitingUser := False\<rparr>"
  obtain m1 es where r: "(if mp_State ?m = Responding then InterruptTurn ?m else (?m, [])) = (m1, es)"
    by fastforce
  have "quiet ?m" using assms by (simp add: quiet_def)
  then have "track (pos m) es = Some (pos m1)"
    using tracks_interrupting [of ?m] r by (simp add: tracks_def pos_def)
  then show ?thesis
    using r
    by (simp add: map_user_start_def Let_def tracks_result_def tracks_def track_append track_step_def)
      (simp add: pos_def quiet_def)
qed

lemma tracks_map_start:
  "quiet m \<Longrightarrow> tracks_result m (map_start now fresh e m)"
  unfolding map_start_def
  by (auto simp: tracks_map_user_start Let_def)
    (auto simp: tracks_result_def tracks_def pos_def quiet_def track_step_def)

lemma tracks_map_audio:
  assumes "quiet m" "nc_turn c = mp_TurnID m" "nc_turn c \<notin> set (mp_cancelled m)"
  shows "tracks_result m (map_audio now e c m)"
  using assms
  by (auto simp: map_audio_def Let_def tracks_result_def tracks_def pos_def quiet_def track_step_def
      split: option.split)

lemma tracks_map_text:
  assumes "quiet m" "nc_turn c \<notin> set (mp_cancelled m)"
  shows "tracks_result m (map_text e c m)"
  using assms by (auto simp: map_text_def tracks_result_def tracks_def pos_def quiet_def track_step_def)

lemma tracks_map_tool:
  assumes "quiet m" "nc_turn c \<notin> set (mp_cancelled m)"
  shows "tracks_result m (map_tool e c m)"
  using assms by (auto simp: map_tool_def tracks_result_def tracks_def pos_def quiet_def track_step_def)

lemma map_final_frame:
  "map_final c m = Inr m' \<Longrightarrow>
     mp_TurnID m' = mp_TurnID m \<and> mp_State m' = mp_State m \<and> mp_sequence m' = mp_sequence m
     \<and> mp_cancelled m' = mp_cancelled m \<and> mp_contents m' = mp_contents m"
  by (auto simp: map_final_def Let_def split: if_splits sum.splits)

lemma tracks_frame:
  assumes "mp_sequence m' = mp_sequence m" "mp_cancelled m' = mp_cancelled m"
  shows "tracks m r = tracks m' r"
  using assms by (simp add: tracks_def pos_def)

lemma tracks_map_end:
  assumes "quiet m0" "nc_turn c = mp_TurnID m0" "nc_turn c \<notin> set (mp_cancelled m0)"
  shows "tracks_result m0 (map_end now e c m0)"
proof -
  define m where "m = m0\<lparr>mp_contents := gdel (ne_ContentID e) (mp_contents m0)\<rparr>"
  have m: "quiet m" "mp_TurnID m \<notin> set (mp_cancelled m)" "\<And>r. tracks m0 r = tracks m r"
    using assms by (auto simp: m_def quiet_def tracks_def pos_def)
  show ?thesis
  proof (cases "ne_StopReason e = ''INTERRUPTED''")
    case True
    then show ?thesis
      by (simp add: map_end_def Let_def m_def [symmetric] m tracks_InterruptTurn)
  next
    case False
    define r where "r = (if nc_kind c = ''TEXT'' \<and> nc_stage c = ''FINAL'' then map_final c m else Inr m)"
    have end_eq: "map_end now e c m0 = (case r of
        Inl err \<Rightarrow> (m, Inl err)
      | Inr m1 \<Rightarrow>
          if nc_kind c = ''TEXT'' \<and> nc_stage c = ''FINAL'' \<and> nc_role c = ''ASSISTANT''
             \<and> ne_StopReason e = ''END_TURN'' \<and> mp_State m1 = Responding \<and> 0 < mp_sequence m1
          then apsnd Inr (complete_turn now m1)
          else if nc_kind c = ''AUDIO'' \<and> ne_StopReason e = ''END_TURN'' \<and> mp_State m1 = Responding
          then apsnd Inr (complete_turn now m1)
          else (m1, Inr []))"
      using False by (simp only: map_end_def Let_def m_def [symmetric] r_def if_False)
    show ?thesis
    proof (cases r)
      case (Inl err)
      then show ?thesis by (simp add: end_eq tracks_result_def)
    next
      case (Inr m1)
      have f: "mp_TurnID m1 = mp_TurnID m" "mp_State m1 = mp_State m" "mp_sequence m1 = mp_sequence m"
        "mp_cancelled m1 = mp_cancelled m"
        using Inr map_final_frame [of c m m1] by (auto simp: r_def split: if_splits)
      have "tracks m (complete_turn now m1)"
        using tracks_complete_turn [of m1 now] m(2) f tracks_frame [of m1 m] by simp
      moreover have "tracks m (m1, [])"
        using m(1) f by (simp add: tracks_def pos_def quiet_def)
      ultimately show ?thesis
        by (simp add: end_eq Inr m(3)) (simp add: tracks_result_def m(3))
    qed
  qed
qed

lemma tracks_MapEvent:
  assumes "quiet m"
  shows "tracks_result m (MapEvent now fresh e m)"
proof (cases "ne_Err e")
  case (Some err)
  then show ?thesis by (simp add: MapEvent_def tracks_result_def)
next
  case None
  consider "ne_Kind e = ''interrupted''"
    | "ne_Kind e \<noteq> ''interrupted''" "ne_Kind e = ''completionEnd'' \<and> ne_StopReason e = ''END_TURN''
        \<and> mp_State m = Responding \<and> 0 < mp_sequence m"
    | "ne_Kind e = ''contentStart''"
    | "ne_Kind e \<noteq> ''interrupted''" "ne_Kind e \<noteq> ''contentStart''"
      "\<not> (ne_Kind e = ''completionEnd'' \<and> ne_StopReason e = ''END_TURN''
        \<and> mp_State m = Responding \<and> 0 < mp_sequence m)" by blast
  then show ?thesis
  proof cases
    case 1
    then show ?thesis using None assms by (simp add: MapEvent_def tracks_InterruptTurn)
  next
    case 2
    then have "mp_TurnID m \<notin> set (mp_cancelled m)" using assms by (auto simp: quiet_def)
    then show ?thesis using 2 None by (simp add: MapEvent_def tracks_complete_turn)
  next
    case 3
    then show ?thesis using None assms by (simp add: MapEvent_def tracks_map_start)
  next
    case 4
    show ?thesis
    proof (cases "gget (mp_contents m) (ne_ContentID e)")
      case (Some c)
      show ?thesis
      proof (cases "nc_turn c \<in> set (mp_cancelled m) \<or> nc_turn c \<noteq> mp_TurnID m")
        case True
        then show ?thesis using 4 None Some assms
          by (simp only: MapEvent_def option.case if_False if_True tracks_quiet_update)
      next
        case False
        then have "mp_TurnID m \<notin> set (mp_cancelled m)" by auto
        then have "tracks m (complete_turn now m)" by (rule tracks_complete_turn)
        then show ?thesis using 4 None Some assms False
          by (simp add: MapEvent_def tracks_map_text tracks_map_audio tracks_map_tool tracks_map_end
              tracks_quiet_update)
      qed
    qed (use 4 None assms in \<open>simp only: MapEvent_def option.case if_False tracks_quiet_update\<close>)
  qed
qed

lemma tracks_call: "quiet m \<Longrightarrow> tracks_result m (mapper_call m x)"
  by (cases x) (simp_all add: tracks_StartAssistant tracks_StartInput tracks_InterruptTurn tracks_MapEvent,
      simp_all add: QueueInput_def CommitInput_def tracks_result_def tracks_def pos_def quiet_def)

lemma track_outputs: "quiet m \<Longrightarrow> track (pos m) (mapper_outputs m xs) \<noteq> None"
proof (induction xs arbitrary: m)
  case (Cons x xs)
  obtain m' r where c: "mapper_call m x = (m', r)" by fastforce
  then show ?case
    using tracks_call [OF Cons.prems, of x] Cons.IH [of m']
    by (cases r) (simp_all add: tracks_result_def tracks_def track_append)
qed simp

subsection \<open>Nothing is said but of the turn that was announced\<close>

text \<open>
  A second reader keeps the turn and the state that were announced last. Audio goes out and a turn
  completes only while that turn is announced as responding, it is interrupted only while it is not
  idle, and transcripts and tool calls are of the announced turn. A turn that was completed or
  interrupted is idle for the reader until another state is announced.
\<close>
definition announce_step :: "string \<times> string \<Rightarrow> event \<Rightarrow> (string \<times> string) option" where
  "announce_step st e =
     (let t = ev_TurnID e in
      if ev_Type e = SessionState then Some (t, ev_State e)
      else if ev_Type e = AudioOutput then (if st = (t, Responding) then Some st else None)
      else if ev_Type e = TurnCompleted then (if st = (t, Responding) then Some (t, Idle) else None)
      else if ev_Type e = TurnInterrupted then (if fst st = t \<and> snd st \<noteq> Idle then Some (t, Idle) else None)
      else if ev_Type e \<in> {Transcript, ToolStarted} then (if fst st = t then Some st else None)
      else Some st)"

fun announce :: "string \<times> string \<Rightarrow> event list \<Rightarrow> (string \<times> string) option" where
  "announce st [] = Some st"
| "announce st (e # es) = (case announce_step st e of None \<Rightarrow> None | Some st' \<Rightarrow> announce st' es)"

definition announced_ok :: "event list \<Rightarrow> bool" where
  "announced_ok es \<longleftrightarrow> announce ([], Idle) es \<noteq> None"

definition turn_state :: "mapper \<Rightarrow> string \<times> string" where
  "turn_state m = (mp_TurnID m, mp_State m)"

definition announces :: "mapper \<Rightarrow> mapper \<times> event list \<Rightarrow> bool" where
  "announces m r \<longleftrightarrow> announce (turn_state m) (snd r) = Some (turn_state (fst r))"

definition announces_result :: "mapper \<Rightarrow> mapper \<times> (error + event list) \<Rightarrow> bool" where
  "announces_result m r \<longleftrightarrow> (case snd r of Inl _ \<Rightarrow> True | Inr es \<Rightarrow> announces m (fst r, es))"

lemma announce_append:
  "announce st (es @ fs) = (case announce st es of None \<Rightarrow> None | Some st' \<Rightarrow> announce st' fs)"
  by (induction es arbitrary: st) (auto split: option.split)

lemmas announce_defs = announces_result_def announces_def turn_state_def announce_step_def turn_event_def mapper_state_def

lemma announces_Inr [simp]: "announces_result m (apsnd Inr r) = announces m r"
  by (simp add: announces_result_def)

lemma announces_nothing: "turn_state m' = turn_state m \<Longrightarrow> announces_result m (m', Inr [])"
  by (simp add: announces_result_def announces_def)

lemma announces_InterruptTurn: "announces m (InterruptTurn m)"
  by (simp add: InterruptTurn_def announce_defs Let_def)

lemma announces_complete: "mp_State m = Responding \<Longrightarrow> announces m (complete_turn now m)"
  by (simp add: complete_turn_def announce_defs Let_def)

lemma announces_StartAssistant: "announces m (StartAssistant now ident m)"
  by (simp add: StartAssistant_def announce_defs Let_def)

lemma announces_interrupting: "announces m (if mp_State m = Responding then InterruptTurn m else (m, []))"
  by (simp add: announces_InterruptTurn) (simp add: announces_def)

lemma announces_StartInput: "announces m (StartInput now ident m)"
proof -
  obtain m1 es where r: "(if mp_State m = Responding then InterruptTurn m else (m, [])) = (m1, es)"
    by fastforce
  then show ?thesis
    using announces_interrupting [of m] by (simp add: StartInput_def r announces_def announce_append Let_def) (simp add: announce_defs)
qed

lemma announces_map_user_start: "announces_result m (map_user_start now fresh e m)"
proof -
  let ?m = "m\<lparr>mp_waitingUser := False\<rparr>"
  obtain m1 es where r: "(if mp_State ?m = Responding then InterruptTurn ?m else (?m, [])) = (m1, es)"
    by fastforce
  have "announce (turn_state m) es = Some (turn_state m1)"
    using announces_interrupting [of ?m] r by (simp add: announces_def turn_state_def)
  then show ?thesis
    using r by (simp add: map_user_start_def Let_def announces_result_def announces_def announce_append) (simp add: announce_defs)
qed

lemma announces_map_start: "announces_result m (map_start now fresh e m)"
  unfolding map_start_def by (auto simp: announces_map_user_start Let_def) (auto simp: announce_defs)

lemma announces_content:
  assumes "nc_turn c = mp_TurnID m"
  shows "announces_result m (map_audio now e c m)" "announces_result m (map_text e c m)" "announces_result m (map_tool e c m)"
  using assms by (auto simp: map_audio_def map_text_def map_tool_def Let_def announce_defs split: option.split)

lemma announces_map_end: "announces_result m0 (map_end now e c m0)"
proof -
  define m where "m = m0\<lparr>mp_contents := gdel (ne_ContentID e) (mp_contents m0)\<rparr>"
  have m: "announces m0 r = announces m r" "turn_state m = turn_state m0" for r
    by (simp_all add: m_def announces_def turn_state_def)
  define r where "r = (if nc_kind c = ''TEXT'' \<and> nc_stage c = ''FINAL'' then map_final c m else Inr m)"
  have end_eq: "map_end now e c m0 = (if ne_StopReason e = ''INTERRUPTED'' then apsnd Inr (InterruptTurn m) else (case r of
        Inl err \<Rightarrow> (m, Inl err)
      | Inr m1 \<Rightarrow>
          if nc_kind c = ''TEXT'' \<and> nc_stage c = ''FINAL'' \<and> nc_role c = ''ASSISTANT''
             \<and> ne_StopReason e = ''END_TURN'' \<and> mp_State m1 = Responding \<and> 0 < mp_sequence m1
          then apsnd Inr (complete_turn now m1)
          else if nc_kind c = ''AUDIO'' \<and> ne_StopReason e = ''END_TURN'' \<and> mp_State m1 = Responding
          then apsnd Inr (complete_turn now m1)
          else (m1, Inr [])))"
    by (simp only: map_end_def Let_def m_def [symmetric] r_def)
  show ?thesis
  proof (cases r)
    case (Inl err)
    then show ?thesis by (simp add: end_eq m announces_InterruptTurn) (simp add: announces_result_def)
  next
    case (Inr m1)
    have f: "turn_state m1 = turn_state m"
      using Inr map_final_frame [of c m m1] by (auto simp: r_def turn_state_def split: if_splits)
    have "announces m (complete_turn now m1)" if "mp_State m1 = Responding"
      using announces_complete [OF that, of now] f by (simp add: announces_def)
    moreover have "announces_result m0 (m1, Inr [])" by (rule announces_nothing) (simp add: f m(2))
    ultimately show ?thesis by (simp add: end_eq Inr m(1) announces_InterruptTurn)
  qed
qed

lemma announces_MapEvent: "announces_result m (MapEvent now fresh e m)"
proof (cases "ne_Err e")
  case (Some err)
  then show ?thesis by (simp add: MapEvent_def announces_result_def)
next
  case None
  then show ?thesis
    by (auto simp: MapEvent_def announces_InterruptTurn announces_complete announces_map_start announces_content announces_map_end
        announces_nothing split: option.split)
qed

lemma announces_call: "announces_result m (mapper_call m x)"
  by (cases x) (simp_all add: announces_StartAssistant announces_StartInput announces_InterruptTurn announces_MapEvent,
      simp_all add: QueueInput_def CommitInput_def announces_nothing turn_state_def)

lemma announce_outputs: "announce (turn_state m) (mapper_outputs m xs) \<noteq> None"
proof (induction xs arbitrary: m)
  case (Cons x xs)
  obtain m' r where c: "mapper_call m x = (m', r)" by fastforce
  then show ?case
    using announces_call [of m x] Cons.IH [of m']
    by (cases r) (simp_all add: announces_result_def announces_def announce_append)
qed simp

text \<open>
  C11. Whatever the provider sends and the session does, the events that go out number the audio
  of each started turn 1, 2, 3 without gaps, and a turn is interrupted at most once and after that
  sends no audio, transcript, tool call or completion. What goes out is of the turn that was
  announced last; audio and completions only while it is announced as responding, so that a turn
  that was completed is heard and completed again only after it was announced to respond again.
\<close>
theorem mapper_stream_ok:
  "stream_ok (mapper_outputs (NewMapper hist) ops) \<and> announced_ok (mapper_outputs (NewMapper hist) ops)"
  using track_outputs [of "NewMapper hist" ops] announce_outputs [of "NewMapper hist" ops]
  by (simp add: stream_ok_def announced_ok_def NewMapper_def pos_def quiet_def turn_state_def)

section \<open>Bounds\<close>

definition history_ok :: "history_message list \<Rightarrow> bool" where
  "history_ok hs \<longleftrightarrow> length hs \<le> 32 \<and> even (length hs) \<and> historyBytes hs \<le> 65536"

text \<open>The invariant, for what is known of the history.\<close>
definition mapper_wf :: "(history_message list \<Rightarrow> bool) \<Rightarrow> mapper \<Rightarrow> bool" where
  "mapper_wf H m \<longleftrightarrow>
     H (mp_History m)
     \<and> mp_State m \<in> {Idle, Listening, Responding}
     \<and> (\<forall>k c. gget (mp_contents m) k = Some c \<longrightarrow> length (nc_text c) \<le> 8192)
     \<and> (\<forall>t. length (gstr (mp_users m) t) \<le> 8192)
     \<and> distinct (mp_answered m) \<and> distinct (mp_cancelled m)"

abbreviation mapper_inv :: "mapper \<Rightarrow> bool" where "mapper_inv \<equiv> mapper_wf history_ok"

text \<open>The same for a session that puts messages of its own into the history.\<close>
abbreviation mapper_safe :: "mapper \<Rightarrow> bool" where "mapper_safe \<equiv> mapper_wf (\<lambda>_. True)"

lemma mapper_inv_safe: "mapper_inv m \<Longrightarrow> mapper_safe m"
  by (simp add: mapper_wf_def)

lemma trim_history_ok: "even (length hs) \<Longrightarrow> \<exists>hs'. trim_history hs = Inr hs' \<and> history_ok hs'"
proof (induction hs rule: trim_history.induct)
  case (1 hs)
  show ?case
  proof (cases "length hs > 32 \<or> historyBytes hs > 65536")
    case True
    then have "hs \<noteq> []" by (auto simp: historyBytes_def)
    then have "\<not> length hs < 2" using 1(2) by (cases hs; cases "tl hs") auto
    then show ?thesis using 1 True by (simp add: trim_history.simps [of hs])
  next
    case False
    then show ?thesis using 1(2) by (simp add: trim_history.simps [of hs] history_ok_def)
  qed
qed

lemma mapper_wf_NewMapper: "H hist \<Longrightarrow> mapper_wf H (NewMapper hist)"
  by (simp add: mapper_wf_def NewMapper_def)

lemma inv_InterruptTurn [invariants]: "mapper_wf H m \<Longrightarrow> mapper_wf H (fst (InterruptTurn m))"
  by (simp add: InterruptTurn_def mapper_wf_def Let_def)

lemma inv_interrupting [invariants]:
  "mapper_wf H m \<Longrightarrow> mapper_wf H (fst (if mp_State m = Responding then InterruptTurn m else (m, [])))"
  by (simp add: inv_InterruptTurn)

lemma inv_complete_turn [invariants]: "mapper_wf H m \<Longrightarrow> mapper_wf H (fst (complete_turn now m))"
  by (simp add: complete_turn_def mapper_wf_def Let_def)

lemma inv_StartInput [invariants]:
  assumes "mapper_wf H m"
  shows "mapper_wf H (fst (StartInput now ident m))"
proof -
  obtain m1 es where r: "(if mp_State m = Responding then InterruptTurn m else (m, [])) = (m1, es)"
    by fastforce
  have "mapper_wf H m1" using inv_interrupting [OF assms] r by simp
  then show ?thesis by (simp add: StartInput_def r Let_def) (simp add: mapper_wf_def)
qed

lemma inv_map_user_start [invariants]:
  assumes "mapper_wf H m"
  shows "mapper_wf H (fst (map_user_start now fresh e m))"
proof -
  let ?m = "m\<lparr>mp_waitingUser := False\<rparr>"
  obtain m1 es where r: "(if mp_State ?m = Responding then InterruptTurn ?m else (?m, [])) = (m1, es)"
    by fastforce
  have "mapper_wf H ?m" using assms by (simp add: mapper_wf_def)
  then have "mapper_wf H m1" using inv_interrupting [where m = ?m] r by simp
  then show ?thesis
    using r by (simp add: map_user_start_def Let_def) (simp add: mapper_wf_def new_content_def)
qed

lemma inv_map_start [invariants]: "mapper_wf H m \<Longrightarrow> mapper_wf H (fst (map_start now fresh e m))"
  unfolding map_start_def
  by (simp add: inv_map_user_start Let_def) (simp add: mapper_wf_def new_content_def)

lemma inv_map_text [invariants]: "mapper_wf H m \<Longrightarrow> mapper_wf H (fst (map_text e c m))"
  by (simp add: map_text_def mapper_wf_def)

lemma inv_map_audio [invariants]: "mapper_wf H m \<Longrightarrow> mapper_wf H (fst (map_audio now e c m))"
  by (auto simp: map_audio_def Let_def mapper_wf_def split: option.split)

lemma inv_map_tool [invariants]: "mapper_wf H m \<Longrightarrow> mapper_wf H (fst (map_tool e c m))"
  by (simp add: map_tool_def)

text \<open>
  What the mapper keeps of the history when it adds a question and an answer of at most 8 KiB each.
\<close>
locale history_bound =
  fixes H :: "history_message list \<Rightarrow> bool"
  assumes trims: "H hs \<Longrightarrow> length (hm_Content u) \<le> 8192 \<Longrightarrow> length (hm_Content a) \<le> 8192
    \<Longrightarrow> \<exists>hs'. trim_history (hs @ [u, a]) = Inr hs' \<and> H hs'"
begin

lemma map_final_inv:
  assumes "mapper_wf H m" and "length (nc_text c) \<le> 8192"
  shows "case map_final c m of Inl err \<Rightarrow> err \<noteq> slice_panic | Inr m' \<Rightarrow> mapper_wf H m'"
proof -
  let ?hist = "mp_History m @ [\<lparr>hm_Role = ''USER'', hm_Content = gstr (mp_users m) (nc_turn c)\<rparr>,
               \<lparr>hm_Role = ''ASSISTANT'', hm_Content = nc_text c\<rparr>]"
  obtain hist where hist: "trim_history ?hist = Inr hist" "H hist"
  proof -
    have "\<exists>hs'. trim_history ?hist = Inr hs' \<and> H hs'"
      by (rule trims) (use assms in \<open>simp_all add: mapper_wf_def\<close>)
    then show ?thesis using that by blast
  qed
  show ?thesis
    unfolding map_final_def hist(1) Let_def
    using assms(1) hist(2) by (simp add: mapper_wf_def slice_panic_def)
qed

lemma inv_map_end:
  assumes "mapper_wf H m0" and "length (nc_text c) \<le> 8192"
  shows "mapper_wf H (fst (map_end now e c m0)) \<and> snd (map_end now e c m0) \<noteq> Inl slice_panic"
proof -
  define m where "m = m0\<lparr>mp_contents := gdel (ne_ContentID e) (mp_contents m0)\<rparr>"
  have m: "mapper_wf H m" using assms(1) by (simp add: m_def mapper_wf_def)
  show ?thesis
    using map_final_inv [OF m assms(2)] m
    unfolding map_end_def Let_def m_def [symmetric]
    by (cases "map_final c m") (simp_all add: inv_InterruptTurn inv_complete_turn)
qed

lemma MapEvent_inv:
  assumes "mapper_wf H m"
  shows "mapper_wf H (fst (MapEvent now fresh e m)) \<and>
    (snd (MapEvent now fresh e m) = Inl slice_panic \<longrightarrow> ne_Err e = Some slice_panic)"
proof (cases "ne_Err e")
  case (Some err)
  then show ?thesis using assms by (simp add: MapEvent_def)
next
  case None
  define P :: "mapper \<times> (error + event list) \<Rightarrow> bool" where
    "P r \<longleftrightarrow> mapper_wf H (fst r) \<and> snd r \<noteq> Inl slice_panic" for r
  have "P (map_start now fresh e m)"
    using inv_map_start [OF assms, of now fresh e]
    by (simp add: P_def) (simp add: map_start_def map_user_start_def Let_def slice_panic_def split: prod.split)
  moreover have "P (map_text e c m)" "P (map_tool e c m)" for c
    using inv_map_text [OF assms] inv_map_tool [OF assms]
    by (simp_all add: P_def) (simp_all add: map_text_def map_tool_def slice_panic_def)
  moreover have "P (map_audio now e c m)" for c
    using inv_map_audio [OF assms, of now e c]
    by (simp add: P_def) (simp add: map_audio_def slice_panic_def Let_def split: option.split)
  moreover have "P (map_end now e c m)" if "gget (mp_contents m) (ne_ContentID e) = Some c" for c
    unfolding P_def using that assms by (intro inv_map_end) (auto simp: mapper_wf_def)
  moreover have "P (apsnd Inr (InterruptTurn m))" "P (apsnd Inr (complete_turn now m))" "P (m, Inr [])"
    using inv_InterruptTurn [OF assms] inv_complete_turn [OF assms] assms by (simp_all add: P_def)
  ultimately have "P (MapEvent now fresh e m)"
    by (simp add: MapEvent_def None split: option.split)
  then show ?thesis by (simp add: P_def)
qed

lemma inv_mapper_call: "mapper_wf H m \<Longrightarrow> mapper_wf H (fst (mapper_call m x))"
  by (cases x) (simp_all add: inv_StartInput inv_InterruptTurn MapEvent_inv,
      simp_all add: StartAssistant_def QueueInput_def CommitInput_def mapper_wf_def Let_def)

end

interpretation bounded_history: history_bound history_ok
  by unfold_locales (rule trim_history_ok, simp add: history_ok_def)

text \<open>The last answer fits, so that trimming stops before a single message is left to be cut.\<close>
lemma trim_history_any:
  "length (hm_Content u) \<le> 8192 \<Longrightarrow> length (hm_Content a) \<le> 8192 \<Longrightarrow> \<exists>hs'. trim_history (hs @ [u, a]) = Inr hs'"
proof (induction "hs @ [u, a]" arbitrary: hs rule: trim_history.induct)
  case 1
  show ?case
  proof (cases "length (hs @ [u, a]) > 32 \<or> historyBytes (hs @ [u, a]) > 65536")
    case True
    then have "hs \<noteq> []" using 1(2,3) by (auto simp: historyBytes_def)
    show ?thesis
    proof (cases "tl hs")
      case Nil
      then have "drop 2 (hs @ [u, a]) = [a]" using \<open>hs \<noteq> []\<close> by (cases hs) auto
      moreover have "trim_history [a] = Inr [a]" using 1(3) by (simp add: trim_history.simps historyBytes_def)
      ultimately show ?thesis using True by (simp add: trim_history.simps [of "hs @ [u, a]"])
    next
      case (Cons h hs')
      then have "drop 2 (hs @ [u, a]) = drop 2 hs @ [u, a]" by (cases hs) auto
      then show ?thesis using 1 True by (simp add: trim_history.simps [of "hs @ [u, a]"])
    qed
  qed (simp add: trim_history.simps [of "hs @ [u, a]"])
qed

interpretation any_history: history_bound "\<lambda>_. True"
  by unfold_locales (auto intro: trim_history_any)

interpretation mapper_machine: machine "\<lambda>m x. fst (mapper_call m x)" mapper_inv
  by unfold_locales (rule bounded_history.inv_mapper_call)

subsection \<open>Open contents\<close>

text \<open>Contents other than the user's are opened only while there is room.\<close>
definition provider_contents :: "mapper \<Rightarrow> (string \<times> nova_content) list" where
  "provider_contents m = filter (\<lambda>(k, c). nc_role c \<noteq> ''USER'') (mp_contents m)"

definition contents_ok :: "mapper \<Rightarrow> bool" where
  "contents_ok m \<longleftrightarrow> length (provider_contents m) \<le> 1024"

lemma filter_gput:
  "length (filter P (gput k v m)) \<le> length (filter P m) + 1"
  "\<not> P (k, v) \<Longrightarrow> length (filter P (gput k v m)) \<le> length (filter P m)"
  "gget m k = Some w \<Longrightarrow> P (k, v) = P (k, w) \<Longrightarrow> length (filter P (gput k v m)) = length (filter P m)"
  by (induction m) auto

lemma filter_gdel: "length (filter P (gdel k m)) \<le> length (filter P m)"
  by (induction m) auto

lemma contents_ok_same: "mp_contents m' = mp_contents m \<Longrightarrow> contents_ok m' = contents_ok m"
  by (simp add: contents_ok_def provider_contents_def)

lemma contents_same [simp]:
  "mp_contents (fst (InterruptTurn m)) = mp_contents m" "mp_contents (fst (complete_turn now m)) = mp_contents m"
  "mp_contents (fst (map_audio now e c m)) = mp_contents m" "mp_contents (fst (map_tool e c m)) = mp_contents m"
  "mp_contents (fst (StartAssistant now ident m)) = mp_contents m" "mp_contents (QueueInput ident m) = mp_contents m"
  "mp_contents (CommitInput now m) = mp_contents m"
  by (simp_all add: InterruptTurn_def complete_turn_def map_audio_def map_tool_def StartAssistant_def QueueInput_def
      CommitInput_def Let_def split: option.split)

lemma contents_interrupting [simp]:
  "mp_contents (fst (if c then InterruptTurn m else (m, []))) = mp_contents m"
  by simp

lemma contents_StartInput [simp]: "mp_contents (fst (StartInput now ident m)) = mp_contents m"
  using contents_interrupting [of "mp_State m = Responding" m]
  by (cases "if mp_State m = Responding then InterruptTurn m else (m, [])") (simp add: StartInput_def Let_def)

lemma contents_map_user_start:
  assumes "contents_ok m" "ne_Role e = ''USER''"
  shows "contents_ok (fst (map_user_start now fresh e m))"
proof -
  let ?m = "m\<lparr>mp_waitingUser := False\<rparr>"
  obtain m1 es where r: "(if mp_State ?m = Responding then InterruptTurn ?m else (?m, [])) = (m1, es)"
    by fastforce
  then have same: "mp_contents m1 = mp_contents m"
    using contents_interrupting [of "mp_State ?m = Responding" ?m] by simp
  have "length (filter (\<lambda>(k, c). nc_role c \<noteq> ''USER'') (gput k (new_content m' e 0) (mp_contents m)))
      \<le> length (provider_contents m)" for k m'
    unfolding provider_contents_def by (rule filter_gput(2)) (simp add: new_content_def assms(2))
  then show ?thesis
    using r same assms(1) unfolding map_user_start_def Let_def
    by (simp add: contents_ok_def provider_contents_def) (meson le_trans)
qed

lemma contents_map_start: "contents_ok m \<Longrightarrow> contents_ok (fst (map_start now fresh e m))"
proof (cases "ne_Role e = ''USER''")
  case False
  assume ok: "contents_ok m"
  have "contents_ok (m\<lparr>mp_contents := gput k c (mp_contents m)\<rparr>)" if "length (mp_contents m) < 1024" for k c
  proof -
    have "length (filter (\<lambda>(k, c). nc_role c \<noteq> ''USER'') (mp_contents m)) < 1024"
      using that length_filter_le [of _ "mp_contents m"] by (rule le_less_trans [rotated])
    then show ?thesis
      using filter_gput(1) [of "\<lambda>(k, c). nc_role c \<noteq> ''USER''" k c "mp_contents m"]
      by (simp add: contents_ok_def provider_contents_def)
  qed
  moreover have "contents_ok (m'\<lparr>mp_State := st\<rparr>) = contents_ok m'" for m' st
    by (rule contents_ok_same) simp
  ultimately show ?thesis using False ok by (simp add: map_start_def Let_def)
qed (simp add: map_start_def contents_map_user_start)

lemma contents_map_text:
  assumes "contents_ok m" "gget (mp_contents m) (ne_ContentID e) = Some c"
  shows "contents_ok (fst (map_text e c m))"
  using assms filter_gput(3) [OF assms(2), of "\<lambda>(k, c). nc_role c \<noteq> ''USER''" "c\<lparr>nc_text := nc_text c @ ne_Text e\<rparr>"]
  by (simp add: map_text_def contents_ok_def provider_contents_def)

lemma contents_map_end: "contents_ok m \<Longrightarrow> contents_ok (fst (map_end now e c m))"
proof -
  assume ok: "contents_ok m"
  define m' where "m' = m\<lparr>mp_contents := gdel (ne_ContentID e) (mp_contents m)\<rparr>"
  have m': "contents_ok m'"
    using ok filter_gdel [of "\<lambda>(k, c). nc_role c \<noteq> ''USER''" "ne_ContentID e" "mp_contents m"]
    by (simp add: m'_def contents_ok_def provider_contents_def)
  have same: "contents_ok (fst (InterruptTurn m1)) = contents_ok m1" "contents_ok (fst (complete_turn now m1)) = contents_ok m1" for m1
    by (rule contents_ok_same, simp)+
  have "contents_ok m1" if "map_final c m' = Inr m1" for m1
    using m' map_final_frame [OF that] contents_ok_same by blast
  then show ?thesis
    unfolding map_end_def Let_def m'_def [symmetric]
    by (cases "map_final c m'") (simp_all add: m' same)
qed

lemma contents_MapEvent: "contents_ok m \<Longrightarrow> contents_ok (fst (MapEvent now fresh e m))"
proof -
  assume ok: "contents_ok m"
  have same: "contents_ok (fst (InterruptTurn m)) = contents_ok m" "contents_ok (fst (complete_turn now m)) = contents_ok m"
    "contents_ok (fst (map_audio now e c m)) = contents_ok m" "contents_ok (fst (map_tool e c m)) = contents_ok m" for c
    by (rule contents_ok_same, simp)+
  show ?thesis
    using ok by (simp add: MapEvent_def same contents_map_start contents_map_text contents_map_end split: option.split)
qed

lemma contents_call: "contents_ok m \<Longrightarrow> contents_ok (fst (mapper_call m x))"
  by (cases x) (auto simp: contents_MapEvent intro: contents_ok_same [THEN iffD2])

interpretation contents_machine: machine "\<lambda>m x. fst (mapper_call m x)" contents_ok
  by unfold_locales (rule contents_call)

text \<open>
  The user's contents pass by the limit: the provider can open any number of them in one turn.
\<close>
definition user_content :: "nat \<Rightarrow> mapper_op" where
  "user_content i = MMap 0 ''t'' (nova0\<lparr>ne_Kind := ''contentStart'', ne_Role := ''USER'', ne_ContentID := replicate i CHR ''c''\<rparr>)"

lemma user_contents_run:
  assumes "m = foldl (\<lambda>m x. fst (mapper_call m x)) (NewMapper []) (map user_content [0..<n])"
  shows "map fst (mp_contents m) = map (\<lambda>i. replicate i CHR ''c'') [0..<n] \<and> mp_answered m = [] \<and> mp_cancelled m = []
    \<and> mp_State m \<noteq> Responding \<and> mp_nextInput m = []"
  using assms
proof (induction n arbitrary: m)
  case (Suc n)
  define m0 where "m0 = foldl (\<lambda>m x. fst (mapper_call m x)) (NewMapper []) (map user_content [0..<n])"
  note IH = Suc.IH [OF m0_def]
  have new: "gget (mp_contents m0) (replicate n CHR ''c'') = None"
  proof -
    have "replicate n CHR ''c'' \<notin> set (map fst (mp_contents m0))" using IH by (auto simp: replicate_eq_replicate)
    then show ?thesis by (simp add: map_of_eq_None_iff)
  qed
  have put: "gput k v xs = xs @ [(k, v)]" if "gget xs k = None" for k and v :: nova_content and xs
    using that by (induction xs) (auto split: if_splits)
  have "m = fst (mapper_call m0 (user_content n))" using Suc.prems by (simp add: m0_def)
  then show ?case
    using IH new by (simp add: user_content_def MapEvent_def nova0_def map_start_def map_user_start_def put Let_def)
qed (simp add: NewMapper_def)

theorem user_contents_unbounded:
  "length (mp_contents (foldl (\<lambda>m x. fst (mapper_call m x)) (NewMapper []) (map user_content [0..<n]))) = n"
  using user_contents_run [OF refl, of n, THEN conjunct1, THEN arg_cong [of _ _ length]] by simp

subsection \<open>The limits\<close>

text \<open>
  C39. What a session keeps stays within the limits of the code, and mapping an event never panics:
  from a history within its limits, after any operations the history holds at most 32 messages and 64 KiB in whole question
  and answer pairs, every transcript held at most 8 KiB, at most 1024 contents that are not the
  user's are open, and the next event does not slice the history out of range. The user's contents
  are not counted by the code; \<open>user_contents_unbounded\<close> shows that their number has no limit.
\<close>
theorem mapper_bounded:
  assumes "history_ok hist"
  shows "mapper_inv (foldl (\<lambda>m x. fst (mapper_call m x)) (NewMapper hist) ops)
    \<and> contents_ok (foldl (\<lambda>m x. fst (mapper_call m x)) (NewMapper hist) ops)
    \<and> snd (MapEvent now fresh (e\<lparr>ne_Err := None\<rparr>) (foldl (\<lambda>m x. fst (mapper_call m x)) (NewMapper hist) ops))
      \<noteq> Inl slice_panic"
proof -
  have "mapper_inv (foldl (\<lambda>m x. fst (mapper_call m x)) (NewMapper hist) ops)"
    by (rule mapper_machine.run_inv) (rule mapper_wf_NewMapper [where H = history_ok, OF assms])
  moreover have "contents_ok (foldl (\<lambda>m x. fst (mapper_call m x)) (NewMapper hist) ops)"
    by (rule contents_machine.run_inv) (simp add: contents_ok_def provider_contents_def NewMapper_def)
  ultimately show ?thesis using bounded_history.MapEvent_inv [of _ now fresh "e\<lparr>ne_Err := None\<rparr>"] by auto
qed

theorem mapper_bounded_witness:
  "mapper_inv (foldl (\<lambda>m x. fst (mapper_call m x))
     (NewMapper [\<lparr>hm_Role = ''USER'', hm_Content = ''oi''\<rparr>, \<lparr>hm_Role = ''ASSISTANT'', hm_Content = ''sim''\<rparr>])
     [MStartInput 0 ''a'', MMap 1 ''b'' nova0])"
  using mapper_bounded [of "[\<lparr>hm_Role = ''USER'', hm_Content = ''oi''\<rparr>, \<lparr>hm_Role = ''ASSISTANT'', hm_Content = ''sim''\<rparr>]"
      "[MStartInput 0 ''a'', MMap 1 ''b'' nova0]" 0 "[]" nova0]
  by (simp add: history_ok_def historyBytes_def)

end
