(* ===== verification/Bridge.thy ===== *)
theory Bridge
  imports Voice_Wire Agent_Wire Realtime_Mapper
begin

text \<open>
  The translations between the voice protocol and the agent session protocol: in the gateway
  (\<open>agentCommandFromVoice\<close>, \<open>voiceEventFromAgent\<close> of
  \<open>apps/voice-gateway/internal/adapters/voice/agent_handler.go\<close>), in the assistant
  (\<open>voiceEventFromAgentCommand\<close>, \<open>agentEventFromVoice\<close> of
  \<open>apps/personal-assistant-agent/session/factory.go\<close>) and in the deterministic demo
  (\<open>internal/fake/fake_factory.go\<close>). The theorems compose the two ends: what a client sends is
  what the assistant's session receives, and what the session emits is what the client gets.
\<close>

section \<open>Commands\<close>

text \<open>\<open>event.Tool\<close> and \<open>Approved\<close> are dereferenced: nil is a panic.\<close>
definition nil_panic :: error where "nil_panic = ''panic: nil pointer dereference''"

definition agentCommandFromVoice :: "event \<Rightarrow> error + agent_command" where
  "agentCommandFromVoice e =
     (let c = zero_command\<lparr>ac_SessionID := ev_SessionID e, ac_TurnID := ev_TurnID e,
                           ac_Sequence := ev_Sequence e\<rparr> in
      if ev_Type e = AudioAppend then
        (case DecodeAudio (ev_Audio e) of
           Inl err \<Rightarrow> Inl err
         | Inr pcm \<Rightarrow> Inr (c\<lparr>ac_Type := InputAudio, ac_Audio := pcm\<rparr>))
      else if ev_Type e = TurnCommit then Inr (c\<lparr>ac_Type := InputCommit\<rparr>)
      else if ev_Type e = TurnCancel then Inr (c\<lparr>ac_Type := InputCancel\<rparr>)
      else if ev_Type e = ToolConfirm then
        (case ev_Tool e of
           None \<Rightarrow> Inl nil_panic
         | Some t \<Rightarrow> (case vt_Approved t of
             None \<Rightarrow> Inl nil_panic
           | Some ok \<Rightarrow> Inr (c\<lparr>ac_Type := InputConfirmation, ac_OperationID := vt_OperationID t,
                                ac_Approved := ok\<rparr>)))
      else if ev_Type e = SessionStop then Inr (c\<lparr>ac_Type := InputClose\<rparr>)
      else Inl ''session is already started'')"

definition voiceEventFromAgentCommand :: "agent_command \<Rightarrow> error + event" where
  "voiceEventFromAgentCommand c =
     (let e = zero_event\<lparr>ev_SessionID := ac_SessionID c, ev_TurnID := ac_TurnID c,
                         ev_Sequence := ac_Sequence c\<rparr> in
      if ac_Type c = InputAudio then
        (if length (ac_Audio c) = 0 then Inl ''empty agent audio''
         else Inr (e\<lparr>ev_Type := AudioAppend, ev_SampleRate := InputSampleRate,
                     ev_Audio := b64_encode (ac_Audio c)\<rparr>))
      else if ac_Type c = InputCommit then Inr (e\<lparr>ev_Type := TurnCommit\<rparr>)
      else if ac_Type c = InputCancel then Inr (e\<lparr>ev_Type := TurnCancel\<rparr>)
      else if ac_Type c = InputConfirmation then
        Inr (e\<lparr>ev_Type := ToolConfirm, ev_Tool := Some (zero_tool\<lparr>vt_OperationID := ac_OperationID c,
               vt_Approved := Some (ac_Approved c)\<rparr>)\<rparr>)
      else if ac_Type c = InputClose then Inr (e\<lparr>ev_Type := SessionStop\<rparr>)
      else Inl (''unsupported agent command '' @ q_text (ac_Type c)))"

definition fakeVoiceCommand :: "agent_command \<Rightarrow> error + event" where
  "fakeVoiceCommand c =
     (let e = zero_event\<lparr>ev_SessionID := ac_SessionID c, ev_TurnID := ac_TurnID c,
                         ev_Sequence := ac_Sequence c\<rparr> in
      if ac_Type c = InputAudio then
        (if length (ac_Audio c) = 0 then Inl ''empty fake audio''
         else Inr (e\<lparr>ev_Type := AudioAppend, ev_SampleRate := InputSampleRate,
                     ev_Audio := b64_encode (ac_Audio c)\<rparr>))
      else if ac_Type c = InputCommit then Inr (e\<lparr>ev_Type := TurnCommit\<rparr>)
      else if ac_Type c = InputCancel then Inr (e\<lparr>ev_Type := TurnCancel\<rparr>)
      else if ac_Type c = InputClose then Inr (e\<lparr>ev_Type := SessionStop\<rparr>)
      else if ac_Type c = InputConfirmation then Inl ''fake agent has no tools''
      else Inl (''unsupported fake agent command '' @ q_text (ac_Type c)))"

section \<open>Events\<close>

definition agent_metrics_of :: "metrics \<Rightarrow> agent_metrics" where
  "agent_metrics_of m = \<lparr>am_FirstAudioMS = m_FirstAudioMS m, am_DurationMS = m_DurationMS m,
     am_InterruptionMS = m_InterruptionMS m\<rparr>"

definition voice_metrics_of :: "agent_metrics \<Rightarrow> metrics" where
  "voice_metrics_of m = \<lparr>m_FirstAudioMS = am_FirstAudioMS m, m_DurationMS = am_DurationMS m,
     m_InterruptionMS = am_InterruptionMS m\<rparr>"

definition agent_tool_of :: "voice_tool \<Rightarrow> agent_tool" where
  "agent_tool_of t = \<lparr>at_OperationID = vt_OperationID t, at_Name = vt_Name t,
     at_Arguments = vt_Arguments t, at_Result = vt_Result t\<rparr>"

definition voice_tool_of :: "agent_tool \<Rightarrow> voice_tool" where
  "voice_tool_of t = \<lparr>vt_OperationID = at_OperationID t, vt_Name = at_Name t,
     vt_Arguments = at_Arguments t, vt_Result = at_Result t, vt_Approved = None\<rparr>"

text \<open>The event types the two protocols share under different names.\<close>
definition agent_types :: "(string \<times> string) list" where
  "agent_types =
     [(SessionReady, AgentSessionReady),
      (SessionState, AgentSessionState),
      (SessionRenewed, AgentSessionRenewed),
      (SessionStopped, AgentSessionClosed),
      (AudioOutput, OutputAudio),
      (Transcript, OutputTranscript),
      (TurnStarted, AgentTurnStarted),
      (TurnCompleted, AgentTurnCompleted),
      (TurnInterrupted, AgentTurnInterrupted),
      (ToolStarted, AgentToolStarted),
      (ToolResult, AgentToolResult),
      (ToolConfirmation, AgentToolConfirmation),
      (ErrorEvent, AgentError)]"

definition agent_type :: "string \<Rightarrow> string option" where
  "agent_type t = map_of agent_types t"

definition agentEventFromVoice :: "event \<Rightarrow> error + agent_event" where
  "agentEventFromVoice e =
     (case agent_type (ev_Type e) of
        None \<Rightarrow> Inl (''unsupported agent event '' @ q_text (ev_Type e))
      | Some t \<Rightarrow>
          (case (if ev_Type e = AudioOutput then DecodeAudio (ev_Audio e) else Inr []) of
             Inl err \<Rightarrow> Inl err
           | Inr pcm \<Rightarrow>
               Inr \<lparr>ae_UI = [], ae_Type = t, ae_TurnID = ev_TurnID e, ae_Sequence = ev_Sequence e,
                 ae_Provider = ev_Provider e, ae_State = ev_State e, ae_Audio = pcm,
                 ae_SampleRate = ev_SampleRate e, ae_Text = ev_Text e, ae_Role = ev_Role e,
                 ae_Stage = ev_Stage e, ae_Code = ev_Code e, ae_Message = ev_Message e,
                 ae_Metrics = map_option agent_metrics_of (ev_Metrics e),
                 ae_Tool = map_option agent_tool_of (ev_Tool e)\<rparr>))"

definition voice_types :: "(string \<times> string) list" where
  "voice_types =
     [(AgentSessionReady, SessionReady),
      (AgentSessionState, SessionState),
      (AgentSessionRenewed, SessionRenewed),
      (AgentSessionClosed, SessionStopped),
      (''ui.a2ui'', ''ui.a2ui''),
      (OutputAudio, AudioOutput),
      (OutputTranscript, Transcript),
      (AgentTurnStarted, TurnStarted),
      (AgentTurnCompleted, TurnCompleted),
      (AgentTurnInterrupted, TurnInterrupted),
      (AgentToolStarted, ToolStarted),
      (AgentToolResult, ToolResult),
      (AgentToolConfirmation, ToolConfirmation),
      (AgentError, ErrorEvent)]"

definition voice_type :: "string \<Rightarrow> string option" where
  "voice_type t = map_of voice_types t"

definition voiceEventFromAgent :: "agent_event \<Rightarrow> error + event" where
  "voiceEventFromAgent a =
     (case voice_type (ae_Type a) of
        None \<Rightarrow> Inl ''unsupported agent event''
      | Some t \<Rightarrow>
          if ae_Type a = OutputAudio \<and> length (ae_Audio a) = 0 then Inl ''empty agent audio''
          else Inr (zero_event\<lparr>ev_Type := t, ev_TurnID := ae_TurnID a, ev_Sequence := ae_Sequence a,
                 ev_Provider := ae_Provider a, ev_State := ae_State a,
                 ev_Audio := (if ae_Type a = OutputAudio then b64_encode (ae_Audio a) else []),
                 ev_UI := (if ae_Type a = ''ui.a2ui'' then ae_UI a else []),
                 ev_SampleRate := ae_SampleRate a, ev_Text := ae_Text a, ev_Role := ae_Role a,
                 ev_Stage := ae_Stage a, ev_Code := ae_Code a, ev_Message := ae_Message a,
                 ev_Metrics := map_option voice_metrics_of (ae_Metrics a),
                 ev_Tool := map_option voice_tool_of (ae_Tool a)\<rparr>))"

definition fake_types :: "(string \<times> string) list" where
  "fake_types =
     [(SessionReady, AgentSessionReady),
      (SessionState, AgentSessionState),
      (SessionStopped, AgentSessionClosed),
      (AudioOutput, OutputAudio),
      (Transcript, OutputTranscript),
      (TurnStarted, AgentTurnStarted),
      (TurnCompleted, AgentTurnCompleted),
      (TurnInterrupted, AgentTurnInterrupted),
      (ErrorEvent, AgentError)]"

definition fake_type :: "string \<Rightarrow> string option" where
  "fake_type t = map_of fake_types t"

definition fakeAgentEvent :: "event \<Rightarrow> error + agent_event" where
  "fakeAgentEvent e =
     (case fake_type (ev_Type e) of
        None \<Rightarrow> Inl (''unsupported fake agent event '' @ q_text (ev_Type e))
      | Some t \<Rightarrow>
          (case (if ev_Type e = AudioOutput then DecodeAudio (ev_Audio e) else Inr []) of
             Inl err \<Rightarrow> Inl err
           | Inr pcm \<Rightarrow>
               Inr \<lparr>ae_UI = [], ae_Type = t, ae_TurnID = ev_TurnID e, ae_Sequence = ev_Sequence e,
                 ae_Provider = ev_Provider e, ae_State = ev_State e, ae_Audio = pcm,
                 ae_SampleRate = ev_SampleRate e, ae_Text = ev_Text e, ae_Role = ev_Role e,
                 ae_Stage = ev_Stage e, ae_Code = ev_Code e, ae_Message = ev_Message e,
                 ae_Metrics = map_option agent_metrics_of (ev_Metrics e), ae_Tool = None\<rparr>))"

section \<open>From the client to the agent\<close>

definition command_message :: "string \<Rightarrow> agent_command \<Rightarrow> message" where
  "command_message proto c = zero_message\<lparr>mg_Protocol := proto, mg_Kind := SessionCommand,
     mg_Command := Some c\<rparr>"

definition client_session :: "client_msg \<Rightarrow> string" where
  "client_session m = (case m of
       CStart _ _ _ \<Rightarrow> [] | CAudio s _ _ _ \<Rightarrow> s | CCommit s _ \<Rightarrow> s | CCancel s _ \<Rightarrow> s | CStop s _ \<Rightarrow> s
     | CConfirm s _ _ _ \<Rightarrow> s)"

text \<open>
  What the agent protocol asks of a client message beyond the voice protocol: its turn or
  operation id starts with a letter or digit, and a stop names no turn.
\<close>
definition agent_accepts :: "client_msg \<Rightarrow> bool" where
  "agent_accepts m = (case m of
       CStart _ _ _ \<Rightarrow> False | CAudio _ t _ _ \<Rightarrow> is_alnum (hd t) | CCommit _ t \<Rightarrow> is_alnum (hd t)
     | CCancel _ t \<Rightarrow> is_alnum (hd t) | CStop _ t \<Rightarrow> t = [] | CConfirm _ _ oper _ \<Rightarrow> is_alnum (hd oper))"

text \<open>The event the assistant's session receives: unversioned, with the audio in canonical base64.\<close>
fun received :: "client_msg \<Rightarrow> event" where
  "received (CAudio sid turn seq audio) =
     (client_wire 0 (CAudio sid turn seq
        (case DecodeAudio audio of Inr pcm \<Rightarrow> b64_encode pcm | Inl _ \<Rightarrow> [])))"
| "received m = client_wire 0 m"

lemma ValidID_identifier: "ValidID s \<Longrightarrow> identifier_ok s \<longleftrightarrow> is_alnum (hd s)"
  by (auto simp: ValidID_iff identifier_ok_iff ident_char_def id_char_def is_alnum_def is_alpha_def
      is_lower_def is_upper_def is_digit_def)

text \<open>
  C35. A legal client message other than the start becomes exactly one agent command, and the
  assistant's session gets back the client's event, audio included. The remote session refuses
  the command exactly when an id starts with \<open>_\<close> or \<open>-\<close>, or a stop names a turn.
\<close>
theorem client_command_relayed:
  assumes "client_legal v m"
  shows "case agentCommandFromVoice (client_wire v m) of
      Inl err \<Rightarrow> (\<exists>a r p. m = CStart a r p) \<and> err = ''session is already started''
    | Inr c \<Rightarrow> voiceEventFromAgentCommand c = Inr (received m)
        \<and> (ValidateCommand (client_session m) (command_message proto c) = None \<longleftrightarrow> agent_accepts m)"
proof (cases m)
  case (CAudio sid turn seq audio)
  then obtain pcm where pcm: "DecodeAudio audio = Inr pcm" and ids: "ValidID turn" "seq \<noteq> 0"
    using assms by auto
  have "2 \<le> length pcm" "length pcm \<le> MaxAudioChunkBytes" "even (length pcm)"
    using DecodeAudio_length [OF pcm] by auto
  then have "pcm \<noteq> []" "length pcm \<le> MaxAudioBytes" "length pcm mod 2 = 0" by auto
  then show ?thesis using pcm ids
    by (simp add: CAudio agentCommandFromVoice_def voiceEventFromAgentCommand_def zero_event_def
        zero_command_def ValidateCommand_def command_error_def command_message_def zero_message_def
        client_session_def agent_accepts_def ValidID_identifier Let_def)
qed (use assms in \<open>simp_all add: agentCommandFromVoice_def voiceEventFromAgentCommand_def zero_event_def
    zero_command_def zero_tool_def ValidateCommand_def command_error_def command_message_def
    zero_message_def client_session_def agent_accepts_def ValidID_identifier Let_def\<close>)

theorem client_command_relayed_witness:
  "client_legal 1 (CConfirm ''s'' [] ''op-1'' True) \<and>
   (case agentCommandFromVoice (client_wire 1 (CConfirm ''s'' [] ''op-1'' True)) of
      Inl err \<Rightarrow> False | Inr c \<Rightarrow> voiceEventFromAgentCommand c = Inr (received (CConfirm ''s'' [] ''op-1'' True)))"
proof -
  have id: "ValidID ''s''" "ValidID ''op-1''"
    unfolding ValidID_iff by (simp_all add: id_char_def bval_Char)
  then have legal: "client_legal 1 (CConfirm ''s'' [] ''op-1'' True)" by (simp add: opt_id_def)
  show ?thesis
  proof (cases "agentCommandFromVoice (client_wire 1 (CConfirm ''s'' [] ''op-1'' True))")
    case (Inl err)
    then show ?thesis
      using client_command_relayed [OF legal, of ProtocolV2] by (simp only: sum.case) simp
  next
    case (Inr c)
    then show ?thesis
      using client_command_relayed [OF legal, of ProtocolV2] legal by (simp only: sum.case)
  qed
qed

section \<open>From the agent to the client\<close>

text \<open>The fields of an outgoing event that the agent protocol carries.\<close>
definition carried :: "event \<Rightarrow> event" where
  "carried e = e\<lparr>ev_AgentID := [], ev_UI := [], ev_Version := 0, ev_SessionID := [], ev_RequestID := [],
     ev_Audio := (if ev_Type e = AudioOutput
        then (case DecodeAudio (ev_Audio e) of Inr pcm \<Rightarrow> b64_encode pcm | Inl _ \<Rightarrow> []) else []),
     ev_Tool := map_option (\<lambda>t. t\<lparr>vt_Approved := None\<rparr>) (ev_Tool e)\<rparr>"

lemma voice_agent_type: "agent_type t = Some t' \<Longrightarrow> voice_type t' = Some t \<and> (t' = OutputAudio \<longleftrightarrow> t = AudioOutput) \<and> t' \<noteq> ''ui.a2ui''"
proof -
  assume "agent_type t = Some t'"
  then have "(t, t') \<in> set agent_types" unfolding agent_type_def by (rule map_of_SomeD)
  moreover have "list_all (\<lambda>(t, t'). voice_type t' = Some t \<and> (t' = OutputAudio \<longleftrightarrow> t = AudioOutput)
      \<and> t' \<noteq> ''ui.a2ui'') agent_types"
    by (simp add: agent_types_def voice_type_def voice_types_def)
  ultimately have "case (t, t') of (t, t') \<Rightarrow> voice_type t' = Some t
      \<and> (t' = OutputAudio \<longleftrightarrow> t = AudioOutput) \<and> t' \<noteq> ''ui.a2ui''"
    unfolding list_all_iff by (rule bspec [rotated])
  then show ?thesis unfolding prod.case .
qed

text \<open>
  Whatever the assistant's session emits and the agent protocol can carry reaches the client
  unchanged: the gateway translates the agent event back to the event that was emitted, with the
  same turn, sequence, text, metrics and tool, and the same audio.
\<close>
theorem agent_event_relayed:
  "case agentEventFromVoice e of
     Inl _ \<Rightarrow> agent_type (ev_Type e) = None \<or> (ev_Type e = AudioOutput \<and> (\<exists>err. DecodeAudio (ev_Audio e) = Inl err))
   | Inr a \<Rightarrow> voiceEventFromAgent a = Inr (carried e)"
proof (cases "agent_type (ev_Type e)")
  case None
  then show ?thesis by (simp add: agentEventFromVoice_def)
next
  case (Some t)
  note ty = voice_agent_type [OF Some]
  have metrics: "map_option voice_metrics_of (map_option agent_metrics_of x) = x" for x
    by (cases x) (simp_all add: voice_metrics_of_def agent_metrics_of_def)
  have tools: "map_option voice_tool_of (map_option agent_tool_of x)
      = map_option (\<lambda>t. t\<lparr>vt_Approved := None\<rparr>) x" for x
    by (cases x) (simp_all add: voice_tool_of_def agent_tool_of_def)
  show ?thesis
  proof (cases "ev_Type e = AudioOutput")
    case audio: True
    show ?thesis
    proof (cases "DecodeAudio (ev_Audio e)")
      case (Inl err)
      then show ?thesis using Some audio by (simp add: agentEventFromVoice_def)
    next
      case (Inr pcm)
      then have "pcm \<noteq> []" using DecodeAudio_length [OF Inr] by auto
      moreover have "voice_type OutputAudio = Some AudioOutput" by (simp add: voice_type_def voice_types_def)
      moreover have "t = OutputAudio" using ty audio by simp
      ultimately show ?thesis using Some audio Inr
        by (simp add: agentEventFromVoice_def voiceEventFromAgent_def carried_def zero_event_def
            metrics tools)
    qed
  next
    case False
    then show ?thesis using Some ty
      by (simp add: agentEventFromVoice_def voiceEventFromAgent_def carried_def zero_event_def
          metrics tools)
  qed
qed

text \<open>
  The mapper accepts up to 256 KiB of audio in one provider event, but the event it emits can
  only leave the session when it holds at most 32000 bytes: a larger one is refused by the
  translation, which ends the session.
\<close>
theorem large_audio_not_carried:
  assumes "pcm \<noteq> []" "even (length pcm)" "length pcm \<le> 262144" "mp_State m = Responding" "nc_rate c = 24000"
  shows "\<exists>m' e. map_audio now (nova0\<lparr>ne_Audio := b64_encode pcm\<rparr>) c m = (m', Inr [e])
    \<and> ((\<exists>a. agentEventFromVoice e = Inr a) \<longleftrightarrow> length pcm \<le> MaxAudioChunkBytes)"
proof -
  have mod: "length pcm mod 2 = 0" using assms(2) by auto
  have "(\<exists>p. DecodeAudio (b64_encode pcm) = Inr p) \<longleftrightarrow> length pcm \<le> MaxAudioChunkBytes"
    using DecodeAudio_encode [of pcm] assms(1,2) DecodeAudio_Inr [of "b64_encode pcm"] by auto
  then show ?thesis
    using assms mod
    by (cases "DecodeAudio (b64_encode pcm)")
      (simp_all add: map_audio_def nova0_def Let_def agentEventFromVoice_def agent_type_def agent_types_def)
qed

theorem large_audio_not_carried_witness:
  "\<exists>m' e. map_audio 0 (nova0\<lparr>ne_Audio := b64_encode [1, 2]\<rparr>)
      \<lparr>nc_turn = ''t'', nc_kind = ''AUDIO'', nc_role = ''ASSISTANT'', nc_stage = ''FINAL'', nc_text = [], nc_rate = 24000\<rparr>
      ((NewMapper [])\<lparr>mp_State := Responding\<rparr>) = (m', Inr [e])"
  using large_audio_not_carried [of "[1, 2]" "(NewMapper [])\<lparr>mp_State := Responding\<rparr>"
      "\<lparr>nc_turn = ''t'', nc_kind = ''AUDIO'', nc_role = ''ASSISTANT'', nc_stage = ''FINAL'', nc_text = [], nc_rate = 24000\<rparr>" 0]
  by (auto simp: NewMapper_def)

end
