(* ===== verification/Json_Text.thy ===== *)
theory Json_Text
  imports Go_Json
begin

text \<open>
  The encoder and the parser of \<open>Go_Json\<close> against each other: what \<open>json.Marshal\<close> writes of a
  value whose strings are valid UTF-8 is read back as that value, member by member and field by
  field. The components use it for the round trips of their wire formats.
\<close>

section \<open>UTF-8\<close>

text \<open>No byte of the string is taken alone for an error.\<close>
definition utf8 :: "string \<Rightarrow> bool" where
  "utf8 s \<longleftrightarrow> (\<forall>(r, b) \<in> set (pieces s). \<not> (r = rune_error \<and> length b = 1))"

lemma cont_byte_bounds: "cont_byte b \<Longrightarrow> 128 \<le> b \<and> b \<le> 191"
  by (simp add: cont_byte_def)

lemma second_ok_cont: "second_ok b0 b1 \<Longrightarrow> 128 \<le> b1 \<and> b1 \<le> 191"
  by (auto simp: second_ok_def cont_byte_def split: if_splits)

text \<open>The valid sequences.\<close>
lemma decode_rune_cases [consumes 1, case_names one two three four bad]:
  assumes "s \<noteq> []"
  obtains c t where "s = c # t" "bval c < 128" "decode_rune s = (bval c, 1)"
  | c d t where "s = c # d # t" "194 \<le> bval c" "bval c \<le> 223" "128 \<le> bval d" "bval d \<le> 191"
      "decode_rune s = ((bval c - 192) * 64 + (bval d - 128), 2)"
  | c d e t where "s = c # d # e # t" "224 \<le> bval c" "bval c \<le> 239" "second_ok (bval c) (bval d)"
      "128 \<le> bval e" "bval e \<le> 191"
      "decode_rune s = ((bval c - 224) * 4096 + (bval d - 128) * 64 + (bval e - 128), 3)"
  | c d e f t where "s = c # d # e # f # t" "240 \<le> bval c" "bval c \<le> 244" "second_ok (bval c) (bval d)"
      "128 \<le> bval e" "bval e \<le> 191" "128 \<le> bval f" "bval f \<le> 191"
      "decode_rune s = ((bval c - 240) * 262144 + (bval d - 128) * 4096 + (bval e - 128) * 64 + (bval f - 128), 4)"
  | c t where "s = c # t" "128 \<le> bval c" "decode_rune s = (rune_error, 1)"
proof -
  obtain c t where s: "s = c # t" using assms by (cases s) auto
  consider "bval c < 128" | "194 \<le> bval c" "bval c \<le> 223" | "224 \<le> bval c" "bval c \<le> 239"
    | "240 \<le> bval c" "bval c \<le> 244" | "128 \<le> bval c" "bval c < 194 \<or> 244 < bval c" by linarith
  then show thesis
  proof cases
    case 1
    then show thesis using that(1) s by simp
  next
    case 2
    show thesis
    proof (cases t)
      case (Cons d u)
      then show thesis using 2 s that(2) [of c d u] that(5) [of c t] cont_byte_bounds [of "bval d"]
        by (cases "cont_byte (bval d)") auto
    qed (use 2 s that(5) in auto)
  next
    case 3
    show thesis
    proof (cases "\<exists>d e u. t = d # e # u \<and> second_ok (bval c) (bval d) \<and> cont_byte (bval e)")
      case True
      then obtain d e u where "t = d # e # u" "second_ok (bval c) (bval d)" "cont_byte (bval e)" by blast
      then show thesis using 3 s that(3) [of c d e u] cont_byte_bounds [of "bval e"] by auto
    next
      case False
      then have "decode_rune s = (rune_error, 1)" using 3 s by (auto simp: Let_def split: list.split)
      then show thesis using 3 s that(5) by simp
    qed
  next
    case 4
    show thesis
    proof (cases "\<exists>d e f u. t = d # e # f # u \<and> second_ok (bval c) (bval d) \<and> cont_byte (bval e) \<and> cont_byte (bval f)")
      case True
      then obtain d e f u where "t = d # e # f # u" "second_ok (bval c) (bval d)" "cont_byte (bval e)" "cont_byte (bval f)"
        by blast
      then show thesis using 4 s that(4) [of c d e f u] cont_byte_bounds [of "bval e"] cont_byte_bounds [of "bval f"]
        by auto
    next
      case False
      then have "decode_rune s = (rune_error, 1)" using 4 s by (auto simp: Let_def split: list.split)
      then show thesis using 4 s that(5) by simp
    qed
  next
    case 5
    then have "decode_rune s = (rune_error, 1)" using s by auto
    then show thesis using 5 s that(5) by simp
  qed
qed

lemma bchr_eq: "bchr n = c \<longleftrightarrow> n mod 256 = bval c"
  by (metis bchr_bval bval_def bchr_def of_char_of)

declare decode_rune.simps [simp del]

lemma radix64:
  assumes "y < (64 :: nat)" "z < 64" "w < 64"
  shows "(x * 4096 + y * 64 + z) div 4096 = x" "(x * 4096 + y * 64 + z) div 64 mod 64 = y"
    "(x * 4096 + y * 64 + z) mod 64 = z"
    "(x * 262144 + y * 4096 + z * 64 + w) div 262144 = x" "(x * 262144 + y * 4096 + z * 64 + w) div 4096 mod 64 = y"
    "(x * 262144 + y * 4096 + z * 64 + w) div 64 mod 64 = z" "(x * 262144 + y * 4096 + z * 64 + w) mod 64 = w"
proof -
  have s: "(a * 64 + b) div 64 = a" "(a * 64 + b) mod 64 = b" if "b < 64" for a b :: nat
    using that by simp_all
  have d: "n div 4096 = n div 64 div 64" "n div 262144 = n div 64 div 64 div 64" for n :: nat
    by (simp_all flip: div_mult2_eq)
  have three: "x * 4096 + y * 64 + z = (x * 64 + y) * 64 + z" by simp
  have four: "x * 262144 + y * 4096 + z * 64 + w = ((x * 64 + y) * 64 + z) * 64 + w" by simp
  show "(x * 4096 + y * 64 + z) div 4096 = x" "(x * 4096 + y * 64 + z) div 64 mod 64 = y"
    "(x * 4096 + y * 64 + z) mod 64 = z"
    unfolding three d s [OF assms(2)] s [OF assms(1)] by (rule refl)+
  show "(x * 262144 + y * 4096 + z * 64 + w) div 262144 = x" "(x * 262144 + y * 4096 + z * 64 + w) div 4096 mod 64 = y"
    "(x * 262144 + y * 4096 + z * 64 + w) div 64 mod 64 = z" "(x * 262144 + y * 4096 + z * 64 + w) mod 64 = w"
    unfolding four d s [OF assms(3)] s [OF assms(2)] s [OF assms(1)] by (rule refl)+
qed

text \<open>Encoding a decoded code point gives the bytes it was decoded from.\<close>
lemma encode_decode_rune:
  assumes "decode_rune s = (r, n)" "s \<noteq> []" "\<not> (r = rune_error \<and> n = 1)"
  shows "encode_rune r = take n s"
  using assms(2)
proof (cases rule: decode_rune_cases)
  case (one c t)
  then have "r = bval c" "n = 1" using assms(1) by auto
  then show ?thesis using one by (simp add: encode_rune_def Let_def)
next
  case (two c d t)
  define x where "x = bval c - 192"
  define y where "y = bval d - 128"
  have xy: "bval c = 192 + x" "bval d = 128 + y" "2 \<le> x" "x < 32" "y < 64" "r = x * 64 + y" "n = 2"
    using two assms(1) by (auto simp: x_def y_def)
  then have "r div 64 = x" "r mod 64 = y" "128 \<le> r" "r < 2048" by auto
  then show ?thesis using xy by (simp add: encode_rune_def Let_def two(1) bchr_eq)
next
  case (three c d e t)
  define x where "x = bval c - 224"
  define y where "y = bval d - 128"
  define z where "z = bval e - 128"
  have b: "bval c = 224 + x" "bval d = 128 + y" "bval e = 128 + z"
    using three(2,3,5,6) second_ok_cont [OF three(4)] by (simp_all add: x_def y_def z_def)
  have "x < 16" "y < 64" "z < 64" using three(3,6) second_ok_cont [OF three(4)] b by linarith+
  moreover have "r = x * 4096 + y * 64 + z" "n = 3"
    using three(7) assms(1) by (simp_all add: x_def y_def z_def)
  moreover have "x = 0 \<Longrightarrow> 32 \<le> y" "x = 13 \<Longrightarrow> y < 32"
    using three(4) b by (auto simp: second_ok_def)
  ultimately have xy: "bval c = 224 + x" "bval d = 128 + y" "bval e = 128 + z" "x < 16" "y < 64" "z < 64"
      "r = x * 4096 + y * 64 + z" "n = 3" "x = 0 \<Longrightarrow> 32 \<le> y" "x = 13 \<Longrightarrow> y < 32"
    using b by simp_all
  have "r div 4096 = x" "r div 64 mod 64 = y" "r mod 64 = z"
    unfolding xy(7) by (rule radix64 [OF xy(5,6,6)])+
  moreover have "2048 \<le> r" using xy(4-7,9) by (cases "x = 0") simp_all
  moreover have "r < 65536" using xy(4-7) by linarith
  moreover have "\<not> (55296 \<le> r \<and> r \<le> 57343)"
  proof (cases "x = 13")
    case True
    then show ?thesis using xy(4-7,10) by simp
  next
    case False
    then show ?thesis using xy(4-7) by (cases "x \<le> 12") simp_all
  qed
  ultimately have "encode_rune r = [bchr (224 + x), bchr (128 + y), bchr (128 + z)]"
    by (auto simp: encode_rune_def Let_def)
  then show ?thesis using xy by (simp add: three(1) bchr_eq)
next
  case (four c d e f t)
  define x where "x = bval c - 240"
  define y where "y = bval d - 128"
  define z where "z = bval e - 128"
  define w where "w = bval f - 128"
  have b: "bval c = 240 + x" "bval d = 128 + y" "bval e = 128 + z" "bval f = 128 + w"
    using four(2,3,5-8) second_ok_cont [OF four(4)] by (simp_all add: x_def y_def z_def w_def)
  have "x < 5" "y < 64" "z < 64" "w < 64" using four(3,6,8) second_ok_cont [OF four(4)] b by linarith+
  moreover have "r = x * 262144 + y * 4096 + z * 64 + w" "n = 4"
    using four(9) assms(1) by (simp_all add: x_def y_def z_def w_def)
  moreover have "x = 0 \<Longrightarrow> 16 \<le> y" "x = 4 \<Longrightarrow> y < 16"
    using four(4) b by (auto simp: second_ok_def)
  ultimately have xy: "bval c = 240 + x" "bval d = 128 + y" "bval e = 128 + z" "bval f = 128 + w" "x < 5" "y < 64"
      "z < 64" "w < 64" "r = x * 262144 + y * 4096 + z * 64 + w" "n = 4" "x = 0 \<Longrightarrow> 16 \<le> y" "x = 4 \<Longrightarrow> y < 16"
    using b by simp_all
  have "r div 262144 = x" "r div 4096 mod 64 = y" "r div 64 mod 64 = z" "r mod 64 = w"
    unfolding xy(9) by (rule radix64 [OF xy(6-8)])+
  moreover have "65536 \<le> r" using xy(5-9,11) by (cases "x = 0") simp_all
  moreover have "r \<le> 1114111" using xy(5-9,12) by (cases "x = 4") simp_all
  ultimately have "encode_rune r = [bchr (240 + x), bchr (128 + y), bchr (128 + z), bchr (128 + w)]"
    by (auto simp: encode_rune_def Let_def)
  then show ?thesis using xy by (simp add: four(1) bchr_eq)
next
  case (bad c t)
  then show ?thesis using assms by simp
qed


text \<open>Decoding looks at the bytes of the first code point only.\<close>
lemma decode_rune_local:
  assumes "decode_rune s = (r, n)" "s \<noteq> []" "\<not> (r = rune_error \<and> n = 1)"
  shows "decode_rune (take n s @ t) = (r, n) \<and> 1 \<le> n \<and> n \<le> length s"
  using assms(2)
proof (cases rule: decode_rune_cases)
  case (three c d e u)
  then show ?thesis using assms(1) by (auto simp: decode_rune.simps Let_def cont_byte_def)
next
  case (four c d e f u)
  then show ?thesis using assms(1) by (auto simp: decode_rune.simps Let_def cont_byte_def)
qed (use assms in \<open>auto simp: decode_rune.simps Let_def cont_byte_def split: if_splits\<close>)

lemma decode_rune_length:
  assumes "s \<noteq> []"
  shows "1 \<le> snd (decode_rune s)" "snd (decode_rune s) \<le> length s"
  using assms by (cases rule: decode_rune_cases; simp)+

text \<open>The pieces of a string: each is a whole code point, or an error of one byte.\<close>
definition piece_ok :: "nat \<times> string \<Rightarrow> bool" where
  "piece_ok p \<longleftrightarrow> (case p of (r, b) \<Rightarrow> b \<noteq> [] \<and> (\<forall>t. decode_rune (b @ t) = (r, length b)) \<and> encode_rune r = b)"

lemma utf8_pieces: "utf8 s \<Longrightarrow> p \<in> set (pieces s) \<Longrightarrow> piece_ok p"
proof (induction s rule: pieces.induct)
  case (1 s)
  show ?case
  proof (cases "s = []")
    case False
    obtain r n where d: "decode_rune s = (r, n)" by force
    have n: "1 \<le> n" "n \<le> length s" using decode_rune_length [OF False] d by auto
    then have p: "pieces s = (r, take n s) # pieces (drop n s)"
      using False d by (simp add: pieces.simps [of s] max_def)
    have ok: "\<not> (r = rune_error \<and> n = 1)" using 1(2) n by (auto simp: utf8_def p)
    have "utf8 (drop n s)" using 1(2) by (auto simp: utf8_def p)
    moreover have "piece_ok (r, take n s)"
      using decode_rune_local [OF d False ok] encode_decode_rune [OF d False ok] n False by (auto simp: piece_ok_def)
    ultimately show ?thesis using 1(1) [OF False d [symmetric]] 1(3) n by (auto simp: p max_def)
  qed (use 1 in simp)
qed

lemma utf8_Nil [simp]: "utf8 []"
  by (simp add: utf8_def)

lemma utf8_ascii: "ascii s \<Longrightarrow> utf8 s"
  by (auto simp: utf8_def pieces_ascii rune_error_def ascii_def)

lemma piece_utf8:
  assumes "piece_ok (r, b)"
  shows "utf8 (b @ s) \<longleftrightarrow> utf8 s \<and> \<not> (r = rune_error \<and> length b = 1)"
proof -
  have "1 \<le> length b" using assms by (cases b) (auto simp: piece_ok_def)
  then have "pieces (b @ s) = (r, b) # pieces s"
    using assms by (auto simp: piece_ok_def pieces.simps [of "b @ s"] max_def)
  then show ?thesis by (auto simp: utf8_def)
qed

text \<open>What \<open>encode_rune\<close> writes is one code point.\<close>
lemma encode_rune_piece:
  obtains r' where "piece_ok (r', encode_rune r)" "\<not> (r' = rune_error \<and> length (encode_rune r) = 1)"
proof -
  define q where "q = (if r > 1114111 \<or> (55296 \<le> r \<and> r \<le> 57343) then rune_error else r)"
  have q: "q \<le> 1114111" "q < 55296 \<or> 57343 < q" by (auto simp: q_def rune_error_def)
  have e: "encode_rune r = encode_rune q" by (auto simp: encode_rune_def q_def Let_def rune_error_def)
  define x where "x = q div 262144"
  define y where "y = q div 4096"
  define z where "z = q div 64"
  have "y = z div 64" "x = y div 64" by (simp_all add: x_def y_def z_def flip: div_mult2_eq)
  then have "q = z * 64 + q mod 64" "z = y * 64 + z mod 64" "y = x * 64 + y mod 64" by (simp_all add: z_def)
  then have split: "q = y * 4096 + z mod 64 * 64 + q mod 64" "q = x * 262144 + y mod 64 * 4096 + z mod 64 * 64 + q mod 64"
    by linarith+
  have "decode_rune (encode_rune q @ t) = (q, length (encode_rune q))" for t
  proof -
    consider "q < 128" | "128 \<le> q" "q < 2048" | "2048 \<le> q" "q < 65536" | "65536 \<le> q" by linarith
    then show ?thesis
    proof cases
      case 1
      then show ?thesis using q by (simp add: encode_rune_def Let_def decode_rune.simps)
    next
      case 2
      have "q = z * 64 + q mod 64" "z < 32" "2 \<le> z" "q mod 64 < 64" using 2 by (auto simp: z_def)
      then show ?thesis using 2 q
        by (simp add: encode_rune_def Let_def decode_rune.simps cont_byte_def flip: z_def)
    next
      case 3
      define u where "u = z mod 64"
      define v where "v = q mod 64"
      have uv: "u < 64" "v < 64" "q = y * 4096 + u * 64 + v" using split(1) by (simp_all add: u_def v_def)
      have y: "y < 16" "y = 0 \<Longrightarrow> 32 \<le> u" "y = 13 \<Longrightarrow> u < 32" using 3 q uv by linarith+
      have "encode_rune q = [bchr (224 + y), bchr (128 + u), bchr (128 + v)]"
        using 3 q by (auto simp: encode_rune_def Let_def u_def v_def y_def z_def)
      moreover have "second_ok (224 + y) (128 + u)" using y uv by (auto simp: second_ok_def cont_byte_def)
      ultimately show ?thesis using y(1) uv by (simp add: decode_rune.simps Let_def cont_byte_def)
    next
      case 4
      define u where "u = y mod 64"
      define v where "v = z mod 64"
      define w where "w = q mod 64"
      have uv: "u < 64" "v < 64" "w < 64" "q = x * 262144 + u * 4096 + v * 64 + w"
        using split(2) by (simp_all add: u_def v_def w_def)
      have x: "x < 5" "x = 0 \<Longrightarrow> 16 \<le> u" "x = 4 \<Longrightarrow> u < 16" using 4 q uv by linarith+
      have "encode_rune q = [bchr (240 + x), bchr (128 + u), bchr (128 + v), bchr (128 + w)]"
        using 4 q by (auto simp: encode_rune_def Let_def u_def v_def w_def x_def y_def z_def)
      moreover have "second_ok (240 + x) (128 + u)" using x uv by (auto simp: second_ok_def cont_byte_def)
      ultimately show ?thesis using x(1) uv by (simp add: decode_rune.simps Let_def cont_byte_def)
    qed
  qed
  moreover have "encode_rune q \<noteq> []" by (simp add: encode_rune_def Let_def)
  ultimately have "piece_ok (q, encode_rune r)" by (simp add: piece_ok_def e)
  moreover have "\<not> (q = rune_error \<and> length (encode_rune r) = 1)"
    unfolding e by (auto simp: encode_rune_def rune_error_def Let_def)
  ultimately show thesis by (rule that)
qed

lemma utf8_encode_rune [simp]: "utf8 (encode_rune r @ s) \<longleftrightarrow> utf8 s"
  using encode_rune_piece [of r] piece_utf8 by metis

section \<open>Strings\<close>

lemma hex_steps:
  fixes n a b c p q r :: nat
  assumes "n = a * 16 + p" "a = b * 16 + q" "b = c * 16 + r"
  shows "n = c * 4096 + r * 256 + q * 16 + p"
  using assms by simp

lemma hex4_quad: "n < 65536 \<Longrightarrow> hex4 (hex_digit (n div 4096 mod 16)) (hex_digit (n div 256 mod 16))
    (hex_digit (n div 16 mod 16)) (hex_digit (n mod 16)) = Some n"
proof -
  assume n: "n < 65536"
  have d: "n div 256 = n div 16 div 16" "n div 4096 = n div 16 div 16 div 16"
    by (simp_all flip: div_mult2_eq)
  have "n div 16 div 16 div 16 mod 16 = n div 16 div 16 div 16" using n by simp
  moreover have "n = (n div 16 div 16 div 16) * 4096 + (n div 16 div 16 mod 16) * 256 + (n div 16 mod 16) * 16 + n mod 16"
    by (rule hex_steps [of n "n div 16" _ "n div 16 div 16"]) (simp_all only: div_mult_mod_eq)
  ultimately have "n = (n div 16 div 16 div 16 mod 16) * 4096 + (n div 16 div 16 mod 16) * 256 + (n div 16 mod 16) * 16 + n mod 16"
    by simp
  then show ?thesis unfolding d by (simp add: hex4_def)
qed

lemma str_unit_escape: "n < 65536 \<Longrightarrow> \<not> is_surrogate n \<Longrightarrow> str_unit (u_escape n @ t) = Some (Some (encode_rune n), t)"
  using hex4_quad [of n] by (simp add: str_unit_def u_escape_def hex_quad_def simple_escape_def bval_Char Let_def)

lemma encode_rune_ascii: "n < 128 \<Longrightarrow> encode_rune n = [bchr n]"
  by (simp add: encode_rune_def Let_def)

lemma quote_piece_unit:
  assumes "piece_ok (r, b)" "\<not> (r = rune_error \<and> length b = 1)"
  shows "str_unit (quote_piece (r, b) @ t) = Some (Some b, t)"
proof -
  have b: "b \<noteq> []" "decode_rune (b @ u) = (r, length b)" "encode_rune r = b" for u
    using assms(1) by (auto simp: piece_ok_def)
  show ?thesis
  proof (cases "r < 128")
    case True
    then have bb: "b = [bchr r]" using b(3) by (simp add: encode_rune_ascii)
    have "str_unit (bchr r # t) = Some (Some [bchr r], t)" if "32 \<le> r" "r \<noteq> 34" "r \<noteq> 92"
      using that True by (simp add: str_unit_def)
    moreover have "str_unit (u_escape r @ t) = Some (Some b, t)"
      using True str_unit_escape [of r t] b(3) by (simp add: is_surrogate_def)
    moreover have "str_unit (bchr 92 # e # t) = Some (Some [bchr n], t)" if "simple_escape e = Some n" for e n
      using that by (simp add: str_unit_def)
    ultimately show ?thesis
      using True unfolding quote_piece_def bb
      by (simp add: simple_escape_def bval_Char Let_def)
  next
    case False
    then have r: "\<not> (r = rune_error \<and> length b = 1)" "128 \<le> r" using assms(2) by auto
    obtain c cs where c: "b = c # cs" using b(1) by (cases b) auto
    have "128 \<le> bval c"
      using b(2) [of "[]"] False by (cases "bval c < 128") (auto simp: c decode_rune.simps Let_def)
    then have "str_unit (b @ t) = Some (Some b, t)"
      using b(2) [of t] b(3) by (simp add: str_unit_def c)
    moreover have "str_unit (u_escape r @ t) = Some (Some b, t)" if "r = 8232 \<or> r = 8233"
      using that str_unit_escape [of r t] b(3) by (auto simp: is_surrogate_def)
    ultimately show ?thesis using r by (auto simp: quote_piece_def)
  qed
qed

lemma lex_str_pieces:
  assumes "\<forall>p \<in> set ps. \<forall>t. str_unit (quote_piece p @ t) = Some (Some (snd p), t)"
  shows "lex_str (concat (map quote_piece ps) @ bchr 34 # t) = Some (concat (map snd ps), t)"
  using assms
proof (induction ps)
  case Nil
  then show ?case by (simp add: lex_str.simps [of "bchr 34 # t"] str_unit_def)
next
  case (Cons p ps)
  have "str_unit (quote_piece p @ concat (map quote_piece ps) @ bchr 34 # t)
      = Some (Some (snd p), concat (map quote_piece ps) @ bchr 34 # t)"
    using Cons.prems by simp
  then show ?case
    using Cons by (simp add: lex_str.simps [of "quote_piece p @ concat (map quote_piece ps) @ bchr 34 # t"])
qed

text \<open>A marshalled string is read back.\<close>
lemma lex_json_quote:
  assumes "utf8 s"
  shows "lex_str (concat (map quote_piece (pieces s)) @ bchr 34 # t) = Some (s, t)"
proof -
  have "str_unit (quote_piece p @ u) = Some (Some (snd p), u)" if "p \<in> set (pieces s)" for p u
    using that assms utf8_pieces [OF assms that] quote_piece_unit [of "fst p" "snd p" u] by (auto simp: utf8_def)
  then show ?thesis using lex_str_pieces flatten_pieces by (metis flatten_def)
qed

lemma next_tok_quote [simp]: "utf8 s \<Longrightarrow> next_tok (json_quote s @ t) = Some (TLit (JStr s), t)"
  by (simp add: next_tok_def json_quote_def skip_ws_def json_ws_def lex_json_quote bchr_eq bval_Char)

lemma raw_string_quote [simp]: "utf8 s \<Longrightarrow> raw_string (json_quote s) = Some (Some s)"
  using next_tok_quote [of s "[]"]
  by (simp add: raw_string_def json_whole_def json_prefix_def json_run.simps json_step_def value_step_def skip_ws_def)

section \<open>Texts of values\<close>

text \<open>What may follow a value: nothing, or a byte no number goes on with.\<close>
definition ends :: "string \<Rightarrow> bool" where
  "ends r \<longleftrightarrow> (case r of [] \<Rightarrow> True | c # _ \<Rightarrow> c \<in> {CHR '','', CHR ''}'', CHR '']'', CHR '':'', CHR 10})"

fun go_on :: "json + (mode \<times> frame list) \<Rightarrow> string \<Rightarrow> (json \<times> string) option" where
  "go_on (Inl v) r = Some (v, r)"
| "go_on (Inr (m, fs)) r = json_run m fs r"

text \<open>
  The text \<open>t\<close> is read as the value \<open>v\<close>, wherever a value may stand and \<open>d\<close> more levels are open
  to it.
\<close>
definition reads :: "string \<Rightarrow> json \<Rightarrow> nat \<Rightarrow> bool" where
  "reads t v d \<longleftrightarrow> t \<noteq> [] \<and> \<not> json_ws (hd t) \<and>
     (\<forall>m fs r. m = MVal \<or> m = MFirst \<longrightarrow> length fs + d \<le> json_max_depth \<longrightarrow> ends r \<longrightarrow>
        json_run m fs (t @ r) = go_on (deliver v fs) r)"

lemma reads_mono: "reads t v d \<Longrightarrow> d \<le> d' \<Longrightarrow> reads t v d'"
  by (auto simp: reads_def)

lemma reads_run:
  "reads t v d \<Longrightarrow> m = MVal \<or> m = MFirst \<Longrightarrow> length fs + d \<le> json_max_depth \<Longrightarrow> ends r
     \<Longrightarrow> json_run m fs (t @ r) = go_on (deliver v fs) r"
  unfolding reads_def by blast

lemma reads_literal:
  assumes "\<And>r. ends r \<Longrightarrow> next_tok (t @ r) = Some (TLit v, r)" "t \<noteq> []" "\<not> json_ws (hd t)"
  shows "reads t v d"
  using assms by (auto simp: reads_def json_run.simps json_step_def value_step_def split: sum.split elim!: go_on.elims)

lemma ends_simps [simp]: "ends []" "ends (CHR '','' # r)" "ends (CHR ''}'' # r)" "ends (CHR '']'' # r)"
  by (simp_all add: ends_def)

lemma json_quote_head [simp]: "json_quote s \<noteq> []" "hd (json_quote s) = bchr 34"
  by (simp_all add: json_quote_def)

lemma reads_quote: "utf8 s \<Longrightarrow> reads (json_quote s) (JStr s) d"
  by (rule reads_literal) (simp_all add: json_ws_def)

lemma reads_words: "reads ''null'' JNull d" "reads ''true'' (JBool True) d" "reads ''false'' (JBool False) d"
  by (rule reads_literal; simp add: next_tok_def skip_ws_def json_ws_def bval_Char word_tok_def has_prefix_def)+

lemma reads_bool: "reads (bool_text b) (JBool b) d"
  by (simp add: bool_text_def reads_words)

text \<open>A number literal, when the lexer takes all of it.\<close>
definition num_ok :: "string \<Rightarrow> bool" where
  "num_ok l \<longleftrightarrow> lex_num l = Some (l, [])"

lemma takeWhile_digits_ends:
  "ends r \<Longrightarrow> takeWhile is_digit (s @ r) = takeWhile is_digit s \<and> dropWhile is_digit (s @ r) = dropWhile is_digit s @ r"
proof (induction s)
  case Nil
  then show ?case by (cases r) (auto simp: ends_def is_digit_def bval_Char)
qed auto

lemma ends_not: "ends (c # r) \<Longrightarrow> bval c \<noteq> 46 \<and> bval c \<noteq> 101 \<and> bval c \<noteq> 69 \<and> bval c \<noteq> 48 \<and> bval c \<noteq> 45 \<and> bval c \<noteq> 43"
  by (auto simp: ends_def bval_Char)

lemma lex_digits_ends: "ends r \<Longrightarrow> lex_digits (s @ r) = map_option (apsnd (\<lambda>u. u @ r)) (lex_digits s)"
  using takeWhile_digits_ends [of r s] by (auto simp: lex_digits_def)

lemma lex_int_ends: "ends r \<Longrightarrow> lex_int (s @ r) = map_option (apsnd (\<lambda>u. u @ r)) (lex_int s)"
proof (cases s)
  case Nil
  assume "ends r"
  then show ?thesis using lex_digits_ends [of r "[]"] ends_not
    by (cases r) (auto simp: lex_int_def Nil lex_digits_def)
next
  case (Cons c t)
  assume "ends r"
  then show ?thesis using lex_digits_ends [of r s] by (auto simp: lex_int_def Cons)
qed

lemma lex_frac_ends: "ends r \<Longrightarrow> lex_frac (s @ r) = map_option (apsnd (\<lambda>u. u @ r)) (lex_frac s)"
proof (cases s)
  case Nil
  assume "ends r"
  then show ?thesis using ends_not by (cases r) (auto simp: lex_frac_def Nil)
next
  case (Cons c t)
  assume "ends r"
  then show ?thesis using lex_digits_ends [of r t] by (auto simp: lex_frac_def Cons option.map_comp comp_def)
qed

lemma lex_exp_ends: "ends r \<Longrightarrow> lex_exp s \<noteq> None \<Longrightarrow> lex_exp (s @ r) = map_option (apsnd (\<lambda>u. u @ r)) (lex_exp s)"
proof (cases s)
  case Nil
  assume "ends r"
  then show ?thesis using ends_not by (cases r) (auto simp: lex_exp_def Nil)
next
  case (Cons c t)
  assume e: "ends r" and n: "lex_exp s \<noteq> None"
  show ?thesis
  proof (cases "bval c = 101 \<or> bval c = 69")
    case True
    then obtain d u where "t = d # u" using n by (cases t) (auto simp: lex_exp_def Cons)
    then show ?thesis using True e lex_digits_ends [OF e, of u] lex_digits_ends [OF e, of t]
      by (auto simp: lex_exp_def Cons option.map_comp comp_def)
  qed (auto simp: lex_exp_def Cons)
qed

lemma lex_num_ends: "num_ok l \<Longrightarrow> ends r \<Longrightarrow> lex_num (l @ r) = Some (l, r)"
proof -
  assume n: "num_ok l" and e: "ends r"
  define sg where "sg = (case l of c # _ \<Rightarrow> if bval c = 45 then [c] else [] | [] \<Rightarrow> [])"
  have ne: "l \<noteq> []" using n lex_num_append [of l l "[]"] by (simp add: num_ok_def)
  then have sg': "(case l @ r of c # _ \<Rightarrow> if bval c = 45 then [c] else [] | [] \<Rightarrow> []) = sg"
    by (cases l) (auto simp: sg_def)
  have dr: "drop (length sg) (l @ r) = drop (length sg) l @ r" using ne by (cases l) (auto simp: sg_def)
  obtain i r1 f r2 x where p: "lex_int (drop (length sg) l) = Some (i, r1)" "lex_frac r1 = Some (f, r2)"
    "lex_exp r2 = Some (x, [])" "l = sg @ i @ f @ x"
    using n unfolding num_ok_def lex_num_def Let_def sg_def [symmetric]
    by (auto split: option.splits prod.splits)
  show ?thesis
    using lex_int_ends [OF e, of "drop (length sg) l"] lex_frac_ends [OF e, of r1] lex_exp_ends [OF e, of r2]
    unfolding lex_num_def Let_def sg' dr by (simp add: p(1-3)) (simp add: p(4) [symmetric])
qed

lemma lex_num_head: "lex_num (c # s) \<noteq> None \<Longrightarrow> bval c = 45 \<or> is_digit c"
  by (auto simp: lex_num_def lex_int_def lex_digits_def Let_def is_digit_def split: if_splits)

lemma reads_num:
  assumes "num_ok l"
  shows "reads l (JNum l) d"
proof (rule reads_literal)
  obtain c s where l: "l = c # s" using assms lex_num_append [of l l "[]"] by (cases l) (auto simp: num_ok_def)
  have c: "bval c = 45 \<or> 48 \<le> bval c \<and> bval c \<le> 57"
    using assms lex_num_head [of c s] by (auto simp: num_ok_def l is_digit_def)
  then show "l \<noteq> []" "\<not> json_ws (hd l)" by (auto simp: l json_ws_def)
  fix r
  assume "ends r"
  then have "lex_num (c # s @ r) = Some (l, r)" using lex_num_ends [OF assms] by (simp add: l)
  moreover have "c \<noteq> CHR ''{''" "c \<noteq> CHR ''}''" "c \<noteq> CHR ''[''" "c \<noteq> CHR '']''" "c \<noteq> CHR '',''" "c \<noteq> CHR '':''"
    "c \<noteq> CHR ''t''" "c \<noteq> CHR ''f''" "c \<noteq> CHR ''n''" using c by (auto simp: bval_Char)
  moreover have "skip_ws (l @ r) = c # s @ r" using c by (auto simp: l skip_ws_def json_ws_def)
  ultimately show "next_tok (l @ r) = Some (TLit (JNum l), r)"
    using c by (auto simp: next_tok_def)
qed

section \<open>Arrays and objects\<close>

lemma next_tok_marks [simp]:
  "next_tok (CHR ''{'' # r) = Some (TOpenO, r)" "next_tok (CHR ''}'' # r) = Some (TCloseO, r)"
  "next_tok (CHR ''['' # r) = Some (TOpenA, r)" "next_tok (CHR '']'' # r) = Some (TCloseA, r)"
  "next_tok (CHR '','' # r) = Some (TComma, r)" "next_tok (CHR '':'' # r) = Some (TColon, r)"
  by (simp_all add: next_tok_def skip_ws_def json_ws_def bval_Char)

lemma comma_simps [simp]: "comma [] = []" "comma (t # ts) = t @ concat (map (Cons (CHR '','')) ts)"
  by (simp_all add: comma_def)

lemma run_arr_rest:
  assumes "list_all2 (\<lambda>t v. reads t v d) ts vs" "length fs + d < json_max_depth"
  shows "json_run MAfter (FArr xs # fs) (concat (map (Cons (CHR '','')) ts) @ CHR '']'' # r)
    = go_on (deliver (JArr (xs @ vs)) fs) r"
  using assms
proof (induction ts vs arbitrary: xs rule: list_all2_induct)
  case Nil
  then show ?case
    by (simp add: json_run.simps [of MAfter] json_step_def close_step_def split: sum.split)
next
  case (Cons t ts v vs)
  let ?r = "concat (map (Cons (CHR '','')) ts) @ CHR '']'' # r"
  have "ends ?r" by (cases ts) simp_all
  then have "json_run MVal (FArr xs # fs) (t @ ?r) = json_run MAfter (FArr (xs @ [v]) # fs) ?r"
    using reads_run [OF Cons.hyps(1), of MVal "FArr xs # fs" ?r] Cons.prems by simp
  moreover have "json_run MAfter (FArr xs # fs) (CHR '','' # t @ ?r) = json_run MVal (FArr xs # fs) (t @ ?r)"
    by (simp add: json_run.simps [of MAfter "FArr xs # fs"] json_step_def)
  ultimately show ?case using Cons by simp
qed

lemma reads_arr:
  assumes "list_all2 (\<lambda>t v. reads t v d) ts vs"
  shows "reads (arr_text ts) (JArr vs) (Suc d)"
  unfolding reads_def
proof (intro conjI allI impI)
  fix m and fs :: "frame list" and r :: string
  assume m: "m = MVal \<or> m = MFirst" and l: "length fs + Suc d \<le> json_max_depth" and e: "ends r"
  have open_step: "json_run m fs (CHR ''['' # x) = json_run MFirst (FArr [] # fs) x" for x
    using m l by (auto simp: json_run.simps [of m fs] json_step_def value_step_def)
  show "json_run m fs (arr_text ts @ r) = go_on (deliver (JArr vs) fs) r"
  proof (cases ts)
    case Nil
    then show ?thesis using assms open_step
      by (simp add: arr_text_def json_run.simps [of MFirst] json_step_def close_step_def split: sum.split)
  next
    case (Cons t ts')
    then obtain v vs' where vs: "vs = v # vs'" "reads t v d" "list_all2 (\<lambda>t v. reads t v d) ts' vs'"
      using assms by (auto simp: list_all2_Cons1)
    let ?r = "concat (map (Cons (CHR '','')) ts') @ CHR '']'' # r"
    have "ends ?r" by (cases ts') simp_all
    then have "json_run MFirst (FArr [] # fs) (t @ ?r) = json_run MAfter (FArr [v] # fs) ?r"
      using reads_run [OF vs(2), of MFirst "FArr [] # fs" ?r] l by simp
    then show ?thesis using run_arr_rest [OF vs(3), of fs "[v]" r] l open_step
      by (simp add: arr_text_def Cons vs(1))
  qed
qed (simp_all add: arr_text_def json_ws_def bval_Char)

text \<open>The members of an object: keys as they are, texts that read as the values.\<close>
definition reads_member :: "nat \<Rightarrow> string \<times> string \<Rightarrow> string \<times> json \<Rightarrow> bool" where
  "reads_member d kt kv \<longleftrightarrow> fst kt = fst kv \<and> utf8 (fst kt) \<and> reads (snd kt) (snd kv) d"

lemma run_member:
  assumes "reads_member d (k, t) (k', v)" "length fs + d < json_max_depth" "ends r" "m = MKey0 \<or> m = MKey"
  shows "json_run m (FObj kvs k0 # fs) (json_quote k @ CHR '':'' # t @ r)
    = json_run MAfter (FObj (kvs @ [(k', v)]) k # fs) r"
proof -
  have u: "utf8 k" "k' = k" "reads t v d" using assms(1) by (auto simp: reads_member_def)
  have "json_run m (FObj kvs k0 # fs) (json_quote k @ CHR '':'' # t @ r)
      = json_run MColon (FObj kvs k # fs) (CHR '':'' # t @ r)"
    using assms(4) u(1) by (auto simp: json_run.simps [of m] json_step_def key_step_def)
  also have "\<dots> = json_run MVal (FObj kvs k # fs) (t @ r)"
    by (simp add: json_run.simps [of MColon] json_step_def)
  also have "\<dots> = json_run MAfter (FObj (kvs @ [(k, v)]) k # fs) r"
    using reads_run [OF u(3), of MVal "FObj kvs k # fs" r] assms(2,3) by simp
  finally show ?thesis by (simp add: u(2))
qed

abbreviation member_text :: "string \<times> string \<Rightarrow> string" where
  "member_text \<equiv> \<lambda>(k, t). json_quote k @ CHR '':'' # t"

lemma run_obj_rest:
  assumes "list_all2 (reads_member d) kts kvs" "length fs + d < json_max_depth"
  shows "json_run MAfter (FObj xs k # fs) (concat (map (Cons (CHR '','')) (map member_text kts)) @ CHR ''}'' # r)
    = go_on (deliver (JObj (xs @ kvs)) fs) r"
  using assms
proof (induction kts kvs arbitrary: xs k rule: list_all2_induct)
  case Nil
  then show ?case
    by (simp add: json_run.simps [of MAfter] json_step_def close_step_def split: sum.split)
next
  case (Cons kt kts kv kvs)
  obtain k1 t k2 v where p: "kt = (k1, t)" "kv = (k2, v)" by (metis prod.collapse)
  let ?r = "concat (map (Cons (CHR '','')) (map member_text kts)) @ CHR ''}'' # r"
  have "ends ?r" by (cases kts) simp_all
  then have "json_run MKey (FObj xs k # fs) (json_quote k1 @ CHR '':'' # t @ ?r)
      = json_run MAfter (FObj (xs @ [kv]) k1 # fs) ?r"
    using run_member [of d k1 t k2 v fs ?r MKey] Cons.hyps(1) Cons.prems unfolding p by simp
  moreover have "json_run MAfter (FObj xs k # fs) (CHR '','' # x) = json_run MKey (FObj xs k # fs) x" for x
    by (simp add: json_run.simps [of MAfter "FObj xs k # fs"] json_step_def)
  ultimately show ?case using Cons by (simp add: p)
qed

lemma reads_obj:
  assumes "list_all2 (reads_member d) kts kvs"
  shows "reads (obj_text kts) (JObj kvs) (Suc d)"
  unfolding reads_def
proof (intro conjI allI impI)
  fix m and fs :: "frame list" and r :: string
  assume m: "m = MVal \<or> m = MFirst" and l: "length fs + Suc d \<le> json_max_depth" and e: "ends r"
  have open_step: "json_run m fs (CHR ''{'' # x) = json_run MKey0 (FObj [] [] # fs) x" for x
    using m l by (auto simp: json_run.simps [of m fs] json_step_def value_step_def)
  show "json_run m fs (obj_text kts @ r) = go_on (deliver (JObj kvs) fs) r"
  proof (cases kts)
    case Nil
    then show ?thesis using assms open_step
      by (simp add: obj_text_def json_run.simps [of MKey0] json_step_def close_step_def split: sum.split)
  next
    case (Cons kt kts')
    then obtain kv kvs' where vs: "kvs = kv # kvs'" "reads_member d kt kv" "list_all2 (reads_member d) kts' kvs'"
      using assms by (auto simp: list_all2_Cons1)
    obtain k1 t k2 v where p: "kt = (k1, t)" "kv = (k2, v)" by (metis prod.collapse)
    let ?r = "concat (map (Cons (CHR '','')) (map member_text kts')) @ CHR ''}'' # r"
    have "ends ?r" by (cases kts') simp_all
    then have "json_run MKey0 (FObj [] [] # fs) (json_quote k1 @ CHR '':'' # t @ ?r)
        = json_run MAfter (FObj [kv] k1 # fs) ?r"
      using run_member [of d k1 t k2 v fs ?r MKey0 "[]" "[]"] vs(2) l unfolding p by simp
    then show ?thesis using run_obj_rest [OF vs(3), of fs "[kv]" k1 r] l open_step
      by (simp add: obj_text_def Cons vs(1) p)
  qed
qed (simp_all add: obj_text_def json_ws_def bval_Char)

lemma reads_prefix: "reads t v d \<Longrightarrow> d \<le> json_max_depth \<Longrightarrow> ends r \<Longrightarrow> json_prefix (t @ r) = Some (v, r)"
  unfolding json_prefix_def using reads_run [of t v d MVal "[]" r] by simp

lemma reads_whole: "reads t v d \<Longrightarrow> d \<le> json_max_depth \<Longrightarrow> json_whole t = Some v"
  using reads_prefix [of t v d "[]"] by (simp add: json_whole_def skip_ws_def)

lemma reads_skip_ws: "reads t v d \<Longrightarrow> skip_ws (t @ r) = t @ r"
  by (cases t) (auto simp: reads_def skip_ws_def)

section \<open>Structs\<close>

text \<open>Every member of an object that was written is given back with its text.\<close>
lemma raw_loop_members:
  assumes "list_all2 (reads_member d) kts kvs" "d \<le> json_max_depth" "kts \<noteq> []"
  shows "raw_loop (comma (map member_text kts) @ CHR ''}'' # r) = Some (kts, r)"
  using assms
proof (induction kts kvs rule: list_all2_induct)
  case (Cons kt kts kv kvs)
  obtain k t k' v where p: "kt = (k, t)" "kv = (k', v)" by (metis prod.collapse)
  have u: "utf8 k" "reads t v d" using Cons.hyps(1) by (auto simp: reads_member_def p)
  let ?r = "concat (map (Cons (CHR '','')) (map member_text kts)) @ CHR ''}'' # r"
  have e: "ends ?r" by (cases kts) simp_all
  have s: "comma (map member_text (kt # kts)) @ CHR ''}'' # r = json_quote k @ CHR '':'' # t @ ?r"
    by (simp add: p)
  have pre: "json_prefix (t @ ?r) = Some (v, ?r)" by (rule reads_prefix [OF u(2) Cons.prems(1) e])
  have raw: "take (length (skip_ws (t @ ?r)) - length ?r) (skip_ws (t @ ?r)) = t"
    unfolding reads_skip_ws [OF u(2)] by simp
  note IH = Cons.IH [OF Cons.prems(1)]
  show ?case
  proof (cases kts)
    case Nil
    then show ?thesis using u(1) pre raw Cons.hyps(2)
      unfolding s by (simp add: raw_loop.simps [of "json_quote k @ _"] Let_def p)
  next
    case (Cons kt' kts')
    have "raw_loop (comma (map member_text kts) @ CHR ''}'' # r) = Some (kts, r)"
      using IH Cons by simp
    moreover have "?r = CHR '','' # comma (map member_text kts) @ CHR ''}'' # r" by (simp add: Cons)
    ultimately show ?thesis using u(1) pre raw
      unfolding s by (simp add: raw_loop.simps [of "json_quote k @ _"] Let_def p)
  qed
qed simp

lemma raw_members_obj:
  assumes "list_all2 (reads_member d) kts kvs" "d \<le> json_max_depth"
  shows "raw_members (obj_text kts @ r) = Some (kts, r)"
proof (cases kts)
  case Nil
  then show ?thesis by (simp add: raw_members_def obj_text_def)
next
  case (Cons kt kts')
  obtain k t where p: "kt = (k, t)" by force
  have "utf8 k" using assms(1) by (auto simp: Cons p list_all2_Cons1 reads_member_def)
  then have "next_tok (comma (map member_text kts) @ CHR ''}'' # r) = Some (TLit (JStr k), CHR '':'' # t @ concat (map (Cons (CHR '','')) (map member_text kts')) @ CHR ''}'' # r)"
    by (simp add: Cons p)
  then show ?thesis using raw_loop_members [OF assms, of r] by (simp add: raw_members_def obj_text_def Cons)
qed

text \<open>Decoding a struct from a written object is decoding its members in turn.\<close>
lemma decode_struct_obj:
  assumes "list_all2 (reads_member d) kts kvs" "d < json_max_depth" "ends r"
  shows "decode_struct upd x (obj_text kts @ r) = map_option (\<lambda>y. (y, r)) (decode_members upd kts x)"
  using reads_prefix [OF reads_obj [OF assms(1)] _ assms(3)] raw_members_obj [OF assms(1), of r] assms(2)
  by (simp add: decode_struct_def)

lemma decode_whole_obj:
  assumes "list_all2 (reads_member d) kts kvs" "d < json_max_depth"
  shows "decode_whole upd x (obj_text kts) = decode_members upd kts x"
  using decode_struct_obj [OF assms, of "[]" upd x]
  by (cases "decode_members upd kts x") (simp_all add: decode_whole_def at_eof_def skip_ws_def)

section \<open>Numbers and booleans\<close>

lemma nat_text_head: "0 < n \<Longrightarrow> \<exists>c t. nat_text n = c # t \<and> bval c \<noteq> 48"
proof (induction n rule: nat_text.induct)
  case (1 n)
  show ?case
  proof (cases "n < 10")
    case True
    then show ?thesis using 1(2) by (auto simp: nat_text_small digit_char_def)
  next
    case False
    then have "0 < n div 10" by simp
    then obtain c t where "nat_text (n div 10) = c # t" "bval c \<noteq> 48" using 1(1) [OF False] by blast
    then show ?thesis using False by (auto simp: nat_text_small)
  qed
qed

lemma lex_digits_all: "s \<noteq> [] \<Longrightarrow> list_all is_digit s \<Longrightarrow> lex_digits s = Some (s, [])"
  by (auto simp: lex_digits_def list_all_iff takeWhile_eq_all_conv [THEN iffD2])

lemma nat_text_all: "list_all is_digit (nat_text n)"
  using nat_text_digits by (auto simp: list_all_iff)

lemma lex_int_nat_text: "lex_int (nat_text n) = Some (nat_text n, [])"
proof (cases "n = 0")
  case True
  then show ?thesis by (simp add: nat_text_small lex_int_def digit_char_def)
next
  case False
  then obtain c t where c: "nat_text n = c # t" "bval c \<noteq> 48" using nat_text_head by blast
  then show ?thesis using lex_digits_all [OF nat_text_nonempty nat_text_all, of n] by (simp add: lex_int_def)
qed

lemma lex_num_digits:
  assumes "lex_int s = Some (s, [])" "s = c # t" "is_digit c"
  shows "num_ok s" "num_ok (bchr 45 # s)"
  using assms by (auto simp: num_ok_def lex_num_def lex_frac_def lex_exp_def is_digit_def)

lemma num_ok_nat_text [simp]: "num_ok (nat_text n)" and num_ok_neg: "num_ok (bchr 45 # nat_text n)"
proof -
  obtain c t where c: "nat_text n = c # t" by (cases "nat_text n") auto
  then have "is_digit c" using nat_text_all [of n] by simp
  then show "num_ok (nat_text n)" "num_ok (bchr 45 # nat_text n)"
    using lex_num_digits [OF lex_int_nat_text c] by simp_all
qed

lemma bchr_minus: "CHR 45 = bchr 45"
  by (rule sym) (simp add: bchr_eq bval_Char)

lemma num_ok_int_text [simp]: "num_ok (int_text i)"
  using num_ok_neg by (simp add: int_text_def bchr_minus)

lemma reads_int: "reads (int_text i) (JNum (int_text i)) d" and reads_nat: "reads (nat_text n) (JNum (nat_text n)) d"
  by (simp_all add: reads_num)

lemma json_whole_literals [simp]:
  "num_ok l \<Longrightarrow> json_whole l = Some (JNum l)" "json_whole (bool_text b) = Some (JBool b)"
  "json_whole ''null'' = Some JNull" "utf8 s \<Longrightarrow> json_whole (json_quote s) = Some (JStr s)"
  using reads_whole [OF reads_num [of l 0]] reads_whole [OF reads_bool [of b 0]] reads_whole [OF reads_words(1) [of 0]]
    reads_whole [OF reads_quote [of s 0]] by simp_all

lemma parse_int64_int_text:
  "- 9223372036854775808 \<le> i \<Longrightarrow> i \<le> 9223372036854775807 \<Longrightarrow> parse_int64 (int_text i) = Some i"
proof -
  assume b: "- 9223372036854775808 \<le> i" "i \<le> 9223372036854775807"
  have d: "nat_text n = c # t \<Longrightarrow> bval c \<noteq> 45" for n c t
    using nat_text_all [of n] by (auto simp: is_digit_def)
  show ?thesis
  proof (cases "i < 0")
    case True
    then show ?thesis using b nat_text_all [of "nat (- i)"]
      by (simp add: parse_int64_def int_text_def bval_Char Let_def)
  next
    case False
    obtain c t where c: "nat_text (nat i) = c # t" by (cases "nat_text (nat i)") auto
    then have "digits_val (c # t) = nat i" "list_all is_digit (c # t)"
      using nat_text_all [of "nat i"] digits_val_nat_text [of "nat i"] by simp_all
    then show ?thesis using False b d [OF c] by (simp add: parse_int64_def int_text_def c Let_def)
  qed
qed

lemma raw_int_text [simp]:
  "- 9223372036854775808 \<le> i \<Longrightarrow> i \<le> 9223372036854775807 \<Longrightarrow> raw_int (int_text i) = Some (Some i)"
  by (simp add: raw_int_def parse_int64_int_text)

lemma raw_uint64_text [simp]: "raw_uint64 (nat_text (unat w)) = Some (Some (w :: u64))"
proof -
  have "unat w \<le> 18446744073709551615" using unsigned_less [of w] by (simp add: less_Suc_eq_le [symmetric])
  then show ?thesis using nat_text_all [of "unat w"] by (simp add: raw_uint64_def parse_uint64_def)
qed

lemma raw_bool_text [simp]: "raw_bool (bool_text b) = Some (Some b)"
  by (simp add: raw_bool_def)

section \<open>Whole values\<close>

text \<open>Strings that are UTF-8 and literals that are numbers.\<close>
fun json_wf :: "json \<Rightarrow> bool" where
  "json_wf (JNum l) = num_ok l"
| "json_wf (JStr s) = utf8 s"
| "json_wf (JArr xs) = list_all json_wf xs"
| "json_wf (JObj kvs) = list_all (\<lambda>(k, v). utf8 k \<and> json_wf v) kvs"
| "json_wf _ = True"

fun json_depth :: "json \<Rightarrow> nat" where
  "json_depth (JArr xs) = Suc (foldr max (map json_depth xs) 0)"
| "json_depth (JObj kvs) = Suc (foldr max (map (\<lambda>(k, v). json_depth v) kvs) 0)"
| "json_depth _ = 0"

lemma foldr_max_le: "foldr max ns 0 \<le> (d :: nat) \<longleftrightarrow> (\<forall>n \<in> set ns. n \<le> d)"
  by (induction ns) auto

text \<open>The value as \<open>json.Marshal\<close> orders it: the last of equal keys, keys sorted.\<close>
fun json_norm :: "json \<Rightarrow> json" where
  "json_norm (JArr xs) = JArr (map json_norm xs)"
| "json_norm (JObj kvs) = JObj (go_map (map (\<lambda>(k, v). (k, json_norm v)) kvs))"
| "json_norm v = v"

lemma insort_key_map: "insort_key fst (k, f v) (map (\<lambda>(k, v). (k, f v)) xs) = map (\<lambda>(k, v). (k, f v)) (insort_key fst (k, v) xs)"
  by (induction xs) (auto split: prod.splits)

lemma sort_key_map_values: "sort_key fst (map (\<lambda>(k, v). (k, f v)) xs) = map (\<lambda>(k, v). (k, f v)) (sort_key fst xs)"
  by (induction xs) (auto simp: insort_key_map split: prod.splits)

lemma gput_map: "gput k (f v) (map (\<lambda>(k, v). (k, f v)) m) = map (\<lambda>(k, v). (k, f v)) (gput k v m)"
  by (induction m) auto

lemma foldl_gput_map: "foldl (\<lambda>m (k, v). gput k v m) (map (\<lambda>(k, v). (k, f v)) m) (map (\<lambda>(k, v). (k, f v)) kvs)
    = map (\<lambda>(k, v). (k, f v)) (foldl (\<lambda>m (k, v). gput k v m) m kvs)"
  by (induction kvs arbitrary: m) (auto simp: gput_map split: prod.splits)

lemma go_map_map: "go_map (map (\<lambda>(k, v). (k, f v)) kvs) = map (\<lambda>(k, v). (k, f v)) (go_map kvs)"
  using foldl_gput_map [of f "[]" kvs] by (simp add: go_map_def sort_key_map_values)

lemma set_gput: "set (gput k v m) \<subseteq> insert (k, v) (set m)"
  by (induction m) auto

lemma set_go_map: "set (go_map kvs) \<subseteq> set kvs"
proof -
  have "set (foldl (\<lambda>m (k, v). gput k v m) m kvs) \<subseteq> set m \<union> set kvs" for m :: "(string \<times> 'a) list"
  proof (induction kvs arbitrary: m)
    case (Cons kv kvs)
    then show ?case using set_gput by (cases kv) fastforce
  qed simp
  then show ?thesis using order_trans by (fastforce simp: go_map_def)
qed

lemma go_map_distinct: "distinct (map fst (go_map kvs))" "sorted (map fst (go_map kvs))"
proof -
  have "distinct (map fst (foldl (\<lambda>m (k, v). gput k v m) m kvs))" if "distinct (map fst m)" for m :: "(string \<times> 'a) list"
    using that by (induction kvs arbitrary: m) (auto simp: distinct_update split: prod.splits)
  then have "distinct (map fst (foldl (\<lambda>m (k, v). gput k v m) [] kvs))" by simp
  then show "distinct (map fst (go_map kvs))" by (simp add: go_map_def distinct_map)
  show "sorted (map fst (go_map kvs))" by (simp add: go_map_def)
qed

lemma foldl_gput_distinct:
  "distinct (map fst (m @ kvs)) \<Longrightarrow> foldl (\<lambda>m (k, v). gput k v m) m kvs = m @ kvs"
proof (induction kvs arbitrary: m)
  case (Cons kv kvs)
  obtain k v where kv: "kv = (k, v)" by force
  have "gput k v m = m @ [(k, v)]" if "k \<notin> fst ` set m" for m :: "(string \<times> 'a) list"
    using that by (induction m) auto
  then show ?case using Cons kv by auto
qed simp

lemma go_map_id: "distinct (map fst kvs) \<Longrightarrow> sorted (map fst kvs) \<Longrightarrow> go_map kvs = kvs"
  using foldl_gput_distinct [of "[]" kvs] by (simp add: go_map_def sort_key_id_if_sorted)

lemma go_map_go_map [simp]: "go_map (go_map kvs) = go_map kvs"
  by (rule go_map_id) (rule go_map_distinct)+

text \<open>What \<open>json.Marshal\<close> writes of a value is read back, normalised.\<close>
lemma reads_json_text: "json_wf v \<Longrightarrow> json_depth v \<le> d \<Longrightarrow> reads (json_text (\<lambda>l. l) v) (json_norm v) d"
proof (induction v arbitrary: d)
  case (JArr xs)
  obtain e where e: "d = Suc e" using JArr.prems(2) by (cases d) auto
  have "list_all2 (\<lambda>t v. reads t v e) (map (json_text (\<lambda>l. l)) xs) (map json_norm xs)"
    using JArr by (auto simp: e list_all2_conv_all_nth list_all_length foldr_max_le)
  then show ?case unfolding e by (simp add: reads_arr)
next
  case (JObj kvs)
  obtain e where e: "d = Suc e" using JObj.prems(2) by (cases d) auto
  have "reads_member e (k, json_text (\<lambda>l. l) v) (k, json_norm v)" if "(k, v) \<in> set (go_map kvs)" for k v
  proof -
    have kv: "(k, v) \<in> set kvs" using that set_go_map by blast
    then have "json_wf v" "utf8 k" "json_depth v \<le> e"
      using JObj.prems by (auto simp: e list_all_iff foldr_max_le)
    then show ?thesis using JObj.IH [OF kv, of v e] by (simp add: reads_member_def)
  qed
  then have "list_all2 (reads_member e) (map (\<lambda>(k, v). (k, json_text (\<lambda>l. l) v)) (go_map kvs))
      (map (\<lambda>(k, v). (k, json_norm v)) (go_map kvs))"
    by (auto simp: list_all2_map1 list_all2_map2 list_all2_same)
  then show ?case unfolding e by (simp add: reads_obj go_map_map)
qed (simp_all add: reads_words reads_bool reads_quote reads_num)

lemma json_text_norm: "json_text f (json_norm v) = json_text f v"
proof (induction v)
  case (JObj kvs)
  have "json_text f (json_norm v) = json_text f v" if "(k, v) \<in> set (go_map kvs)" for k v
    using that set_go_map JObj [of "(k, v)" v] by fastforce
  then have "map ((\<lambda>(k, v). (k, json_text f v)) \<circ> (\<lambda>(k, v). (k, json_norm v))) (go_map kvs)
      = map (\<lambda>(k, v). (k, json_text f v)) (go_map kvs)"
    by (intro map_cong) auto
  then show ?case by (simp only: json_norm.simps json_text.simps go_map_map go_map_go_map map_map)
qed (auto simp: comp_def intro!: arg_cong [of _ _ arr_text] map_cong)

section \<open>What the parser returns\<close>

lemma utf8_Cons_ascii [simp]: "bval c < 128 \<Longrightarrow> utf8 (c # s) \<longleftrightarrow> utf8 s"
  using utf8_encode_rune [of "bval c" s] by (simp add: encode_rune_ascii)

lemma simple_escape_ascii: "simple_escape e = Some b \<Longrightarrow> b < 128"
  by (auto simp: simple_escape_def Let_def split: if_splits)

lemma str_unit_utf8: "str_unit s = Some (Some b, r) \<Longrightarrow> utf8 (b @ t) \<longleftrightarrow> utf8 t"
  unfolding str_unit_def
  by (auto split: list.splits if_splits option.splits prod.splits dest: simple_escape_ascii)

lemma lex_str_utf8: "lex_str s = Some (t, r) \<Longrightarrow> utf8 t"
proof (induction s arbitrary: t rule: lex_str.induct)
  case (1 s)
  then show ?case
    by (auto simp: lex_str.simps [of s] str_unit_utf8 split: option.splits prod.splits)
qed

text \<open>The lexer takes the same literal whatever stands behind it that it stopped at.\<close>
lemma lex_digits_again: "lex_digits s = Some (t, r) \<Longrightarrow> (case u of [] \<Rightarrow> True | c # _ \<Rightarrow> \<not> is_digit c) \<Longrightarrow> lex_digits (t @ u) = Some (t, u)"
proof -
  assume "lex_digits s = Some (t, r)"
  then have t: "t \<noteq> []" "\<forall>c \<in> set t. is_digit c"
    by (auto simp: lex_digits_def split: if_splits dest: set_takeWhileD)
  assume "case u of [] \<Rightarrow> True | c # _ \<Rightarrow> \<not> is_digit c"
  then have "takeWhile is_digit u = []" "dropWhile is_digit u = u" by (cases u; simp)+
  then show ?thesis using t by (simp add: lex_digits_def takeWhile_append2 dropWhile_append2)
qed

lemma lex_exp_again:
  assumes "lex_exp s = Some (t, r)"
  shows "lex_exp t = Some (t, [])"
proof (cases s)
  case Nil
  then show ?thesis using assms by (simp add: lex_exp_def)
next
  case (Cons c s')
  show ?thesis
  proof (cases "bval c = 101 \<or> bval c = 69")
    case False
    then show ?thesis using assms by (simp add: lex_exp_def Cons)
  next
    case True
    then obtain d s'' where d: "s' = d # s''" using assms by (cases s') (auto simp: lex_exp_def Cons)
    show ?thesis
    proof (cases "bval d = 43 \<or> bval d = 45")
      case sign: True
      then obtain u where u: "lex_digits s'' = Some (u, r)" "t = c # d # u" using assms True by (auto simp: lex_exp_def Cons d)
      then show ?thesis using True sign lex_digits_again [OF u(1), of "[]"] by (simp add: lex_exp_def)
    next
      case sign: False
      then obtain u where u: "lex_digits (d # s'') = Some (u, r)" "t = c # u" using assms True by (auto simp: lex_exp_def Cons d)
      then obtain u' where "u = d # u'" using lex_digits_append [OF u(1)] by (cases u) auto
      then show ?thesis using True sign u lex_digits_again [OF u(1), of "[]"] by (simp add: lex_exp_def)
    qed
  qed
qed

lemma lex_exp_first: "lex_exp s = Some (t, r) \<Longrightarrow> t = [] \<or> (\<exists>c u. t = c # u \<and> (bval c = 101 \<or> bval c = 69))"
  by (auto simp: lex_exp_def split: list.splits if_splits)

lemma lex_frac_again:
  assumes "lex_frac s = Some (t, r)" "lex_exp s' = Some (x, r')"
  shows "lex_frac (t @ x) = Some (t, x)"
proof -
  have nd: "case x of [] \<Rightarrow> True | c # _ \<Rightarrow> \<not> is_digit c" "case x of [] \<Rightarrow> True | c # _ \<Rightarrow> bval c \<noteq> 46"
    using lex_exp_first [OF assms(2)] by (auto simp: is_digit_def)
  show ?thesis
  proof (cases t)
    case Nil
    then show ?thesis using nd(2) by (auto simp: lex_frac_def split: list.split)
  next
    case (Cons c u)
    then have "bval c = 46" "\<exists>v r. lex_digits v = Some (u, r)"
      using assms(1) by (auto simp: lex_frac_def split: list.splits if_splits)
    then show ?thesis using lex_digits_again [OF _ nd(1)] by (auto simp: lex_frac_def Cons)
  qed
qed

lemma lex_int_again:
  assumes "lex_int s = Some (t, r)" "lex_frac s' = Some (f, r')" "lex_exp s'' = Some (x, r'')"
  shows "lex_int (t @ f @ x) = Some (t, f @ x)"
proof -
  have nd: "case f @ x of [] \<Rightarrow> True | c # _ \<Rightarrow> \<not> is_digit c"
    using lex_exp_first [OF assms(3)] assms(2)
    by (auto simp: is_digit_def lex_frac_def split: list.splits if_splits)
  show ?thesis
  proof (cases "\<exists>c u. s = c # u \<and> bval c = 48")
    case True
    then show ?thesis using assms(1) by (auto simp: lex_int_def)
  next
    case False
    then have l: "lex_digits s = Some (t, r)" using assms(1) by (cases s) (auto simp: lex_int_def)
    then have "t \<noteq> []" "hd t = hd s"
      using lex_digits_append [OF l] by auto
    then have "\<not> (\<exists>c u. t @ f @ x = c # u \<and> bval c = 48)" using False l
      by (cases t; cases s) (auto simp: lex_digits_def)
    then have "lex_int (t @ f @ x) = lex_digits (t @ f @ x)"
      using \<open>t \<noteq> []\<close> by (cases "t @ f @ x") (auto simp: lex_int_def)
    then show ?thesis using lex_digits_again [OF l nd] by simp
  qed
qed

lemma lex_num_ok: "lex_num s = Some (l, r) \<Longrightarrow> num_ok l"
proof -
  assume a: "lex_num s = Some (l, r)"
  define sg where "sg = (case s of c # _ \<Rightarrow> if bval c = 45 then [c] else [] | [] \<Rightarrow> [])"
  obtain i r1 f r2 x where p: "lex_int (drop (length sg) s) = Some (i, r1)" "lex_frac r1 = Some (f, r2)"
    "lex_exp r2 = Some (x, r)" "l = sg @ i @ f @ x"
    using a unfolding lex_num_def Let_def sg_def [symmetric] by (auto split: option.splits prod.splits)
  have i: "i \<noteq> []" using lex_int_append [OF p(1)] by simp
  have neg: "bval (hd i) \<noteq> 45"
    using p(1) by (auto simp: lex_int_def lex_digits_def is_digit_def split: list.splits if_splits)
  have sg': "(case l of c # _ \<Rightarrow> if bval c = 45 then [c] else [] | [] \<Rightarrow> []) = sg"
    using i neg by (cases s; cases i) (auto simp: sg_def p(4))
  show ?thesis
    using lex_int_again [OF p(1,2,3)] lex_frac_again [OF p(2,3)] lex_exp_again [OF p(3)]
    unfolding num_ok_def lex_num_def Let_def sg' by (simp add: p(4))
qed

lemma next_tok_wf: "next_tok s = Some (TLit v, r) \<Longrightarrow> json_wf v \<and> json_depth v = 0"
  by (auto simp: next_tok_def word_tok_def split: list.splits if_splits dest: lex_str_utf8 lex_num_ok)

text \<open>The open frames hold well-formed values that fit under the depth limit.\<close>
fun frames_wf :: "frame list \<Rightarrow> bool" where
  "frames_wf [] = True"
| "frames_wf (FArr xs # fs) \<longleftrightarrow> length fs < json_max_depth \<and> frames_wf fs
     \<and> list_all (\<lambda>v. json_wf v \<and> Suc (length fs) + json_depth v \<le> json_max_depth) xs"
| "frames_wf (FObj kvs k # fs) \<longleftrightarrow> length fs < json_max_depth \<and> frames_wf fs \<and> utf8 k
     \<and> list_all (\<lambda>(k, v). utf8 k \<and> json_wf v \<and> Suc (length fs) + json_depth v \<le> json_max_depth) kvs"

definition state_wf :: "json + (mode \<times> frame list) \<Rightarrow> bool" where
  "state_wf x \<longleftrightarrow> (case x of Inl v \<Rightarrow> json_wf v \<and> json_depth v \<le> json_max_depth | Inr (m, fs) \<Rightarrow> frames_wf fs)"

lemma deliver_wf:
  "frames_wf fs \<Longrightarrow> json_wf v \<Longrightarrow> length fs + json_depth v \<le> json_max_depth \<Longrightarrow> state_wf (deliver v fs)"
  by (cases "(v, fs)" rule: deliver.cases) (auto simp: state_wf_def)

lemma closed_depth:
  "list_all (\<lambda>v. json_wf v \<and> Suc n + json_depth v \<le> d) xs \<Longrightarrow> n < d \<Longrightarrow> n + json_depth (JArr xs) \<le> d"
  "list_all (\<lambda>(k, v). utf8 k \<and> json_wf v \<and> Suc n + json_depth v \<le> d) kvs \<Longrightarrow> n < d \<Longrightarrow> n + json_depth (JObj kvs) \<le> d"
proof -
  have *: "n + Suc (foldr max ns 0) \<le> d" if "\<forall>m \<in> set ns. Suc n + m \<le> d" "n < d" for ns :: "nat list"
    using that foldr_max_le [of ns "d - Suc n"] by fastforce
  show "list_all (\<lambda>v. json_wf v \<and> Suc n + json_depth v \<le> d) xs \<Longrightarrow> n < d \<Longrightarrow> n + json_depth (JArr xs) \<le> d"
    using * [of "map json_depth xs"] by (auto simp: list_all_iff)
  show "list_all (\<lambda>(k, v). utf8 k \<and> json_wf v \<and> Suc n + json_depth v \<le> d) kvs \<Longrightarrow> n < d \<Longrightarrow> n + json_depth (JObj kvs) \<le> d"
    using * [of "map (\<lambda>(k, v). json_depth v) kvs"] by (fastforce simp: list_all_iff)
qed

lemma close_step_wf: "frames_wf fs \<Longrightarrow> close_step t fs = Some x \<Longrightarrow> state_wf x"
proof (cases fs rule: frames_wf.cases)
  case (2 xs fs')
  assume "frames_wf fs" "close_step t fs = Some x"
  then show ?thesis using closed_depth(1) [of "length fs'" json_max_depth xs]
    by (auto simp: 2 close_step_def list_all_iff intro!: deliver_wf split: if_splits)
next
  case (3 kvs k fs')
  assume "frames_wf fs" "close_step t fs = Some x"
  then show ?thesis using closed_depth(2) [of "length fs'" json_max_depth kvs]
    by (auto simp: 3 close_step_def list_all_iff intro!: deliver_wf split: if_splits)
qed (simp add: close_step_def)

lemma value_step_wf:
  "frames_wf fs \<Longrightarrow> next_tok s = Some (t, r) \<Longrightarrow> value_step t fs = Some x \<Longrightarrow> length fs \<le> json_max_depth \<Longrightarrow> state_wf x"
  by (auto simp: value_step_def state_wf_def split: tok.splits if_splits dest!: next_tok_wf
      intro: deliver_wf [unfolded state_wf_def])

lemma key_step_wf: "frames_wf fs \<Longrightarrow> next_tok s = Some (t, r) \<Longrightarrow> key_step t fs = Some x \<Longrightarrow> state_wf x"
  by (auto simp: key_step_def state_wf_def split: tok.splits json.splits list.splits frame.splits dest!: next_tok_wf)

lemma frames_wf_length: "frames_wf fs \<Longrightarrow> length fs \<le> json_max_depth"
  by (cases fs rule: frames_wf.cases) auto

lemma json_step_wf:
  assumes "frames_wf fs" "next_tok s = Some (t, r)" "json_step m t fs = Some x"
  shows "state_wf x"
proof -
  have *: "value_step t fs = Some x \<Longrightarrow> state_wf x" "key_step t fs = Some x \<Longrightarrow> state_wf x"
    "close_step t fs = Some x \<Longrightarrow> state_wf x"
    using assms frames_wf_length value_step_wf key_step_wf close_step_wf by blast+
  show ?thesis using assms *
    by (cases m) (auto simp: json_step_def state_wf_def split: if_splits list.splits frame.splits)
qed

lemma json_run_wf: "json_run m fs s = Some (v, r) \<Longrightarrow> frames_wf fs \<Longrightarrow> json_wf v \<and> json_depth v \<le> json_max_depth"
proof (induction m fs s rule: json_run.induct)
  case (1 m fs s)
  obtain t u x where st: "next_tok s = Some (t, u)" "json_step m t fs = Some x"
    using 1(2) by (auto simp: json_run.simps [of m fs s] split: option.splits)
  have wf: "state_wf x" by (rule json_step_wf [OF 1(3) st])
  show ?case
  proof (cases x)
    case (Inl w)
    then show ?thesis using 1(2) st wf by (simp add: json_run.simps [of m fs s] state_wf_def)
  next
    case (Inr p)
    obtain m' fs' where p: "p = (m', fs')" by force
    have "json_run m' fs' u = Some (v, r)" using 1(2) st Inr by (simp add: json_run.simps [of m fs s] p)
    then show ?thesis using 1(1) [OF st(1) refl st(2) Inr p [symmetric]] wf Inr p by (simp add: state_wf_def)
  qed
qed

lemma json_prefix_wf: "json_prefix s = Some (v, r) \<Longrightarrow> json_wf v \<and> json_depth v \<le> json_max_depth"
  unfolding json_prefix_def by (erule json_run_wf) simp

section \<open>Compaction\<close>

text \<open>What \<open>json.Marshal\<close> wrote is not changed when it is marshalled again as a raw message.\<close>
definition compact :: "string \<Rightarrow> bool" where
  "compact t \<longleftrightarrow> (\<forall>r. compact_aux False (t @ r) = t @ compact_aux False r)"

lemma pieces_cases: "p \<in> set (pieces s) \<Longrightarrow> piece_ok p \<or> (\<exists>c. p = (rune_error, [c]))"
proof (induction s rule: pieces.induct)
  case (1 s)
  show ?case
  proof (cases "s = []")
    case False
    obtain r n where d: "decode_rune s = (r, n)" by force
    have n: "1 \<le> n" "n \<le> length s" using decode_rune_length [OF False] d by auto
    then have p: "pieces s = (r, take n s) # pieces (drop n s)"
      using False d by (simp add: pieces.simps [of s] max_def)
    have "piece_ok (r, take n s) \<or> (\<exists>c. (r, take n s) = (rune_error, [c]))"
    proof (cases "r = rune_error \<and> n = 1")
      case True
      then show ?thesis using False by (cases s) auto
    next
      case ok: False
      then show ?thesis
        using decode_rune_local [OF d False ok] encode_decode_rune [OF d False ok] n False by (auto simp: piece_ok_def)
    qed
    then show ?thesis using 1(1) [OF False d [symmetric]] 1(2) n by (auto simp: p max_def)
  qed (use 1 in simp)
qed

lemma compact_escape: "compact_aux True (u_escape n @ r) = u_escape n @ compact_aux True r"
proof -
  have h: "compact_aux True (hex_digit k # s) = hex_digit k # compact_aux True s" if k: "k < 16" for k s
  proof -
    have "bval (hex_digit k) \<notin> {60, 62, 38, 34, 92, 226}"
      using hex_val_digit [OF k] by (auto simp: hex_val_def)
    then show ?thesis by simp
  qed
  have "compact_aux True (bchr 92 # CHR ''u'' # s) = bchr 92 # CHR ''u'' # compact_aux True s" for s
    by simp
  then show ?thesis by (simp add: u_escape_def hex_quad_def h del: compact_aux.simps)
qed

lemma compact_raw_piece:
  assumes "piece_ok (r, b)" "128 \<le> r" "r \<noteq> 8232" "r \<noteq> 8233"
  shows "compact_aux True (b @ t) = b @ compact_aux True t"
proof -
  have b: "b \<noteq> []" "decode_rune b = (r, length b)" using assms(1) by (auto simp: piece_ok_def dest: spec [of _ "[]"])
  have high: "compact_aux True (c # s) = c # compact_aux True s" if "128 \<le> bval c" "bval c \<noteq> 226" for c s
    using that by (simp add: has_prefix_def)
  from b(1) show ?thesis
  proof (cases rule: decode_rune_cases)
    case (one c t')
    then show ?thesis using b(2) assms(2) by simp
  next
    case (two c d t')
    then have "b = [c, d]" using b(2) by simp
    then show ?thesis using two high by (simp del: compact_aux.simps)
  next
    case (three c d e t')
    then have bb: "b = [c, d, e]" and r: "r = (bval c - 224) * 4096 + (bval d - 128) * 64 + (bval e - 128)"
      using b(2) by simp_all
    have de: "128 \<le> bval d" "bval d \<le> 191" using second_ok_cont [OF three(4)] by simp_all
    have "compact_aux True (c # d # e # t) = c # compact_aux True (d # e # t)"
    proof (cases "bval c = 226")
      case True
      have "\<not> (d = bchr 128 \<and> (e = bchr 168 \<or> e = bchr 169))"
        using r assms(3,4) True by auto
      then show ?thesis using True by (auto simp: has_prefix_def)
    qed (use high three in simp)
    then show ?thesis using de three(5,6) high by (simp add: bb del: compact_aux.simps)
  next
    case (four c d e f t')
    then have bb: "b = [c, d, e, f]" using b(2) by simp
    have de: "128 \<le> bval d" "bval d \<le> 191" using second_ok_cont [OF four(4)] by simp_all
    then show ?thesis using four high by (simp add: bb del: compact_aux.simps)
  next
    case (bad c t')
    then have "b = [c]" "r = rune_error" using b(2) by simp_all
    then have "encode_rune rune_error = [c]" using assms(1) by (simp add: piece_ok_def)
    then show ?thesis by (simp add: encode_rune_def rune_error_def Let_def)
  qed
qed

lemma compact_quote_piece:
  assumes "p \<in> set (pieces s)"
  shows "compact_aux True (quote_piece p @ t) = quote_piece p @ compact_aux True t"
proof -
  obtain r b where p: "p = (r, b)" by force
  consider (bad) c where "r = rune_error" "b = [c]" | (ok) "piece_ok (r, b)"
    using pieces_cases [OF assms] p by auto
  then show ?thesis
  proof cases
    case bad
    then show ?thesis by (simp add: p quote_piece_def compact_escape) (simp add: rune_error_def)
  next
    case ok
    show ?thesis
    proof (cases "r < 128")
      case True
      then have b: "b = [bchr r]" using ok by (simp add: piece_ok_def encode_rune_ascii)
      have esc: "compact_aux True (bchr 92 # c # t) = bchr 92 # c # compact_aux True t" for c
        by (simp add: has_prefix_def)
      have "compact_aux True (bchr r # t) = bchr r # compact_aux True t"
        if "r \<noteq> 60" "r \<noteq> 62" "r \<noteq> 38" "r \<noteq> 92" "r \<noteq> 34"
        using that True by (simp add: has_prefix_def)
      then show ?thesis using True compact_escape [of r t] esc unfolding p quote_piece_def b
        by (simp del: compact_aux.simps)
    next
      case False
      then show ?thesis
        using compact_raw_piece [OF ok] compact_escape [of r t] compact_escape [of rune_error t]
        by (auto simp: p quote_piece_def simp del: compact_aux.simps)
    qed
  qed
qed

lemma compact_quote: "compact (json_quote s)"
proof -
  have "compact_aux True (concat (map quote_piece ps) @ bchr 34 # r) = concat (map quote_piece ps) @ bchr 34 # compact_aux False r"
    if "set ps \<subseteq> set (pieces s)" for ps r
    using that
  proof (induction ps)
    case (Cons p ps)
    then show ?case using compact_quote_piece [of p s] by (simp del: compact_aux.simps)
  qed simp
  then show ?thesis by (simp add: compact_def json_quote_def)
qed

lemma compact_append: "compact s \<Longrightarrow> compact t \<Longrightarrow> compact (s @ t)"
  by (simp add: compact_def)

lemma compact_Nil: "compact []"
  by (simp add: compact_def)

text \<open>Bytes that compaction leaves alone outside strings.\<close>
definition plain_char :: "char \<Rightarrow> bool" where
  "plain_char c \<longleftrightarrow> \<not> json_ws c \<and> bval c \<notin> {60, 62, 38, 34, 226}"

lemma compact_plain: "list_all plain_char t \<Longrightarrow> compact t"
proof (induction t)
  case (Cons c t)
  then show ?case by (simp add: compact_def plain_char_def has_prefix_def)
qed (simp add: compact_Nil)

lemma compact_concat: "list_all compact ts \<Longrightarrow> compact (concat ts)"
  by (induction ts) (auto intro: compact_append compact_Nil)

lemma compact_Cons: "plain_char c \<Longrightarrow> compact t \<Longrightarrow> compact (c # t)"
  using compact_append [of "[c]" t] compact_plain [of "[c]"] by simp

lemma plain_marks [simp]:
  "plain_char CHR ''{''" "plain_char CHR ''}''" "plain_char CHR ''[''" "plain_char CHR '']''"
  "plain_char CHR '',''" "plain_char CHR '':''"
  by (simp_all add: plain_char_def json_ws_def bval_Char)

lemma compact_comma: "list_all compact ts \<Longrightarrow> compact (comma ts)"
proof (cases ts)
  case (Cons t us)
  assume "list_all compact ts"
  then have "compact t" "list_all compact (map (Cons (CHR '','')) us)"
    by (auto simp: Cons list_all_iff intro: compact_Cons)
  then show ?thesis by (simp add: Cons compact_append compact_concat)
qed (simp add: compact_Nil)

lemma compact_obj:
  assumes "list_all (\<lambda>(k, t). compact t) kts"
  shows "compact (obj_text kts)"
proof -
  have "compact (member_text (k, t))" if "(k, t) \<in> set kts" for k t
  proof -
    have "compact t" using that assms by (auto simp: list_all_iff)
    then show ?thesis by (simp add: compact_append compact_quote compact_Cons)
  qed
  then have "list_all compact (map member_text kts)" by (auto simp: list_all_iff)
  then show ?thesis
    by (simp add: obj_text_def compact_Cons compact_append compact_comma compact_plain)
qed

lemma compact_arr: "list_all compact ts \<Longrightarrow> compact (arr_text ts)"
  by (simp add: arr_text_def compact_Cons compact_append compact_comma compact_plain)

lemma lex_digits_plain: "lex_digits s = Some (t, r) \<Longrightarrow> list_all plain_char t"
  by (auto simp: lex_digits_def list_all_iff plain_char_def json_ws_def is_digit_def split: if_splits dest!: set_takeWhileD)

lemma num_ok_plain: "num_ok l \<Longrightarrow> list_all plain_char l"
proof -
  assume n: "num_ok l"
  define sg where "sg = (case l of c # _ \<Rightarrow> if bval c = 45 then [c] else [] | [] \<Rightarrow> [])"
  obtain i r1 f r2 x where p: "l = sg @ i @ f @ x"
    "lex_int (drop (length sg) l) = Some (i, r1)" "lex_frac r1 = Some (f, r2)" "lex_exp r2 = Some (x, [])"
    using n unfolding num_ok_def lex_num_def Let_def sg_def [symmetric] by (auto split: option.splits prod.splits)
  have sg: "list_all plain_char sg" by (simp add: sg_def plain_char_def json_ws_def split: list.split)
  have "list_all plain_char i" using p(2) lex_digits_plain
    by (auto simp: lex_int_def plain_char_def json_ws_def split: list.splits if_splits)
  moreover have "list_all plain_char f" using p(3) lex_digits_plain
    by (auto simp: lex_frac_def plain_char_def json_ws_def split: list.splits if_splits)
  moreover have "list_all plain_char x" using p(4) lex_digits_plain
    by (auto simp: lex_exp_def plain_char_def json_ws_def split: list.splits if_splits)
  ultimately show ?thesis using sg by (subst p(1)) simp
qed

lemma compact_json_text: "json_wf v \<Longrightarrow> compact (json_text (\<lambda>l. l) v)"
proof (induction v)
  case (JObj kvs)
  have "compact (json_text (\<lambda>l. l) v)" if "(k, v) \<in> set (go_map kvs)" for k v
    using that set_go_map JObj.IH [of "(k, v)" v] JObj.prems by (fastforce simp: list_all_iff)
  then show ?case by (auto simp: go_map_map list_all_iff intro!: compact_obj)
next
  case (JArr xs)
  then show ?case by (auto simp: list_all_iff intro!: compact_arr)
next
  case (JBool b)
  then show ?case by (cases b) (auto simp: bool_text_def plain_char_def json_ws_def bval_Char intro!: compact_plain)
next
  case JNull
  then show ?case by (auto simp: plain_char_def json_ws_def bval_Char intro!: compact_plain)
qed (simp_all add: compact_quote compact_plain num_ok_plain)

lemma json_compact_id: "compact t \<Longrightarrow> json_compact t = t"
  unfolding compact_def json_compact_def by (metis append.right_neutral compact_aux.simps(1))

section \<open>Normal form\<close>

lemma json_wf_norm: "json_wf v \<Longrightarrow> json_wf (json_norm v)"
proof (induction v)
  case (JObj kvs)
  then have "\<forall>(k, v) \<in> set kvs. utf8 k \<and> json_wf (json_norm v)" by (fastforce simp: list_all_iff)
  then show ?case using set_go_map [of kvs] by (fastforce simp: go_map_map list_all_iff)
qed (auto simp: list_all_iff)

lemma length_comma: "t \<in> set ts \<Longrightarrow> length t \<le> length (comma ts)"
proof (induction ts)
  case (Cons a ts)
  have "length t \<le> (\<Sum>x\<leftarrow>ts. Suc (length x))" if "t \<in> set ts"
    using member_le_sum_list [of "Suc (length t)" "map (\<lambda>x. Suc (length x)) ts"] that by force
  then show ?case using Cons.prems by (auto simp: length_concat comp_def intro: trans_le_add2)
qed simp

text \<open>Every level of nesting takes two bytes.\<close>
lemma depth_length: "2 * json_depth (json_norm v) \<le> length (json_text f v)"
proof (induction v)
  case (JArr xs)
  have "json_depth (json_norm x) \<le> length (comma (map (json_text f) xs)) div 2" if "x \<in> set xs" for x
    using JArr [OF that] length_comma [of "json_text f x" "map (json_text f) xs"] that by fastforce
  then have "foldr max (map (json_depth \<circ> json_norm) xs) 0 \<le> length (comma (map (json_text f) xs)) div 2"
    by (auto simp: foldr_max_le)
  then show ?case by (simp add: arr_text_def)
next
  case (JObj kvs)
  let ?ts = "map member_text (map (\<lambda>(k, v). (k, json_text f v)) (go_map kvs))"
  have "json_depth (json_norm v) \<le> length (comma ?ts) div 2" if "(k, v) \<in> set (go_map kvs)" for k v
  proof -
    have "(k, v) \<in> set kvs" using that set_go_map by blast
    then have "2 * json_depth (json_norm v) \<le> length (json_text f v)" using JObj by fastforce
    moreover have "length (member_text (k, json_text f v)) \<le> length (comma ?ts)"
      using that by (intro length_comma) (force simp: image_iff)
    ultimately show ?thesis by simp
  qed
  then have "foldr max (map (\<lambda>(k, v). json_depth v) (map (\<lambda>(k, v). (k, json_norm v)) (go_map kvs))) 0
      \<le> length (comma ?ts) div 2"
    by (fastforce simp: foldr_max_le)
  then show ?case by (simp add: obj_text_def go_map_map)
qed simp_all

end
