(* ===== verification/Agent_Remote.thy ===== *)
theory Agent_Remote
  imports Agent_Wire Json_Text
begin

text \<open>
  The authenticated transport of agent sessions, \<open>packages/go/agentwire/remote.go\<close>: the proofs
  and credentials of the handshake, the catalog of endpoints (\<open>NewRemoteFactory\<close>,
  \<open>ValidateEndpoint\<close>), the client's \<open>Open\<close>, \<open>Send\<close> and \<open>read\<close>, and the server's admission,
  \<open>readCommands\<close> and event loop (\<open>ServeHTTP\<close>). HMAC-SHA-256, the URL parser and the IP parser are
  arguments. A frame is a pair: is it a text frame, and its data.
\<close>

type_synonym frame_in = "bool \<times> string"

section \<open>Proofs\<close>

text \<open>What is signed with the token, and the hexadecimal signature (\<open>mac key msg\<close> is the HMAC).\<close>

definition proof_message :: "string \<Rightarrow> string \<Rightarrow> string \<Rightarrow> string" where
  "proof_message protocol agentID nonce = protocol @ bchr 0 # agentID @ bchr 0 # nonce"

definition credential_message :: "string \<Rightarrow> string \<Rightarrow> string" where
  "credential_message protocol agentID = protocol @ bchr 0 # ''client-bearer'' @ bchr 0 # agentID"

definition server_proof ::
  "(string \<Rightarrow> string \<Rightarrow> byte list) \<Rightarrow> string \<Rightarrow> string \<Rightarrow> string \<Rightarrow> string \<Rightarrow> string"
where
  "server_proof mac protocol token agentID nonce =
     hex_encode (mac token (proof_message protocol agentID nonce))"

definition credential ::
  "(string \<Rightarrow> string \<Rightarrow> byte list) \<Rightarrow> string \<Rightarrow> string \<Rightarrow> string \<Rightarrow> string"
where
  "credential mac protocol token agentID = hex_encode (mac token (credential_message protocol agentID))"

section \<open>The catalog\<close>

record endpoint =
  ep_Protocol :: string
  ep_AgentID :: string
  ep_URL :: string
  ep_Token :: string

text \<open>What \<open>net/url\<close> finds in a URL.\<close>
record parsed_url =
  pu_Scheme :: string
  pu_User :: bool
  pu_Host :: string
  pu_Hostname :: string
  pu_RawQuery :: string
  pu_Fragment :: string

text \<open>\<open>loopback\<close> is \<open>ip != nil && ip.IsLoopback()\<close> of the parsed host.\<close>
definition ValidateEndpoint ::
  "(string \<Rightarrow> parsed_url option) \<Rightarrow> (string \<Rightarrow> bool) \<Rightarrow> endpoint \<Rightarrow> error option"
where
  "ValidateEndpoint parse loopback ep =
     (if \<not> identifier_ok (ep_AgentID ep) \<or> ep_Token ep = []
      then Some ''agent endpoint requires trusted identity and token''
      else (case parse (ep_URL ep) of
          None \<Rightarrow> Some ''invalid agent endpoint URL''
        | Some u \<Rightarrow>
            if pu_User u \<or> pu_RawQuery u \<noteq> [] \<or> pu_Fragment u \<noteq> [] \<or> pu_Host u = []
               \<or> (pu_Scheme u \<noteq> ''ws'' \<and> pu_Scheme u \<noteq> ''wss'')
            then Some ''invalid agent endpoint URL''
            else if pu_Scheme u = ''ws'' \<and> pu_Hostname u \<noteq> ''localhost'' \<and> \<not> loopback (pu_Hostname u)
            then Some ''unencrypted Agent Session endpoint must be loopback''
            else None))"

fun add_endpoints ::
  "(string \<Rightarrow> parsed_url option) \<Rightarrow> (string \<Rightarrow> bool) \<Rightarrow> endpoint list \<Rightarrow> endpoint gomap \<Rightarrow> error + endpoint gomap"
where
  "add_endpoints parse loopback [] f = Inr f"
| "add_endpoints parse loopback (ep0 # eps) f =
     (let ep = (if ep_Protocol ep0 = [] then ep0\<lparr>ep_Protocol := Protocol\<rparr> else ep0) in
      if ep_Protocol ep \<noteq> Protocol \<and> ep_Protocol ep \<noteq> ProtocolV2
      then Inl ''unsupported agent protocol''
      else (case ValidateEndpoint parse loopback ep of
          Some err \<Rightarrow> Inl err
        | None \<Rightarrow>
            if gget f (ep_AgentID ep) \<noteq> None then Inl ''duplicate agent identity''
            else add_endpoints parse loopback eps (gput (ep_AgentID ep) ep f)))"

definition NewRemoteFactory ::
  "(string \<Rightarrow> parsed_url option) \<Rightarrow> (string \<Rightarrow> bool) \<Rightarrow> endpoint list \<Rightarrow> error + endpoint gomap"
where
  "NewRemoteFactory parse loopback eps =
     (if length eps = 0 \<or> length eps > 16 then Inl ''agent catalog requires one to sixteen endpoints''
      else add_endpoints parse loopback eps [])"

lemma add_endpoints_Inr:
  "add_endpoints parse loopback eps f = Inr g \<Longrightarrow>
     distinct (map ep_AgentID eps) \<and> (\<forall>ep \<in> set eps. gget f (ep_AgentID ep) = None)
     \<and> (\<forall>k. gget g k = (case find (\<lambda>ep. ep_AgentID ep = k) eps of None \<Rightarrow> gget f k
           | Some ep \<Rightarrow> Some (if ep_Protocol ep = [] then ep\<lparr>ep_Protocol := Protocol\<rparr> else ep)))"
proof (induction eps arbitrary: f)
  case (Cons ep0 eps)
  define ep where "ep = (if ep_Protocol ep0 = [] then ep0\<lparr>ep_Protocol := Protocol\<rparr> else ep0)"
  have [simp]: "ep_AgentID ep = ep_AgentID ep0" by (simp add: ep_def)
  have new: "gget f (ep_AgentID ep0) = None"
    and rest: "add_endpoints parse loopback eps (gput (ep_AgentID ep0) ep f) = Inr g"
    using Cons.prems by (auto simp: Let_def ep_def[symmetric] split: if_splits option.splits)
  note IH = Cons.IH[OF rest]
  have other: "\<forall>e \<in> set eps. ep_AgentID e \<noteq> ep_AgentID ep0 \<and> gget f (ep_AgentID e) = None"
    using IH by (auto split: if_splits)
  have "find (\<lambda>e. ep_AgentID e = ep_AgentID ep0) eps = None"
    using other by (auto simp: find_None_iff)
  then show ?case
    using IH other new by (auto simp: ep_def split: option.split)
qed simp

section \<open>The client\<close>

text \<open>
  \<open>RemoteFactory.Open\<close>: the request it sends, and what it makes of the answer. \<open>nonce\<close> is the
  random challenge; \<open>dial\<close> is the outcome of the connection: refused with or without a response,
  or accepted with the proof header and the first frame (\<open>None\<close> is a read error).
\<close>
datatype dial_outcome = Rejected | Unavailable | Accepted string bool "frame_in option"

definition open_headers ::
  "(string \<Rightarrow> string \<Rightarrow> byte list) \<Rightarrow> endpoint \<Rightarrow> byte list \<Rightarrow> (string \<times> string) list"
where
  "open_headers mac ep nonce =
     [(''Authorization'', ''Bearer '' @ credential mac (ep_Protocol ep) (ep_Token ep) (ep_AgentID ep)),
      (''X-STS-Agent-Protocol'', ep_Protocol ep), (''X-STS-Agent-Nonce'', hex_encode nonce)]"

definition open_message :: "endpoint \<Rightarrow> session_start \<Rightarrow> message" where
  "open_message ep start = zero_message\<lparr>mg_Protocol := ep_Protocol ep, mg_Kind := OpenSession,
     mg_AgentID := st_AgentID start, mg_Start := Some start\<rparr>"

definition RemoteOpen ::
  "(string \<Rightarrow> string \<Rightarrow> byte list) \<Rightarrow> endpoint gomap \<Rightarrow> byte list \<Rightarrow> session_start \<Rightarrow> dial_outcome
   \<Rightarrow> error + endpoint"
where
  "RemoteOpen mac f nonce start dial =
     (case gget f (st_AgentID start) of
        None \<Rightarrow> Inl ''unknown agent identity''
      | Some ep \<Rightarrow>
        (case dial of
           Rejected \<Rightarrow> Inl ''agent endpoint rejected session''
         | Unavailable \<Rightarrow> Inl ''agent endpoint unavailable''
         | Accepted header wrote frame \<Rightarrow>
             if header \<noteq> server_proof mac (ep_Protocol ep) (ep_Token ep) (ep_AgentID ep) (hex_encode nonce)
             then Inl ''agent endpoint identity mismatch''
             else if \<not> wrote then Inl ''agent session open failed''
             else (case frame of
                 None \<Rightarrow> Inl ''agent session handshake failed''
               | Some (is_text, data) \<Rightarrow>
                   if \<not> is_text then Inl ''agent session handshake failed''
                   else (case DecodeProtocol data (ep_Protocol ep) of
                       Inl _ \<Rightarrow> Inl ''agent session protocol mismatch''
                     | Inr m \<Rightarrow>
                         if ValidateAccepted (st_AgentID start) m \<noteq> None \<or> mg_Protocol m \<noteq> ep_Protocol ep
                         then Inl ''agent session protocol mismatch'' else Inr ep))))"

definition error_event :: "string \<Rightarrow> string \<Rightarrow> agent_event" where
  "error_event code msg = zero_agent_event\<lparr>ae_Type := AgentError, ae_Code := code, ae_Message := msg\<rparr>"

text \<open>
  \<open>read\<close>: the events it delivers from the frames it reads. The end of the frames is a read error;
  \<open>closing\<close> says that the session is being closed, \<open>room\<close> that the queue has room for the last
  event, which is dropped otherwise.
\<close>
fun remote_read :: "string \<Rightarrow> bool \<Rightarrow> bool \<Rightarrow> frame_in list \<Rightarrow> agent_event list" where
  "remote_read proto closing room [] =
     (if closing \<or> \<not> room then [] else [error_event ''agent_disconnected'' ''agent session disconnected''])"
| "remote_read proto closing room ((is_text, data) # fs) =
     (if \<not> is_text then
        (if room then [error_event ''agent_protocol_error'' ''agent returned a non-text frame''] else [])
      else (case DecodeProtocol data proto of
          Inl _ \<Rightarrow>
            (if room then [error_event ''agent_protocol_error'' ''agent returned an invalid event''] else [])
        | Inr m \<Rightarrow>
            if ValidateEvent m \<noteq> None \<or> mg_Protocol m \<noteq> proto
            then (if room then [error_event ''agent_protocol_error'' ''agent returned an invalid event''] else [])
            else (case mg_Event m of
                None \<Rightarrow> []
              | Some e \<Rightarrow> e # remote_read proto closing room fs)))"

text \<open>\<open>Send\<close>: the message that is written, or the error.\<close>
definition RemoteSend :: "string \<Rightarrow> string \<Rightarrow> bool \<Rightarrow> bool \<Rightarrow> agent_command \<Rightarrow> error + message" where
  "RemoteSend proto sessionID ended wrote c =
     (let m = zero_message\<lparr>mg_Protocol := proto, mg_Kind := SessionCommand, mg_Command := Some c\<rparr> in
      case ValidateCommand sessionID m of
        Some err \<Rightarrow> Inl err
      | None \<Rightarrow>
          if ended then Inl ''agent session closed''
          else if \<not> wrote then Inl ''agent session write failed'' else Inr m)"

section \<open>The server\<close>

record server_config =
  sc_Protocol :: string
  sc_AgentID :: string
  sc_Token :: string
  sc_ReadTimeout :: duration
  sc_WriteTimeout :: duration
  sc_IdleTimeout :: duration
  sc_MaxSessions :: int

definition NewHandler :: "server_config \<Rightarrow> bool \<Rightarrow> error + server_config" where
  "NewHandler config0 has_factory =
     (let config = (if sc_Protocol config0 = [] then config0\<lparr>sc_Protocol := Protocol\<rparr> else config0) in
      if sc_Protocol config \<noteq> Protocol \<and> sc_Protocol config \<noteq> ProtocolV2
      then Inl ''unsupported agent protocol''
      else if \<not> identifier_ok (sc_AgentID config) \<or> sc_Token config = [] \<or> \<not> has_factory
           \<or> sc_ReadTimeout config \<le> 0 \<or> sc_WriteTimeout config \<le> 0 \<or> sc_IdleTimeout config \<le> 0
           \<or> sc_MaxSessions config \<le> 0 \<or> sc_MaxSessions config > MaxRemoteSessions
      then Inl ''invalid Agent Session server configuration''
      else Inr config)"

record http_request =
  rq_Path :: string
  rq_Method :: string
  rq_Authorization :: string
  rq_Protocol :: string
  rq_Nonce :: string
  rq_Origin :: string

datatype admission = NotFound | Unauthorized | BadChallenge | CapacityReached | Upgrade string

text \<open>\<open>used\<close> is the number of sessions that hold a slot.\<close>
definition admit ::
  "(string \<Rightarrow> string \<Rightarrow> byte list) \<Rightarrow> server_config \<Rightarrow> int \<Rightarrow> http_request \<Rightarrow> admission"
where
  "admit mac config used r =
     (let path = (if sc_Protocol config = ProtocolV2 then ''/v2/session'' else ''/v1/session'') in
      if rq_Path r \<noteq> path \<or> rq_Method r \<noteq> ''GET'' then NotFound
      else if rq_Authorization r
             \<noteq> ''Bearer '' @ credential mac (sc_Protocol config) (sc_Token config) (sc_AgentID config)
           \<or> rq_Protocol r \<noteq> sc_Protocol config
      then Unauthorized
      else (case hex_decode (rq_Nonce r) of
          None \<Rightarrow> BadChallenge
        | Some nonce \<Rightarrow>
            if length nonce \<noteq> 32 then BadChallenge
            else if used \<ge> sc_MaxSessions config then CapacityReached
            else Upgrade (server_proof mac (sc_Protocol config) (sc_Token config) (sc_AgentID config) (rq_Nonce r))))"

text \<open>The sessions that hold a slot, as requests come and sessions end.\<close>
datatype slot_event = Arrives http_request | Leaves

fun slot_step :: "(string \<Rightarrow> string \<Rightarrow> byte list) \<Rightarrow> server_config \<Rightarrow> int \<Rightarrow> slot_event \<Rightarrow> int" where
  "slot_step mac config used (Arrives r) =
     (case admit mac config used r of Upgrade _ \<Rightarrow> used + 1 | _ \<Rightarrow> used)"
| "slot_step mac config used Leaves = (if 0 < used then used - 1 else used)"

text \<open>The first frame: the session to open, or \<open>None\<close> where the connection is refused.\<close>
definition serve_open :: "server_config \<Rightarrow> frame_in option \<Rightarrow> session_start option" where
  "serve_open config frame =
     (case frame of
        None \<Rightarrow> None
      | Some (is_text, data) \<Rightarrow>
          if \<not> is_text then None
          else (case DecodeProtocol data (sc_Protocol config) of
              Inl _ \<Rightarrow> None
            | Inr m \<Rightarrow>
                if ValidateOpen m \<noteq> None \<or> mg_AgentID m \<noteq> sc_AgentID config
                   \<or> mg_Protocol m \<noteq> sc_Protocol config
                then None
                else (case mg_Start m of
                    None \<Rightarrow> None | Some s \<Rightarrow> Some (s\<lparr>st_Protocol := sc_Protocol config\<rparr>))))"

definition accepted_message :: "server_config \<Rightarrow> message" where
  "accepted_message config = zero_message\<lparr>mg_Protocol := sc_Protocol config, mg_Kind := SessionAccepted,
     mg_AgentID := sc_AgentID config\<rparr>"

text \<open>\<open>readCommands\<close>: the commands queued from the frames, up to the first frame that is not one.\<close>
fun readCommands :: "string \<Rightarrow> string \<Rightarrow> frame_in list \<Rightarrow> agent_command list" where
  "readCommands proto sessionID [] = []"
| "readCommands proto sessionID ((is_text, data) # fs) =
     (if \<not> is_text then []
      else (case DecodeProtocol data proto of
          Inl _ \<Rightarrow> []
        | Inr m \<Rightarrow>
            if ValidateCommand sessionID m \<noteq> None \<or> mg_Protocol m \<noteq> proto then []
            else (case mg_Command m of
                None \<Rightarrow> [] | Some c \<Rightarrow> c # readCommands proto sessionID fs)))"

text \<open>
  The loop of \<open>ServeHTTP\<close>. Each turn one of the channels is ready; \<open>True\<close> says that the write or
  the \<open>Send\<close> of that turn succeeds.
\<close>
datatype serve_input =
    ContextDone
  | Heartbeat bool
  | ReadError
  | Queued agent_command bool
  | FromSession agent_event bool
  | SessionEnded

datatype serve_output = Ping | ToSession agent_command | ToPeer message

definition wire_event :: "string \<Rightarrow> agent_event \<Rightarrow> message" where
  "wire_event proto e = zero_message\<lparr>mg_Protocol := proto, mg_Kind := SessionEvent, mg_Event := Some e\<rparr>"

text \<open>The outputs of one turn, and whether the loop goes on.\<close>
definition serve_turn :: "string \<Rightarrow> serve_input \<Rightarrow> serve_output list \<times> bool" where
  "serve_turn proto i =
     (case i of
        ContextDone \<Rightarrow> ([], False)
      | Heartbeat ok \<Rightarrow> ([Ping], ok)
      | ReadError \<Rightarrow> ([], False)
      | Queued c ok \<Rightarrow> ([ToSession c], ok)
      | SessionEnded \<Rightarrow> ([], False)
      | FromSession e ok \<Rightarrow>
          if ValidateEvent (wire_event proto e) \<noteq> None then ([], False)
          else if \<not> ok then ([], False)
          else ([ToPeer (wire_event proto e)], ae_Type e \<noteq> AgentSessionClosed))"

fun serve_loop :: "string \<Rightarrow> serve_input list \<Rightarrow> serve_output list" where
  "serve_loop proto [] = []"
| "serve_loop proto (i # is) =
     (case serve_turn proto i of (out, goes) \<Rightarrow> out @ (if goes then serve_loop proto is else []))"

section \<open>The two signatures are of different texts\<close>

text \<open>An identifier has no zero byte.\<close>
lemma identifier_no_nul: "identifier_ok s \<Longrightarrow> bchr 0 \<notin> set s"
proof
  assume "identifier_ok s" "bchr 0 \<in> set s"
  then have "ident_char (bchr 0)" by (simp add: identifier_ok_iff)
  then show False
    by (simp add: ident_char_def is_alnum_def is_alpha_def is_lower_def is_upper_def is_digit_def)
qed

lemma nul_split:
  "x \<notin> set a \<Longrightarrow> x \<notin> set b \<Longrightarrow> a @ x # r = b @ x # r' \<longleftrightarrow> a = b \<and> r = r'"
  by (induction a arbitrary: b) (case_tac b; auto)+

lemma proof_message_inj:
  assumes "identifier_ok a" "identifier_ok a'"
  shows "proof_message p a n = proof_message p a' n' \<longleftrightarrow> a = a' \<and> n = n'"
  using assms by (simp add: proof_message_def nul_split identifier_no_nul)

text \<open>
  The server's proof is never over the text of the client's credential of the same agent,
  whatever the challenge of 32 bytes, and proofs over different agents or challenges are over
  different texts: what one side sends in the handshake is not what the other must answer.
\<close>
theorem proofs_separated:
  assumes "identifier_ok agent" "identifier_ok agent'" "length nonce = 32" "length nonce' = 32"
  shows "proof_message p agent (hex_encode nonce) \<noteq> credential_message p agent
    \<and> (proof_message p agent (hex_encode nonce) = proof_message p agent' (hex_encode nonce')
       \<longleftrightarrow> agent = agent' \<and> nonce = nonce')"
proof -
  have nul: "bchr 0 \<notin> set ''client-bearer''"
    by (simp add: bchr_def char_of_def)
  have "agent \<noteq> ''client-bearer'' \<or> hex_encode nonce \<noteq> agent"
  proof (rule ccontr)
    assume "\<not> ?thesis"
    then have "length (hex_encode nonce) = 13" by simp
    then show False using assms(3) by simp
  qed
  then have "proof_message p agent (hex_encode nonce) \<noteq> credential_message p agent"
    unfolding proof_message_def credential_message_def
    using nul_split [OF identifier_no_nul [OF assms(1)] nul] by (metis same_append_eq list.inject)
  moreover have "hex_encode nonce = hex_encode nonce' \<longleftrightarrow> nonce = nonce'"
    using hexc.enc_inj by blast
  ultimately show ?thesis using proof_message_inj [OF assms(1,2)] by simp
qed

theorem proofs_separated_witness:
  "proof_message Protocol ''a'' (hex_encode (replicate 32 0)) \<noteq> credential_message Protocol ''a''"
proof -
  have "identifier_ok ''a''"
    by (simp add: identifier_ok_def is_alnum_def is_alpha_def is_lower_def bval_Char)
  from proofs_separated [OF this this, of "replicate 32 0" "replicate 32 0" Protocol]
  show ?thesis by simp
qed

section \<open>Only valid messages cross\<close>

lemma ValidateEvent_Some:
  "ValidateEvent m = None \<Longrightarrow> mg_Event m = Some e \<Longrightarrow> event_error (mg_Protocol m) e = None"
  by (simp add: ValidateEvent_def split: if_splits)

lemma error_event_valid: "c \<noteq> [] \<Longrightarrow> t \<noteq> [] \<Longrightarrow> event_error p (error_event c t) = None"
  by (simp add: error_event_def event_error_def zero_agent_event_def)

text \<open>
  Every event a remote session delivers satisfies the event rules of its protocol version,
  whatever frames the peer sends, the error events it makes up itself included.
\<close>
theorem remote_read_valid:
  "list_all (\<lambda>e. event_error proto e = None) (remote_read proto closing room frames)"
proof (induction proto closing room frames rule: remote_read.induct)
  case (1 proto closing room)
  then show ?case by (simp add: error_event_valid)
next
  case (2 proto closing room is_text data fs)
  show ?case
  proof (cases "is_text")
    case istext: True
    show ?thesis
    proof (cases "DecodeProtocol data proto")
      case (Inr m)
      show ?thesis
      proof (cases "ValidateEvent m \<noteq> None \<or> mg_Protocol m \<noteq> proto")
        case False
        then show ?thesis
          using 2 istext Inr ValidateEvent_Some [of m]
          by (cases "mg_Event m") auto
      qed (use istext Inr in \<open>auto simp: error_event_valid\<close>)
    qed (use istext in \<open>auto simp: error_event_valid\<close>)
  qed (simp add: error_event_valid)
qed

definition serve_output_ok :: "string \<Rightarrow> string \<Rightarrow> serve_output \<Rightarrow> bool" where
  "serve_output_ok proto sessionID x \<longleftrightarrow>
     (case x of
        Ping \<Rightarrow> True
      | ToSession c \<Rightarrow> command_error c = None \<and> ac_SessionID c = sessionID
      | ToPeer m \<Rightarrow> ValidateEvent m = None \<and> mg_Protocol m = proto)"

lemma readCommands_valid:
  "c \<in> set (readCommands proto sessionID fs) \<Longrightarrow> command_error c = None \<and> ac_SessionID c = sessionID"
proof (induction proto sessionID fs rule: readCommands.induct)
  case (2 proto sessionID is_text data fs)
  then show ?case
    by (force simp: ValidateCommand_def split: if_split_asm sum.split_asm option.split_asm)
qed simp

text \<open>The commands of a run of the loop, and those it handed to the session.\<close>
fun queued :: "serve_input list \<Rightarrow> agent_command list" where
  "queued [] = []"
| "queued (i # is) = (case i of Queued c _ \<Rightarrow> c # queued is | _ \<Rightarrow> queued is)"

fun to_session :: "serve_output list \<Rightarrow> agent_command list" where
  "to_session [] = []"
| "to_session (x # xs) = (case x of ToSession c \<Rightarrow> c # to_session xs | _ \<Rightarrow> to_session xs)"

lemma serve_loop_prefix: "\<exists>rest. queued is = to_session (serve_loop proto is) @ rest"
proof (induction "is")
  case (Cons i "is")
  then show ?case
    by (cases i) (auto simp: serve_turn_def)
qed simp

lemma serve_loop_outputs:
  assumes "x \<in> set (serve_loop proto is)"
  shows "(case x of Ping \<Rightarrow> True | ToSession c \<Rightarrow> c \<in> set (queued is)
     | ToPeer m \<Rightarrow> ValidateEvent m = None \<and> mg_Protocol m = proto)"
  using assms
proof (induction "is")
  case (Cons i "is")
  have IH: "x \<in> set (serve_loop proto is) \<Longrightarrow> ?case"
    using Cons.IH by (cases x rule: serve_output.exhaust; cases i rule: serve_input.exhaust) auto
  show ?case
  proof (cases "x \<in> set (serve_loop proto is)")
    case False
    then have "x \<in> set (fst (serve_turn proto i))"
      using Cons.prems by (cases "serve_turn proto i") (auto split: if_splits)
    then show ?thesis
      by (cases i rule: serve_input.exhaust) (auto simp: serve_turn_def wire_event_def split: if_splits)
  qed (rule IH)
qed simp

text \<open>
  C33. With the commands of the connection's frames on the queue, a served session is handed only
  valid commands of its own session id, in the order they were sent and without gaps, and the
  peer is sent only valid events in the protocol version of the session.
\<close>
theorem serve_loop_safe:
  assumes "queued is = take n (readCommands proto sessionID frames)"
  shows "list_all (serve_output_ok proto sessionID) (serve_loop proto is)
    \<and> (\<exists>k. to_session (serve_loop proto is) = take k (readCommands proto sessionID frames))"
proof
  have cmds: "command_error c = None \<and> ac_SessionID c = sessionID" if "c \<in> set (queued is)" for c
    using that assms readCommands_valid by (metis in_set_takeD)
  show "list_all (serve_output_ok proto sessionID) (serve_loop proto is)"
    unfolding list_all_iff
  proof
    fix x
    assume "x \<in> set (serve_loop proto is)"
    then show "serve_output_ok proto sessionID x"
      using serve_loop_outputs [of x proto "is"] cmds
      by (cases x rule: serve_output.exhaust) (auto simp: serve_output_ok_def simp del: serve_loop.simps)
  qed
  obtain rest where "queued is = to_session (serve_loop proto is) @ rest"
    using serve_loop_prefix by blast
  then have "to_session (serve_loop proto is)
      = take (length (to_session (serve_loop proto is))) (take n (readCommands proto sessionID frames))"
    using assms by (metis append_eq_conv_conj)
  then show "\<exists>k. to_session (serve_loop proto is) = take k (readCommands proto sessionID frames)"
    by (metis take_take)
qed

section \<open>Commands on the wire\<close>

text \<open>What \<open>Send\<close> writes for a command, \<open>readCommands\<close> reads back.\<close>
lemma decode_members_append: "decode_members upd (xs @ ys) x = (case decode_members upd xs x of None \<Rightarrow> None | Some y \<Rightarrow> decode_members upd ys y)"
  by (induction xs arbitrary: x) (auto split: option.split)

lemma find_command_field:
  "find_field command_fields ''type'' = Some (snd (string_field ''type'' (\<lambda>v c. c\<lparr>ac_Type := v\<rparr>)))"
  "find_field command_fields ''sessionId'' = Some (snd (string_field ''sessionId'' (\<lambda>v c. c\<lparr>ac_SessionID := v\<rparr>)))"
  "find_field command_fields ''turnId'' = Some (snd (string_field ''turnId'' (\<lambda>v c. c\<lparr>ac_TurnID := v\<rparr>)))"
  "find_field command_fields ''sequence'' = Some (snd (uint64_field ''sequence'' (\<lambda>v c. c\<lparr>ac_Sequence := v\<rparr>)))"
  "find_field command_fields ''audio'' = Some (snd (bytes_field ''audio'' (\<lambda>v c. c\<lparr>ac_Audio := v\<rparr>)))"
  "find_field command_fields ''operationId'' = Some (snd (string_field ''operationId'' (\<lambda>v c. c\<lparr>ac_OperationID := v\<rparr>)))"
  "find_field command_fields ''approved'' = Some (snd (bool_field ''approved'' (\<lambda>v c. c\<lparr>ac_Approved := v\<rparr>)))"
  by (simp_all add: command_fields_def field_defs names_field_def bval_Char is_lower_def bchr_eq)

lemma find_message_field:
  "find_field message_fields ''protocol'' = Some (snd (string_field ''protocol'' (\<lambda>v m. m\<lparr>mg_Protocol := v\<rparr>)))"
  "find_field message_fields ''kind'' = Some (snd (string_field ''kind'' (\<lambda>v m. m\<lparr>mg_Kind := v\<rparr>)))"
  "find_field message_fields ''command'' = Some (snd (pointer_field ''command'' command_fields zero_command mg_Command (\<lambda>v m. m\<lparr>mg_Command := v\<rparr>)))"
  by (simp_all add: message_fields_def field_defs names_field_def bval_Char is_lower_def bchr_eq)
text \<open>A command that carries no audio, with well-formed text, and the frame \<open>Send\<close> writes for it.\<close>
definition plain_command :: "agent_command \<Rightarrow> bool" where
  "plain_command c \<longleftrightarrow> utf8 (ac_Type c) \<and> utf8 (ac_SessionID c) \<and> utf8 (ac_TurnID c) \<and> utf8 (ac_OperationID c) \<and> ac_Audio c = []"

definition command_frame :: "string \<Rightarrow> agent_command \<Rightarrow> frame_in" where
  "command_frame proto c = (True, message_text (zero_message\<lparr>mg_Protocol := proto, mg_Kind := SessionCommand, mg_Command := Some c\<rparr>))"

definition command_members :: "agent_command \<Rightarrow> (string \<times> string) list" where
  "command_members c = [(''type'', json_quote (ac_Type c)), (''sessionId'', json_quote (ac_SessionID c))]
      @ opt_string ''turnId'' (ac_TurnID c) @ opt_nat ''sequence'' (unat (ac_Sequence c))
      @ opt_bytes ''audio'' (ac_Audio c) @ opt_string ''operationId'' (ac_OperationID c)
      @ opt_member (ac_Approved c) ''approved'' ''true''"

lemma command_members_read:
  assumes "plain_command c"
  shows "\<exists>kvs. list_all2 (reads_member d) (command_members c) kvs"
proof -
  have one: "\<exists>kvs. list_all2 (reads_member d) (opt_member b k t) kvs" if "b \<Longrightarrow> utf8 k \<and> (\<exists>v. reads t v d)" for b k t
    using that by (auto simp: opt_member_def reads_member_def list_all2_Cons1)
  have val: "\<exists>v. reads (nat_text n) v d" "\<exists>v. reads ''true'' v d" "utf8 s \<Longrightarrow> \<exists>v. reads (json_quote s) v d" for n s
    using reads_quote reads_nat reads_words by blast+
  have keys: "utf8 ''turnId''" "utf8 ''sequence''" "utf8 ''audio''" "utf8 ''operationId''" "utf8 ''approved''" "utf8 ''type''" "utf8 ''sessionId''"
    by (simp_all add: utf8_ascii bval_Char)
  have "\<exists>kvs. list_all2 (reads_member d) [(''type'', json_quote (ac_Type c)), (''sessionId'', json_quote (ac_SessionID c))] kvs"
    "\<exists>kvs. list_all2 (reads_member d) (opt_string ''turnId'' (ac_TurnID c)) kvs"
    "\<exists>kvs. list_all2 (reads_member d) (opt_nat ''sequence'' (unat (ac_Sequence c))) kvs"
    "\<exists>kvs. list_all2 (reads_member d) (opt_bytes ''audio'' (ac_Audio c)) kvs"
    "\<exists>kvs. list_all2 (reads_member d) (opt_string ''operationId'' (ac_OperationID c)) kvs"
    "\<exists>kvs. list_all2 (reads_member d) (opt_member (ac_Approved c) ''approved'' ''true'') kvs"
    unfolding opt_string_def opt_nat_def opt_bytes_def
    using assms keys val
    by (auto simp: plain_command_def list_all2_Cons1 reads_member_def intro!: one)
  then show ?thesis unfolding command_members_def by (blast intro: list_all2_appendI)
qed

lemma command_members_decoded:
  assumes "plain_command c"
  shows "decode_members (strict_fields command_fields) (command_members c) zero_command = Some c"
proof -
  have "raw_uint64 (nat_text (unat w)) = Some (Some (w :: u64))" for w by simp
  then show ?thesis
    using assms
    by (cases c) (simp add: command_members_def unat_eq_0 decode_members_append opt_string_def opt_nat_def opt_bytes_def opt_member_def strict_fields_def
        find_command_field string_field_def uint64_field_def bytes_field_def bool_field_def store_def plain_command_def zero_command_def
        raw_bool_text [of True, unfolded bool_text_def, simplified])
qed

lemma readCommands_frame:
  assumes "plain_command c" "command_error c = None" "ac_SessionID c = sid" "proto \<in> {Protocol, ProtocolV2}"
    and "length (snd (command_frame proto c)) \<le> MaxMessageBytes"
  shows "readCommands proto sid (command_frame proto c # fs) = c # readCommands proto sid fs"
proof -
  let ?m = "zero_message\<lparr>mg_Protocol := proto, mg_Kind := SessionCommand, mg_Command := Some c\<rparr>"
  let ?ms = "[(''protocol'', json_quote proto), (''kind'', json_quote SessionCommand), (''command'', obj_text (command_members c))]"
  have frame: "snd (command_frame proto c) = obj_text ?ms @ [bchr 10]"
    by (simp add: command_frame_def message_text_def opt_string_def opt_member_def zero_message_def command_text_def command_members_def)
  obtain kvs where kvs: "list_all2 (reads_member 0) (command_members c) kvs" using command_members_read [OF assms(1)] by blast
  have u: "utf8 proto" "utf8 SessionCommand" "utf8 ''protocol''" "utf8 ''kind''" "utf8 ''command''"
    using assms(4) by (auto simp: utf8_ascii bval_Char)
  have all: "list_all2 (reads_member 1) ?ms [(''protocol'', JStr proto), (''kind'', JStr SessionCommand), (''command'', JObj kvs)]"
    using reads_obj [OF kvs] u by (simp add: reads_member_def reads_quote)
  have cmd: "decode_whole (strict_fields command_fields) zero_command (obj_text (command_members c)) = Some c"
    using decode_whole_obj [OF kvs, of "strict_fields command_fields" zero_command] command_members_decoded [OF assms(1)] by (simp add: json_max_depth_def)
  have raw: "json_whole (obj_text (command_members c)) = Some (JObj kvs)"
    by (rule reads_whole [OF reads_obj [OF kvs]]) (simp add: json_max_depth_def)
  have "decode_members (strict_fields message_fields) ?ms zero_message = Some ?m"
    using cmd raw u by (simp add: strict_fields_def [of message_fields] find_message_field string_field_def pointer_field_def store_def zero_message_def)
  moreover have "ends [bchr 10]" by (simp add: ends_def bchr_eq bval_Char)
  ultimately have "decode_struct (strict_fields message_fields) zero_message (snd (command_frame proto c)) = Some (?m, [bchr 10])"
    unfolding frame
    using decode_struct_obj [OF all, of "[bchr 10]" "strict_fields message_fields" zero_message]
    by (simp add: json_max_depth_def del: decode_members.simps)
  moreover have "at_eof [bchr 10]" by (simp add: at_eof_def skip_ws_def json_ws_def bval_Char)
  ultimately have "DecodeProtocol (snd (command_frame proto c)) proto = Inr ?m"
    using assms(4,5) frame by (auto simp: DecodeProtocol_def v2_event_def v2_identity_def zero_message_def)
  then show ?thesis
    using assms(2,3) by (simp add: command_frame_def ValidateCommand_def zero_message_def)
qed

text \<open>The user's turn is committed, and the session is closed.\<close>
definition sample_commands :: "agent_command list" where
  "sample_commands = [zero_command\<lparr>ac_Type := InputCommit, ac_SessionID := ''s'', ac_TurnID := ''t''\<rparr>,
     zero_command\<lparr>ac_Type := InputClose, ac_SessionID := ''s''\<rparr>]"

lemma sample_command_length:
  "c \<in> set sample_commands \<Longrightarrow> length (snd (command_frame Protocol c)) \<le> MaxMessageBytes"
  by (auto simp: sample_commands_def command_frame_def message_text_def command_text_def zero_message_def zero_command_def
      opt_string_def opt_nat_def opt_bytes_def opt_member_def obj_text_def json_quote_def pieces_ascii bval_Char quote_piece_def)

lemma sample_commands_read:
  "readCommands Protocol ''s'' (map (command_frame Protocol) sample_commands @ [(False, [])]) = sample_commands"
proof -
  have ok: "plain_command c \<and> command_error c = None \<and> ac_SessionID c = ''s''" if "c \<in> set sample_commands" for c
    using that by (auto simp: sample_commands_def plain_command_def command_error_def zero_command_def identifier_ok_def
        is_alnum_def is_alpha_def is_lower_def utf8_ascii bval_Char)
  have "readCommands Protocol ''s'' (map (command_frame Protocol) cs @ [(False, [])]) = cs" if "set cs \<subseteq> set sample_commands" for cs
    using that
  proof (induction cs)
    case (Cons c cs)
    then show ?case using ok [of c] sample_command_length [of c] by (simp add: readCommands_frame)
  qed simp
  then show ?thesis by simp
qed

theorem serve_loop_safe_witness:
  "case sample_commands of [commit, close] \<Rightarrow>
     (let turns = [Heartbeat True, Queued commit True, FromSession (error_event ''c'' ''m'') True, Queued close True, SessionEnded];
          frames = map (command_frame Protocol) sample_commands @ [(False, [])];
          out = serve_loop Protocol turns
      in to_session out = readCommands Protocol ''s'' frames \<and> length (to_session out) = 2
         \<and> list_all (serve_output_ok Protocol ''s'') out)
   | _ \<Rightarrow> False"
proof -
  let ?frames = "map (command_frame Protocol) sample_commands @ [(False, [])]"
  obtain commit close where cs: "sample_commands = [commit, close]" by (simp add: sample_commands_def)
  let ?turns = "[Heartbeat True, Queued commit True, FromSession (error_event ''c'' ''m'') True, Queued close True, SessionEnded]"
  have queued: "queued ?turns = take 2 (readCommands Protocol ''s'' ?frames)"
    using sample_commands_read by (simp add: cs)
  have "list_all (serve_output_ok Protocol ''s'') (serve_loop Protocol ?turns)"
    using serve_loop_safe [OF queued] by blast
  moreover have "ValidateEvent (wire_event Protocol (error_event ''c'' ''m'')) = None"
    using error_event_valid [of "''c''" "''m''" Protocol] by (simp add: ValidateEvent_def wire_event_def zero_message_def)
  then have "to_session (serve_loop Protocol ?turns) = [commit, close]"
    by (simp add: serve_turn_def error_event_def)
  ultimately show ?thesis using sample_commands_read unfolding cs list.case Let_def by simp
qed

section \<open>Capacity\<close>

definition slots_ok :: "server_config \<Rightarrow> int \<Rightarrow> bool" where
  "slots_ok config used \<longleftrightarrow> 0 \<le> used \<and> used \<le> sc_MaxSessions config"

lemma slots_step [invariants]:
  "slots_ok config used \<Longrightarrow> slots_ok config (slot_step mac config used x)"
  by (cases x) (auto simp: slots_ok_def admit_def Let_def split: option.split)

interpretation slots: machine "slot_step mac config" "slots_ok config" for mac config
  by unfold_locales (rule slots_step)

text \<open>
  A handler that could be configured never serves more sessions at a time than its limit,
  which is at most 32, however requests arrive and sessions end.
\<close>
theorem handler_capacity:
  "case NewHandler config True of
     Inl _ \<Rightarrow> True
   | Inr config' \<Rightarrow> slots_ok config' (foldl (slot_step mac config') 0 xs) \<and> sc_MaxSessions config' \<le> 32"
proof (cases "NewHandler config True")
  case (Inr config')
  then have "0 < sc_MaxSessions config'" "sc_MaxSessions config' \<le> 32"
    by (auto simp: NewHandler_def Let_def split: if_splits)
  then show ?thesis
    using slots.run_inv [of config' 0 mac xs] by (simp add: Inr slots_ok_def)
qed simp

end
