(* ===== verification/Gateway_Metrics.thy ===== *)
theory Gateway_Metrics
  imports Prelude "HOL-Library.Multiset"
begin

text \<open>
  The latency metrics of the gateway, \<open>apps/voice-gateway/internal/adapters/voice/server.go\<close>: a
  ring of the last 1024 samples (\<open>latencyWindow\<close>), its percentiles and the counters. Samples are
  microseconds. A percentile is given in microseconds; the code divides it by 1000.
\<close>

record latency_window =
  lw_values :: "int list"
  lw_next :: nat

definition maxLatencySamples :: nat where "maxLatencySamples = 1024"

definition empty_window :: latency_window where
  "empty_window = \<lparr>lw_values = [], lw_next = 0\<rparr>"

definition window_add :: "int \<Rightarrow> latency_window \<Rightarrow> latency_window" where
  "window_add micros w =
     (if length (lw_values w) < maxLatencySamples
      then w\<lparr>lw_values := lw_values w @ [micros]\<rparr>
      else w\<lparr>lw_values := (lw_values w)[lw_next w := micros],
             lw_next := (lw_next w + 1) mod length (lw_values w)\<rparr>)"

text \<open>The sample at a percentage of the sorted samples.\<close>
definition percentile_at :: "int list \<Rightarrow> nat \<Rightarrow> int" where
  "percentile_at vs percent =
     (let i = (percent * length vs + 99) div 100; i' = (if i < 1 then 1 else i) in vs ! (i' - 1))"

definition percentiles :: "latency_window \<Rightarrow> int \<times> int" where
  "percentiles w =
     (let vs = sort (lw_values w) in
      if vs = [] then (0, 0) else (percentile_at vs 50, percentile_at vs 95))"

record counters =
  ct_Sessions :: int
  ct_Completed :: int
  ct_Interrupted :: int
  ct_Errors :: int
  ct_FirstAudioCount :: int
  ct_FirstAudioMicros :: int
  ct_window :: latency_window

definition zero_counters :: counters where
  "zero_counters = \<lparr>ct_Sessions = 0, ct_Completed = 0, ct_Interrupted = 0, ct_Errors = 0,
     ct_FirstAudioCount = 0, ct_FirstAudioMicros = 0, ct_window = empty_window\<rparr>"

definition recordFirstAudio :: "duration \<Rightarrow> counters \<Rightarrow> counters" where
  "recordFirstAudio d c =
     c\<lparr>ct_FirstAudioCount := ct_FirstAudioCount c + 1,
       ct_FirstAudioMicros := ct_FirstAudioMicros c + d div 1000,
       ct_window := window_add (d div 1000) (ct_window c)\<rparr>"

section \<open>The ring\<close>

text \<open>The last samples, oldest first.\<close>
definition last_samples :: "int list \<Rightarrow> int list" where
  "last_samples xs = drop (length xs - maxLatencySamples) xs"

text \<open>The ring holds the last samples, the oldest at the write position.\<close>
definition window_holds :: "int list \<Rightarrow> latency_window \<Rightarrow> bool" where
  "window_holds xs w \<longleftrightarrow>
     (if length xs \<le> maxLatencySamples then lw_values w = xs \<and> lw_next w = 0
      else length (lw_values w) = maxLatencySamples \<and> lw_next w < maxLatencySamples
        \<and> rotate (lw_next w) (lw_values w) = last_samples xs)"

lemma rotate_split: "n \<le> length vs \<Longrightarrow> rotate n vs = drop n vs @ take n vs"
  by (cases "n = length vs") (simp_all add: rotate_drop_take)

lemma ring_write:
  assumes "n < length vs"
  shows "rotate ((n + 1) mod length vs) (vs[n := x]) = tl (rotate n vs) @ [x]"
proof -
  have tl: "tl (rotate n vs) @ [x] = drop (Suc n) vs @ take n vs @ [x]"
    using assms by (simp add: rotate_split) (simp add: drop_Suc tl_drop)
  show ?thesis
  proof (cases "n + 1 = length vs")
    case True
    then have "vs[n := x] = take n vs @ [x]" by (simp add: list_update_append1 upd_conv_take_nth_drop)
    then show ?thesis using True tl by simp
  next
    case False
    then have "rotate ((n + 1) mod length vs) (vs[n := x]) = drop (n + 1) vs @ take n vs @ [x]"
      using assms by (simp add: rotate_split upd_conv_take_nth_drop)
    then show ?thesis using tl by simp
  qed
qed

lemma last_samples_snoc:
  "maxLatencySamples \<le> length xs \<Longrightarrow> last_samples (xs @ [x]) = tl (last_samples xs) @ [x]"
  by (simp add: last_samples_def Suc_diff_le drop_Suc tl_drop) (simp add: maxLatencySamples_def)

lemma window_add_holds:
  assumes "window_holds xs w"
  shows "window_holds (xs @ [x]) (window_add x w)"
proof (cases "length xs < maxLatencySamples")
  case True
  then show ?thesis using assms by (simp add: window_holds_def window_add_def)
next
  case False
  have full: "length (lw_values w) = maxLatencySamples" "lw_next w < maxLatencySamples"
    "rotate (lw_next w) (lw_values w) = last_samples xs"
    using assms False by (auto simp: window_holds_def last_samples_def maxLatencySamples_def split: if_splits)
  have "lw_next w < length (lw_values w)" using full by simp
  from ring_write [OF this, of x] show ?thesis
    using full False last_samples_snoc [of xs x]
    by (simp add: window_holds_def window_add_def maxLatencySamples_def)
qed

definition window_after :: "int list \<Rightarrow> latency_window" where
  "window_after xs = foldl (\<lambda>w x. window_add x w) empty_window xs"

lemma window_after_holds: "window_holds xs (window_after xs)"
proof (induction xs rule: rev_induct)
  case Nil
  then show ?case by (simp add: window_holds_def window_after_def empty_window_def)
next
  case (snoc x xs)
  then show ?case using window_add_holds by (simp add: window_after_def)
qed

lemma sort_rotate: "sort (rotate n xs) = sort (xs :: int list)"
  by (rule properties_for_sort) (simp_all add: rotate_drop_take mset_append flip: mset_append,
      metis append_take_drop_id mset_append union_commute)

lemma sort_window: "sort (lw_values (window_after xs)) = sort (last_samples xs)"
proof (cases "length xs \<le> maxLatencySamples")
  case True
  then show ?thesis using window_after_holds [of xs] by (simp add: window_holds_def last_samples_def)
next
  case False
  then have "rotate (lw_next (window_after xs)) (lw_values (window_after xs)) = last_samples xs"
    using window_after_holds [of xs] by (simp add: window_holds_def)
  then show ?thesis using sort_rotate by metis
qed

text \<open>How many samples are at most, and how many below, a value.\<close>
definition at_most :: "int list \<Rightarrow> int \<Rightarrow> nat" where
  "at_most xs v = length (filter (\<lambda>x. x \<le> v) xs)"

definition below :: "int list \<Rightarrow> int \<Rightarrow> nat" where
  "below xs v = length (filter (\<lambda>x. x < v) xs)"

lemma at_most_sort: "at_most (sort xs) v = at_most xs v" "below (sort xs) v = below xs v"
  by (simp_all add: at_most_def below_def filter_sort)

lemma sorted_counts:
  assumes "sorted vs" "i < length vs"
  shows "Suc i \<le> at_most vs (vs ! i)" "below vs (vs ! i) \<le> i"
proof -
  have "take (Suc i) vs = filter (\<lambda>x. x \<le> vs ! i) (take (Suc i) vs)"
    using assms by (intro sym [OF filter_True]) (auto simp: in_set_conv_nth intro!: sorted_nth_mono)
  moreover have "at_most vs (vs ! i) = length (filter (\<lambda>x. x \<le> vs ! i) (take (Suc i) vs))
      + length (filter (\<lambda>x. x \<le> vs ! i) (drop (Suc i) vs))"
    by (metis append_take_drop_id at_most_def filter_append length_append)
  ultimately show "Suc i \<le> at_most vs (vs ! i)" using assms(2) by (metis Suc_leI le_add1 length_take min.absorb2)
  have "filter (\<lambda>x. x < vs ! i) (drop i vs) = []"
    using assms by (auto simp: filter_empty_conv in_set_conv_nth not_less sorted_nth_mono)
  then have "below vs (vs ! i) = length (filter (\<lambda>x. x < vs ! i) (take i vs))"
    by (metis append_Nil2 append_take_drop_id below_def filter_append)
  then show "below vs (vs ! i) \<le> i"
    using length_filter_le [of "\<lambda>x. x < vs ! i" "take i vs"] by simp
qed

text \<open>A percentile of a set of samples: it splits them at that percentage.\<close>
definition is_percentile :: "nat \<Rightarrow> int list \<Rightarrow> int \<Rightarrow> bool" where
  "is_percentile p xs v \<longleftrightarrow>
     v \<in> set xs \<and> p * length xs \<le> 100 * at_most xs v \<and> 100 * below xs v < p * length xs"

lemma percentile_at_sorted:
  assumes "sorted vs" "vs \<noteq> []" "0 < p" "p \<le> 100"
  shows "is_percentile p vs (percentile_at vs p)"
proof -
  define i where "i = (p * length vs + 99) div 100"
  have pos: "0 < p * length vs" using assms by simp
  have i: "1 \<le> i" 
  proof -
    have "100 \<le> p * length vs + 99" using pos by linarith
    then have "100 div 100 \<le> (p * length vs + 99) div 100" by (rule div_le_mono)
    then show ?thesis by (simp add: i_def)
  qed
  have mono: "p * length vs \<le> 100 * length vs" using assms(4) by simp
  have le: "i \<le> length vs" using mono unfolding i_def by linarith
  have bounds: "p * length vs \<le> 100 * i" "100 * i < p * length vs + 100"
    unfolding i_def by linarith+
  have "i - 1 < length vs" using i le by simp
  note counts = sorted_counts [OF assms(1) this]
  have "percentile_at vs p = vs ! (i - 1)" using i by (simp add: percentile_at_def i_def [symmetric] Let_def)
  moreover have "vs ! (i - 1) \<in> set vs" using i le by simp
  moreover have "100 * i \<le> 100 * at_most vs (vs ! (i - 1))" using counts(1) i by simp
  moreover have "100 * below vs (vs ! (i - 1)) + 100 \<le> 100 * i" using counts(2) i by simp
  ultimately show ?thesis using bounds by (simp add: is_percentile_def)
qed

text \<open>
  After any samples were recorded, the reported p50 and p95 are the 50th and 95th percentile
  of the last 1024 samples (of all, while there are fewer): a sample with at least that share of
  the samples at or below it and less than that share below it; without samples both are 0.
\<close>
theorem window_percentiles:
  "case percentiles (window_after xs) of (p50, p95) \<Rightarrow>
     if xs = [] then p50 = 0 \<and> p95 = 0
     else is_percentile 50 (last_samples xs) p50 \<and> is_percentile 95 (last_samples xs) p95 \<and> p50 \<le> p95"
proof -
  define vs where "vs = sort (last_samples xs)"
  have perc: "percentiles (window_after xs) = (if vs = [] then (0, 0) else (percentile_at vs 50, percentile_at vs 95))"
    by (simp add: percentiles_def sort_window vs_def Let_def)
  have nil: "vs = [] \<longleftrightarrow> xs = []"
  proof -
    have "length vs = min (length xs) maxLatencySamples" by (simp add: vs_def last_samples_def)
    then show ?thesis by (auto simp: maxLatencySamples_def min_def split: if_splits)
  qed
  have tr: "is_percentile p vs v \<longleftrightarrow> is_percentile p (last_samples xs) v" for p v
    by (simp add: is_percentile_def vs_def at_most_sort)
  show ?thesis
  proof (cases "xs = []")
    case False
    then have ne: "vs \<noteq> []" "sorted vs" using nil by (simp_all add: vs_def)
    let ?i = "\<lambda>p. (p * length vs + 99) div 100"
    have "?i 50 - 1 \<le> ?i 95 - 1" "?i 95 - 1 < length vs"
      using ne(1) by (cases vs; simp; linarith)+
    moreover have "1 \<le> ?i 50" "1 \<le> ?i 95" using ne(1) by (cases vs; simp)+
    ultimately have "percentile_at vs 50 \<le> percentile_at vs 95"
      using ne(2) by (simp add: percentile_at_def Let_def sorted_nth_mono)
    then show ?thesis
      using False ne percentile_at_sorted [of vs 50] percentile_at_sorted [of vs 95]
      by (simp add: perc tr)
  qed (use perc nil in simp)
qed

end
