(* ===== verification/Gateway_Voice.thy ===== *)
theory Gateway_Voice
  imports Bridge Agent_Remote Gateway_Metrics "HOL-Library.Sublist"
begin

text \<open>
  The voice edge, \<open>apps/voice-gateway/internal/adapters/voice\<close> (\<open>server.go\<close>,
  \<open>agent_handler.go\<close>): the checks of \<open>New\<close>, the authorization of requests, the admission of a
  WebSocket and the life of one connection in \<open>handleVoice\<close>, as a step function over the inputs its
  \<open>select\<close> loops receive. \<open>fresh\<close> is the session id \<open>rand.Text()\<close> returns.
\<close>

record gateway_config =
  gc_Provider :: string
  gc_MaxSessions :: int
  gc_MaxEventBytes :: int
  gc_ReadTimeout :: duration
  gc_WriteTimeout :: duration
  gc_IdleTimeout :: duration
  gc_DefaultAgentID :: string
  gc_DevelopmentToken :: string
  gc_Principal :: principal
  gc_Catalog :: "endpoint list"
  gc_IdentityURL :: string
  gc_IdentityToken :: string

section \<open>Construction and requests\<close>

definition NewServer ::
  "(string \<Rightarrow> parsed_url option) \<Rightarrow> (string \<Rightarrow> bool) \<Rightarrow> gateway_config
   \<Rightarrow> error + gateway_config \<times> endpoint gomap"
where
  "NewServer parse loopback cfg0 =
     (let cfg = (if gc_DefaultAgentID cfg0 = [] then cfg0\<lparr>gc_DefaultAgentID := ''personal-assistant''\<rparr>
                 else cfg0) in
      case ValidatePrincipal (gc_Principal cfg) of
        Some err \<Rightarrow> Inl err
      | None \<Rightarrow>
        if gc_Provider cfg \<noteq> ''fake'' \<and> gc_Provider cfg \<noteq> ''nova'' then Inl ''unsupported provider''
        else if gc_MaxSessions cfg \<le> 0 \<or> gc_MaxEventBytes cfg \<le> 0 \<or> gc_ReadTimeout cfg \<le> 0
             \<or> gc_WriteTimeout cfg \<le> 0 \<or> gc_IdleTimeout cfg < 1000000
        then Inl ''gateway limits and timeouts must be positive''
        else (case NewRemoteFactory parse loopback (gc_Catalog cfg) of
            Inl err \<Rightarrow> Inl err
          | Inr f \<Rightarrow> Inr (cfg, f)))"

text \<open>\<open>authorize\<close>: may a request with this Authorization header pass?\<close>
definition authorize :: "gateway_config \<Rightarrow> string \<Rightarrow> bool" where
  "authorize cfg header \<longleftrightarrow>
     \<not> (gc_DevelopmentToken cfg \<noteq> [] \<and> header \<noteq> ''Bearer '' @ gc_DevelopmentToken cfg)"

text \<open>
  The refusals of \<open>handleVoice\<close> before the upgrade, or the version and the principal of the
  session. \<open>account\<close> is \<open>accountPrincipal\<close>'s result, \<open>used\<close> the number of slots taken.
\<close>
definition voice_admission ::
  "gateway_config \<Rightarrow> string \<Rightarrow> error + principal \<Rightarrow> int \<Rightarrow> (nat \<times> string) + (int \<times> principal)"
where
  "voice_admission cfg path account used =
     (let version = (if path = ''/v2/voice'' then 2 else 1) in
      if ValidatePrincipal (gc_Principal cfg) \<noteq> None
      then Inl (401, ''authenticated principal missing'')
      else if version = 2 \<and> (\<exists>e. account = Inl e) then Inl (401, ''authentication_required'')
      else if used \<ge> gc_MaxSessions cfg then Inl (503, ''session limit reached'')
      else Inr (version, if version = 2 then (case account of Inr p \<Rightarrow> p | Inl _ \<Rightarrow> gc_Principal cfg)
                         else gc_Principal cfg))"

section \<open>One connection\<close>

text \<open>\<open>readVoiceEvents\<close>: what one frame puts on the channel.\<close>
definition inbound_of :: "int \<Rightarrow> frame_in \<Rightarrow> error + event" where
  "inbound_of version f =
     (if \<not> fst f then Inl ''only JSON text frames are accepted''
      else (case DecodeClientVersion (snd f) version of
          Inl err \<Rightarrow> Inl err
        | Inr e \<Rightarrow> if ev_Version e \<noteq> version then Inl ''protocol version mismatch'' else Inr e))"

datatype phase = Starting | Open | Ended

record connection =
  cn_version :: int
  cn_session :: string
  cn_principal :: principal
  cn_phase :: phase
  cn_counters :: counters

text \<open>
  The inputs of the loops. A boolean says whether the write of that turn succeeds; an
  \<open>error option\<close> is the result of opening the agent or of sending to it; the last argument of
  an agent event is the \<open>float64\<close> product that converts its first-audio time to a duration.
\<close>
datatype conn_input =
    Done
  | StartTimeout bool
  | PingTick bool
  | Inbound "error + event" bool "error option"
  | InboundClosed
  | AgentEvent agent_event bool duration
  | AgentEventsClosed

datatype conn_output =
    Write event
  | OpenAgent session_start
  | SendAgent agent_command
  | PingFrame
  | CloseFrame

definition stamp :: "connection \<Rightarrow> event \<Rightarrow> event" where
  "stamp c e = e\<lparr>ev_Version := cn_version c, ev_SessionID := cn_session c\<rparr>"

definition count :: "(counters \<Rightarrow> counters) \<Rightarrow> connection \<Rightarrow> connection" where
  "count f c = c\<lparr>cn_counters := f (cn_counters c)\<rparr>"

text \<open>\<open>sendError\<close>: the connection goes on in the phase given if the write succeeds.\<close>
definition send_error ::
  "connection \<Rightarrow> bool \<Rightarrow> phase \<Rightarrow> string \<Rightarrow> string \<Rightarrow> connection \<times> conn_output list"
where
  "send_error c ok next code msg =
     ((count (\<lambda>k. k\<lparr>ct_Errors := ct_Errors k + 1\<rparr>) c)\<lparr>cn_phase := (if ok then next else Ended)\<rparr>,
      if ok then [Write (stamp c (zero_event\<lparr>ev_Type := ErrorEvent, ev_Code := code, ev_Message := msg\<rparr>))]
      else [])"

text \<open>The loop over the catalog: is the agent available, and for which principal?\<close>
fun select_agent ::
  "gateway_config \<Rightarrow> int \<Rightarrow> string \<Rightarrow> endpoint list \<Rightarrow> bool \<times> principal \<Rightarrow> bool \<times> principal"
where
  "select_agent cfg version selected [] r = r"
| "select_agent cfg version selected (ep # eps) (found, p) =
     select_agent cfg version selected eps
       (if ep_AgentID ep = selected then
          (\<not> (version = 1 \<and> ep_Protocol ep = ProtocolV2),
           if ep_Protocol ep \<noteq> ProtocolV2 then gc_Principal cfg else p)
        else (found, p))"

definition conn_start ::
  "gateway_config \<Rightarrow> event \<Rightarrow> bool \<Rightarrow> error option \<Rightarrow> connection \<Rightarrow> connection \<times> conn_output list"
where
  "conn_start cfg e ok opened c =
     (if ev_Type e \<noteq> SessionStart
      then send_error c ok Starting ''session_required'' ''first event must be session.start''
      else if ev_Provider e \<noteq> [] \<and> ev_Provider e \<noteq> gc_Provider cfg
      then send_error c ok Starting ''provider_unavailable'' ''requested provider is not selected''
      else
        (let selected = (if cn_version c = 2 \<and> ev_AgentID e \<noteq> [] then ev_AgentID e
                         else gc_DefaultAgentID cfg)
         in case select_agent cfg (cn_version c) selected (gc_Catalog cfg) (False, cn_principal c) of
              (found, p) \<Rightarrow>
                if \<not> found then send_error c ok Ended ''agent_unavailable'' ''agent is not available''
                else
                  (let start = \<lparr>st_Protocol = [], st_SessionID = cn_session c,
                         st_RequestID = ev_RequestID e, st_AgentID = selected,
                         st_Provider = gc_Provider cfg, st_Principal = p\<rparr>
                   in case opened of
                        Some _ \<Rightarrow> apsnd (Cons (OpenAgent start))
                          (send_error c ok Ended ''provider_unavailable'' ''agent session could not start'')
                      | None \<Rightarrow> (c\<lparr>cn_phase := Open\<rparr>, [OpenAgent start]))))"

definition conn_command ::
  "event \<Rightarrow> bool \<Rightarrow> error option \<Rightarrow> connection \<Rightarrow> connection \<times> conn_output list"
where
  "conn_command e ok sent c =
     (if ev_SessionID e \<noteq> cn_session c
      then send_error c ok Open ''session_mismatch'' ''sessionId does not match this connection''
      else (case agentCommandFromVoice e of
          Inl err \<Rightarrow> send_error c ok Open ''invalid_transition'' err
        | Inr cmd \<Rightarrow>
          (case sent of
             None \<Rightarrow> (c, [SendAgent cmd])
           | Some _ \<Rightarrow> apsnd (Cons (SendAgent cmd))
               (send_error c ok Ended ''provider_unavailable'' ''agent session disconnected''))))"

text \<open>The counters an agent event moves.\<close>
definition count_event :: "agent_event \<Rightarrow> duration \<Rightarrow> counters \<Rightarrow> counters" where
  "count_event a d k =
     (if ae_Type a = AgentTurnCompleted then
        (let k1 = k\<lparr>ct_Completed := ct_Completed k + 1\<rparr> in
         case ae_Metrics a of
           None \<Rightarrow> k1
         | Some mt \<Rightarrow> if f64_pos (am_FirstAudioMS mt) then recordFirstAudio d k1 else k1)
      else if ae_Type a = AgentTurnInterrupted then k\<lparr>ct_Interrupted := ct_Interrupted k + 1\<rparr>
      else if ae_Type a = AgentError then k\<lparr>ct_Errors := ct_Errors k + 1\<rparr>
      else k)"

definition conn_event :: "agent_event \<Rightarrow> bool \<Rightarrow> duration \<Rightarrow> connection \<Rightarrow> connection \<times> conn_output list" where
  "conn_event a ok d c0 =
     (let c = count (count_event a d) c0 in
      case voiceEventFromAgent a of
        Inl _ \<Rightarrow> send_error c ok Ended ''provider_failed'' ''agent returned an invalid event''
      | Inr e \<Rightarrow>
          if \<not> ok then (c\<lparr>cn_phase := Ended\<rparr>, [])
          else if ae_Type a = AgentSessionClosed
          then (c\<lparr>cn_phase := Ended\<rparr>, [Write (stamp c e), CloseFrame])
          else (c, [Write (stamp c e)]))"

definition conn_step :: "gateway_config \<Rightarrow> connection \<Rightarrow> conn_input \<Rightarrow> connection \<times> conn_output list" where
  "conn_step cfg c i =
     (let ended = c\<lparr>cn_phase := Ended\<rparr> in
      case cn_phase c of
        Ended \<Rightarrow> (c, [])
      | Starting \<Rightarrow>
        (case i of
           Done \<Rightarrow> (ended, [])
         | StartTimeout ok \<Rightarrow>
             send_error c ok Ended ''session_timeout'' ''session.start was not received in time''
         | PingTick ok \<Rightarrow> if ok then (c, [PingFrame]) else (ended, [])
         | InboundClosed \<Rightarrow> (ended, [])
         | Inbound (Inl err) ok _ \<Rightarrow> send_error c ok Starting ''invalid_event'' err
         | Inbound (Inr e) ok opened \<Rightarrow> conn_start cfg e ok opened c
         | AgentEvent _ _ _ \<Rightarrow> (c, [])
         | AgentEventsClosed \<Rightarrow> (c, []))
      | Open \<Rightarrow>
        (case i of
           Done \<Rightarrow> (ended, [])
         | StartTimeout _ \<Rightarrow> (c, [])
         | PingTick ok \<Rightarrow> if ok then (c, [PingFrame]) else (ended, [])
         | InboundClosed \<Rightarrow> (ended, [])
         | Inbound (Inl err) ok _ \<Rightarrow> send_error c ok Open ''invalid_event'' err
         | Inbound (Inr e) ok sent \<Rightarrow> conn_command e ok sent c
         | AgentEvent a ok d \<Rightarrow> conn_event a ok d c
         | AgentEventsClosed \<Rightarrow> (ended, [])))"

fun conn_run :: "gateway_config \<Rightarrow> connection \<Rightarrow> conn_input list \<Rightarrow> conn_output list" where
  "conn_run cfg c [] = []"
| "conn_run cfg c (i # is) = (case conn_step cfg c i of (c', out) \<Rightarrow> out @ conn_run cfg c' is)"

definition new_connection :: "int \<Rightarrow> principal \<Rightarrow> string \<Rightarrow> counters \<Rightarrow> connection" where
  "new_connection version p fresh k = \<lparr>cn_version = version, cn_session = fresh, cn_principal = p,
     cn_phase = Starting, cn_counters = k\<lparr>ct_Sessions := ct_Sessions k + 1\<rparr>\<rparr>"

section \<open>What a connection sends\<close>

text \<open>
  The protocol of one connection's outputs: every event carries the version and the session of the
  connection, the agent is opened at most once and with its session id, commands go to the agent
  only after it was opened and carry the session id, and nothing follows the close frame. The
  state is the phase reached so far.
\<close>
fun conn_output_ok :: "int \<Rightarrow> string \<Rightarrow> phase \<Rightarrow> conn_output \<Rightarrow> phase option" where
  "conn_output_ok v sid ph (Write e) =
     (if ph \<noteq> Ended \<and> ev_Version e = v \<and> ev_SessionID e = sid then Some ph else None)"
| "conn_output_ok v sid ph (OpenAgent st) =
     (if ph = Starting \<and> st_SessionID st = sid then Some Open else None)"
| "conn_output_ok v sid ph (SendAgent cmd) =
     (if ph = Open \<and> ac_SessionID cmd = sid then Some Open else None)"
| "conn_output_ok v sid ph PingFrame = (if ph \<noteq> Ended then Some ph else None)"
| "conn_output_ok v sid ph CloseFrame = (if ph = Open then Some Ended else None)"

fun conn_trace :: "int \<Rightarrow> string \<Rightarrow> phase \<Rightarrow> conn_output list \<Rightarrow> phase option" where
  "conn_trace v sid ph [] = Some ph"
| "conn_trace v sid ph (x # xs) =
     (case conn_output_ok v sid ph x of None \<Rightarrow> None | Some ph' \<Rightarrow> conn_trace v sid ph' xs)"

lemma conn_trace_append:
  "conn_trace v sid ph (xs @ ys) =
     (case conn_trace v sid ph xs of None \<Rightarrow> None | Some ph' \<Rightarrow> conn_trace v sid ph' ys)"
  by (induction xs arbitrary: ph) (auto split: option.splits)

text \<open>A step keeps the identity of its connection, and its outputs follow the protocol.\<close>
definition conn_follows :: "connection \<Rightarrow> connection \<times> conn_output list \<Rightarrow> bool" where
  "conn_follows c r \<longleftrightarrow> cn_version (fst r) = cn_version c \<and> cn_session (fst r) = cn_session c \<and>
     cn_principal (fst r) = cn_principal c \<and>
     (case conn_trace (cn_version c) (cn_session c) (cn_phase c) (snd r) of None \<Rightarrow> False
      | Some ph \<Rightarrow> cn_phase (fst r) = Ended \<or> cn_phase (fst r) = ph)"

lemma count_simps [simp]:
  "cn_version (count f c) = cn_version c" "cn_session (count f c) = cn_session c"
  "cn_principal (count f c) = cn_principal c" "cn_phase (count f c) = cn_phase c"
  by (simp_all add: count_def)

lemma stamp_simps [simp]:
  "ev_Version (stamp c e) = cn_version c" "ev_SessionID (stamp c e) = cn_session c"
  by (simp_all add: stamp_def)

lemma follows_send_error:
  "cn_phase c \<noteq> Ended \<Longrightarrow> next = cn_phase c \<or> next = Ended \<Longrightarrow> conn_follows c (send_error c ok next code msg)"
  by (auto simp: conn_follows_def send_error_def)

lemma follows_start: "cn_phase c = Starting \<Longrightarrow> conn_follows c (conn_start cfg e ok opened c)"
  by (simp add: conn_start_def Let_def follows_send_error split: prod.split option.split)
     (auto simp: conn_follows_def send_error_def)

lemma agentCommandFromVoice_session:
  "agentCommandFromVoice e = Inr cmd \<Longrightarrow> ac_SessionID cmd = ev_SessionID e"
  by (auto simp: agentCommandFromVoice_def Let_def split: if_splits sum.splits option.splits)

lemma follows_command: "cn_phase c = Open \<Longrightarrow> conn_follows c (conn_command e ok sent c)"
  by (auto simp: conn_command_def follows_send_error conn_follows_def send_error_def
      dest: agentCommandFromVoice_session split: sum.split option.split)

lemma follows_event: "cn_phase c = Open \<Longrightarrow> conn_follows c (conn_event a ok d c)"
  by (auto simp: conn_event_def Let_def split: sum.splits) (auto simp: conn_follows_def send_error_def)

lemma follows_step: "conn_follows c (conn_step cfg c i)"
proof (cases "cn_phase c")
  case Ended
  then show ?thesis by (simp add: conn_step_def conn_follows_def)
next
  case Starting
  then show ?thesis
    by (cases i) (auto simp: conn_step_def follows_start follows_send_error split: sum.splits,
        auto simp: conn_follows_def)
next
  case Open
  then show ?thesis
    by (cases i) (auto simp: conn_step_def follows_command follows_event follows_send_error split: sum.splits,
        auto simp: conn_follows_def)
qed

lemma conn_ended: "cn_phase c = Ended \<Longrightarrow> conn_run cfg c is = []"
  by (induction "is") (auto simp: conn_step_def)

lemma conn_run_trace:
  "conn_trace (cn_version c) (cn_session c) (cn_phase c) (conn_run cfg c is) \<noteq> None"
proof (induction "is" arbitrary: c)
  case (Cons i "is")
  obtain c' out where st: "conn_step cfg c i = (c', out)" by force
  then have "conn_follows c (c', out)" using follows_step[of c cfg i] by simp
  then obtain ph where ph: "conn_trace (cn_version c) (cn_session c) (cn_phase c) out = Some ph"
    "cn_version c' = cn_version c" "cn_session c' = cn_session c" "cn_phase c' = Ended \<or> cn_phase c' = ph"
    by (auto simp: conn_follows_def split: option.splits)
  show ?case
    using Cons[of c'] ph conn_ended[of c' cfg "is"] by (auto simp: st conn_trace_append)
qed simp

text \<open>
  C12. One client connection, whatever its peer sends and however opening the agent, sending and
  writing turn out: every event the gateway writes carries the protocol version of its endpoint and
  the session id it drew; the agent session is opened at most once, under that id; commands go to
  the agent only after it was opened, each with that id; after the close frame nothing is sent.
\<close>
theorem connection_protocol:
  "conn_trace version fresh Starting (conn_run cfg (new_connection version p fresh k) is) \<noteq> None"
  using conn_run_trace[of "new_connection version p fresh k" cfg "is"] by (simp add: new_connection_def)

section \<open>Which agent, for whom\<close>

text \<open>
  What the start of an agent session must satisfy: the factory knows the agent, a v1 client gets no
  v2 agent, and the principal is the client's account for a v2 agent, the configured one otherwise.
\<close>
definition start_allowed ::
  "gateway_config \<Rightarrow> endpoint gomap \<Rightarrow> int \<Rightarrow> principal \<Rightarrow> session_start \<Rightarrow> bool"
where
  "start_allowed cfg f version p st \<longleftrightarrow>
     (case gget f (st_AgentID st) of
        None \<Rightarrow> False
      | Some ep \<Rightarrow> \<not> (version = 1 \<and> ep_Protocol ep = ProtocolV2) \<and>
          st_Principal st = (if ep_Protocol ep = ProtocolV2 then p else gc_Principal cfg) \<and>
          st_Provider st = gc_Provider cfg)"

definition opens :: "conn_output list \<Rightarrow> session_start list" where
  "opens outs = List.map_filter (\<lambda>x. case x of OpenAgent st \<Rightarrow> Some st | _ \<Rightarrow> None) outs"

lemma opens_simps [simp]:
  "opens [] = []" "opens (OpenAgent st # xs) = st # opens xs" "opens (Write e # xs) = opens xs"
  "opens (SendAgent cmd # xs) = opens xs" "opens (PingFrame # xs) = opens xs"
  "opens (CloseFrame # xs) = opens xs" "opens (xs @ ys) = opens xs @ opens ys"
  by (simp_all add: opens_def map_filter_def)

lemma select_agent_none:
  "sel \<notin> set (map ep_AgentID eps) \<Longrightarrow> select_agent cfg v sel eps r = r"
  by (induction eps arbitrary: r) (auto split: prod.splits)

lemma select_agent_find:
  "distinct (map ep_AgentID eps) \<Longrightarrow> select_agent cfg v sel eps (False, p) =
     (case find (\<lambda>ep. ep_AgentID ep = sel) eps of None \<Rightarrow> (False, p)
      | Some ep \<Rightarrow> (\<not> (v = 1 \<and> ep_Protocol ep = ProtocolV2),
          if ep_Protocol ep \<noteq> ProtocolV2 then gc_Principal cfg else p))"
  by (induction eps) (auto simp: select_agent_none)

lemma opens_send_error [simp]: "opens (snd (send_error c ok next code msg)) = []"
  by (simp add: send_error_def)

lemma opens_step:
  "opens (snd (conn_step cfg c i)) = [] \<or>
   (\<exists>e ok opened. i = Inbound (Inr e) ok opened \<and> opens (snd (conn_step cfg c i)) = opens (snd (conn_start cfg e ok opened c)))"
  by (cases "cn_phase c"; cases i)
     (auto simp: conn_step_def conn_command_def conn_event_def Let_def split: sum.split option.split)

lemma catalog_start_allowed:
  assumes "NewServer parse loopback cfg0 = Inr (cfg, f)" and "st \<in> set (opens (snd (conn_start cfg e ok opened c)))"
  shows "start_allowed cfg f (cn_version c) (cn_principal c) st"
proof -
  have "add_endpoints parse loopback (gc_Catalog cfg) [] = Inr f"
    using assms(1) by (auto simp: NewServer_def NewRemoteFactory_def Let_def split: if_splits option.splits sum.splits)
  from add_endpoints_Inr[OF this] have d: "distinct (map ep_AgentID (gc_Catalog cfg))"
    and g: "\<And>k. gget f k = (case find (\<lambda>ep. ep_AgentID ep = k) (gc_Catalog cfg) of None \<Rightarrow> gget [] k
           | Some ep \<Rightarrow> Some (if ep_Protocol ep = [] then ep\<lparr>ep_Protocol := Protocol\<rparr> else ep))"
    by (auto simp del: split_paired_All cong: option.case_cong)
  show ?thesis
    using assms(2) by (auto simp: conn_start_def Let_def start_allowed_def g select_agent_find[OF d]
        split: if_splits option.splits)
qed

lemma run_start_allowed:
  assumes "NewServer parse loopback cfg0 = Inr (cfg, f)"
  shows "list_all (start_allowed cfg f (cn_version c) (cn_principal c)) (opens (conn_run cfg c is))"
proof (induction "is" arbitrary: c)
  case (Cons i "is")
  have "conn_follows c (conn_step cfg c i)" by (rule follows_step)
  then show ?case
    using Cons.IH[of "fst (conn_step cfg c i)"] opens_step[of cfg c i] catalog_start_allowed[OF assms]
    by (auto simp: conn_follows_def list_all_iff split: prod.splits)
qed simp

text \<open>
  C32. On a gateway whose configuration \<open>New\<close> accepts, every agent session a connection opens is
  with an agent of the factory, a client of \<open>/v1/voice\<close> never reaches an agent of the v2 protocol,
  the identity an agent receives is the caller's account exactly for the v2 agents and the gateway's
  own principal for the others, and the provider is the configured one.
\<close>
theorem agent_gets_right_principal:
  "case NewServer parse loopback cfg0 of Inl _ \<Rightarrow> True
   | Inr (cfg, f) \<Rightarrow> list_all (start_allowed cfg f version p)
       (opens (conn_run cfg (new_connection version p fresh k) is))"
  using run_start_allowed[of parse loopback cfg0 _ _ "new_connection version p fresh k" "is"]
  by (auto simp: new_connection_def split: sum.split)

section \<open>Relaying commands\<close>

text \<open>The commands the inputs ask for, and those the agent is sent.\<close>
fun wanted :: "string \<Rightarrow> conn_input list \<Rightarrow> agent_command list" where
  "wanted sid [] = []"
| "wanted sid (Inbound (Inr e) _ _ # is) =
     (case agentCommandFromVoice e of Inr cmd \<Rightarrow> (if ev_SessionID e = sid then [cmd] else []) | Inl _ \<Rightarrow> [])
     @ wanted sid is"
| "wanted sid (_ # is) = wanted sid is"

definition relayed :: "conn_output list \<Rightarrow> agent_command list" where
  "relayed outs = List.map_filter (\<lambda>x. case x of SendAgent cmd \<Rightarrow> Some cmd | _ \<Rightarrow> None) outs"

lemma relayed_simps [simp]:
  "relayed [] = []" "relayed (OpenAgent st # xs) = relayed xs" "relayed (Write e # xs) = relayed xs"
  "relayed (SendAgent cmd # xs) = cmd # relayed xs" "relayed (PingFrame # xs) = relayed xs"
  "relayed (CloseFrame # xs) = relayed xs" "relayed (xs @ ys) = relayed xs @ relayed ys"
  by (simp_all add: relayed_def map_filter_def)

lemma relayed_send_error [simp]: "relayed (snd (send_error c ok next code msg)) = []"
  by (simp add: send_error_def)

lemma wanted_Cons: "wanted sid (i # is) = wanted sid [i] @ wanted sid is"
  by (cases "(sid, i # is)" rule: wanted.cases) auto

lemma relayed_open:
  "cn_phase c = Open \<Longrightarrow> relayed (snd (conn_step cfg c i)) = wanted (cn_session c) [i]
     \<or> cn_phase (fst (conn_step cfg c i)) = Ended \<and> prefix (relayed (snd (conn_step cfg c i))) (wanted (cn_session c) [i])"
  by (cases "(cn_session c, [i])" rule: wanted.cases)
     (auto simp: conn_step_def conn_command_def conn_event_def Let_def send_error_def split: sum.split option.split)

lemma relayed_starting: "cn_phase c = Starting \<Longrightarrow> relayed (snd (conn_step cfg c i)) = []"
  by (cases i) (auto simp: conn_step_def conn_start_def Let_def split: sum.split option.split prod.split)

lemma conn_trace_past_start: "conn_trace v sid ph out = Some ph' \<Longrightarrow> ph \<noteq> Starting \<Longrightarrow> ph' \<noteq> Starting"
proof (induction out arbitrary: ph)
  case (Cons x out)
  then show ?case by (cases x) (auto split: if_splits)
qed simp

lemma phase_after_open:
  "cn_phase c = Open \<Longrightarrow> cn_phase (fst (conn_step cfg c i)) \<noteq> Starting"
  using follows_step[of c cfg i] by (auto simp: conn_follows_def split: option.splits dest: conn_trace_past_start)

lemma relayed_prefix:
  "cn_phase c = Open \<Longrightarrow> prefix (relayed (conn_run cfg c is)) (wanted (cn_session c) is)"
proof (induction "is" arbitrary: c)
  case (Cons i "is")
  define c' where "c' = fst (conn_step cfg c i)"
  have "cn_session c' = cn_session c"
    using follows_step[of c cfg i] by (simp add: conn_follows_def c'_def)
  moreover have "cn_phase c' = Ended \<or> cn_phase c' = Open"
    using phase_after_open[OF Cons.prems, of cfg i] by (cases "cn_phase c'") (auto simp: c'_def)
  ultimately show ?case
    using relayed_open[OF Cons.prems, of cfg i] Cons.IH[of c'] conn_ended[of c' cfg "is"]
    by (auto simp: wanted_Cons[of _ i "is"] c'_def prefix_def split: prod.splits)
qed simp

lemma relayed_sublist:
  "sublist (relayed (conn_run cfg c is)) (wanted (cn_session c) is)"
proof (induction "is" arbitrary: c)
  case (Cons i "is")
  define c' where "c' = fst (conn_step cfg c i)"
  show ?case
  proof (cases "cn_phase c")
    case Starting
    have "cn_session c' = cn_session c"
      using follows_step[of c cfg i] by (simp add: conn_follows_def c'_def)
    then have "sublist (relayed (conn_run cfg c' is)) (wanted (cn_session c) is)"
      using Cons.IH[of c'] by simp
    then show ?thesis
      using relayed_starting[OF Starting, of cfg i]
      by (auto simp: wanted_Cons[of _ i "is"] c'_def sublist_append split: prod.splits)
  next
    case Open
    then show ?thesis using relayed_prefix[of c cfg "i # is"] by (rule_tac prefix_imp_sublist)
  next
    case Ended
    then show ?thesis by (simp add: conn_ended del: conn_run.simps)
  qed
qed simp

text \<open>
  The commands an agent is sent are a contiguous run of the commands the client asked for: the
  translations of its valid frames that name its session, in the order of their arrival, none
  skipped, repeated or changed between the first that reaches the agent and the last.
\<close>
theorem commands_relayed_in_order:
  "sublist (relayed (conn_run cfg (new_connection version p fresh k) is)) (wanted fresh is)"
  using relayed_sublist[of cfg "new_connection version p fresh k" "is"] by (simp add: new_connection_def)

end
