(* ===== verification/Mcp_Envelope.thy ===== *)
theory Mcp_Envelope
  imports Mcp_Types Json_Text
begin

text \<open>
  The signed host context of a tool call, \<open>packages/go/mcpwire/envelope.go\<close> and
  \<open>envelope_v2.go\<close>. HMAC-SHA256 is the argument \<open>mac\<close> (key, message), SHA-256 is the field
  \<open>sha256\<close> of the library record; \<open>now\<close> is what \<open>c.now()\<close> returns, in nanoseconds.
\<close>

record envelope_codec =
  ec_secret :: "byte list"
  ec_audience :: string

record host_context =
  hc_Version :: int
  hc_Audience :: string
  hc_Tool :: string
  hc_PayloadHash :: string
  hc_IdempotencyKey :: string
  hc_Confirmed :: bool
  hc_ExpiresAt :: int
  hc_Signature :: string

record tool_envelope =
  te_Payload :: string
  te_Context :: host_context

definition zero_context :: host_context where
  "zero_context = \<lparr>hc_Version = 0, hc_Audience = [], hc_Tool = [], hc_PayloadHash = [],
     hc_IdempotencyKey = [], hc_Confirmed = False, hc_ExpiresAt = 0, hc_Signature = []\<rparr>"

definition zero_envelope :: tool_envelope where
  "zero_envelope = \<lparr>te_Payload = [], te_Context = zero_context\<rparr>"

definition context_fields :: "host_context fields" where
  "context_fields =
     [int_field ''version'' (\<lambda>v x. x\<lparr>hc_Version := v\<rparr>),
      string_field ''audience'' (\<lambda>v x. x\<lparr>hc_Audience := v\<rparr>),
      string_field ''tool'' (\<lambda>v x. x\<lparr>hc_Tool := v\<rparr>),
      string_field ''payload_hash'' (\<lambda>v x. x\<lparr>hc_PayloadHash := v\<rparr>),
      string_field ''idempotency_key'' (\<lambda>v x. x\<lparr>hc_IdempotencyKey := v\<rparr>),
      bool_field ''confirmed'' (\<lambda>v x. x\<lparr>hc_Confirmed := v\<rparr>),
      int_field ''expires_at'' (\<lambda>v x. x\<lparr>hc_ExpiresAt := v\<rparr>),
      string_field ''signature'' (\<lambda>v x. x\<lparr>hc_Signature := v\<rparr>)]"

definition envelope_fields :: "tool_envelope fields" where
  "envelope_fields =
     [raw_field ''payload'' (\<lambda>v x. x\<lparr>te_Payload := v\<rparr>),
      struct_field ''host_context'' context_fields te_Context (\<lambda>v x. x\<lparr>te_Context := v\<rparr>)]"

definition context_members :: "host_context \<Rightarrow> (string \<times> string) list" where
  "context_members c =
     [(''version'', int_text (hc_Version c)), (''audience'', json_quote (hc_Audience c)),
      (''tool'', json_quote (hc_Tool c)), (''payload_hash'', json_quote (hc_PayloadHash c)),
      (''idempotency_key'', json_quote (hc_IdempotencyKey c)), (''confirmed'', bool_text (hc_Confirmed c)),
      (''expires_at'', int_text (hc_ExpiresAt c)), (''signature'', json_quote (hc_Signature c))]"

definition context_text :: "host_context \<Rightarrow> string" where
  "context_text c = obj_text (context_members c)"

definition NewEnvelopeCodec :: "string \<Rightarrow> string \<Rightarrow> error + envelope_codec" where
  "NewEnvelopeCodec secretHex audience =
     (case hex_decode secretHex of
        Some secret \<Rightarrow>
          if length secret \<noteq> 32 \<or> \<not> alias_ok audience
          then Inl ''MCP envelope requires a 32-byte hex secret and a valid audience''
          else Inr \<lparr>ec_secret = secret, ec_audience = audience\<rparr>
      | None \<Rightarrow> Inl ''MCP envelope requires a 32-byte hex secret and a valid audience'')"

text \<open>\<open>secretHex\<close> is the environment variable \<open>STS_MCP_CONTEXT_SECRET\<close>.\<close>
definition ServerEnvelope :: "string \<Rightarrow> string \<Rightarrow> string \<Rightarrow> error + envelope_codec option" where
  "ServerEnvelope secretHex mode audience =
     (if mode = ''meta'' then Inr None
      else if mode \<noteq> ''envelope'' then Inl ''unsupported MCP context mode''
      else map_sum id Some (NewEnvelopeCodec secretHex audience))"

section \<open>Canonical payloads\<close>

text \<open>A map decoded with \<open>UseNumber\<close>, nothing behind it, and marshalled again.\<close>
definition canonicalJSON :: "string \<Rightarrow> error + string" where
  "canonicalJSON data =
     (case json_whole data of
        Some (JObj kvs) \<Rightarrow> Inr (json_text (\<lambda>l. l) (JObj kvs))
      | _ \<Rightarrow> Inl ''arguments must be an object'')"

definition payload_hash :: "'sch lib \<Rightarrow> string \<Rightarrow> string" where
  "payload_hash L canonical = hex_encode (sha256 L (bytes_of canonical))"

definition canonicalPayload :: "'sch lib \<Rightarrow> string \<Rightarrow> error + string \<times> string" where
  "canonicalPayload L payload =
     (if length payload > 16384 then Inl ''arguments exceed limit''
      else map_sum id (\<lambda>canonical. (canonical, payload_hash L canonical)) (canonicalJSON payload))"

section \<open>Signing\<close>

definition signed_text :: "host_context \<Rightarrow> string" where
  "signed_text c = ''sts-mcp-envelope-v1'' @ bchr 0 # context_text (c\<lparr>hc_Signature := []\<rparr>)"

definition signature :: "(byte list \<Rightarrow> string \<Rightarrow> byte list) \<Rightarrow> envelope_codec \<Rightarrow> host_context \<Rightarrow> string" where
  "signature mac c context = hex_encode (mac (ec_secret c) (signed_text context))"

definition envelope_text :: "tool_envelope \<Rightarrow> string" where
  "envelope_text e = obj_text [(''payload'', json_compact (te_Payload e)), (''host_context'', context_text (te_Context e))]"

definition unix_second :: "instant \<Rightarrow> int" where "unix_second t = t div second_ns"

definition Wrap ::
  "(byte list \<Rightarrow> string \<Rightarrow> byte list) \<Rightarrow> 'sch lib \<Rightarrow> envelope_codec \<Rightarrow> instant \<Rightarrow> string \<Rightarrow> string \<Rightarrow> string \<Rightarrow> bool
   \<Rightarrow> error + string"
where
  "Wrap mac L c now tool payload key confirmed =
     (case canonicalPayload L payload of
        Inl err \<Rightarrow> Inl err
      | Inr (canonical, hash) \<Rightarrow>
          if tool = [] \<or> key = [] \<or> length key > 256 then Inl ''invalid host operation''
          else
            (let context = \<lparr>hc_Version = 1, hc_Audience = ec_audience c, hc_Tool = tool, hc_PayloadHash = hash,
                   hc_IdempotencyKey = key, hc_Confirmed = confirmed,
                   hc_ExpiresAt = unix_second (now + minute_ns), hc_Signature = []\<rparr>
             in Inr (envelope_text \<lparr>te_Payload = canonical,
                       te_Context = context\<lparr>hc_Signature := signature mac c context\<rparr>\<rparr>)))"

definition Unwrap ::
  "(byte list \<Rightarrow> string \<Rightarrow> byte list) \<Rightarrow> 'sch lib \<Rightarrow> envelope_codec \<Rightarrow> instant \<Rightarrow> string \<Rightarrow> string
   \<Rightarrow> error + string \<times> string \<times> bool"
where
  "Unwrap mac L c now tool data =
     (let deny = Inl ''invalid host context''; t = unix_second now in
      if length data > 32768 then deny
      else (case decode_whole (strict_fields envelope_fields) zero_envelope data of
          None \<Rightarrow> deny
        | Some envelope \<Rightarrow>
          (let context = te_Context envelope in
           if hc_Version context \<noteq> 1 \<or> hc_Audience context \<noteq> ec_audience c \<or> hc_Tool context \<noteq> tool
              \<or> hc_ExpiresAt context \<le> t \<or> hc_ExpiresAt context > t + 60
              \<or> hc_IdempotencyKey context = [] \<or> length (hc_IdempotencyKey context) > 256
           then deny
           else (case canonicalPayload L (te_Payload envelope) of
               Inl _ \<Rightarrow> deny
             | Inr (canonical, hash) \<Rightarrow>
                 if hash \<noteq> hc_PayloadHash context then deny
                 else (case hex_decode (hc_Signature context) of
                     None \<Rightarrow> deny
                   | Some sig \<Rightarrow>
                       if sig \<noteq> mac (ec_secret c) (signed_text context) then deny
                       else Inr (canonical, hc_IdempotencyKey context, hc_Confirmed context))))))"

section \<open>Version 2\<close>

record identity_context =
  id_Subject :: string
  id_ClientCode :: string
  id_SessionRef :: string
  id_DeviceID :: string
  id_Scopes :: "string list option"

record host_context_v2 =
  h2_Version :: int
  h2_Audience :: string
  h2_Tool :: string
  h2_PayloadHash :: string
  h2_IdempotencyKey :: string
  h2_Confirmed :: bool
  h2_ExpiresAt :: int
  h2_Identity :: identity_context
  h2_Signature :: string

record envelope_v2 =
  e2_Payload :: string
  e2_Context :: host_context_v2

definition zero_identity :: identity_context where
  "zero_identity = \<lparr>id_Subject = [], id_ClientCode = [], id_SessionRef = [], id_DeviceID = [], id_Scopes = None\<rparr>"

definition zero_context_v2 :: host_context_v2 where
  "zero_context_v2 = \<lparr>h2_Version = 0, h2_Audience = [], h2_Tool = [], h2_PayloadHash = [],
     h2_IdempotencyKey = [], h2_Confirmed = False, h2_ExpiresAt = 0, h2_Identity = zero_identity, h2_Signature = []\<rparr>"

definition zero_envelope_v2 :: envelope_v2 where
  "zero_envelope_v2 = \<lparr>e2_Payload = [], e2_Context = zero_context_v2\<rparr>"

text \<open>A \<open>[]string\<close>: \<open>null\<close> is nil; a \<open>null\<close> element keeps what the slice held at its place.\<close>
definition raw_strings :: "string \<Rightarrow> string list option \<Rightarrow> string list option option" where
  "raw_strings raw old =
     (case json_whole raw of
        Some JNull \<Rightarrow> Some None
      | Some (JArr vs) \<Rightarrow>
          map_option Some (those (map (\<lambda>(i, v). case v of
              JStr s \<Rightarrow> Some s
            | JNull \<Rightarrow> Some (case old of Some xs \<Rightarrow> if i < length xs then xs ! i else [] | None \<Rightarrow> [])
            | _ \<Rightarrow> None) (enumerate 0 vs)))
      | _ \<Rightarrow> None)"

definition identity_fields :: "identity_context fields" where
  "identity_fields =
     [string_field ''subject'' (\<lambda>v x. x\<lparr>id_Subject := v\<rparr>),
      string_field ''client_code'' (\<lambda>v x. x\<lparr>id_ClientCode := v\<rparr>),
      string_field ''session_ref'' (\<lambda>v x. x\<lparr>id_SessionRef := v\<rparr>),
      string_field ''device_id'' (\<lambda>v x. x\<lparr>id_DeviceID := v\<rparr>),
      (''scopes'', \<lambda>raw x. map_option (\<lambda>v. x\<lparr>id_Scopes := v\<rparr>) (raw_strings raw (id_Scopes x)))]"

definition context_v2_fields :: "host_context_v2 fields" where
  "context_v2_fields =
     [int_field ''version'' (\<lambda>v x. x\<lparr>h2_Version := v\<rparr>),
      string_field ''audience'' (\<lambda>v x. x\<lparr>h2_Audience := v\<rparr>),
      string_field ''tool'' (\<lambda>v x. x\<lparr>h2_Tool := v\<rparr>),
      string_field ''payload_hash'' (\<lambda>v x. x\<lparr>h2_PayloadHash := v\<rparr>),
      string_field ''idempotency_key'' (\<lambda>v x. x\<lparr>h2_IdempotencyKey := v\<rparr>),
      bool_field ''confirmed'' (\<lambda>v x. x\<lparr>h2_Confirmed := v\<rparr>),
      int_field ''expires_at'' (\<lambda>v x. x\<lparr>h2_ExpiresAt := v\<rparr>),
      struct_field ''identity'' identity_fields h2_Identity (\<lambda>v x. x\<lparr>h2_Identity := v\<rparr>),
      string_field ''signature'' (\<lambda>v x. x\<lparr>h2_Signature := v\<rparr>)]"

definition envelope_v2_fields :: "envelope_v2 fields" where
  "envelope_v2_fields =
     [raw_field ''payload'' (\<lambda>v x. x\<lparr>e2_Payload := v\<rparr>),
      struct_field ''host_context'' context_v2_fields e2_Context (\<lambda>v x. x\<lparr>e2_Context := v\<rparr>)]"

definition identity_text :: "identity_context \<Rightarrow> string" where
  "identity_text d = obj_text
     [(''subject'', json_quote (id_Subject d)), (''client_code'', json_quote (id_ClientCode d)),
      (''session_ref'', json_quote (id_SessionRef d)), (''device_id'', json_quote (id_DeviceID d)),
      (''scopes'', case id_Scopes d of None \<Rightarrow> ''null'' | Some xs \<Rightarrow> arr_text (map json_quote xs))]"

definition context_v2_text :: "host_context_v2 \<Rightarrow> string" where
  "context_v2_text c = obj_text
     [(''version'', int_text (h2_Version c)), (''audience'', json_quote (h2_Audience c)),
      (''tool'', json_quote (h2_Tool c)), (''payload_hash'', json_quote (h2_PayloadHash c)),
      (''idempotency_key'', json_quote (h2_IdempotencyKey c)), (''confirmed'', bool_text (h2_Confirmed c)),
      (''expires_at'', int_text (h2_ExpiresAt c)), (''identity'', identity_text (h2_Identity c)),
      (''signature'', json_quote (h2_Signature c))]"

definition envelope_v2_text :: "envelope_v2 \<Rightarrow> string" where
  "envelope_v2_text e = obj_text [(''payload'', json_compact (e2_Payload e)), (''host_context'', context_v2_text (e2_Context e))]"

definition signed_text_v2 :: "host_context_v2 \<Rightarrow> string" where
  "signed_text_v2 c = ''sts-mcp-envelope-v2'' @ bchr 0 # context_v2_text (c\<lparr>h2_Signature := []\<rparr>)"

definition signV2 :: "(byte list \<Rightarrow> string \<Rightarrow> byte list) \<Rightarrow> envelope_codec \<Rightarrow> host_context_v2 \<Rightarrow> string" where
  "signV2 mac c context = hex_encode (mac (ec_secret c) (signed_text_v2 context))"

text \<open>\<open>^-?(0|[1-9][0-9]*)$\<close>\<close>
definition integer_literal :: "string \<Rightarrow> bool" where
  "integer_literal l \<longleftrightarrow>
     (let ds = (case l of c # r \<Rightarrow> if bval c = 45 then r else l | [] \<Rightarrow> []) in
      ds = ''0'' \<or> (list_all is_digit ds \<and> (case ds of c # _ \<Rightarrow> bval c \<noteq> 48 | [] \<Rightarrow> False)))"

text \<open>On the value as decoded into \<open>any\<close>: of equal keys only the last counts.\<close>
fun v2_valid :: "json \<Rightarrow> bool" where
  "v2_valid (JNum l) = integer_literal l"
| "v2_valid (JArr xs) = list_all v2_valid xs"
| "v2_valid (JObj kvs) = list_all (\<lambda>(k, ok). ascii k \<and> ok) (go_map (map (\<lambda>(k, v). (k, v2_valid v)) kvs))"
| "v2_valid _ = True"

definition canonicalV2 :: "'sch lib \<Rightarrow> string \<Rightarrow> error + string \<times> string" where
  "canonicalV2 L data =
     (case json_prefix data of
        None \<Rightarrow> Inl ''invalid payload''
      | Some (v, _) \<Rightarrow>
          if \<not> v2_valid v then Inl ''v2 payload requires ASCII keys and integer numbers''
          else canonicalPayload L data)"

definition WrapV2 ::
  "(byte list \<Rightarrow> string \<Rightarrow> byte list) \<Rightarrow> 'sch lib \<Rightarrow> envelope_codec \<Rightarrow> instant \<Rightarrow> string \<Rightarrow> string \<Rightarrow> string \<Rightarrow> bool
   \<Rightarrow> identity_context \<Rightarrow> error + string"
where
  "WrapV2 mac L c now tool payload key confirmed identity0 =
     (case canonicalV2 L payload of
        Inl err \<Rightarrow> Inl err
      | Inr (canonical, hash) \<Rightarrow>
          if tool = [] \<or> key = [] \<or> length key > 256 \<or> id_Subject identity0 = [] \<or> id_DeviceID identity0 = []
          then Inl ''invalid host operation''
          else
            (let identity = (if id_Scopes identity0 = None then identity0\<lparr>id_Scopes := Some []\<rparr> else identity0);
                 context = \<lparr>h2_Version = 2, h2_Audience = ec_audience c, h2_Tool = tool, h2_PayloadHash = hash,
                   h2_IdempotencyKey = key, h2_Confirmed = confirmed,
                   h2_ExpiresAt = unix_second (now + minute_ns), h2_Identity = identity, h2_Signature = []\<rparr>
             in Inr (envelope_v2_text \<lparr>e2_Payload = canonical,
                       e2_Context = context\<lparr>h2_Signature := signV2 mac c context\<rparr>\<rparr>)))"

definition UnwrapV2 ::
  "(byte list \<Rightarrow> string \<Rightarrow> byte list) \<Rightarrow> 'sch lib \<Rightarrow> envelope_codec \<Rightarrow> instant \<Rightarrow> string \<Rightarrow> string
   \<Rightarrow> error + envelope_v2"
where
  "UnwrapV2 mac L c now tool data =
     (let deny = Inl ''invalid host context''; t = unix_second now in
      if length data > 32768 then deny
      else (case decode_whole (strict_fields envelope_v2_fields) zero_envelope_v2 data of
          None \<Rightarrow> deny
        | Some e \<Rightarrow>
          (let h = e2_Context e in
           if h2_Version h \<noteq> 2 \<or> h2_Audience h \<noteq> ec_audience c \<or> h2_Tool h \<noteq> tool \<or> h2_ExpiresAt h \<le> t
              \<or> h2_ExpiresAt h > t + 60 \<or> h2_IdempotencyKey h = [] \<or> length (h2_IdempotencyKey h) > 256
              \<or> id_Subject (h2_Identity h) = [] \<or> id_DeviceID (h2_Identity h) = [] \<or> id_Scopes (h2_Identity h) = None
           then deny
           else (case canonicalV2 L (e2_Payload e) of
               Inl _ \<Rightarrow> deny
             | Inr (_, hash) \<Rightarrow>
                 if hash \<noteq> h2_PayloadHash h then deny
                 else (case hex_decode (h2_Signature h) of
                     None \<Rightarrow> deny
                   | Some sig \<Rightarrow>
                       if sig \<noteq> mac (ec_secret c) (signed_text_v2 h) then deny else Inr e)))))"

text \<open>The schema a tool advertises in envelope mode; empty when the tool's own is not JSON.\<close>
definition envelope_schema :: "string \<Rightarrow> string" where
  "envelope_schema schema =
     (if schema \<noteq> [] \<and> \<not> json_valid schema then []
      else obj_text
        [(''additionalProperties'', ''false''),
         (''properties'', obj_text [(''host_context'', obj_text [(''type'', json_quote ''object'')]),
            (''payload'', if schema = [] then ''null'' else json_compact schema)]),
         (''required'', arr_text [json_quote ''payload'', json_quote ''host_context'']),
         (''type'', json_quote ''object'')])"

definition EnvelopeTools :: "tool list \<Rightarrow> tool list" where
  "EnvelopeTools tools = map (\<lambda>t. t\<lparr>tl_InputSchema := envelope_schema (tl_InputSchema t)\<rparr>) tools"

section \<open>What decoding gives back\<close>

text \<open>A context whose strings are UTF-8 and whose integers have 64 bits.\<close>
definition int64 :: "int \<Rightarrow> bool" where
  "int64 i \<longleftrightarrow> - 9223372036854775808 \<le> i \<and> i \<le> 9223372036854775807"

definition context_wf :: "host_context \<Rightarrow> bool" where
  "context_wf c \<longleftrightarrow> int64 (hc_Version c) \<and> utf8 (hc_Audience c) \<and> utf8 (hc_Tool c) \<and> utf8 (hc_PayloadHash c)
     \<and> utf8 (hc_IdempotencyKey c) \<and> int64 (hc_ExpiresAt c) \<and> utf8 (hc_Signature c)"

lemma decode_context_members:
  "context_wf c \<Longrightarrow> decode_members (strict_fields context_fields) (context_members c) x = Some c"
  by (simp add: context_wf_def int64_def context_members_def context_fields_def field_defs store_def names_field_def
      bval_Char is_lower_def bchr_eq)

definition context_json :: "host_context \<Rightarrow> (string \<times> json) list" where
  "context_json c =
     [(''version'', JNum (int_text (hc_Version c))), (''audience'', JStr (hc_Audience c)),
      (''tool'', JStr (hc_Tool c)), (''payload_hash'', JStr (hc_PayloadHash c)),
      (''idempotency_key'', JStr (hc_IdempotencyKey c)), (''confirmed'', JBool (hc_Confirmed c)),
      (''expires_at'', JNum (int_text (hc_ExpiresAt c))), (''signature'', JStr (hc_Signature c))]"

lemma context_members_read: "context_wf c \<Longrightarrow> list_all2 (reads_member d) (context_members c) (context_json c)"
  by (simp add: context_members_def context_json_def context_wf_def reads_member_def reads_int reads_quote reads_bool
      utf8_ascii bval_Char)

lemma context_text_read: "context_wf c \<Longrightarrow> reads (context_text c) (JObj (context_json c)) (Suc d)"
  unfolding context_text_def by (rule reads_obj [OF context_members_read])

lemma decode_context:
  assumes "context_wf c"
  shows "decode_whole (strict_fields context_fields) x (context_text c) = Some c"
  using decode_context_members [OF assms] decode_whole_obj [OF context_members_read [OF assms, of 0], of "strict_fields context_fields" x]
  by (simp add: context_text_def json_max_depth_def)

lemma find_envelope_field:
  "find_field envelope_fields ''payload'' = Some (\<lambda>raw x. Some (x\<lparr>te_Payload := raw\<rparr>))"
  "find_field envelope_fields ''host_context'' = Some (\<lambda>raw x.
     map_option (\<lambda>y. x\<lparr>te_Context := y\<rparr>) (decode_whole (strict_fields context_fields) (te_Context x) raw))"
  by (simp_all add: envelope_fields_def find_field_def raw_field_def struct_field_def names_field_def bval_Char
      is_lower_def bchr_eq)

text \<open>An envelope as \<open>Wrap\<close> writes it is decoded to its payload's text and its context.\<close>
lemma decode_envelope:
  assumes "context_wf c" "reads p v d" "Suc d < json_max_depth"
  shows "decode_whole (strict_fields envelope_fields) zero_envelope
      (obj_text [(''payload'', p), (''host_context'', context_text c)]) = Some \<lparr>te_Payload = p, te_Context = c\<rparr>"
proof -
  have "reads (context_text c) (JObj (context_json c)) (Suc d)" "reads p v (Suc d)"
    using context_text_read [OF assms(1)] reads_mono [OF assms(2), of "Suc d"] by simp_all
  then have "list_all2 (reads_member (Suc d)) [(''payload'', p), (''host_context'', context_text c)]
      [(''payload'', v), (''host_context'', JObj (context_json c))]" (is "list_all2 _ ?kts ?kvs")
    by (simp add: reads_member_def utf8_ascii bval_Char)
  moreover have "decode_members (strict_fields envelope_fields) [(''payload'', p), (''host_context'', context_text c)]
      zero_envelope = Some \<lparr>te_Payload = p, te_Context = c\<rparr>"
    by (simp only: decode_members.simps strict_fields_def [of envelope_fields] find_envelope_field option.case
        tool_envelope.simps decode_context [OF assms(1)] option.map zero_envelope_def)
  moreover have "Suc d < json_max_depth" by (rule assms(3))
  ultimately show ?thesis by (simp only: decode_whole_obj)
qed

section \<open>Round trip\<close>

lemma canonicalJSON_cases:
  assumes "canonicalJSON s = Inr t"
  obtains kvs where "json_whole s = Some (JObj kvs)" "t = json_text (\<lambda>l. l) (JObj kvs)" "json_wf (JObj kvs)"
  using assms json_prefix_wf by (fastforce simp: canonicalJSON_def json_whole_def split: option.splits json.splits prod.splits if_splits)

text \<open>Canonical text is read as a value of which it is the canonical text, and is not changed by \<open>json.Marshal\<close>.\<close>
lemma canonical_text:
  assumes "canonicalJSON s = Inr t"
  shows "\<exists>v kvs. json_whole s = Some v \<and> json_norm (json_norm v) = JObj kvs
      \<and> reads t (JObj kvs) (length t div 2) \<and> json_text (\<lambda>l. l) (JObj kvs) = t" and "compact t"
proof -
  obtain kvs where v: "json_whole s = Some (JObj kvs)" "t = json_text (\<lambda>l. l) (JObj kvs)" "json_wf (JObj kvs)"
    using canonicalJSON_cases [OF assms] by metis
  let ?w = "json_norm (JObj kvs)"
  have t: "t = json_text (\<lambda>l. l) ?w" using v(2) json_text_norm [of "\<lambda>l. l" "JObj kvs"] by metis
  have "json_depth ?w \<le> length t div 2" using depth_length [of "JObj kvs" "\<lambda>l. l"] unfolding v(2) by linarith
  then have "reads t (json_norm ?w) (length t div 2)"
    using reads_json_text [OF json_wf_norm [OF v(3)]] unfolding t by blast
  moreover have "json_text (\<lambda>l. l) (json_norm ?w) = t" using json_text_norm [of "\<lambda>l. l" ?w] t by metis
  ultimately show "\<exists>v kvs. json_whole s = Some v \<and> json_norm (json_norm v) = JObj kvs
      \<and> reads t (JObj kvs) (length t div 2) \<and> json_text (\<lambda>l. l) (JObj kvs) = t"
    using v(1) by auto
  show "compact t" using compact_json_text [OF v(3)] by (simp add: v(2))
qed

lemma canonicalJSON_again:
  assumes "canonicalJSON s = Inr t" "length t \<le> 16384"
  shows "canonicalJSON t = Inr t"
proof -
  obtain kvs where k: "reads t (JObj kvs) (length t div 2)" "json_text (\<lambda>l. l) (JObj kvs) = t"
    using canonical_text(1) [OF assms(1)] by blast
  have "json_whole t = Some (JObj kvs)" by (rule reads_whole [OF k(1)]) (use assms(2) in \<open>simp add: json_max_depth_def\<close>)
  then show ?thesis using k(2) by (simp add: canonicalJSON_def)
qed

lemma unix_second_minute: "unix_second (t + minute_ns) = unix_second t + 60"
  by (simp add: unix_second_def minute_ns_def second_ns_def)

lemma utf8_hex_encode [simp]: "utf8 (hex_encode bs)"
proof -
  have "bval (hex_digit n) < 128" if "n < 16" for n using that by (simp add: hex_digit_def)
  then have "ascii (hex_encode bs)" by (induction bs) (simp_all add: hex_encode_def byte_div_less)
  then show ?thesis by (rule utf8_ascii)
qed

lemma utf8_alias: "alias_ok s \<Longrightarrow> utf8 s"
  by (intro utf8_ascii) (auto simp: alias_ok_def ascii_def is_lower_def is_digit_def list_all_iff split: list.splits)

text \<open>What \<open>Wrap\<close> signs.\<close>
definition wrapped_context :: "envelope_codec \<Rightarrow> instant \<Rightarrow> string \<Rightarrow> string \<Rightarrow> string \<Rightarrow> bool \<Rightarrow> host_context" where
  "wrapped_context c now tool hash key confirmed = \<lparr>hc_Version = 1, hc_Audience = ec_audience c, hc_Tool = tool,
     hc_PayloadHash = hash, hc_IdempotencyKey = key, hc_Confirmed = confirmed,
     hc_ExpiresAt = unix_second now + 60, hc_Signature = []\<rparr>"

lemma Wrap_Inr:
  assumes "Wrap mac L c now tool payload key confirmed = Inr data"
  obtains canonical where "canonicalJSON payload = Inr canonical" "tool \<noteq> []" "key \<noteq> []" "length key \<le> 256"
    "data = obj_text [(''payload'', canonical), (''host_context'', context_text
       (let h = wrapped_context c now tool (payload_hash L canonical) key confirmed
        in h\<lparr>hc_Signature := hex_encode (mac (ec_secret c) (signed_text h))\<rparr>))]"
proof -
  obtain canonical where can: "canonicalJSON payload = Inr canonical"
    using assms by (cases "canonicalJSON payload") (auto simp: Wrap_def canonicalPayload_def split: if_splits)
  have "json_compact canonical = canonical" using can canonical_text(2) json_compact_id by blast
  then show thesis using assms can
    by (intro that [of canonical]) (auto simp: Wrap_def canonicalPayload_def envelope_text_def wrapped_context_def
        unix_second_minute signature_def Let_def split: if_splits)
qed

lemma unwrap_wrap_context:
  assumes "Wrap mac L c now tool payload key confirmed = Inr data" "alias_ok (ec_audience c)" "utf8 tool" "utf8 key"
    and "int64 (unix_second now + 60)" "unix_second now \<le> unix_second now'" "unix_second now' < unix_second now + 60"
    and "canonicalJSON payload = Inr canonical" "length canonical \<le> 16384" "length data \<le> 32768"
  shows "Unwrap mac L c now' tool data = Inr (canonical, key, confirmed)"
proof -
  let ?h = "wrapped_context c now tool (payload_hash L canonical) key confirmed"
  let ?c = "?h\<lparr>hc_Signature := hex_encode (mac (ec_secret c) (signed_text ?h))\<rparr>"
  have w: "tool \<noteq> []" "key \<noteq> []" "length key \<le> 256"
      "data = obj_text [(''payload'', canonical), (''host_context'', context_text ?c)]"
    using Wrap_Inr [OF assms(1)] assms(8) by (metis sum.inject(2))+
  have wf: "context_wf ?c"
    using assms(2-5) by (simp add: context_wf_def wrapped_context_def int64_def utf8_alias payload_hash_def)
  obtain kvs where r: "reads canonical (JObj kvs) (length canonical div 2)"
    using canonical_text(1) [OF assms(8)] by blast
  have "Suc (length canonical div 2) < json_max_depth" using assms(9) by (simp add: json_max_depth_def)
  then have d: "decode_whole (strict_fields envelope_fields) zero_envelope data
      = Some \<lparr>te_Payload = canonical, te_Context = ?c\<rparr>"
    unfolding w(4) by (rule decode_envelope [OF wf r])
  have s: "signed_text ?c = signed_text ?h" by (simp add: signed_text_def wrapped_context_def)
  have p: "canonicalPayload L canonical = Inr (canonical, payload_hash L canonical)"
    using canonicalJSON_again [OF assms(8,9)] assms(9) by (simp add: canonicalPayload_def)
  show ?thesis using assms(6,7,10) w(1-3)
    by (simp add: Unwrap_def d Let_def s p) (simp add: wrapped_context_def)
qed

section \<open>One signature, one operation\<close>

lemma context_text_inj: "context_wf a \<Longrightarrow> context_wf b \<Longrightarrow> context_text a = context_text b \<Longrightarrow> a = b"
  by (metis decode_context option.inject)

lemma signed_text_inj:
  assumes "context_wf a" "context_wf b" "signed_text a = signed_text b"
  shows "a\<lparr>hc_Signature := []\<rparr> = b\<lparr>hc_Signature := []\<rparr>"
  by (rule context_text_inj) (use assms in \<open>simp_all add: context_wf_def signed_text_def\<close>)

lemma raw_string_utf8: "raw_string raw = Some (Some s) \<Longrightarrow> utf8 s"
  using json_prefix_wf by (fastforce simp: raw_string_def json_whole_def split: option.splits json.splits prod.splits if_splits)

lemma raw_int_int64: "raw_int raw = Some (Some i) \<Longrightarrow> int64 i"
  by (auto simp: raw_int_def parse_int64_def int64_def Let_def split: option.splits json.splits if_splits)

lemma store_cases: "store v upd x = Some y \<Longrightarrow> v = Some None \<and> y = x \<or> (\<exists>z. v = Some (Some z) \<and> y = upd z x)"
  by (auto simp: store_def split: option.splits)

lemma context_field_wf:
  "(n, g) \<in> set context_fields \<Longrightarrow> context_wf x \<Longrightarrow> g raw x = Some y \<Longrightarrow> context_wf y"
  by (auto simp: context_fields_def string_field_def int_field_def bool_field_def context_wf_def
      dest!: store_cases dest: raw_string_utf8 raw_int_int64)

lemma find_field_mem: "find_field fs k = Some g \<Longrightarrow> \<exists>n. (n, g) \<in> set fs"
  unfolding find_field_def by (auto simp: find_Some_iff in_set_conv_nth) (metis nth_mem prod.collapse)

text \<open>An invariant of every field function is one of decoding.\<close>
lemma decode_members_inv:
  assumes "decode_members (strict_fields fs) ms x = Some y" "P x"
    and "\<And>n g raw a b. (n, g) \<in> set fs \<Longrightarrow> P a \<Longrightarrow> g raw a = Some b \<Longrightarrow> P b"
  shows "P y"
  using assms(1,2)
proof (induction "strict_fields fs" ms x rule: decode_members.induct)
  case (2 k raw ms x)
  then show ?case
    by (auto simp: strict_fields_def [of fs k] split: option.splits dest!: find_field_mem dest: assms(3))
qed simp

lemma decode_whole_inv:
  assumes "decode_whole (strict_fields fs) x s = Some y" "P x"
    and "\<And>n g raw a b. (n, g) \<in> set fs \<Longrightarrow> P a \<Longrightarrow> g raw a = Some b \<Longrightarrow> P b"
  shows "P y"
proof -
  have "y = x \<or> (\<exists>ms. decode_members (strict_fields fs) ms x = Some y)"
    using assms(1) by (auto simp: decode_whole_def decode_struct_def split: option.splits prod.splits json.splits if_splits)
  then show ?thesis
  proof
    assume "\<exists>ms. decode_members (strict_fields fs) ms x = Some y"
    then obtain ms where "decode_members (strict_fields fs) ms x = Some y" ..
    then show ?thesis using assms(2) by (rule decode_members_inv) (rule assms(3))
  qed (use assms(2) in simp)
qed

text \<open>The context a text of a call carries.\<close>
definition envelope_context :: "string \<Rightarrow> host_context option" where
  "envelope_context data = map_option te_Context (decode_whole (strict_fields envelope_fields) zero_envelope data)"

lemma envelope_field_wf:
  "(n, g) \<in> set envelope_fields \<Longrightarrow> context_wf (te_Context x) \<Longrightarrow> g raw x = Some y \<Longrightarrow> context_wf (te_Context y)"
  by (auto simp: envelope_fields_def raw_field_def struct_field_def
      dest: decode_whole_inv [where P = context_wf, OF _ _ context_field_wf])

lemma envelope_context_wf:
  assumes "envelope_context data = Some h"
  shows "context_wf h"
proof -
  obtain e where e: "decode_whole (strict_fields envelope_fields) zero_envelope data = Some e" "h = te_Context e"
    using assms by (auto simp: envelope_context_def)
  have "context_wf (te_Context zero_envelope)"
    by (simp add: zero_envelope_def zero_context_def context_wf_def int64_def)
  then show ?thesis
    using decode_whole_inv [where P = "\<lambda>e. context_wf (te_Context e)", OF e(1)] envelope_field_wf e(2) by blast
qed

text \<open>What an accepted call shows of its context.\<close>
lemma Unwrap_Inr:
  assumes "Unwrap mac L c now tool data = Inr (p, k, f)"
  obtains h where "envelope_context data = Some h" "hc_Version h = 1" "hc_Audience h = ec_audience c"
    "hc_Tool h = tool" "hc_PayloadHash h = payload_hash L p" "hc_IdempotencyKey h = k" "hc_Confirmed h = f"
    "unix_second now < hc_ExpiresAt h" "hc_ExpiresAt h \<le> unix_second now + 60"
    "hex_decode (hc_Signature h) = Some (mac (ec_secret c) (signed_text h))" "k \<noteq> []"
proof -
  obtain e where e: "decode_whole (strict_fields envelope_fields) zero_envelope data = Some e"
    using assms by (auto simp: Unwrap_def Let_def split: if_splits option.splits)
  have c: "canonicalPayload L (te_Payload e) = Inr (q, g) \<Longrightarrow> g = payload_hash L q" for q g
    by (cases "canonicalJSON (te_Payload e)") (auto simp: canonicalPayload_def split: if_splits)
  show thesis
    by (rule that [of "te_Context e"])
      (use assms e c in \<open>auto simp: Unwrap_def Let_def envelope_context_def split: if_splits option.splits sum.splits\<close>)
qed

lemma hex_encode_inj: "hex_encode a = hex_encode b \<Longrightarrow> a = b"
  by (metis hex_decode_encode option.inject)

lemma bytes_of_inj: "bytes_of a = bytes_of b \<Longrightarrow> a = b"
  by (metis string_of_bytes_of)

lemma versions_apart: "signed_text a \<noteq> signed_text_v2 b"
  by (simp add: signed_text_def signed_text_v2_def)

text \<open>C28. A call in envelope mode reaches the server as the host made it: within the minute an
  envelope is valid, \<open>Unwrap\<close> gives back the canonical arguments, the idempotency key and the
  confirmation that \<open>Wrap\<close> was given, whatever the MAC and the hash compute.\<close>
theorem envelope_round_trip:
  assumes "Wrap mac L c now tool payload key confirmed = Inr data" "alias_ok (ec_audience c)" "utf8 tool" "utf8 key"
    and "int64 (unix_second now + 60)" "unix_second now \<le> unix_second now'" "unix_second now' < unix_second now + 60"
    and "canonicalJSON payload = Inr canonical" "length canonical \<le> 16384" "length data \<le> 32768"
  shows "Unwrap mac L c now' tool data = Inr (canonical, key, confirmed)"
  by (rule unwrap_wrap_context [OF assms])

definition toy_codec :: envelope_codec where
  "toy_codec = \<lparr>ec_secret = [1], ec_audience = ''notes''\<rparr>"

abbreviation toy_wrap :: "error + string" where
  "toy_wrap \<equiv> Wrap (\<lambda>k m. take 4 (bytes_of m)) toy_lib toy_codec 0 ''list'' ''{ }'' ''k1'' True"

lemma toy_canonical: "canonicalJSON ''{ }'' = Inr ''{}''"
  by (simp add: canonicalJSON_def json_eval go_map_def obj_text_def)

lemma json_quote_hex: "json_quote (hex_encode bs) = bchr 34 # hex_encode bs @ [bchr 34]"
proof -
  have q: "quote_piece (bval (hex_digit n), [hex_digit n]) = [hex_digit n]" "bval (hex_digit n) < 128" if "n < 16" for n
    using that by (auto simp: hex_digit_def quote_piece_def)
  then have "ascii (hex_encode bs)" by (induction bs) (simp_all add: hex_encode_def byte_div_less)
  moreover have "concat (map quote_piece (map (\<lambda>c. (bval c, [c])) (hex_encode bs))) = hex_encode bs"
    by (induction bs) (simp_all add: hex_encode_def q byte_div_less)
  ultimately show ?thesis by (simp add: json_quote_def pieces_ascii)
qed

lemma toy_wrapped: "\<exists>data. toy_wrap = Inr data \<and> length data \<le> 32768"
  by (simp add: Wrap_def canonicalPayload_def toy_canonical toy_codec_def toy_lib_def unix_second_def minute_ns_def
      second_ns_def envelope_text_def obj_text_def context_text_def context_members_def json_quote_hex json_quote_def [of "_ # _"] json_quote_def [of "[]"]
      pieces_ascii bval_Char quote_piece_def json_compact_def json_ws_def has_prefix_def payload_hash_def
      signature_def int_text_def nat_text_small bool_text_def Let_def)

theorem envelope_round_trip_witness:
  "\<exists>data. toy_wrap = Inr data
     \<and> Unwrap (\<lambda>k m. take 4 (bytes_of m)) toy_lib toy_codec (59 * second_ns) ''list'' data = Inr (''{}'', ''k1'', True)"
proof -
  obtain data where d: "toy_wrap = Inr data" "length data \<le> 32768" using toy_wrapped by blast
  then have "Unwrap (\<lambda>k m. take 4 (bytes_of m)) toy_lib toy_codec (59 * second_ns) ''list'' data
      = Inr (''{}'', ''k1'', True)"
    by (intro envelope_round_trip [OF d(1)])
      (simp_all add: toy_codec_def alias_ok_def is_lower_def is_digit_def bval_Char int64_def unix_second_def
        second_ns_def toy_canonical utf8_ascii)
  then show ?thesis using d(1) by blast
qed

text \<open>C10. A signature names one operation: two accepted calls that carry the same signature are the
  same tool with the same arguments, key and confirmation, as long as neither the MAC nor the hash
  collides on the two of them. So a signature cannot be moved to other arguments, to another tool
  or to an unconfirmed call.\<close>
theorem one_signature_one_operation:
  assumes "Unwrap mac L c now tool data = Inr (p, k, f)" "Unwrap mac L c now' tool' data' = Inr (p', k', f')"
    and "envelope_context data = Some h" "envelope_context data' = Some h'"
    and "hex_decode (hc_Signature h) = hex_decode (hc_Signature h')"
    and "inj_on (mac (ec_secret c)) {signed_text h, signed_text h'}" "inj_on (sha256 L) {bytes_of p, bytes_of p'}"
  shows "tool = tool' \<and> p = p' \<and> k = k' \<and> f = f'"
proof -
  have h: "hc_Tool h = tool" "hc_PayloadHash h = payload_hash L p" "hc_IdempotencyKey h = k" "hc_Confirmed h = f"
      "hex_decode (hc_Signature h) = Some (mac (ec_secret c) (signed_text h))"
    using Unwrap_Inr [OF assms(1)] assms(3) by (metis option.inject)+
  have h': "hc_Tool h' = tool'" "hc_PayloadHash h' = payload_hash L p'" "hc_IdempotencyKey h' = k'" "hc_Confirmed h' = f'"
      "hex_decode (hc_Signature h') = Some (mac (ec_secret c) (signed_text h'))"
    using Unwrap_Inr [OF assms(2)] assms(4) by (metis option.inject)+
  have "signed_text h = signed_text h'" using assms(5,6) h(5) h'(5) by (auto dest: inj_onD)
  then have eq0: "h\<lparr>hc_Signature := []\<rparr> = h'\<lparr>hc_Signature := []\<rparr>"
    using signed_text_inj envelope_context_wf assms(3,4) by blast
  have eq: "hc_Tool h = hc_Tool h'" "hc_PayloadHash h = hc_PayloadHash h'"
      "hc_IdempotencyKey h = hc_IdempotencyKey h'" "hc_Confirmed h = hc_Confirmed h'"
    using arg_cong [OF eq0, of hc_Tool] arg_cong [OF eq0, of hc_PayloadHash]
      arg_cong [OF eq0, of hc_IdempotencyKey] arg_cong [OF eq0, of hc_Confirmed] by simp_all
  have "hex_encode (sha256 L (bytes_of p)) = hex_encode (sha256 L (bytes_of p'))"
    using eq(2) h(2) h'(2) by (simp add: payload_hash_def)
  from hex_encode_inj [OF this] have "bytes_of p = bytes_of p'" by (rule inj_onD [OF assms(7)]) simp_all
  then have "p = p'" by (rule bytes_of_inj)
  then show ?thesis using eq(1,3,4) h(1,3,4) h'(1,3,4) by simp
qed

lemma toy_accepted: "\<exists>data. \<forall>t \<in> {0, 59 * second_ns}.
    Unwrap (\<lambda>k m. take 4 (bytes_of m)) toy_lib toy_codec t ''list'' data = Inr (''{}'', ''k1'', True)"
proof -
  obtain data where d: "toy_wrap = Inr data" "length data \<le> 32768" using toy_wrapped by blast
  have "Unwrap (\<lambda>k m. take 4 (bytes_of m)) toy_lib toy_codec t ''list'' data = Inr (''{}'', ''k1'', True)"
    if "t \<in> {0, 59 * second_ns}" for t
    using that by (intro unwrap_wrap_context [OF d(1)])
      (auto simp: toy_codec_def alias_ok_def is_lower_def is_digit_def bval_Char int64_def unix_second_def
        second_ns_def toy_canonical utf8_ascii d(2))
  then show ?thesis by blast
qed

theorem one_signature_one_operation_witness:
  "\<exists>data h k f. envelope_context data = Some h
     \<and> Unwrap (\<lambda>k m. take 4 (bytes_of m)) toy_lib toy_codec 0 ''list'' data = Inr (''{}'', ''k1'', True)
     \<and> Unwrap (\<lambda>k m. take 4 (bytes_of m)) toy_lib toy_codec (59 * second_ns) ''list'' data = Inr (''{}'', k, f)
     \<and> k = ''k1'' \<and> f"
proof -
  obtain data k f where d:
      "Unwrap (\<lambda>k m. take 4 (bytes_of m)) toy_lib toy_codec 0 ''list'' data = Inr (''{}'', ''k1'', True)"
      "Unwrap (\<lambda>k m. take 4 (bytes_of m)) toy_lib toy_codec (59 * second_ns) ''list'' data = Inr (''{}'', k, f)"
    using toy_accepted by blast
  obtain h where h: "envelope_context data = Some h" using Unwrap_Inr [OF d(1)] by blast
  have "k = ''k1'' \<and> f" using one_signature_one_operation [OF d h h] by simp
  then show ?thesis using d h by blast
qed

end
