(* ===== verification/Mcp_Server.thy ===== *)
theory Mcp_Server
  imports Mcp_Envelope
begin

text \<open>
  The tool server, \<open>packages/go/mcpwire/server.go\<close>: one JSON-RPC message per line, the handshake,
  \<open>tools/list\<close> and \<open>tools/call\<close> with the signed host context. The store behind the handler is
  threaded through the calls; every line comes with what its environment does: the clock of the
  codec, an expired context and a failing write.
\<close>

section \<open>Messages\<close>

record rpc_error =
  re_Code :: int
  re_Message :: string

record rpc_message =
  rm_JSONRPC :: string
  rm_ID :: string
  rm_Method :: string
  rm_Params :: string
  rm_Result :: string
  rm_Error :: "rpc_error option"

definition zero_rpc :: rpc_message where
  "zero_rpc = \<lparr>rm_JSONRPC = [], rm_ID = [], rm_Method = [], rm_Params = [], rm_Result = [], rm_Error = None\<rparr>"

definition zero_rpc_error :: rpc_error where
  "zero_rpc_error = \<lparr>re_Code = 0, re_Message = []\<rparr>"

text \<open>Nested structs of \<open>json.Unmarshal\<close>, where unknown keys are skipped at every level.\<close>
definition lax_struct_field ::
  "string \<Rightarrow> 'a fields \<Rightarrow> ('r \<Rightarrow> 'a) \<Rightarrow> ('a \<Rightarrow> 'r \<Rightarrow> 'r) \<Rightarrow> string \<times> (string \<Rightarrow> 'r \<Rightarrow> 'r option)"
where
  "lax_struct_field n fs get upd = (n, \<lambda>raw x.
     map_option (\<lambda>y. upd y x) (decode_whole (lax_fields fs) (get x) raw))"

definition lax_pointer_field ::
  "string \<Rightarrow> 'a fields \<Rightarrow> 'a \<Rightarrow> ('r \<Rightarrow> 'a option) \<Rightarrow> ('a option \<Rightarrow> 'r \<Rightarrow> 'r)
   \<Rightarrow> string \<times> (string \<Rightarrow> 'r \<Rightarrow> 'r option)"
where
  "lax_pointer_field n fs zero get upd = (n, \<lambda>raw x.
     if json_whole raw = Some JNull then Some (upd None x)
     else map_option (\<lambda>y. upd (Some y) x)
       (decode_whole (lax_fields fs) (case get x of None \<Rightarrow> zero | Some y \<Rightarrow> y) raw))"

definition rpc_error_fields :: "rpc_error fields" where
  "rpc_error_fields =
     [int_field ''code'' (\<lambda>v x. x\<lparr>re_Code := v\<rparr>),
      string_field ''message'' (\<lambda>v x. x\<lparr>re_Message := v\<rparr>)]"

definition rpc_fields :: "rpc_message fields" where
  "rpc_fields =
     [string_field ''jsonrpc'' (\<lambda>v x. x\<lparr>rm_JSONRPC := v\<rparr>),
      raw_field ''id'' (\<lambda>v x. x\<lparr>rm_ID := v\<rparr>),
      string_field ''method'' (\<lambda>v x. x\<lparr>rm_Method := v\<rparr>),
      raw_field ''params'' (\<lambda>v x. x\<lparr>rm_Params := v\<rparr>),
      raw_field ''result'' (\<lambda>v x. x\<lparr>rm_Result := v\<rparr>),
      lax_pointer_field ''error'' rpc_error_fields zero_rpc_error rm_Error (\<lambda>v x. x\<lparr>rm_Error := v\<rparr>)]"

definition rpc_error_text :: "rpc_error \<Rightarrow> string" where
  "rpc_error_text e = obj_text [(''code'', int_text (re_Code e)), (''message'', json_quote (re_Message e))]"

text \<open>\<open>enc.Encode\<close>: the members that are not empty, raw messages compacted, and a newline.\<close>
definition rpc_text :: "rpc_message \<Rightarrow> string" where
  "rpc_text r = obj_text
     ([(''jsonrpc'', json_quote (rm_JSONRPC r))]
      @ (if rm_ID r = [] then [] else [(''id'', json_compact (rm_ID r))])
      @ (if rm_Method r = [] then [] else [(''method'', json_quote (rm_Method r))])
      @ (if rm_Params r = [] then [] else [(''params'', json_compact (rm_Params r))])
      @ (if rm_Result r = [] then [] else [(''result'', json_compact (rm_Result r))])
      @ (case rm_Error r of None \<Rightarrow> [] | Some e \<Rightarrow> [(''error'', rpc_error_text e)])) @ [bchr 10]"

section \<open>Calls\<close>

record call_meta =
  me_Key :: string
  me_Confirmed :: bool

record tool_call =
  tc_Name :: string
  tc_Arguments :: string
  tc_Meta :: call_meta

definition zero_meta :: call_meta where "zero_meta = \<lparr>me_Key = [], me_Confirmed = False\<rparr>"

definition zero_tool_call :: tool_call where
  "zero_tool_call = \<lparr>tc_Name = [], tc_Arguments = [], tc_Meta = zero_meta\<rparr>"

definition meta_fields :: "call_meta fields" where
  "meta_fields =
     [string_field ''sts/idempotencyKey'' (\<lambda>v x. x\<lparr>me_Key := v\<rparr>),
      bool_field ''sts/confirmed'' (\<lambda>v x. x\<lparr>me_Confirmed := v\<rparr>)]"

definition tool_call_fields :: "tool_call fields" where
  "tool_call_fields =
     [string_field ''name'' (\<lambda>v x. x\<lparr>tc_Name := v\<rparr>),
      raw_field ''arguments'' (\<lambda>v x. x\<lparr>tc_Arguments := v\<rparr>),
      lax_struct_field ''_meta'' meta_fields tc_Meta (\<lambda>v x. x\<lparr>tc_Meta := v\<rparr>)]"

definition version_fields :: "string fields" where
  "version_fields = [string_field ''protocolVersion'' (\<lambda>v x. v)]"

text \<open>What the handler of a server is called with.\<close>
record handler_call =
  hl_Name :: string
  hl_Args :: string
  hl_Key :: string
  hl_Confirmed :: bool

section \<open>One line\<close>

text \<open>\<open>json.Marshal\<close> of a tool list; the annotations of a decoded tool are JSON values.\<close>
definition tool_text :: "(string \<Rightarrow> string) \<Rightarrow> tool \<Rightarrow> string" where
  "tool_text num t = obj_text
     ([(''name'', json_quote (tl_Name t)), (''description'', json_quote (tl_Description t)),
       (''inputSchema'', if tl_InputSchema t = [] then ''null'' else json_compact (tl_InputSchema t))]
      @ (if tl_Annotations t = [] then [] else [(''annotations'', json_text num (JObj (tl_Annotations t)))]))"

definition tools_marshal :: "'sch lib \<Rightarrow> tool list \<Rightarrow> string" where
  "tools_marshal L tools =
     (if list_all (\<lambda>t. tl_InputSchema t = [] \<or> json_valid (tl_InputSchema t)) tools
      then obj_text [(''tools'', arr_text (map (tool_text (f64_text L)) tools))] else [])"

definition initialize_result :: "string \<Rightarrow> string" where
  "initialize_result name = obj_text
     [(''capabilities'', obj_text [(''tools'', obj_text [])]), (''protocolVersion'', json_quote ProtocolVersion),
      (''serverInfo'', obj_text [(''name'', json_quote name), (''version'', json_quote ''0.5.0'')])]"

definition advertised :: "envelope_codec option \<Rightarrow> tool list \<Rightarrow> tool list" where
  "advertised cdc tools = (if cdc = None then tools else EnvelopeTools tools)"

text \<open>
  The call of a \<open>tools/call\<close> request: an RPC error, a failure result, or what the handler is called
  with. In envelope mode arguments, key and confirmation come from the envelope alone.
\<close>
datatype call_plan = Refuse rpc_error | FailWith string | Invoke handler_call

definition plan_call ::
  "(byte list \<Rightarrow> string \<Rightarrow> byte list) \<Rightarrow> 'sch lib \<Rightarrow> envelope_codec option \<Rightarrow> instant \<Rightarrow> tool list \<Rightarrow> string \<Rightarrow> call_plan"
where
  "plan_call mac L cdc now tools params =
     (case unmarshal tool_call_fields zero_tool_call params of
        None \<Rightarrow> Refuse \<lparr>re_Code = - 32602, re_Message = ''invalid call''\<rparr>
      | Some p \<Rightarrow>
        (case find (\<lambda>t. tl_Name t = tc_Name p) tools of
           None \<Rightarrow> Refuse \<lparr>re_Code = - 32602, re_Message = ''unknown tool''\<rparr>
         | Some selected \<Rightarrow>
           (case (case cdc of
                    None \<Rightarrow> Inr (tc_Arguments p, me_Key (tc_Meta p), me_Confirmed (tc_Meta p))
                  | Some c \<Rightarrow> Unwrap mac L c now (tc_Name p) (tc_Arguments p)) of
              Inl _ \<Rightarrow> FailWith ''invalid_host_context''
            | Inr (args, key, confirmed) \<Rightarrow>
              (case CompileSchema L (tl_InputSchema selected) of
                 None \<Rightarrow> FailWith ''invalid_arguments''
               | Some schema \<Rightarrow>
                   if Validate L schema args \<noteq> None then FailWith ''invalid_arguments''
                   else Invoke \<lparr>hl_Name = tc_Name p, hl_Args = args, hl_Key = key, hl_Confirmed = confirmed\<rparr>))))"

record server =
  sv_initialized :: bool
  sv_ready :: bool

definition start_server :: server where
  "start_server = \<lparr>sv_initialized = False, sv_ready = False\<rparr>"

text \<open>What a line leads to: the handler's calls and the answers written.\<close>
datatype served = Called handler_call | Replied string

definition reply_error :: "string \<Rightarrow> int \<Rightarrow> string \<Rightarrow> served" where
  "reply_error ident code msg = Replied (rpc_text (zero_rpc\<lparr>rm_JSONRPC := ''2.0'', rm_ID := ident,
     rm_Error := Some \<lparr>re_Code = code, re_Message = msg\<rparr>\<rparr>))"

text \<open>A result of more than 65536 bytes is replaced by a failure.\<close>
definition reply_value :: "string \<Rightarrow> string \<Rightarrow> served" where
  "reply_value ident v = Replied (rpc_text (zero_rpc\<lparr>rm_JSONRPC := ''2.0'', rm_ID := ident,
     rm_Result := (if length v > 65536 then result_text (Failure ''result_too_large'') else v)\<rparr>))"

definition handle_request ::
  "(byte list \<Rightarrow> string \<Rightarrow> byte list) \<Rightarrow> 'sch lib \<Rightarrow> envelope_codec option \<Rightarrow> string \<Rightarrow> tool list
   \<Rightarrow> (handler_call \<Rightarrow> 's \<Rightarrow> 's \<times> result) \<Rightarrow> instant \<Rightarrow> rpc_message \<Rightarrow> server \<times> 's \<Rightarrow> (server \<times> 's) \<times> served list"
where
  "handle_request mac L cdc name tools handler now req st =
     (case st of (sv, s) \<Rightarrow>
        if rm_Method req = ''initialize'' \<and> \<not> sv_initialized sv then
          (if unmarshal version_fields [] (rm_Params req) \<noteq> Some ProtocolVersion
           then (st, [reply_error (rm_ID req) (- 32602) ''unsupported protocol version''])
           else ((sv\<lparr>sv_initialized := True\<rparr>, s), [reply_value (rm_ID req) (initialize_result name)]))
        else if rm_Method req = ''ping'' then (st, [reply_value (rm_ID req) (obj_text [])])
        else if \<not> sv_ready sv then (st, [reply_error (rm_ID req) (- 32000) ''initialization required''])
        else if rm_Method req = ''tools/list''
          then (st, [reply_value (rm_ID req) (tools_marshal L (advertised cdc tools))])
        else if rm_Method req = ''tools/call'' then
          (case plan_call mac L cdc now tools (rm_Params req) of
             Refuse e \<Rightarrow> (st, [reply_error (rm_ID req) (re_Code e) (re_Message e)])
           | FailWith code \<Rightarrow> (st, [reply_value (rm_ID req) (result_text (Failure code))])
           | Invoke c \<Rightarrow>
               (case handler c s of (s', r) \<Rightarrow> ((sv, s'), [Called c, reply_value (rm_ID req) (result_text r)])))
        else (st, [reply_error (rm_ID req) (- 32601) ''method not found'']))"

text \<open>A message as the server reads it: \<open>None\<close> when it is not JSON-RPC 2.0.\<close>
definition read_rpc :: "string \<Rightarrow> rpc_message option" where
  "read_rpc line = (case unmarshal rpc_fields zero_rpc line of
       Some req \<Rightarrow> if rm_JSONRPC req = ''2.0'' then Some req else None | None \<Rightarrow> None)"

definition serve_line ::
  "(byte list \<Rightarrow> string \<Rightarrow> byte list) \<Rightarrow> 'sch lib \<Rightarrow> envelope_codec option \<Rightarrow> string \<Rightarrow> tool list
   \<Rightarrow> (handler_call \<Rightarrow> 's \<Rightarrow> 's \<times> result) \<Rightarrow> instant \<Rightarrow> string \<Rightarrow> server \<times> 's \<Rightarrow> (server \<times> 's) \<times> served list"
where
  "serve_line mac L cdc name tools handler now line st =
     (case read_rpc line of
        None \<Rightarrow> (st, [reply_error ''null'' (- 32700) ''invalid JSON-RPC''])
      | Some req \<Rightarrow>
          if rm_ID req = [] then
            (if rm_Method req = ''notifications/initialized'' \<and> sv_initialized (fst st)
             then (apfst (\<lambda>sv. sv\<lparr>sv_ready := True\<rparr>) st, []) else (st, []))
          else handle_request mac L cdc name tools handler now req st)"

section \<open>The loop\<close>

text \<open>
  \<open>bufio.Scanner\<close> with \<open>ScanLines\<close> and a buffer of \<open>MaxMessage\<close> bytes: the lines without their
  end, and whether it stopped at a line that does not fit.
\<close>
function scan_lines :: "string \<Rightarrow> string list \<times> error option" where
  "scan_lines data =
     (if data = [] then ([], None)
      else
        (let l = takeWhile (\<lambda>c. bval c \<noteq> 10) data; rest = drop (Suc (length l)) data in
         if length l \<ge> MaxMessage then ([], Some ''bufio.Scanner: token too long'')
         else apfst (Cons (if l \<noteq> [] \<and> bval (last l) = 13 then butlast l else l)) (scan_lines rest)))"
  by pat_completeness auto
termination
  by (relation "measure length") auto

declare scan_lines.simps [simp del]

record serve_env =
  se_now :: instant
  se_done :: "error option"
  se_write :: "error option"

text \<open>What the loop has seen and done, a line with its environment first.\<close>
datatype serve_event = Took serve_env string | Did served

fun serve_loop_tools ::
  "(byte list \<Rightarrow> string \<Rightarrow> byte list) \<Rightarrow> 'sch lib \<Rightarrow> envelope_codec option \<Rightarrow> string \<Rightarrow> tool list
   \<Rightarrow> (handler_call \<Rightarrow> 's \<Rightarrow> 's \<times> result) \<Rightarrow> error option \<Rightarrow> (serve_env \<times> string) list \<Rightarrow> server \<times> 's
   \<Rightarrow> (server \<times> 's) \<times> serve_event list \<times> error option"
where
  "serve_loop_tools mac L cdc name tools handler scan_err [] st = (st, [], scan_err)"
| "serve_loop_tools mac L cdc name tools handler scan_err ((e, line) # rest) st =
     (case se_done e of
        Some err \<Rightarrow> (st, [], Some err)
      | None \<Rightarrow>
        (case serve_line mac L cdc name tools handler (se_now e) line st of
           (st', out) \<Rightarrow>
             (if se_write e \<noteq> None \<and> out \<noteq> []
              then (st', Took e line # map Did (butlast out), se_write e)
              else (case serve_loop_tools mac L cdc name tools handler scan_err rest st' of
                  (st'', tr, err) \<Rightarrow> (st'', Took e line # map Did out @ tr, err)))))"

text \<open>The whole input of a server, with the environment of its n-th line.\<close>
definition ServeTools ::
  "(byte list \<Rightarrow> string \<Rightarrow> byte list) \<Rightarrow> 'sch lib \<Rightarrow> envelope_codec option \<Rightarrow> string \<Rightarrow> tool list
   \<Rightarrow> (handler_call \<Rightarrow> 's \<Rightarrow> 's \<times> result) \<Rightarrow> (nat \<Rightarrow> serve_env) \<Rightarrow> string \<Rightarrow> 's
   \<Rightarrow> (server \<times> 's) \<times> serve_event list \<times> error option"
where
  "ServeTools mac L cdc name tools handler env input s =
     (case scan_lines input of (lines, err) \<Rightarrow>
        serve_loop_tools mac L cdc name tools handler err
          (map (\<lambda>(n, l). (env n, l)) (enumerate 0 lines)) (start_server, s))"

section \<open>The handler is guarded\<close>

text \<open>The two messages of the handshake.\<close>
definition opens :: "string \<Rightarrow> bool" where
  "opens line \<longleftrightarrow> (case read_rpc line of None \<Rightarrow> False
     | Some req \<Rightarrow> rm_ID req \<noteq> [] \<and> rm_Method req = ''initialize''
         \<and> unmarshal version_fields [] (rm_Params req) = Some ProtocolVersion)"

definition acks :: "string \<Rightarrow> bool" where
  "acks line \<longleftrightarrow> (case read_rpc line of None \<Rightarrow> False
     | Some req \<Rightarrow> rm_ID req = [] \<and> rm_Method req = ''notifications/initialized'')"

fun took :: "(string \<Rightarrow> bool) \<Rightarrow> serve_event \<Rightarrow> bool" where
  "took P (Took e line) = P line"
| "took P (Did d) = False"

text \<open>An initialize request was granted, and acknowledged later.\<close>
fun handshaken :: "serve_event list \<Rightarrow> bool" where
  "handshaken [] \<longleftrightarrow> False"
| "handshaken (x # tr) \<longleftrightarrow> (if took opens x then list_ex (took acks) tr else handshaken tr)"

text \<open>
  A call is the one its line asks for: a known tool, arguments its schema accepts, and in envelope
  mode the arguments, key and confirmation of an envelope that \<open>Unwrap\<close> accepts.
\<close>
definition call_of_line ::
  "(byte list \<Rightarrow> string \<Rightarrow> byte list) \<Rightarrow> 'sch lib \<Rightarrow> envelope_codec option \<Rightarrow> tool list \<Rightarrow> instant \<Rightarrow> string
   \<Rightarrow> handler_call \<Rightarrow> bool"
where
  "call_of_line mac L cdc tools now line c \<longleftrightarrow>
     (case read_rpc line of None \<Rightarrow> False
      | Some req \<Rightarrow> rm_Method req = ''tools/call'' \<and> rm_ID req \<noteq> []
        \<and> (case unmarshal tool_call_fields zero_tool_call (rm_Params req) of None \<Rightarrow> False
           | Some p \<Rightarrow> hl_Name c = tc_Name p
             \<and> list_ex (\<lambda>t. tl_Name t = hl_Name c \<and> (case CompileSchema L (tl_InputSchema t) of None \<Rightarrow> False
                  | Some sch \<Rightarrow> Validate L sch (hl_Args c) = None)) tools
             \<and> (case cdc of
                  None \<Rightarrow> hl_Args c = tc_Arguments p \<and> hl_Key c = me_Key (tc_Meta p)
                    \<and> hl_Confirmed c = me_Confirmed (tc_Meta p)
                | Some k \<Rightarrow> Unwrap mac L k now (hl_Name c) (tc_Arguments p) = Inr (hl_Args c, hl_Key c, hl_Confirmed c))))"

lemma plan_call_Invoke:
  assumes "plan_call mac L cdc now tools params = Invoke c"
  obtains p t sch where "unmarshal tool_call_fields zero_tool_call params = Some p" "hl_Name c = tc_Name p"
    "t \<in> set tools" "tl_Name t = tc_Name p" "CompileSchema L (tl_InputSchema t) = Some sch" "Validate L sch (hl_Args c) = None"
    "case cdc of None \<Rightarrow> hl_Args c = tc_Arguments p \<and> hl_Key c = me_Key (tc_Meta p) \<and> hl_Confirmed c = me_Confirmed (tc_Meta p)
       | Some k \<Rightarrow> Unwrap mac L k now (tc_Name p) (tc_Arguments p) = Inr (hl_Args c, hl_Key c, hl_Confirmed c)"
proof -
  obtain p t where p: "unmarshal tool_call_fields zero_tool_call params = Some p"
      "find (\<lambda>t. tl_Name t = tc_Name p) tools = Some t"
    using assms by (auto simp: plan_call_def split: option.splits)
  then have t: "t \<in> set tools" "tl_Name t = tc_Name p" by (auto simp: find_Some_iff)
  obtain sch where sch: "CompileSchema L (tl_InputSchema t) = Some sch"
    using assms by (auto simp: plan_call_def p split: option.splits sum.splits)
  show thesis using assms
    by (intro that [OF p(1) _ t sch]) (auto simp: plan_call_def p sch split: option.splits sum.splits if_splits)
qed

lemma serve_line_out:
  assumes "serve_line mac L cdc name tools handler now line (sv, s) = ((sv', s'), out)"
  shows "sv_initialized sv' \<Longrightarrow> sv_initialized sv \<or> opens line"
    and "sv_ready sv' \<Longrightarrow> sv_ready sv \<or> sv_initialized sv \<and> acks line"
    and "Called c \<in> set out \<Longrightarrow> sv_ready sv \<and> hd out = Called c \<and> call_of_line mac L cdc tools now line c"
proof -
  show "sv_initialized sv' \<Longrightarrow> sv_initialized sv \<or> opens line"
    using assms by (auto simp: serve_line_def handle_request_def opens_def split: option.splits if_splits call_plan.splits prod.splits)
  show "sv_ready sv' \<Longrightarrow> sv_ready sv \<or> sv_initialized sv \<and> acks line"
    using assms by (auto simp: serve_line_def handle_request_def acks_def split: option.splits if_splits call_plan.splits prod.splits)
  assume c: "Called c \<in> set out"
  obtain req where req: "read_rpc line = Some req" "rm_ID req \<noteq> []" "rm_Method req = ''tools/call''" "sv_ready sv"
      "plan_call mac L cdc now tools (rm_Params req) = Invoke c" "hd out = Called c"
    using assms c by (auto simp: serve_line_def handle_request_def reply_error_def reply_value_def
        split: option.splits if_splits call_plan.splits prod.splits)
  obtain p t sch where p: "unmarshal tool_call_fields zero_tool_call (rm_Params req) = Some p" "hl_Name c = tc_Name p"
      "t \<in> set tools" "tl_Name t = tc_Name p" "CompileSchema L (tl_InputSchema t) = Some sch"
      "Validate L sch (hl_Args c) = None"
      "case cdc of None \<Rightarrow> hl_Args c = tc_Arguments p \<and> hl_Key c = me_Key (tc_Meta p) \<and> hl_Confirmed c = me_Confirmed (tc_Meta p)
         | Some k \<Rightarrow> Unwrap mac L k now (tc_Name p) (tc_Arguments p) = Inr (hl_Args c, hl_Key c, hl_Confirmed c)"
    using plan_call_Invoke [OF req(5)] by metis
  have "list_ex (\<lambda>t. tl_Name t = hl_Name c \<and> (case CompileSchema L (tl_InputSchema t) of None \<Rightarrow> False
      | Some sch \<Rightarrow> Validate L sch (hl_Args c) = None)) tools"
    unfolding list_ex_iff by (rule bexI [OF _ p(3)]) (simp add: p)
  then show "sv_ready sv \<and> hd out = Called c \<and> call_of_line mac L cdc tools now line c"
    using req p(1,2,7) by (simp add: call_of_line_def split: option.splits)
qed

lemma serve_line_shape:
  assumes "serve_line mac L cdc name tools handler now line st = (st', out)"
  shows "out = [] \<or> (\<exists>t. out = [Replied t]) \<or> (\<exists>c t. out = [Called c, Replied t])"
proof (cases st)
  case (Pair sv s)
  then show ?thesis using assms unfolding serve_line_def handle_request_def reply_error_def reply_value_def
    by (simp split: option.splits if_splits call_plan.splits prod.splits) blast+
qed

lemma handshaken_append: "handshaken tr \<Longrightarrow> handshaken (tr @ tr')"
  by (induction tr) (auto split: if_splits)

lemma handshaken_acks: "list_ex (took opens) tr \<Longrightarrow> acks line \<Longrightarrow> handshaken (tr @ Took e line # tr')"
  by (induction tr) auto

lemma call_position:
  assumes "pre @ Did (Called c) # post = map Did out @ tr"
    and "out = [] \<or> (\<exists>t. out = [Replied t]) \<or> (\<exists>c. out = [Called c]) \<or> (\<exists>c t. out = [Called c, Replied t])"
  shows "pre = [] \<and> Called c \<in> set out \<or> (\<exists>pre'. pre = map Did out @ pre' \<and> tr = pre' @ Did (Called c) # post)"
  using assms by (auto simp: append_eq_Cons_conv Cons_eq_append_conv)

text \<open>Before every call of the handler: the handshake, and right before it the line that asks for it.\<close>
lemma serve_loop_calls:
  assumes "serve_loop_tools mac L cdc name tools handler serr ls (sv, s) = (st, tr, err)"
    and "tr = pre @ Did (Called c) # post"
    and "sv_initialized sv \<Longrightarrow> list_ex (took opens) past" "sv_ready sv \<Longrightarrow> handshaken past"
  shows "handshaken (past @ pre) \<and> (\<exists>e line. pre \<noteq> [] \<and> last pre = Took e line
    \<and> call_of_line mac L cdc tools (se_now e) line c)"
  using assms
proof (induction ls arbitrary: sv s st tr err pre past)
  case (Cons el ls)
  obtain e line where el: "el = (e, line)" by force
  obtain sv' s' out where out: "serve_line mac L cdc name tools handler (se_now e) line (sv, s) = ((sv', s'), out)"
    by (metis prod.collapse)
  note line = serve_line_out [OF out]
  have done_none: "se_done e = None" using Cons.prems(1,2) by (auto simp: el split: option.splits)
  note shape = serve_line_shape [OF out]
  have past: "sv_initialized sv' \<Longrightarrow> list_ex (took opens) (past @ Took e line # x)"
      "sv_ready sv' \<Longrightarrow> handshaken (past @ Took e line # x)" for x
    using line(1,2) Cons.prems(3,4) handshaken_append handshaken_acks by auto
  have called: ?case if "pre = [Took e line]" "Called c \<in> set out"
    using line(3) [OF that(2)] Cons.prems(4) handshaken_append that(1) by auto
  show ?case
  proof (cases "se_write e \<noteq> None \<and> out \<noteq> []")
    case True
    then have tr: "tr = Took e line # map Did (butlast out) @ []"
      using Cons.prems(1) done_none by (simp add: el out)
    then obtain pre' where pre': "pre = Took e line # pre'" "pre' @ Did (Called c) # post = map Did (butlast out) @ []"
      using Cons.prems(2) by (auto simp: append_eq_Cons_conv)
    have "pre' = [] \<and> Called c \<in> set (butlast out)" using call_position [OF pre'(2)] shape by auto
    then show ?thesis using called pre'(1) in_set_butlastD by fastforce
  next
    case False
    obtain st2 tr' err' where rest: "serve_loop_tools mac L cdc name tools handler serr ls (sv', s') = (st2, tr', err')"
      by (metis prod_cases3)
    have tr: "tr = Took e line # map Did out @ tr'" using Cons.prems(1) done_none False by (auto simp: el out rest)
    then obtain pre' where pre': "pre = Took e line # pre'" "pre' @ Did (Called c) # post = map Did out @ tr'"
      using Cons.prems(2) by (auto simp: append_eq_Cons_conv)
    from call_position [OF pre'(2)] shape
    consider "pre' = []" "Called c \<in> set out" | pre2 where "pre' = map Did out @ pre2" "tr' = pre2 @ Did (Called c) # post"
      by blast
    then show ?thesis
    proof cases
      case 1
      then show ?thesis using called pre'(1) by simp
    next
      case 2
      from Cons.IH [OF rest 2(2), of "past @ Took e line # map Did out"] past
      show ?thesis using pre'(1) 2(1) by simp
    qed
  qed
qed simp

text \<open>At the call in front of \<open>tr\<close>, with \<open>past\<close> before it.\<close>
fun calls_guarded ::
  "(byte list \<Rightarrow> string \<Rightarrow> byte list) \<Rightarrow> 'sch lib \<Rightarrow> envelope_codec option \<Rightarrow> tool list \<Rightarrow> serve_event list
   \<Rightarrow> serve_event list \<Rightarrow> bool"
where
  "calls_guarded mac L cdc tools past [] \<longleftrightarrow> True"
| "calls_guarded mac L cdc tools past (Did (Called c) # tr) \<longleftrightarrow>
     handshaken past \<and> past \<noteq> []
     \<and> (case last past of Took e line \<Rightarrow> call_of_line mac L cdc tools (se_now e) line c | Did d \<Rightarrow> False)
     \<and> calls_guarded mac L cdc tools (past @ [Did (Called c)]) tr"
| "calls_guarded mac L cdc tools past (x # tr) \<longleftrightarrow> calls_guarded mac L cdc tools (past @ [x]) tr"

lemma calls_guardedI:
  assumes "\<And>pre c post. tr = pre @ Did (Called c) # post \<Longrightarrow> handshaken (past @ pre) \<and> past @ pre \<noteq> []
    \<and> (case last (past @ pre) of Took e line \<Rightarrow> call_of_line mac L cdc tools (se_now e) line c | Did d \<Rightarrow> False)"
  shows "calls_guarded mac L cdc tools past tr"
  using assms
proof (induction tr arbitrary: past)
  case (Cons x tr)
  have rest: "calls_guarded mac L cdc tools (past @ [x]) tr"
    using Cons.prems [of "x # _"] by (intro Cons.IH) auto
  show ?case
  proof (cases "\<exists>c. x = Did (Called c)")
    case True
    then show ?thesis using rest Cons.prems [of "[]"] by auto
  next
    case False
    then have "calls_guarded mac L cdc tools past (x # tr) = calls_guarded mac L cdc tools (past @ [x]) tr"
      by (metis serve_event.exhaust served.exhaust calls_guarded.simps(3,4))
    then show ?thesis using rest by simp
  qed
qed simp

lemma ServeTools_guarded:
  "calls_guarded mac L cdc tools [] (fst (snd (ServeTools mac L cdc name tools handler env input s)))"
proof (rule calls_guardedI)
  fix pre c post
  assume *: "fst (snd (ServeTools mac L cdc name tools handler env input s)) = pre @ Did (Called c) # post"
  obtain ls serr where ls: "scan_lines input = (ls, serr)" by force
  obtain st tr err where run: "serve_loop_tools mac L cdc name tools handler serr
      (map (\<lambda>(n, l). (env n, l)) (enumerate 0 ls)) (start_server, s) = (st, tr, err)"
    by (metis prod_cases3)
  have "tr = pre @ Did (Called c) # post" using * by (simp add: ServeTools_def ls run)
  from serve_loop_calls [OF run this, of "[]"]
  show "handshaken ([] @ pre) \<and> [] @ pre \<noteq> []
      \<and> (case last ([] @ pre) of Took e line \<Rightarrow> call_of_line mac L cdc tools (se_now e) line c | Did d \<Rightarrow> False)"
    by (auto simp: start_server_def)
qed

text \<open>C20. Whatever bytes a client sends, a tool server calls its handler only after the handshake
  (an initialize request for this protocol version, then its acknowledgement), only for a tool it
  has, with arguments the tool's schema accepts, and for the line just read. In envelope mode the
  arguments, the idempotency key and the confirmation are those of an envelope \<open>Unwrap\<close> accepts
  for that tool; nothing the caller writes beside it counts.\<close>
theorem handler_calls_guarded:
  "calls_guarded mac L cdc tools [] (fst (snd (ServeTools mac L cdc name tools handler env input s)))"
  by (rule ServeTools_guarded)

section \<open>Every request is answered\<close>

fun replies :: "serve_event list \<Rightarrow> string list" where
  "replies [] = []"
| "replies (Did (Replied t) # tr) = t # replies tr"
| "replies (x # tr) = replies tr"

text \<open>A line that is not a notification, and the id its answer carries.\<close>
definition expects_reply :: "string \<Rightarrow> bool" where
  "expects_reply line \<longleftrightarrow> (case read_rpc line of None \<Rightarrow> True | Some req \<Rightarrow> rm_ID req \<noteq> [])"

definition reply_id :: "string \<Rightarrow> string" where
  "reply_id line = (case read_rpc line of None \<Rightarrow> ''null'' | Some req \<Rightarrow> rm_ID req)"

text \<open>A JSON-RPC response under the line's id, with a result or an error but not with both.\<close>
definition answer_to :: "string \<Rightarrow> string \<Rightarrow> bool" where
  "answer_to line txt \<longleftrightarrow> (\<exists>r. txt = rpc_text r \<and> rm_JSONRPC r = ''2.0'' \<and> rm_ID r = reply_id line
     \<and> rm_Method r = [] \<and> rm_Params r = [] \<and> (rm_Result r = [] \<or> rm_Error r = None))"

lemma reply_answers:
  "reply_error (reply_id line) code msg = Replied t \<Longrightarrow> answer_to line t"
  "reply_value (reply_id line) v = Replied t \<Longrightarrow> answer_to line t"
  unfolding answer_to_def reply_error_def reply_value_def
  by (rule exI [where x = "zero_rpc\<lparr>rm_JSONRPC := ''2.0'', rm_ID := reply_id line, rm_Error := Some \<lparr>re_Code = code, re_Message = msg\<rparr>\<rparr>"],
      simp add: zero_rpc_def)
    (rule exI [where x = "zero_rpc\<lparr>rm_JSONRPC := ''2.0'', rm_ID := reply_id line,
        rm_Result := (if length v > 65536 then result_text (Failure ''result_too_large'') else v)\<rparr>"],
      simp add: zero_rpc_def)

lemma serve_line_reply:
  assumes "serve_line mac L cdc name tools handler now line st = (st', out)"
  shows "if expects_reply line then \<exists>t. replies (map Did out) = [t] \<and> answer_to line t else out = []"
proof (cases st)
  case (Pair sv s)
  have ident: "read_rpc line = Some req \<Longrightarrow> rm_ID req = reply_id line" for req by (simp add: reply_id_def)
  have null: "read_rpc line = None \<Longrightarrow> ''null'' = reply_id line" by (simp add: reply_id_def)
  have one: "\<exists>t. replies [Did (reply_error (reply_id line) code msg)] = [t] \<and> answer_to line t"
      "\<exists>t. replies [Did (reply_value (reply_id line) v)] = [t] \<and> answer_to line t"
      "\<exists>t. replies [Did (Called c), Did (reply_value (reply_id line) v)] = [t] \<and> answer_to line t" for c code msg v
    using reply_answers [of line] by (simp_all add: reply_error_def reply_value_def)
  show ?thesis
  proof (cases "read_rpc line")
    case None
    then show ?thesis using assms by (auto simp: serve_line_def null one(1) expects_reply_def simp del: replies.simps)
  next
    case (Some req)
    then show ?thesis using assms unfolding serve_line_def handle_request_def Pair
      by (auto simp: expects_reply_def ident [OF Some] one simp del: replies.simps
          split: if_splits call_plan.splits prod.splits)
  qed
qed

lemma replies_append: "replies (a @ b) = replies a @ replies b"
  by (induction a rule: replies.induct) simp_all

lemma serve_loop_replies:
  assumes "serve_loop_tools mac L cdc name tools handler serr ls st = (st', tr, err)"
    and "\<forall>(e, l) \<in> set ls. se_done e = None \<and> se_write e = None"
  shows "list_all2 answer_to (filter expects_reply (map snd ls)) (replies tr) \<and> err = serr"
  using assms
proof (induction ls arbitrary: st tr)
  case (Cons el ls)
  obtain e line where el: "el = (e, line)" by force
  have e: "se_done e = None" "se_write e = None" using Cons.prems(2) by (auto simp: el)
  obtain st1 out where out: "serve_line mac L cdc name tools handler (se_now e) line st = (st1, out)"
    by (cases "serve_line mac L cdc name tools handler (se_now e) line st")
  obtain st2 tr' err' where rest: "serve_loop_tools mac L cdc name tools handler serr ls st1 = (st2, tr', err')"
    by (cases "serve_loop_tools mac L cdc name tools handler serr ls st1")
  have tr: "tr = Took e line # map Did out @ tr'" "err = err'" "st' = st2"
    using Cons.prems(1) by (auto simp: el e out rest)
  have "list_all2 answer_to (filter expects_reply (map snd ls)) (replies tr') \<and> err' = serr"
    using Cons.IH [of st1 tr'] rest Cons.prems(2) tr(2,3) by auto
  then show ?case using serve_line_reply [OF out]
    by (auto simp: el tr(1,2) replies_append split: if_splits)
qed simp

text \<open>C36. As long as its context lives and its writes succeed, a server answers every line that is not
  a notification, in order, with one response under that line's id (\<open>null\<close> for a line that is no
  request), and it stops only at the end of its input or at a line that is too long.\<close>
theorem every_request_answered:
  assumes "\<forall>n. se_done (env n) = None \<and> se_write (env n) = None"
    and "scan_lines input = (lines, serr)" "ServeTools mac L cdc name tools handler env input s = (st, tr, err)"
  shows "list_all2 answer_to (filter expects_reply lines) (replies tr) \<and> err = serr"
proof -
  let ?ls = "map (\<lambda>(n, l). (env n, l)) (enumerate 0 lines)"
  have "serve_loop_tools mac L cdc name tools handler serr ?ls (start_server, s) = (st, tr, err)"
    using assms(2,3) by (simp add: ServeTools_def)
  moreover have "map snd ?ls = lines" using map_snd_enumerate [of 0 lines] by (simp add: comp_def case_prod_beta')
  ultimately show ?thesis using serve_loop_replies [of mac L cdc name tools handler serr ?ls] assms(1) by fastforce
qed

abbreviation toy_env :: "nat \<Rightarrow> serve_env" where
  "toy_env \<equiv> \<lambda>_. \<lparr>se_now = 0, se_done = None, se_write = None\<rparr>"

theorem every_request_answered_witness:
  "\<exists>t. replies (fst (snd (ServeTools (\<lambda>k m. []) toy_lib None ''toy'' [] (\<lambda>c (s :: nat). (s, Failure [])) toy_env
      ''{}'' 0))) = [t] \<and> answer_to ''{}'' t"
proof -
  have lines: "scan_lines ''{}'' = ([''{}''], None)"
    by (simp add: scan_lines.simps bval_Char)
  have "read_rpc ''{}'' = None"
    by (simp add: read_rpc_def json_eval zero_rpc_def)
  then have one: "expects_reply ''{}''" by (simp add: expects_reply_def)
  obtain st tr err where run: "ServeTools (\<lambda>k m. []) toy_lib None ''toy'' [] (\<lambda>c (s :: nat). (s, Failure [])) toy_env
      ''{}'' 0 = (st, tr, err)" by (metis prod_cases3)
  show ?thesis using every_request_answered [OF _ lines run] by (auto simp: one run list_all2_Cons1)
qed

end
