(* ===== verification/Mcp_Client.thy ===== *)
theory Mcp_Client
  imports Mcp_Server
begin

text \<open>
  The client of a tool server process, \<open>packages/go/mcpwire/client.go\<close>: the requests it writes,
  the reader of the process's output, the handshake, \<open>Tools\<close> and \<open>Call\<close>. Starting and killing
  the process is not modelled; a context that ends while a request waits is the argument
  \<open>expired\<close>.
\<close>

section \<open>Slices of structs\<close>

text \<open>The elements of an array, each with its text.\<close>
function raw_elems_loop :: "string \<Rightarrow> string list option" where
  "raw_elems_loop s =
     (case json_prefix s of
        None \<Rightarrow> None
      | Some (_, r) \<Rightarrow>
          (let raw = take (length (skip_ws s) - length r) (skip_ws s) in
           case next_tok r of
             Some (TComma, r') \<Rightarrow> map_option (Cons raw) (raw_elems_loop r')
           | Some (TCloseA, r') \<Rightarrow> Some [raw]
           | _ \<Rightarrow> None))"
  by pat_completeness auto
termination
  by (relation "measure length") (auto dest!: next_tok_length json_prefix_length)

declare raw_elems_loop.simps [simp del]

definition raw_elems :: "string \<Rightarrow> string list option" where
  "raw_elems s =
     (case next_tok s of
        Some (TOpenA, r) \<Rightarrow>
          (case next_tok r of Some (TCloseA, _) \<Rightarrow> Some [] | _ \<Rightarrow> raw_elems_loop r)
      | _ \<Rightarrow> None)"

text \<open>
  A slice of structs: \<open>null\<close> empties it; an element is decoded into what the slice held at its
  place.
\<close>
definition list_field ::
  "string \<Rightarrow> 'a fields \<Rightarrow> 'a \<Rightarrow> ('r \<Rightarrow> 'a list) \<Rightarrow> ('a list \<Rightarrow> 'r \<Rightarrow> 'r) \<Rightarrow> string \<times> (string \<Rightarrow> 'r \<Rightarrow> 'r option)"
where
  "list_field n fs zero get upd = (n, \<lambda>raw x.
     case json_whole raw of
       Some JNull \<Rightarrow> Some (upd [] x)
     | Some (JArr _) \<Rightarrow>
         (case raw_elems raw of
            None \<Rightarrow> None
          | Some ts \<Rightarrow> map_option (\<lambda>ys. upd ys x) (those (map (\<lambda>(i, t).
              decode_whole (lax_fields fs) (if i < length (get x) then get x ! i else zero) t) (enumerate 0 ts))))
     | _ \<Rightarrow> None)"

section \<open>Requests\<close>

record client =
  cl_next :: u64

definition client_request :: "string \<Rightarrow> string \<Rightarrow> client \<Rightarrow> client \<times> string \<times> string" where
  "client_request method params c =
     (let n = cl_next c + 1; ident = nat_text (unat n)
      in (c\<lparr>cl_next := n\<rparr>, ident, rpc_text (zero_rpc\<lparr>rm_JSONRPC := ''2.0'', rm_ID := ident, rm_Method := method, rm_Params := params\<rparr>)))"

text \<open>\<open>read\<close>: the messages with an id, up to a line that is not JSON-RPC 2.0.\<close>
fun client_read :: "string list \<Rightarrow> rpc_message list" where
  "client_read [] = []"
| "client_read (line # rest) =
     (case read_rpc line of
        None \<Rightarrow> []
      | Some m \<Rightarrow> if rm_ID m = [] then client_read rest else m # client_read rest)"

text \<open>The answer to the request \<open>ident\<close>, and the messages left.\<close>
definition client_await :: "string \<Rightarrow> error option \<Rightarrow> rpc_message list \<Rightarrow> (error + string) \<times> rpc_message list" where
  "client_await ident expired ms =
     (case expired of
        Some err \<Rightarrow> (Inl err, ms)
      | None \<Rightarrow>
        (case ms of
           [] \<Rightarrow> (Inl ''MCP disconnected'', [])
         | m # ms' \<Rightarrow>
             (if rm_ID m \<noteq> ident then Inl ''MCP response identity mismatch''
              else if rm_Error m \<noteq> None then Inl ''MCP rejected request''
              else if length (rm_Result m) > 65536 then Inl ''MCP result exceeds limit''
              else Inr (rm_Result m), ms')))"

definition decode_answer :: "'r fields \<Rightarrow> 'r \<Rightarrow> error + string \<Rightarrow> error + 'r" where
  "decode_answer fs zero ans =
     (case ans of
        Inl err \<Rightarrow> Inl err
      | Inr raw \<Rightarrow> (case unmarshal fs zero raw of None \<Rightarrow> Inl ''json'' | Some x \<Rightarrow> Inr x))"

section \<open>The handshake\<close>

record init_reply =
  in_Version :: string
  in_Tools :: "string option"

definition initialize_params :: string where
  "initialize_params = obj_text
     [(''capabilities'', obj_text []),
      (''clientInfo'', obj_text [(''name'', json_quote ''sts-gateway''), (''version'', json_quote ''0.5.0'')]),
      (''protocolVersion'', json_quote ProtocolVersion)]"

definition initialized_text :: string where
  "initialized_text = obj_text [(''jsonrpc'', json_quote ''2.0''), (''method'', json_quote ''notifications/initialized'')] @ [bchr 10]"

definition capabilities_fields :: "string option fields" where
  "capabilities_fields =
     [(''tools'', \<lambda>raw x. Some (if json_whole raw = Some JNull then None else Some raw))]"

definition init_fields :: "init_reply fields" where
  "init_fields =
     [string_field ''protocolVersion'' (\<lambda>v x. x\<lparr>in_Version := v\<rparr>),
      lax_struct_field ''capabilities'' capabilities_fields in_Tools (\<lambda>v x. x\<lparr>in_Tools := v\<rparr>)]"

text \<open>Is the process's answer to \<open>initialize\<close> good enough to go on?\<close>
definition handshake_ok :: "error + string \<Rightarrow> bool" where
  "handshake_ok ans = (case decode_answer init_fields \<lparr>in_Version = [], in_Tools = None\<rparr> ans of
     Inl _ \<Rightarrow> False | Inr r \<Rightarrow> in_Version r = ProtocolVersion \<and> in_Tools r \<noteq> None)"

section \<open>Discovery\<close>

record tool_page =
  pg_Tools :: "tool list"
  pg_NextCursor :: string

definition zero_mcp_tool :: tool where
  "zero_mcp_tool = \<lparr>tl_Server = [], tl_OriginalName = [], tl_HostPolicy = [], tl_Name = [], tl_Description = [],
     tl_InputSchema = [], tl_Annotations = []\<rparr>"

text \<open>A \<open>map[string]any\<close>, decoded into what the map holds.\<close>
definition any_map_field :: "string \<Rightarrow> ('r \<Rightarrow> (string \<times> json) list) \<Rightarrow> ((string \<times> json) list \<Rightarrow> 'r \<Rightarrow> 'r)
   \<Rightarrow> string \<times> (string \<Rightarrow> 'r \<Rightarrow> 'r option)"
where
  "any_map_field n get upd = (n, \<lambda>raw x.
     case json_whole raw of
       Some JNull \<Rightarrow> Some (upd [] x)
     | Some (JObj kvs) \<Rightarrow>
         (if json_nums f64_ok (JObj kvs) then Some (upd (go_map (get x @ map (\<lambda>(k, v). (k, any_value v)) kvs)) x) else None)
     | _ \<Rightarrow> None)"

definition tool_decode_fields :: "tool fields" where
  "tool_decode_fields =
     [string_field ''name'' (\<lambda>v x. x\<lparr>tl_Name := v\<rparr>),
      string_field ''description'' (\<lambda>v x. x\<lparr>tl_Description := v\<rparr>),
      raw_field ''inputSchema'' (\<lambda>v x. x\<lparr>tl_InputSchema := v\<rparr>),
      any_map_field ''annotations'' tl_Annotations (\<lambda>v x. x\<lparr>tl_Annotations := v\<rparr>)]"

definition page_fields :: "tool_page fields" where
  "page_fields =
     [list_field ''tools'' tool_decode_fields zero_mcp_tool pg_Tools (\<lambda>v x. x\<lparr>pg_Tools := v\<rparr>),
      string_field ''nextCursor'' (\<lambda>v x. x\<lparr>pg_NextCursor := v\<rparr>)]"

text \<open>\<open>Tools\<close>, from the answer to \<open>tools/list\<close>.\<close>
definition client_tools :: "error + string \<Rightarrow> error + tool list" where
  "client_tools ans =
     (case decode_answer page_fields \<lparr>pg_Tools = [], pg_NextCursor = []\<rparr> ans of
        Inl err \<Rightarrow> Inl err
      | Inr page \<Rightarrow>
          if length (pg_Tools page) > 32 \<or> pg_NextCursor page \<noteq> []
          then Inl ''MCP tool list exceeds supported limits'' else Inr (pg_Tools page))"

section \<open>Calls\<close>

definition content_fields :: "content fields" where
  "content_fields =
     [string_field ''type'' (\<lambda>v x. x\<lparr>ct_Type := v\<rparr>),
      string_field ''text'' (\<lambda>v x. x\<lparr>ct_Text := v\<rparr>)]"

definition result_fields :: "result fields" where
  "result_fields =
     [list_field ''content'' content_fields \<lparr>ct_Type = [], ct_Text = []\<rparr> rs_Content (\<lambda>v x. x\<lparr>rs_Content := v\<rparr>),
      bool_field ''isError'' (\<lambda>v x. x\<lparr>rs_IsError := v\<rparr>)]"

definition zero_result :: result where
  "zero_result = \<lparr>rs_Content = [], rs_IsError = False\<rparr>"

text \<open>The params of \<open>tools/call\<close>; arguments that are not JSON leave them out.\<close>
definition call_params :: "string \<Rightarrow> string \<Rightarrow> string \<Rightarrow> bool \<Rightarrow> string" where
  "call_params name args key confirmed =
     (if args \<noteq> [] \<and> \<not> json_valid args then []
      else obj_text
        [(''_meta'', obj_text [(''sts/confirmed'', bool_text confirmed), (''sts/idempotencyKey'', json_quote key)]),
         (''arguments'', if args = [] then ''null'' else json_compact args),
         (''name'', json_quote name)])"

definition client_call :: "string \<Rightarrow> string \<Rightarrow> string \<Rightarrow> bool \<Rightarrow> client \<Rightarrow> client \<times> string \<times> string" where
  "client_call name args key confirmed c = client_request ''tools/call'' (call_params name args key confirmed) c"

definition call_result :: "error + string \<Rightarrow> error + result" where
  "call_result ans = decode_answer result_fields zero_result ans"

section \<open>A call through the server\<close>

lemma raw_elems_loop_read:
  assumes "list_all2 (\<lambda>t v. reads t v d) ts vs" "d \<le> json_max_depth" "ts \<noteq> []"
  shows "raw_elems_loop (comma ts @ CHR '']'' # r) = Some ts"
  using assms
proof (induction ts vs rule: list_all2_induct)
  case (Cons t ts v vs)
  let ?r = "concat (map (Cons (CHR '','')) ts) @ CHR '']'' # r"
  have "ends ?r" by (cases ts) simp_all
  then have pre: "json_prefix (t @ ?r) = Some (v, ?r)" by (rule reads_prefix [OF Cons.hyps(1) Cons.prems(1)])
  have raw: "take (length (skip_ws (t @ ?r)) - length ?r) (skip_ws (t @ ?r)) = t"
    unfolding reads_skip_ws [OF Cons.hyps(1)] by simp
  show ?case
  proof (cases ts)
    case Nil
    then show ?thesis using pre raw by (simp add: raw_elems_loop.simps [of "t @ _"] Let_def)
  next
    case (Cons t' ts')
    have "raw_elems_loop (comma ts @ CHR '']'' # r) = Some ts" using Cons.IH [OF Cons.prems(1)] Cons by simp
    then show ?thesis using pre raw Cons by (simp add: raw_elems_loop.simps [of "t @ _"] Let_def)
  qed
qed simp

lemma raw_elems_arr:
  assumes "list_all2 (\<lambda>t v. reads t v d) ts vs" "d \<le> json_max_depth"
  shows "raw_elems (arr_text ts) = Some ts"
proof (cases ts)
  case Nil
  then show ?thesis by (simp add: raw_elems_def arr_text_def)
next
  case (Cons t ts')
  obtain v where v: "reads t v d" using assms(1) by (auto simp: Cons list_all2_Cons1)
  let ?r = "concat (map (Cons (CHR '','')) ts') @ '']''"
  have "ends ?r" by (cases ts') simp_all
  then have "json_prefix (t @ ?r) = Some (v, ?r)" using reads_prefix [OF v assms(2)] by simp
  then have "next_tok (t @ ?r) \<noteq> Some (TCloseA, x)" for x
    by (auto simp: json_prefix_def json_run.simps [of MVal] json_step_def value_step_def)
  then show ?thesis using raw_elems_loop_read [OF assms, of "[]"] Cons
    by (auto simp: raw_elems_def arr_text_def split: option.splits prod.splits tok.splits)
qed

lemma find_rpc_field:
  "find_field rpc_fields ''jsonrpc'' = Some (\<lambda>raw. store (raw_string raw) (\<lambda>v x. x\<lparr>rm_JSONRPC := v\<rparr>))"
  "find_field rpc_fields ''id'' = Some (\<lambda>raw x. Some (x\<lparr>rm_ID := raw\<rparr>))"
  "find_field rpc_fields ''method'' = Some (\<lambda>raw. store (raw_string raw) (\<lambda>v x. x\<lparr>rm_Method := v\<rparr>))"
  "find_field rpc_fields ''params'' = Some (\<lambda>raw x. Some (x\<lparr>rm_Params := raw\<rparr>))"
  "find_field rpc_fields ''result'' = Some (\<lambda>raw x. Some (x\<lparr>rm_Result := raw\<rparr>))"
  by (simp_all add: rpc_fields_def find_field_def raw_field_def string_field_def lax_pointer_field_def names_field_def
      bval_Char is_lower_def bchr_eq)

text \<open>Two messages as they are written, without the newline, are read as they were.\<close>
lemma read_rpc_request:
  assumes "utf8 meth" "reads p v d" "d < json_max_depth"
  shows "read_rpc (obj_text [(''jsonrpc'', json_quote ''2.0''), (''id'', nat_text n), (''method'', json_quote meth), (''params'', p)])
    = Some (zero_rpc\<lparr>rm_JSONRPC := ''2.0'', rm_ID := nat_text n, rm_Method := meth, rm_Params := p\<rparr>)"
proof -
  let ?kts = "[(''jsonrpc'', json_quote ''2.0''), (''id'', nat_text n), (''method'', json_quote meth), (''params'', p)]"
  have "list_all2 (reads_member d) ?kts [(''jsonrpc'', JStr ''2.0''), (''id'', JNum (nat_text n)), (''method'', JStr meth), (''params'', v)]"
    using assms(1,2) by (simp add: reads_member_def utf8_ascii bval_Char reads_quote reads_nat)
  then have "decode_whole (lax_fields rpc_fields) zero_rpc (obj_text ?kts) = decode_members (lax_fields rpc_fields) ?kts zero_rpc"
    using assms(3) by (rule decode_whole_obj)
  also have "\<dots> = Some (zero_rpc\<lparr>rm_JSONRPC := ''2.0'', rm_ID := nat_text n, rm_Method := meth, rm_Params := p\<rparr>)"
    using assms(1) by (simp add: lax_fields_def find_rpc_field store_def utf8_ascii bval_Char)
  finally show ?thesis by (simp add: read_rpc_def unmarshal_def)
qed

lemma read_rpc_response:
  assumes "reads p v d" "d < json_max_depth"
  shows "read_rpc (obj_text [(''jsonrpc'', json_quote ''2.0''), (''id'', nat_text n), (''result'', p)])
    = Some (zero_rpc\<lparr>rm_JSONRPC := ''2.0'', rm_ID := nat_text n, rm_Result := p\<rparr>)"
proof -
  let ?kts = "[(''jsonrpc'', json_quote ''2.0''), (''id'', nat_text n), (''result'', p)]"
  have "list_all2 (reads_member d) ?kts [(''jsonrpc'', JStr ''2.0''), (''id'', JNum (nat_text n)), (''result'', v)]"
    using assms(1) by (simp add: reads_member_def utf8_ascii bval_Char reads_quote reads_nat)
  then have "decode_whole (lax_fields rpc_fields) zero_rpc (obj_text ?kts) = decode_members (lax_fields rpc_fields) ?kts zero_rpc"
    using assms(2) by (rule decode_whole_obj)
  also have "\<dots> = Some (zero_rpc\<lparr>rm_JSONRPC := ''2.0'', rm_ID := nat_text n, rm_Result := p\<rparr>)"
    by (simp add: lax_fields_def find_rpc_field store_def utf8_ascii bval_Char)
  finally show ?thesis by (simp add: read_rpc_def unmarshal_def)
qed

section \<open>Parameters and results\<close>

lemma find_call_field:
  "find_field tool_call_fields ''name'' = Some (\<lambda>raw. store (raw_string raw) (\<lambda>v x. x\<lparr>tc_Name := v\<rparr>))"
  "find_field tool_call_fields ''arguments'' = Some (\<lambda>raw x. Some (x\<lparr>tc_Arguments := raw\<rparr>))"
  "find_field tool_call_fields ''_meta'' = Some (\<lambda>raw x.
     map_option (\<lambda>y. x\<lparr>tc_Meta := y\<rparr>) (decode_whole (lax_fields meta_fields) (tc_Meta x) raw))"
  by (simp_all add: tool_call_fields_def find_field_def raw_field_def string_field_def lax_struct_field_def names_field_def
      bval_Char is_lower_def bchr_eq)

lemma find_meta_field:
  "find_field meta_fields ''sts/idempotencyKey'' = Some (\<lambda>raw. store (raw_string raw) (\<lambda>v x. x\<lparr>me_Key := v\<rparr>))"
  "find_field meta_fields ''sts/confirmed'' = Some (\<lambda>raw. store (raw_bool raw) (\<lambda>v x. x\<lparr>me_Confirmed := v\<rparr>))"
  by (simp_all add: meta_fields_def find_field_def bool_field_def string_field_def names_field_def
      bval_Char is_lower_def bchr_eq)

abbreviation meta_text :: "string \<Rightarrow> bool \<Rightarrow> string" where
  "meta_text key confirmed \<equiv> obj_text [(''sts/confirmed'', bool_text confirmed), (''sts/idempotencyKey'', json_quote key)]"

lemma meta_read:
  assumes "utf8 key"
  shows "reads (meta_text key confirmed) (JObj [(''sts/confirmed'', JBool confirmed), (''sts/idempotencyKey'', JStr key)]) (Suc d)"
    and "decode_whole (lax_fields meta_fields) m (meta_text key confirmed) = Some \<lparr>me_Key = key, me_Confirmed = confirmed\<rparr>"
proof -
  let ?kts = "[(''sts/confirmed'', bool_text confirmed), (''sts/idempotencyKey'', json_quote key)]"
  have kvs: "list_all2 (reads_member d) ?kts [(''sts/confirmed'', JBool confirmed), (''sts/idempotencyKey'', JStr key)]" for d
    using assms by (simp add: reads_member_def utf8_ascii bval_Char reads_quote reads_bool)
  show "reads (meta_text key confirmed) (JObj [(''sts/confirmed'', JBool confirmed), (''sts/idempotencyKey'', JStr key)]) (Suc d)"
    by (rule reads_obj [OF kvs])
  have "decode_whole (lax_fields meta_fields) m (obj_text ?kts) = decode_members (lax_fields meta_fields) ?kts m"
    by (rule decode_whole_obj [OF kvs [of 0]]) (simp add: json_max_depth_def)
  then show "decode_whole (lax_fields meta_fields) m (meta_text key confirmed) = Some \<lparr>me_Key = key, me_Confirmed = confirmed\<rparr>"
    using assms by (simp add: lax_fields_def find_meta_field store_def)
qed

lemma call_params_read:
  assumes "utf8 name" "utf8 key" "reads args v (Suc d)" "Suc d < json_max_depth" "compact args"
  shows "\<exists>kvs. reads (call_params name args key confirmed) (JObj kvs) (Suc (Suc d))"
    and "compact (call_params name args key confirmed)"
    and "unmarshal tool_call_fields zero_tool_call (call_params name args key confirmed)
      = Some \<lparr>tc_Name = name, tc_Arguments = args, tc_Meta = \<lparr>me_Key = key, me_Confirmed = confirmed\<rparr>\<rparr>"
proof -
  have "args \<noteq> []" using assms(3) by (simp add: reads_def)
  moreover have "json_valid args" using reads_whole [OF assms(3)] assms(4) by (simp add: json_valid_def)
  ultimately have t: "call_params name args key confirmed
      = obj_text [(''_meta'', meta_text key confirmed), (''arguments'', args), (''name'', json_quote name)]"
    using assms(5) by (simp add: call_params_def json_compact_id)
  let ?kts = "[(''_meta'', meta_text key confirmed), (''arguments'', args), (''name'', json_quote name)]"
  let ?m = "JObj [(''sts/confirmed'', JBool confirmed), (''sts/idempotencyKey'', JStr key)]"
  have kvs: "list_all2 (reads_member (Suc d)) ?kts [(''_meta'', ?m), (''arguments'', v), (''name'', JStr name)]"
    using assms(1,3) meta_read(1) [OF assms(2)] by (simp add: reads_member_def utf8_ascii bval_Char reads_quote)
  show "\<exists>kvs. reads (call_params name args key confirmed) (JObj kvs) (Suc (Suc d))"
    using reads_obj [OF kvs] t by auto
  have "compact (meta_text key confirmed)"
    by (intro compact_obj) (simp add: compact_quote compact_plain bool_text_def plain_char_def json_ws_def bval_Char)
  then show "compact (call_params name args key confirmed)"
    unfolding t using assms(5) by (intro compact_obj) (simp add: compact_quote)
  have "decode_whole (lax_fields tool_call_fields) zero_tool_call (obj_text ?kts)
      = decode_members (lax_fields tool_call_fields) ?kts zero_tool_call"
    by (rule decode_whole_obj [OF kvs assms(4)])
  also have "\<dots> = Some \<lparr>tc_Name = name, tc_Arguments = args, tc_Meta = \<lparr>me_Key = key, me_Confirmed = confirmed\<rparr>\<rparr>"
    using assms(1) meta_read(2) [OF assms(2)]
    by (simp add: lax_fields_def [of tool_call_fields] find_call_field store_def zero_tool_call_def)
  finally show "unmarshal tool_call_fields zero_tool_call (call_params name args key confirmed)
      = Some \<lparr>tc_Name = name, tc_Arguments = args, tc_Meta = \<lparr>me_Key = key, me_Confirmed = confirmed\<rparr>\<rparr>"
    by (simp add: t unmarshal_def)
qed

definition result_utf8 :: "result \<Rightarrow> bool" where
  "result_utf8 r \<longleftrightarrow> list_all (\<lambda>c. utf8 (ct_Type c) \<and> utf8 (ct_Text c)) (rs_Content r)"

lemma find_content_field:
  "find_field content_fields ''type'' = Some (\<lambda>raw. store (raw_string raw) (\<lambda>v x. x\<lparr>ct_Type := v\<rparr>))"
  "find_field content_fields ''text'' = Some (\<lambda>raw. store (raw_string raw) (\<lambda>v x. x\<lparr>ct_Text := v\<rparr>))"
  by (simp_all add: content_fields_def find_field_def string_field_def names_field_def bval_Char is_lower_def bchr_eq)

lemma content_read:
  assumes "utf8 (ct_Type c)" "utf8 (ct_Text c)"
  shows "\<exists>kvs. reads (content_text c) (JObj kvs) (Suc 0)" "decode_whole (lax_fields content_fields) x (content_text c) = Some c"
proof -
  let ?kts = "[(''type'', json_quote (ct_Type c)), (''text'', json_quote (ct_Text c))]"
  have kvs: "list_all2 (reads_member 0) ?kts [(''type'', JStr (ct_Type c)), (''text'', JStr (ct_Text c))]"
    using assms by (simp add: reads_member_def utf8_ascii bval_Char reads_quote)
  show "\<exists>kvs. reads (content_text c) (JObj kvs) (Suc 0)" using reads_obj [OF kvs] by (auto simp: content_text_def)
  have "decode_whole (lax_fields content_fields) x (obj_text ?kts) = decode_members (lax_fields content_fields) ?kts x"
    by (rule decode_whole_obj [OF kvs]) (simp add: json_max_depth_def)
  also have "\<dots> = Some c" using assms by (simp add: lax_fields_def find_content_field store_def)
  finally show "decode_whole (lax_fields content_fields) x (content_text c) = Some c" by (simp add: content_text_def)
qed

lemma find_result_field:
  "find_field result_fields ''content'' = Some (snd (list_field ''content'' content_fields \<lparr>ct_Type = [], ct_Text = []\<rparr>
     rs_Content (\<lambda>v x. x\<lparr>rs_Content := v\<rparr>)))"
  "find_field result_fields ''isError'' = Some (\<lambda>raw. store (raw_bool raw) (\<lambda>v x. x\<lparr>rs_IsError := v\<rparr>))"
  by (simp_all add: result_fields_def find_field_def list_field_def bool_field_def names_field_def bval_Char is_lower_def bchr_eq)

lemma map_enumerate: "map (\<lambda>(i, t). f t) (enumerate n xs) = map f xs"
  by (induction xs arbitrary: n) simp_all

lemma those_map_Some: "\<forall>x \<in> set xs. f x = Some (g x) \<Longrightarrow> those (map f xs) = Some (map g xs)"
  by (induction xs) auto

text \<open>A result is read back as it was written.\<close>
lemma result_read:
  assumes "result_utf8 r"
  shows "\<exists>kvs. reads (result_text r) (JObj kvs) 3" "compact (result_text r)"
    "unmarshal result_fields zero_result (result_text r) = Some r"
proof -
  let ?cs = "map content_text (rs_Content r)"
  have c: "\<forall>c \<in> set (rs_Content r). utf8 (ct_Type c) \<and> utf8 (ct_Text c)"
    using assms by (simp add: result_utf8_def list_all_iff)
  then have "\<forall>c \<in> set (rs_Content r). \<exists>v. reads (content_text c) v (Suc 0)" using content_read(1) by blast
  then obtain f where f: "\<forall>c \<in> set (rs_Content r). reads (content_text c) (f c) (Suc 0)" by metis
  have all: "list_all2 (\<lambda>t v. reads t v (Suc 0)) ?cs (map f (rs_Content r))"
    using f by (simp add: list_all2_map1 list_all2_map2 list_all2_same)
  have arr: "reads (arr_text ?cs) (JArr (map f (rs_Content r))) 2"
    using reads_arr [OF all] by (simp add: numeral_2_eq_2)
  let ?err = "if rs_IsError r then [(''isError'', ''true'')] else []"
  let ?kts = "(''content'', arr_text ?cs) # ?err"
  have kvs: "list_all2 (reads_member 2) ?kts ((''content'', JArr (map f (rs_Content r))) # (if rs_IsError r then [(''isError'', JBool True)] else []))"
    using arr by (simp add: reads_member_def utf8_ascii bval_Char reads_words)
  have t: "result_text r = obj_text ?kts" by (simp add: result_text_def)
  show "\<exists>kvs. reads (result_text r) (JObj kvs) 3" using reads_obj [OF kvs] unfolding t by (auto simp: numeral_3_eq_3)
  have "list_all compact ?cs" by (auto simp: list_all_iff content_text_def intro!: compact_obj compact_quote)
  then show "compact (result_text r)" unfolding t
    by (intro compact_obj) (simp add: compact_arr compact_plain plain_char_def json_ws_def bval_Char)
  have "decode_whole (lax_fields result_fields) zero_result (obj_text ?kts) = decode_members (lax_fields result_fields) ?kts zero_result"
    by (rule decode_whole_obj [OF kvs]) (simp add: json_max_depth_def)
  also have "\<dots> = Some r"
  proof -
    have "json_whole (arr_text ?cs) = Some (JArr (map f (rs_Content r)))"
      by (rule reads_whole [OF arr]) (simp add: json_max_depth_def)
    moreover have "raw_elems (arr_text ?cs) = Some ?cs" by (rule raw_elems_arr [OF all]) (simp add: json_max_depth_def)
    moreover have "those (map (\<lambda>(i, t). decode_whole (lax_fields content_fields) z t) (enumerate 0 ?cs)) = Some (rs_Content r)" for z
      using those_map_Some [of "rs_Content r" _ "\<lambda>c. c"] c content_read(2) by (fastforce simp: map_enumerate comp_def)
    moreover have "raw_bool ''true'' = Some (Some True)" using raw_bool_text [of True] by (simp add: bool_text_def)
    ultimately show ?thesis
      by (cases r) (simp add: lax_fields_def [of result_fields] find_result_field list_field_def zero_result_def store_def)
  qed
  finally show "unmarshal result_fields zero_result (result_text r) = Some r" by (simp add: t unmarshal_def)
qed

section \<open>Calling through the server\<close>

lemma compact_nat_text: "compact (nat_text n)"
  by (intro compact_plain num_ok_plain) simp

text \<open>
  The line a client writes for a call, and the server's answer to it, both without the newline.
\<close>
lemma call_through:
  assumes "utf8 name" "utf8 key" "reads args v (Suc d)" "d + 3 < json_max_depth" "compact args"
    and "find (\<lambda>t. tl_Name t = name) tools = Some t" "CompileSchema L (tl_InputSchema t) = Some sch" "Validate L sch args = None"
    and "sv_ready sv" "handler \<lparr>hl_Name = name, hl_Args = args, hl_Key = key, hl_Confirmed = confirmed\<rparr> s = (s', r)"
    and "result_utf8 r" "length (result_text r) \<le> 65536"
    and "client_call name args key confirmed c = (c', ident, line)"
  shows "\<exists>reply. serve_line mac L None srv tools handler now (butlast line) (sv, s)
      = ((sv, s'), [Called \<lparr>hl_Name = name, hl_Args = args, hl_Key = key, hl_Confirmed = confirmed\<rparr>, Replied reply])
    \<and> call_result (fst (client_await ident None (client_read [butlast reply]))) = Inr r"
proof -
  let ?p = "call_params name args key confirmed"
  obtain kvs where p: "reads ?p (JObj kvs) (Suc (Suc d))" "compact ?p"
      "unmarshal tool_call_fields zero_tool_call ?p
        = Some \<lparr>tc_Name = name, tc_Arguments = args, tc_Meta = \<lparr>me_Key = key, me_Confirmed = confirmed\<rparr>\<rparr>"
    using call_params_read [OF assms(1,2,3) _ assms(5)] assms(4) by (metis add_Suc_right add_lessD1 numeral_3_eq_3 add_0_right Suc_lessD)
  let ?n = "unat (cl_next c + 1)"
  have ident: "ident = nat_text ?n" and line: "line = rpc_text (zero_rpc\<lparr>rm_JSONRPC := ''2.0'', rm_ID := nat_text ?n,
      rm_Method := ''tools/call'', rm_Params := ?p\<rparr>)"
    using assms(13) by (auto simp: client_call_def client_request_def Let_def)
  have pne: "?p \<noteq> []" using p(1) by (simp add: reads_def)
  have "butlast line = obj_text [(''jsonrpc'', json_quote ''2.0''), (''id'', nat_text ?n),
      (''method'', json_quote ''tools/call''), (''params'', ?p)]"
    using pne p(2) by (simp add: line rpc_text_def zero_rpc_def json_compact_id compact_nat_text)
  then have req: "read_rpc (butlast line) = Some (zero_rpc\<lparr>rm_JSONRPC := ''2.0'', rm_ID := nat_text ?n,
      rm_Method := ''tools/call'', rm_Params := ?p\<rparr>)"
    using read_rpc_request [OF _ p(1)] assms(4) by (simp add: utf8_ascii bval_Char)
  have plan: "plan_call mac L None now tools ?p
      = Invoke \<lparr>hl_Name = name, hl_Args = args, hl_Key = key, hl_Confirmed = confirmed\<rparr>"
    by (simp add: plan_call_def p(3) assms(6-8))
  let ?reply = "rpc_text (zero_rpc\<lparr>rm_JSONRPC := ''2.0'', rm_ID := nat_text ?n, rm_Result := result_text r\<rparr>)"
  have served: "serve_line mac L None srv tools handler now (butlast line) (sv, s)
      = ((sv, s'), [Called \<lparr>hl_Name = name, hl_Args = args, hl_Key = key, hl_Confirmed = confirmed\<rparr>, Replied ?reply])"
    using assms(9,10,12) by (simp add: serve_line_def req handle_request_def plan reply_value_def)
  obtain rvs where r: "reads (result_text r) (JObj rvs) 3" using result_read(1) [OF assms(11)] by blast
  have rne: "result_text r \<noteq> []" using r by (simp add: reads_def)
  have "butlast ?reply = obj_text [(''jsonrpc'', json_quote ''2.0''), (''id'', nat_text ?n), (''result'', result_text r)]"
    using rne result_read(2) [OF assms(11)] by (simp add: rpc_text_def zero_rpc_def json_compact_id compact_nat_text)
  then have "read_rpc (butlast ?reply) = Some (zero_rpc\<lparr>rm_JSONRPC := ''2.0'', rm_ID := nat_text ?n, rm_Result := result_text r\<rparr>)"
    using read_rpc_response [OF r] by (simp add: json_max_depth_def)
  then have "call_result (fst (client_await ident None (client_read [butlast ?reply]))) = Inr r"
    using assms(12) result_read(3) [OF assms(11)]
    by (simp add: client_await_def ident zero_rpc_def call_result_def decode_answer_def)
  then show ?thesis using served by blast
qed

text \<open>C21. A call goes through: the line the client writes for it makes a server that is ready call its
  handler with exactly that tool, those arguments, that key and that confirmation, and the line the
  server writes gives the client the handler's result, whatever the strings hold that JSON has to
  escape. Arguments are the canonical text of a JSON value, results are valid UTF-8 of at most
  65536 bytes.\<close>
theorem tool_call_through:
  assumes "utf8 name" "utf8 key" "json_wf v" "json_depth v + 3 < json_max_depth" "args = json_text (\<lambda>l. l) v"
    and "find (\<lambda>t. tl_Name t = name) tools = Some t" "CompileSchema L (tl_InputSchema t) = Some sch" "Validate L sch args = None"
    and "sv_ready sv" "handler \<lparr>hl_Name = name, hl_Args = args, hl_Key = key, hl_Confirmed = confirmed\<rparr> s = (s', r)"
    and "result_utf8 r" "length (result_text r) \<le> 65536"
    and "client_call name args key confirmed c = (c', ident, line)"
  shows "\<exists>reply. serve_line mac L None srv tools handler now (butlast line) (sv, s)
      = ((sv, s'), [Called \<lparr>hl_Name = name, hl_Args = args, hl_Key = key, hl_Confirmed = confirmed\<rparr>, Replied reply])
    \<and> call_result (fst (client_await ident None (client_read [butlast reply]))) = Inr r"
proof (rule call_through [where handler = handler and s = s and c = c and d = "json_depth v", OF assms(1,2) _ assms(4) _ assms(6-13)])
  show "reads args (json_norm v) (Suc (json_depth v))" "compact args"
    using reads_mono [OF reads_json_text [OF assms(3) order.refl]] compact_json_text [OF assms(3)] by (simp_all add: assms(5))
qed

definition toy_server_tool :: tool where
  "toy_server_tool = zero_mcp_tool\<lparr>tl_Name := ''echo'', tl_InputSchema := ''{}''\<rparr>"

theorem tool_call_through_witness:
  "\<exists>reply. snd (serve_line (\<lambda>k m. []) toy_lib None ''toy'' [toy_server_tool] (\<lambda>c (n :: nat). (n + 1, TextResult (hl_Key c) False)) 0
        (butlast (snd (snd (client_call ''echo'' ''{}'' ''k'' False \<lparr>cl_next = 0\<rparr>)))) (\<lparr>sv_initialized = True, sv_ready = True\<rparr>, 0))
      = [Called \<lparr>hl_Name = ''echo'', hl_Args = ''{}'', hl_Key = ''k'', hl_Confirmed = False\<rparr>, Replied reply]
    \<and> call_result (fst (client_await ''1'' None (client_read [butlast reply]))) = Inr (TextResult ''k'' False)"
proof -
  obtain c' ident line where call: "client_call ''echo'' ''{}'' ''k'' False \<lparr>cl_next = 0\<rparr> = (c', ident, line)"
    by (cases "client_call ''echo'' ''{}'' ''k'' False \<lparr>cl_next = 0\<rparr>")
  then have ident: "ident = ''1''"
    by (auto simp: client_call_def client_request_def Let_def nat_text_small digit_char_def bchr_eq bval_Char)
  have schema: "CompileSchema toy_lib (tl_InputSchema toy_server_tool) = Some ()"
    by (simp add: CompileSchema_def unmarshal_any_def json_eval toy_lib_def toy_server_tool_def go_map_def)
  have args: "Validate toy_lib () ''{}'' = None"
    by (simp add: Validate_def unmarshal_any_def json_eval toy_lib_def go_map_def)
  have argt: "''{}'' = json_text (\<lambda>l. l) (JObj [])" by (simp add: go_map_def obj_text_def)
  have size: "length (result_text (TextResult ''k'' False)) \<le> 65536"
    by (simp add: result_text_def TextResult_def content_text_def obj_text_def arr_text_def json_quote_def
        pieces_ascii bval_Char quote_piece_def)
  have "\<exists>reply. serve_line (\<lambda>k m. []) toy_lib None ''toy'' [toy_server_tool] (\<lambda>c (n :: nat). (n + 1, TextResult (hl_Key c) False)) 0
        (butlast line) (\<lparr>sv_initialized = True, sv_ready = True\<rparr>, 0)
      = ((\<lparr>sv_initialized = True, sv_ready = True\<rparr>, 1), [Called \<lparr>hl_Name = ''echo'', hl_Args = ''{}'', hl_Key = ''k'', hl_Confirmed = False\<rparr>, Replied reply])
    \<and> call_result (fst (client_await ident None (client_read [butlast reply]))) = Inr (TextResult ''k'' False)"
    by (rule tool_call_through [where v = "JObj []" and t = toy_server_tool and handler = "\<lambda>c (n :: nat). (n + 1, TextResult (hl_Key c) False)"
          and s = 0 and c = "\<lparr>cl_next = 0\<rparr>", OF _ _ _ _ argt _ schema args _ _ _ size call])
      (simp_all add: json_max_depth_def toy_server_tool_def result_utf8_def TextResult_def utf8_ascii bval_Char)
  then show ?thesis by (auto simp: call ident)
qed

end
