(* ===== verification/Host_Config.thy ===== *)
theory Host_Config
  imports Mcp_Client Action_Runtime
begin

text \<open>
  The host's trusted configuration of tools: the profile registry of
  \<open>config/integrations/profiles.go\<close> and the validation of tool server configurations in
  \<open>adapters/mcpclient/router.go\<close> and \<open>gateway.go\<close> (personal-assistant-agent). Which regular
  expressions compile is the argument \<open>re_ok\<close>, the environment is \<open>getenv\<close>; the contents of the
  profile files are given in the order they are read. A Go map is visited in the order of its
  list.
\<close>

section \<open>Profiles\<close>

type_synonym registry = "profile gomap"

definition zero_profile :: profile where
  "zero_profile = \<lparr>pf_Policy = [], pf_Direct = False, pf_ConfirmationPhrase = [], pf_AllowUIConfirmation = False,
     pf_DateTimeFields = [], pf_IntentPattern = []\<rparr>"

definition profile_fields :: "profile fields" where
  "profile_fields =
     [string_field ''policy'' (\<lambda>v x. x\<lparr>pf_Policy := v\<rparr>),
      bool_field ''direct'' (\<lambda>v x. x\<lparr>pf_Direct := v\<rparr>),
      string_field ''confirmation_phrase'' (\<lambda>v x. x\<lparr>pf_ConfirmationPhrase := v\<rparr>),
      bool_field ''allow_ui_confirmation'' (\<lambda>v x. x\<lparr>pf_AllowUIConfirmation := v\<rparr>),
      (''datetime_fields'', \<lambda>raw x. map_option (\<lambda>v. x\<lparr>pf_DateTimeFields := (case v of None \<Rightarrow> [] | Some xs \<Rightarrow> xs)\<rparr>)
         (raw_strings raw (Some (pf_DateTimeFields x)))),
      string_field ''intent_pattern'' (\<lambda>v x. x\<lparr>pf_IntentPattern := v\<rparr>)]"

text \<open>The members of a \<open>map[string]Profile\<close>, decoded into the map.\<close>
fun decode_profiles :: "(string \<times> string) list \<Rightarrow> registry \<Rightarrow> registry option" where
  "decode_profiles [] m = Some m"
| "decode_profiles ((k, raw) # ms) m =
     (case decode_whole (strict_fields profile_fields) zero_profile raw of
        None \<Rightarrow> None | Some p \<Rightarrow> decode_profiles ms (gput k p m))"

definition profile_doc_fields :: "registry fields" where
  "profile_doc_fields = [(''tools'', \<lambda>raw m.
     case json_whole raw of
       Some JNull \<Rightarrow> Some []
     | Some (JObj _) \<Rightarrow> (case raw_members raw of None \<Rightarrow> None | Some (ms, _) \<Rightarrow> decode_profiles ms m)
     | _ \<Rightarrow> None)]"

text \<open>What is wrong with a profile, in the order of the checks.\<close>
definition profile_error :: "(string \<Rightarrow> bool) \<Rightarrow> profile \<Rightarrow> error option" where
  "profile_error re_ok p =
     (if pf_Policy p = ReadOnly then
        (if pf_Direct p \<or> pf_ConfirmationPhrase p \<noteq> [] \<or> pf_AllowUIConfirmation p \<or> pf_IntentPattern p \<noteq> []
         then Some ''invalid read policy'' else None)
      else if pf_Policy p = ExplicitIntent then
        (if pf_Direct p = (pf_IntentPattern p \<noteq> []) \<or> pf_ConfirmationPhrase p \<noteq> [] \<or> pf_AllowUIConfirmation p
         then Some ''intent policy needs exactly direct or intent_pattern''
         else if pf_IntentPattern p \<noteq> [] \<and> \<not> re_ok (pf_IntentPattern p) then Some ''error parsing regexp'' else None)
      else if pf_Policy p = ConfirmLater then
        (if pf_ConfirmationPhrase p = [] \<or> pf_Direct p \<or> pf_IntentPattern p \<noteq> []
         then Some ''confirmation policy requires phrase'' else None)
      else Some ''invalid host policy'')"

fun register :: "(string \<Rightarrow> bool) \<Rightarrow> registry \<Rightarrow> registry \<Rightarrow> error + registry" where
  "register re_ok [] r = Inr r"
| "register re_ok ((name, p) # ps) r =
     (if trim_space name = [] then Inl ''empty tool name''
      else if gget r name \<noteq> None then Inl (''duplicate host profile: '' @ name)
      else (case profile_error re_ok p of
          Some err \<Rightarrow> Inl err | None \<Rightarrow> register re_ok ps (gput name p r)))"

text \<open>One profile file.\<close>
definition add_profiles :: "(string \<Rightarrow> bool) \<Rightarrow> string \<Rightarrow> registry \<Rightarrow> error + registry" where
  "add_profiles re_ok data r =
     (case decode_struct (strict_fields profile_doc_fields) [] data of
        None \<Rightarrow> Inl ''invalid profile JSON''
      | Some (doc, rest) \<Rightarrow>
          if \<not> at_eof rest then Inl ''trailing profile JSON''
          else if doc = [] then Inl ''empty integration profile''
          else register re_ok doc r)"

text \<open>\<open>Load\<close>: the embedded files, then those of \<open>STS_INTEGRATIONS_DIR\<close>, each read or failing to be read.\<close>
fun LoadProfiles :: "(string \<Rightarrow> bool) \<Rightarrow> (error + string) list \<Rightarrow> registry \<Rightarrow> error + registry" where
  "LoadProfiles re_ok [] r = Inr r"
| "LoadProfiles re_ok (Inl err # files) r = Inl err"
| "LoadProfiles re_ok (Inr data # files) r =
     (case add_profiles re_ok data r of Inl err \<Rightarrow> Inl err | Inr r' \<Rightarrow> LoadProfiles re_ok files r')"

definition ValidatePolicy :: "error + registry \<Rightarrow> string \<Rightarrow> policy \<Rightarrow> error option" where
  "ValidatePolicy loaded name pol =
     (case loaded of
        Inl err \<Rightarrow> Some err
      | Inr r \<Rightarrow> (case gget r name of
          None \<Rightarrow> Some ''missing trusted integration profile''
        | Some p \<Rightarrow> if pf_Policy p \<noteq> pol then Some ''configured policy differs from trusted integration profile'' else None))"

section \<open>Server configurations\<close>

record server_config =
  sc_Cwd :: string
  sc_Env :: "string gomap"
  sc_Alias :: string
  sc_Command :: string
  sc_Args :: "string list"
  sc_AllowedTools :: "string list"
  sc_Policies :: "policy gomap"

record gateway_config =
  gc_Alias :: string
  gc_ServerID :: string
  gc_AllowedTools :: "string list"
  gc_Policies :: "policy gomap"

text \<open>\<open>filepath.IsAbs\<close> on Unix, and \<open>^[A-Za-z_][A-Za-z0-9_]*$\<close>.\<close>
definition is_abs :: "string \<Rightarrow> bool" where
  "is_abs p \<longleftrightarrow> has_prefix p ''/''"

definition envName :: "string \<Rightarrow> bool" where
  "envName s \<longleftrightarrow> (case s of [] \<Rightarrow> False
     | c # cs \<Rightarrow> (is_alpha c \<or> bval c = 95) \<and> list_all (\<lambda>d. is_alnum d \<or> bval d = 95) cs)"

definition known_policy :: "policy \<Rightarrow> bool" where
  "known_policy p \<longleftrightarrow> p = ReadOnly \<or> p = ExplicitIntent \<or> p = ConfirmLater"

text \<open>The allowed tools in turn; \<open>err\<close> is the message for a tool without a policy of its own.\<close>
fun allowed_error ::
  "error + registry \<Rightarrow> error \<Rightarrow> policy gomap \<Rightarrow> string list \<Rightarrow> string list \<Rightarrow> error option"
where
  "allowed_error loaded err policies seen [] = None"
| "allowed_error loaded err policies seen (n # ns) =
     (if n = [] \<or> n \<in> set seen \<or> \<not> known_policy (gstr policies n) then Some err
      else (case ValidatePolicy loaded n (gstr policies n) of
          Some e \<Rightarrow> Some e
        | None \<Rightarrow> allowed_error loaded err policies (n # seen) ns))"

fun env_error :: "(string \<Rightarrow> string option) \<Rightarrow> string gomap \<Rightarrow> error option" where
  "env_error getenv [] = None"
| "env_error getenv ((target, source) # es) =
     (if \<not> envName target \<or> \<not> envName source then Some ''invalid MCP environment reference''
      else if getenv source = None then Some ''missing MCP environment reference''
      else env_error getenv es)"

definition server_error ::
  "(string \<Rightarrow> string option) \<Rightarrow> error + registry \<Rightarrow> string list \<Rightarrow> server_config \<Rightarrow> error option"
where
  "server_error getenv loaded aliases s =
     (if \<not> alias_ok (sc_Alias s) \<or> sc_Alias s \<in> set aliases \<or> \<not> is_abs (sc_Command s) \<or> sc_AllowedTools s = []
      then Some ''invalid MCP server configuration''
      else if sc_Cwd s \<noteq> [] \<and> \<not> is_abs (sc_Cwd s) then Some ''MCP cwd must be absolute''
      else (case env_error getenv (sc_Env s) of
          Some e \<Rightarrow> Some e
        | None \<Rightarrow>
          (case allowed_error loaded ''each allowed tool requires an explicit host policy'' (sc_Policies s) [] (sc_AllowedTools s) of
             Some e \<Rightarrow> Some e
           | None \<Rightarrow> if list_all (\<lambda>n. n \<in> set (sc_AllowedTools s)) (gkeys (sc_Policies s)) then None
                     else Some ''policy outside allowlist'')))"

fun servers_error ::
  "(string \<Rightarrow> string option) \<Rightarrow> error + registry \<Rightarrow> string list \<Rightarrow> server_config list \<Rightarrow> error option"
where
  "servers_error getenv loaded aliases [] = None"
| "servers_error getenv loaded aliases (s # ss) =
     (case server_error getenv loaded aliases s of
        Some e \<Rightarrow> Some e
      | None \<Rightarrow> servers_error getenv loaded (sc_Alias s # aliases) ss)"

definition ValidateServers ::
  "(string \<Rightarrow> string option) \<Rightarrow> error + registry \<Rightarrow> server_config list \<Rightarrow> error option"
where
  "ValidateServers getenv loaded servers =
     (if length servers > 8 then Some ''at most eight MCP servers'' else servers_error getenv loaded [] servers)"

fun gateways_error ::
  "error + registry \<Rightarrow> string list \<Rightarrow> string list \<Rightarrow> gateway_config list \<Rightarrow> error option"
where
  "gateways_error loaded aliases ids [] = None"
| "gateways_error loaded aliases ids (s # ss) =
     (if \<not> alias_ok (gc_Alias s) \<or> gc_ServerID s = [] \<or> gc_Alias s \<in> set aliases \<or> gc_ServerID s \<in> set ids
         \<or> gc_AllowedTools s = []
      then Some ''invalid LiteLLM MCP server configuration''
      else (case allowed_error loaded ''each gateway tool requires an explicit host policy'' (gc_Policies s) [] (gc_AllowedTools s) of
          Some e \<Rightarrow> Some e
        | None \<Rightarrow>
            if length (gc_AllowedTools s) \<noteq> length (gc_Policies s) then Some ''gateway policy outside allowlist''
            else gateways_error loaded (gc_Alias s # aliases) (gc_ServerID s # ids) ss))"

definition ValidateGatewayServers :: "error + registry \<Rightarrow> gateway_config list \<Rightarrow> error option" where
  "ValidateGatewayServers loaded servers =
     (if servers = [] \<or> length servers > 8 then Some ''LiteLLM MCP gateway requires one to eight servers''
      else gateways_error loaded [] [] servers)"

section \<open>The registry is well typed\<close>

text \<open>A profile the orchestrator can rely on.\<close>
definition profile_ok :: "(string \<Rightarrow> bool) \<Rightarrow> profile \<Rightarrow> bool" where
  "profile_ok re_ok p \<longleftrightarrow> known_policy (pf_Policy p)
     \<and> (pf_ConfirmationPhrase p \<noteq> [] \<longleftrightarrow> pf_Policy p = ConfirmLater)
     \<and> (pf_AllowUIConfirmation p \<longrightarrow> pf_Policy p = ConfirmLater)
     \<and> (pf_Direct p \<or> pf_IntentPattern p \<noteq> [] \<longleftrightarrow> pf_Policy p = ExplicitIntent)
     \<and> \<not> (pf_Direct p \<and> pf_IntentPattern p \<noteq> [])
     \<and> (pf_IntentPattern p \<noteq> [] \<longrightarrow> re_ok (pf_IntentPattern p))"

definition registry_ok :: "(string \<Rightarrow> bool) \<Rightarrow> registry \<Rightarrow> bool" where
  "registry_ok re_ok r \<longleftrightarrow> gwf r \<and> list_all (\<lambda>(n, p). trim_space n \<noteq> [] \<and> profile_ok re_ok p) r"

lemma profile_error_None: "profile_error re_ok p = None \<longleftrightarrow> profile_ok re_ok p"
  by (auto simp: profile_error_def profile_ok_def known_policy_def)

lemma set_gput_new: "gget m k = None \<Longrightarrow> set (gput k v m) = insert (k, v) (set m)"
  by (induction m) (auto split: if_splits)

lemma registry_ok_gput:
  "registry_ok re_ok r \<Longrightarrow> gget r n = None \<Longrightarrow> trim_space n \<noteq> [] \<Longrightarrow> profile_ok re_ok p \<Longrightarrow> registry_ok re_ok (gput n p r)"
  by (auto simp: registry_ok_def set_gput_new list_all_iff)

text \<open>Registering only adds, and keeps what is there.\<close>
lemma register_ok:
  "register re_ok ps r = Inr r' \<Longrightarrow> (registry_ok re_ok r \<longrightarrow> registry_ok re_ok r') \<and> (\<forall>n p. gget r n = Some p \<longrightarrow> gget r' n = Some p)"
proof (induction re_ok ps r rule: register.induct)
  case (2 re_ok name p ps r)
  then have *: "trim_space name \<noteq> []" "gget r name = None" "profile_ok re_ok p" "register re_ok ps (gput name p r) = Inr r'"
    using profile_error_None by (auto split: if_splits option.splits)
  have "(registry_ok re_ok (gput name p r) \<longrightarrow> registry_ok re_ok r') \<and> (\<forall>n q. gget (gput name p r) n = Some q \<longrightarrow> gget r' n = Some q)"
    by (rule 2(1)) (use * profile_error_None [of re_ok p] in simp_all)
  then show ?case using * registry_ok_gput [of re_ok r name p] by (metis gget_gput option.distinct(1))
qed simp

lemma LoadProfiles_ok:
  "LoadProfiles re_ok files r = Inr r' \<Longrightarrow> (registry_ok re_ok r \<longrightarrow> registry_ok re_ok r') \<and> (\<forall>n p. gget r n = Some p \<longrightarrow> gget r' n = Some p)"
proof (induction re_ok files r rule: LoadProfiles.induct)
  case (3 re_ok data files r)
  then obtain r1 where r1: "add_profiles re_ok data r = Inr r1" "LoadProfiles re_ok files r1 = Inr r'"
    by (auto split: sum.splits)
  then obtain doc where "register re_ok doc r = Inr r1"
    by (auto simp: add_profiles_def split: option.splits if_splits)
  then show ?case using register_ok 3(1) [OF r1] by blast
qed simp_all

lemma LoadProfiles_append:
  "LoadProfiles re_ok (a @ b) r = (case LoadProfiles re_ok a r of Inl err \<Rightarrow> Inl err | Inr r' \<Rightarrow> LoadProfiles re_ok b r')"
  by (induction re_ok a r rule: LoadProfiles.induct) (auto split: sum.splits)

text \<open>Every profile the host loads has a policy it knows, exactly the attributes of that policy (a
  confirmation phrase for \<open>confirm_later\<close>, either \<open>direct\<close> or an intent pattern that compiles for
  \<open>explicit_intent\<close>, nothing for \<open>read_only\<close>), a name of its own, and files read later never replace
  a profile of the files read before, so the embedded ones cannot be overridden.\<close>
theorem loaded_profiles_typed:
  "case LoadProfiles re_ok (embedded @ extra) [] of
     Inl err \<Rightarrow> True
   | Inr r \<Rightarrow> registry_ok re_ok r
       \<and> (case LoadProfiles re_ok embedded [] of Inl err \<Rightarrow> False | Inr r0 \<Rightarrow> list_all (\<lambda>(n, p). gget r n = Some p) r0)"
proof (cases "LoadProfiles re_ok embedded []")
  case (Inr r0)
  have nil: "registry_ok re_ok []" by (simp add: registry_ok_def)
  have r0: "registry_ok re_ok r0" using LoadProfiles_ok [OF Inr] nil by simp
  have "registry_ok re_ok r \<and> list_all (\<lambda>(n, p). gget r n = Some p) r0" if "LoadProfiles re_ok extra r0 = Inr r" for r
    using LoadProfiles_ok [OF that] r0 by (auto simp: registry_ok_def gwf_def list_all_iff)
  then show ?thesis by (auto simp: LoadProfiles_append Inr split: sum.splits)
qed (simp add: LoadProfiles_append)

section \<open>Accepted server configurations\<close>

definition trusted_policy :: "error + registry \<Rightarrow> string \<Rightarrow> policy \<Rightarrow> bool" where
  "trusted_policy loaded n pol \<longleftrightarrow> (case loaded of Inl err \<Rightarrow> False
     | Inr r \<Rightarrow> (case gget r n of None \<Rightarrow> False | Some p \<Rightarrow> pf_Policy p = pol))"

definition tools_ok :: "error + registry \<Rightarrow> policy gomap \<Rightarrow> string list \<Rightarrow> bool" where
  "tools_ok loaded policies allowed \<longleftrightarrow> distinct allowed \<and> [] \<notin> set allowed
     \<and> list_all (\<lambda>n. known_policy (gstr policies n) \<and> trusted_policy loaded n (gstr policies n)) allowed"

definition server_ok :: "(string \<Rightarrow> string option) \<Rightarrow> error + registry \<Rightarrow> server_config \<Rightarrow> bool" where
  "server_ok getenv loaded s \<longleftrightarrow> alias_ok (sc_Alias s) \<and> is_abs (sc_Command s) \<and> (sc_Cwd s = [] \<or> is_abs (sc_Cwd s))
     \<and> list_all (\<lambda>(target, source). envName target \<and> envName source \<and> getenv source \<noteq> None) (sc_Env s)
     \<and> sc_AllowedTools s \<noteq> [] \<and> tools_ok loaded (sc_Policies s) (sc_AllowedTools s)
     \<and> set (gkeys (sc_Policies s)) \<subseteq> set (sc_AllowedTools s)"

lemma ValidatePolicy_None: "ValidatePolicy loaded n pol = None \<longleftrightarrow> trusted_policy loaded n pol"
  by (simp add: ValidatePolicy_def trusted_policy_def split: sum.split option.split)

lemma allowed_error_None:
  "allowed_error loaded err policies seen ns = None \<longleftrightarrow> tools_ok loaded policies ns \<and> set seen \<inter> set ns = {}"
proof (induction loaded err policies seen ns rule: allowed_error.induct)
  case (2 loaded err policies seen n ns)
  then show ?case
    by (cases "ValidatePolicy loaded n (gstr policies n)")
      (use ValidatePolicy_None [of loaded n "gstr policies n"] in \<open>auto simp: tools_ok_def\<close>)
qed (simp add: tools_ok_def)

lemma env_error_None:
  "env_error getenv es = None \<longleftrightarrow> list_all (\<lambda>(target, source). envName target \<and> envName source \<and> getenv source \<noteq> None) es"
  by (induction getenv es rule: env_error.induct) auto

lemma first_error_None: "(case x of Some e \<Rightarrow> Some e | None \<Rightarrow> y) = None \<longleftrightarrow> x = None \<and> y = None"
  by (simp split: option.split)

lemma server_error_None:
  "server_error getenv loaded aliases s = None \<longleftrightarrow> server_ok getenv loaded s \<and> sc_Alias s \<notin> set aliases"
  unfolding server_error_def server_ok_def
  by (simp add: first_error_None env_error_None allowed_error_None list_all_iff subset_eq) blast

lemma servers_error_None:
  "servers_error getenv loaded aliases ss = None \<longleftrightarrow>
     list_all (server_ok getenv loaded) ss \<and> distinct (map sc_Alias ss) \<and> set aliases \<inter> set (map sc_Alias ss) = {}"
proof (induction getenv loaded aliases ss rule: servers_error.induct)
  case (2 getenv loaded aliases s ss)
  then show ?case using server_error_None [of getenv loaded aliases s]
    by (cases "server_error getenv loaded aliases s") auto
qed simp

text \<open>C38. A list of tool servers is accepted exactly when it has at most eight servers with different
  aliases, absolute commands and environment references that exist, and when every allowed tool is
  listed once with the policy of its trusted profile and no policy is given for another tool.\<close>
theorem ValidateServers_iff:
  "ValidateServers getenv loaded servers = None \<longleftrightarrow>
     length servers \<le> 8 \<and> distinct (map sc_Alias servers) \<and> list_all (server_ok getenv loaded) servers"
  using servers_error_None [of getenv loaded "[]" servers] by (auto simp: ValidateServers_def)

end
