(* ===== verification/Tool_Routing.thy ===== *)
theory Tool_Routing
  imports Host_Config
begin

text \<open>
  How the agent reaches its tool servers: the router over server processes
  (\<open>adapters/mcpclient/router.go\<close>) and the LiteLLM gateway that carries signed envelopes
  (\<open>gateway.go\<close>). What starting and listing the i-th server gives is the argument \<open>outcome\<close>; what
  an HTTP exchange gives is an argument as well. A client is named by the index of its server.
\<close>

section \<open>The router\<close>

record tool_route =
  tr_client :: "nat option"
  tr_original :: string

record router =
  ro_tools :: "tool list"
  ro_routes :: "tool_route gomap"
  ro_clients :: "nat list"

definition empty_router :: router where
  "empty_router = \<lparr>ro_tools = [], ro_routes = [], ro_clients = []\<rparr>"

text \<open>What stands for a tool of a server that did not start.\<close>
definition placeholder :: "string \<Rightarrow> tool" where
  "placeholder n = zero_mcp_tool\<lparr>tl_Name := n,
     tl_Description := ''Servidor indispon'' @ encode_rune 237 @ ''vel. N'' @ encode_rune 227
       @ ''o invente resultados; informe o erro. '',
     tl_InputSchema := obj_text [(''type'', json_quote ''object''), (''additionalProperties'', ''true'')]\<rparr>"

definition routed_tool :: "server_config \<Rightarrow> tool \<Rightarrow> tool" where
  "routed_tool cfg t = t\<lparr>tl_Name := sc_Alias cfg @ ''.'' @ tl_Name t, tl_Server := sc_Alias cfg,
     tl_OriginalName := tl_Name t, tl_HostPolicy := gstr (sc_Policies cfg) (tl_Name t)\<rparr>"

fun route_tools ::
  "server_config \<Rightarrow> nat option \<Rightarrow> string list \<Rightarrow> tool list \<Rightarrow> router \<Rightarrow> error + router"
where
  "route_tools cfg client seen [] r = Inr r"
| "route_tools cfg client seen (t # ts) r =
     (if tl_Name t \<notin> set (sc_AllowedTools cfg) then route_tools cfg client seen ts r
      else if tl_Name t \<in> set seen then Inl ''duplicate MCP tool''
      else if gget (ro_routes r) (tl_Name (routed_tool cfg t)) \<noteq> None then Inl ''duplicate route''
      else route_tools cfg client (tl_Name t # seen) ts
        (r\<lparr>ro_routes := gput (tl_Name (routed_tool cfg t)) \<lparr>tr_client = client, tr_original = tl_Name t\<rparr> (ro_routes r),
           ro_tools := ro_tools r @ [routed_tool cfg t]\<rparr>))"

fun route_servers ::
  "(nat \<Rightarrow> error + tool list) \<Rightarrow> nat \<Rightarrow> server_config list \<Rightarrow> router \<Rightarrow> error + router"
where
  "route_servers outcome i [] r = Inr r"
| "route_servers outcome i (cfg # cfgs) r =
     (case (case outcome i of
              Inl _ \<Rightarrow> route_tools cfg None [] (map placeholder (sc_AllowedTools cfg)) r
            | Inr discovered \<Rightarrow> route_tools cfg (Some i) [] discovered (r\<lparr>ro_clients := ro_clients r @ [i]\<rparr>)) of
        Inl err \<Rightarrow> Inl err
      | Inr r' \<Rightarrow> route_servers outcome (Suc i) cfgs r')"

definition StartServers ::
  "(string \<Rightarrow> string option) \<Rightarrow> error + registry \<Rightarrow> (nat \<Rightarrow> error + tool list) \<Rightarrow> server_config list \<Rightarrow> duration
   \<Rightarrow> error + router"
where
  "StartServers getenv loaded outcome configs timeout =
     (case ValidateServers getenv loaded configs of
        Some err \<Rightarrow> Inl err
      | None \<Rightarrow>
          if timeout \<le> 0 then Inl ''MCP timeout must be positive''
          else (case route_servers outcome 0 configs empty_router of
              Inl err \<Rightarrow> Inl err
            | Inr r \<Rightarrow> if length (ro_tools r) > 32 then Inl ''union exceeds 32 tools'' else Inr r))"

definition AllowedTools :: "router \<Rightarrow> string list" where
  "AllowedTools r = map tl_Name (ro_tools r)"

text \<open>\<open>call i name args key confirmed\<close> is the call of the i-th server's client.\<close>
definition RouterCall ::
  "(nat \<Rightarrow> string \<Rightarrow> string \<Rightarrow> string \<Rightarrow> bool \<Rightarrow> error + result) \<Rightarrow> router \<Rightarrow> string \<Rightarrow> string \<Rightarrow> string \<Rightarrow> bool
   \<Rightarrow> error + result"
where
  "RouterCall call r name args key confirmed =
     (case gget (ro_routes r) name of
        None \<Rightarrow> Inl ''MCP unavailable''
      | Some b \<Rightarrow> (case tr_client b of
          None \<Rightarrow> Inl ''MCP unavailable''
        | Some i \<Rightarrow> call i (tr_original b) args key confirmed))"

section \<open>The gateway\<close>

record gateway_route =
  gr_serverID :: string
  gr_original :: string
  gr_codec :: envelope_codec

record gateway =
  gw_endpoint :: string
  gw_apiKey :: string
  gw_tools :: "tool list"
  gw_routes :: "gateway_route gomap"

text \<open>An HTTP exchange failed, or gave a status and a body (\<open>None\<close> when reading it failed).\<close>
datatype exchange = NoResponse | Response int "string option"

definition gateway_response :: "exchange \<Rightarrow> error + string" where
  "gateway_response x =
     (case x of
        NoResponse \<Rightarrow> Inl ''LiteLLM MCP request failed''
      | Response status body \<Rightarrow>
          (case body of
             None \<Rightarrow> Inl ''invalid LiteLLM MCP response''
           | Some data \<Rightarrow>
               if length data > MaxMessage then Inl ''invalid LiteLLM MCP response''
               else if status < 200 \<or> status \<ge> 300 then Inl (''LiteLLM MCP returned HTTP '' @ int_text status)
               else Inr data))"

text \<open>\<open>request\<close>, after the exchange: the body decoded into its target.\<close>
definition gateway_request :: "'r fields \<Rightarrow> 'r \<Rightarrow> exchange \<Rightarrow> error + 'r" where
  "gateway_request fs zero x =
     (case gateway_response x of
        Inl err \<Rightarrow> Inl err
      | Inr data \<Rightarrow> (case unmarshal fs zero data of None \<Rightarrow> Inl ''invalid LiteLLM MCP JSON'' | Some y \<Rightarrow> Inr y))"

record remote_tool =
  rt_Name :: string
  rt_Description :: string
  rt_InputSchema :: string

definition remote_tool_fields :: "remote_tool fields" where
  "remote_tool_fields =
     [string_field ''Name'' (\<lambda>v x. x\<lparr>rt_Name := v\<rparr>),
      string_field ''Description'' (\<lambda>v x. x\<lparr>rt_Description := v\<rparr>),
      raw_field ''inputSchema'' (\<lambda>v x. x\<lparr>rt_InputSchema := v\<rparr>)]"

text \<open>The listing; its \<open>error\<close> member is decoded into \<open>any\<close> and not used.\<close>
definition listed_fields :: "remote_tool list fields" where
  "listed_fields =
     [list_field ''tools'' remote_tool_fields \<lparr>rt_Name = [], rt_Description = [], rt_InputSchema = []\<rparr> (\<lambda>x. x) (\<lambda>v x. v),
      (''error'', \<lambda>raw x. if snd (unmarshal_any raw) then Some x else None)]"

text \<open>\<open>properties.payload\<close> of an advertised schema, \<open>[]\<close> when it is absent.\<close>
definition payload_schema :: "string \<Rightarrow> string option" where
  "payload_schema schema = unmarshal
     [lax_struct_field ''properties'' [raw_field ''payload'' (\<lambda>v x. v)] (\<lambda>x. x) (\<lambda>v x. v)] [] schema"

fun gateway_add ::
  "gateway_config \<Rightarrow> envelope_codec \<Rightarrow> remote_tool list \<Rightarrow> policy gomap \<Rightarrow> gateway \<Rightarrow> error + policy gomap \<times> gateway"
where
  "gateway_add cfg cdc [] allowed g = Inr (allowed, g)"
| "gateway_add cfg cdc (t # ts) allowed g =
     (case gget allowed (rt_Name t) of
        None \<Rightarrow> gateway_add cfg cdc ts allowed g
      | Some pol \<Rightarrow>
        (case payload_schema (rt_InputSchema t) of
           None \<Rightarrow> Inl ''MCP server does not expose the signed STS envelope''
         | Some payload \<Rightarrow>
             if payload = [] then Inl ''MCP server does not expose the signed STS envelope''
             else
               (let name = gc_Alias cfg @ ''.'' @ rt_Name t in
                if gget (gw_routes g) name \<noteq> None then Inl ''duplicate gateway route''
                else gateway_add cfg cdc ts (gdel (rt_Name t) allowed)
                  (g\<lparr>gw_routes := gput name \<lparr>gr_serverID = gc_ServerID cfg, gr_original = rt_Name t, gr_codec = cdc\<rparr> (gw_routes g),
                     gw_tools := gw_tools g @ [zero_mcp_tool\<lparr>tl_Server := gc_Alias cfg, tl_OriginalName := rt_Name t,
                       tl_HostPolicy := pol, tl_Name := name, tl_Description := rt_Description t, tl_InputSchema := payload\<rparr>]\<rparr>))))"

fun gateway_servers ::
  "string \<Rightarrow> (nat \<Rightarrow> exchange) \<Rightarrow> nat \<Rightarrow> gateway_config list \<Rightarrow> gateway \<Rightarrow> error + gateway"
where
  "gateway_servers secret answer i [] g = Inr g"
| "gateway_servers secret answer i (cfg # cfgs) g =
     (case NewEnvelopeCodec secret (gc_Alias cfg) of
        Inl err \<Rightarrow> Inl err
      | Inr cdc \<Rightarrow>
        (case gateway_request listed_fields [] (answer i) of
           Inl err \<Rightarrow> Inl err
         | Inr listed \<Rightarrow>
           (case gateway_add cfg cdc listed (foldl (\<lambda>m n. gput n (gstr (gc_Policies cfg) n) m) [] (gc_AllowedTools cfg)) g of
              Inl err \<Rightarrow> Inl err
            | Inr (allowed, g') \<Rightarrow>
                if allowed \<noteq> [] then Inl (''LiteLLM did not advertise all allowed tools for '' @ gc_Alias cfg)
                else gateway_servers secret answer (Suc i) cfgs g')))"

text \<open>\<open>strings.TrimRight(endpoint, "/")\<close>\<close>
definition trim_slashes :: "string \<Rightarrow> string" where
  "trim_slashes s = rev (dropWhile (\<lambda>c. bval c = 47) (rev s))"

text \<open>\<open>url_ok\<close>: the URL parses, has scheme http or https, a host, no query and no fragment.\<close>
definition newGateway ::
  "(string \<Rightarrow> bool) \<Rightarrow> error + registry \<Rightarrow> (nat \<Rightarrow> exchange) \<Rightarrow> string \<Rightarrow> string \<Rightarrow> string \<Rightarrow> gateway_config list \<Rightarrow> duration
   \<Rightarrow> error + gateway"
where
  "newGateway url_ok loaded answer endpoint apiKey secret servers timeout =
     (case ValidateGatewayServers loaded servers of
        Some err \<Rightarrow> Inl err
      | None \<Rightarrow>
          if \<not> url_ok endpoint then Inl ''invalid LiteLLM URL''
          else if apiKey = [] \<or> timeout \<le> 0 then Inl ''LiteLLM API key and positive timeout required''
          else (case gateway_servers secret answer 0 servers
                  \<lparr>gw_endpoint = trim_slashes endpoint, gw_apiKey = apiKey, gw_tools = [], gw_routes = []\<rparr> of
              Inl err \<Rightarrow> Inl err
            | Inr g \<Rightarrow> if length (gw_tools g) > 32 then Inl ''union exceeds 32 tools'' else Inr g))"

text \<open>
  The body of a call. The envelope is decoded into \<open>map[string]any\<close> without \<open>UseNumber\<close>, so its
  numbers pass through \<open>float64\<close>.
\<close>
definition gateway_arguments :: "'sch lib \<Rightarrow> string \<Rightarrow> error + string" where
  "gateway_arguments L envelope =
     (case json_whole envelope of
        Some (JObj kvs) \<Rightarrow>
          if json_nums f64_ok (JObj kvs) then Inr (json_text (f64_text L) (any_value (JObj kvs)))
          else Inl ''invalid signed envelope''
      | Some JNull \<Rightarrow> Inr ''null''
      | _ \<Rightarrow> Inl ''invalid signed envelope'')"

definition gateway_body :: "gateway_route \<Rightarrow> string \<Rightarrow> string" where
  "gateway_body r arguments = obj_text
     [(''arguments'', arguments), (''name'', json_quote (gr_original r)), (''server_id'', json_quote (gr_serverID r))]"

definition GatewayCall ::
  "(byte list \<Rightarrow> string \<Rightarrow> byte list) \<Rightarrow> 'sch lib \<Rightarrow> instant \<Rightarrow> (string \<Rightarrow> exchange) \<Rightarrow> gateway \<Rightarrow> string \<Rightarrow> string \<Rightarrow> string
   \<Rightarrow> bool \<Rightarrow> error + result"
where
  "GatewayCall mac L now post g name args key confirmed =
     (case gget (gw_routes g) name of
        None \<Rightarrow> Inl ''MCP route unavailable''
      | Some r \<Rightarrow>
        (case Wrap mac L (gr_codec r) now (gr_original r) args key confirmed of
           Inl err \<Rightarrow> Inl err
         | Inr envelope \<Rightarrow>
           (case gateway_arguments L envelope of
              Inl err \<Rightarrow> Inl err
            | Inr arguments \<Rightarrow> gateway_request result_fields zero_result (post (gateway_body r arguments)))))"

section \<open>What passes through the gateway\<close>

lemma json_text_any_obj:
  "json_text f (any_value (JObj kvs)) = obj_text (go_map (map (\<lambda>(k, v). (k, json_text f (any_value v))) kvs))"
proof -
  have c: "map (\<lambda>(k, v). (k, json_text f v)) (map (\<lambda>(k, v). (k, any_value v)) xs) = map (\<lambda>(k, v). (k, json_text f (any_value v))) xs" for xs
    by auto
  have "json_text f (any_value (JObj kvs)) = obj_text (go_map (map (\<lambda>(k, v). (k, json_text f v)) (map (\<lambda>(k, v). (k, any_value v)) (go_map kvs))))"
    by (simp only: any_value.simps json_text.simps go_map_map)
  also have "\<dots> = obj_text (go_map (map (\<lambda>(k, v). (k, json_text f (any_value v))) kvs))"
    unfolding c by (simp only: go_map_map go_map_go_map)
  finally show ?thesis .
qed

text \<open>Does a number literal survive \<open>float64\<close>?\<close>
definition stable :: "'sch lib \<Rightarrow> string \<Rightarrow> bool" where
  "stable L l \<longleftrightarrow> f64_ok l \<and> f64_text L l = l"

lemma json_text_stable: "json_nums (stable L) v \<Longrightarrow> json_text (f64_text L) (any_value v) = json_text (\<lambda>l. l) v"
proof (induction v)
  case (JObj kvs)
  have "\<forall>x \<in> set kvs. (case x of (k, v) \<Rightarrow> (k, json_text (f64_text L) (any_value v))) = (case x of (k, v) \<Rightarrow> (k, json_text (\<lambda>l. l) v))"
    using JObj by (fastforce simp: list_all_iff)
  then have "map (\<lambda>(k, v). (k, json_text (f64_text L) (any_value v))) kvs = map (\<lambda>(k, v). (k, json_text (\<lambda>l. l) v)) kvs"
    by simp
  then show ?case by (simp only: json_text_any_obj json_text.simps)
qed (auto simp: stable_def list_all_iff intro!: arg_cong [of _ _ arr_text])

lemma json_nums_norm: "json_nums P v \<Longrightarrow> json_nums P (json_norm v)"
proof (induction v)
  case (JObj kvs)
  then have "\<forall>(k, v) \<in> set kvs. json_nums P (json_norm v)" by (fastforce simp: list_all_iff)
  then show ?case using set_go_map [of kvs] by (fastforce simp: go_map_map list_all_iff)
qed (auto simp: list_all_iff)

text \<open>The context with its members in byte order.\<close>
definition sorted_context :: "host_context \<Rightarrow> (string \<times> string) list" where
  "sorted_context c =
     [(''audience'', json_quote (hc_Audience c)), (''confirmed'', bool_text (hc_Confirmed c)),
      (''expires_at'', int_text (hc_ExpiresAt c)), (''idempotency_key'', json_quote (hc_IdempotencyKey c)),
      (''payload_hash'', json_quote (hc_PayloadHash c)), (''signature'', json_quote (hc_Signature c)),
      (''tool'', json_quote (hc_Tool c)), (''version'', int_text (hc_Version c))]"

lemma go_map_places:
  "go_map kis = kjs \<Longrightarrow> go_map (map (\<lambda>(k, i). (k, f i)) kis) = map (\<lambda>(k, i). (k, f i)) kjs"
  by (simp add: go_map_map)

lemma context_order:
  "go_map [(''version'', 0::nat), (''audience'', 1), (''tool'', 2), (''payload_hash'', 3), (''idempotency_key'', 4),
       (''confirmed'', 5), (''expires_at'', 6), (''signature'', 7)]
   = [(''audience'', 1), (''confirmed'', 5), (''expires_at'', 6), (''idempotency_key'', 4), (''payload_hash'', 3),
      (''signature'', 7), (''tool'', 2), (''version'', 0)]"
  by code_simp

lemma envelope_order: "go_map [(''payload'', 0::nat), (''host_context'', 1)] = [(''host_context'', 1), (''payload'', 0)]"
  by code_simp

lemma sorted_context_text:
  assumes "stable L (int_text (hc_Version c))" "stable L (int_text (hc_ExpiresAt c))"
  shows "json_text (f64_text L) (any_value (JObj (context_json c))) = obj_text (sorted_context c)"
proof -
  let ?f = "\<lambda>i. [int_text (hc_Version c), json_quote (hc_Audience c), json_quote (hc_Tool c), json_quote (hc_PayloadHash c),
      json_quote (hc_IdempotencyKey c), bool_text (hc_Confirmed c), int_text (hc_ExpiresAt c), json_quote (hc_Signature c)] ! i"
  have "map (\<lambda>(k, v). (k, json_text (f64_text L) (any_value v))) (context_json c) = map (\<lambda>(k, i). (k, ?f i))
      [(''version'', 0::nat), (''audience'', 1), (''tool'', 2), (''payload_hash'', 3), (''idempotency_key'', 4),
       (''confirmed'', 5), (''expires_at'', 6), (''signature'', 7)]"
    using assms by (simp add: context_json_def stable_def)
  then show ?thesis
    unfolding json_text_any_obj using go_map_places [OF context_order, of ?f] by (simp add: sorted_context_def)
qed

lemma sorted_context_read:
  assumes "context_wf c"
  shows "\<exists>kvs. reads (obj_text (sorted_context c)) (JObj kvs) (Suc d)"
    and "decode_whole (strict_fields context_fields) x (obj_text (sorted_context c)) = Some c"
proof -
  have kvs: "list_all2 (reads_member d) (sorted_context c)
      [(''audience'', JStr (hc_Audience c)), (''confirmed'', JBool (hc_Confirmed c)),
       (''expires_at'', JNum (int_text (hc_ExpiresAt c))), (''idempotency_key'', JStr (hc_IdempotencyKey c)),
       (''payload_hash'', JStr (hc_PayloadHash c)), (''signature'', JStr (hc_Signature c)),
       (''tool'', JStr (hc_Tool c)), (''version'', JNum (int_text (hc_Version c)))]" for d
    using assms by (simp add: sorted_context_def context_wf_def reads_member_def reads_int reads_quote reads_bool
        utf8_ascii bval_Char)
  show "\<exists>kvs. reads (obj_text (sorted_context c)) (JObj kvs) (Suc d)" using reads_obj [OF kvs] by blast
  have "decode_members (strict_fields context_fields) (sorted_context c) x = Some c"
    using assms by (simp add: context_wf_def int64_def sorted_context_def context_fields_def field_defs store_def names_field_def
        bval_Char is_lower_def bchr_eq)
  then show "decode_whole (strict_fields context_fields) x (obj_text (sorted_context c)) = Some c"
    using decode_whole_obj [OF kvs [of 0], of "strict_fields context_fields" x] by (simp add: json_max_depth_def)
qed

abbreviation sent_arguments :: "host_context \<Rightarrow> string \<Rightarrow> string" where
  "sent_arguments h payload \<equiv> obj_text [(''host_context'', obj_text (sorted_context h)), (''payload'', payload)]"

lemma decode_sent:
  assumes "context_wf c" "reads p v d" "Suc d < json_max_depth"
  shows "decode_whole (strict_fields envelope_fields) zero_envelope (sent_arguments c p) = Some \<lparr>te_Payload = p, te_Context = c\<rparr>"
proof -
  obtain kvs where c: "reads (obj_text (sorted_context c)) (JObj kvs) (Suc d)" using sorted_context_read(1) [OF assms(1)] by blast
  have "reads p v (Suc d)" using reads_mono [OF assms(2), of "Suc d"] by simp
  then have "list_all2 (reads_member (Suc d)) [(''host_context'', obj_text (sorted_context c)), (''payload'', p)]
      [(''host_context'', JObj kvs), (''payload'', v)]"
    using c by (simp add: reads_member_def utf8_ascii bval_Char)
  then have "decode_whole (strict_fields envelope_fields) zero_envelope (sent_arguments c p)
      = decode_members (strict_fields envelope_fields) [(''host_context'', obj_text (sorted_context c)), (''payload'', p)] zero_envelope"
    using assms(3) by (rule decode_whole_obj)
  also have "\<dots> = Some \<lparr>te_Payload = p, te_Context = c\<rparr>"
    by (simp add: strict_fields_def [of envelope_fields] find_envelope_field zero_envelope_def sorted_context_read(2) [OF assms(1)])
  finally show ?thesis .
qed

text \<open>What the gateway posts for a wrapped call.\<close>
lemma gateway_arguments_Wrap:
  assumes "Wrap mac L cdc now tool args key confirmed = Inr envelope" "alias_ok (ec_audience cdc)" "utf8 tool" "utf8 key"
    and "int64 (unix_second now + 60)" "canonicalJSON args = Inr canonical" "length canonical \<le> 16384"
    and "stable L ''1''" "stable L (int_text (unix_second now + 60))"
  obtains v kvs h where "json_whole args = Some v" "json_norm (json_norm v) = JObj kvs"
    "reads canonical (JObj kvs) (length canonical div 2)" "json_text (\<lambda>l. l) (JObj kvs) = canonical"
    "h = (let h0 = wrapped_context cdc now tool (payload_hash L canonical) key confirmed
          in h0\<lparr>hc_Signature := hex_encode (mac (ec_secret cdc) (signed_text h0))\<rparr>)" "context_wf h"
    "tool \<noteq> []" "key \<noteq> []" "length key \<le> 256"
    "gateway_arguments L envelope = (if json_nums f64_ok (JObj kvs)
       then Inr (sent_arguments h (json_text (f64_text L) (any_value (JObj kvs)))) else Inl ''invalid signed envelope'')"
proof -
  let ?h = "let h0 = wrapped_context cdc now tool (payload_hash L canonical) key confirmed
          in h0\<lparr>hc_Signature := hex_encode (mac (ec_secret cdc) (signed_text h0))\<rparr>"
  have w: "tool \<noteq> []" "key \<noteq> []" "length key \<le> 256"
      "envelope = obj_text [(''payload'', canonical), (''host_context'', context_text ?h)]"
    using Wrap_Inr [OF assms(1)] assms(6) by (metis sum.inject(2))+
  have wf: "context_wf ?h"
    using assms(2-5) by (simp add: context_wf_def wrapped_context_def int64_def utf8_alias payload_hash_def Let_def)
  have one: "int_text 1 = ''1''" by (simp add: int_text_def nat_text_small digit_char_def bchr_eq bval_Char)
  have ctx: "json_text (f64_text L) (any_value (JObj (context_json ?h))) = obj_text (sorted_context ?h)"
    using assms(8,9) by (intro sorted_context_text) (simp_all add: wrapped_context_def Let_def one)
  have nums: "json_nums f64_ok (JObj (context_json ?h))"
    using assms(8,9) by (simp add: context_json_def wrapped_context_def Let_def one stable_def)
  obtain v kvs where v: "json_whole args = Some v" "json_norm (json_norm v) = JObj kvs"
      "reads canonical (JObj kvs) (length canonical div 2)" "json_text (\<lambda>l. l) (JObj kvs) = canonical"
    using canonical_text(1) [OF assms(6)] by blast
  let ?d = "Suc (length canonical div 2)"
  have "list_all2 (reads_member ?d) [(''payload'', canonical), (''host_context'', context_text ?h)]
      [(''payload'', JObj kvs), (''host_context'', JObj (context_json ?h))]"
    using reads_mono [OF v(3), of ?d] context_text_read [OF wf] by (simp add: reads_member_def utf8_ascii bval_Char)
  then have whole: "json_whole envelope = Some (JObj [(''payload'', JObj kvs), (''host_context'', JObj (context_json ?h))])"
    unfolding w(4) by (rule reads_whole [OF reads_obj]) (use assms(7) in \<open>simp add: json_max_depth_def\<close>)
  let ?f = "\<lambda>i. [json_text (f64_text L) (any_value (JObj kvs)), obj_text (sorted_context ?h)] ! i"
  have "map (\<lambda>(k, v). (k, json_text (f64_text L) (any_value v))) [(''payload'', JObj kvs), (''host_context'', JObj (context_json ?h))]
      = map (\<lambda>(k, i). (k, ?f i)) [(''payload'', 0::nat), (''host_context'', 1)]"
    using ctx by simp
  then have "json_text (f64_text L) (any_value (JObj [(''payload'', JObj kvs), (''host_context'', JObj (context_json ?h))]))
      = sent_arguments ?h (json_text (f64_text L) (any_value (JObj kvs)))"
    unfolding json_text_any_obj [of _ "[_, _]"] using go_map_places [OF envelope_order, of ?f] by simp
  then have "gateway_arguments L envelope = (if json_nums f64_ok (JObj kvs)
       then Inr (sent_arguments ?h (json_text (f64_text L) (any_value (JObj kvs)))) else Inl ''invalid signed envelope'')"
    using nums by (simp add: gateway_arguments_def whole del: any_value.simps json_text.simps)
  then show thesis using that v wf w(1-3) by blast
qed

text \<open>What the server makes of a context that was signed here, with whatever payload.\<close>
lemma Unwrap_decoded:
  assumes "decode_whole (strict_fields envelope_fields) zero_envelope data = Some \<lparr>te_Payload = p, te_Context = h\<rparr>"
    and "h = (let h0 = wrapped_context cdc now tool hash key confirmed
              in h0\<lparr>hc_Signature := hex_encode (mac (ec_secret cdc) (signed_text h0))\<rparr>)"
    and "key \<noteq> []" "length key \<le> 256"
  shows "canonicalPayload L p = Inr (c, hash') \<Longrightarrow> hash' \<noteq> hash \<Longrightarrow> Unwrap mac L cdc now' tool data = Inl ''invalid host context''"
    and "length data \<le> 32768 \<Longrightarrow> unix_second now \<le> unix_second now' \<Longrightarrow> unix_second now' < unix_second now + 60 \<Longrightarrow>
      canonicalPayload L p = Inr (c, hash) \<Longrightarrow> Unwrap mac L cdc now' tool data = Inr (c, key, confirmed)"
proof -
  have h: "hc_PayloadHash h = hash" "hc_Version h = 1" "hc_Audience h = ec_audience cdc" "hc_Tool h = tool"
      "hc_ExpiresAt h = unix_second now + 60" "hc_IdempotencyKey h = key" "hc_Confirmed h = confirmed"
      "hex_decode (hc_Signature h) = Some (mac (ec_secret cdc) (signed_text h))"
    by (simp_all add: assms(2) wrapped_context_def Let_def signed_text_def)
  show "canonicalPayload L p = Inr (c, hash') \<Longrightarrow> hash' \<noteq> hash \<Longrightarrow> Unwrap mac L cdc now' tool data = Inl ''invalid host context''"
    by (simp add: Unwrap_def Let_def assms(1) h)
  show "length data \<le> 32768 \<Longrightarrow> unix_second now \<le> unix_second now' \<Longrightarrow> unix_second now' < unix_second now + 60 \<Longrightarrow>
      canonicalPayload L p = Inr (c, hash) \<Longrightarrow> Unwrap mac L cdc now' tool data = Inr (c, key, confirmed)"
    using assms(3,4) by (simp add: Unwrap_def Let_def assms(1) h)
qed

text \<open>A call through the gateway arrives as it was made, when the numbers of its arguments are
  written the way \<open>encoding/json\<close> writes a \<open>float64\<close>: the arguments the gateway posts are unwrapped by
  the server to the canonical arguments, the key and the confirmation, although the gateway decodes
  and encodes the envelope again on the way and its members change their order.\<close>
theorem gateway_round_trip:
  assumes "Wrap mac L cdc now tool args key confirmed = Inr envelope" "alias_ok (ec_audience cdc)" "utf8 tool" "utf8 key"
    and "int64 (unix_second now + 60)" "canonicalJSON args = Inr canonical" "length canonical \<le> 16384"
    and "stable L ''1''" "stable L (int_text (unix_second now + 60))" "json_whole args = Some v" "json_nums (stable L) v"
    and "gateway_arguments L envelope = Inr arguments" "length arguments \<le> 32768"
    and "unix_second now \<le> unix_second now'" "unix_second now' < unix_second now + 60"
  shows "Unwrap mac L cdc now' tool arguments = Inr (canonical, key, confirmed)"
proof -
  obtain v' kvs h where g: "json_whole args = Some v'" "json_norm (json_norm v') = JObj kvs"
      "reads canonical (JObj kvs) (length canonical div 2)" "json_text (\<lambda>l. l) (JObj kvs) = canonical"
      "h = (let h0 = wrapped_context cdc now tool (payload_hash L canonical) key confirmed
          in h0\<lparr>hc_Signature := hex_encode (mac (ec_secret cdc) (signed_text h0))\<rparr>)" "context_wf h"
      "tool \<noteq> []" "key \<noteq> []" "length key \<le> 256"
      "gateway_arguments L envelope = (if json_nums f64_ok (JObj kvs)
         then Inr (sent_arguments h (json_text (f64_text L) (any_value (JObj kvs)))) else Inl ''invalid signed envelope'')"
    using gateway_arguments_Wrap [OF assms(1-9)] by metis
  have "json_nums (stable L) (JObj kvs)" using json_nums_norm [OF json_nums_norm] assms(10,11) g(1,2) by (metis option.inject)
  then have "json_text (f64_text L) (any_value (JObj kvs)) = canonical" using json_text_stable g(4) by metis
  then have a: "arguments = sent_arguments h canonical" using assms(12) g(10) by (simp split: if_splits)
  have "decode_whole (strict_fields envelope_fields) zero_envelope arguments = Some \<lparr>te_Payload = canonical, te_Context = h\<rparr>"
    unfolding a by (rule decode_sent [OF g(6,3)]) (use assms(7) in \<open>simp add: json_max_depth_def\<close>)
  moreover have "canonicalPayload L canonical = Inr (canonical, payload_hash L canonical)"
    using canonicalJSON_again [OF assms(6,7)] assms(7) by (simp add: canonicalPayload_def)
  ultimately show ?thesis
    using Unwrap_decoded(2) [where mac = mac and cdc = cdc and h = h and data = arguments, OF _ g(5)] g(8,9) assms(13-15) by blast
qed

text \<open>Numbers that do not survive.\<close>
fun json_rewrite :: "(string \<Rightarrow> string) \<Rightarrow> json \<Rightarrow> json" where
  "json_rewrite f (JNum l) = JNum (f l)"
| "json_rewrite f (JArr xs) = JArr (map (json_rewrite f) xs)"
| "json_rewrite f (JObj kvs) = JObj (map (\<lambda>(k, v). (k, json_rewrite f v)) kvs)"
| "json_rewrite f v = v"

lemma map_members:
  assumes "\<And>k v. (k, v) \<in> set kvs \<Longrightarrow> f v = g v"
  shows "map (\<lambda>(k, v). (k, f v)) kvs = map (\<lambda>(k, v). (k, g v)) kvs"
  using assms by (auto intro!: map_cong)

lemma map_members_map: "map (\<lambda>(k, v). (k, f v)) (map (\<lambda>(k, v). (k, g v)) kvs) = map (\<lambda>(k, v). (k, f (g v))) kvs"
  by auto

lemma json_text_rewrite: "json_text (\<lambda>l. l) (json_rewrite f v) = json_text f v"
proof (induction v)
  case (JObj kvs)
  have "map (\<lambda>(k, v). (k, json_text (\<lambda>l. l) (json_rewrite f v))) kvs = map (\<lambda>(k, v). (k, json_text f v)) kvs"
    using JObj by (intro map_members) auto
  then show ?case by (simp only: json_rewrite.simps json_text.simps map_members_map)
qed (auto intro!: arg_cong [of _ _ arr_text])

lemma json_wf_rewrite: "json_wf v \<Longrightarrow> json_nums (\<lambda>l. num_ok (f l)) v \<Longrightarrow> json_wf (json_rewrite f v)"
  by (induction v) (fastforce simp: list_all_iff)+

lemma json_norm_rewrite: "json_norm (json_rewrite f v) = json_rewrite f (json_norm v)"
proof (induction v)
  case (JObj kvs)
  have "map (\<lambda>(k, v). (k, json_norm (json_rewrite f v))) kvs = map (\<lambda>(k, v). (k, json_rewrite f (json_norm v))) kvs"
    using JObj by (intro map_members) auto
  then show ?case
    by (simp only: json_rewrite.simps json_norm.simps map_members_map) (simp only: go_map_map map_members_map)
qed simp_all

lemma json_depth_rewrite: "json_depth (json_rewrite f v) = json_depth v"
proof (induction v)
  case (JObj kvs)
  have "map ((\<lambda>(k, v). json_depth v) \<circ> (\<lambda>(k, v). (k, json_rewrite f v))) kvs = map (\<lambda>(k, v). json_depth v) kvs"
    using JObj by (intro map_cong) auto
  then show ?case by (simp only: json_rewrite.simps json_depth.simps map_map)
next
  case (JArr xs)
  then have "map json_depth (map (json_rewrite f) xs) = map json_depth xs" by simp
  then show ?case by (simp only: json_rewrite.simps json_depth.simps)
qed simp_all

lemma json_rewrite_same: "json_rewrite f v = v \<Longrightarrow> json_nums (\<lambda>l. f l = l) v"
proof (induction v)
  case (JObj kvs)
  have "json_rewrite f v = v" if "(k, v) \<in> set kvs" for k v
    using JObj.prems that by (fastforce simp: map_idI list_eq_iff_nth_eq in_set_conv_nth)
  then show ?case using JObj.IH by (fastforce simp: list_all_iff)
next
  case (JArr xs)
  then have "\<forall>x \<in> set xs. json_rewrite f x = x" by (metis json.inject(4) json_rewrite.simps(2) map_eq_conv map_ident)
  then show ?case using JArr.IH by (simp add: list_all_iff)
qed simp_all

lemma json_norm_again: "json_norm (json_norm v) = json_norm v"
proof (induction v)
  case (JObj kvs)
  have "map (\<lambda>(k, v). (k, json_norm (json_norm v))) kvs = map (\<lambda>(k, v). (k, json_norm v)) kvs"
    using JObj by (intro map_members) auto
  then show ?case
    by (simp only: json_norm.simps go_map_map go_map_go_map map_members_map) (simp only: go_map_map [symmetric] go_map_go_map)
qed simp_all

lemma json_text_any: "json_nums f64_ok v \<Longrightarrow> json_text f (any_value v) = json_text f v"
proof (induction v)
  case (JObj kvs)
  have "map (\<lambda>(k, v). (k, json_text f (any_value v))) kvs = map (\<lambda>(k, v). (k, json_text f v)) kvs"
    using JObj by (intro map_members) (auto simp: list_all_iff)
  then show ?case by (simp only: json_text_any_obj json_text.simps)
qed (auto simp: list_all_iff intro!: arg_cong [of _ _ arr_text])

lemma json_nums_conj: "json_nums P v \<Longrightarrow> json_nums Q v \<Longrightarrow> json_nums (\<lambda>l. P l \<and> Q l) v"
  by (induction v) (fastforce simp: list_all_iff)+

text \<open>What the gateway posts of arguments it signed, and how the server reads them.\<close>
lemma posted_read:
  assumes "canonicalJSON args = Inr canonical" "length canonical \<le> 16384" "json_whole args = Some v"
    and "json_nums (\<lambda>l. num_ok (f l)) (json_norm v)"
  shows "reads (json_text f (json_norm v)) (json_rewrite f (json_norm v)) (length canonical div 2)"
    and "reads canonical (json_norm v) (length canonical div 2)"
    and "\<exists>kvs. json_rewrite f (json_norm v) = JObj kvs"
proof -
  obtain kvs where v: "v = JObj kvs" "canonical = json_text (\<lambda>l. l) v" "json_wf v"
    using canonicalJSON_cases [OF assms(1)] assms(3) by (metis option.inject)
  have wf: "json_wf (json_norm v)" using json_wf_norm [OF v(3)] .
  have d: "json_depth (json_norm v) \<le> length canonical div 2" using depth_length [of v "\<lambda>l. l"] unfolding v(2) by linarith
  have "reads (json_text (\<lambda>l. l) (json_rewrite f (json_norm v))) (json_norm (json_rewrite f (json_norm v))) (length canonical div 2)"
    using d by (intro reads_json_text json_wf_rewrite wf assms(4)) (simp add: json_depth_rewrite)
  then show "reads (json_text f (json_norm v)) (json_rewrite f (json_norm v)) (length canonical div 2)"
    by (simp only: json_text_rewrite json_norm_rewrite json_norm_again)
  show "reads canonical (json_norm v) (length canonical div 2)"
    using reads_json_text [OF wf d] unfolding v(2) by (simp only: json_text_norm json_norm_again)
  show "\<exists>kvs. json_rewrite f (json_norm v) = JObj kvs" by (simp add: v(1))
qed

lemma posted_differs:
  assumes "canonicalJSON args = Inr canonical" "length canonical \<le> 16384" "json_whole args = Some v"
    and "json_nums (\<lambda>l. num_ok (f64_text L l)) (json_norm v)" "json_nums f64_ok (json_norm v)" "\<not> json_nums (stable L) (json_norm v)"
  shows "json_text (f64_text L) (json_norm v) \<noteq> canonical"
proof
  note r = posted_read [OF assms(1-4)]
  assume same: "json_text (f64_text L) (json_norm v) = canonical"
  have "json_rewrite (f64_text L) (json_norm v) = json_norm v"
    using reads_whole [OF r(1)] reads_whole [OF r(2)] assms(2) by (simp add: same json_max_depth_def)
  then have "json_nums (\<lambda>l. f64_text L l = l) (json_norm v)" by (rule json_rewrite_same)
  then have "json_nums (\<lambda>l. f64_ok l \<and> f64_text L l = l) (json_norm v)" using assms(5) json_nums_conj by blast
  then show False using assms(6) by (simp add: stable_def [abs_def])
qed

lemma Unwrap_other_payload:
  assumes "decode_whole (strict_fields envelope_fields) zero_envelope data = Some \<lparr>te_Payload = p, te_Context = h\<rparr>"
    and "\<And>c hash. canonicalPayload L p = Inr (c, hash) \<Longrightarrow> hash \<noteq> hc_PayloadHash h"
  shows "Unwrap mac L cdc now' tool data = Inl ''invalid host context''"
  using assms by (auto simp: Unwrap_def Let_def split: sum.splits)

abbreviation float_args :: string where "float_args \<equiv> obj_text [(''n'', ''1.0'')]"
abbreviation int_args :: string where "int_args \<equiv> obj_text [(''n'', ''1'')]"

lemma args_text: "float_args = [CHR ''{'', bchr 34, CHR ''n'', bchr 34, CHR '':'', CHR ''1'', CHR ''.'', CHR ''0'', CHR ''}'']"
  "int_args = [CHR ''{'', bchr 34, CHR ''n'', bchr 34, CHR '':'', CHR ''1'', CHR ''}'']"
  by (simp_all add: obj_text_def json_quote_def pieces_ascii bval_Char quote_piece_def)

lemma args_read:
  assumes "num_ok l"
  shows "reads (obj_text [(''n'', l)]) (JObj [(''n'', JNum l)]) (Suc 0)"
  by (rule reads_obj) (simp add: reads_member_def reads_num [OF assms] utf8_ascii bval_Char)

lemma args_nums: "num_ok ''1.0''" "num_ok ''1''"
  by (simp_all add: num_ok_def lex_num_def lex_int_def lex_frac_def lex_exp_def lex_digits_def is_digit_def bval_Char)

lemma args_whole: "json_whole float_args = Some (JObj [(''n'', JNum ''1.0'')])" "json_whole int_args = Some (JObj [(''n'', JNum ''1'')])"
  using reads_whole [OF args_read [OF args_nums(1)]] reads_whole [OF args_read [OF args_nums(2)]]
  by (simp_all add: json_max_depth_def)

lemma canonical_args: "canonicalJSON float_args = Inr float_args" "canonicalJSON int_args = Inr int_args"
  unfolding canonicalJSON_def args_whole by (simp_all add: go_map_def)

text \<open>C22. Arguments with a number that \<open>float64\<close> writes in another way do not get through the gateway.
  The host signs the hash of the arguments as they are, but posts them after decoding the envelope
  without \<open>UseNumber\<close>. For any arguments in which some number has no \<open>float64\<close> or is written by
  \<open>encoding/json\<close> otherwise than it stood there, either nothing is posted, or the server refuses
  the call at any time, unless the text posted and the text signed share one hash. That
  \<open>encoding/json\<close> writes a \<open>float64\<close> as a JSON number is assumed.\<close>
theorem gateway_number_refused:
  assumes "Wrap mac L cdc now tool args key confirmed = Inr envelope" "alias_ok (ec_audience cdc)" "utf8 tool" "utf8 key"
    and "int64 (unix_second now + 60)" "canonicalJSON args = Inr canonical" "length canonical \<le> 16384"
    and "stable L ''1''" "stable L (int_text (unix_second now + 60))" "json_whole args = Some v"
    and "json_nums (\<lambda>l. num_ok (f64_text L l)) (json_norm v)" "\<not> json_nums (stable L) (json_norm v)"
    and "payload_hash L (json_text (f64_text L) (json_norm v)) = payload_hash L canonical
           \<Longrightarrow> json_text (f64_text L) (json_norm v) = canonical"
  shows "case gateway_arguments L envelope of
      Inl _ \<Rightarrow> True
    | Inr arguments \<Rightarrow> Unwrap mac L cdc now' tool arguments = Inl ''invalid host context''"
proof (cases "gateway_arguments L envelope")
  case (Inr arguments)
  obtain v' kvs h where g: "json_whole args = Some v'" "json_norm (json_norm v') = JObj kvs"
      "h = (let h0 = wrapped_context cdc now tool (payload_hash L canonical) key confirmed
          in h0\<lparr>hc_Signature := hex_encode (mac (ec_secret cdc) (signed_text h0))\<rparr>)" "context_wf h"
      "gateway_arguments L envelope = (if json_nums f64_ok (JObj kvs)
         then Inr (sent_arguments h (json_text (f64_text L) (any_value (JObj kvs)))) else Inl ''invalid signed envelope'')"
    using gateway_arguments_Wrap [OF assms(1-9)] by metis
  let ?p = "json_text (f64_text L) (json_norm v)"
  have kvs: "JObj kvs = json_norm v" using g(1,2) assms(10) by (simp add: json_norm_again)
  have nums: "json_nums f64_ok (json_norm v)" using g(5) Inr unfolding kvs by (simp split: if_splits)
  then have a: "arguments = sent_arguments h ?p" using g(5) Inr unfolding kvs by (simp add: json_text_any)
  note r = posted_read [OF assms(6,7,10,11)]
  have "decode_whole (strict_fields envelope_fields) zero_envelope arguments = Some \<lparr>te_Payload = ?p, te_Context = h\<rparr>"
    unfolding a by (rule decode_sent [OF g(4) r(1)]) (use assms(7) in \<open>simp add: json_max_depth_def\<close>)
  moreover have "hash \<noteq> hc_PayloadHash h" if "canonicalPayload L ?p = Inr (c, hash)" for c hash
  proof -
    have "json_whole ?p = Some (json_rewrite (f64_text L) (json_norm v))"
      by (rule reads_whole [OF r(1)]) (use assms(7) in \<open>simp add: json_max_depth_def\<close>)
    then have "canonicalJSON ?p = Inr ?p"
      using r(3) json_text_rewrite [of "f64_text L" "json_norm v"] by (auto simp: canonicalJSON_def)
    then have "hash = payload_hash L ?p" using that by (auto simp: canonicalPayload_def split: if_splits)
    then show ?thesis
      using assms(13) posted_differs [OF assms(6,7,10,11) nums assms(12)] by (auto simp: g(3) wrapped_context_def Let_def)
  qed
  ultimately show ?thesis using Unwrap_other_payload Inr by fastforce
qed simp

text \<open>A library that hashes to the text itself and writes \<open>1.0\<close> as \<open>1\<close>.\<close>
definition short_lib :: "unit lib" where
  "short_lib = toy_lib\<lparr>sha256 := (\<lambda>b. b), f64_text := (\<lambda>l. if l = ''1.0'' then ''1'' else l)\<rparr>"

abbreviation toy_mac :: "byte list \<Rightarrow> string \<Rightarrow> byte list" where "toy_mac \<equiv> \<lambda>k m. take 4 (bytes_of m)"

lemma toy_audience: "alias_ok (ec_audience toy_codec)"
  by (simp add: toy_codec_def alias_ok_def is_lower_def is_digit_def bval_Char)

lemma short_stable: "stable short_lib ''1''" "stable short_lib (int_text (unix_second 0 + 60))"
  by (simp_all add: stable_def short_lib_def int_text_def nat_text_small unix_second_def digit_char_def bchr_eq f64_ok_def f64_parts_def
      f64_limit_def digits_val_def digit_val_def is_digit_def bval_Char)

lemma short_wrap: "\<exists>envelope. Wrap toy_mac short_lib toy_codec 0 ''list'' int_args ''k1'' True = Inr envelope"
  "\<exists>envelope. Wrap toy_mac short_lib toy_codec 0 ''list'' float_args ''k1'' True = Inr envelope"
proof -
  have "length float_args \<le> 16384" "length int_args \<le> 16384" unfolding args_text by simp_all
  then show "\<exists>envelope. Wrap toy_mac short_lib toy_codec 0 ''list'' int_args ''k1'' True = Inr envelope"
    "\<exists>envelope. Wrap toy_mac short_lib toy_codec 0 ''list'' float_args ''k1'' True = Inr envelope"
    by (simp_all add: Wrap_def canonicalPayload_def canonical_args Let_def del: obj_text_def)
qed

lemma toy_operation: "utf8 ''list''" "utf8 ''k1''" "int64 (unix_second 0 + 60)"
  by (simp_all add: utf8_ascii bval_Char int64_def unix_second_def)

theorem gateway_number_refused_witness:
  "\<exists>envelope arguments. Wrap toy_mac short_lib toy_codec 0 ''list'' float_args ''k1'' True = Inr envelope
     \<and> gateway_arguments short_lib envelope = Inr arguments
     \<and> Unwrap toy_mac short_lib toy_codec 0 ''list'' arguments = Inl ''invalid host context''"
proof -
  obtain envelope where e: "Wrap toy_mac short_lib toy_codec 0 ''list'' float_args ''k1'' True = Inr envelope"
    using short_wrap(2) by blast
  have len: "length float_args \<le> 16384" unfolding args_text by simp
  let ?v = "JObj [(''n'', JNum ''1.0'')]"
  have norm: "json_norm ?v = ?v" "json_norm (json_norm ?v) = ?v" by (simp_all add: go_map_def)
  have lit: "f64_text short_lib ''1.0'' = ''1''" by (simp add: short_lib_def)
  have bad: "json_nums (\<lambda>l. num_ok (f64_text short_lib l)) (json_norm ?v)" "\<not> json_nums (stable short_lib) (json_norm ?v)"
    unfolding norm by (simp_all add: lit args_nums stable_def)
  have hash: "payload_hash short_lib p = payload_hash short_lib q \<Longrightarrow> p = q" for p q
    by (intro bytes_of_inj) (simp add: payload_hash_def short_lib_def hex_encode_inj)
  have refused: "case gateway_arguments short_lib envelope of Inl _ \<Rightarrow> True
    | Inr arguments \<Rightarrow> Unwrap toy_mac short_lib toy_codec 0 ''list'' arguments = Inl ''invalid host context''"
    by (rule gateway_number_refused [OF e toy_audience toy_operation canonical_args(1) len short_stable args_whole(1) bad hash])
  have "json_nums f64_ok ?v"
    by (simp add: f64_ok_def f64_parts_def f64_limit_def digits_val_def digit_val_def is_digit_def bval_Char)
  moreover obtain v kvs h where g: "json_whole float_args = Some v" "json_norm (json_norm v) = JObj kvs"
      "gateway_arguments short_lib envelope = (if json_nums f64_ok (JObj kvs)
         then Inr (sent_arguments h (json_text (f64_text short_lib) (any_value (JObj kvs)))) else Inl ''invalid signed envelope'')"
    using gateway_arguments_Wrap [OF e toy_audience toy_operation canonical_args(1) len short_stable] by metis
  ultimately obtain arguments where "gateway_arguments short_lib envelope = Inr arguments"
    using args_whole(1) norm(2) by auto
  then show ?thesis using e refused by auto
qed

lemma length_sent_arguments:
  "length (sent_arguments h p) \<le> 1000 + length p + length (json_quote (hc_Audience h)) + length (int_text (hc_ExpiresAt h))
     + length (json_quote (hc_IdempotencyKey h)) + length (json_quote (hc_PayloadHash h)) + length (json_quote (hc_Signature h))
     + length (json_quote (hc_Tool h)) + length (int_text (hc_Version h))"
  by (simp add: obj_text_def sorted_context_def json_quote_def [of "_ # _"] pieces_ascii bval_Char quote_piece_def bool_text_def)

lemma short_arguments:
  assumes "Wrap toy_mac short_lib toy_codec 0 ''list'' int_args ''k1'' True = Inr envelope"
  shows "\<exists>arguments. gateway_arguments short_lib envelope = Inr arguments \<and> length arguments \<le> 32768"
proof -
  have len: "length int_args \<le> 16384" unfolding args_text by simp
  obtain v kvs h where g: "json_whole int_args = Some v" "json_norm (json_norm v) = JObj kvs"
      "h = (let h0 = wrapped_context toy_codec 0 ''list'' (payload_hash short_lib int_args) ''k1'' True
          in h0\<lparr>hc_Signature := hex_encode (toy_mac (ec_secret toy_codec) (signed_text h0))\<rparr>)"
      "gateway_arguments short_lib envelope = (if json_nums f64_ok (JObj kvs)
         then Inr (sent_arguments h (json_text (f64_text short_lib) (any_value (JObj kvs)))) else Inl ''invalid signed envelope'')"
    using gateway_arguments_Wrap [OF assms toy_audience toy_operation canonical_args(2) len short_stable] by metis
  have "v = JObj [(''n'', JNum ''1'')]" using g(1) by (simp add: args_whole)
  then have kvs: "kvs = [(''n'', JNum ''1'')]" using g(2) by (simp add: go_map_def)
  have one: "f64_ok ''1''" "f64_text short_lib ''1'' = ''1''" using short_stable(1) by (simp_all add: stable_def)
  have "gateway_arguments short_lib envelope = Inr (sent_arguments h int_args)"
    by (simp add: g(4) kvs one go_map_def)
  moreover have "length int_args = 7" unfolding args_text by simp
  moreover have "length (json_quote (hc_PayloadHash h)) = 16" "length (json_quote (hc_Signature h)) \<le> 10"
    using \<open>length int_args = 7\<close> by (simp_all add: g(3) Let_def wrapped_context_def json_quote_hex payload_hash_def short_lib_def)
  moreover have "length (json_quote (hc_Audience h)) = 7" "length (json_quote (hc_IdempotencyKey h)) = 4"
      "length (json_quote (hc_Tool h)) = 6" "length (int_text (hc_ExpiresAt h)) = 2" "length (int_text (hc_Version h)) = 1"
    by (simp_all add: g(3) Let_def wrapped_context_def toy_codec_def json_quote_def pieces_ascii bval_Char quote_piece_def
        int_text_def nat_text_small unix_second_def)
  ultimately show ?thesis using length_sent_arguments [of h int_args] by auto
qed

theorem gateway_round_trip_witness:
  "\<exists>envelope arguments. Wrap toy_mac short_lib toy_codec 0 ''list'' int_args ''k1'' True = Inr envelope
     \<and> gateway_arguments short_lib envelope = Inr arguments
     \<and> Unwrap toy_mac short_lib toy_codec (59 * second_ns) ''list'' arguments = Inr (int_args, ''k1'', True)"
proof -
  obtain envelope where e: "Wrap toy_mac short_lib toy_codec 0 ''list'' int_args ''k1'' True = Inr envelope"
    using short_wrap(1) by blast
  obtain arguments where a: "gateway_arguments short_lib envelope = Inr arguments" "length arguments \<le> 32768"
    using short_arguments [OF e] by blast
  have len: "length int_args \<le> 16384" unfolding args_text by simp
  have nums: "json_nums (stable short_lib) (JObj [(''n'', JNum ''1'')])" using short_stable(1) by simp
  have "Unwrap toy_mac short_lib toy_codec (59 * second_ns) ''list'' arguments = Inr (int_args, ''k1'', True)"
    by (rule gateway_round_trip [OF e toy_audience toy_operation canonical_args(2) len short_stable args_whole(2) nums a])
      (simp_all add: unix_second_def second_ns_def)
  then show ?thesis using e a(1) by blast
qed

section \<open>Every tool has its route\<close>

definition client_of :: "(nat \<Rightarrow> error + tool list) \<Rightarrow> nat \<Rightarrow> nat option" where
  "client_of outcome i = (case outcome i of Inl _ \<Rightarrow> None | Inr _ \<Rightarrow> Some i)"

text \<open>A tool of the router: from which server, under which policy, and where its calls go.\<close>
definition tool_routed ::
  "error + registry \<Rightarrow> (nat \<Rightarrow> error + tool list) \<Rightarrow> server_config list \<Rightarrow> tool_route gomap \<Rightarrow> tool \<Rightarrow> bool"
where
  "tool_routed loaded outcome configs routes t \<longleftrightarrow>
     list_ex (\<lambda>(i, cfg). tl_Server t = sc_Alias cfg \<and> tl_OriginalName t \<in> set (sc_AllowedTools cfg)
       \<and> tl_Name t = sc_Alias cfg @ ''.'' @ tl_OriginalName t \<and> trusted_policy loaded (tl_OriginalName t) (tl_HostPolicy t)
       \<and> gget routes (tl_Name t) = Some \<lparr>tr_client = client_of outcome i, tr_original = tl_OriginalName t\<rparr>)
     (enumerate 0 configs)"

definition router_ok ::
  "error + registry \<Rightarrow> (nat \<Rightarrow> error + tool list) \<Rightarrow> server_config list \<Rightarrow> router \<Rightarrow> bool"
where
  "router_ok loaded outcome configs r \<longleftrightarrow> distinct (AllowedTools r) \<and> set (gkeys (ro_routes r)) = set (AllowedTools r)
     \<and> list_all (tool_routed loaded outcome configs (ro_routes r)) (ro_tools r)"

lemma gget_None_keys: "gget m k = None \<longleftrightarrow> k \<notin> set (gkeys m)"
  by (induction m) (auto simp: gkeys_def)

lemma set_gkeys_gput: "set (gkeys (gput k v m)) = insert k (set (gkeys m))"
  by (induction m) (auto simp: gkeys_def)

lemma router_ok_add:
  assumes "router_ok loaded outcome configs r" "(i, cfg) \<in> set (enumerate 0 configs)" "tl_Name t \<in> set (sc_AllowedTools cfg)"
    and "trusted_policy loaded (tl_Name t) (gstr (sc_Policies cfg) (tl_Name t))" "gget (ro_routes r) (tl_Name (routed_tool cfg t)) = None"
  shows "router_ok loaded outcome configs (r\<lparr>ro_routes := gput (tl_Name (routed_tool cfg t))
      \<lparr>tr_client = client_of outcome i, tr_original = tl_Name t\<rparr> (ro_routes r), ro_tools := ro_tools r @ [routed_tool cfg t]\<rparr>)"
proof -
  let ?n = "tl_Name (routed_tool cfg t)"
  let ?routes = "gput ?n \<lparr>tr_client = client_of outcome i, tr_original = tl_Name t\<rparr> (ro_routes r)"
  have new: "?n \<notin> set (AllowedTools r)" using assms(1,5) by (simp add: router_ok_def gget_None_keys)
  have "tool_routed loaded outcome configs ?routes u" if "u \<in> set (ro_tools r)" for u
  proof -
    have "tl_Name u \<in> set (AllowedTools r)" using that by (simp add: AllowedTools_def)
    then have "tl_Name u \<noteq> ?n" using new by metis
    moreover have "tool_routed loaded outcome configs (ro_routes r) u" using assms(1) that by (auto simp: router_ok_def list_all_iff)
    ultimately show ?thesis by (simp add: tool_routed_def)
  qed
  moreover have "tool_routed loaded outcome configs ?routes (routed_tool cfg t)"
    unfolding tool_routed_def list_ex_iff using assms(2-4) by (intro bexI [of _ "(i, cfg)"]) (simp_all add: routed_tool_def)
  ultimately show ?thesis using assms(1) new
    by (auto simp: router_ok_def AllowedTools_def set_gkeys_gput list_all_iff)
qed

lemma route_tools_ok:
  assumes "route_tools cfg (client_of outcome i) seen ts r = Inr r'" "router_ok loaded outcome configs r"
    and "(i, cfg) \<in> set (enumerate 0 configs)" "list_all (\<lambda>n. trusted_policy loaded n (gstr (sc_Policies cfg) n)) (sc_AllowedTools cfg)"
  shows "router_ok loaded outcome configs r'"
  using assms(1,2)
proof (induction ts arbitrary: seen r)
  case (Cons t ts)
  show ?case
  proof (cases "tl_Name t \<in> set (sc_AllowedTools cfg)")
    case False
    then show ?thesis using Cons by simp
  next
    case True
    then have new: "gget (ro_routes r) (tl_Name (routed_tool cfg t)) = None"
      and rest: "route_tools cfg (client_of outcome i) (tl_Name t # seen) ts
        (r\<lparr>ro_routes := gput (tl_Name (routed_tool cfg t)) \<lparr>tr_client = client_of outcome i, tr_original = tl_Name t\<rparr> (ro_routes r),
           ro_tools := ro_tools r @ [routed_tool cfg t]\<rparr>) = Inr r'"
      using Cons.prems(1) by (auto split: if_splits)
    have "trusted_policy loaded (tl_Name t) (gstr (sc_Policies cfg) (tl_Name t))" using assms(4) True by (simp add: list_all_iff)
    then show ?thesis using Cons.IH [OF rest] router_ok_add [OF Cons.prems(2) assms(3) True _ new] by blast
  qed
qed simp

lemma route_servers_ok:
  assumes "route_servers outcome i cfgs r = Inr r'" "router_ok loaded outcome configs r" "drop i configs = cfgs"
    and "list_all (\<lambda>s. list_all (\<lambda>n. trusted_policy loaded n (gstr (sc_Policies s) n)) (sc_AllowedTools s)) configs"
  shows "router_ok loaded outcome configs r'"
  using assms(1-3)
proof (induction cfgs arbitrary: i r)
  case (Cons cfg cfgs)
  have i: "i < length configs" "configs ! i = cfg" "drop (Suc i) configs = cfgs"
    using Cons.prems(3) by (metis drop_all list.distinct(1) not_le, metis nth_via_drop, metis drop_Suc list.sel(3) tl_drop)
  have mem: "(i, cfg) \<in> set (enumerate 0 configs)" using i(1,2) by (auto simp: in_set_enumerate_eq)
  have trusted: "list_all (\<lambda>n. trusted_policy loaded n (gstr (sc_Policies cfg) n)) (sc_AllowedTools cfg)"
    using assms(4) i(1,2) by (auto simp: list_all_length)
  obtain ts r0 r1 where r1: "route_tools cfg (client_of outcome i) [] ts r0 = Inr r1" "route_servers outcome (Suc i) cfgs r1 = Inr r'"
      "router_ok loaded outcome configs r0"
    using Cons.prems(1,2) by (cases "outcome i") (auto simp: client_of_def router_ok_def AllowedTools_def split: sum.splits)
  have "router_ok loaded outcome configs r1" by (rule route_tools_ok [OF r1(1,3) mem trusted])
  then show ?case using Cons.IH [OF r1(2)] i(3) by blast
qed simp

text \<open>C29. A router that starts has at most 32 tools with different names; each is a tool its server's
  configuration allows, named after the server, under the policy of its trusted profile; its calls go
  to that server under the tool's own name, or nowhere when the server did not start; and a call of any
  other name is refused.\<close>
theorem router_sound:
  "case StartServers getenv loaded outcome configs timeout of
     Inl err \<Rightarrow> True
   | Inr r \<Rightarrow> router_ok loaded outcome configs r \<and> length (ro_tools r) \<le> 32
       \<and> (name \<in> set (AllowedTools r) \<or> RouterCall call r name args key confirmed = Inl ''MCP unavailable'')"
proof (cases "StartServers getenv loaded outcome configs timeout")
  case (Inr r)
  then have valid: "ValidateServers getenv loaded configs = None" and run: "route_servers outcome 0 configs empty_router = Inr r"
    and len: "length (ro_tools r) \<le> 32"
    by (auto simp: StartServers_def split: option.splits if_splits sum.splits)
  have "list_all (server_ok getenv loaded) configs"
    using valid servers_error_None [of getenv loaded "[]" configs] by (auto simp: ValidateServers_def split: if_splits)
  then have "list_all (\<lambda>s. list_all (\<lambda>n. trusted_policy loaded n (gstr (sc_Policies s) n)) (sc_AllowedTools s)) configs"
    by (auto simp: list_all_iff server_ok_def tools_ok_def)
  moreover have "router_ok loaded outcome configs empty_router" by (simp add: router_ok_def empty_router_def AllowedTools_def gkeys_def)
  ultimately have ok: "router_ok loaded outcome configs r" using route_servers_ok [OF run] by simp
  then have "gget (ro_routes r) name = None" if "name \<notin> set (AllowedTools r)"
    using that by (simp add: router_ok_def gget_None_keys)
  then show ?thesis using ok len by (cases "name \<in> set (AllowedTools r)") (simp_all add: Inr RouterCall_def)
qed simp

end
