(* ===== verification/Ledger.thy ===== *)
theory Ledger
  imports Mcp_Types
begin

text \<open>
  The retry ledger both stores keep in the table \<open>*_operations\<close>: one row per idempotency key,
  written in the transaction of the effect. The locale states the contract of a store with such a
  ledger and derives that every key takes effect at most once; the notes and agenda stores
  interpret it.
\<close>

record ledger_row =
  lr_name :: string
  lr_args :: string
  lr_result :: string
  lr_completed :: string

type_synonym ledger = "ledger_row gomap"

text \<open>The look-up before a mutation: nothing, the recorded result, or a conflict.\<close>
definition ledger_replay :: "ledger \<Rightarrow> string \<Rightarrow> string \<Rightarrow> string \<Rightarrow> error \<Rightarrow> (error + string) option" where
  "ledger_replay ops key name canonical conflict =
     (case gget ops key of
        None \<Rightarrow> None
      | Some row \<Rightarrow> if lr_name row \<noteq> name \<or> lr_args row \<noteq> canonical then Some (Inl conflict)
                    else Some (Inr (lr_result row)))"

text \<open>
  The transaction both stores run: look the key up, apply the effect, write the row, commit.
  \<open>effect\<close> is what the switch over the tool names makes of the store; an error rolls back.
\<close>
definition ledger_tx ::
  "('s \<Rightarrow> ledger) \<Rightarrow> ((ledger \<Rightarrow> ledger) \<Rightarrow> 's \<Rightarrow> 's) \<Rightarrow> error \<Rightarrow> string \<Rightarrow> string \<Rightarrow> string \<Rightarrow> string
   \<Rightarrow> error option \<Rightarrow> error + 's \<times> string \<Rightarrow> 's \<Rightarrow> 's \<times> (error + string)"
where
  "ledger_tx get upd conflict key name canonical stamp commit effect db =
     (case ledger_replay (get db) key name canonical conflict of
        Some r \<Rightarrow> (db, r)
      | None \<Rightarrow>
        (case effect of
           Inl err \<Rightarrow> (db, Inl err)
         | Inr (db', data) \<Rightarrow>
           (case commit of
              Some err \<Rightarrow> (db, Inl err)
            | None \<Rightarrow> (upd (gput key \<lparr>lr_name = name, lr_args = canonical, lr_result = data,
                          lr_completed = stamp\<rparr>) db', Inr data))))"

text \<open>It leaves the store alone, or the key is new and the effect and its row are written.\<close>
lemma ledger_tx_cases [case_names same new]:
  assumes "(\<And>r. snd (ledger_tx get upd conflict key name canonical stamp commit effect db) = Inr r \<Longrightarrow>
        \<exists>row. gget (get db) key = Some row \<and> lr_name row = name \<and> lr_args row = canonical \<and> lr_result row = r) \<Longrightarrow>
      fst (ledger_tx get upd conflict key name canonical stamp commit effect db) = db \<Longrightarrow> P"
    and "\<And>db' r. gget (get db) key = None \<Longrightarrow> effect = Inr (db', r) \<Longrightarrow>
      ledger_tx get upd conflict key name canonical stamp commit effect db
        = (upd (gput key \<lparr>lr_name = name, lr_args = canonical, lr_result = r, lr_completed = stamp\<rparr>) db', Inr r) \<Longrightarrow> P"
  shows P
proof (cases "gget (get db) key")
  case (Some row)
  then show P by (intro assms(1)) (auto simp: ledger_tx_def ledger_replay_def split: if_splits)
next
  case None
  note none = this
  show P
  proof (cases effect)
    case (Inl err)
    then show P using none by (intro assms(1)) (auto simp: ledger_tx_def ledger_replay_def)
  next
    case (Inr x)
    obtain db' r where x: "x = (db', r)" by force
    show P
    proof (cases commit)
      case None
      then show P using none Inr x by (intro assms(2) [of db' r]) (auto simp: ledger_tx_def ledger_replay_def)
    next
      case (Some err)
      then show P using none Inr x by (intro assms(1)) (auto simp: ledger_tx_def ledger_replay_def)
    qed
  qed
qed

record mutation =
  mu_key :: string
  mu_name :: string
  mu_args :: string
  mu_confirmed :: bool
  mu_fresh :: string
  mu_stamp :: string
  mu_commit :: "error option"

text \<open>What identifies a mutation: its key, its tool and its canonical arguments.\<close>
definition mutation_id :: "'sch lib \<Rightarrow> mutation \<Rightarrow> string \<times> string \<times> string" where
  "mutation_id L m = (mu_key m, mu_name m, canonical_any L (mu_args m))"

text \<open>
  The keys of the calls of a sequence that changed the store, and the calls that succeeded with
  their results.
\<close>
fun effects ::
  "('c \<Rightarrow> 's \<Rightarrow> 's \<times> (error + string)) \<Rightarrow> ('c \<Rightarrow> string \<times> string \<times> string) \<Rightarrow> 's \<Rightarrow> 'c list \<Rightarrow> string list"
where
  "effects app ident s [] = []"
| "effects app ident s (c # cs) =
     (if fst (app c s) \<noteq> s then [fst (ident c)] else []) @ effects app ident (fst (app c s)) cs"

fun answers ::
  "('c \<Rightarrow> 's \<Rightarrow> 's \<times> (error + string)) \<Rightarrow> ('c \<Rightarrow> string \<times> string \<times> string) \<Rightarrow> 's \<Rightarrow> 'c list
   \<Rightarrow> ((string \<times> string \<times> string) \<times> string) list"
where
  "answers app ident s [] = []"
| "answers app ident s (c # cs) =
     (case snd (app c s) of Inr r \<Rightarrow> [(ident c, r)] | Inl _ \<Rightarrow> []) @ answers app ident (fst (app c s)) cs"

text \<open>
  A sequence of calls took effect at most once per key, and its answers with equal keys are equal,
  to the same call.
\<close>
definition at_most_once ::
  "('c \<Rightarrow> 's \<Rightarrow> 's \<times> (error + string)) \<Rightarrow> ('c \<Rightarrow> string \<times> string \<times> string) \<Rightarrow> 's \<Rightarrow> 'c list \<Rightarrow> bool"
where
  "at_most_once app ident s cs \<longleftrightarrow> distinct (effects app ident s cs)
     \<and> list_all (\<lambda>((key, name, args), r). list_all (\<lambda>((key', name', args'), r').
         key = key' \<longrightarrow> name = name' \<and> args = args' \<and> r = r') (answers app ident s cs)) (answers app ident s cs)"

text \<open>
  \<open>call_id\<close> is the key, name and canonical arguments of a call; \<open>apply\<close> is one call with its
  environment (random ids, clock, outcome of the commit).
\<close>
locale idempotent_store =
  fixes apply_call :: "'c \<Rightarrow> 's \<Rightarrow> 's \<times> (error + string)"
    and call_id :: "'c \<Rightarrow> string \<times> string \<times> string"
    and ledger_of :: "'s \<Rightarrow> ledger"
  assumes fail_frame: "snd (apply_call c s) = Inl err \<Longrightarrow> fst (apply_call c s) = s"
    and recorded: "snd (apply_call c s) = Inr r \<Longrightarrow> call_id c = (key, name, args) \<Longrightarrow>
      \<exists>row. gget (ledger_of (fst (apply_call c s))) key = Some row \<and> lr_name row = name \<and> lr_args row = args
        \<and> lr_result row = r"
    and replayed: "gget (ledger_of s) (fst (call_id c)) = Some row \<Longrightarrow> fst (apply_call c s) = s"
    and kept: "gget (ledger_of s) key = Some row \<Longrightarrow> gget (ledger_of (fst (apply_call c s))) key = Some row"
begin

lemma effect_recorded:
  assumes "fst (apply_call c s) \<noteq> s"
  shows "gget (ledger_of s) (fst (call_id c)) = None" "gget (ledger_of (fst (apply_call c s))) (fst (call_id c)) \<noteq> None"
proof -
  obtain key name args where i: "call_id c = (key, name, args)" by (metis prod_cases3)
  show "gget (ledger_of s) (fst (call_id c)) = None"
    using assms replayed[of s c] by (cases "gget (ledger_of s) (fst (call_id c))") auto
  show "gget (ledger_of (fst (apply_call c s))) (fst (call_id c)) \<noteq> None"
    using assms fail_frame[of c s] recorded[OF _ i] i by (cases "snd (apply_call c s)") fastforce+
qed

lemma effects_fresh: "key \<in> set (effects apply_call call_id s cs) \<Longrightarrow> gget (ledger_of s) key = None"
proof (induction cs arbitrary: s)
  case (Cons c cs)
  then consider "fst (apply_call c s) \<noteq> s" "key = fst (call_id c)" | "key \<in> set (effects apply_call call_id (fst (apply_call c s)) cs)"
    by (auto split: if_splits)
  then show ?case
  proof cases
    case 1
    then show ?thesis using effect_recorded(1)[of c s] by simp
  next
    case 2
    then have "gget (ledger_of (fst (apply_call c s))) key = None" by (rule Cons.IH)
    then show ?thesis using kept[of s key _ c] by (cases "gget (ledger_of s) key") auto
  qed
qed simp

lemma effects_distinct: "distinct (effects apply_call call_id s cs)"
proof (induction cs arbitrary: s)
  case (Cons c cs)
  then show ?case
    using effects_fresh[of "fst (call_id c)" "fst (apply_call c s)" cs] effect_recorded(2)[of c s] by auto
qed simp

text \<open>Every later answer under a recorded key is the recorded one.\<close>
lemma answers_recorded:
  "gget (ledger_of s) key = Some row \<Longrightarrow> ((key, name, args), r) \<in> set (answers apply_call call_id s cs) \<Longrightarrow>
     name = lr_name row \<and> args = lr_args row \<and> r = lr_result row"
proof (induction cs arbitrary: s)
  case (Cons c cs)
  have later: "gget (ledger_of (fst (apply_call c s))) key = Some row"
    using Cons.prems(1) by (rule kept)
  show ?case
  proof (cases "((key, name, args), r) \<in> set (answers apply_call call_id (fst (apply_call c s)) cs)")
    case True
    then show ?thesis using later Cons.IH by blast
  next
    case False
    then have "snd (apply_call c s) = Inr r" "call_id c = (key, name, args)"
      using Cons.prems(2) by (auto split: sum.splits)
    then show ?thesis using recorded[of c s r key name args] later by auto
  qed
qed simp

lemma answers_agree:
  "((key, name, args), r) \<in> set (answers apply_call call_id s cs) \<Longrightarrow> ((key, name', args'), r') \<in> set (answers apply_call call_id s cs) \<Longrightarrow>
     name = name' \<and> args = args' \<and> r = r'"
proof (induction cs arbitrary: s)
  case (Cons c cs)
  show ?case
  proof (cases "fst (call_id c) = key \<and> (\<exists>q. snd (apply_call c s) = Inr q)")
    case True
    then obtain q n a where q: "snd (apply_call c s) = Inr q" "call_id c = (key, n, a)"
      by (metis prod.collapse)
    obtain row where row: "gget (ledger_of (fst (apply_call c s))) key = Some row"
      "lr_name row = n" "lr_args row = a" "lr_result row = q"
      using recorded[OF q] by blast
    have "x = n \<and> y = a \<and> z = q" if "((key, x, y), z) \<in> set (answers apply_call call_id s (c # cs))" for x y z
      using that q answers_recorded[OF row(1), of x y z cs] row(2-4) by auto
    then show ?thesis using Cons.prems by blast
  next
    case False
    then have "((key, x, y), z) \<in> set (answers apply_call call_id (fst (apply_call c s)) cs)"
      if "((key, x, y), z) \<in> set (answers apply_call call_id s (c # cs))" for x y z
      using that by (cases "call_id c"; cases "snd (apply_call c s)") auto
    then show ?thesis using Cons by blast
  qed
qed simp

lemma calls_at_most_once: "at_most_once apply_call call_id s cs"
  using effects_distinct answers_agree by (fastforce simp: at_most_once_def list_all_iff)

end

end
