(* ===== verification/Agenda.thy ===== *)
theory Agenda
  imports Ledger Go_Time
begin

text \<open>
  The agenda tool server, \<open>apps/mcp-agenda\<close>: the calendar rules of \<open>scheduling/model.go\<close>, the
  store of \<open>sqlite/store.go\<close> and the tool handler of \<open>adapters/mcp/server.go\<close>.

  The tables are lists of rows. A mutation is one SQLite transaction: \<open>commit\<close> is its outcome, and
  an error rolls it back. \<open>tz\<close> is the offset of America/Sao_Paulo in seconds at a Unix time,
  \<open>fresh\<close> is what \<open>rand.Text()\<close> returns and \<open>stamp\<close> the completion time that is stored.
\<close>

section \<open>Scheduling\<close>

definition AgendaTimezone :: string where "AgendaTimezone = ''America/Sao_Paulo''"

record agenda_event =
  av_StartLocal :: string
  av_EndLocal :: string
  av_ID :: string
  av_Title :: string
  av_Start :: string
  av_End :: string
  av_Status :: string

record agenda_input =
  ai_ID :: string
  ai_Title :: string
  ai_Start :: string
  ai_End :: string
  ai_Duration :: int

definition zero_agenda_input :: agenda_input where
  "zero_agenda_input = \<lparr>ai_ID = [], ai_Title = [], ai_Start = [], ai_End = [], ai_Duration = 0\<rparr>"

definition agenda_input_fields :: "agenda_input fields" where
  "agenda_input_fields =
     [string_field ''id'' (\<lambda>v x. x\<lparr>ai_ID := v\<rparr>),
      string_field ''title'' (\<lambda>v x. x\<lparr>ai_Title := v\<rparr>),
      string_field ''start'' (\<lambda>v x. x\<lparr>ai_Start := v\<rparr>),
      string_field ''end'' (\<lambda>v x. x\<lparr>ai_End := v\<rparr>),
      int_field ''duration_minutes'' (\<lambda>v x. x\<lparr>ai_Duration := v\<rparr>)]"

text \<open>\<open>Interval\<close>: the Unix seconds of the two instants.\<close>
definition Interval :: "string \<Rightarrow> string \<Rightarrow> error + int \<times> int" where
  "Interval start end =
     (case (parse_rfc3339 start, parse_rfc3339 end) of
        (Some (a, na), Some (b, nb)) \<Rightarrow>
          (let da = a * second_ns + int na; db = b * second_ns + int nb in
           if \<not> da < db \<or> db - da > 31 * 24 * 60 * minute_ns \<or> na \<noteq> 0 \<or> nb \<noteq> 0
           then Inl ''invalid_interval'' else Inr (a, b))
      | _ \<Rightarrow> Inl ''invalid_interval'')"

definition local_day :: "(int \<Rightarrow> int) \<Rightarrow> int \<Rightarrow> int" where
  "local_day tz t = (t + tz t) div 86400"

definition local_second :: "(int \<Rightarrow> int) \<Rightarrow> int \<Rightarrow> int" where
  "local_second tz t = (t + tz t) mod 86400"

text \<open>\<open>time.Weekday\<close>: Sunday is 0; 1970-01-01 was a Thursday.\<close>
definition weekday :: "int \<Rightarrow> int" where "weekday day = (day + 4) mod 7"

definition Available :: "(int \<Rightarrow> int) \<Rightarrow> int \<Rightarrow> int \<Rightarrow> bool" where
  "Available tz a b \<longleftrightarrow>
     weekday (local_day tz a) \<noteq> 6 \<and> weekday (local_day tz a) \<noteq> 0
     \<and> date_text (civil (local_day tz a)) = date_text (civil (local_day tz b))
     \<and> local_second tz a div 3600 \<ge> 9
     \<and> (local_second tz b div 3600 < 18
        \<or> local_second tz b div 3600 = 18 \<and> local_second tz b div 60 mod 60 = 0 \<and> local_second tz b mod 60 = 0)
     \<and> b - a \<le> 8 * 3600"

text \<open>The zero \<open>time.Time\<close> stands for a text that does not parse.\<close>
definition parsed_or_zero :: "string \<Rightarrow> int" where
  "parsed_or_zero s = (case parse_rfc3339 s of Some (t, _) \<Rightarrow> t | None \<Rightarrow> - 62135596800)"

definition LocalTimes :: "(int \<Rightarrow> int) \<Rightarrow> agenda_event \<Rightarrow> agenda_event" where
  "LocalTimes tz e =
     (let a = parsed_or_zero (av_Start e); b = parsed_or_zero (av_End e)
      in e\<lparr>av_StartLocal := format_rfc3339 (tz a) a, av_EndLocal := format_rfc3339 (tz b) b\<rparr>)"

definition agenda_event_text :: "agenda_event \<Rightarrow> string" where
  "agenda_event_text e = obj_text
     [(''start_local'', json_quote (av_StartLocal e)), (''end_local'', json_quote (av_EndLocal e)),
      (''id'', json_quote (av_ID e)), (''title'', json_quote (av_Title e)),
      (''start'', json_quote (av_Start e)), (''end'', json_quote (av_End e)),
      (''status'', json_quote (av_Status e))]"

section \<open>The store\<close>

record agenda_row =
  ar_id :: string
  ar_title :: string
  ar_start :: int
  ar_end :: int
  ar_status :: string

record agenda_db =
  ag_events :: "agenda_row list"
  ag_operations :: ledger

definition empty_agenda :: agenda_db where
  "empty_agenda = \<lparr>ag_events = [], ag_operations = []\<rparr>"

definition SeedFixtures :: "agenda_db \<Rightarrow> agenda_db" where
  "SeedFixtures db =
     (if ''fixture-2030'' \<in> set (map ar_id (ag_events db)) then db
      else db\<lparr>ag_events := ag_events db @
        [\<lparr>ar_id = ''fixture-2030'',
          ar_title = ''Reuni'' @ encode_rune 227 @ ''o fict'' @ encode_rune 237 @ ''cia'',
          ar_start = 1905166800, ar_end = 1905170400, ar_status = ''active''\<rparr>]\<rparr>)"

definition overlaps :: "agenda_row \<Rightarrow> int \<Rightarrow> int \<Rightarrow> bool" where
  "overlaps r a b \<longleftrightarrow> ar_status r = ''active'' \<and> ar_start r < b \<and> ar_end r > a"

definition agendaConflict :: "agenda_db \<Rightarrow> int \<Rightarrow> int \<Rightarrow> bool" where
  "agendaConflict db a b \<longleftrightarrow> list_ex (\<lambda>r. overlaps r a b) (ag_events db)"

definition event_of_row :: "(int \<Rightarrow> int) \<Rightarrow> agenda_row \<Rightarrow> agenda_event" where
  "event_of_row tz r = LocalTimes tz \<lparr>av_StartLocal = [], av_EndLocal = [], av_ID = ar_id r,
     av_Title = ar_title r, av_Start = format_rfc3339 0 (ar_start r), av_End = format_rfc3339 0 (ar_end r),
     av_Status = ar_status r\<rparr>"

definition Events :: "(int \<Rightarrow> int) \<Rightarrow> agenda_db \<Rightarrow> string \<Rightarrow> string \<Rightarrow> error + agenda_event list" where
  "Events tz db start end =
     (case Interval start end of
        Inl err \<Rightarrow> Inl err
      | Inr (a, b) \<Rightarrow>
          Inr (map (event_of_row tz) (take 100 (sort_key ar_start (sort_key ar_id
            (filter (\<lambda>r. ar_start r < b \<and> ar_end r > a) (ag_events db)))))))"

definition slot_event :: "(int \<Rightarrow> int) \<Rightarrow> int \<Rightarrow> int \<Rightarrow> agenda_event" where
  "slot_event tz x y = LocalTimes tz \<lparr>av_StartLocal = [], av_EndLocal = [], av_ID = [], av_Title = [],
     av_Start = format_rfc3339 0 x, av_End = format_rfc3339 0 y, av_Status = ''available''\<rparr>"

text \<open>The loop over the 15-minute grid from \<open>x\<close>; \<open>n\<close> slots may still be added.\<close>
function slots_loop :: "(int \<Rightarrow> int) \<Rightarrow> agenda_db \<Rightarrow> int \<Rightarrow> int \<Rightarrow> nat \<Rightarrow> int \<Rightarrow> (int \<times> int) list" where
  "slots_loop tz db dur b n x =
     (if x + dur > b \<or> n = 0 then []
      else if \<not> Available tz x (x + dur) then slots_loop tz db dur b n (x + 900)
      else if agendaConflict db x (x + dur) then slots_loop tz db dur b n (x + 900)
      else (x, x + dur) # slots_loop tz db dur b (n - 1) (x + 900))"
  by pat_completeness auto
termination
  by (relation "measure (\<lambda>(tz, db, dur, b, n, x). nat (b - dur - x + 1))") auto

declare slots_loop.simps [simp del]

definition slot_times :: "(int \<Rightarrow> int) \<Rightarrow> agenda_db \<Rightarrow> agenda_input \<Rightarrow> error + (int \<times> int) list" where
  "slot_times tz db i =
     (case Interval (ai_Start i) (ai_End i) of
        Inl err \<Rightarrow> Inl err
      | Inr (a, b) \<Rightarrow>
          if ai_Duration i < 15 \<or> ai_Duration i > 240 \<or> ai_Duration i mod 15 \<noteq> 0
          then Inl ''invalid_duration''
          else Inr (slots_loop tz db (ai_Duration i * 60) b 100 a))"

definition Slots :: "(int \<Rightarrow> int) \<Rightarrow> agenda_db \<Rightarrow> agenda_input \<Rightarrow> error + agenda_event list" where
  "Slots tz db i = map_sum id (map (\<lambda>(x, y). slot_event tz x y)) (slot_times tz db i)"

section \<open>Mutations\<close>

definition create_event ::
  "(int \<Rightarrow> int) \<Rightarrow> string \<Rightarrow> agenda_input \<Rightarrow> agenda_db \<Rightarrow> error + agenda_db \<times> string"
where
  "create_event tz fresh i db =
     (case Interval (ai_Start i) (ai_End i) of
        Inl err \<Rightarrow> Inl err
      | Inr (a, b) \<Rightarrow>
          if trim_space (ai_Title i) = [] \<or> length (ai_Title i) > 256 then Inl ''invalid_title''
          else if \<not> Available tz a b then Inl ''outside_availability''
          else if agendaConflict db a b then Inl ''slot_conflict''
          else if fresh \<in> set (map ar_id (ag_events db))
          then Inl ''UNIQUE constraint failed: agenda_events.id''
          else
            (let event = LocalTimes tz \<lparr>av_StartLocal = [], av_EndLocal = [], av_ID = fresh,
                   av_Title = ai_Title i, av_Start = format_rfc3339 0 a, av_End = format_rfc3339 0 b,
                   av_Status = ''active''\<rparr>
             in Inr (db\<lparr>ag_events := ag_events db @ [\<lparr>ar_id = fresh, ar_title = ai_Title i,
                       ar_start = a, ar_end = b, ar_status = ''active''\<rparr>]\<rparr>,
                     obj_text [(''event'', agenda_event_text event), (''status'', json_quote ''created''),
                               (''timezone'', json_quote AgendaTimezone)])))"

definition cancel_row :: "string \<Rightarrow> agenda_row \<Rightarrow> agenda_row" where
  "cancel_row k r = (if ar_id r = k \<and> ar_status r = ''active'' then r\<lparr>ar_status := ''cancelled''\<rparr> else r)"

definition cancel_event :: "agenda_input \<Rightarrow> agenda_db \<Rightarrow> error + agenda_db \<times> string" where
  "cancel_event i db =
     (if length (filter (\<lambda>r. ar_id r = ai_ID i \<and> ar_status r = ''active'') (ag_events db)) \<noteq> 1
      then Inl ''event_not_found''
      else Inr (db\<lparr>ag_events := map (cancel_row (ai_ID i)) (ag_events db)\<rparr>,
                obj_text [(''id'', json_quote (ai_ID i)), (''status'', json_quote ''cancelled'')]))"

definition MutateAgenda ::
  "'sch lib \<Rightarrow> (int \<Rightarrow> int) \<Rightarrow> string \<Rightarrow> string \<Rightarrow> error option \<Rightarrow> string \<Rightarrow> string \<Rightarrow> string \<Rightarrow> bool
   \<Rightarrow> agenda_db \<Rightarrow> agenda_db \<times> (error + string)"
where
  "MutateAgenda L tz fresh stamp commit key name args confirmed db =
     (if key = [] \<or> length key > 256 then (db, Inl ''invalid_key'')
      else (case unmarshal agenda_input_fields zero_agenda_input args of
          None \<Rightarrow> (db, Inl ''invalid_arguments'')
        | Some i \<Rightarrow>
          if name = ''agenda.cancel_event'' \<and> \<not> confirmed then (db, Inl ''confirmation_required'')
          else
            ledger_tx ag_operations ag_operations_update ''idempotency_conflict'' key name
              (canonical_any L args) stamp commit
              (if name = ''agenda.create_event'' then create_event tz fresh i db
               else if name = ''agenda.cancel_event'' then cancel_event i db
               else Inl ''unknown_mutation'') db))"

section \<open>The tool handler\<close>

definition agenda_codes :: "string list" where
  "agenda_codes = [''invalid_interval'', ''outside_availability'', ''slot_conflict'', ''event_not_found'',
     ''confirmation_required'', ''idempotency_conflict'', ''invalid_title'', ''invalid_key'']"

definition events_result :: "string \<Rightarrow> agenda_event list \<Rightarrow> result" where
  "events_result member es = TextResult (obj_text
     (sort_key fst [(member, arr_text (map agenda_event_text es)), (''status'', json_quote ''ok''),
       (''timezone'', json_quote AgendaTimezone)])) False"

definition agenda_call ::
  "'sch lib \<Rightarrow> (int \<Rightarrow> int) \<Rightarrow> string \<Rightarrow> string \<Rightarrow> error option \<Rightarrow> string \<Rightarrow> string \<Rightarrow> string \<Rightarrow> bool
   \<Rightarrow> agenda_db \<Rightarrow> agenda_db \<times> result"
where
  "agenda_call L tz fresh stamp commit name args key confirmed db =
     (let i = unmarshal_lenient agenda_input_fields zero_agenda_input args in
      if name = ''agenda.list_events'' then
        (db, case Events tz db (ai_Start i) (ai_End i) of
               Inl _ \<Rightarrow> Failure ''invalid_interval_or_storage''
             | Inr es \<Rightarrow> events_result ''events'' es)
      else if name = ''agenda.list_slots'' then
        (db, case Slots tz db i of
               Inl _ \<Rightarrow> Failure ''invalid_interval_or_storage''
             | Inr es \<Rightarrow> events_result ''slots'' es)
      else
        (case MutateAgenda L tz fresh stamp commit key name args confirmed db of
           (db', Inl err) \<Rightarrow>
             (db', Failure (if err \<in> set agenda_codes then err else ''mutation_failed''))
         | (db', Inr data) \<Rightarrow> (db', TextResult (json_compact data) False)))"

section \<open>Every key takes effect once\<close>

definition agenda_apply :: "'sch lib \<Rightarrow> (int \<Rightarrow> int) \<Rightarrow> mutation \<Rightarrow> agenda_db \<Rightarrow> agenda_db \<times> (error + string)" where
  "agenda_apply L tz m = MutateAgenda L tz (mu_fresh m) (mu_stamp m) (mu_commit m) (mu_key m) (mu_name m)
     (mu_args m) (mu_confirmed m)"

lemma create_event_ledger: "create_event tz fresh i db = Inr (db', r) \<Longrightarrow> ag_operations db' = ag_operations db"
  by (auto simp: create_event_def Let_def split: sum.splits if_splits)

lemma cancel_event_ledger: "cancel_event i db = Inr (db', r) \<Longrightarrow> ag_operations db' = ag_operations db"
  by (auto simp: cancel_event_def split: if_splits)

text \<open>A mutation leaves the store alone, or it is new and writes its effect and its row.\<close>
lemma MutateAgenda_cases:
  obtains (same) "fst (MutateAgenda L tz fresh stamp commit key name args ok db) = db"
      "\<And>r. snd (MutateAgenda L tz fresh stamp commit key name args ok db) = Inr r \<Longrightarrow>
        \<exists>row. gget (ag_operations db) key = Some row \<and> lr_name row = name \<and> lr_args row = canonical_any L args
          \<and> lr_result row = r"
  | (new) i db' r where "gget (ag_operations db) key = None"
      "unmarshal agenda_input_fields zero_agenda_input args = Some i"
      "name = ''agenda.create_event'' \<and> create_event tz fresh i db = Inr (db', r)
        \<or> name = ''agenda.cancel_event'' \<and> ok \<and> cancel_event i db = Inr (db', r)"
      "ag_operations db' = ag_operations db"
      "MutateAgenda L tz fresh stamp commit key name args ok db =
        (db'\<lparr>ag_operations := gput key \<lparr>lr_name = name, lr_args = canonical_any L args,
            lr_result = r, lr_completed = stamp\<rparr> (ag_operations db)\<rparr>, Inr r)"
proof (cases "(key = [] \<or> length key > 256) \<or> unmarshal agenda_input_fields zero_agenda_input args = None
      \<or> (name = ''agenda.cancel_event'' \<and> \<not> ok)")
  case True
  then show thesis
    by (intro same) (auto simp: MutateAgenda_def split: option.splits if_splits)
next
  case False
  then obtain i where i: "unmarshal agenda_input_fields zero_agenda_input args = Some i" by auto
  define eff where "eff = (if name = ''agenda.create_event'' then create_event tz fresh i db
    else if name = ''agenda.cancel_event'' then cancel_event i db else Inl ''unknown_mutation'')"
  have m: "MutateAgenda L tz fresh stamp commit key name args ok db =
      ledger_tx ag_operations ag_operations_update ''idempotency_conflict'' key name (canonical_any L args) stamp commit eff db"
    using False i by (auto simp: MutateAgenda_def eff_def)
  show thesis
  proof (cases rule: ledger_tx_cases [of ag_operations ag_operations_update "''idempotency_conflict''" key name
        "canonical_any L args" stamp commit eff db])
    case same
    then show thesis by (intro that(1)) (simp_all add: m)
  next
    case (new db' r)
    have e: "name = ''agenda.create_event'' \<and> create_event tz fresh i db = Inr (db', r)
        \<or> name = ''agenda.cancel_event'' \<and> ok \<and> cancel_event i db = Inr (db', r)"
      using new(2) False by (auto simp: eff_def split: if_splits)
    then have "ag_operations db' = ag_operations db"
      using create_event_ledger cancel_event_ledger by blast
    moreover have "ag_operations_update f db' = db'\<lparr>ag_operations := f (ag_operations db')\<rparr>" for f
      by (cases db') simp
    ultimately show thesis using e new i by (intro that(2) [of i db' r]) (auto simp: m)
  qed
qed

lemmas agenda_cases [case_names same new] = MutateAgenda_cases [of L tz "mu_fresh c" "mu_stamp c" "mu_commit c" "mu_key c"
  "mu_name c" "mu_args c" "mu_confirmed c" s for L tz and c :: mutation and s :: agenda_db]

interpretation agenda_ops: idempotent_store "agenda_apply L tz" "mutation_id L" ag_operations
  for L :: "'sch lib" and tz
proof
  fix c :: mutation and s err
  assume "snd (agenda_apply L tz c s) = Inl err"
  then show "fst (agenda_apply L tz c s) = s"
    unfolding agenda_apply_def by (cases rule: agenda_cases [of L tz c s]) auto
next
  fix c :: mutation and s r key name args
  assume "snd (agenda_apply L tz c s) = Inr r" "mutation_id L c = (key, name, args)"
  then show "\<exists>row. gget (ag_operations (fst (agenda_apply L tz c s))) key = Some row \<and> lr_name row = name
      \<and> lr_args row = args \<and> lr_result row = r"
    unfolding agenda_apply_def mutation_id_def
    by (cases rule: agenda_cases [of L tz c s]) auto
next
  fix c :: mutation and s :: agenda_db and row
  assume "gget (ag_operations s) (fst (mutation_id L c)) = Some row"
  then show "fst (agenda_apply L tz c s) = s"
    unfolding agenda_apply_def mutation_id_def by (cases rule: agenda_cases [of L tz c s]) auto
next
  fix c :: mutation and s :: agenda_db and key row
  assume "gget (ag_operations s) key = Some row"
  then show "gget (ag_operations (fst (agenda_apply L tz c s))) key = Some row"
    unfolding agenda_apply_def
    by (cases rule: agenda_cases [of L tz c s]) auto
qed

text \<open>
  Retries are safe: in any sequence of agenda mutations on any store, whatever the arguments,
  clocks and commit failures, at most one call changes the store under one idempotency key, and
  all calls that succeed with that key are the same tool on the same canonical arguments and
  get the same result.
\<close>
theorem agenda_at_most_once: "at_most_once (agenda_apply L tz) (mutation_id L) db ms"
  by (rule agenda_ops.calls_at_most_once)

section \<open>No double booking\<close>

text \<open>Two rows do not both hold the same time.\<close>
definition apart :: "agenda_row \<Rightarrow> agenda_row \<Rightarrow> bool" where
  "apart r r' \<longleftrightarrow> ar_status r \<noteq> ''active'' \<or> ar_status r' \<noteq> ''active''
     \<or> ar_end r \<le> ar_start r' \<or> ar_end r' \<le> ar_start r"

definition row_ok :: "agenda_row \<Rightarrow> bool" where
  "row_ok r \<longleftrightarrow> ar_start r < ar_end r \<and> (ar_status r = ''active'' \<or> ar_status r = ''cancelled'')"

definition agenda_ok :: "agenda_db \<Rightarrow> bool" where
  "agenda_ok db \<longleftrightarrow> distinct (map ar_id (ag_events db)) \<and> list_all row_ok (ag_events db)
     \<and> sorted_wrt apart (ag_events db) \<and> gwf (ag_operations db)"

lemma cancel_row_simps [simp]:
  "ar_id (cancel_row k r) = ar_id r" "ar_start (cancel_row k r) = ar_start r" "ar_end (cancel_row k r) = ar_end r"
  by (simp_all add: cancel_row_def)

lemma cancel_row_ok: "row_ok r \<Longrightarrow> row_ok (cancel_row k r)"
  by (simp add: row_ok_def cancel_row_def)

lemma cancel_row_apart: "apart r r' \<Longrightarrow> apart (cancel_row k r) (cancel_row k r')"
  by (auto simp: apart_def cancel_row_def)

lemma create_event_ok:
  assumes "create_event tz fresh i db = Inr (db', r)" "agenda_ok db"
  shows "agenda_ok db'"
proof -
  obtain a b where ab: "Interval (ai_Start i) (ai_End i) = Inr (a, b)" "\<not> agendaConflict db a b"
    "fresh \<notin> set (map ar_id (ag_events db))"
    and db': "ag_events db' = ag_events db @ [\<lparr>ar_id = fresh, ar_title = ai_Title i,
                       ar_start = a, ar_end = b, ar_status = ''active''\<rparr>]" "ag_operations db' = ag_operations db"
    using assms(1) by (auto simp: create_event_def Let_def split: sum.splits if_splits)
  have "a < b" using ab(1) by (auto simp: Interval_def Let_def second_ns_def split: option.splits if_splits)
  moreover have "\<forall>x \<in> set (ag_events db). apart x \<lparr>ar_id = fresh, ar_title = ai_Title i,
                       ar_start = a, ar_end = b, ar_status = ''active''\<rparr>"
    using ab(2) by (auto simp: agendaConflict_def list_ex_iff overlaps_def apart_def)
  ultimately show ?thesis
    using assms(2) ab(3) by (auto simp: agenda_ok_def db' row_ok_def sorted_wrt_append)
qed

lemma cancel_event_ok:
  assumes "cancel_event i db = Inr (db', r)" "agenda_ok db"
  shows "agenda_ok db'"
proof -
  have db': "db' = db\<lparr>ag_events := map (cancel_row (ai_ID i)) (ag_events db)\<rparr>"
    using assms(1) by (auto simp: cancel_event_def split: if_splits)
  have "sorted_wrt (\<lambda>x y. apart (cancel_row (ai_ID i) x) (cancel_row (ai_ID i) y)) (ag_events db)"
    using assms(2) by (auto simp: agenda_ok_def intro: sorted_wrt_mono_rel [of _ apart] cancel_row_apart)
  then show ?thesis
    using assms(2) by (auto simp: db' agenda_ok_def list_all_iff comp_def sorted_wrt_map intro: cancel_row_ok)
qed

lemma agenda_apply_ok [invariants]: "agenda_ok db \<Longrightarrow> agenda_ok (fst (agenda_apply L tz m db))"
  unfolding agenda_apply_def
proof (cases rule: agenda_cases [of L tz m db])
  case (new i db' r)
  assume "agenda_ok db"
  then have "agenda_ok db'" using new(3) create_event_ok cancel_event_ok by blast
  then show "agenda_ok (fst (MutateAgenda L tz (mu_fresh m) (mu_stamp m) (mu_commit m) (mu_key m) (mu_name m)
      (mu_args m) (mu_confirmed m) db))"
    using new(4) by (simp add: new(5) agenda_ok_def)
qed simp

interpretation agenda_machine: machine "\<lambda>db m. fst (agenda_apply L tz m db)" agenda_ok
  for L :: "'sch lib" and tz
  by unfold_locales (rule agenda_apply_ok)

lemma agenda_start_ok: "agenda_ok empty_agenda" "agenda_ok (SeedFixtures empty_agenda)"
  by (simp_all add: agenda_ok_def empty_agenda_def SeedFixtures_def row_ok_def)

text \<open>
  No double booking: from an empty store, seeded with the fixtures or not, after any sequence
  of mutations the active events are pairwise disjoint in time, every event ends after it starts
  and is active or cancelled, and event ids are unique.
\<close>
theorem agenda_no_double_booking:
  "agenda_ok (foldl (\<lambda>db m. fst (agenda_apply L tz m db)) (if seed then SeedFixtures empty_agenda else empty_agenda) ms)"
  by (rule agenda_machine.run_inv) (simp add: agenda_start_ok)

section \<open>Slots\<close>

lemma slot_event_times [simp]:
  "av_Start (slot_event tz x y) = format_rfc3339 0 x" "av_End (slot_event tz x y) = format_rfc3339 0 y"
  by (simp_all add: slot_event_def LocalTimes_def Let_def)

text \<open>The specification: the grid of starts that fit, and the starts that are bookable.\<close>
definition grid :: "int \<Rightarrow> int \<Rightarrow> int \<Rightarrow> int list" where
  "grid a b dur = map (\<lambda>k. a + 900 * int k) [0..<nat ((b - dur - a) div 900 + 1)]"

definition bookable :: "(int \<Rightarrow> int) \<Rightarrow> agenda_db \<Rightarrow> int \<Rightarrow> int \<Rightarrow> bool" where
  "bookable tz db dur x \<longleftrightarrow> Available tz x (x + dur) \<and> \<not> agendaConflict db x (x + dur)"

lemma grid_step: "grid a b dur = (if a + dur > b then [] else a # grid (a + 900) b dur)"
proof (cases "a + dur > b")
  case True
  then have "(b - dur - a) div 900 < 0" by (simp add: div_neg_pos_less0)
  then show ?thesis using True by (simp add: grid_def)
next
  case False
  define m where "m = (b - dur - (a + 900)) div 900 + 1"
  have "(b - dur - a) div 900 = m"
    by (simp add: m_def algebra_simps flip: div_add_self2)
  moreover have "0 \<le> (b - dur - a) div 900" using False by (simp add: pos_imp_zdiv_nonneg_iff)
  ultimately have n: "nat ((b - dur - a) div 900 + 1) = Suc (nat m)" by simp
  have "grid a b dur = a # map (\<lambda>k. a + 900 * int k) (map Suc [0..<nat m])"
    by (simp add: grid_def n upt_conv_Cons map_Suc_upt del: upt_Suc)
  also have "map (\<lambda>k. a + 900 * int k) (map Suc [0..<nat m]) = grid (a + 900) b dur"
    unfolding grid_def m_def map_map comp_def by (rule map_cong) (simp_all add: algebra_simps)
  finally show ?thesis using False by simp
qed

lemma slots_loop_exact:
  "slots_loop tz db dur b n a = take n (map (\<lambda>x. (x, x + dur)) (filter (bookable tz db dur) (grid a b dur)))"
proof (induction tz db dur b n a rule: slots_loop.induct)
  case (1 tz db dur b n a)
  show ?case
  proof (cases "a + dur > b \<or> n = 0")
    case True
    then show ?thesis by (auto simp: slots_loop.simps [of tz db dur b n a] grid_step [of a b dur])
  next
    case False
    then have "slots_loop tz db dur b n a = (if bookable tz db dur a then (a, a + dur) # slots_loop tz db dur b (n - 1) (a + 900)
        else slots_loop tz db dur b n (a + 900))"
      by (simp add: slots_loop.simps [of tz db dur b n a] bookable_def)
    then show ?thesis
      using False 1 by (cases n) (auto simp: grid_step [of a b dur] bookable_def)
  qed
qed

text \<open>
  C37. \<open>Slots\<close> returns exactly the first hundred bookable starts of the 15-minute grid from the
  requested start: each with the requested duration, inside the requested interval, in working
  hours and free of active events, in order, none missing before the hundredth.
\<close>
theorem slots_exact:
  "Slots tz db i =
     (case Interval (ai_Start i) (ai_End i) of
        Inl err \<Rightarrow> Inl err
      | Inr (a, b) \<Rightarrow>
          (let dur = ai_Duration i * 60 in
           if ai_Duration i \<in> {15 .. 240} \<and> 15 dvd ai_Duration i
           then Inr (map (\<lambda>x. slot_event tz x (x + dur)) (take 100 (filter (bookable tz db dur) (grid a b dur))))
           else Inl ''invalid_duration''))"
  by (auto simp: Slots_def slot_times_def slots_loop_exact Let_def take_map dvd_eq_mod_eq_0 split: sum.split)

lemma year_at_mono:
  assumes "s \<le> t"
  shows "year_at s \<le> year_at t"
proof -
  have y: "year_at u = year_of (u div 86400)" for u
    by (simp add: year_at_def civil_def Let_def)
  have "s div 86400 \<le> t div 86400" using assms by (rule zdiv_mono1) simp
  then show ?thesis
    using year_of_bounds [of "s div 86400"] year_of_bounds [of "t div 86400"]
      year_start_mono [of "year_of (t div 86400) + 1" "year_of (s div 86400)"]
    unfolding y by linarith
qed

text \<open>
  A slot that was offered can be booked: creating an event with the start and end texts of
  the offered slot, a valid title and an unused id succeeds on the store that offered it (for
  requests within the years 0 to 9999).
\<close>
theorem offered_slot_bookable:
  assumes "Slots tz db i = Inr es" "e \<in> set es"
    and "Interval (ai_Start i) (ai_End i) = Inr (a, b)" "0 \<le> year_at a" "year_at b \<le> 9999"
    and "ai_Start j = av_Start e" "ai_End j = av_End e"
    and "trim_space (ai_Title j) \<noteq> []" "length (ai_Title j) \<le> 256"
    and "fresh \<notin> set (map ar_id (ag_events db))"
  shows "\<exists>db' r. create_event tz fresh j db = Inr (db', r)"
proof -
  define dur where "dur = ai_Duration i * 60"
  have dur: "900 \<le> dur" "dur \<le> 14400"
    using assms(1,3) by (auto simp: Slots_def slot_times_def dur_def split: if_splits)
  obtain x where x: "x \<in> set (grid a b dur)" "bookable tz db dur x" "e = slot_event tz x (x + dur)"
    using assms(1-3) by (auto simp: Slots_def slot_times_def slots_loop_exact dur_def split: if_splits dest!: in_set_takeD)
  obtain k where k: "x = a + 900 * int k" "int k < (b - dur - a) div 900 + 1"
    using x(1) by (auto simp: grid_def)
  have "900 * ((b - dur - a) div 900) \<le> b - dur - a" by (rule div_bounds) simp
  then have "a \<le> x" "x + dur \<le> b" using k by linarith+
  then have "0 \<le> year_at x" "year_at x \<le> 9999" "0 \<le> year_at (x + dur)" "year_at (x + dur) \<le> 9999"
    using assms(4,5) dur year_at_mono [of a x] year_at_mono [of x b] year_at_mono [of a "x + dur"]
      year_at_mono [of "x + dur" b] by linarith+
  then have "parse_rfc3339 (av_Start e) = Some (x, 0)" "parse_rfc3339 (av_End e) = Some (x + dur, 0)"
    by (simp_all add: x(3) parse_format_rfc3339)
  then have "Interval (ai_Start j) (ai_End j) = Inr (x, x + dur)"
    using dur assms(6,7) by (simp add: Interval_def Let_def second_ns_def minute_ns_def algebra_simps)
  then show ?thesis
    using x(2) assms(8-10) by (simp add: create_event_def Let_def bookable_def not_less)
qed

text \<open>A Monday of 2030 at the offset of Brasilia.\<close>
definition monday_request :: agenda_input where
  "monday_request = zero_agenda_input\<lparr>ai_Start := ''2030-05-20T12:00:00Z'',
     ai_End := ''2030-05-20T13:00:00Z'', ai_Duration := 60\<rparr>"

theorem offered_slot_bookable_witness:
  "\<exists>db' r. create_event (\<lambda>_. - 10800) ''id-1'' (monday_request\<lparr>ai_Title := ''Review''\<rparr>) empty_agenda = Inr (db', r)"
proof (rule offered_slot_bookable [where i = monday_request and a = 1905508800 and b = 1905512400
      and es = "[slot_event (\<lambda>_. - 10800) 1905508800 1905512400]"
      and e = "slot_event (\<lambda>_. - 10800) 1905508800 1905512400"])
  have monday: "civil 22054 = (2030, 5, 20)" by code_simp
  have digits: "digit_char 0 = CHR ''0''" "digit_char (Suc 0) = CHR ''1''" "digit_char 2 = CHR ''2''"
    "digit_char 3 = CHR ''3''" "digit_char 5 = CHR ''5''"
    by code_simp+
  show i: "Interval (ai_Start monday_request) (ai_End monday_request) = Inr (1905508800, 1905512400)"
    by code_simp
  have "grid 1905508800 1905512400 3600 = [1905508800]" "ai_Duration monday_request = 60"
    by code_simp+
  moreover have "bookable (\<lambda>_. - 10800) empty_agenda 3600 1905508800"
    by (simp add: bookable_def Available_def local_day_def local_second_def weekday_def agendaConflict_def empty_agenda_def)
  ultimately show "Slots (\<lambda>_. - 10800) empty_agenda monday_request = Inr [slot_event (\<lambda>_. - 10800) 1905508800 1905512400]"
    using i by (simp add: Slots_def slot_times_def slots_loop_exact)
  show "0 \<le> year_at 1905508800" "year_at 1905512400 \<le> 9999"
    by code_simp+
  show "ai_Start (monday_request\<lparr>ai_Title := ''Review''\<rparr>) = av_Start (slot_event (\<lambda>_. - 10800) 1905508800 1905512400)"
    "ai_End (monday_request\<lparr>ai_Title := ''Review''\<rparr>) = av_End (slot_event (\<lambda>_. - 10800) 1905508800 1905512400)"
    by (simp_all add: monday_request_def format_rfc3339_def monday clock_text_def
        date_text_def year_text_def zone_text_def pad_def nat_text_small digits)
  show "trim_space (ai_Title (monday_request\<lparr>ai_Title := ''Review''\<rparr>)) \<noteq> []"
    "length (ai_Title (monday_request\<lparr>ai_Title := ''Review''\<rparr>)) \<le> 256"
    "''id-1'' \<notin> set (map ar_id (ag_events empty_agenda))"
    by (simp_all add: monday_request_def zero_agenda_input_def empty_agenda_def trim_space_def pieces_ascii
        flatten_def is_space_def bval_Char)
qed simp

end
