(* ===== verification/Notes.thy ===== *)
theory Notes
  imports Ledger
begin

text \<open>
  The notes tool server, \<open>apps/mcp-notes\<close>: \<open>notes/model.go\<close>, the store of \<open>sqlite/store.go\<close>
  and the tool handler of \<open>adapters/mcp/server.go\<close>. As for the agenda, a mutation is one
  transaction with the outcome \<open>mu_commit\<close>; \<open>stamp\<close> is the text of the current time.
\<close>

record note_row =
  nt_ID :: string
  nt_Title :: string
  nt_Content :: string
  nt_CreatedAt :: string

definition note_text :: "note_row \<Rightarrow> string" where
  "note_text n = obj_text [(''id'', json_quote (nt_ID n)), (''title'', json_quote (nt_Title n)),
     (''content'', json_quote (nt_Content n)), (''created_at'', json_quote (nt_CreatedAt n))]"

definition ValidateNote :: "string \<Rightarrow> string \<Rightarrow> error option" where
  "ValidateNote title content =
     (if trim_space title = [] \<or> length title > 256 \<or> trim_space content = [] \<or> length content > 8192
      then Some ''invalid note'' else None)"

record notes_db =
  nd_notes :: "note_row list"
  nd_operations :: ledger

definition empty_notes :: notes_db where "empty_notes = \<lparr>nd_notes = [], nd_operations = []\<rparr>"

text \<open>SQLite's \<open>lower\<close> folds ASCII letters only.\<close>
definition sql_lower :: "string \<Rightarrow> string" where
  "sql_lower s = map (\<lambda>c. if is_upper c then bchr (bval c + 32) else c) s"

definition NotesList :: "notes_db \<Rightarrow> string \<Rightarrow> note_row list" where
  "NotesList db query = take 100 (sort_key nt_CreatedAt (sort_key nt_ID
     (filter (\<lambda>n. contains_sub (sql_lower (nt_Title n @ '' '' @ nt_Content n)) (sql_lower query)) (nd_notes db))))"

record note_input =
  ni_Title :: string
  ni_Content :: string
  ni_ID :: string

definition zero_note_input :: note_input where
  "zero_note_input = \<lparr>ni_Title = [], ni_Content = [], ni_ID = []\<rparr>"

definition note_input_fields :: "note_input fields" where
  "note_input_fields =
     [string_field ''title'' (\<lambda>v x. x\<lparr>ni_Title := v\<rparr>),
      string_field ''content'' (\<lambda>v x. x\<lparr>ni_Content := v\<rparr>),
      string_field ''id'' (\<lambda>v x. x\<lparr>ni_ID := v\<rparr>)]"

definition create_note :: "string \<Rightarrow> string \<Rightarrow> note_input \<Rightarrow> notes_db \<Rightarrow> error + notes_db \<times> string" where
  "create_note fresh stamp i db =
     (if ValidateNote (ni_Title i) (ni_Content i) \<noteq> None then Inl ''invalid note''
      else if fresh \<in> set (map nt_ID (nd_notes db)) then Inl ''UNIQUE constraint failed: notes.id''
      else
        (let n = \<lparr>nt_ID = fresh, nt_Title = ni_Title i, nt_Content = ni_Content i, nt_CreatedAt = stamp\<rparr>
         in Inr (db\<lparr>nd_notes := nd_notes db @ [n]\<rparr>,
                 obj_text [(''note'', note_text n), (''status'', json_quote ''created'')])))"

definition delete_note :: "note_input \<Rightarrow> notes_db \<Rightarrow> error + notes_db \<times> string" where
  "delete_note i db =
     (if ni_ID i = [] then Inl ''note id required''
      else if length (filter (\<lambda>n. nt_ID n = ni_ID i) (nd_notes db)) \<noteq> 1 then Inl ''note not found''
      else Inr (db\<lparr>nd_notes := filter (\<lambda>n. nt_ID n \<noteq> ni_ID i) (nd_notes db)\<rparr>,
                obj_text [(''id'', json_quote (ni_ID i)), (''status'', json_quote ''deleted'')]))"

definition MutateNotes ::
  "'sch lib \<Rightarrow> string \<Rightarrow> string \<Rightarrow> error option \<Rightarrow> string \<Rightarrow> string \<Rightarrow> string \<Rightarrow> notes_db \<Rightarrow> notes_db \<times> (error + string)"
where
  "MutateNotes L fresh stamp commit key name args db =
     (if key = [] \<or> length key > 256 then (db, Inl ''invalid idempotency key'')
      else (case unmarshal note_input_fields zero_note_input args of
          None \<Rightarrow> (db, Inl ''invalid arguments'')
        | Some i \<Rightarrow>
          if \<not> snd (unmarshal_any args) then (db, Inl ''invalid JSON number'')
          else
            ledger_tx nd_operations nd_operations_update ''idempotency conflict'' key name
              (canonical_any L args) stamp commit
              (if name = ''notes.create'' then create_note fresh stamp i db
               else if name = ''notes.delete'' then delete_note i db
               else Inl ''unknown mutation'') db))"

definition notes_query :: "string \<Rightarrow> string" where
  "notes_query args = unmarshal_lenient [string_field ''query'' (\<lambda>v _. v)] [] args"

definition notes_call ::
  "'sch lib \<Rightarrow> string \<Rightarrow> string \<Rightarrow> error option \<Rightarrow> string \<Rightarrow> string \<Rightarrow> string \<Rightarrow> bool \<Rightarrow> notes_db \<Rightarrow> notes_db \<times> result"
where
  "notes_call L fresh stamp commit name args key confirmed db =
     (if name = ''notes.list'' then
        (db, TextResult (obj_text [(''notes'', arr_text (map note_text (NotesList db (notes_query args)))),
               (''status'', json_quote ''ok'')]) False)
      else if name = ''notes.delete'' \<and> \<not> confirmed then (db, Failure ''confirmation_required'')
      else (case MutateNotes L fresh stamp commit key name args db of
          (db', Inl _) \<Rightarrow> (db', Failure ''mutation_failed'')
        | (db', Inr data) \<Rightarrow> (db', TextResult (json_compact data) False)))"

section \<open>Every key takes effect once\<close>

definition notes_apply :: "'sch lib \<Rightarrow> mutation \<Rightarrow> notes_db \<Rightarrow> notes_db \<times> (error + string)" where
  "notes_apply L m = MutateNotes L (mu_fresh m) (mu_stamp m) (mu_commit m) (mu_key m) (mu_name m) (mu_args m)"

lemma note_effect_ledger:
  "create_note fresh stamp i db = Inr (db', r) \<Longrightarrow> nd_operations db' = nd_operations db"
  "delete_note i db = Inr (db', r) \<Longrightarrow> nd_operations db' = nd_operations db"
  by (auto simp: create_note_def delete_note_def Let_def split: if_splits)

text \<open>A mutation leaves the store alone, or its key is new and it writes its effect and its row.\<close>
lemma notes_cases [case_names same new]:
  assumes "fst (notes_apply L m db) = db \<Longrightarrow>
      (\<And>r. snd (notes_apply L m db) = Inr r \<Longrightarrow> \<exists>row. gget (nd_operations db) (mu_key m) = Some row
         \<and> lr_name row = mu_name m \<and> lr_args row = canonical_any L (mu_args m) \<and> lr_result row = r) \<Longrightarrow> P"
    and "\<And>i db' r. gget (nd_operations db) (mu_key m) = None \<Longrightarrow>
      unmarshal note_input_fields zero_note_input (mu_args m) = Some i \<Longrightarrow>
      mu_name m = ''notes.create'' \<and> create_note (mu_fresh m) (mu_stamp m) i db = Inr (db', r)
        \<or> mu_name m = ''notes.delete'' \<and> delete_note i db = Inr (db', r) \<Longrightarrow>
      nd_operations db' = nd_operations db \<Longrightarrow>
      notes_apply L m db = (db'\<lparr>nd_operations := gput (mu_key m) \<lparr>lr_name = mu_name m,
          lr_args = canonical_any L (mu_args m), lr_result = r, lr_completed = mu_stamp m\<rparr> (nd_operations db)\<rparr>, Inr r) \<Longrightarrow> P"
  shows P
proof (cases "(mu_key m = [] \<or> length (mu_key m) > 256) \<or> unmarshal note_input_fields zero_note_input (mu_args m) = None
      \<or> \<not> snd (unmarshal_any (mu_args m))")
  case True
  then show P
    by (intro assms(1)) (auto simp: notes_apply_def MutateNotes_def split: option.splits if_splits)
next
  case False
  then obtain i where i: "unmarshal note_input_fields zero_note_input (mu_args m) = Some i" by auto
  define eff where "eff = (if mu_name m = ''notes.create'' then create_note (mu_fresh m) (mu_stamp m) i db
    else if mu_name m = ''notes.delete'' then delete_note i db else Inl ''unknown mutation'')"
  have tx: "notes_apply L m db = ledger_tx nd_operations nd_operations_update ''idempotency conflict'' (mu_key m)
      (mu_name m) (canonical_any L (mu_args m)) (mu_stamp m) (mu_commit m) eff db"
    using False i by (auto simp: notes_apply_def MutateNotes_def eff_def)
  show P
  proof (cases rule: ledger_tx_cases [of nd_operations nd_operations_update "''idempotency conflict''" "mu_key m"
        "mu_name m" "canonical_any L (mu_args m)" "mu_stamp m" "mu_commit m" eff db])
    case same
    then show P by (intro assms(1)) (simp_all add: tx)
  next
    case (new db' r)
    have e: "mu_name m = ''notes.create'' \<and> create_note (mu_fresh m) (mu_stamp m) i db = Inr (db', r)
        \<or> mu_name m = ''notes.delete'' \<and> delete_note i db = Inr (db', r)"
      using new(2) by (auto simp: eff_def split: if_splits)
    then have "nd_operations db' = nd_operations db" using note_effect_ledger by blast
    moreover have "nd_operations_update f db' = db'\<lparr>nd_operations := f (nd_operations db')\<rparr>" for f
      by (cases db') simp
    ultimately show P using e new i by (intro assms(2) [of i db' r]) (auto simp: tx)
  qed
qed

interpretation notes_ops: idempotent_store "notes_apply L" "mutation_id L" nd_operations
  for L :: "'sch lib"
proof
  fix c :: mutation and s err
  assume "snd (notes_apply L c s) = Inl err"
  then show "fst (notes_apply L c s) = s" by (cases rule: notes_cases [of L c s]) auto
next
  fix c :: mutation and s r key name args
  assume "snd (notes_apply L c s) = Inr r" "mutation_id L c = (key, name, args)"
  then show "\<exists>row. gget (nd_operations (fst (notes_apply L c s))) key = Some row \<and> lr_name row = name
      \<and> lr_args row = args \<and> lr_result row = r"
    unfolding mutation_id_def by (cases rule: notes_cases [of L c s]) auto
next
  fix c :: mutation and s :: notes_db and row
  assume "gget (nd_operations s) (fst (mutation_id L c)) = Some row"
  then show "fst (notes_apply L c s) = s"
    unfolding mutation_id_def by (cases rule: notes_cases [of L c s]) auto
next
  fix c :: mutation and s :: notes_db and key row
  assume "gget (nd_operations s) key = Some row"
  then show "gget (nd_operations (fst (notes_apply L c s))) key = Some row"
    by (cases rule: notes_cases [of L c s]) auto
qed

text \<open>
  Retries of note mutations are safe: in any sequence of calls on any store at most one call
  changes the store under one idempotency key, and all calls that succeed with that key are the
  same tool on the same canonical arguments with the same result.
\<close>
theorem notes_at_most_once: "at_most_once (notes_apply L) (mutation_id L) db ms"
  by (rule notes_ops.calls_at_most_once)

section \<open>The notes that are kept\<close>

definition notes_ok :: "notes_db \<Rightarrow> bool" where
  "notes_ok db \<longleftrightarrow> distinct (map nt_ID (nd_notes db))
     \<and> list_all (\<lambda>n. ValidateNote (nt_Title n) (nt_Content n) = None) (nd_notes db)"

lemma notes_apply_ok [invariants]: "notes_ok db \<Longrightarrow> notes_ok (fst (notes_apply L m db))"
proof (cases rule: notes_cases [of L m db])
  case (new i db' r)
  assume "notes_ok db"
  then have "notes_ok db'" using new(3)
    by (auto simp: notes_ok_def create_note_def delete_note_def Let_def list_all_iff distinct_map_filter split: if_splits)
  then show "notes_ok (fst (notes_apply L m db))" by (simp add: new(5) notes_ok_def)
qed simp

interpretation notes_machine: machine "\<lambda>db m. fst (notes_apply L m db)" notes_ok
  for L :: "'sch lib"
  by unfold_locales (rule notes_apply_ok)

lemma notes_ok_runs: "notes_ok (foldl (\<lambda>db m. fst (notes_apply L m db)) empty_notes ms)"
  by (rule notes_machine.run_inv) (simp add: notes_ok_def empty_notes_def)

end
