(* ===== verification/Tool_Servers.thy ===== *)
theory Tool_Servers
  imports Mcp_Server Agenda Notes
begin

text \<open>
  The two tool servers as they run: the handlers of \<open>adapters/mcp/server.go\<close> behind \<open>ServeTools\<close>
  and what \<open>cmd/mcp-agenda/main.go\<close> and \<open>cmd/mcp-notes/main.go\<close> start. The n-th call of a handler
  takes its random id, its clock and the outcome of its commit from \<open>rnd n\<close>; opening the database
  is the argument \<open>opened\<close>.
\<close>

type_synonym call_env = "string \<times> string \<times> error option"

section \<open>Handlers\<close>

definition agenda_handler ::
  "'sch lib \<Rightarrow> (int \<Rightarrow> int) \<Rightarrow> (nat \<Rightarrow> call_env) \<Rightarrow> handler_call \<Rightarrow> agenda_db \<times> nat \<Rightarrow> (agenda_db \<times> nat) \<times> result"
where
  "agenda_handler L tz rnd c st =
     (case (st, rnd (snd st)) of ((db, n), (fresh, stamp, commit)) \<Rightarrow>
        (case agenda_call L tz fresh stamp commit (hl_Name c) (hl_Args c) (hl_Key c) (hl_Confirmed c) db of
           (db', r) \<Rightarrow> ((db', Suc n), r)))"

definition notes_handler ::
  "'sch lib \<Rightarrow> (nat \<Rightarrow> call_env) \<Rightarrow> handler_call \<Rightarrow> notes_db \<times> nat \<Rightarrow> (notes_db \<times> nat) \<times> result"
where
  "notes_handler L rnd c st =
     (case (st, rnd (snd st)) of ((db, n), (fresh, stamp, commit)) \<Rightarrow>
        (case notes_call L fresh stamp commit (hl_Name c) (hl_Args c) (hl_Key c) (hl_Confirmed c) db of
           (db', r) \<Rightarrow> ((db', Suc n), r)))"

definition ServeAgenda ::
  "(byte list \<Rightarrow> string \<Rightarrow> byte list) \<Rightarrow> 'sch lib \<Rightarrow> envelope_codec option \<Rightarrow> tool list \<Rightarrow> (int \<Rightarrow> int)
   \<Rightarrow> (nat \<Rightarrow> call_env) \<Rightarrow> (nat \<Rightarrow> serve_env) \<Rightarrow> string \<Rightarrow> agenda_db
   \<Rightarrow> (server \<times> agenda_db \<times> nat) \<times> serve_event list \<times> error option"
where
  "ServeAgenda mac L cdc tools tz rnd env input db =
     ServeTools mac L cdc ''sts-agenda'' tools (agenda_handler L tz rnd) env input (db, 0)"

definition ServeNotes ::
  "(byte list \<Rightarrow> string \<Rightarrow> byte list) \<Rightarrow> 'sch lib \<Rightarrow> envelope_codec option \<Rightarrow> tool list \<Rightarrow> (nat \<Rightarrow> call_env)
   \<Rightarrow> (nat \<Rightarrow> serve_env) \<Rightarrow> string \<Rightarrow> notes_db \<Rightarrow> (server \<times> notes_db \<times> nat) \<times> serve_event list \<times> error option"
where
  "ServeNotes mac L cdc tools rnd env input db =
     ServeTools mac L cdc ''sts-notes'' tools (notes_handler L rnd) env input (db, 0)"

section \<open>The commands\<close>

text \<open>\<open>strconv.ParseBool\<close>\<close>
definition parse_bool :: "string \<Rightarrow> bool option" where
  "parse_bool s =
     (if s \<in> set [''1'', ''t'', ''T'', ''true'', ''TRUE'', ''True''] then Some True
      else if s \<in> set [''0'', ''f'', ''F'', ''false'', ''FALSE'', ''False''] then Some False else None)"

text \<open>The flag \<open>-fixtures\<close> and the variable \<open>STS_AGENDA_FIXTURES\<close>.\<close>
definition fixtures_on :: "bool \<Rightarrow> string \<Rightarrow> bool option" where
  "fixtures_on flag raw =
     (if raw = [] then Some flag
      else if raw = ''enabled'' \<or> raw = ''disabled'' then Some (flag \<or> raw = ''enabled'')
      else map_option (\<lambda>b. flag \<or> b) (parse_bool raw))"

text \<open>\<open>main\<close> of the agenda: what it logs before it exits with 1, or the run of the server.\<close>
definition agenda_main ::
  "(byte list \<Rightarrow> string \<Rightarrow> byte list) \<Rightarrow> 'sch lib \<Rightarrow> tool list \<Rightarrow> (int \<Rightarrow> int) \<Rightarrow> (nat \<Rightarrow> call_env) \<Rightarrow> (nat \<Rightarrow> serve_env)
   \<Rightarrow> bool \<Rightarrow> string \<Rightarrow> string \<Rightarrow> string \<Rightarrow> error + agenda_db \<Rightarrow> error option \<Rightarrow> string
   \<Rightarrow> string + (server \<times> agenda_db \<times> nat) \<times> serve_event list \<times> error option"
where
  "agenda_main mac L tools tz rnd env fixtures fixturesEnv mode secret opened seeded input =
     (case fixtures_on fixtures fixturesEnv of
        None \<Rightarrow> Inl ''invalid agenda fixtures configuration''
      | Some seed \<Rightarrow>
        (case ServerEnvelope secret mode ''local'' of
           Inl _ \<Rightarrow> Inl ''invalid MCP context configuration''
         | Inr cdc \<Rightarrow>
           (case opened of
              Inl _ \<Rightarrow> Inl ''cannot open agenda database''
            | Inr db \<Rightarrow>
                if seed \<and> seeded \<noteq> None then Inl ''cannot seed fixtures''
                else Inr (ServeAgenda mac L cdc tools tz rnd env input (if seed then SeedFixtures db else db)))))"

definition notes_main ::
  "(byte list \<Rightarrow> string \<Rightarrow> byte list) \<Rightarrow> 'sch lib \<Rightarrow> tool list \<Rightarrow> (nat \<Rightarrow> call_env) \<Rightarrow> (nat \<Rightarrow> serve_env)
   \<Rightarrow> string \<Rightarrow> string \<Rightarrow> error + notes_db \<Rightarrow> string
   \<Rightarrow> string + (server \<times> notes_db \<times> nat) \<times> serve_event list \<times> error option"
where
  "notes_main mac L tools rnd env mode secret opened input =
     (case ServerEnvelope secret mode ''memo'' of
        Inl _ \<Rightarrow> Inl ''invalid MCP context configuration''
      | Inr cdc \<Rightarrow>
        (case opened of
           Inl _ \<Rightarrow> Inl ''cannot open notes database''
         | Inr db \<Rightarrow> Inr (ServeNotes mac L cdc tools rnd env input db)))"

section \<open>The state of a server is that of its calls\<close>

fun calls_of :: "serve_event list \<Rightarrow> handler_call list" where
  "calls_of [] = []"
| "calls_of (Did (Called c) # tr) = c # calls_of tr"
| "calls_of (x # tr) = calls_of tr"

lemma calls_of_append: "calls_of (a @ b) = calls_of a @ calls_of b"
  by (induction a rule: calls_of.induct) simp_all

abbreviation run_calls :: "(handler_call \<Rightarrow> 's \<Rightarrow> 's \<times> result) \<Rightarrow> 's \<Rightarrow> handler_call list \<Rightarrow> 's" where
  "run_calls handler \<equiv> foldl (\<lambda>s c. fst (handler c s))"

lemma serve_line_state:
  assumes "serve_line mac L cdc name tools handler now line (sv, s) = ((sv', s'), out)"
  shows "s' = run_calls handler s (calls_of (map Did out)) \<and> calls_of (map Did (butlast out)) = calls_of (map Did out)"
  using assms unfolding serve_line_def handle_request_def reply_error_def reply_value_def
  by (auto split: option.splits if_splits call_plan.splits prod.splits)

lemma serve_loop_state:
  assumes "serve_loop_tools mac L cdc name tools handler serr ls (sv, s) = ((sv', s'), tr, err)"
  shows "s' = run_calls handler s (calls_of tr)"
  using assms
proof (induction ls arbitrary: sv s tr)
  case (Cons el ls)
  obtain e line where el: "el = (e, line)" by force
  show ?case
  proof (cases "se_done e")
    case None
    obtain sv1 s1 out where out: "serve_line mac L cdc name tools handler (se_now e) line (sv, s) = ((sv1, s1), out)"
      by (metis prod.collapse)
    note s1 = serve_line_state [OF out]
    show ?thesis
    proof (cases "se_write e \<noteq> None \<and> out \<noteq> []")
      case True
      then show ?thesis using Cons.prems None s1 by (auto simp: el out)
    next
      case False
      obtain st2 tr' err' where rest: "serve_loop_tools mac L cdc name tools handler serr ls (sv1, s1) = (st2, tr', err')"
        by (cases "serve_loop_tools mac L cdc name tools handler serr ls (sv1, s1)")
      then have t: "tr = Took e line # map Did out @ tr'" "st2 = (sv', s')"
        using Cons.prems None False by (auto simp: el out)
      show ?thesis using Cons.IH [of sv1 s1 tr'] rest t s1 Cons.prems None False
        by (auto simp: el out calls_of_append)
    qed
  qed (use Cons.prems in \<open>simp add: el\<close>)
qed simp

lemma ServeTools_state:
  "snd (fst (ServeTools mac L cdc name tools handler env input s))
     = run_calls handler s (calls_of (fst (snd (ServeTools mac L cdc name tools handler env input s))))"
proof -
  obtain ls serr where ls: "scan_lines input = (ls, serr)" by force
  obtain sv' s' tr err where run: "serve_loop_tools mac L cdc name tools handler serr
      (map (\<lambda>(n, l). (env n, l)) (enumerate 0 ls)) (start_server, s) = ((sv', s'), tr, err)"
    by (metis prod.collapse)
  show ?thesis using serve_loop_state [OF run] by (simp add: ServeTools_def ls run)
qed

text \<open>What a tool server relies on of its handler, and what it then keeps.\<close>
locale kept_by_handler =
  fixes handler :: "handler_call \<Rightarrow> 's \<Rightarrow> 's \<times> result" and kept :: "'s \<Rightarrow> bool"
  assumes call_kept: "kept s \<Longrightarrow> kept (fst (handler c s))"
begin

lemma calls_kept: "kept s \<Longrightarrow> kept (run_calls handler s cs)"
  by (induction cs arbitrary: s) (simp_all add: call_kept)

lemma served_kept: "kept s \<Longrightarrow> kept (snd (fst (ServeTools mac L cdc name tools handler env input s)))"
  unfolding ServeTools_state by (rule calls_kept)

end

section \<open>The agenda server\<close>

definition call_mutation :: "call_env \<Rightarrow> handler_call \<Rightarrow> mutation" where
  "call_mutation e c = (case e of (fresh, stamp, commit) \<Rightarrow>
     \<lparr>mu_key = hl_Key c, mu_name = hl_Name c, mu_args = hl_Args c, mu_confirmed = hl_Confirmed c,
      mu_fresh = fresh, mu_stamp = stamp, mu_commit = commit\<rparr>)"

text \<open>The mutations among the calls of a server, with the environment of their places.\<close>
fun mutations_of :: "(handler_call \<Rightarrow> bool) \<Rightarrow> (nat \<Rightarrow> call_env) \<Rightarrow> nat \<Rightarrow> handler_call list \<Rightarrow> mutation list" where
  "mutations_of is_read rnd n [] = []"
| "mutations_of is_read rnd n (c # cs) =
     (if is_read c then [] else [call_mutation (rnd n) c]) @ mutations_of is_read rnd (Suc n) cs"

definition agenda_reads :: "handler_call \<Rightarrow> bool" where
  "agenda_reads c \<longleftrightarrow> hl_Name c = ''agenda.list_events'' \<or> hl_Name c = ''agenda.list_slots''"

definition notes_reads :: "handler_call \<Rightarrow> bool" where
  "notes_reads c \<longleftrightarrow> hl_Name c = ''notes.list'' \<or> hl_Name c = ''notes.delete'' \<and> \<not> hl_Confirmed c"

lemma agenda_handler_step:
  "fst (agenda_handler L tz rnd c (db, n)) =
     (if agenda_reads c then db else fst (agenda_apply L tz (call_mutation (rnd n) c) db), Suc n)"
  by (auto simp: agenda_handler_def agenda_call_def agenda_reads_def agenda_apply_def call_mutation_def Let_def
      split: prod.splits sum.splits)

lemma notes_handler_step:
  "fst (notes_handler L rnd c (db, n)) =
     (if notes_reads c then db else fst (notes_apply L (call_mutation (rnd n) c) db), Suc n)"
  by (auto simp: notes_handler_def notes_call_def notes_reads_def notes_apply_def call_mutation_def
      split: prod.splits sum.splits)

lemma agenda_calls:
  "fst (run_calls (agenda_handler L tz rnd) (db, n) cs)
     = foldl (\<lambda>db m. fst (agenda_apply L tz m db)) db (mutations_of agenda_reads rnd n cs)"
  by (induction cs arbitrary: db n) (simp_all add: agenda_handler_step)

lemma notes_calls:
  "fst (run_calls (notes_handler L rnd) (db, n) cs)
     = foldl (\<lambda>db m. fst (notes_apply L m db)) db (mutations_of notes_reads rnd n cs)"
  by (induction cs arbitrary: db n) (simp_all add: notes_handler_step)

interpretation agenda_server: kept_by_handler "agenda_handler L tz rnd" "\<lambda>st. agenda_ok (fst st)"
  for L :: "'sch lib" and tz and rnd
  by unfold_locales (auto simp: agenda_handler_step agenda_apply_ok split_paired_all)

interpretation notes_server: kept_by_handler "notes_handler L rnd" "\<lambda>st. notes_ok (fst st)"
  for L :: "'sch lib" and rnd
  by unfold_locales (auto simp: notes_handler_step notes_apply_ok split_paired_all)

text \<open>C18. Whatever bytes a client sends to the agenda server, whatever fails on the way, the server's
  store is the one the mutations among its handler's calls make of the store it started with, every
  idempotency key among them took effect at most once, and from an empty store, seeded or not, no two
  active events overlap.\<close>
theorem served_agenda_refines:
  "let db0 = (if seed then SeedFixtures empty_agenda else empty_agenda);
       run = ServeAgenda mac L cdc tools tz rnd env input db0;
       ms = mutations_of agenda_reads rnd 0 (calls_of (fst (snd run)))
   in fst (snd (fst run)) = foldl (\<lambda>db m. fst (agenda_apply L tz m db)) db0 ms
      \<and> at_most_once (agenda_apply L tz) (mutation_id L) db0 ms \<and> agenda_ok (fst (snd (fst run)))"
proof -
  let ?db0 = "if seed then SeedFixtures empty_agenda else empty_agenda"
  have "agenda_ok (fst (snd (fst (ServeTools mac L cdc ''sts-agenda'' tools (agenda_handler L tz rnd) env input (?db0, 0)))))"
    by (rule agenda_server.served_kept) (simp add: agenda_start_ok)
  then show ?thesis
    unfolding Let_def ServeAgenda_def by (simp add: ServeTools_state agenda_calls agenda_ops.calls_at_most_once)
qed

section \<open>Nothing is deleted without a confirmation\<close>

text \<open>A call that may cancel the event or delete the note of an id.\<close>
definition cancels :: "string \<Rightarrow> handler_call \<Rightarrow> bool" where
  "cancels ident c \<longleftrightarrow> hl_Name c = ''agenda.cancel_event'' \<and> hl_Confirmed c
     \<and> map_option ai_ID (unmarshal agenda_input_fields zero_agenda_input (hl_Args c)) = Some ident"

definition deletes :: "string \<Rightarrow> handler_call \<Rightarrow> bool" where
  "deletes ident c \<longleftrightarrow> hl_Name c = ''notes.delete'' \<and> hl_Confirmed c
     \<and> map_option ni_ID (unmarshal note_input_fields zero_note_input (hl_Args c)) = Some ident"

lemma agenda_keeps:
  assumes "row \<in> set (ag_events db)" "\<not> cancels (ar_id row) c"
  shows "row \<in> set (ag_events (fst (fst (agenda_handler L tz rnd c (db, n)))))"
proof (cases "agenda_reads c")
  case False
  obtain fresh stamp commit where e: "rnd n = (fresh, stamp, commit)" by (metis prod_cases3)
  have "row \<in> set (ag_events (fst (MutateAgenda L tz fresh stamp commit (hl_Key c) (hl_Name c) (hl_Args c) (hl_Confirmed c) db)))"
  proof (cases rule: MutateAgenda_cases [of L tz fresh stamp commit "hl_Key c" "hl_Name c" "hl_Args c" "hl_Confirmed c" db])
    case (new i db' r)
    from new(3) show ?thesis
    proof (elim disjE conjE)
      assume "create_event tz fresh i db = Inr (db', r)"
      then show ?thesis using assms(1) by (auto simp: new(5) create_event_def Let_def split: sum.splits if_splits)
    next
      assume c: "hl_Name c = ''agenda.cancel_event''" "hl_Confirmed c" "cancel_event i db = Inr (db', r)"
      have "ai_ID i \<noteq> ar_id row" using assms(2) c(1,2) new(2) by (simp add: cancels_def)
      then have "cancel_row (ai_ID i) row = row" by (simp add: cancel_row_def)
      then show ?thesis using assms(1) c(3) by (force simp: new(5) cancel_event_def split: if_splits)
    qed
  qed (use assms(1) in simp)
  then show ?thesis using False by (simp add: agenda_handler_step agenda_apply_def call_mutation_def e)
qed (use assms(1) in \<open>simp add: agenda_handler_step\<close>)

lemma agenda_keeps_calls:
  "row \<in> set (ag_events db) \<Longrightarrow> list_all (\<lambda>c. \<not> cancels (ar_id row) c) cs \<Longrightarrow>
     row \<in> set (ag_events (fst (run_calls (agenda_handler L tz rnd) (db, n) cs)))"
proof (induction cs arbitrary: db n)
  case (Cons c cs)
  obtain db' n' where s: "fst (agenda_handler L tz rnd c (db, n)) = (db', n')" by force
  have "row \<in> set (ag_events db')" using agenda_keeps [OF Cons.prems(1), of c L tz rnd n] Cons.prems(2) s by simp
  then show ?case using Cons.IH Cons.prems(2) by (simp add: s)
qed simp

lemma notes_keeps:
  assumes "note \<in> set (nd_notes db)" "\<not> deletes (nt_ID note) c"
  shows "note \<in> set (nd_notes (fst (fst (notes_handler L rnd c (db, n)))))"
proof (cases "notes_reads c")
  case False
  let ?m = "call_mutation (rnd n) c"
  have m: "mu_name ?m = hl_Name c" "mu_args ?m = hl_Args c" by (simp_all add: call_mutation_def split: prod.split)
  have "note \<in> set (nd_notes (fst (notes_apply L ?m db)))"
  proof (cases rule: notes_cases [of L ?m db])
    case (new i db' r)
    from new(3) have "note \<in> set (nd_notes db')"
    proof (elim disjE conjE)
      assume "create_note (mu_fresh ?m) (mu_stamp ?m) i db = Inr (db', r)"
      then show ?thesis using assms(1) by (auto simp: create_note_def Let_def split: if_splits)
    next
      assume d: "mu_name ?m = ''notes.delete''" "delete_note i db = Inr (db', r)"
      then have "ni_ID i \<noteq> nt_ID note" using assms(2) new(2) False by (auto simp: deletes_def notes_reads_def m)
      then show ?thesis using assms(1) d(2) by (auto simp: delete_note_def split: if_splits)
    qed
    then show ?thesis by (simp add: new(5))
  qed (use assms(1) in simp)
  then show ?thesis using False by (simp add: notes_handler_step)
qed (use assms(1) in \<open>simp add: notes_handler_step\<close>)

lemma notes_keeps_calls:
  "note \<in> set (nd_notes db) \<Longrightarrow> list_all (\<lambda>c. \<not> deletes (nt_ID note) c) cs \<Longrightarrow>
     note \<in> set (nd_notes (fst (run_calls (notes_handler L rnd) (db, n) cs)))"
proof (induction cs arbitrary: db n)
  case (Cons c cs)
  obtain db' n' where s: "fst (notes_handler L rnd c (db, n)) = (db', n')" by force
  have "note \<in> set (nd_notes db')" using notes_keeps [OF Cons.prems(1), of c L rnd n] Cons.prems(2) s by simp
  then show ?case using Cons.IH Cons.prems(2) by (simp add: s)
qed simp

text \<open>C4. With the host's signed envelope, an event is cancelled and a note deleted only on a
  confirmed call: after a whole run of a server in envelope mode, on any store and any input, every event
  (every note) it started with is still there as it was, or the handler was called to cancel (delete)
  exactly that id with the confirmation set, and every such call was made after the handshake with
  what \<open>Unwrap\<close> accepted of a signed envelope for that tool.\<close>
theorem deletions_confirmed:
  "(let run = ServeAgenda mac L (Some k) tools tz rnd env input db; tr = fst (snd run)
    in calls_guarded mac L (Some k) tools [] tr
      \<and> list_all (\<lambda>row. row \<in> set (ag_events (fst (snd (fst run)))) \<or> list_ex (cancels (ar_id row)) (calls_of tr)) (ag_events db))
   \<and> (let run = ServeNotes mac L (Some k) ntools rnd env input ndb; tr = fst (snd run)
    in calls_guarded mac L (Some k) ntools [] tr
      \<and> list_all (\<lambda>note. note \<in> set (nd_notes (fst (snd (fst run)))) \<or> list_ex (deletes (nt_ID note)) (calls_of tr)) (nd_notes ndb))"
  unfolding Let_def ServeAgenda_def ServeNotes_def ServeTools_state
  using agenda_keeps_calls notes_keeps_calls
  by (auto simp: ServeTools_guarded list_all_iff list_ex_iff)

end
