(* ===== verification/Go_Flow.thy ===== *)
theory Go_Flow
  imports Prelude "HOL-Library.State_Monad"
begin

text \<open>
  Code that changes a session's variables and may return early. A block is a state monad
  computation whose result says whether the code goes on: \<open>proceed\<close> goes on, \<open>leave\<close> is
  \<open>return\<close>, \<open>after m k\<close> is \<open>if !m { return }\<close> followed by \<open>k\<close>. \<open>wp m Q s\<close> says that \<open>Q\<close> holds of
  the result and the state after \<open>m\<close> is run from \<open>s\<close>; \<open>keeps\<close> is an invariant of a block.
\<close>

type_synonym 's block = "('s, bool) state"

definition proceed :: "'s block" where "proceed = State_Monad.return True"
definition leave :: "'s block" where "leave = State_Monad.return False"

definition assign :: "('s \<Rightarrow> 's) \<Rightarrow> ('s, unit) state" where
  "assign f = State (\<lambda>s. ((), f s))"

definition after :: "'s block \<Rightarrow> 's block \<Rightarrow> 's block" where
  "after m k = do { ok \<leftarrow> m; if ok then k else leave }"

text \<open>A loop over a list that an element may leave.\<close>
fun each :: "('a \<Rightarrow> 's block) \<Rightarrow> 'a list \<Rightarrow> 's block" where
  "each f [] = proceed"
| "each f (x # xs) = after (f x) (each f xs)"

section \<open>Reasoning\<close>

definition wp :: "('s, 'a) state \<Rightarrow> ('a \<Rightarrow> 's \<Rightarrow> bool) \<Rightarrow> 's \<Rightarrow> bool" where
  "wp m Q s \<longleftrightarrow> (case run_state m s of (x, s') \<Rightarrow> Q x s')"

lemma wp_return [simp]: "wp (State_Monad.return x) Q s = Q x s"
  by (simp add: wp_def)

lemma wp_bind [simp]: "wp (State_Monad.bind m f) Q s = wp m (\<lambda>x s'. wp (f x) Q s') s"
  by (simp add: wp_def split: prod.split)

lemma wp_get [simp]: "wp State_Monad.get Q s = Q s s"
  by (simp add: wp_def)

lemma wp_assign [simp]: "wp (assign g) Q s = Q () (g s)"
  by (simp add: wp_def assign_def)

lemma wp_flow [simp]: "wp proceed Q s = Q True s" "wp leave Q s = Q False s"
  by (simp_all add: proceed_def leave_def)

lemma wp_after [simp]: "wp (after m k) Q s = wp m (\<lambda>ok s'. if ok then wp k Q s' else Q False s') s"
  by (simp add: after_def wp_def leave_def split: prod.split)

lemma wp_if [simp]: "wp (if b then m else n) Q s = (if b then wp m Q s else wp n Q s)"
  by simp

lemma wp_option [simp]:
  "wp (case x of None \<Rightarrow> m | Some y \<Rightarrow> n y) Q s = (case x of None \<Rightarrow> wp m Q s | Some y \<Rightarrow> wp (n y) Q s)"
  by (simp split: option.split)

lemma wp_sum [simp]:
  "wp (case x of Inl e \<Rightarrow> m e | Inr y \<Rightarrow> n y) Q s = (case x of Inl e \<Rightarrow> wp (m e) Q s | Inr y \<Rightarrow> wp (n y) Q s)"
  by (simp split: sum.split)

lemma wp_prod [simp]: "wp (case x of (a, b) \<Rightarrow> m a b) Q s = (case x of (a, b) \<Rightarrow> wp (m a b) Q s)"
  by (simp split: prod.split)

lemma wp_mono: "wp m Q s \<Longrightarrow> (\<And>x s'. Q x s' \<Longrightarrow> R x s') \<Longrightarrow> wp m R s"
  by (auto simp: wp_def split: prod.splits)

lemma wp_conj: "wp m Q s \<Longrightarrow> wp m R s \<Longrightarrow> wp m (\<lambda>x s'. Q x s' \<and> R x s') s"
  by (auto simp: wp_def split: prod.splits)

lemma wp_run: "wp m Q s \<longleftrightarrow> Q (fst (run_state m s)) (snd (run_state m s))"
  by (simp add: wp_def split: prod.split)

text \<open>An invariant that a block keeps, however it ends.\<close>
definition keeps :: "('s \<Rightarrow> bool) \<Rightarrow> ('s, 'a) state \<Rightarrow> bool" where
  "keeps I m \<longleftrightarrow> (\<forall>s. I s \<longrightarrow> wp m (\<lambda>_. I) s)"

lemma keepsI: "(\<And>s. I s \<Longrightarrow> wp m (\<lambda>_. I) s) \<Longrightarrow> keeps I m"
  by (simp add: keeps_def)

lemma keeps_wp: "keeps I m \<Longrightarrow> I s \<Longrightarrow> (\<And>x s'. I s' \<Longrightarrow> Q x s') \<Longrightarrow> wp m Q s"
  by (auto simp: keeps_def intro: wp_mono)

lemma keepsD: "keeps I m \<Longrightarrow> I s \<Longrightarrow> wp m (\<lambda>_. I) s"
  by (simp add: keeps_def)

lemma keeps_run: "keeps I m \<Longrightarrow> I s \<Longrightarrow> I (snd (run_state m s))"
  by (auto simp: keeps_def wp_run)

lemma keeps_bind: "keeps I m \<Longrightarrow> (\<And>x. keeps I (f x)) \<Longrightarrow> keeps I (State_Monad.bind m f)"
  by (auto simp: keeps_def intro: wp_mono)

lemma keeps_after: "keeps I m \<Longrightarrow> keeps I k \<Longrightarrow> keeps I (after m k)"
  by (auto simp: keeps_def intro: wp_mono)

lemma keeps_simple [simp, intro]:
  "keeps I (State_Monad.return x)" "keeps I proceed" "keeps I leave" "keeps I State_Monad.get"
  by (simp_all add: keeps_def)

lemma keeps_assign: "(\<And>s. I s \<Longrightarrow> I (g s)) \<Longrightarrow> keeps I (assign g)"
  by (simp add: keeps_def)

lemma keeps_each: "(\<And>x. x \<in> set xs \<Longrightarrow> keeps I (f x)) \<Longrightarrow> keeps I (each f xs)"
  by (induction xs) (auto intro: keeps_after)

lemma keeps_if: "(b \<Longrightarrow> keeps I m) \<Longrightarrow> (\<not> b \<Longrightarrow> keeps I n) \<Longrightarrow> keeps I (if b then m else n)"
  by simp

lemma keeps_option:
  "(x = None \<Longrightarrow> keeps I m) \<Longrightarrow> (\<And>y. x = Some y \<Longrightarrow> keeps I (n y))
     \<Longrightarrow> keeps I (case x of None \<Rightarrow> m | Some y \<Rightarrow> n y)"
  by (simp split: option.split)

lemma keeps_conj: "keeps I m \<Longrightarrow> keeps J m \<Longrightarrow> keeps (\<lambda>s. I s \<and> J s) m"
  by (auto simp: keeps_def intro: wp_conj)

lemma keeps_prod: "(\<And>a b. x = (a, b) \<Longrightarrow> keeps I (f a b)) \<Longrightarrow> keeps I (case x of (a, b) \<Rightarrow> f a b)"
  by (simp split: prod.split)

lemma keeps_sum:
  "(\<And>e. x = Inl e \<Longrightarrow> keeps I (m e)) \<Longrightarrow> (\<And>y. x = Inr y \<Longrightarrow> keeps I (n y))
     \<Longrightarrow> keeps I (case x of Inl e \<Rightarrow> m e | Inr y \<Rightarrow> n y)"
  by (simp split: sum.split)

text \<open>A value that was read satisfies the invariant.\<close>
lemma keeps_get: "(\<And>s. I s \<Longrightarrow> keeps I (f s)) \<Longrightarrow> keeps I (State_Monad.bind State_Monad.get f)"
  by (simp add: keeps_def)

lemma keeps_weaken: "keeps J m \<Longrightarrow> J s \<Longrightarrow> (\<And>s'. J s' \<Longrightarrow> I s') \<Longrightarrow> wp m (\<lambda>_. I) s"
  by (rule keeps_wp)

lemmas keeps_intros = keeps_bind keeps_after keeps_each keeps_if keeps_option

end
