(* ===== verification/Agent_Config.thy ===== *)
theory Agent_Config
  imports Host_Config Agent_Remote
begin

text \<open>
  The configuration of the personal assistant agent, \<open>LoadPrompt\<close> and \<open>Config.Validate\<close> of
  \<open>apps/personal-assistant-agent/config/config.go\<close>. What a process reads is the argument \<open>world\<close>:
  environment variables, file metadata and contents, and the results of the standard parsers of
  URLs, durations and addresses.
\<close>

record world =
  wd_LookupEnv :: "string \<Rightarrow> string option"
  wd_Stat :: "string \<Rightarrow> (bool \<times> nat) option"
  wd_ReadFile :: "string \<Rightarrow> string option"
  wd_ParseURL :: "string \<Rightarrow> parsed_url option"
  wd_ParseDuration :: "string \<Rightarrow> duration option"
  wd_SplitHostPort :: "string \<Rightarrow> string option"
  wd_LoopbackIP :: "string \<Rightarrow> bool"

definition Getenv :: "world \<Rightarrow> string \<Rightarrow> string" where
  "Getenv w key = (case wd_LookupEnv w key of None \<Rightarrow> [] | Some v \<Rightarrow> v)"

text \<open>\<open>envValue\<close>\<close>
definition envValue :: "world \<Rightarrow> string \<Rightarrow> string \<Rightarrow> string" where
  "envValue w key fallback = (if Getenv w key \<noteq> [] then Getenv w key else fallback)"

definition MaxPromptBytes :: nat where "MaxPromptBytes = 65536"

record config =
  cf_Provider :: string
  cf_PromptFile :: string
  cf_NovaMaxSessionAge :: duration
  cf_LiteLLMModel :: string
  cf_MCPServers :: "Host_Config.server_config list"
  cf_MCPEvidencePath :: string
  cf_MCPCommand :: string
  cf_MCPArgs :: "string list"
  cf_MCPAllowedTools :: "string list"
  cf_MCPTimeout :: duration
  cf_MCPBackend :: string
  cf_LiteLLMURL :: string
  cf_LiteLLMAPIKey :: string
  cf_MCPContextSecret :: string
  cf_LiteLLMServers :: "Host_Config.gateway_config list"
  cf_TurnTimeout :: duration

section \<open>Validation\<close>

text \<open>\<open>Stat\<close> gives whether the file is regular, and its size.\<close>
definition LoadPrompt :: "world \<Rightarrow> string \<Rightarrow> error + string" where
  "LoadPrompt w path =
     (if trim_space path = [] \<or> \<not> is_abs path then Inl ''agent prompt file must be an absolute path''
      else (case wd_Stat w path of
          None \<Rightarrow> Inl ''agent prompt file is unavailable''
        | Some (regular, len) \<Rightarrow>
            if \<not> regular then Inl ''agent prompt file is unavailable''
            else if len > MaxPromptBytes then Inl ''agent prompt exceeds 64 KiB''
            else (case wd_ReadFile w path of
                None \<Rightarrow> Inl ''agent prompt file cannot be read''
              | Some data \<Rightarrow>
                  (let prompt = trim_space data in
                   if prompt = [] then Inl ''agent prompt file is empty'' else Inr prompt))))"

definition base_url_ok :: "world \<Rightarrow> string \<Rightarrow> bool" where
  "base_url_ok w url \<longleftrightarrow> (case wd_ParseURL w url of
       None \<Rightarrow> False
     | Some u \<Rightarrow> pu_Host u \<noteq> [] \<and> pu_Scheme u \<in> {''http'', ''https''} \<and> pu_RawQuery u = [] \<and> pu_Fragment u = [])"

definition ValidateConfig :: "world \<Rightarrow> config \<Rightarrow> error option" where
  "ValidateConfig w c =
     (if cf_Provider c \<noteq> ''nova''
      then Some (''personal assistant only supports provider '' @ q_text (cf_Provider c))
      else if cf_NovaMaxSessionAge c \<le> 0 \<or> cf_NovaMaxSessionAge c > 7 * minute_ns + 30 * second_ns
              \<or> cf_MCPTimeout c \<le> 0 \<or> cf_TurnTimeout c \<le> 0
      then Some ''agent timeouts must be positive and session age at most 7m30s''
      else if trim_space (cf_LiteLLMModel c) = [] \<or> cf_LiteLLMAPIKey c = []
      then Some ''agent requires LiteLLM API key and realtime model''
      else if \<not> base_url_ok w (cf_LiteLLMURL c) then Some ''agent LiteLLM URL must be an HTTP(S) base URL''
      else if cf_MCPBackend c \<noteq> ''stdio'' \<and> cf_MCPBackend c \<noteq> ''litellm''
      then Some ''agent MCP backend must be stdio or litellm''
      else (case LoadPrompt w (cf_PromptFile c) of Inl err \<Rightarrow> Some err | Inr _ \<Rightarrow> None))"

end
