(* ===== verification/Agent_Runtime.thy ===== *)
theory Agent_Runtime
  imports Go_Flow Agent_Config Action_Runtime Realtime_Mapper
begin

text \<open>
  The session loop of the personal assistant, \<open>Run\<close> of
  \<open>apps/personal-assistant-agent/internal/agent/runtime.go\<close>, with the tool runtime of \<open>tools.go\<close>
  and the evidence of \<open>evidence.go\<close>. Each turn of the \<open>select\<close> is one step, \<open>agent_step\<close>, on the
  case that was ready. What the loop does to the outside is the trace: the events it writes, the
  hooks it calls, what it sends to the provider, the calls of the orchestrator, the jobs it starts.
  Every operation that can fail consults \<open>rn_io\<close>, which says of the n-th whether it succeeds; a
  step takes one reading of the clock. A timer is its deadline. Started jobs run in goroutines:
  they are the list \<open>tn_running\<close>, and any of them may be the next to finish.
\<close>

section \<open>State\<close>

datatype agent_act =
    Wrote event
  | HookError | HookCompleted | HookInterrupted | HookFirstAudio duration
  | OpenedStream string "history_message list"
  | ClosedStream
  | SentText string
  | SentAudio string
  | SentResult string result
  | Called orch_op
  | Ran job
  | Evidence string
  | ClosedTools
  | Panicked

text \<open>\<open>toolRuntime\<close>; \<open>tn_evidence\<close> says that an evidence file is open.\<close>
record 'sch tools =
  tn_session :: "'sch orch"
  tn_active :: "string list"
  tn_running :: "job list"
  tn_staged :: "event gomap"
  tn_evidence :: bool
  tn_sessionID :: string

text \<open>The variables of \<open>Run\<close>, the count of fallible operations and the trace.\<close>
record 'sch agent =
  ag_mapper :: mapper
  ag_tools :: "'sch tools option"
  ag_inputID :: string
  ag_inputSequence :: u64
  ag_usedInputs :: "string list"
  ag_openedAt :: instant
  ag_renew :: instant
  ag_turnTimeout :: "instant option"
  ag_userTexts :: "string gomap"
  ag_userTurns :: "string gomap"
  ag_completedUser :: string
  ag_completedUserTurn :: string
  ag_io :: nat
  ag_trace :: "agent_act list"

text \<open>What a run is given and does not change.\<close>
record 'sch agent_env =
  rn_lib :: "'sch lib"
  rn_io :: "nat \<Rightarrow> bool"
  rn_sessionID :: string
  rn_prompt :: string
  rn_TurnTimeout :: duration
  rn_NovaMaxSessionAge :: duration

text \<open>The operations are polymorphic in further variables, \<open>'m\<close>, that a caller of the loop adds.\<close>
type_synonym ('sch, 'm) agent_block = "('sch, 'm) agent_scheme block"

section \<open>Effects\<close>

definition act :: "agent_act \<Rightarrow> (('sch, 'm) agent_scheme, unit) state" where
  "act a = assign (\<lambda>l. l\<lparr>ag_trace := ag_trace l @ [a]\<rparr>)"

text \<open>The next fallible operation: does it succeed?\<close>
definition attempt :: "('sch, 'e) agent_env_scheme \<Rightarrow> ('sch, 'm) agent_block" where
  "attempt E = do {
     l \<leftarrow> State_Monad.get;
     assign (\<lambda>l. l\<lparr>ag_io := Suc (ag_io l)\<rparr>);
     State_Monad.return (rn_io E (ag_io l)) }"

definition write_event :: "('sch, 'e) agent_env_scheme \<Rightarrow> event \<Rightarrow> ('sch, 'm) agent_block" where
  "write_event E e = do { act (Wrote e); attempt E }"

text \<open>A nil dereference or an index out of range.\<close>
definition panic :: "('sch, 'm) agent_block" where
  "panic = do { act Panicked; leave }"

text \<open>Then \<open>sendError\<close>, and \<open>sendError\<close> followed by \<open>return\<close> and by \<open>continue\<close>.\<close>
definition sendError :: "('sch, 'e) agent_env_scheme \<Rightarrow> string \<Rightarrow> string \<Rightarrow> ('sch, 'm) agent_block" where
  "sendError E code msg = do {
     act HookError;
     write_event E (zero_event\<lparr>ev_Type := ErrorEvent, ev_Code := code, ev_Message := msg\<rparr>) }"

definition fail_with :: "('sch, 'e) agent_env_scheme \<Rightarrow> string \<Rightarrow> string \<Rightarrow> ('sch, 'm) agent_block" where
  "fail_with E code msg = do { ok \<leftarrow> sendError E code msg; leave }"

definition refuse :: "('sch, 'e) agent_env_scheme \<Rightarrow> string \<Rightarrow> string \<Rightarrow> ('sch, 'm) agent_block" where
  "refuse E code msg = do { ok \<leftarrow> sendError E code msg; proceed }"

section \<open>Tools\<close>

definition set_tools :: "('sch tools \<Rightarrow> 'sch tools) \<Rightarrow> (('sch, 'm) agent_scheme, unit) state" where
  "set_tools f = assign (\<lambda>l. l\<lparr>ag_tools := map_option f (ag_tools l)\<rparr>)"

text \<open>A call of the orchestrator, which changes its session.\<close>
definition session_call :: "('sch, 'e) agent_env_scheme \<Rightarrow> orch_op \<Rightarrow> (('sch, 'm) agent_scheme, unit) state" where
  "session_call E x = do {
     act (Called x);
     set_tools (\<lambda>t. t\<lparr>tn_session := orch_step (rn_lib E) (tn_session t) x\<rparr>) }"

text \<open>\<open>start\<close>\<close>
definition start_job :: "job \<Rightarrow> (('sch, 'm) agent_scheme, unit) state" where
  "start_job j = do {
     act (Ran j);
     set_tools (\<lambda>t. t\<lparr>tn_active := List.insert (jb_ID j) (tn_active t), tn_running := j # tn_running t\<rparr>) }"

text \<open>\<open>toolResultEvent\<close>\<close>
definition toolResultEvent :: "job \<Rightarrow> result \<Rightarrow> event" where
  "toolResultEvent j r = (turn_event ToolResult (jb_TurnID j))\<lparr>ev_Tool := Some (zero_tool
     \<lparr>vt_OperationID := jb_ID j, vt_Name := jb_Name j, vt_Result := result_text r\<rparr>)\<rparr>"

text \<open>The line \<open>evidenceResult\<close> writes: the server is what is before the first dot when there are two.\<close>
definition evidence_line :: "string \<Rightarrow> job \<Rightarrow> result \<Rightarrow> string" where
  "evidence_line sessionID j r =
     (case (if length (split_byte CHR ''.'' (jb_Name j)) > 2
            then (case cut_byte CHR ''.'' (jb_Name j) of (server, tool, _) \<Rightarrow> (server, tool))
            else (''legacy'', jb_Name j)) of
        (server, tool) \<Rightarrow> obj_text
          [(''arguments'', if json_valid (jb_Args j) then json_compact (jb_Args j) else json_quote (jb_Args j)),
           (''operation_id'', json_quote (jb_ID j)), (''result'', result_text r),
           (''server'', json_quote server), (''session_id'', json_quote sessionID),
           (''tool'', json_quote tool)] @ [bchr 10])"

text \<open>\<open>evidenceResult\<close>\<close>
definition evidenceResult :: "('sch, 'e) agent_env_scheme \<Rightarrow> 'sch tools \<Rightarrow> job \<Rightarrow> result \<Rightarrow> ('sch, 'm) agent_block" where
  "evidenceResult E t j r =
     (if \<not> tn_evidence t then proceed
      else do { act (Evidence (evidence_line (tn_sessionID t) j r)); attempt E })"

text \<open>\<open>stream.SendToolResult\<close>: it fails on a result that is too long, or when the write fails.\<close>
definition send_result :: "('sch, 'e) agent_env_scheme \<Rightarrow> string \<Rightarrow> result \<Rightarrow> ('sch, 'm) agent_block" where
  "send_result E ident r = do {
     act (SentResult ident r);
     ok \<leftarrow> attempt E;
     State_Monad.return (snd (SendToolResult (\<lambda>_. ok) ident (result_text r)) = None) }"

section \<open>Emitting\<close>

text \<open>
  One event of \<open>emit\<close>: the turn timer starts when a response starts and stops when the turn ends.
  The log of a completed turn reads \<open>event.Metrics\<close>.
\<close>
definition emit_one :: "('sch, 'e) agent_env_scheme \<Rightarrow> instant \<Rightarrow> event \<Rightarrow> ('sch, 'm) agent_block" where
  "emit_one E now e = do {
     l \<leftarrow> State_Monad.get;
     (if ev_Type e = SessionState \<and> ev_State e = Responding \<and> ag_turnTimeout l = None
      then assign (\<lambda>l. l\<lparr>ag_turnTimeout := Some (now + rn_TurnTimeout E)\<rparr>) else State_Monad.return ());
     (if ev_Type e = AudioOutput \<and> ev_Sequence e = 1
      then act (HookFirstAudio (FirstAudioMicros (ag_mapper l) * 1000)) else State_Monad.return ());
     (if ev_Type e = TurnInterrupted
      then do { act HookInterrupted; assign (\<lambda>l. l\<lparr>ag_turnTimeout := None\<rparr>) } else State_Monad.return ());
     (if ev_Type e = TurnCompleted
      then do { act HookCompleted; assign (\<lambda>l. l\<lparr>ag_turnTimeout := None\<rparr>) } else State_Monad.return ());
     (if ev_Type e = TurnCompleted \<and> ev_Metrics e = None then panic else write_event E e) }"

definition emit :: "('sch, 'e) agent_env_scheme \<Rightarrow> instant \<Rightarrow> event list \<Rightarrow> ('sch, 'm) agent_block" where
  "emit E now es = each (emit_one E now) es"

definition set_mapper :: "mapper \<Rightarrow> (('sch, 'm) agent_scheme, unit) state" where
  "set_mapper m = assign (\<lambda>l. l\<lparr>ag_mapper := m\<rparr>)"

text \<open>
  The closures \<open>emit\<close> and \<open>rotate\<close> are arguments, \<open>em\<close> and \<open>rot\<close>, of the blocks that call them: the
  account agent's loop has its own. \<open>emit(mapper.Interrupt())\<close>:
\<close>
type_synonym ('sch, 'm) emitter = "event list \<Rightarrow> ('sch, 'm) agent_block"

definition emit_interrupt :: "('sch, 'm) emitter \<Rightarrow> ('sch, 'm) agent_block" where
  "emit_interrupt em = do {
     l \<leftarrow> State_Monad.get;
     (case InterruptTurn (ag_mapper l) of (m, es) \<Rightarrow> do { set_mapper m; em es }) }"

text \<open>\<open>rotate\<close>: a new stream with the history, and an orchestrator that forgets what is pending.\<close>
definition reopen :: "('sch, 'e) agent_env_scheme \<Rightarrow> string \<Rightarrow> instant \<Rightarrow> ('sch, 'm) agent_block" where
  "reopen E prompt now = do {
     l \<leftarrow> State_Monad.get;
     act ClosedStream;
     (case ag_tools l of
        None \<Rightarrow> State_Monad.return ()
      | Some _ \<Rightarrow> do { session_call E OpInterrupt; set_tools (\<lambda>t. t\<lparr>tn_staged := []\<rparr>) });
     opened \<leftarrow> attempt E;
     (if \<not> opened then fail_with E ''provider_unavailable'' ''Nova session renewal failed''
      else do {
        act (OpenedStream prompt (mp_History (ag_mapper l)));
        assign (\<lambda>l'. l'\<lparr>ag_mapper := NewMapper (mp_History (ag_mapper l)), ag_openedAt := now,
                      ag_renew := now + rn_NovaMaxSessionAge E\<rparr>);
        write_event E (zero_event\<lparr>ev_Type := SessionRenewed, ev_Provider := ''nova'', ev_State := Idle\<rparr>) }) }"

definition rotate :: "('sch, 'e) agent_env_scheme \<Rightarrow> instant \<Rightarrow> ('sch, 'm) agent_block" where
  "rotate E now = reopen E (rn_prompt E) now"

section \<open>Timers\<close>

text \<open>\<open>case <-turnTimeout\<close>\<close>
definition on_turn_timeout :: "('sch, 'e) agent_env_scheme \<Rightarrow> ('sch, 'm) emitter \<Rightarrow> ('sch, 'm) agent_block" where
  "on_turn_timeout E em = after (emit_interrupt em)
     (fail_with E ''provider_timeout'' ''Nova did not complete the turn in time'')"

definition age_limit :: duration where "age_limit = 7 * minute_ns + 50 * second_ns"

definition try_later :: "instant \<Rightarrow> ('sch, 'm) agent_block" where
  "try_later now = do { assign (\<lambda>l. l\<lparr>ag_renew := now + 10 * second_ns\<rparr>); proceed }"

definition tools_busy :: "('sch, 'm) agent_scheme \<Rightarrow> bool" where
  "tools_busy l \<longleftrightarrow> (case ag_tools l of None \<Rightarrow> False | Some t \<Rightarrow> tn_active t \<noteq> [])"

text \<open>\<open>case <-renew.C\<close>\<close>
definition on_renew ::
  "('sch, 'e) agent_env_scheme \<Rightarrow> ('sch, 'm) emitter \<Rightarrow> ('sch, 'm) agent_block \<Rightarrow> instant \<Rightarrow> ('sch, 'm) agent_block"
where
  "on_renew E em rot now = do {
     l \<leftarrow> State_Monad.get;
     (if tools_busy l then
        (if age_limit \<le> since now (ag_openedAt l)
         then fail_with E ''mcp_in_progress'' ''session limit reached while tool runs; retry with the same requestId''
         else try_later now)
      else if mp_State (ag_mapper l) \<noteq> Idle \<and> since now (ag_openedAt l) < age_limit then try_later now
      else after (if mp_State (ag_mapper l) \<noteq> Idle then emit_interrupt em else proceed) rot) }"

section \<open>Client events\<close>

text \<open>\<open>emit(mapper.StartInput(id))\<close>\<close>
definition emit_start :: "('sch, 'm) emitter \<Rightarrow> instant \<Rightarrow> string \<Rightarrow> ('sch, 'm) agent_block" where
  "emit_start em now ident = do {
     l \<leftarrow> State_Monad.get;
     (case StartInput now ident (ag_mapper l) of (m, es) \<Rightarrow> do { set_mapper m; em es }) }"

definition forward_audio :: "('sch, 'e) agent_env_scheme \<Rightarrow> event \<Rightarrow> ('sch, 'm) agent_block" where
  "forward_audio E e = do {
     l \<leftarrow> State_Monad.get;
     (if ev_Sequence e \<noteq> ag_inputSequence l + 1 then refuse E ''invalid_audio'' ''unexpected input sequence''
      else do {
        assign (\<lambda>l. l\<lparr>ag_inputSequence := ev_Sequence e\<rparr>);
        act (SentAudio (ev_Audio e));
        ok \<leftarrow> attempt E;
        (if snd (SendAudio (\<lambda>_. ok) (ev_Audio e)) \<noteq> None
         then fail_with E ''provider_unavailable'' ''Nova audio transport disconnected'' else proceed) }) }"

text \<open>\<open>audio.append\<close>; \<open>start turn\<close> opens the turn of a new input.\<close>
definition on_audio ::
  "('sch, 'e) agent_env_scheme \<Rightarrow> (string \<Rightarrow> ('sch, 'm) agent_block) \<Rightarrow> event \<Rightarrow> ('sch, 'm) agent_block"
where
  "on_audio E start e = do {
     l \<leftarrow> State_Monad.get;
     (if ev_TurnID e = ag_inputID l then forward_audio E e
      else if ev_Sequence e \<noteq> 1 \<or> ev_TurnID e \<in> set (ag_usedInputs l) \<or> MaxTurns \<le> length (ag_usedInputs l)
      then refuse E ''invalid_audio'' ''new input requires an unused turnId and sequence 1''
      else do {
        assign (\<lambda>l. l\<lparr>ag_inputID := ev_TurnID e, ag_inputSequence := 0,
                     ag_usedInputs := List.insert (ev_TurnID e) (ag_usedInputs l)\<rparr>);
        after (start (ev_TurnID e)) (forward_audio E e) }) }"

definition on_commit :: "('sch, 'e) agent_env_scheme \<Rightarrow> instant \<Rightarrow> event \<Rightarrow> ('sch, 'm) agent_block" where
  "on_commit E now e = do {
     l \<leftarrow> State_Monad.get;
     (if ev_TurnID e \<noteq> ag_inputID l \<or> ag_inputSequence l = 0
      then refuse E ''invalid_turn'' ''no matching input to commit''
      else do {
        assign (\<lambda>l. l\<lparr>ag_mapper := CommitInput now (ag_mapper l), ag_turnTimeout := Some (now + rn_TurnTimeout E)\<rparr>);
        proceed }) }"

definition on_cancel ::
  "('sch, 'e) agent_env_scheme \<Rightarrow> ('sch, 'm) emitter \<Rightarrow> ('sch, 'm) agent_block \<Rightarrow> event \<Rightarrow> ('sch, 'm) agent_block"
where
  "on_cancel E em rot e = do {
     l \<leftarrow> State_Monad.get;
     (if ev_TurnID e \<noteq> mp_TurnID (ag_mapper l) \<or> mp_State (ag_mapper l) = Idle
      then refuse E ''invalid_turn'' ''no matching active turn''
      else after (emit_interrupt em)
        (if tools_busy l
         then fail_with E ''mcp_in_progress'' ''output cancelled; operation outcome may be pending, retry with the same requestId''
         else do {
           assign (\<lambda>l. l\<lparr>ag_turnTimeout := None, ag_inputID := [], ag_inputSequence := 0\<rparr>);
           rot })) }"

definition stop_session :: "('sch, 'e) agent_env_scheme \<Rightarrow> ('sch, 'm) agent_block" where
  "stop_session E = do {
     ok \<leftarrow> write_event E (zero_event\<lparr>ev_Type := SessionStopped, ev_State := Closed\<rparr>);
     leave }"

text \<open>\<open>tool.confirm\<close> dereferences \<open>e.Tool\<close> and its \<open>Approved\<close>.\<close>
definition on_confirm :: "('sch, 'e) agent_env_scheme \<Rightarrow> instant \<Rightarrow> event \<Rightarrow> ('sch, 'm) agent_block" where
  "on_confirm E now e = do {
     l \<leftarrow> State_Monad.get;
     (case ag_tools l of
        None \<Rightarrow> refuse E ''invalid_confirmation'' ''no matching pending operation''
      | Some t \<Rightarrow>
        (case ev_Tool e of
           None \<Rightarrow> panic
         | Some v \<Rightarrow>
           (case vt_Approved v of
              None \<Rightarrow> panic
            | Some approved \<Rightarrow> do {
                session_call E (OpConfirm now (vt_OperationID v) approved);
                (if snd (Confirm now (vt_OperationID v) approved (tn_session t)) then proceed
                 else refuse E ''invalid_confirmation'' ''no matching pending operation'') }))) }"

text \<open>\<open>case input, ok := <-in\<close> with an event.\<close>
definition on_event :: "('sch, 'e) agent_env_scheme \<Rightarrow> instant \<Rightarrow> event \<Rightarrow> ('sch, 'm) agent_block" where
  "on_event E now e =
     (if ev_SessionID e \<noteq> rn_sessionID E
      then refuse E ''session_mismatch'' ''sessionId does not match this connection''
      else if ev_Type e = AudioAppend then on_audio E (emit_start (emit E now) now) e
      else if ev_Type e = TurnCommit then on_commit E now e
      else if ev_Type e = TurnCancel then on_cancel E (emit E now) (rotate E now) e
      else if ev_Type e = SessionStop then stop_session E
      else if ev_Type e = ToolConfirm then on_confirm E now e
      else refuse E ''invalid_transition'' ''session is already started'')"

section \<open>Finished jobs\<close>

text \<open>\<open>delete(tools.active, id)\<close>, as the goroutine of the \<open>i\<close>-th running job ends.\<close>
definition take_finished :: "nat \<Rightarrow> 'sch tools \<Rightarrow> 'sch tools" where
  "take_finished i t = t\<lparr>tn_active := removeAll (jb_ID (tn_running t ! i)) (tn_active t),
     tn_running := take i (tn_running t) @ drop (Suc i) (tn_running t)\<rparr>"

definition on_finished ::
  "('sch, 'e) agent_env_scheme \<Rightarrow> instant \<Rightarrow> nat \<Rightarrow> error + result \<Rightarrow> ('sch, 'm) agent_block"
where
  "on_finished E now i outcome = do {
     l \<leftarrow> State_Monad.get;
     (case ag_tools l of
        None \<Rightarrow> proceed
      | Some t \<Rightarrow>
          if length (tn_running t) \<le> i then proceed
          else (let j = tn_running t ! i; r = Execute outcome j in do {
            set_tools (take_finished i);
            session_call E (OpComplete j r);
            stored \<leftarrow> evidenceResult E t j r;
            (if \<not> stored then fail_with E ''storage_failed'' ''cannot persist private evidence''
             else do {
               sent \<leftarrow> send_result E (jb_ID j) r;
               (if \<not> sent
                then fail_with E ''provider_unavailable'' ''Nova tool result delivery failed; retry mutations with the same requestId''
                else emit E now [toolResultEvent j r]) }) })) }"

section \<open>Provider events\<close>

text \<open>A final text of the user, kept until its content ends.\<close>
definition hear_one :: "('sch, 'e) agent_env_scheme \<Rightarrow> string \<Rightarrow> event \<Rightarrow> ('sch, 'm) agent_block" where
  "hear_one E cid e = do {
     l \<leftarrow> State_Monad.get;
     (if ev_Type e = Transcript \<and> ev_Role e = ''USER'' \<and> ev_Stage e = ''FINAL''
      then (if length (gstr (ag_userTexts l) cid) + length (ev_Text e) > 8192
            then fail_with E ''provider_failed'' ''user transcript too large''
            else do {
              assign (\<lambda>l. l\<lparr>ag_userTexts := gput cid (gstr (ag_userTexts l) cid @ ev_Text e) (ag_userTexts l),
                           ag_userTurns := gput cid (ev_TurnID e) (ag_userTurns l)\<rparr>);
              proceed })
      else proceed) }"

definition hear :: "('sch, 'e) agent_env_scheme \<Rightarrow> string \<Rightarrow> event list \<Rightarrow> ('sch, 'm) agent_block" where
  "hear E cid es = each (hear_one E cid) es"

text \<open>The end of the user's content joins its text to what the user has said in the turn.\<close>
definition end_utterance :: "nova_event \<Rightarrow> ('sch, 'm) agent_scheme \<Rightarrow> ('sch, 'm) agent_scheme" where
  "end_utterance ev l =
     (if ne_Kind ev \<noteq> ''contentEnd'' then l
      else (case gget (ag_userTexts l) (ne_ContentID ev) of
          None \<Rightarrow> l
        | Some txt \<Rightarrow>
          (let turn = gstr (ag_userTurns l) (ne_ContentID ev);
               said = (if ag_completedUserTurn l \<noteq> turn then [] else ag_completedUser l)
           in l\<lparr>ag_completedUserTurn := turn, ag_completedUser := trim_space (said @ '' '' @ txt),
                ag_userTexts := gdel (ne_ContentID ev) (ag_userTexts l),
                ag_userTurns := gdel (ne_ContentID ev) (ag_userTurns l)\<rparr>)))"

definition utterance_over :: "nova_event \<Rightarrow> ('sch, 'm) agent_scheme \<Rightarrow> bool" where
  "utterance_over ev l \<longleftrightarrow> ne_Kind ev = ''contentStart'' \<and> ne_Role ev \<noteq> ''USER''
     \<and> ag_completedUserTurn l \<noteq> [] \<and> ag_userTexts l = []"

definition observe :: "('sch, 'e) agent_env_scheme \<Rightarrow> instant \<Rightarrow> nova_event \<Rightarrow> (('sch, 'm) agent_scheme, unit) state" where
  "observe E now ev = do {
     l \<leftarrow> State_Monad.get;
     (if utterance_over ev l then session_call E (OpObserve now (ag_completedUserTurn l) (ag_completedUser l))
      else State_Monad.return ()) }"

text \<open>A tool call is staged under its content; a call the mapper dropped is staged as cancelled.\<close>
definition staged_call :: "nova_event \<Rightarrow> string \<Rightarrow> event list \<Rightarrow> event gomap \<Rightarrow> event gomap" where
  "staged_call ev turn es m =
     (let m' = foldl (\<lambda>m e. gput (ne_ContentID ev) e m) m (filter (\<lambda>e. ev_Type e = ToolStarted) es)
      in if gget m' (ne_ContentID ev) \<noteq> None then m'
         else gput (ne_ContentID ev)
           ((turn_event ToolStarted turn)\<lparr>ev_Code := ''turn_cancelled'', ev_Tool := Some (zero_tool
              \<lparr>vt_OperationID := ne_ToolID ev, vt_Name := ne_ToolName ev, vt_Arguments := ne_ToolArguments ev\<rparr>)\<rparr>) m')"

definition stage :: "('sch, 'e) agent_env_scheme \<Rightarrow> nova_event \<Rightarrow> event list \<Rightarrow> ('sch, 'm) agent_block" where
  "stage E ev es = do {
     l \<leftarrow> State_Monad.get;
     (case ag_tools l of
        None \<Rightarrow> proceed
      | Some t \<Rightarrow>
          if 32 \<le> length (tn_staged t) then fail_with E ''provider_failed'' ''too many staged tool calls''
          else do {
            set_tools (\<lambda>t. t\<lparr>tn_staged := staged_call ev (mp_TurnID (ag_mapper l)) es (tn_staged t)\<rparr>);
            proceed }) }"

text \<open>The event that asks the user to confirm what is pending.\<close>
definition confirmation_event :: "'sch orch \<Rightarrow> pending \<Rightarrow> string \<Rightarrow> event" where
  "confirmation_event s p turn = (turn_event ToolConfirmation turn)\<lparr>
     ev_Tool := Some (zero_tool\<lparr>vt_OperationID := pd_OperationID p, vt_Name := pd_Name p, vt_Arguments := pd_Args p\<rparr>),
     ev_Message := ''Diga exatamente '' @ ConfirmationPhrase s @ '', em um novo turno, para o alvo exibido.''\<rparr>"

definition ask_confirmation :: "('sch, 'm) emitter \<Rightarrow> string \<Rightarrow> ('sch, 'm) agent_block" where
  "ask_confirmation em turn = do {
     l \<leftarrow> State_Monad.get;
     (case ag_tools l of
        None \<Rightarrow> proceed
      | Some t \<Rightarrow>
        (case or_Pending (tn_session t) of
           None \<Rightarrow> proceed
         | Some p \<Rightarrow> em [confirmation_event (tn_session t) p turn])) }"

text \<open>An answer that needs no job; \<open>show_result\<close> is \<open>toolResultEvent\<close>.\<close>
definition answer_now ::
  "('sch, 'e) agent_env_scheme \<Rightarrow> ('sch, 'm) emitter \<Rightarrow> (job \<Rightarrow> result \<Rightarrow> event) \<Rightarrow> 'sch tools \<Rightarrow> string \<Rightarrow> job \<Rightarrow> result
   \<Rightarrow> ('sch, 'm) agent_block"
where
  "answer_now E em show_result t turn j r = do {
     stored \<leftarrow> evidenceResult E t j r;
     (if \<not> stored then fail_with E ''storage_failed'' ''cannot persist private evidence''
      else do {
        sent \<leftarrow> send_result E (jb_ID j) r;
        (if \<not> sent then fail_with E ''provider_unavailable'' ''Nova tool result delivery failed''
         else after (em [show_result j r]) (ask_confirmation em turn)) }) }"

text \<open>The job of a call and the immediate answer, if there is one.\<close>
definition plan_staged ::
  "('sch, 'e) agent_env_scheme \<Rightarrow> instant \<Rightarrow> 'sch tools \<Rightarrow> event \<Rightarrow> voice_tool
   \<Rightarrow> (('sch, 'm) agent_scheme, job \<times> result option) state"
where
  "plan_staged E now t call v = do {
     l \<leftarrow> State_Monad.get;
     (if ev_Code call = ''turn_cancelled'' \<or> ev_TurnID call \<noteq> mp_TurnID (ag_mapper l)
      then State_Monad.return (\<lparr>jb_ID = vt_OperationID v, jb_Name = vt_Name v, jb_Key = [], jb_TurnID = ev_TurnID call,
             jb_Args = [], jb_Confirmed = False\<rparr>, Some (Failure ''turn_cancelled''))
      else do {
        session_call E (OpPlan now (vt_OperationID v) (vt_Name v) (ev_TurnID call) (vt_Arguments v));
        State_Monad.return (snd (Plan (rn_lib E) now (vt_OperationID v) (vt_Name v) (ev_TurnID call)
          (vt_Arguments v) (tn_session t))) }) }"

text \<open>Answer a call or start its job: at most four jobs run.\<close>
definition execute_call ::
  "('sch, 'e) agent_env_scheme \<Rightarrow> ('sch, 'm) emitter \<Rightarrow> (job \<Rightarrow> result \<Rightarrow> event) \<Rightarrow> 'sch tools \<Rightarrow> string \<Rightarrow> job \<Rightarrow> result option
   \<Rightarrow> ('sch, 'm) agent_block"
where
  "execute_call E em show_result t turn j immediate =
     (case (if immediate = None \<and> 4 \<le> length (tn_active t) then Some (Failure ''tool_busy'') else immediate) of
        Some r \<Rightarrow> answer_now E em show_result t turn j r
      | None \<Rightarrow> do { start_job j; proceed })"

text \<open>Announce the call, then execute it.\<close>
definition run_call ::
  "('sch, 'e) agent_env_scheme \<Rightarrow> instant \<Rightarrow> 'sch tools \<Rightarrow> event \<Rightarrow> voice_tool \<Rightarrow> ('sch, 'm) agent_block"
where
  "run_call E now t call v = do {
     (j, immediate) \<leftarrow> plan_staged E now t call v;
     after (emit E now [call]) (execute_call E (emit E now) toolResultEvent t (ev_TurnID call) j immediate) }"

text \<open>
  The end of a tool content: the staged call is executed, by \<open>run_call\<close> or what the account agent
  has in its place, and the mapper's events follow.
\<close>
definition end_call ::
  "('sch, 'm) emitter \<Rightarrow> ('sch tools \<Rightarrow> event \<Rightarrow> voice_tool \<Rightarrow> ('sch, 'm) agent_block) \<Rightarrow> nova_event \<Rightarrow> event list
   \<Rightarrow> ('sch, 'm) agent_block"
where
  "end_call em run ev es = do {
     l \<leftarrow> State_Monad.get;
     (case ag_tools l of
        None \<Rightarrow> em es
      | Some t \<Rightarrow>
        (case gget (tn_staged t) (ne_ContentID ev) of
           None \<Rightarrow> em es
         | Some call \<Rightarrow> do {
             set_tools (\<lambda>t. t\<lparr>tn_staged := gdel (ne_ContentID ev) (tn_staged t)\<rparr>);
             (case ev_Tool call of
                None \<Rightarrow> panic
              | Some v \<Rightarrow>
                  if vt_OperationID v \<in> set (tn_active t) then proceed
                  else after (run t call v) (em es)) })) }"

text \<open>\<open>case event, ok := <-stream.Events()\<close>\<close>
definition on_stream :: "('sch, 'e) agent_env_scheme \<Rightarrow> instant \<Rightarrow> string \<Rightarrow> nova_event \<Rightarrow> ('sch, 'm) agent_block" where
  "on_stream E now fresh ev = do {
     l \<leftarrow> State_Monad.get;
     set_mapper (fst (MapEvent now fresh ev (ag_mapper l)));
     (case snd (MapEvent now fresh ev (ag_mapper l)) of
        Inl err \<Rightarrow> if ne_Err ev = None \<and> err = slice_panic then panic
                   else fail_with E ''provider_failed'' ''Nova returned an invalid response''
      | Inr es \<Rightarrow>
          if ag_tools l = None then emit E now es
          else after (hear E (ne_ContentID ev) es) (do {
            assign (end_utterance ev);
            observe E now ev;
            (if ne_Kind ev = ''toolUse'' then stage E ev es
             else if ne_Kind ev = ''contentEnd'' then end_call (emit E now) (run_call E now) ev es
             else emit E now es) })) }"

section \<open>The loop\<close>

datatype agent_input =
    InDone | InTurnTimeout | InRenew | InClosed
  | InError error
  | InEvent event
  | InFinished nat "error + result"
  | InStreamClosed
  | InStream nova_event

type_synonym agent_tick = "instant \<times> string \<times> agent_input"

text \<open>A timer whose deadline has not come is not ready: then nothing happens.\<close>
fun agent_step :: "('sch, 'e) agent_env_scheme \<Rightarrow> agent_tick \<Rightarrow> ('sch, 'm) agent_block" where
  "agent_step E (now, fresh, InDone) = leave"
| "agent_step E (now, fresh, InTurnTimeout) = do {
     l \<leftarrow> State_Monad.get;
     (case ag_turnTimeout l of None \<Rightarrow> proceed | Some d \<Rightarrow> if now < d then proceed else on_turn_timeout E (emit E now)) }"
| "agent_step E (now, fresh, InRenew) = do {
     l \<leftarrow> State_Monad.get;
     (if now < ag_renew l then proceed else on_renew E (emit E now) (rotate E now) now) }"
| "agent_step E (now, fresh, InClosed) = leave"
| "agent_step E (now, fresh, InError err) = refuse E ''invalid_event'' err"
| "agent_step E (now, fresh, InEvent e) = on_event E now e"
| "agent_step E (now, fresh, InFinished i outcome) = on_finished E now i outcome"
| "agent_step E (now, fresh, InStreamClosed) = fail_with E ''provider_unavailable'' ''Nova stream disconnected''"
| "agent_step E (now, fresh, InStream ev) = on_stream E now fresh ev"

definition agent_loop :: "('sch, 'e) agent_env_scheme \<Rightarrow> agent_tick list \<Rightarrow> ('sch, 'm) agent_block" where
  "agent_loop E ticks = each (agent_step E) ticks"

definition agent_start :: "('sch, 'e) agent_env_scheme \<Rightarrow> instant \<Rightarrow> 'sch tools option \<Rightarrow> 'sch agent" where
  "agent_start E now ts =
     \<lparr>ag_mapper = NewMapper [], ag_tools = ts, ag_inputID = [], ag_inputSequence = 0, ag_usedInputs = [],
      ag_openedAt = now, ag_renew = now + rn_NovaMaxSessionAge E, ag_turnTimeout = None, ag_userTexts = [],
      ag_userTurns = [], ag_completedUser = [], ag_completedUserTurn = [], ag_io = 0, ag_trace = []\<rparr>"

text \<open>The deferred calls, when \<open>Run\<close> returns.\<close>
definition deferred :: "('sch, 'm) agent_block \<Rightarrow> agent_act \<Rightarrow> ('sch, 'm) agent_block" where
  "deferred m a = do { ok \<leftarrow> m; (if ok then proceed else do { act a; leave }) }"

text \<open>\<open>Run\<close>: \<open>opened\<close> is the error of \<open>nova.Open\<close>. The result \<open>True\<close> is a session that still runs.\<close>
definition agent_run ::
  "('sch, 'e) agent_env_scheme \<Rightarrow> error + 'sch tools option \<Rightarrow> error option \<Rightarrow> agent_tick list \<Rightarrow> ('sch, 'm) agent_block"
where
  "agent_run E ts opened ticks =
     (case ts of
        Inl _ \<Rightarrow> fail_with E ''mcp_unavailable'' ''MCP initialization or discovery failed''
      | Inr t \<Rightarrow>
          (let body = (case opened of
                 Some err \<Rightarrow> fail_with E ''provider_unavailable'' err
               | None \<Rightarrow> do {
                   act (OpenedStream (rn_prompt E) []);
                   deferred (after (write_event E (zero_event\<lparr>ev_Type := SessionReady, ev_Provider := ''nova'', ev_State := Idle\<rparr>))
                     (agent_loop E ticks)) ClosedStream })
           in if t = None then body else deferred body ClosedTools))"

end
