(* ===== verification/Agent_Safety.thy ===== *)
theory Agent_Safety
  imports Agent_Runtime "HOL-Library.Sublist"
begin

text \<open>
  The safety of the assistant's session loop (\<open>Agent_Runtime\<close>). The trace of a session is read by
  \<open>calls_of\<close> (the calls of the orchestrator), \<open>ran_of\<close> (the started jobs) and \<open>job_track\<close> (which
  jobs run). \<open>agent_inv\<close> ties the trace to the variables of the loop; one lemma per block says that
  the block keeps it, and the properties of a session follow for every sequence of inputs and
  every pattern of failures.
\<close>

section \<open>Reading a trace\<close>

text \<open>The calls of the orchestrator and the jobs that were started.\<close>
definition calls_of :: "agent_act list \<Rightarrow> orch_op list" where
  "calls_of tr = List.map_filter (\<lambda>a. case a of Called x \<Rightarrow> Some x | _ \<Rightarrow> None) tr"

definition ran_of :: "agent_act list \<Rightarrow> job list" where
  "ran_of tr = List.map_filter (\<lambda>a. case a of Ran j \<Rightarrow> Some j | _ \<Rightarrow> None) tr"

text \<open>
  The ids of the jobs that run, along a trace: a job starts only under an id that is not running,
  while fewer than four run; only a running job completes; the provider's stream is replaced only
  when no job runs.
\<close>
definition job_step :: "string list \<Rightarrow> agent_act \<Rightarrow> string list option" where
  "job_step ids a =
     (case a of
        Ran j \<Rightarrow> if jb_ID j \<in> set ids \<or> 4 \<le> length ids then None else Some (jb_ID j # ids)
      | Called (OpComplete j r) \<Rightarrow> if jb_ID j \<in> set ids then Some (removeAll (jb_ID j) ids) else None
      | OpenedStream prompt hist \<Rightarrow> if ids = [] then Some [] else None
      | _ \<Rightarrow> Some ids)"

fun job_track :: "string list \<Rightarrow> agent_act list \<Rightarrow> string list option" where
  "job_track ids [] = Some ids"
| "job_track ids (a # as) = (case job_step ids a of None \<Rightarrow> None | Some ids' \<Rightarrow> job_track ids' as)"

definition output_act :: "agent_act \<Rightarrow> bool" where
  "output_act a \<longleftrightarrow> (case a of Called x \<Rightarrow> False | Ran j \<Rightarrow> False | OpenedStream p h \<Rightarrow> False | Panicked \<Rightarrow> False | _ \<Rightarrow> True)"

lemma trace_simps [simp]:
  "calls_of [] = []" "ran_of [] = []"
  "calls_of (xs @ ys) = calls_of xs @ calls_of ys" "ran_of (xs @ ys) = ran_of xs @ ran_of ys"
  "calls_of [Called x] = [x]" "ran_of [Ran j] = [j]"
  "calls_of [Ran j] = []" "ran_of [Called x] = []"
  "output_act a \<Longrightarrow> calls_of [a] = []" "output_act a \<Longrightarrow> ran_of [a] = []"
  "calls_of [OpenedStream p h] = []" "ran_of [OpenedStream p h] = []"
  "calls_of [Panicked] = []" "ran_of [Panicked] = []"
  by (auto simp: calls_of_def ran_of_def map_filter_def output_act_def split: agent_act.splits)

lemma output_act_simps [simp]:
  "output_act (Wrote e)" "output_act HookError" "output_act HookCompleted" "output_act HookInterrupted"
  "output_act (HookFirstAudio d)" "output_act ClosedStream" "output_act (SentAudio s)"
  "output_act (SentResult i r)" "output_act (Evidence s)" "output_act ClosedTools" "output_act (SentText s)"
  by (simp_all add: output_act_def)

lemma job_step_output [simp]: "output_act a \<Longrightarrow> job_step ids a = Some ids"
  by (cases a) (simp_all add: output_act_def job_step_def)

lemma job_track_append:
  "job_track ids (xs @ ys) = (case job_track ids xs of None \<Rightarrow> None | Some ids' \<Rightarrow> job_track ids' ys)"
  by (induction xs arbitrary: ids) (auto split: option.split)

lemma trace_outputs:
  assumes "list_all output_act tr"
  shows "calls_of tr = []" "ran_of tr = []" "job_track ids tr = Some ids" "Panicked \<notin> set tr"
proof -
  have "calls_of tr = [] \<and> ran_of tr = [] \<and> job_track ids tr = Some ids \<and> Panicked \<notin> set tr"
    using assms
  proof (induction tr)
    case (Cons a tr)
    then have out: "output_act a" by simp
    have "calls_of ([a] @ tr) = []" "ran_of ([a] @ tr) = []"
      using Cons out by (simp_all only: trace_simps list.pred_inject append_Nil)
    then show ?case using Cons out by (auto simp: output_act_def)
  qed simp
  then show "calls_of tr = []" "ran_of tr = []" "job_track ids tr = Some ids" "Panicked \<notin> set tr" by auto
qed

lemma started_append: "started L s (xs @ ys) = started L s xs @ started L (orch_run L s xs) ys"
  by (induction xs arbitrary: s) simp_all

section \<open>What output does to the state\<close>

text \<open>
  Nothing but the turn timer, the count of operations, the trace and the variables a caller adds
  changes.
\<close>
definition quiet_step :: "('sch, 'm) agent_scheme \<Rightarrow> ('sch, 'm) agent_scheme \<Rightarrow> bool" where
  "quiet_step l l' \<longleftrightarrow> (\<exists>to n tr x. list_all output_act tr
     \<and> l' = agent.more_update (\<lambda>_. x) (l\<lparr>ag_turnTimeout := to, ag_io := n, ag_trace := ag_trace l @ tr\<rparr>))"

lemma quiet_stepI:
  "l' = agent.more_update (\<lambda>_. x) (l\<lparr>ag_turnTimeout := to, ag_io := n, ag_trace := ag_trace l @ tr\<rparr>) \<Longrightarrow> list_all output_act tr \<Longrightarrow> quiet_step l l'"
  by (auto simp: quiet_step_def)

lemma quiet_refl [simp]: "quiet_step l l"
  by (rule quiet_stepI [where to = "ag_turnTimeout l" and n = "ag_io l" and tr = "[]" and x = "agent.more l"]) simp_all

lemma quiet_updates:
  assumes "quiet_step l l'"
  shows "quiet_step l (l'\<lparr>ag_turnTimeout := to\<rparr>)" "quiet_step l (l'\<lparr>ag_io := n\<rparr>)" "quiet_step l (agent.more_update (\<lambda>_. x) l')"
    "output_act a \<Longrightarrow> quiet_step l (l'\<lparr>ag_trace := ag_trace l' @ [a]\<rparr>)"
proof -
  obtain to' n' tr x' where l': "l' = agent.more_update (\<lambda>_. x') (l\<lparr>ag_turnTimeout := to', ag_io := n', ag_trace := ag_trace l @ tr\<rparr>)"
    and tr: "list_all output_act tr" using assms by (auto simp: quiet_step_def)
  show "quiet_step l (l'\<lparr>ag_turnTimeout := to\<rparr>)"
    by (rule quiet_stepI [where to = to and n = n' and tr = tr and x = x']) (simp_all add: l' tr)
  show "quiet_step l (l'\<lparr>ag_io := n\<rparr>)"
    by (rule quiet_stepI [where to = to' and n = n and tr = tr and x = x']) (simp_all add: l' tr)
  show "quiet_step l (agent.more_update (\<lambda>_. x) l')"
    by (rule quiet_stepI [where to = to' and n = n' and tr = tr and x = x]) (simp_all add: l' tr)
  show "output_act a \<Longrightarrow> quiet_step l (l'\<lparr>ag_trace := ag_trace l' @ [a]\<rparr>)"
    by (rule quiet_stepI [where to = to' and n = n' and tr = "tr @ [a]" and x = x']) (simp_all add: l' tr)
qed

lemma quiet_simps:
  assumes "quiet_step l l'"
  shows "ag_tools l' = ag_tools l" "ag_mapper l' = ag_mapper l" "ag_usedInputs l' = ag_usedInputs l"
    "calls_of (ag_trace l') = calls_of (ag_trace l)" "ran_of (ag_trace l') = ran_of (ag_trace l)"
    "job_track ids (ag_trace l') = job_track ids (ag_trace l)"
    "Panicked \<in> set (ag_trace l') \<longleftrightarrow> Panicked \<in> set (ag_trace l)"
  using assms trace_outputs by (auto simp: quiet_step_def job_track_append split: option.split)

definition silent :: "(('sch, 'm) agent_scheme, 'a) state \<Rightarrow> bool" where
  "silent m \<longleftrightarrow> (\<forall>l. keeps (quiet_step l) m)"

lemma silentI: "(\<And>l. keeps (quiet_step l) m) \<Longrightarrow> silent m"
  by (simp add: silent_def)

lemma silent_wp: "silent m \<Longrightarrow> (\<And>x l'. quiet_step l l' \<Longrightarrow> Q x l') \<Longrightarrow> wp m Q l"
  unfolding silent_def by (rule keeps_wp [where I = "quiet_step l"]) auto

lemma silent_simple: "silent (State_Monad.return x)" "silent State_Monad.get"
  by (simp_all add: silent_def)

lemma silent_flow: "silent proceed" "silent leave"
  by (simp_all add: silent_def)

lemma silent_bind: "silent m \<Longrightarrow> (\<And>x. silent (f x)) \<Longrightarrow> silent (State_Monad.bind m f)"
  by (auto simp: silent_def intro: keeps_bind)

lemma silent_if: "(b \<Longrightarrow> silent m) \<Longrightarrow> (\<not> b \<Longrightarrow> silent n) \<Longrightarrow> silent (if b then m else n)"
  by simp

lemma silent_after: "silent m \<Longrightarrow> silent k \<Longrightarrow> silent (after m k)"
  by (auto simp: silent_def intro: keeps_after)

lemma silent_each: "(\<And>x. x \<in> set xs \<Longrightarrow> silent (f x)) \<Longrightarrow> silent (each f xs)"
  by (auto simp: silent_def intro: keeps_each)

lemma silent_act: "output_act a \<Longrightarrow> silent (act a)"
  by (auto simp: silent_def act_def intro: keeps_assign quiet_updates)

lemma silent_timer: "silent (assign (\<lambda>l. l\<lparr>ag_turnTimeout := to\<rparr>))"
  by (auto simp: silent_def intro: keeps_assign quiet_updates)

lemma silent_attempt: "silent (attempt E)"
  unfolding attempt_def by (rule silentI) (auto intro!: keeps_bind keeps_assign quiet_updates)

lemmas silent_rules = silent_simple silent_flow silent_bind silent_if silent_after silent_act silent_timer
  silent_attempt output_act_simps

lemma silent_write: "silent (write_event E e)"
  unfolding write_event_def by (intro silent_rules)

lemma silent_errors:
  "silent (sendError E c m)" "silent (fail_with E c m)" "silent (refuse E c m)" "silent (stop_session E)"
  unfolding sendError_def fail_with_def refuse_def stop_session_def by (intro silent_rules silent_write)+

lemma silent_tools: "silent (evidenceResult E t j r)" "silent (send_result E i r)"
  unfolding evidenceResult_def send_result_def by (intro silent_rules)+

text \<open>A completed turn carries its metrics, and a tool call its tool.\<close>
definition event_ok :: "event \<Rightarrow> bool" where
  "event_ok e \<longleftrightarrow> (ev_Type e = TurnCompleted \<longrightarrow> ev_Metrics e \<noteq> None)
     \<and> (ev_Type e = ToolStarted \<longrightarrow> ev_Tool e \<noteq> None)"

lemma silent_emit_one: "event_ok e \<Longrightarrow> silent (emit_one E now e)"
proof -
  assume "event_ok e"
  then have "\<not> (ev_Type e = TurnCompleted \<and> ev_Metrics e = None)" by (auto simp: event_ok_def)
  then show ?thesis unfolding emit_one_def by (simp only: if_False) (intro silent_rules silent_write)
qed

lemma silent_emit: "list_all event_ok es \<Longrightarrow> silent (emit E now es)"
  unfolding emit_def by (rule silent_each) (auto simp: list_all_iff intro: silent_emit_one)

section \<open>What the mapper hands out\<close>

lemma event_ok_turn [simp]: "t \<noteq> TurnCompleted \<Longrightarrow> t \<noteq> ToolStarted \<Longrightarrow> event_ok (turn_event t turn)"
  by (simp add: event_ok_def turn_event_def)

lemma event_ok_simps [simp]:
  "event_ok (e\<lparr>ev_Metrics := Some m\<rparr>) \<longleftrightarrow> (ev_Type e = ToolStarted \<longrightarrow> ev_Tool e \<noteq> None)" "event_ok (e\<lparr>ev_State := st\<rparr>) = event_ok e"
  "event_ok (e\<lparr>ev_Tool := Some v\<rparr>) \<longleftrightarrow> (ev_Type e = TurnCompleted \<longrightarrow> ev_Metrics e \<noteq> None)" "event_ok (e\<lparr>ev_Sequence := n\<rparr>) = event_ok e"
  "event_ok (e\<lparr>ev_Message := txt\<rparr>) = event_ok e" "event_ok (e\<lparr>ev_Code := txt\<rparr>) = event_ok e"
  "event_ok (e\<lparr>ev_Role := r\<rparr>) = event_ok e" "event_ok (e\<lparr>ev_Stage := txt\<rparr>) = event_ok e"
  "event_ok (e\<lparr>ev_Text := txt\<rparr>) = event_ok e" "event_ok (e\<lparr>ev_Audio := txt\<rparr>) = event_ok e"
  "event_ok (e\<lparr>ev_SampleRate := i\<rparr>) = event_ok e"
  by (simp_all add: event_ok_def)

lemma event_ok_mapper [simp]:
  "event_ok (mapper_state m)" "list_all event_ok (snd (InterruptTurn m))"
  "list_all event_ok (snd (complete_turn now m))"
  by (simp_all add: mapper_state_def InterruptTurn_def complete_turn_def Let_def)

lemma event_ok_interrupting [simp]:
  "list_all event_ok (snd (if c then InterruptTurn m else (m, [])))"
  by simp

lemma event_ok_StartInput [simp]: "list_all event_ok (snd (StartInput now ident m))"
  using event_ok_interrupting [of "mp_State m = Responding" m]
  by (cases "if mp_State m = Responding then InterruptTurn m else (m, [])") (simp add: StartInput_def Let_def)

definition good_result :: "error + event list \<Rightarrow> bool" where
  "good_result r \<longleftrightarrow> (case r of Inl _ \<Rightarrow> True | Inr es \<Rightarrow> list_all event_ok es)"

lemma good_simps [simp]:
  "good_result (Inl err)" "good_result (Inr es) = list_all event_ok es"
  "good_result (snd (apsnd Inr (InterruptTurn m)))" "good_result (snd (apsnd Inr (complete_turn now m)))"
  by (simp_all add: good_result_def)

lemma good_start: "good_result (snd (map_start now fresh e m))"
proof (cases "ne_Role e = ''USER''")
  case True
  define r where "r = (let m' = m\<lparr>mp_waitingUser := False\<rparr> in if mp_State m' = Responding then InterruptTurn m' else (m', []))"
  have "list_all event_ok (snd r)" by (simp add: r_def Let_def)
  then show ?thesis
    using True by (cases r) (simp add: map_start_def map_user_start_def r_def [symmetric], simp add: Let_def)
next
  case False
  then show ?thesis by (simp add: map_start_def Let_def)
qed

lemma good_end: "good_result (snd (map_end now e c m))"
  unfolding map_end_def Let_def by (cases "ne_StopReason e = ''INTERRUPTED''") (simp_all split: sum.split)

lemma good_MapEvent: "good_result (snd (MapEvent now fresh e m))"
proof -
  have "good_result (snd (map_text e c m))" "good_result (snd (map_tool e c m))"
    "good_result (snd (map_audio now e c m))" for c
    by (simp_all add: map_text_def map_tool_def map_audio_def Let_def split: option.split)
  then show ?thesis
    by (simp add: MapEvent_def good_start good_end split: option.split)
qed

section \<open>The invariant\<close>

text \<open>
  The orchestrator's session is what the calls in the trace make of the first one, and the started
  jobs are jobs it handed out, in that order.
\<close>
definition session_ok :: "'sch lib \<Rightarrow> 'sch orch \<Rightarrow> ('sch, 'm) agent_scheme \<Rightarrow> bool" where
  "session_ok L s0 l \<longleftrightarrow>
     subseq (ran_of (ag_trace l)) (started L s0 (calls_of (ag_trace l)))
     \<and> (case ag_tools l of None \<Rightarrow> True | Some t \<Rightarrow> tn_session t = orch_run L s0 (calls_of (ag_trace l)))"

text \<open>
  Each staged call names a tool. With \<open>strict\<close>, what the assistant's loop keeps and the account
  agent's does not: at most four jobs run, under different ids. The account agent always has tools.
\<close>
definition staged_wf :: "event gomap \<Rightarrow> bool" where
  "staged_wf m \<longleftrightarrow> length m \<le> 32 \<and> list_all (\<lambda>(k, e). ev_Type e = ToolStarted \<and> event_ok e) m"

definition tools_wf :: "bool \<Rightarrow> 'sch tools \<Rightarrow> bool" where
  "tools_wf strict t \<longleftrightarrow> staged_wf (tn_staged t) \<and> (strict \<longrightarrow> tn_active t = map jb_ID (tn_running t)
     \<and> distinct (tn_active t) \<and> length (tn_active t) \<le> 4)"

definition tools_ok :: "bool \<Rightarrow> ('sch, 'm) agent_scheme \<Rightarrow> bool" where
  "tools_ok strict l \<longleftrightarrow> (case ag_tools l of
       None \<Rightarrow> strict \<and> job_track [] (ag_trace l) = Some []
     | Some t \<Rightarrow> tools_wf strict t \<and> (strict \<longrightarrow> job_track [] (ag_trace l) = Some (tn_active t)))"

lemma tools_wf_session [simp]: "tools_wf strict (t\<lparr>tn_session := s\<rparr>) = tools_wf strict t"
  by (simp add: tools_wf_def)

lemma tools_wf_staged: "tools_wf strict t \<Longrightarrow> staged_wf m \<Longrightarrow> tools_wf strict (t\<lparr>tn_staged := m\<rparr>)"
  by (auto simp: tools_wf_def)

text \<open>With \<open>safe\<close> nothing has panicked, with \<open>idle\<close> no job runs.\<close>
definition agent_inv :: "bool \<Rightarrow> bool \<Rightarrow> bool \<Rightarrow> 'sch lib \<Rightarrow> 'sch orch \<Rightarrow> ('sch, 'm) agent_scheme \<Rightarrow> bool" where
  "agent_inv strict safe idle L s0 l \<longleftrightarrow> session_ok L s0 l \<and> tools_ok strict l \<and> mapper_safe (ag_mapper l)
     \<and> distinct (ag_usedInputs l) \<and> length (ag_usedInputs l) \<le> MaxTurns
     \<and> (safe \<longrightarrow> Panicked \<notin> set (ag_trace l)) \<and> (idle \<longrightarrow> \<not> tools_busy l)"

lemma agent_inv_quiet: "quiet_step l l' \<Longrightarrow> agent_inv strict safe idle L s0 l' = agent_inv strict safe idle L s0 l"
  by (simp add: agent_inv_def session_ok_def tools_ok_def tools_busy_def quiet_simps cong: option.case_cong)

lemma silent_keeps: "silent m \<Longrightarrow> keeps (agent_inv strict safe idle L s0) m"
  by (auto intro!: keepsI silent_wp simp: agent_inv_quiet)

lemma agent_inv_fields [simp]:
  "agent_inv strict safe idle L s0 (l\<lparr>ag_inputID := i\<rparr>) = agent_inv strict safe idle L s0 l"
  "agent_inv strict safe idle L s0 (l\<lparr>ag_inputSequence := n\<rparr>) = agent_inv strict safe idle L s0 l"
  "agent_inv strict safe idle L s0 (l\<lparr>ag_openedAt := t\<rparr>) = agent_inv strict safe idle L s0 l"
  "agent_inv strict safe idle L s0 (l\<lparr>ag_renew := t\<rparr>) = agent_inv strict safe idle L s0 l"
  "agent_inv strict safe idle L s0 (l\<lparr>ag_turnTimeout := d\<rparr>) = agent_inv strict safe idle L s0 l"
  "agent_inv strict safe idle L s0 (l\<lparr>ag_userTexts := g\<rparr>) = agent_inv strict safe idle L s0 l"
  "agent_inv strict safe idle L s0 (l\<lparr>ag_userTurns := g\<rparr>) = agent_inv strict safe idle L s0 l"
  "agent_inv strict safe idle L s0 (l\<lparr>ag_completedUser := i\<rparr>) = agent_inv strict safe idle L s0 l"
  "agent_inv strict safe idle L s0 (l\<lparr>ag_completedUserTurn := i\<rparr>) = agent_inv strict safe idle L s0 l"
  "agent_inv strict safe idle L s0 (agent.more_update (\<lambda>_. x) l) = agent_inv strict safe idle L s0 l"
  by (simp_all add: agent_inv_def session_ok_def tools_ok_def tools_busy_def cong: option.case_cong)

lemma agent_inv_mapper: "agent_inv strict safe idle L s0 l \<Longrightarrow> mapper_safe m \<Longrightarrow> agent_inv strict safe idle L s0 (l\<lparr>ag_mapper := m\<rparr>)"
  by (simp add: agent_inv_def session_ok_def tools_ok_def tools_busy_def cong: option.case_cong)

lemma agent_inv_inputs:
  "agent_inv strict safe idle L s0 l \<Longrightarrow> distinct xs \<Longrightarrow> length xs \<le> MaxTurns \<Longrightarrow> agent_inv strict safe idle L s0 (l\<lparr>ag_usedInputs := xs\<rparr>)"
  by (simp add: agent_inv_def session_ok_def tools_ok_def tools_busy_def cong: option.case_cong)

lemma agent_inv_staged:
  "agent_inv strict safe idle L s0 l \<Longrightarrow> (\<And>t. ag_tools l = Some t \<Longrightarrow> staged_wf (f t))
     \<Longrightarrow> agent_inv strict safe idle L s0 (l\<lparr>ag_tools := map_option (\<lambda>t. t\<lparr>tn_staged := f t\<rparr>) (ag_tools l)\<rparr>)"
  by (cases "ag_tools l") (simp_all add: agent_inv_def session_ok_def tools_ok_def tools_busy_def tools_wf_staged)

section \<open>Every block keeps it\<close>

lemma keeps_set_mapper: "mapper_safe m \<Longrightarrow> keeps (agent_inv strict safe idle L s0) (set_mapper m)"
  unfolding set_mapper_def by (rule keeps_assign) (rule agent_inv_mapper)

lemma keeps_emit: "list_all event_ok es \<Longrightarrow> keeps (agent_inv strict safe idle L s0) (emit E now es)"
  by (intro silent_keeps silent_emit)

lemma keeps_fail: "keeps (agent_inv strict safe idle L s0) (fail_with E c m)" "keeps (agent_inv strict safe idle L s0) (refuse E c m)"
  "keeps (agent_inv strict safe idle L s0) (stop_session E)"
  by (intro silent_keeps silent_errors)+

lemma inv_mapper: "agent_inv strict safe idle L s0 l \<Longrightarrow> mapper_safe (ag_mapper l)"
  by (simp add: agent_inv_def)

definition completes :: "orch_op \<Rightarrow> bool" where
  "completes x \<longleftrightarrow> (case x of OpComplete j r \<Rightarrow> True | _ \<Rightarrow> False)"

lemma completes_simps [simp]:
  "\<not> completes OpInterrupt" "\<not> completes (OpPlan now i n t a)" "\<not> completes (OpObserve now t x)"
  "\<not> completes (OpConfirm now i ok)" "completes (OpComplete j r)"
  by (simp_all add: completes_def)

lemma job_step_called: "\<not> completes x \<Longrightarrow> job_step ids (Called x) = Some ids"
  by (cases x) (simp_all add: job_step_def)

text \<open>The state after a call: the session follows the trace, and the jobs stay.\<close>
definition called :: "'sch lib \<Rightarrow> orch_op \<Rightarrow> ('sch, 'm) agent_scheme \<Rightarrow> ('sch, 'm) agent_scheme" where
  "called L x l = l\<lparr>ag_trace := ag_trace l @ [Called x],
     ag_tools := map_option (\<lambda>t. t\<lparr>tn_session := orch_step L (tn_session t) x\<rparr>) (ag_tools l)\<rparr>"

lemma wp_call [simp]: "wp (session_call E x) Q l = Q () (called (rn_lib E) x l)"
  by (simp add: session_call_def act_def set_tools_def called_def)

lemma subseq_before: "subseq xs ys \<Longrightarrow> subseq xs (ys @ zs)"
  using list_emb_append_mono [of "(=)" xs ys "[]" zs] by simp

lemma session_ok_call: "session_ok L s0 l \<Longrightarrow> session_ok L s0 (called L x l)"
  by (simp add: session_ok_def called_def started_append subseq_before split: option.splits)

lemma tools_ok_call: "\<not> completes x \<Longrightarrow> tools_ok strict l \<Longrightarrow> tools_ok strict (called L x l)"
  by (cases "ag_tools l") (simp_all add: tools_ok_def called_def job_track_append job_step_called)

lemma called_frame [simp]:
  "ag_mapper (called L x l) = ag_mapper l" "ag_usedInputs (called L x l) = ag_usedInputs l"
  "Panicked \<in> set (ag_trace (called L x l)) \<longleftrightarrow> Panicked \<in> set (ag_trace l)"
  "tools_busy (called L x l) \<longleftrightarrow> tools_busy l"
  by (simp_all add: called_def tools_busy_def split: option.split)

lemma agent_inv_call: "\<not> completes x \<Longrightarrow> agent_inv strict safe idle L s0 l \<Longrightarrow> agent_inv strict safe idle L s0 (called L x l)"
  by (simp add: agent_inv_def session_ok_call tools_ok_call)

lemma keeps_call: "\<not> completes x \<Longrightarrow> keeps (agent_inv strict safe idle (rn_lib E) s0) (session_call E x)"
  by (rule keepsI) (simp add: agent_inv_call)

lemma keeps_staged:
  "(\<And>m. staged_wf m \<Longrightarrow> staged_wf (f m))
     \<Longrightarrow> keeps (agent_inv strict safe idle L s0) (set_tools (\<lambda>t. t\<lparr>tn_staged := f (tn_staged t)\<rparr>))"
  unfolding set_tools_def
  by (rule keeps_assign, rule agent_inv_staged) (auto simp: agent_inv_def tools_ok_def tools_wf_def)

lemma staged_wf_simps [simp]: "staged_wf []" "staged_wf m \<Longrightarrow> staged_wf (gdel k m)"
proof -
  show "staged_wf (gdel k m)" if "staged_wf m"
    using that by (auto simp: staged_wf_def list_all_iff AList.delete_eq intro: le_trans [OF length_filter_le])
qed (simp add: staged_wf_def)

text \<open>A stream is opened only while no job runs.\<close>
lemma keeps_opened: "idle \<or> \<not> strict \<Longrightarrow> keeps (agent_inv strict safe idle L s0) (act (OpenedStream p h))"
  unfolding act_def
  by (rule keeps_assign)
    (auto simp: agent_inv_def session_ok_def tools_ok_def tools_wf_def tools_busy_def job_track_append job_step_def split: option.splits)

lemma inv_renewed: "agent_inv strict safe idle L s0 l \<Longrightarrow> mapper_safe (NewMapper (mp_History (ag_mapper l)))"
  by (simp add: mapper_wf_NewMapper)

lemma keeps_reopen: "idle \<or> \<not> strict \<Longrightarrow> keeps (agent_inv strict safe idle (rn_lib E) s0) (reopen E prompt now)"
  unfolding reopen_def
  by (intro keeps_get keeps_bind keeps_option keeps_if)
    (auto intro!: silent_keeps silent_act silent_attempt silent_errors silent_write silent_simple keeps_call
      keeps_staged keeps_opened keeps_assign agent_inv_mapper intro: inv_renewed)

lemma keeps_rotate: "keeps (agent_inv strict safe True (rn_lib E) s0) (rotate E now)"
  unfolding rotate_def by (rule keeps_reopen) simp

text \<open>The blocks that renew the stream start with no job running.\<close>
lemma inv_idle: "agent_inv strict safe idle L s0 l \<Longrightarrow> \<not> tools_busy l \<Longrightarrow> agent_inv strict safe True L s0 l"
  by (simp add: agent_inv_def)

lemma inv_any: "agent_inv strict safe True L s0 l \<Longrightarrow> agent_inv strict safe idle L s0 l"
  by (simp add: agent_inv_def)

lemma idle_wp:
  "keeps (agent_inv strict safe True L s0) m \<Longrightarrow> agent_inv strict safe idle L s0 l \<Longrightarrow> \<not> tools_busy l
     \<Longrightarrow> wp m (\<lambda>_. agent_inv strict safe idle L s0) l"
  by (rule keeps_weaken [where J = "agent_inv strict safe True L s0"]) (auto intro: inv_idle inv_any)

lemma keeps_try_later: "keeps (agent_inv strict safe idle L s0) (try_later now)"
  unfolding try_later_def by (auto intro!: keeps_bind keeps_assign)

lemma keeps_forward_audio: "keeps (agent_inv strict safe idle L s0) (forward_audio E e)"
  unfolding forward_audio_def
  by (intro keeps_get keeps_bind keeps_if)
    (auto intro!: keeps_fail silent_keeps silent_act silent_attempt silent_flow keeps_assign)

lemma keeps_on_audio:
  assumes "\<And>turn. keeps (agent_inv strict safe idle L s0) (start turn)"
  shows "keeps (agent_inv strict safe idle L s0) (on_audio E start e)"
proof (rule keepsI, goal_cases)
  case (1 l)
  let ?l = "l\<lparr>ag_inputID := ev_TurnID e, ag_inputSequence := 0,
      ag_usedInputs := ev_TurnID e # ag_usedInputs l\<rparr>"
  have "wp (after (start (ev_TurnID e)) (forward_audio E e)) (\<lambda>_. agent_inv strict safe idle L s0) ?l"
    if "length (ag_usedInputs l) < MaxTurns" "ev_TurnID e \<notin> set (ag_usedInputs l)"
  proof (intro keepsD keeps_after assms keeps_forward_audio)
    have "distinct (ag_usedInputs l)" using 1 by (simp add: agent_inv_def)
    then show "agent_inv strict safe idle L s0 ?l"
      using 1 that by (intro agent_inv_inputs) simp_all
  qed
  moreover have "wp (forward_audio E e) (\<lambda>_. agent_inv strict safe idle L s0) l"
    "wp (refuse E c m) (\<lambda>_. agent_inv strict safe idle L s0) l" for c m
    by (intro keepsD keeps_forward_audio keeps_fail 1)+
  ultimately show ?case by (simp add: on_audio_def del: wp_after)
qed

lemma keeps_on_commit: "keeps (agent_inv strict safe idle L s0) (on_commit E now e)"
proof -
  have c: "mapper_safe (CommitInput now m)" if "mapper_safe m" for m
    using that any_history.inv_mapper_call [of m "MCommit now"] by simp
  show ?thesis
    unfolding on_commit_def
    by (intro keeps_get keeps_bind keeps_if)
      (auto intro!: keeps_fail keeps_assign agent_inv_mapper c intro: inv_mapper)
qed

text \<open>
  What the loops' closures \<open>emit\<close> have in common: events with their metrics and tools go out and
  nothing else happens. The blocks that emit keep the invariant for each of them.
\<close>
locale emitter =
  fixes em :: "('sch, 'm) emitter"
  assumes em_silent: "list_all event_ok es \<Longrightarrow> silent (em es)"
begin

lemma keeps_em: "list_all event_ok es \<Longrightarrow> keeps (agent_inv strict safe idle L s0) (em es)"
  by (intro silent_keeps em_silent)

lemma keeps_interrupt: "keeps (agent_inv strict safe idle L s0) (emit_interrupt em)"
proof -
  have "mapper_safe m \<and> list_all event_ok es" if "InterruptTurn m0 = (m, es)" "mapper_safe m0" for m0 m es
    using that inv_InterruptTurn [where H = "\<lambda>_. True" and m = m0] event_ok_mapper(2) [of m0] by simp
  then show ?thesis
    unfolding emit_interrupt_def
    by (intro keeps_get keeps_prod keeps_bind keeps_set_mapper keeps_em) (blast dest: inv_mapper)+
qed

lemma keeps_emit_start: "keeps (agent_inv strict safe idle L s0) (emit_start em now ident)"
proof -
  have "mapper_safe m \<and> list_all event_ok es" if "StartInput now ident m0 = (m, es)" "mapper_safe m0" for m0 m es
    using that inv_StartInput [where H = "\<lambda>_. True" and m = m0 and now = now and ident = ident] event_ok_StartInput [of now ident m0] by simp
  then show ?thesis
    unfolding emit_start_def
    by (intro keeps_get keeps_prod keeps_bind keeps_set_mapper keeps_em) (blast dest: inv_mapper)+
qed

lemma keeps_on_turn_timeout: "keeps (agent_inv strict safe idle L s0) (on_turn_timeout E em)"
  unfolding on_turn_timeout_def by (intro keeps_after keeps_interrupt keeps_fail)

lemma keeps_on_renew:
  assumes "keeps (agent_inv strict safe True (rn_lib E) s0) rot"
  shows "keeps (agent_inv strict safe idle (rn_lib E) s0) (on_renew E em rot now)"
proof (rule keepsI, goal_cases)
  case (1 l)
  have "wp (after (if c then emit_interrupt em else proceed) rot) (\<lambda>_. agent_inv strict safe idle (rn_lib E) s0) l"
    if "\<not> tools_busy l" for c
    using that 1 by (intro idle_wp keeps_after keeps_if keeps_interrupt assms keeps_simple)
  moreover have "wp (try_later now) (\<lambda>_. agent_inv strict safe idle (rn_lib E) s0) l"
    "wp (fail_with E c m) (\<lambda>_. agent_inv strict safe idle (rn_lib E) s0) l" for c m
    by (intro keepsD keeps_try_later keeps_fail 1)+
  ultimately show ?case by (simp add: on_renew_def del: wp_after)
qed

lemma keeps_on_cancel:
  assumes "keeps (agent_inv strict safe True (rn_lib E) s0) rot"
  shows "keeps (agent_inv strict safe idle (rn_lib E) s0) (on_cancel E em rot e)"
proof (rule keepsI, goal_cases)
  case (1 l)
  let ?renew = "do {
       assign (\<lambda>l. l\<lparr>ag_turnTimeout := None, ag_inputID := [], ag_inputSequence := 0\<rparr>);
       rot }"
  have "keeps (agent_inv strict safe True (rn_lib E) s0) ?renew"
    by (auto intro!: keeps_bind keeps_assign assms)
  then have "wp (after (emit_interrupt em) ?renew) (\<lambda>_. agent_inv strict safe idle (rn_lib E) s0) l" if "\<not> tools_busy l"
    using that 1 by (intro idle_wp keeps_after keeps_interrupt)
  moreover have "wp (after (emit_interrupt em) (fail_with E c m)) (\<lambda>_. agent_inv strict safe idle (rn_lib E) s0) l"
    "wp (refuse E c m) (\<lambda>_. agent_inv strict safe idle (rn_lib E) s0) l" for c m
    by (intro keepsD keeps_after keeps_interrupt keeps_fail 1)+
  ultimately show ?case by (simp add: on_cancel_def del: wp_after)
qed

end

interpretation assistant: emitter "emit E now" for E :: "('sch, 'e) agent_env_scheme" and now
  by unfold_locales (rule silent_emit)

text \<open>A decoded confirmation carries its tool and answer.\<close>
definition input_ok :: "agent_input \<Rightarrow> bool" where
  "input_ok i \<longleftrightarrow> (case i of
       InEvent e \<Rightarrow> ev_Type e = ToolConfirm \<longrightarrow> (case ev_Tool e of None \<Rightarrow> False | Some v \<Rightarrow> vt_Approved v \<noteq> None)
     | _ \<Rightarrow> True)"

lemma keeps_panic: "keeps (agent_inv strict False idle L s0) panic"
  unfolding panic_def act_def
  by (auto intro!: keeps_bind keeps_assign)
    (auto simp: agent_inv_def session_ok_def tools_ok_def tools_busy_def job_track_append job_step_def split: option.splits)

lemma keeps_on_confirm:
  assumes "safe \<Longrightarrow> (case ev_Tool e of None \<Rightarrow> False | Some v \<Rightarrow> vt_Approved v \<noteq> None)"
  shows "keeps (agent_inv strict safe idle (rn_lib E) s0) (on_confirm E now e)"
proof (cases safe)
  case True
  then show ?thesis
    using assms unfolding on_confirm_def
    by (auto intro!: keeps_bind keeps_option keeps_if keeps_call keeps_fail split: option.splits)
next
  case False
  then show ?thesis
    unfolding on_confirm_def
    by (auto intro!: keeps_bind keeps_option keeps_if keeps_call keeps_fail keeps_panic)
qed

lemma keeps_on_event:
  assumes "safe \<Longrightarrow> input_ok (InEvent e)"
  shows "keeps (agent_inv strict safe idle (rn_lib E) s0) (on_event E now e)"
  using assms unfolding on_event_def input_ok_def
  by (auto intro!: keeps_if keeps_fail keeps_on_audio assistant.keeps_emit_start keeps_on_commit
    assistant.keeps_on_cancel keeps_rotate keeps_on_confirm)

text \<open>A job that finishes leaves the running jobs and the active ids together.\<close>
lemma removeAll_nth:
  assumes "distinct (map f xs)" "i < length xs"
  shows "removeAll (f (xs ! i)) (map f xs) = map f (take i xs @ drop (Suc i) xs)"
proof -
  obtain a x b where xs: "xs = a @ x # b" "i = length a"
    using id_take_nth_drop [OF assms(2)] assms(2) by (metis length_take less_imp_le min.absorb2)
  then show ?thesis using assms(1) by (auto simp: removeAll_id)
qed

lemma agent_inv_finished:
  assumes "agent_inv strict safe idle L s0 l" "ag_tools l = Some t" "i < length (tn_running t)"
  shows "agent_inv strict safe idle L s0 (called L (OpComplete (tn_running t ! i) r) (l\<lparr>ag_tools := Some (take_finished i t)\<rparr>))"
proof -
  define t' where "t' = take_finished i t"
  have t': "tn_active t' = removeAll (jb_ID (tn_running t ! i)) (tn_active t)" "tn_staged t' = tn_staged t"
    "tn_session t' = tn_session t" by (simp_all add: t'_def take_finished_def)
  have strict: "tools_wf strict t' \<and> job_track [] (ag_trace l @ [Called (OpComplete (tn_running t ! i) r)]) = Some (tn_active t')"
    if strict
  proof -
    have wf: "tn_active t = map jb_ID (tn_running t)" "distinct (map jb_ID (tn_running t))"
        "length (tn_active t) \<le> 4" "staged_wf (tn_staged t)"
      and track: "job_track [] (ag_trace l) = Some (tn_active t)"
      using assms(1,2) that by (auto simp: agent_inv_def tools_ok_def tools_wf_def)
    have "tn_active t' = map jb_ID (tn_running t')"
      using removeAll_nth [OF wf(2) assms(3)] by (simp add: t'_def take_finished_def wf(1))
    moreover have "distinct (tn_active t')" "length (tn_active t') \<le> 4"
      using wf by (auto simp: t' distinct_removeAll intro: le_trans [OF length_removeAll_less_eq])
    moreover have "jb_ID (tn_running t ! i) \<in> set (tn_active t)" using assms(3) by (simp add: wf(1))
    then have "job_track [] (ag_trace l @ [Called (OpComplete (tn_running t ! i) r)]) = Some (tn_active t')"
      by (simp add: job_track_append track job_step_def t')
    ultimately show ?thesis using wf(4) t' by (simp add: tools_wf_def)
  qed
  have "staged_wf (tn_staged t')" using assms(1,2) by (simp add: agent_inv_def tools_ok_def tools_wf_def t')
  then have "tools_ok strict (called L (OpComplete (tn_running t ! i) r) (l\<lparr>ag_tools := Some t'\<rparr>))"
    using strict by (auto simp: tools_ok_def called_def tools_wf_def)
  moreover have "session_ok L s0 (called L (OpComplete (tn_running t ! i) r) (l\<lparr>ag_tools := Some t'\<rparr>))"
    using assms(1,2) by (intro session_ok_call) (simp add: agent_inv_def session_ok_def t')
  moreover have "idle \<longrightarrow> tn_active t' = []"
    using assms(1,2) by (auto simp: agent_inv_def tools_busy_def t')
  ultimately show ?thesis
    using assms(1) unfolding t'_def [symmetric] by (simp add: agent_inv_def) (simp add: tools_busy_def)
qed

lemma event_ok_toolResult [simp]: "event_ok (toolResultEvent j r)"
  by (simp add: toolResultEvent_def)

lemma keeps_on_finished: "keeps (agent_inv strict safe idle (rn_lib E) s0) (on_finished E now i outcome)"
proof (rule keepsI, goal_cases)
  case (1 l)
  show ?case
  proof (cases "ag_tools l")
    case None
    then show ?thesis using 1 by (simp add: on_finished_def)
  next
    case (Some t)
    show ?thesis
    proof (cases "i < length (tn_running t)")
      case True
      let ?j = "tn_running t ! i" and ?r = "Execute outcome (tn_running t ! i)"
      let ?rest = "do {
            stored \<leftarrow> evidenceResult E t ?j ?r;
            (if \<not> stored then fail_with E ''storage_failed'' ''cannot persist private evidence''
             else do {
               sent \<leftarrow> send_result E (jb_ID ?j) ?r;
               (if \<not> sent
                then fail_with E ''provider_unavailable'' ''Nova tool result delivery failed; retry mutations with the same requestId''
                else emit E now [toolResultEvent ?j ?r]) }) }"
      have "keeps (agent_inv strict safe idle (rn_lib E) s0) ?rest"
        by (intro silent_keeps silent_bind silent_if silent_tools silent_errors silent_emit) simp
      then have "wp ?rest (\<lambda>_. agent_inv strict safe idle (rn_lib E) s0)
          (called (rn_lib E) (OpComplete ?j ?r) (l\<lparr>ag_tools := Some (take_finished i t)\<rparr>))"
        by (rule keepsD) (rule agent_inv_finished [OF 1 Some True])
      then show ?thesis
        using True Some by (simp add: on_finished_def Let_def set_tools_def)
    qed (use Some 1 in \<open>simp add: on_finished_def\<close>)
  qed
qed

section \<open>Provider events keep it\<close>

lemma keeps_hear: "keeps (agent_inv strict safe idle L s0) (hear E cid es)"
  unfolding hear_def hear_one_def
  by (intro keeps_each keeps_get keeps_bind keeps_if) (auto intro!: keeps_fail keeps_assign)

lemma agent_inv_utterance: "agent_inv strict safe idle L s0 (end_utterance ev l) = agent_inv strict safe idle L s0 l"
  by (simp add: end_utterance_def Let_def split: option.split)

lemma keeps_observe: "keeps (agent_inv strict safe idle (rn_lib E) s0) (observe E now ev)"
  unfolding observe_def by (auto intro!: keeps_bind keeps_if keeps_call)

text \<open>Staging: there is room for the call, and it names its tool.\<close>
lemma set_gput_subset: "set (gput k v m) \<subseteq> insert (k, v) (set m)"
  by (induction m) auto

lemma staged_wf_gput:
  assumes "staged_wf m" "length m < 32 \<or> gget m k \<noteq> None" "ev_Type e = ToolStarted" "event_ok e"
  shows "staged_wf (gput k e m)"
  using assms set_gput_subset [of k e m]
  by (auto simp: staged_wf_def length_gput list_all_iff)

lemma staged_wf_put_all:
  assumes "list_all (\<lambda>e. ev_Type e = ToolStarted \<and> event_ok e) es" "staged_wf m" "length m < 32 \<or> gget m k \<noteq> None"
  shows "staged_wf (foldl (\<lambda>m e. gput k e m) m es)
    \<and> (length (foldl (\<lambda>m e. gput k e m) m es) < 32 \<or> gget (foldl (\<lambda>m e. gput k e m) m es) k \<noteq> None)"
  using assms
proof (induction es arbitrary: m)
  case (Cons e es)
  then have "staged_wf (gput k e m)" by (intro staged_wf_gput) simp_all
  then show ?case using Cons by simp
qed simp

lemma staged_wf_call:
  assumes "list_all event_ok es" "staged_wf m" "length m < 32"
  shows "staged_wf (staged_call ev turn es m)"
proof -
  have "list_all (\<lambda>e. ev_Type e = ToolStarted \<and> event_ok e) (filter (\<lambda>e. ev_Type e = ToolStarted) es)"
    using assms(1) by (auto simp: list_all_iff event_ok_def)
  moreover define m' where "m' = foldl (\<lambda>m e. gput (ne_ContentID ev) e m) m (filter (\<lambda>e. ev_Type e = ToolStarted) es)"
  ultimately have m': "staged_wf m'" "length m' < 32 \<or> gget m' (ne_ContentID ev) \<noteq> None"
    using staged_wf_put_all [of _ m "ne_ContentID ev"] assms(2,3) by blast+
  have "event_ok ((turn_event ToolStarted turn)\<lparr>ev_Code := c, ev_Tool := Some v\<rparr>)
      \<and> ev_Type ((turn_event ToolStarted turn)\<lparr>ev_Code := c, ev_Tool := Some v\<rparr>) = ToolStarted" for c v
    by (simp add: turn_event_def)
  then show ?thesis
    unfolding staged_call_def Let_def m'_def [symmetric] using m' by (auto intro: staged_wf_gput)
qed

lemma keeps_stage:
  assumes "list_all event_ok es"
  shows "keeps (agent_inv strict safe idle L s0) (stage E ev es)"
proof (rule keepsI, goal_cases)
  case (1 l)
  show ?case
  proof (cases "ag_tools l")
    case (Some t)
    have "staged_wf (tn_staged t)" using 1 Some by (simp add: agent_inv_def tools_ok_def tools_wf_def)
    then have "agent_inv strict safe idle L s0 (l\<lparr>ag_tools := Some (t\<lparr>tn_staged :=
        staged_call ev (mp_TurnID (ag_mapper l)) es (tn_staged t)\<rparr>)\<rparr>)" if "length (tn_staged t) < 32"
      using agent_inv_staged [OF 1, of "\<lambda>t. staged_call ev (mp_TurnID (ag_mapper l)) es (tn_staged t)"]
        staged_wf_call [OF assms] that Some by simp
    moreover have "wp (fail_with E c m) (\<lambda>_. agent_inv strict safe idle L s0) l" for c m
      by (intro keepsD keeps_fail 1)
    ultimately show ?thesis by (simp add: stage_def set_tools_def Some)
  qed (use 1 in \<open>simp add: stage_def\<close>)
qed

section \<open>Executing a call\<close>

lemma event_ok_confirmation [simp]: "event_ok (confirmation_event s p turn)"
  by (simp add: confirmation_event_def)

lemma silent_option: "(x = None \<Longrightarrow> silent m) \<Longrightarrow> (\<And>y. x = Some y \<Longrightarrow> silent (n y)) \<Longrightarrow> silent (case x of None \<Rightarrow> m | Some y \<Rightarrow> n y)"
  by (simp split: option.split)

lemma plan_counted_ID: "jb_ID (fst (snd (plan_counted L now name b j s))) = jb_ID j"
  by (simp add: plan_counted_def plan_fail_def plan_confirm_def Let_def split: option.split)

lemma plan_fail_ID: "jb_ID (fst (snd (plan_fail ident name turn args s code))) = ident"
  by (simp add: plan_fail_def)

lemma Plan_ID: "jb_ID (fst (snd (Plan L now ident name turn args s))) = ident"
  by (simp add: Plan_def Let_def plan_fail_ID plan_counted_ID split: option.split)

text \<open>A planned job may start: the orchestrator handed it out and nothing runs under its id.\<close>
definition may_start :: "'sch lib \<Rightarrow> 'sch orch \<Rightarrow> job \<Rightarrow> ('sch, 'm) agent_scheme \<Rightarrow> bool" where
  "may_start L s0 j l \<longleftrightarrow> subseq (ran_of (ag_trace l) @ [j]) (started L s0 (calls_of (ag_trace l)))"

lemma may_start_quiet: "quiet_step l l' \<Longrightarrow> may_start L s0 j l' = may_start L s0 j l"
  by (simp add: may_start_def quiet_simps)

lemma agent_inv_started:
  assumes "agent_inv strict safe False L s0 l" "may_start L s0 j l" "ag_tools l = Some t"
    and "strict \<Longrightarrow> jb_ID j \<notin> set (tn_active t) \<and> length (tn_active t) < 4"
  shows "wp (start_job j) (\<lambda>_. agent_inv strict safe False L s0) l"
proof -
  define t' where "t' = t\<lparr>tn_active := List.insert (jb_ID j) (tn_active t), tn_running := j # tn_running t\<rparr>"
  have t: "tools_wf strict t" "strict \<Longrightarrow> job_track [] (ag_trace l) = Some (tn_active t)"
    using assms(1,3) by (simp_all add: agent_inv_def tools_ok_def)
  then have "tools_wf strict t'" using assms(4) by (auto simp: tools_wf_def t'_def)
  moreover have "job_track [] (ag_trace l @ [Ran j]) = Some (tn_active t')" if strict
    using t(2) assms(4) that by (simp add: job_track_append job_step_def t'_def)
  moreover have "wp (start_job j) (\<lambda>_ s. s = l\<lparr>ag_trace := ag_trace l @ [Ran j], ag_tools := Some t'\<rparr>) l"
    using assms(3) by (simp add: start_job_def act_def set_tools_def t'_def)
  ultimately show ?thesis
    using assms(1-3) by (auto simp: agent_inv_def session_ok_def may_start_def tools_ok_def t'_def elim!: wp_mono)
qed

lemma planned_may_start:
  assumes "agent_inv strict safe idle L s0 l" "ag_tools l = Some t"
    and "Plan L now ident name turn args (tn_session t) = (s', j, None)"
  shows "may_start L s0 j (called L (OpPlan now ident name turn args) l)"
proof -
  have ok: "session_ok L s0 l" using assms(1) by (simp add: agent_inv_def)
  then have "orch_start L (orch_run L s0 (calls_of (ag_trace l))) (OpPlan now ident name turn args) = [j]"
    using assms(2,3) by (simp add: session_ok_def)
  then show ?thesis
    using ok by (simp add: may_start_def called_def started_append session_ok_def)
qed

text \<open>What planning a call leaves: the session's tools, and a job that may start if there is no answer.\<close>
lemma wp_plan_staged:
  assumes "agent_inv strict safe False (rn_lib E) s0 l" "ag_tools l = Some t'" "tn_session t = tn_session t'"
    and "\<And>j r l'. agent_inv strict safe False (rn_lib E) s0 l' \<Longrightarrow> jb_ID j = vt_OperationID v
      \<Longrightarrow> (case ag_tools l' of None \<Rightarrow> False | Some t'' \<Rightarrow> tn_active t'' = tn_active t')
      \<Longrightarrow> r \<noteq> None \<or> may_start (rn_lib E) s0 j l' \<Longrightarrow> Q (j, r) l'"
  shows "wp (plan_staged E now t call v) Q l"
proof -
  let ?x = "OpPlan now (vt_OperationID v) (vt_Name v) (ev_TurnID call) (vt_Arguments v)"
  obtain s' j r where plan: "Plan (rn_lib E) now (vt_OperationID v) (vt_Name v) (ev_TurnID call) (vt_Arguments v)
      (tn_session t) = (s', j, r)" using prod_cases3 by blast
  have "r \<noteq> None \<or> may_start (rn_lib E) s0 j (called (rn_lib E) ?x l)"
    using planned_may_start [OF assms(1,2)] plan assms(3) by (cases r) simp_all
  moreover have "agent_inv strict safe False (rn_lib E) s0 (called (rn_lib E) ?x l)"
    by (rule agent_inv_call [OF _ assms(1)]) simp
  moreover have "jb_ID j = vt_OperationID v"
    using Plan_ID [of "rn_lib E" now "vt_OperationID v" "vt_Name v" "ev_TurnID call" "vt_Arguments v" "tn_session t"]
    by (simp add: plan)
  moreover have "case ag_tools (called (rn_lib E) ?x l) of None \<Rightarrow> False | Some t'' \<Rightarrow> tn_active t'' = tn_active t'"
    using assms(2) by (simp add: called_def)
  ultimately have run: "Q (j, r) (called (rn_lib E) ?x l)" using assms(4) by blast
  have "Q (\<lparr>jb_ID = vt_OperationID v, jb_Name = vt_Name v, jb_Key = [], jb_TurnID = ev_TurnID call,
      jb_Args = [], jb_Confirmed = False\<rparr>, Some (Failure ''turn_cancelled'')) l"
    by (rule assms(4)) (use assms(1,2) in simp_all)
  then show ?thesis
    using run by (simp only: plan_staged_def wp_bind wp_get wp_if wp_return wp_call plan snd_conv if_cancel)
qed

text \<open>After the plan of a call: it is announced and answered, or its job starts.\<close>
context emitter begin

lemma silent_answer:
  assumes "\<And>j r. event_ok (show_result j r)"
  shows "silent (ask_confirmation em turn)" "silent (answer_now E em show_result t turn j r)"
proof -
  show ask: "silent (ask_confirmation em turn)"
    unfolding ask_confirmation_def by (intro silent_rules silent_option em_silent) simp
  show "silent (answer_now E em show_result t turn j r)"
    unfolding answer_now_def
    by (intro silent_rules silent_tools silent_errors em_silent ask) (simp add: assms)
qed

lemma wp_execute_call:
  assumes "agent_inv strict safe False L s0 l" "r \<noteq> None \<or> may_start L s0 j l" "\<And>j r. event_ok (show_result j r)" "event_ok call"
    and "\<exists>t'. ag_tools l = Some t' \<and> tn_active t' = tn_active t" "jb_ID j \<notin> set (tn_active t)"
  shows "wp (after (em [call]) (execute_call E em show_result t turn j r)) (\<lambda>_. agent_inv strict safe False L s0) l"
proof (cases "if r = None \<and> 4 \<le> length (tn_active t) then Some (Failure ''tool_busy'') else r")
  case (Some r')
  show ?thesis
    unfolding execute_call_def Some option.case
    by (intro keepsD keeps_after keeps_em silent_keeps silent_answer assms) (simp add: assms(4))
next
  case None
  then have j: "may_start L s0 j l" "length (tn_active t) < 4" using assms(2) by (auto split: if_splits)
  obtain t' where t': "ag_tools l = Some t'" "tn_active t' = tn_active t" using assms(5) by blast
  have "wp (start_job j) (\<lambda>_. agent_inv strict safe False L s0) l'" if "quiet_step l l'" for l'
    using that j t' assms(1,6)
    by (intro agent_inv_started [where t = t']) (simp_all add: agent_inv_quiet may_start_quiet quiet_simps)
  then show ?thesis
    unfolding execute_call_def None option.case wp_after
    by (intro silent_wp em_silent) (use assms(1) in \<open>auto simp: assms(4) agent_inv_quiet\<close>)
qed

lemma keeps_end_call:
  assumes "list_all event_ok es"
    and run: "\<And>l t t' call v. agent_inv strict safe False L s0 l \<Longrightarrow> ag_tools l = Some t' \<Longrightarrow> tn_session t = tn_session t'
      \<Longrightarrow> tn_active t = tn_active t' \<Longrightarrow> vt_OperationID v \<notin> set (tn_active t) \<Longrightarrow> event_ok call \<Longrightarrow> ev_Type call = ToolStarted
      \<Longrightarrow> ev_Tool call = Some v \<Longrightarrow> wp (run t call v) (\<lambda>_. agent_inv strict safe False L s0) l"
  shows "keeps (agent_inv strict safe False L s0) (end_call em run ev es)"
proof (rule keepsI, goal_cases)
  case (1 l)
  let ?I = "agent_inv strict safe False L s0"
  have emit: "wp (em es) (\<lambda>_. ?I) l'" if "?I l'" for l'
    using that by (intro keepsD keeps_em assms)
  show ?case
  proof (cases "ag_tools l")
    case (Some t)
    show ?thesis
    proof (cases "gget (tn_staged t) (ne_ContentID ev)")
      case (Some call)
      have wf: "staged_wf (tn_staged t)" using 1 \<open>ag_tools l = Some t\<close> by (simp add: agent_inv_def tools_ok_def tools_wf_def)
      then have "ev_Type call = ToolStarted \<and> event_ok call"
        using map_of_SomeD [OF Some] by (auto simp: staged_wf_def list_all_iff)
      moreover from this obtain v where v: "ev_Tool call = Some v" by (auto simp: event_ok_def)
      let ?t = "t\<lparr>tn_staged := gdel (ne_ContentID ev) (tn_staged t)\<rparr>"
      have l': "?I (l\<lparr>ag_tools := Some ?t\<rparr>)"
        using agent_inv_staged [OF 1, of "\<lambda>t. gdel (ne_ContentID ev) (tn_staged t)"] wf \<open>ag_tools l = Some t\<close> by simp
      have "wp (after (run t call v) (em es)) (\<lambda>_. ?I) (l\<lparr>ag_tools := Some ?t\<rparr>)"
        if "vt_OperationID v \<notin> set (tn_active t)"
        unfolding wp_after
        by (rule wp_mono [OF run [OF l', where t' = ?t]]) (use that v calculation in \<open>auto intro: emit\<close>)
      then show ?thesis
        using l' v by (simp add: end_call_def \<open>ag_tools l = Some t\<close> Some set_tools_def del: wp_after)
    qed (use Some 1 emit in \<open>simp add: end_call_def\<close>)
  qed (use 1 emit in \<open>simp add: end_call_def\<close>)
qed

end

lemma wp_run_call:
  assumes "agent_inv strict safe False (rn_lib E) s0 l" "ag_tools l = Some t'"
    and "tn_session t = tn_session t'" "tn_active t = tn_active t'"
    and "vt_OperationID v \<notin> set (tn_active t)" "event_ok call"
  shows "wp (run_call E now t call v) (\<lambda>_. agent_inv strict safe False (rn_lib E) s0) l"
  unfolding run_call_def wp_bind
proof (rule wp_plan_staged [OF assms(1,2,3)], unfold prod.case, rule assistant.wp_execute_call, goal_cases)
  case (5 j r l')
  then show ?case using assms(4) by (auto split: option.splits)
qed (use assms(5,6) in simp_all)

lemma keeps_on_stream: "keeps (agent_inv strict safe False (rn_lib E) s0) (on_stream E now fresh ev)"
proof (rule keepsI, goal_cases)
  case (1 l)
  let ?I = "agent_inv strict safe False (rn_lib E) s0"
  obtain m r where map: "MapEvent now fresh ev (ag_mapper l) = (m, r)" by fastforce
  have m: "mapper_safe m" and panic: "r = Inl slice_panic \<Longrightarrow> ne_Err ev \<noteq> None"
    using any_history.MapEvent_inv [OF inv_mapper [OF 1], of now fresh ev] by (auto simp: map)
  have good: "good_result r" using good_MapEvent [of now fresh ev "ag_mapper l"] by (simp add: map)
  have l': "?I (l\<lparr>ag_mapper := m\<rparr>)" using 1 m by (rule agent_inv_mapper)
  show ?case
  proof (cases r)
    case (Inl err)
    have "wp (fail_with E c msg) (\<lambda>_. ?I) (l\<lparr>ag_mapper := m\<rparr>)" for c msg by (intro keepsD keeps_fail l')
    then show ?thesis using panic Inl by (auto simp: on_stream_def map set_mapper_def)
  next
    case (Inr es)
    then have es: "list_all event_ok es" using good by simp
    have "wp (after (hear E (ne_ContentID ev) es) (do {
            assign (end_utterance ev);
            observe E now ev;
            (if ne_Kind ev = ''toolUse'' then stage E ev es
             else if ne_Kind ev = ''contentEnd'' then end_call (emit E now) (run_call E now) ev es
             else emit E now es) })) (\<lambda>_. ?I) (l\<lparr>ag_mapper := m\<rparr>)"
      by (intro keepsD keeps_after keeps_bind keeps_if keeps_hear keeps_observe keeps_stage assistant.keeps_end_call keeps_emit es
          keeps_assign l' wp_run_call) (simp_all add: agent_inv_utterance)
    moreover have "wp (emit E now es) (\<lambda>_. ?I) (l\<lparr>ag_mapper := m\<rparr>)" by (intro keepsD keeps_emit es l')
    ultimately show ?thesis
      by (simp only: on_stream_def set_mapper_def wp_bind wp_get wp_assign map fst_conv snd_conv Inr sum.case wp_if
          if_cancel)
  qed
qed

section \<open>The loop keeps it\<close>

lemma keeps_agent_step:
  assumes "safe \<Longrightarrow> input_ok i"
  shows "keeps (agent_inv strict safe False (rn_lib E) s0) (agent_step E (now, fresh, i))"
  using assms
  by (cases i)
    (auto intro!: keeps_bind keeps_option keeps_if assistant.keeps_on_turn_timeout
      assistant.keeps_on_renew keeps_rotate keeps_fail keeps_on_event
      keeps_on_finished keeps_on_stream)

lemma keeps_agent_loop:
  assumes "safe \<Longrightarrow> list_all (\<lambda>(_, _, i). input_ok i) ticks"
  shows "keeps (agent_inv strict safe False (rn_lib E) s0) (agent_loop E ticks)"
  unfolding agent_loop_def
proof (rule keeps_each)
  fix x
  assume x: "x \<in> set ticks"
  obtain now fresh i where t: "x = (now, fresh, i)" using prod_cases3 by blast
  show "keeps (agent_inv strict safe False (rn_lib E) s0) (agent_step E x)"
    unfolding t using assms x by (intro keeps_agent_step) (auto simp: list_all_iff t)
qed

lemma wp_deferred:
  "wp m (\<lambda>_. agent_inv strict safe idle L s0) l \<Longrightarrow> output_act a \<Longrightarrow> wp (deferred m a) (\<lambda>_. agent_inv strict safe idle L s0) l"
  unfolding deferred_def wp_bind
  by (erule wp_mono) (intro keepsD keeps_if keeps_bind silent_keeps silent_act silent_flow)

lemma keeps_deferred:
  "keeps (agent_inv strict safe idle L s0) m \<Longrightarrow> output_act a \<Longrightarrow> keeps (agent_inv strict safe idle L s0) (deferred m a)"
  by (rule keepsI) (intro wp_deferred keepsD)

section \<open>A session from its start\<close>

text \<open>The tool runtime \<open>openTools\<close> makes of a new orchestrator session.\<close>
definition new_tools :: "'sch orch \<Rightarrow> bool \<Rightarrow> string \<Rightarrow> 'sch tools" where
  "new_tools s evidence sessionID = \<lparr>tn_session = s, tn_active = [], tn_running = [], tn_staged = [],
     tn_evidence = evidence, tn_sessionID = sessionID\<rparr>"

text \<open>What a session with these tools has done after some turns of its loop.\<close>
definition agent_trace ::
  "'sch agent_env \<Rightarrow> instant \<Rightarrow> 'sch tools option \<Rightarrow> error option \<Rightarrow> agent_tick list \<Rightarrow> agent_act list"
where
  "agent_trace E now ts opened ticks = ag_trace (snd (run_state (agent_run E (Inr ts) opened ticks) (agent_start E now ts)))"

text \<open>A session without tools, or with new ones.\<close>
definition opens_with :: "'sch orch \<Rightarrow> 'sch tools option \<Rightarrow> bool" where
  "opens_with s0 ts \<longleftrightarrow> (case ts of None \<Rightarrow> True | Some t \<Rightarrow> \<exists>ev sid. t = new_tools s0 ev sid)"

lemma opens_with_simps [simp]: "opens_with s0 None" "opens_with s0 (Some (new_tools s0 ev sid))"
  by (auto simp: opens_with_def)

lemma agent_inv_start: "opens_with s0 ts \<Longrightarrow> strict \<or> ts \<noteq> None \<Longrightarrow> agent_inv strict safe True L s0 (agent_start E now ts)"
  by (auto simp: opens_with_def agent_inv_def session_ok_def tools_ok_def tools_wf_def tools_busy_def agent_start_def
      new_tools_def mapper_wf_NewMapper history_ok_def historyBytes_def split: option.split_asm)

lemma agent_run_inv:
  fixes E :: "('sch, 'e) agent_env_scheme"
  assumes "safe \<Longrightarrow> list_all (\<lambda>(_, _, i). input_ok i) ticks" and "opens_with s0 ts"
  shows "agent_inv True safe False (rn_lib E) s0 (snd (run_state (agent_run E (Inr ts) opened ticks) (agent_start E now ts)))"
proof -
  let ?I = "agent_inv True safe False (rn_lib E) s0" and ?l = "agent_start E now ts"
  define body :: "('sch, unit) agent_block" where "body = (case opened of
     Some err \<Rightarrow> fail_with E ''provider_unavailable'' err
   | None \<Rightarrow> do {
       act (OpenedStream (rn_prompt E) []);
       deferred (after (write_event E (zero_event\<lparr>ev_Type := SessionReady, ev_Provider := ''nova'', ev_State := Idle\<rparr>))
         (agent_loop E ticks)) ClosedStream })"
  have I: "?I ?l" using agent_inv_start [OF assms(2) disjI1 [OF TrueI]] by (rule inv_any)
  have "wp (act (OpenedStream (rn_prompt E) [])) (\<lambda>_. ?I) ?l"
    by (rule keeps_wp [OF keeps_opened agent_inv_start [OF assms(2) disjI1 [OF TrueI]]]) (simp, rule inv_any)
  moreover have "keeps ?I (deferred (after (write_event E e) (agent_loop E ticks)) ClosedStream)" for e
    by (intro keeps_deferred keeps_after silent_keeps silent_write keeps_agent_loop output_act_simps) (rule assms)
  ultimately have "wp (do { act (OpenedStream (rn_prompt E) []);
      deferred (after (write_event E e) (agent_loop E ticks)) ClosedStream }) (\<lambda>_. ?I) ?l" for e
    by (auto simp: keeps_def elim!: wp_mono)
  moreover have "wp (fail_with E c m) (\<lambda>_. ?I) ?l" for c m by (intro keepsD keeps_fail I)
  ultimately have body: "wp body (\<lambda>_. ?I) ?l"
    unfolding body_def by (cases opened) (simp_all only: option.case)
  have "wp (deferred body ClosedTools) (\<lambda>_. ?I) ?l" by (rule wp_deferred [OF body]) simp
  then have "wp (if ts = None then body else deferred body ClosedTools) (\<lambda>_. ?I) ?l" using body by presburger
  then have "wp (agent_run E (Inr ts) opened ticks) (\<lambda>_. ?I) ?l"
    unfolding agent_run_def sum.case Let_def body_def [symmetric] .
  then show ?thesis by (simp add: wp_run)
qed

lemma agent_trace_inv:
  assumes "safe \<Longrightarrow> list_all (\<lambda>(_, _, i). input_ok i) ticks"
    and "tr = agent_trace E now ts opened ticks" and "opens_with s0 ts"
  shows "subseq (ran_of tr) (started (rn_lib E) s0 (calls_of tr))" "job_track [] tr \<noteq> None"
    "safe \<Longrightarrow> Panicked \<notin> set tr"
proof -
  define l where "l = snd (run_state (agent_run E (Inr ts) opened ticks) (agent_start E now ts))"
  have "agent_inv True safe False (rn_lib E) s0 l"
    unfolding l_def using assms(1,3) by (rule agent_run_inv)
  moreover have "tr = ag_trace l" by (simp add: assms(2) agent_trace_def l_def)
  ultimately show "subseq (ran_of tr) (started (rn_lib E) s0 (calls_of tr))" "job_track [] tr \<noteq> None"
    "safe \<Longrightarrow> Panicked \<notin> set tr"
    by (auto simp: agent_inv_def session_ok_def tools_ok_def split: option.splits)
qed

section \<open>The jobs of a session\<close>

text \<open>
  The call that handed a job out, and what authorised it then: \<open>Plan\<close> returned this very job for this
  call and no answer, after the calls \<open>before\<close>.
\<close>
definition authorised_by :: "'sch lib \<Rightarrow> 'sch orch \<Rightarrow> orch_op list \<Rightarrow> job \<Rightarrow> bool" where
  "authorised_by L s0 xs j \<longleftrightarrow> (\<exists>before at ident name turn args after b.
     xs = before @ OpPlan at ident name turn args # after
     \<and> snd (Plan L at ident name turn args (orch_run L s0 before)) = (j, None)
     \<and> job_of_call L s0 ident name turn args b j \<and> authorised L s0 before at b j)"

lemma ran_authorised:
  assumes "NewOrch L ts allowed ns profiles = Inr s0" "subseq js (started L s0 xs)"
  shows "list_all (authorised_by L s0 xs) js"
proof -
  have "authorised_by L s0 xs j" if "j \<in> set js" for j
  proof -
    have "j \<in> set (started L s0 xs)" using that list_emb_set [OF assms(2)] by auto
    then obtain before at ident name turn args after s' where x: "xs = before @ OpPlan at ident name turn args # after"
      and plan: "Plan L at ident name turn args (orch_run L s0 before) = (s', j, None)"
      using started_split by blast
    obtain b where "job_of_call L s0 ident name turn args b j" "authorised L s0 before at b j"
      using Plan_authorised [OF assms(1) plan] by blast
    moreover have "snd (Plan L at ident name turn args (orch_run L s0 before)) = (j, None)" by (simp add: plan)
    ultimately show ?thesis unfolding authorised_by_def using x by blast
  qed
  then show ?thesis by (simp add: list_all_iff)
qed

lemma ran_planned:
  assumes "NewOrch L ts allowed ns profiles = Inr s0" "subseq js (started L s0 xs)"
  shows "distinct (map jb_Key (filter (\<lambda>j. policy_of s0 j \<noteq> ReadOnly) js)) \<and> length js \<le> 128"
proof -
  let ?jobs = "started L s0 xs" and ?mut = "\<lambda>j. policy_of s0 j \<noteq> ReadOnly"
  have "orch_count s0" using NewOrch_fresh [OF assms(1)] by (simp add: orch_count_def)
  then have "length ?jobs \<le> 128" using started_length [of s0 L xs] by simp
  then have "length js \<le> 128" using list_emb_length [OF assms(2)] by simp
  moreover have "distinct (map jb_Key (filter ?mut ?jobs))"
    using started_mutations [OF NewOrch_wf [OF assms(1)]] by blast
  moreover have "subseq (map jb_Key (filter ?mut js)) (map jb_Key (filter ?mut ?jobs))"
    by (intro subseq_map subseq_filter assms)
  ultimately show ?thesis by (auto simp: subseq_conv_nths intro: distinct_nthsI)
qed

section \<open>Properties of a session\<close>

text \<open>
  C6. Whatever the provider, the client, the tool servers, the clock and the failures of reading and
  writing do, in any order: a session of the assistant runs at most four tool jobs at a time, under
  different ids; a job completes only while it runs; and the provider's stream is replaced only
  when no job runs.
\<close>
theorem agent_jobs_exclusive: "job_track [] (agent_trace E now (Some (new_tools s0 ev sid)) opened ticks) \<noteq> None"
  by (rule agent_trace_inv(2) [where safe = False and ?s0.0 = s0, OF _ refl]) simp_all

text \<open>
  The jobs a session runs are a subsequence of those the orchestrator hands out for the calls
  the session makes: no job reaches a tool server but through a \<open>Plan\<close>, none runs twice, and so no
  two jobs that change something have the same operation key and at most 128 jobs run.
\<close>
theorem agent_runs_planned_jobs:
  "case NewOrch (rn_lib E) ts allowed ns profiles of
     Inl _ \<Rightarrow> True
   | Inr s0 \<Rightarrow> (let tr = agent_trace E now (Some (new_tools s0 ev sid)) opened ticks in
       subseq (ran_of tr) (started (rn_lib E) s0 (calls_of tr))
       \<and> distinct (map jb_Key (filter (\<lambda>j. policy_of s0 j \<noteq> ReadOnly) (ran_of tr)))
       \<and> length (ran_of tr) \<le> 128)"
proof (cases "NewOrch (rn_lib E) ts allowed ns profiles")
  case (Inr s0)
  define tr where "tr = agent_trace E now (Some (new_tools s0 ev sid)) opened ticks"
  have "subseq (ran_of tr) (started (rn_lib E) s0 (calls_of tr))"
    by (rule agent_trace_inv(1) [where safe = False, OF _ tr_def]) simp_all
  then show ?thesis
    using ran_planned [OF Inr] unfolding Inr sum.case Let_def tr_def [symmetric] by blast
qed simp

text \<open>
  C2. The jobs a session runs are jobs the orchestrator handed out, each at most once and in that order,
  and each was authorised by what happened before it in the session. For each there is the call of
  \<open>Plan\<close> that returned this very job, with the call's id, turn and arguments, for a bound tool whose
  schema accepts the arguments; and by the calls before that one a \<open>confirm_later\<close> tool had the user's
  approval of the same operation, neither interrupted nor refused since, and an \<open>explicit_intent\<close> tool
  the user's last words in that turn, unless its profile is direct. Direct and \<open>read_only\<close> tools
  need no approval.
\<close>
theorem agent_jobs_authorised:
  "case NewOrch (rn_lib E) ts allowed ns profiles of
     Inl _ \<Rightarrow> True
   | Inr s0 \<Rightarrow> (let tr = agent_trace E now (Some (new_tools s0 ev sid)) opened ticks in
       subseq (ran_of tr) (started (rn_lib E) s0 (calls_of tr))
       \<and> list_all (authorised_by (rn_lib E) s0 (calls_of tr)) (ran_of tr))"
proof (cases "NewOrch (rn_lib E) ts allowed ns profiles")
  case (Inr s0)
  define tr where "tr = agent_trace E now (Some (new_tools s0 ev sid)) opened ticks"
  have "subseq (ran_of tr) (started (rn_lib E) s0 (calls_of tr))"
    by (rule agent_trace_inv(1) [where safe = False, OF _ tr_def]) simp_all
  then show ?thesis
    using ran_authorised [OF Inr] unfolding Inr sum.case Let_def tr_def [symmetric] by blast
qed simp

end
