(* ===== verification/Agent_Timer.thy ===== *)
theory Agent_Timer
  imports Agent_Safety
begin

text \<open>
  The turn timer of the assistant's session loop (\<open>Agent_Runtime\<close>): while the assistant responds a
  deadline is running, and when it has passed the session ends with an error. \<open>armed\<close> is kept by
  every step after which the loop goes on.
\<close>

section \<open>The deadline and the events\<close>

definition armed :: "('sch, 'm) agent_scheme \<Rightarrow> bool" where
  "armed l \<longleftrightarrow> (mp_State (ag_mapper l) = Responding \<longrightarrow> ag_turnTimeout l \<noteq> None)"

lemma armed_simps [simp]:
  "armed (l\<lparr>ag_trace := tr\<rparr>) = armed l" "armed (l\<lparr>ag_io := n\<rparr>) = armed l"
  "armed (l\<lparr>ag_tools := ts\<rparr>) = armed l" "armed (l\<lparr>ag_inputID := i\<rparr>) = armed l"
  "armed (l\<lparr>ag_inputSequence := q\<rparr>) = armed l" "armed (l\<lparr>ag_usedInputs := us\<rparr>) = armed l"
  "armed (l\<lparr>ag_openedAt := t\<rparr>) = armed l" "armed (l\<lparr>ag_renew := t\<rparr>) = armed l"
  "armed (l\<lparr>ag_userTexts := g\<rparr>) = armed l" "armed (l\<lparr>ag_userTurns := g\<rparr>) = armed l"
  "armed (l\<lparr>ag_completedUser := i\<rparr>) = armed l" "armed (l\<lparr>ag_completedUserTurn := i\<rparr>) = armed l"
  "armed (l\<lparr>ag_turnTimeout := Some d\<rparr>)"
  by (simp_all add: armed_def)

text \<open>Whether the timer runs after an event goes out.\<close>
definition arm :: "bool \<Rightarrow> event \<Rightarrow> bool" where
  "arm b e \<longleftrightarrow> (if ev_Type e = TurnInterrupted \<or> ev_Type e = TurnCompleted then False
     else b \<or> (ev_Type e = SessionState \<and> ev_State e = Responding))"

lemma wp_emit_one:
  "wp (emit_one E now e) (\<lambda>ok l'. (ok \<longrightarrow> (ag_turnTimeout l' \<noteq> None) = arm (ag_turnTimeout l \<noteq> None) e)
     \<and> ag_mapper l' = ag_mapper l) l"
  by (auto simp: emit_one_def arm_def write_event_def attempt_def act_def panic_def)

lemma wp_emit:
  "wp (emit E now es) (\<lambda>ok l'. (ok \<longrightarrow> (ag_turnTimeout l' \<noteq> None) = foldl arm (ag_turnTimeout l \<noteq> None) es)
     \<and> ag_mapper l' = ag_mapper l) l"
proof (induction es arbitrary: l)
  case (Cons e es)
  show ?case
    unfolding emit_def each.simps wp_after
  proof (rule wp_mono [OF wp_emit_one], goal_cases)
    case (1 ok l')
    then show ?case using Cons.IH [of l'] by (auto simp: emit_def elim!: wp_mono)
  qed
qed (simp add: emit_def)

section \<open>What the mapper does to it\<close>

text \<open>If the mapper responds afterwards, the timer runs after its events.\<close>
definition arms_result :: "bool \<Rightarrow> mapper \<Rightarrow> mapper \<times> event list \<Rightarrow> bool" where
  "arms_result b m r \<longleftrightarrow> (mp_State m = Responding \<longrightarrow> b)
     \<longrightarrow> mp_State (fst r) = Responding \<longrightarrow> foldl arm b (snd r)"

lemma states_differ [simp]: "Idle \<noteq> Responding" "Listening \<noteq> Responding"
  by simp_all

lemma arms_same: "arms_result b m (m, [])"
  by (simp add: arms_result_def)

lemma arms_not_responding: "mp_State (fst r) \<noteq> Responding \<Longrightarrow> arms_result b m r"
  by (simp add: arms_result_def)

lemma arms_state: "mp_State m' = Responding \<Longrightarrow> arms_result b m (m', [mapper_state m'])"
  by (simp add: arms_result_def arm_def mapper_state_def turn_event_def)

lemma arms_kept: "mp_State m' = mp_State m \<Longrightarrow> list_all (\<lambda>e. arm b e = b) es \<Longrightarrow> arms_result b m (m', es)"
proof (unfold arms_result_def, intro impI)
  assume "mp_State m' = mp_State m" "list_all (\<lambda>e. arm b e = b) es" "mp_State m = Responding \<longrightarrow> b"
    "mp_State (fst (m', es)) = Responding"
  moreover from this(2) have "foldl arm b es = b" by (induction es) simp_all
  ultimately show "foldl arm b (snd (m', es))" by simp
qed

lemma arms_Interrupt: "arms_result b m (InterruptTurn m)"
  by (simp add: InterruptTurn_def Let_def arms_same arms_not_responding)

lemma arms_StartInput: "arms_result b m (StartInput now ident m)"
  by (cases "if mp_State m = Responding then InterruptTurn m else (m, [])")
    (simp add: StartInput_def Let_def arms_not_responding)

lemma arms_complete: "arms_result b m (complete_turn now m')"
  by (simp add: complete_turn_def Let_def arms_not_responding)

definition arms_map :: "bool \<Rightarrow> mapper \<Rightarrow> mapper \<times> (error + event list) \<Rightarrow> bool" where
  "arms_map b m r \<longleftrightarrow> (case snd r of Inl _ \<Rightarrow> True | Inr es \<Rightarrow> arms_result b m (fst r, es))"

lemma arms_map_simps [simp]:
  "arms_map b m (m', Inl err)" "arms_map b m (m', Inr es) = arms_result b m (m', es)"
  "arms_map b m (apsnd Inr r) = arms_result b m r"
  by (simp_all add: arms_map_def)

lemma arms_map_start: "arms_map b m (map_start now fresh e m)"
proof (cases "ne_Role e = ''USER''")
  case True
  define r where "r = (let m' = m\<lparr>mp_waitingUser := False\<rparr> in if mp_State m' = Responding then InterruptTurn m' else (m', []))"
  show ?thesis
    using True by (cases r)
      (simp add: map_start_def map_user_start_def r_def [symmetric], simp add: Let_def arms_not_responding)
next
  case False
  have "arms_result b m (m', [])" if "mp_State m' = mp_State m" for m' using that by (intro arms_kept) simp_all
  then show ?thesis using False by (simp add: map_start_def Let_def arms_same arms_state)
qed

lemma arms_MapEvent: "arms_map b m (MapEvent now fresh e m)"
proof -
  have same: "arms_map b m (m', Inr es)" if "mp_State m' = mp_State m" "list_all (\<lambda>e. arm b e = b) es" for m' es
    using that by (simp add: arms_kept)
  have "arms_map b m (map_text e c m)" "arms_map b m (map_tool e c m)" "arms_map b m (map_audio now e c m)" for c
    unfolding map_text_def map_tool_def map_audio_def Let_def
    by (auto split: option.split intro!: same simp: arm_def turn_event_def simp del: arms_map_simps(2))
  moreover have "arms_map b m (map_end now e c m)" for c
  proof -
    let ?m = "m\<lparr>mp_contents := gdel (ne_ContentID e) (mp_contents m)\<rparr>"
    have i: "arms_result b m (InterruptTurn ?m)" using arms_Interrupt [of b ?m] by (simp add: arms_result_def)
    show ?thesis
    proof (cases "map_final c ?m")
      case (Inr m1)
      have "mp_State m1 = mp_State m" using map_final_frame [OF Inr] by simp
      then have "arms_result b m (m1, [])" by (intro arms_kept) simp_all
      then show ?thesis by (simp add: map_end_def Let_def i Inr arms_complete arms_kept)
    qed (simp add: map_end_def Let_def i arms_complete arms_kept)
  qed
  ultimately show ?thesis
    by (simp add: MapEvent_def arms_map_start arms_Interrupt arms_complete arms_same split: option.split)
qed

text \<open>The end of a content and a tool call never start a response.\<close>
lemma not_responding:
  assumes "ne_Kind e = ''toolUse'' \<or> ne_Kind e = ''contentEnd''" "mp_State (fst (MapEvent now fresh e m)) = Responding"
  shows "mp_State m = Responding"
proof -
  have i: "mp_State (fst (InterruptTurn m')) = Responding \<Longrightarrow> mp_State m' = Responding" for m'
    by (simp add: InterruptTurn_def Let_def split: if_splits)
  have "mp_State (fst (map_end now e c m)) = Responding \<Longrightarrow> mp_State m = Responding" for c
    using i [of "m\<lparr>mp_contents := gdel (ne_ContentID e) (mp_contents m)\<rparr>"] map_final_frame
    by (auto simp: map_end_def Let_def complete_turn_def split: if_splits sum.splits)
  then show ?thesis
    using assms by (auto simp: MapEvent_def map_tool_def split: option.splits if_splits)
qed

section \<open>Blocks\<close>

text \<open>A block after which the loop goes on leaves the timer armed.\<close>
definition stays_armed :: "('sch, 'm) agent_block \<Rightarrow> bool" where
  "stays_armed m \<longleftrightarrow> (\<forall>l. armed l \<longrightarrow> wp m (\<lambda>ok l'. ok \<longrightarrow> armed l') l)"

lemma stays_armedI: "(\<And>l. armed l \<Longrightarrow> wp m (\<lambda>ok l'. ok \<longrightarrow> armed l') l) \<Longrightarrow> stays_armed m"
  by (simp add: stays_armed_def)

lemma stays_armedD: "stays_armed m \<Longrightarrow> armed l \<Longrightarrow> wp m (\<lambda>ok l'. ok \<longrightarrow> armed l') l"
  by (simp add: stays_armed_def)

lemma armed_keeps: "keeps armed m \<Longrightarrow> stays_armed m"
  by (auto simp: stays_armed_def keeps_def elim!: wp_mono)

lemma armed_after: "stays_armed m \<Longrightarrow> stays_armed k \<Longrightarrow> stays_armed (after m k)"
  by (auto simp: stays_armed_def elim!: wp_mono)

lemma armed_bind: "keeps armed m \<Longrightarrow> (\<And>x. stays_armed (f x)) \<Longrightarrow> stays_armed (State_Monad.bind m f)"
  by (auto simp: stays_armed_def intro: keeps_wp)

lemma armed_get: "(\<And>l. armed l \<Longrightarrow> wp (f l) (\<lambda>ok l'. ok \<longrightarrow> armed l') l) \<Longrightarrow> stays_armed (State_Monad.bind State_Monad.get f)"
  by (simp add: stays_armed_def)

lemma armed_if: "(b \<Longrightarrow> stays_armed m) \<Longrightarrow> (\<not> b \<Longrightarrow> stays_armed n) \<Longrightarrow> stays_armed (if b then m else n)"
  by simp

lemma armed_option:
  "(x = None \<Longrightarrow> stays_armed m) \<Longrightarrow> (\<And>y. x = Some y \<Longrightarrow> stays_armed (n y)) \<Longrightarrow> stays_armed (case x of None \<Rightarrow> m | Some y \<Rightarrow> n y)"
  by (simp split: option.split)

lemma armed_flow: "stays_armed proceed" "stays_armed leave"
  by (simp_all add: stays_armed_def)

lemma armed_each: "(\<And>x. x \<in> set xs \<Longrightarrow> stays_armed (f x)) \<Longrightarrow> stays_armed (each f xs)"
  by (induction xs) (auto intro: armed_flow armed_after)

lemma keeps_armed:
  "keeps armed (act a)" "keeps armed (attempt E)" "keeps armed (write_event E e)" "keeps armed (sendError E c msg)"
  "keeps armed (set_tools f)" "keeps armed (session_call E x)" "keeps armed (start_job j)"
  "keeps armed (evidenceResult E t j r)" "keeps armed (send_result E i r)"
  by (auto simp: act_def attempt_def write_event_def sendError_def set_tools_def session_call_def start_job_def
      evidenceResult_def send_result_def intro!: keeps_bind keeps_assign keeps_if)

lemma armed_errors: "stays_armed (fail_with E c msg)" "stays_armed (refuse E c msg)" "stays_armed (stop_session E)"
  unfolding fail_with_def refuse_def stop_session_def by (intro armed_bind keeps_armed armed_flow)+

text \<open>A renewed session has a fresh mapper, which does not respond.\<close>
lemma wp_reopen_armed: "wp (reopen E prompt now) (\<lambda>ok l'. ok \<longrightarrow> armed l') l"
  by (simp add: reopen_def fail_with_def sendError_def write_event_def attempt_def act_def session_call_def set_tools_def
      armed_def NewMapper_def split: option.split)

text \<open>A block that leaves the timer armed whatever it finds, as the renewal of the session does.\<close>
definition arms_anyway :: "('sch, 'm) agent_block \<Rightarrow> bool" where
  "arms_anyway m \<longleftrightarrow> (\<forall>l. wp m (\<lambda>ok l'. ok \<longrightarrow> armed l') l)"

lemma rotate_arms: "arms_anyway (rotate E now)"
  by (simp add: arms_anyway_def rotate_def wp_reopen_armed)

lemma anyway_armed: "arms_anyway m \<Longrightarrow> stays_armed m"
  by (simp add: arms_anyway_def stays_armed_def)

lemma armed_try_later: "stays_armed (try_later now)"
  unfolding try_later_def by (intro armed_bind armed_flow keeps_assign) simp

text \<open>
  A closure \<open>emit\<close> that also runs the timer: what it does to the timer and the mapper follows from the
  events alone.
\<close>
locale timed_emitter = emitter em for em :: "('sch, 'm) emitter" +
  assumes em_arms: "wp (em es) (\<lambda>ok l'. (ok \<longrightarrow> (ag_turnTimeout l' \<noteq> None) = foldl arm (ag_turnTimeout l \<noteq> None) es)
     \<and> ag_mapper l' = ag_mapper l) l"
begin

text \<open>Emitting what an operation of the mapper returns, with the new mapper in place.\<close>
lemma armed_emit_result:
  assumes "arms_result (ag_turnTimeout l \<noteq> None) (ag_mapper l) (m, es)" "armed l"
  shows "wp (em es) (\<lambda>ok l'. ok \<longrightarrow> armed l') (l\<lparr>ag_mapper := m\<rparr>)"
  by (rule wp_mono [OF em_arms]) (use assms in \<open>auto simp: armed_def arms_result_def\<close>)

lemma armed_emit_later:
  assumes "arms_result (ag_turnTimeout l \<noteq> None) (ag_mapper l) (m, es)" "armed l"
    and "ag_mapper l' = m" "(ag_turnTimeout l' = None) = (ag_turnTimeout l = None)"
  shows "wp (em es) (\<lambda>ok l'. ok \<longrightarrow> armed l') l'"
  by (rule wp_mono [OF em_arms]) (use assms in \<open>auto simp: armed_def arms_result_def\<close>)

text \<open>Events that leave the timer alone.\<close>
lemma armed_em: "list_all (\<lambda>e. ev_Type e \<notin> {SessionState, TurnInterrupted, TurnCompleted}) es \<Longrightarrow> stays_armed (em es)"
proof (rule stays_armedI, goal_cases)
  case (1 l)
  have "foldl arm b es = b" for b using 1(1) by (induction es arbitrary: b) (simp_all add: arm_def)
  then show ?case
    by (intro wp_mono [OF em_arms]) (use 1(2) in \<open>auto simp: armed_def\<close>)
qed

lemma armed_interrupt: "stays_armed (emit_interrupt em)"
  unfolding emit_interrupt_def
proof (rule armed_get, goal_cases)
  case (1 l)
  obtain m es where r: "InterruptTurn (ag_mapper l) = (m, es)" by fastforce
  have "wp (em es) (\<lambda>ok l'. ok \<longrightarrow> armed l') (l\<lparr>ag_mapper := m\<rparr>)"
    by (rule armed_emit_result [OF _ 1]) (use arms_Interrupt [of _ "ag_mapper l"] in \<open>simp add: r\<close>)
  then show ?case by (simp add: r set_mapper_def)
qed

lemma armed_start: "stays_armed (emit_start em now ident)"
  unfolding emit_start_def
proof (rule armed_get, goal_cases)
  case (1 l)
  obtain m es where r: "StartInput now ident (ag_mapper l) = (m, es)" by fastforce
  have "wp (em es) (\<lambda>ok l'. ok \<longrightarrow> armed l') (l\<lparr>ag_mapper := m\<rparr>)"
    by (rule armed_emit_result [OF _ 1]) (use arms_StartInput [of _ "ag_mapper l" now ident] in \<open>simp add: r\<close>)
  then show ?case by (simp add: r set_mapper_def)
qed

lemma armed_on_turn_timeout: "stays_armed (on_turn_timeout E em)"
  unfolding on_turn_timeout_def by (intro armed_after armed_interrupt armed_errors)

lemma armed_on_renew: "arms_anyway rot \<Longrightarrow> stays_armed (on_renew E em rot now)"
  unfolding on_renew_def
  by (intro armed_bind armed_if armed_after armed_errors armed_try_later armed_interrupt armed_flow anyway_armed) simp_all

lemma armed_on_cancel: "arms_anyway rot \<Longrightarrow> stays_armed (on_cancel E em rot e)"
  unfolding on_cancel_def
  by (rule armed_bind, rule keeps_simple, intro armed_if armed_errors armed_after armed_interrupt)
    (simp add: stays_armed_def arms_anyway_def)

lemma armed_answer:
  assumes "\<And>j r. ev_Type (show_result j r) = ToolResult"
  shows "stays_armed (answer_now E em show_result t turn j r)"
proof -
  have "stays_armed (em [show_result j r])" "stays_armed (em [confirmation_event s p turn])" for s :: "'sch orch" and p
    by (rule armed_em, simp add: assms confirmation_event_def)+
  then show ?thesis
    unfolding answer_now_def ask_confirmation_def
    by (intro armed_bind armed_if armed_after armed_option armed_errors armed_flow keeps_armed keeps_simple)
qed

lemma armed_execute_call:
  assumes "\<And>j r. ev_Type (show_result j r) = ToolResult" "ev_Type call = ToolStarted"
  shows "stays_armed (after (em [call]) (execute_call E em show_result t turn j r))"
proof -
  have "stays_armed (em [call])" by (rule armed_em) (simp add: assms(2))
  then show ?thesis
    unfolding execute_call_def
    by (intro armed_after armed_option armed_bind armed_answer [OF assms(1)] armed_flow keeps_armed)
qed

lemma armed_end_call:
  fixes l :: "('sch, 'm) agent_scheme"
  assumes "staged_wf (tn_staged t)" "ag_tools l = Some t" "armed l"
    and es: "stays_armed (em es)" and run: "\<And>t call v. ev_Type call = ToolStarted \<Longrightarrow> stays_armed (run t call v)"
  shows "wp (end_call em run ev es) (\<lambda>ok l'. ok \<longrightarrow> armed l') l"
proof (cases "gget (tn_staged t) (ne_ContentID ev)")
  case None
  then show ?thesis using assms(2) stays_armedD [OF es assms(3)] by (simp add: end_call_def)
next
  case (Some call)
  then have "ev_Type call = ToolStarted"
    using assms(1) map_of_SomeD [OF Some] by (auto simp: staged_wf_def list_all_iff)
  then have "stays_armed (after (run t call v) (em es))" for v
    by (intro armed_after run es)
  then have "wp (after (run t call v) (em es)) (\<lambda>ok l'. ok \<longrightarrow> armed l') (l\<lparr>ag_tools := ts\<rparr>)" for v ts
    by (rule stays_armedD) (simp add: assms(3))
  then show ?thesis
    using assms(2,3) Some by (simp add: end_call_def set_tools_def panic_def act_def del: wp_after split: option.split)
qed

end

interpretation assistant_timed: timed_emitter "emit E now" for E :: "('sch, 'e) agent_env_scheme" and now
  by unfold_locales (rule wp_emit)

lemma armed_run_call:
  assumes "ev_Type call = ToolStarted"
  shows "stays_armed (run_call E now t call v)"
proof -
  have plan: "keeps armed (plan_staged E now t call v)"
    unfolding plan_staged_def by (intro keeps_bind keeps_if keeps_armed keeps_simple)
  have "stays_armed (after (emit E now [call]) (execute_call E (emit E now) toolResultEvent t turn j r))" for turn j r
    by (rule assistant_timed.armed_execute_call [OF _ assms]) (simp add: toolResultEvent_def)
  then show ?thesis
    unfolding run_call_def by (auto intro!: armed_bind plan split: prod.split)
qed

lemma armed_on_event: "stays_armed (on_event E now e)"
proof -
  have audio: "stays_armed (forward_audio E e)"
    unfolding forward_audio_def
    by (intro armed_bind armed_if armed_errors armed_flow keeps_armed keeps_assign) simp_all
  have "stays_armed (on_audio E (emit_start (emit E now) now) e)"
    unfolding on_audio_def
    by (intro armed_bind armed_if armed_after armed_errors assistant_timed.armed_start audio keeps_assign) simp_all
  moreover have "stays_armed (on_commit E now e)"
    unfolding on_commit_def by (intro armed_bind armed_if armed_errors armed_flow keeps_assign) simp_all
  moreover have "stays_armed (on_confirm E now e)"
    unfolding on_confirm_def panic_def
    by (intro armed_bind armed_if armed_option armed_errors armed_flow keeps_armed) simp_all
  moreover have "stays_armed (on_cancel E (emit E now) (rotate E now) e)"
    by (rule assistant_timed.armed_on_cancel [OF rotate_arms])
  ultimately show ?thesis
    unfolding on_event_def by (intro armed_if armed_errors)
qed

lemma armed_on_finished: "stays_armed (on_finished E now i outcome)"
proof -
  have "stays_armed (emit E now [toolResultEvent j r])" for j r
    by (rule assistant_timed.armed_em) (simp add: toolResultEvent_def)
  then show ?thesis
    unfolding on_finished_def Let_def
    by (intro armed_bind armed_if armed_option armed_errors armed_flow keeps_armed keeps_simple)
qed

section \<open>Provider events\<close>

lemma armed_hear: "stays_armed (hear E cid es)"
proof -
  have "stays_armed (hear_one E cid e)" for e
    unfolding hear_one_def
    by (intro armed_bind armed_if armed_errors armed_flow keeps_assign keeps_simple) simp
  then show ?thesis unfolding hear_def by (intro armed_each)
qed

lemma armed_utterance [simp]: "armed (end_utterance ev l) = armed l"
  by (simp add: end_utterance_def Let_def split: option.split)

lemma keeps_armed_observe: "keeps armed (observe E now ev)"
  unfolding observe_def by (intro keeps_bind keeps_if keeps_armed keeps_simple)

lemma armed_stage: "stays_armed (stage E ev es)"
  unfolding stage_def by (intro armed_bind armed_if armed_option armed_errors armed_flow keeps_armed keeps_simple)

text \<open>Blocks that leave the mapper alone.\<close>
lemma keeps_mapper:
  "keeps (\<lambda>l. ag_mapper l = m) (act a)" "keeps (\<lambda>l. ag_mapper l = m) (attempt E)"
  "keeps (\<lambda>l. ag_mapper l = m) (set_tools f)" "keeps (\<lambda>l. ag_mapper l = m) (session_call E x)"
  "keeps (\<lambda>l. ag_mapper l = m) (start_job j)" "keeps (\<lambda>l. ag_mapper l = m) (evidenceResult E t j r)"
  "keeps (\<lambda>l. ag_mapper l = m) (send_result E i r)" "keeps (\<lambda>l. ag_mapper l = m) (fail_with E c msg)"
  by (auto simp: act_def attempt_def write_event_def sendError_def set_tools_def session_call_def start_job_def
      evidenceResult_def send_result_def fail_with_def intro!: keeps_bind keeps_assign keeps_if)

lemma keeps_mapper_stage: "keeps (\<lambda>l. ag_mapper l = m) (stage E ev es)"
  unfolding stage_def by (intro keeps_bind keeps_if keeps_option keeps_mapper keeps_simple)

context timed_emitter begin

lemma keeps_mapper_em: "keeps (\<lambda>l. ag_mapper l = m) (em es)"
  by (rule keepsI) (rule wp_mono [OF em_arms], simp)

lemma keeps_mapper_execute: "keeps (\<lambda>l. ag_mapper l = m) (execute_call E em show_result t turn j r)"
  unfolding execute_call_def answer_now_def ask_confirmation_def
  by (intro keeps_bind keeps_after keeps_if keeps_option keeps_mapper keeps_mapper_em keeps_simple)

lemma keeps_mapper_end_call:
  "(\<And>t call v. keeps (\<lambda>l. ag_mapper l = m) (run t call v)) \<Longrightarrow> keeps (\<lambda>l. ag_mapper l = m) (end_call em run ev es)"
  unfolding end_call_def panic_def
  by (intro keeps_bind keeps_after keeps_if keeps_option keeps_mapper keeps_mapper_em keeps_simple)

text \<open>A call that is staged or executed while the assistant does or does not respond.\<close>
lemma wp_call_armed:
  assumes "agent_inv strict safe False L s0 l" "armed l" "mp_State (ag_mapper l) = Responding \<Longrightarrow> es = [] \<or> ne_Kind ev = ''toolUse''"
    and run: "\<And>t call v. keeps (\<lambda>l'. ag_mapper l' = ag_mapper l) (run t call v)"
      "\<And>t call v. ev_Type call = ToolStarted \<Longrightarrow> stays_armed (run t call v)"
  shows "wp (if ne_Kind ev = ''toolUse'' then stage E ev es else end_call em run ev es) (\<lambda>ok l'. ok \<longrightarrow> armed l') l"
proof (cases "mp_State (ag_mapper l) = Responding")
  case False
  have "wp k (\<lambda>ok l'. ok \<longrightarrow> armed l') l" if "keeps (\<lambda>l'. ag_mapper l' = ag_mapper l) k" for k
    by (rule wp_mono [OF keepsD [OF that refl]]) (use False in \<open>simp add: armed_def\<close>)
  then show ?thesis by (simp add: keeps_mapper_stage keeps_mapper_end_call run)
next
  case True
  have es: "stays_armed (em [])" by (rule armed_em) simp
  have "wp (end_call em run ev []) (\<lambda>ok l'. ok \<longrightarrow> armed l') l"
  proof (cases "ag_tools l")
    case None
    then show ?thesis using stays_armedD [OF es assms(2)] by (simp add: end_call_def)
  next
    case (Some t)
    then have "staged_wf (tn_staged t)" using assms(1) by (simp add: agent_inv_def tools_ok_def tools_wf_def)
    then show ?thesis using Some assms(2) es run(2) by (rule armed_end_call)
  qed
  then show ?thesis using assms(2,3) True stays_armedD [OF armed_stage assms(2)] by auto
qed

end

lemma keeps_mapper_run: "keeps (\<lambda>l. ag_mapper l = m) (run_call E now t call v)"
  unfolding run_call_def plan_staged_def
  by (intro keeps_bind keeps_prod keeps_after keeps_if keeps_mapper assistant_timed.keeps_mapper_execute
      assistant_timed.keeps_mapper_em keeps_simple)

text \<open>After the end of a content that leaves the assistant responding there is nothing to emit.\<close>
lemma end_emits_nothing:
  assumes "ne_Kind e = ''contentEnd''" "MapEvent now fresh e m = (m', Inr es)" "mp_State m' = Responding"
  shows "es = []"
proof -
  have i: "es = []" if "apsnd Inr (InterruptTurn m0) = (m', Inr es :: error + event list)" "mp_State m' = Responding" for m0 m' es
    using that by (auto simp: InterruptTurn_def Let_def split: if_splits)
  have "es = []" if "map_end now e c m = (m', Inr es)" "mp_State m' = Responding" for c m' es
    using that by (auto simp: map_end_def Let_def complete_turn_def dest: i split: if_splits sum.splits)
  then show ?thesis
    using assms
    by (cases "ne_Err e"; cases "gget (mp_contents m) (ne_ContentID e)") (auto simp: MapEvent_def split: if_splits)
qed

text \<open>The mapper, and whether the timer runs.\<close>
definition held :: "mapper \<Rightarrow> bool \<Rightarrow> ('sch, 'm) agent_scheme \<Rightarrow> bool" where
  "held m to l \<longleftrightarrow> ag_mapper l = m \<and> (ag_turnTimeout l = None) = (\<not> to)"

lemma keeps_held:
  "keeps (held m to) (hear E cid es)" "keeps (held m to) (observe E now ev)" "keeps (held m to) (assign (end_utterance ev))"
proof -
  have basic: "keeps (held m to) (act a)" "keeps (held m to) (attempt E)" "keeps (held m to) (session_call E x)"
    "keeps (held m to) (fail_with E c msg)" for a E x c msg
    by (auto simp: act_def attempt_def write_event_def sendError_def set_tools_def session_call_def fail_with_def
        held_def intro!: keeps_bind keeps_assign)
  show "keeps (held m to) (hear E cid es)"
    unfolding hear_def hear_one_def
    by (intro keeps_each keeps_bind keeps_if basic keeps_simple keeps_assign) (simp add: held_def)
  show "keeps (held m to) (observe E now ev)"
    unfolding observe_def by (intro keeps_bind keeps_if basic keeps_simple)
  show "keeps (held m to) (assign (end_utterance ev))"
    by (rule keeps_assign) (simp add: held_def end_utterance_def Let_def split: option.split)
qed

text \<open>What follows the user's texts in \<open>on_stream\<close> finds the mapper and the timer as they were.\<close>
lemma wp_heard:
  assumes "agent_inv strict safe False (rn_lib E) s0 l" "held m to l" "\<And>l'. Q False l'"
    and k: "\<And>l'. agent_inv strict safe False (rn_lib E) s0 l' \<Longrightarrow> held m to l' \<Longrightarrow> wp k Q l'"
  shows "wp (after (hear E cid es) (do { assign (end_utterance ev); observe E now ev; k })) Q l"
proof -
  let ?J = "\<lambda>l. agent_inv strict safe False (rn_lib E) s0 l \<and> held m to l"
  have h: "keeps ?J (hear E cid es)" by (intro keeps_conj keeps_hear keeps_held)
  have ob: "keeps ?J (observe E now ev)" by (intro keeps_conj keeps_observe keeps_held)
  have a: "keeps ?J (assign (end_utterance ev))"
    by (intro keeps_conj keeps_held keeps_assign) (simp add: agent_inv_utterance)
  have "wp (do { assign (end_utterance ev); observe E now ev; k }) Q l'" if "?J l'" for l'
    unfolding wp_bind by (rule keeps_wp [OF a that], rule keeps_wp [OF ob], assumption) (use k in blast)
  then show ?thesis
    unfolding wp_after using assms(1,2,3) by (intro keeps_wp [OF h]) auto
qed

text \<open>
  A provider event that the mapper accepted: whatever is done first, if it leaves the mapper and the
  timer, what follows leaves the timer armed.
\<close>
context timed_emitter begin

lemma wp_mapped_armed:
  assumes "agent_inv strict safe False L s0 l" "armed l" and map: "MapEvent now fresh ev (ag_mapper l) = (m, Inr es)"
    and first: "\<And>k Q. (\<And>l'. Q False l')
      \<Longrightarrow> (\<And>l'. agent_inv strict safe False L s0 l' \<Longrightarrow> held m (ag_turnTimeout l \<noteq> None) l' \<Longrightarrow> wp k Q l')
      \<Longrightarrow> wp (first k) Q (l\<lparr>ag_mapper := m\<rparr>)"
    and run: "\<And>t call v m. keeps (\<lambda>l. ag_mapper l = m) (run t call v)"
      "\<And>t call v. ev_Type call = ToolStarted \<Longrightarrow> stays_armed (run t call v)"
  shows "wp (first (if ne_Kind ev = ''toolUse'' then stage E ev es
      else if ne_Kind ev = ''contentEnd'' then end_call em run ev es else em es)) (\<lambda>ok l'. ok \<longrightarrow> armed l') (l\<lparr>ag_mapper := m\<rparr>)"
proof (rule first, simp, goal_cases)
  case (1 l')
  have res: "arms_result (ag_turnTimeout l \<noteq> None) (ag_mapper l) (m, es)"
    using arms_MapEvent [of _ "ag_mapper l" now fresh ev] by (simp add: map)
  have emit: "wp (em es) (\<lambda>ok l'. ok \<longrightarrow> armed l') l'"
    using 1(2) by (intro armed_emit_later [OF res assms(2)]) (simp_all add: held_def)
  have "wp (if ne_Kind ev = ''toolUse'' then stage E ev es else end_call em run ev es) (\<lambda>ok l'. ok \<longrightarrow> armed l') l'"
    if kind: "ne_Kind ev = ''toolUse'' \<or> ne_Kind ev = ''contentEnd''"
  proof (rule wp_call_armed [OF 1(1) _ _ run])
    have "mp_State (ag_mapper l) = Responding" if "mp_State m = Responding"
      using not_responding [OF kind, of now fresh "ag_mapper l"] that by (simp add: map)
    then show "armed l'" using 1(2) assms(2) by (auto simp: held_def armed_def)
    show "es = [] \<or> ne_Kind ev = ''toolUse''" if "mp_State (ag_mapper l') = Responding"
      using end_emits_nothing [OF _ map] kind 1(2) that by (auto simp: held_def)
  qed
  then show ?case using emit by (cases "ne_Kind ev = ''toolUse''"; cases "ne_Kind ev = ''contentEnd''") simp_all
qed

end

lemma wp_on_stream_armed:
  assumes inv: "agent_inv strict safe False (rn_lib E) s0 l" and l: "armed l"
  shows "wp (on_stream E now fresh ev) (\<lambda>ok l'. ok \<longrightarrow> armed l') l"
proof -
  obtain m r where map: "MapEvent now fresh ev (ag_mapper l) = (m, r)" by fastforce
  show ?thesis
  proof (cases r)
    case (Inl err)
    then show ?thesis
      by (simp add: on_stream_def map set_mapper_def panic_def fail_with_def act_def sendError_def write_event_def attempt_def)
  next
    case (Inr es)
    let ?l = "l\<lparr>ag_mapper := m\<rparr>" and ?to = "ag_turnTimeout l \<noteq> None"
    have I: "agent_inv strict safe False (rn_lib E) s0 ?l"
      using any_history.MapEvent_inv [OF inv_mapper [OF inv], of now fresh ev] inv by (simp add: map agent_inv_mapper)
    have held: "held m ?to ?l" by (simp add: held_def)
    have "wp (after (hear E (ne_ContentID ev) es) (do { assign (end_utterance ev); observe E now ev;
        (if ne_Kind ev = ''toolUse'' then stage E ev es
         else if ne_Kind ev = ''contentEnd'' then end_call (emit E now) (run_call E now) ev es
         else emit E now es) })) (\<lambda>ok l'. ok \<longrightarrow> armed l') ?l"
      by (rule assistant_timed.wp_mapped_armed [OF inv l map [unfolded Inr] wp_heard [OF I held] keeps_mapper_run armed_run_call])
    moreover have "wp (emit E now es) (\<lambda>ok l'. ok \<longrightarrow> armed l') ?l"
      using arms_MapEvent [of ?to "ag_mapper l" now fresh ev]
      by (intro assistant_timed.armed_emit_result [OF _ l]) (simp add: map Inr)
    ultimately show ?thesis
      by (simp add: on_stream_def map Inr set_mapper_def del: wp_after)
  qed
qed

section \<open>A response ends\<close>

lemma wp_agent_step:
  assumes "agent_inv strict False False (rn_lib E) s0 l" "armed l"
  shows "wp (agent_step E x) (\<lambda>ok l'. agent_inv strict False False (rn_lib E) s0 l' \<and> (ok \<longrightarrow> armed l')) l"
proof (rule wp_conj)
  obtain now fresh i where x: "x = (now, fresh, i)" using prod_cases3 by blast
  show "wp (agent_step E x) (\<lambda>_. agent_inv strict False False (rn_lib E) s0) l"
    unfolding x by (rule keepsD [OF keeps_agent_step assms(1)]) simp
  have "stays_armed (agent_step E x)" if "\<And>ev. i \<noteq> InStream ev"
    using that unfolding x
    by (cases i) (auto intro!: armed_bind armed_option armed_if armed_flow armed_errors assistant_timed.armed_on_turn_timeout
        assistant_timed.armed_on_renew rotate_arms armed_on_event armed_on_finished)
  then have "wp (agent_step E x) (\<lambda>ok l'. ok \<longrightarrow> armed l') l" if "\<And>ev. i \<noteq> InStream ev"
    using that by (intro stays_armedD [OF _ assms(2)]) blast
  then show "wp (agent_step E x) (\<lambda>ok l'. ok \<longrightarrow> armed l') l"
    using wp_on_stream_armed [OF assms] x by (cases "\<exists>ev. i = InStream ev") auto
qed

lemma wp_agent_loop:
  "agent_inv strict False False (rn_lib E) s0 l \<Longrightarrow> armed l
     \<Longrightarrow> wp (agent_loop E xs) (\<lambda>ok l'. agent_inv strict False False (rn_lib E) s0 l' \<and> (ok \<longrightarrow> armed l')) l"
proof (induction xs arbitrary: l)
  case (Cons x xs)
  show ?case
    unfolding agent_loop_def each.simps wp_after
    by (rule wp_mono [OF wp_agent_step [OF Cons.prems]]) (use Cons.IH in \<open>auto simp: agent_loop_def\<close>)
qed (simp add: agent_loop_def)

lemma timeout_ends: "ag_turnTimeout l = Some d \<Longrightarrow> d \<le> now \<Longrightarrow> wp (agent_step E (now, fresh, InTurnTimeout)) (\<lambda>ok _. \<not> ok) l"
proof -
  assume l: "ag_turnTimeout l = Some d" "d \<le> now"
  have "wp (on_turn_timeout E (emit E now)) (\<lambda>ok _. \<not> ok) l"
    unfolding on_turn_timeout_def fail_with_def wp_after wp_bind by (simp add: wp_run leave_def)
  then show ?thesis using l by simp
qed

text \<open>The tools a session opens with: none without a backend, or a new session of the orchestrator.\<close>
abbreviation first_tools :: "('sch orch \<times> bool \<times> string) option \<Rightarrow> 'sch tools option" where
  "first_tools ts \<equiv> map_option (\<lambda>(s0, ev, sid). new_tools s0 ev sid) ts"

lemma opens_with_first: "\<exists>s0. opens_with s0 (first_tools ts)"
proof (cases ts)
  case (Some t)
  obtain s0 ev sid where "t = (s0, ev, sid)" by (rule prod_cases3)
  then have "opens_with s0 (first_tools ts)" using Some by simp
  then show ?thesis by blast
qed simp

text \<open>
  C8. A response never runs for ever: whenever a session that goes on responds, with tools or without, a
  deadline is running, and once the turn timer fires at that deadline or later the session ends,
  whatever was to follow.
\<close>
theorem agent_response_ends:
  "case run_state (agent_loop E ticks) (agent_start E now (first_tools ts)) of (going, l) \<Rightarrow>
     if going \<and> mp_State (ag_mapper l) = Responding
     then (case ag_turnTimeout l of None \<Rightarrow> False
       | Some d \<Rightarrow> \<not> fst (run_state (agent_loop E ((max d at, fresh, InTurnTimeout) # rest)) l))
     else True"
proof -
  obtain going l where run: "run_state (agent_loop E ticks) (agent_start E now (first_tools ts)) = (going, l)"
    by fastforce
  obtain s0 where s0: "opens_with s0 (first_tools ts)" using opens_with_first by blast
  have start: "armed (agent_start E now (first_tools ts))"
    by (simp add: armed_def agent_start_def NewMapper_def)
  have "agent_inv True False False (rn_lib E) s0 (agent_start E now (first_tools ts))"
    by (rule inv_any [OF agent_inv_start [OF s0]]) simp
  then have armed: "going \<longrightarrow> armed l"
    using wp_agent_loop [where xs = ticks and E = E and ?s0.0 = s0, OF _ start] by (simp add: wp_run run)
  have "\<not> fst (run_state (agent_loop E ((max d at, fresh, InTurnTimeout) # rest)) l)" if "ag_turnTimeout l = Some d" for d
  proof -
    have "wp (agent_loop E ((max d at, fresh, InTurnTimeout) # rest)) (\<lambda>ok _. \<not> ok) l"
      unfolding agent_loop_def each.simps wp_after
      by (rule wp_mono [OF timeout_ends [OF that]]) simp_all
    then show ?thesis by (simp add: wp_run)
  qed
  then show ?thesis using armed by (auto simp: run armed_def split: option.split)
qed

end
