(* ===== verification/Agent_Service.thy ===== *)
theory Agent_Service
  imports Agent_Timer Tool_Routing Bridge
begin

text \<open>
  The personal assistant as a service: its configuration from environment variables
  (\<open>config/service.go\<close>), what \<open>main\<close> builds from it (\<open>cmd/agent/main.go\<close>), the session factory
  (\<open>session/factory.go\<close>) and the opening of a session's tools (\<open>internal/agent/tools.go\<close>,
  \<open>evidence.go\<close>, \<open>internal/actions/tools.go\<close>). All paths are under \<open>apps/personal-assistant-agent\<close>.
\<close>

section \<open>Reading the environment\<close>

text \<open>\<open>if err != nil { return err }\<close>\<close>
definition checked :: "error + 'a \<Rightarrow> ('a \<Rightarrow> error + 'b) \<Rightarrow> error + 'b" where
  "checked x f = (case x of Inl err \<Rightarrow> Inl err | Inr y \<Rightarrow> f y)"

definition env_duration :: "world \<Rightarrow> string \<Rightarrow> duration \<Rightarrow> error + duration" where
  "env_duration w key fallback =
     (if Getenv w key = [] then Inr fallback
      else (case wd_ParseDuration w (Getenv w key) of
          None \<Rightarrow> Inl (key @ '' must be a positive duration'')
        | Some v \<Rightarrow> if v \<le> 0 then Inl (key @ '' must be a positive duration'') else Inr v))"

text \<open>\<open>strconv.Atoi\<close>: an optional sign and digits, in 64 bits.\<close>
definition Atoi :: "string \<Rightarrow> int option" where
  "Atoi s = (case s of c # r \<Rightarrow> if c = CHR ''+'' then (case r of d # _ \<Rightarrow> if is_digit d then parse_int64 r else None | [] \<Rightarrow> None)
      else parse_int64 s | [] \<Rightarrow> None)"

definition env_sessions :: "world \<Rightarrow> error + int" where
  "env_sessions w =
     (if Getenv w ''STS_AGENT_MAX_SESSIONS'' = [] then Inr 16
      else (case Atoi (Getenv w ''STS_AGENT_MAX_SESSIONS'') of
          None \<Rightarrow> Inl ''STS_AGENT_MAX_SESSIONS is invalid''
        | Some n \<Rightarrow> if n \<le> 0 \<or> n > MaxRemoteSessions then Inl ''STS_AGENT_MAX_SESSIONS is invalid'' else Inr n))"

definition splitCSV :: "string \<Rightarrow> string list" where
  "splitCSV raw = map trim_space (split_byte CHR '','' raw)"

text \<open>\<open>strings.EqualFold\<close> with an ASCII name is \<open>names_field\<close>.\<close>
definition IsLoopbackAddress :: "world \<Rightarrow> string \<Rightarrow> bool" where
  "IsLoopbackAddress w address =
     (case wd_SplitHostPort w address of
        None \<Rightarrow> False | Some host \<Rightarrow> names_field host ''localhost'' \<or> wd_LoopbackIP w host)"

section \<open>Lists in JSON\<close>

text \<open>A \<open>map[string]string\<close>: \<open>null\<close> is nil, a \<open>null\<close> value the empty string.\<close>
fun decode_strings :: "(string \<times> string) list \<Rightarrow> string gomap \<Rightarrow> string gomap option" where
  "decode_strings [] m = Some m"
| "decode_strings ((k, raw) # ms) m =
     (case raw_string raw of
        None \<Rightarrow> None
      | Some v \<Rightarrow> decode_strings ms (gput k (case v of None \<Rightarrow> [] | Some s \<Rightarrow> s) m))"

definition raw_string_map :: "string \<Rightarrow> string gomap \<Rightarrow> string gomap option" where
  "raw_string_map raw m =
     (case json_whole raw of
        Some JNull \<Rightarrow> Some []
      | Some (JObj _) \<Rightarrow> (case raw_members raw of None \<Rightarrow> None | Some (ms, _) \<Rightarrow> decode_strings ms m)
      | _ \<Rightarrow> None)"

definition strings_field :: "string \<Rightarrow> ('r \<Rightarrow> string list) \<Rightarrow> (string list \<Rightarrow> 'r \<Rightarrow> 'r) \<Rightarrow> string \<times> (string \<Rightarrow> 'r \<Rightarrow> 'r option)" where
  "strings_field n get upd = (n, \<lambda>raw x.
     map_option (\<lambda>v. upd (case v of None \<Rightarrow> [] | Some xs \<Rightarrow> xs) x) (raw_strings raw (Some (get x))))"

definition string_map_field :: "string \<Rightarrow> ('r \<Rightarrow> string gomap) \<Rightarrow> (string gomap \<Rightarrow> 'r \<Rightarrow> 'r) \<Rightarrow> string \<times> (string \<Rightarrow> 'r \<Rightarrow> 'r option)" where
  "string_map_field n get upd = (n, \<lambda>raw x. map_option (\<lambda>v. upd v x) (raw_string_map raw (get x)))"

definition server_config_fields :: "Host_Config.server_config fields" where
  "server_config_fields =
     [string_field ''cwd'' (\<lambda>v x. x\<lparr>sc_Cwd := v\<rparr>),
      string_map_field ''env'' sc_Env (\<lambda>v x. x\<lparr>sc_Env := v\<rparr>),
      string_field ''alias'' (\<lambda>v x. x\<lparr>sc_Alias := v\<rparr>),
      string_field ''command'' (\<lambda>v x. x\<lparr>sc_Command := v\<rparr>),
      strings_field ''args'' sc_Args (\<lambda>v x. x\<lparr>sc_Args := v\<rparr>),
      strings_field ''allowed_tools'' Host_Config.sc_AllowedTools (\<lambda>v x. x\<lparr>sc_AllowedTools := v\<rparr>),
      string_map_field ''policies'' sc_Policies (\<lambda>v x. x\<lparr>sc_Policies := v\<rparr>)]"

definition gateway_config_fields :: "gateway_config fields" where
  "gateway_config_fields =
     [string_field ''alias'' (\<lambda>v x. x\<lparr>gc_Alias := v\<rparr>),
      string_field ''server_id'' (\<lambda>v x. x\<lparr>gc_ServerID := v\<rparr>),
      strings_field ''allowed_tools'' gc_AllowedTools (\<lambda>v x. x\<lparr>gc_AllowedTools := v\<rparr>),
      string_map_field ''policies'' gc_Policies (\<lambda>v x. x\<lparr>gc_Policies := v\<rparr>)]"

text \<open>\<open>json.Unmarshal\<close> into a nil slice of structs.\<close>
definition unmarshal_list :: "'a fields \<Rightarrow> 'a \<Rightarrow> string \<Rightarrow> 'a list option" where
  "unmarshal_list fs zero s = snd (list_field [] fs zero (\<lambda>xs. xs) (\<lambda>ys _. ys)) s []"

definition zero_server :: Host_Config.server_config where
  "zero_server = \<lparr>sc_Cwd = [], sc_Env = [], sc_Alias = [], sc_Command = [], sc_Args = [], sc_AllowedTools = [], sc_Policies = []\<rparr>"

definition zero_gateway :: gateway_config where
  "zero_gateway = \<lparr>gc_Alias = [], gc_ServerID = [], gc_AllowedTools = [], gc_Policies = []\<rparr>"

section \<open>The service\<close>

record service =
  sv_Runtime :: config
  sv_Address :: string
  sv_AgentID :: string
  sv_Token :: string
  sv_ReadTimeout :: duration
  sv_WriteTimeout :: duration
  sv_IdleTimeout :: duration
  sv_MaxSessions :: int

definition env_config :: "world \<Rightarrow> duration \<Rightarrow> duration \<Rightarrow> duration \<Rightarrow> config" where
  "env_config w turnTimeout sessionAge mcpTimeout =
     \<lparr>cf_Provider = envValue w ''STS_PROVIDER'' ''nova'', cf_PromptFile = Getenv w ''STS_AGENT_PROMPT_FILE'',
      cf_NovaMaxSessionAge = sessionAge,
      cf_LiteLLMModel = envValue w ''STS_LITELLM_REALTIME_MODEL'' ''nova-sonic'',
      cf_MCPServers = [], cf_MCPEvidencePath = Getenv w ''STS_MCP_EVIDENCE_PATH'',
      cf_MCPCommand = Getenv w ''STS_MCP_COMMAND'', cf_MCPArgs = [],
      cf_MCPAllowedTools = splitCSV (envValue w ''STS_MCP_ALLOWED_TOOLS'' ''notes.create,notes.list,notes.delete''),
      cf_MCPTimeout = mcpTimeout, cf_MCPBackend = envValue w ''STS_MCP_BACKEND'' ''stdio'',
      cf_LiteLLMURL = Getenv w ''STS_LITELLM_URL'', cf_LiteLLMAPIKey = Getenv w ''STS_LITELLM_API_KEY'',
      cf_MCPContextSecret = Getenv w ''STS_MCP_CONTEXT_SECRET'', cf_LiteLLMServers = [],
      cf_TurnTimeout = turnTimeout\<rparr>"

text \<open>\<open>STS_MCP_ARGS\<close>, \<open>STS_MCP_SERVERS\<close> and the LiteLLM servers.\<close>
definition env_args :: "world \<Rightarrow> config \<Rightarrow> error + config" where
  "env_args w c =
     (if Getenv w ''STS_MCP_ARGS'' = [] then Inr c
      else (case raw_strings (Getenv w ''STS_MCP_ARGS'') None of
          None \<Rightarrow> Inl ''STS_MCP_ARGS must be a JSON string array''
        | Some v \<Rightarrow> Inr (c\<lparr>cf_MCPArgs := (case v of None \<Rightarrow> [] | Some xs \<Rightarrow> xs)\<rparr>)))"

definition env_servers :: "world \<Rightarrow> config \<Rightarrow> error + config" where
  "env_servers w c =
     (let failed = Inl ''STS_MCP_SERVERS must be a nonempty unambiguous JSON server array'' in
      if Getenv w ''STS_MCP_SERVERS'' = [] then Inr c
      else if cf_MCPCommand c \<noteq> [] then failed
      else (case unmarshal_list server_config_fields zero_server (Getenv w ''STS_MCP_SERVERS'') of
          None \<Rightarrow> failed
        | Some servers \<Rightarrow> if servers = [] then failed else Inr (c\<lparr>cf_MCPServers := servers\<rparr>)))"

definition env_gateways :: "world \<Rightarrow> config \<Rightarrow> error + config" where
  "env_gateways w c =
     (if cf_MCPBackend c \<noteq> ''litellm'' then Inr c
      else if cf_MCPCommand c \<noteq> [] \<or> cf_MCPServers c \<noteq> [] then Inl ''invalid LiteLLM MCP configuration''
      else (case unmarshal_list gateway_config_fields zero_gateway (Getenv w ''STS_LITELLM_MCP_SERVERS'') of
          None \<Rightarrow> Inl ''invalid LiteLLM MCP configuration''
        | Some servers \<Rightarrow> Inr (c\<lparr>cf_LiteLLMServers := servers\<rparr>)))"

definition env_tools :: "world \<Rightarrow> config \<Rightarrow> error + config" where
  "env_tools w c0 =
     checked (env_args w c0) (\<lambda>c1.
     checked (env_servers w c1) (\<lambda>c.
       if cf_MCPCommand c \<noteq> [] \<and> \<not> is_abs (cf_MCPCommand c) then Inl ''STS_MCP_COMMAND must be absolute''
       else env_gateways w c))"

definition LoadService :: "world \<Rightarrow> error + service" where
  "LoadService w =
     checked (env_duration w ''STS_AGENT_READ_TIMEOUT'' (10 * second_ns)) (\<lambda>readTimeout.
     checked (env_duration w ''STS_AGENT_WRITE_TIMEOUT'' (10 * second_ns)) (\<lambda>writeTimeout.
     checked (env_duration w ''STS_AGENT_IDLE_TIMEOUT'' (90 * second_ns)) (\<lambda>idleTimeout.
     checked (env_duration w ''STS_TURN_TIMEOUT'' (30 * second_ns)) (\<lambda>turnTimeout.
     checked (env_duration w ''STS_NOVA_MAX_SESSION_AGE'' (7 * minute_ns + 30 * second_ns)) (\<lambda>sessionAge.
     checked (env_duration w ''STS_MCP_TIMEOUT'' (10 * second_ns)) (\<lambda>mcpTimeout.
     checked (env_sessions w) (\<lambda>maxSessions.
       let address = envValue w ''STS_AGENT_ADDRESS'' ''127.0.0.1:8090''; token = Getenv w ''STS_AGENT_TOKEN'' in
       if \<not> IsLoopbackAddress w address then Inl ''Agent Session v1 must listen on loopback''
       else if token = [] \<or> length token > 4096 then Inl ''STS_AGENT_TOKEN is required''
       else checked (env_tools w (env_config w turnTimeout sessionAge mcpTimeout)) (\<lambda>c.
         let s = \<lparr>sv_Runtime = c, sv_Address = address,
                  sv_AgentID = envValue w ''STS_AGENT_ID'' ''personal-assistant'', sv_Token = token,
                  sv_ReadTimeout = readTimeout, sv_WriteTimeout = writeTimeout, sv_IdleTimeout = idleTimeout,
                  sv_MaxSessions = maxSessions\<rparr> in
         if cf_Provider c = ''fake'' then Inr s
         else (case ValidateConfig w c of Some err \<Rightarrow> Inl err | None \<Rightarrow> Inr s)))))))))"

section \<open>The session factory\<close>

text \<open>\<open>agent.New\<close> gives the prompt of the sessions.\<close>
definition NewRuntime :: "world \<Rightarrow> config \<Rightarrow> error + string" where
  "NewRuntime w c = (case ValidateConfig w c of Some err \<Rightarrow> Inl err | None \<Rightarrow> LoadPrompt w (cf_PromptFile c))"

definition NewFactory :: "world \<Rightarrow> error + registry \<Rightarrow> config \<Rightarrow> error + string" where
  "NewFactory w loaded c =
     checked (if cf_MCPBackend c \<noteq> ''litellm'' then Inr ()
        else (case ValidateGatewayServers loaded (cf_LiteLLMServers c) of
            Some err \<Rightarrow> Inl err
          | None \<Rightarrow> map_sum id (\<lambda>_. ()) (NewEnvelopeCodec (cf_MCPContextSecret c) (gc_Alias (hd (cf_LiteLLMServers c)))))) (\<lambda>_.
     checked (if cf_MCPServers c = [] then Inr ()
        else (case ValidateServers (wd_LookupEnv w) loaded (cf_MCPServers c) of Some err \<Rightarrow> Inl err | None \<Rightarrow> Inr ())) (\<lambda>_.
     NewRuntime w c))"

text \<open>\<open>main\<close> up to the listening: the service and the configuration of its handler.\<close>
definition agent_main :: "world \<Rightarrow> error + registry \<Rightarrow> error + service \<times> Agent_Remote.server_config" where
  "agent_main w loaded =
     checked (LoadService w) (\<lambda>s.
     checked (if cf_Provider (sv_Runtime s) = ''fake'' then Inr [] else NewFactory w loaded (sv_Runtime s)) (\<lambda>_.
     checked (NewHandler \<lparr>sc_Protocol = [], sc_AgentID = sv_AgentID s, sc_Token = sv_Token s,
        sc_ReadTimeout = sv_ReadTimeout s, sc_WriteTimeout = sv_WriteTimeout s,
        sc_IdleTimeout = sv_IdleTimeout s, sc_MaxSessions = sv_MaxSessions s\<rparr> True) (\<lambda>h.
     Inr (s, h))))"

text \<open>\<open>Open\<close>: the namespace under which the session's tools run.\<close>
definition FactoryOpen :: "session_start \<Rightarrow> error + string" where
  "FactoryOpen start =
     (if st_SessionID start = [] \<or> st_AgentID start \<noteq> ''personal-assistant'' \<or> st_Provider start \<noteq> ''nova''
      then Inl ''invalid agent session''
      else Inr (if st_RequestID start \<noteq> [] then st_RequestID start else st_SessionID start))"

section \<open>Opening the tools\<close>

text \<open>
  What opening tools meets: the injected factory if there is one, the answers of the LiteLLM
  gateway, the tools each server lists or the error of its start, those of the single server, and
  the outcomes of making the directory of the evidence file, opening it and changing its mode.
\<close>
record 'sch tool_env =
  te_lib :: "'sch lib"
  te_loaded :: "error + registry"
  te_factory :: "(error + (error + tool list)) option"
  te_answer :: "nat \<Rightarrow> exchange"
  te_servers :: "nat \<Rightarrow> error + tool list"
  te_single :: "error + (error + tool list)"
  te_mkdir :: "error option"
  te_open :: "error option"
  te_chmod :: "error option"

text \<open>\<open>True\<close> is an open file.\<close>
definition openEvidence :: "'sch tool_env \<Rightarrow> string \<Rightarrow> error + bool" where
  "openEvidence T path =
     (if path = [] then Inr False
      else if \<not> is_abs path then Inl ''evidence path must be absolute''
      else (case te_mkdir T of
          Some err \<Rightarrow> Inl err
        | None \<Rightarrow> (case te_open T of
              Some err \<Rightarrow> Inl err
            | None \<Rightarrow> (case te_chmod T of Some err \<Rightarrow> Inl err | None \<Rightarrow> Inr True))))"

text \<open>The tools of the backend, and the names allowed.\<close>
definition open_backend :: "'sch tool_env \<Rightarrow> world \<Rightarrow> config \<Rightarrow> error + (error + tool list) \<times> string list" where
  "open_backend T w c =
     (case te_factory T of
        Some outcome \<Rightarrow> checked outcome (\<lambda>ts. Inr (ts, cf_MCPAllowedTools c))
      | None \<Rightarrow>
          if cf_MCPBackend c = ''litellm'' then
            checked (newGateway (base_url_ok w) (te_loaded T) (te_answer T) (cf_LiteLLMURL c) (cf_LiteLLMAPIKey c)
              (cf_MCPContextSecret c) (cf_LiteLLMServers c) (cf_MCPTimeout c))
              (\<lambda>g. Inr (Inr (gw_tools g), map tl_Name (gw_tools g)))
          else if cf_MCPServers c \<noteq> [] then
            checked (StartServers (wd_LookupEnv w) (te_loaded T) (te_servers T) (cf_MCPServers c) (cf_MCPTimeout c))
              (\<lambda>r. Inr (Inr (ro_tools r), AllowedTools r))
          else checked (te_single T) (\<lambda>ts. Inr (ts, cf_MCPAllowedTools c)))"

text \<open>\<open>actions.New\<close>: the orchestrator under the host's profiles.\<close>
definition actions_New :: "'sch tool_env \<Rightarrow> error + tool list \<Rightarrow> string list \<Rightarrow> string \<Rightarrow> error + 'sch orch" where
  "actions_New T discovered allowed ns = checked (te_loaded T) (NewOrch (te_lib T) discovered allowed ns)"

definition openTools :: "'sch tool_env \<Rightarrow> world \<Rightarrow> config \<Rightarrow> string \<Rightarrow> string \<Rightarrow> error + 'sch tools option" where
  "openTools T w c ns sessionID =
     (if cf_MCPBackend c \<noteq> ''litellm'' \<and> cf_MCPCommand c = [] \<and> cf_MCPServers c = [] \<and> te_factory T = None
      then Inr None
      else checked (open_backend T w c) (\<lambda>(discovered, allowed).
        checked (actions_New T discovered allowed ns) (\<lambda>s.
        checked (openEvidence T (cf_MCPEvidencePath c)) (\<lambda>evidence.
        Inr (Some (new_tools s evidence sessionID))))))"

lemma checked_Inr [simp]: "checked x f = Inr z \<longleftrightarrow> (\<exists>y. x = Inr y \<and> f y = Inr z)"
  by (cases x) (simp_all add: checked_def)

lemma openTools_opens: "openTools T w c ns sid = Inr ts \<Longrightarrow> \<exists>s0. opens_with s0 ts"
  by (auto simp: openTools_def split: if_splits intro: opens_with_simps)

section \<open>A session of the service\<close>

text \<open>What a session's loop gets: the commands \<open>Send\<close> accepts, and what does not come from the client.\<close>
definition session_input :: "agent_command + agent_input \<Rightarrow> agent_input option" where
  "session_input x =
     (case x of
        Inl cmd \<Rightarrow> (case voiceEventFromAgentCommand cmd of Inl _ \<Rightarrow> None | Inr e \<Rightarrow> Some (InEvent e))
      | Inr i \<Rightarrow> (case i of InEvent _ \<Rightarrow> None | InError _ \<Rightarrow> None | _ \<Rightarrow> Some i))"

definition session_ticks :: "(instant \<times> string \<times> (agent_command + agent_input)) list \<Rightarrow> agent_tick list" where
  "session_ticks xs = List.map_filter (\<lambda>(now, fresh, x). map_option (\<lambda>i. (now, fresh, i)) (session_input x)) xs"

lemma session_input_ok: "session_input x = Some i \<Longrightarrow> input_ok i"
  by (auto simp: session_input_def input_ok_def voiceEventFromAgentCommand_def Let_def zero_event_def zero_tool_def
      split: sum.splits if_splits agent_input.splits)

lemma session_ticks_ok: "list_all (\<lambda>(_, _, i). input_ok i) (session_ticks xs)"
  by (auto simp: session_ticks_def List.map_filter_def list_all_iff dest: session_input_ok)

text \<open>
  C9. A session of the service never panics (no nil pointer, no slice out of range), whatever
  commands the remote client sends, whatever the provider, the tool servers and the clock do and
  whichever of its reads and writes fail, with or without tools.
\<close>
theorem agent_never_panics:
  "case openTools T w c ns sid of
     Inl _ \<Rightarrow> True
   | Inr ts \<Rightarrow> Panicked \<notin> set (agent_trace E now ts opened (session_ticks inputs))"
proof (cases "openTools T w c ns sid")
  case (Inr ts)
  then obtain s0 where "opens_with s0 ts" using openTools_opens by blast
  then have "Panicked \<notin> set (agent_trace E now ts opened (session_ticks inputs))"
    using agent_trace_inv(3) [where safe = True, OF session_ticks_ok refl] by blast
  then show ?thesis by (simp add: Inr)
qed simp

section \<open>The service that starts\<close>

lemma env_duration_pos: "env_duration w key fallback = Inr d \<Longrightarrow> 0 < fallback \<Longrightarrow> 0 < d"
  by (auto simp: env_duration_def split: if_splits option.splits)

lemma env_sessions_bound: "env_sessions w = Inr n \<Longrightarrow> 0 < n \<and> n \<le> MaxRemoteSessions"
  by (auto simp: env_sessions_def split: if_splits option.splits)

lemma NewHandler_Inr:
  "NewHandler h True = Inr h' \<longleftrightarrow> h' = (if sc_Protocol h = [] then h\<lparr>sc_Protocol := Protocol\<rparr> else h)
     \<and> sc_Protocol h' \<in> {Protocol, ProtocolV2} \<and> identifier_ok (sc_AgentID h) \<and> sc_Token h \<noteq> []
     \<and> 0 < sc_ReadTimeout h \<and> 0 < sc_WriteTimeout h \<and> 0 < sc_IdleTimeout h
     \<and> 0 < sc_MaxSessions h \<and> sc_MaxSessions h \<le> MaxRemoteSessions"
  by (auto simp: NewHandler_def Let_def)

text \<open>What the process relies on: who may connect, for how long, and with which tools.\<close>
definition config_ok :: "world \<Rightarrow> error + registry \<Rightarrow> config \<Rightarrow> bool" where
  "config_ok w loaded c \<longleftrightarrow> cf_Provider c = ''nova'' \<and> cf_NovaMaxSessionAge c + 10 * second_ns < age_limit
     \<and> cf_LiteLLMAPIKey c \<noteq> [] \<and> base_url_ok w (cf_LiteLLMURL c) \<and> cf_MCPBackend c \<in> {''stdio'', ''litellm''}
     \<and> (cf_MCPServers c \<noteq> [] \<longrightarrow> ValidateServers (wd_LookupEnv w) loaded (cf_MCPServers c) = None)
     \<and> (cf_MCPBackend c = ''litellm'' \<longrightarrow> ValidateGatewayServers loaded (cf_LiteLLMServers c) = None
          \<and> (\<exists>cdc. NewEnvelopeCodec (cf_MCPContextSecret c) (gc_Alias (hd (cf_LiteLLMServers c))) = Inr cdc))
     \<and> (\<exists>prompt. LoadPrompt w (cf_PromptFile c) = Inr prompt \<and> prompt \<noteq> [])"

definition tools_config_ok :: "config \<Rightarrow> bool" where
  "tools_config_ok c \<longleftrightarrow> 0 < cf_TurnTimeout c \<and> 0 < cf_MCPTimeout c \<and> 0 < cf_NovaMaxSessionAge c
     \<and> (cf_MCPCommand c = [] \<or> is_abs (cf_MCPCommand c) \<and> cf_MCPServers c = [] \<and> cf_MCPBackend c \<noteq> ''litellm'')
     \<and> (cf_MCPServers c = [] \<or> cf_MCPBackend c \<noteq> ''litellm'')"

lemma env_args_keeps:
  "env_args w c = Inr c' \<Longrightarrow> \<exists>xs. c' = c\<lparr>cf_MCPArgs := xs\<rparr>"
  by (auto simp: env_args_def split: if_splits option.splits) (metis config.surjective config.update_convs(8))

lemma env_tools_config:
  assumes "env_tools w c0 = Inr c" "cf_MCPServers c0 = []" "0 < cf_TurnTimeout c0" "0 < cf_MCPTimeout c0" "0 < cf_NovaMaxSessionAge c0"
  shows "tools_config_ok c"
proof -
  obtain xs c2 where "env_servers w (c0\<lparr>cf_MCPArgs := xs\<rparr>) = Inr c2" "env_gateways w c2 = Inr c"
    "cf_MCPCommand c2 \<noteq> [] \<Longrightarrow> is_abs (cf_MCPCommand c2)"
    using assms(1) by (auto simp: env_tools_def split: if_splits dest!: env_args_keeps)
  then show ?thesis using assms(2-)
    by (auto simp: env_servers_def env_gateways_def tools_config_ok_def Let_def split: if_splits option.splits)
qed

lemma ValidateConfig_None:
  "ValidateConfig w c = None \<Longrightarrow> cf_Provider c = ''nova'' \<and> cf_NovaMaxSessionAge c + 10 * second_ns < age_limit
     \<and> cf_LiteLLMAPIKey c \<noteq> [] \<and> base_url_ok w (cf_LiteLLMURL c) \<and> cf_MCPBackend c \<in> {''stdio'', ''litellm''}"
  by (auto simp: ValidateConfig_def age_limit_def minute_ns_def second_ns_def split: if_splits)

lemma LoadPrompt_nonempty: "LoadPrompt w path = Inr prompt \<Longrightarrow> prompt \<noteq> []"
  by (auto simp: LoadPrompt_def Let_def split: if_splits option.splits prod.splits)

lemma map_sum_Inr: "map_sum f g x = Inr y \<Longrightarrow> \<exists>z. x = Inr z" by (cases x) auto

lemma NewFactory_config_ok: "NewFactory w loaded c = Inr prompt \<Longrightarrow> config_ok w loaded c"
  by (auto simp: NewFactory_def NewRuntime_def config_ok_def split: if_splits option.splits sum.splits
      dest: ValidateConfig_None LoadPrompt_nonempty map_sum_Inr)

lemma LoadService_Inr:
  assumes "LoadService w = Inr s"
  shows "IsLoopbackAddress w (sv_Address s)" "sv_Token s = Getenv w ''STS_AGENT_TOKEN''"
    "sv_Token s \<noteq> []" "length (sv_Token s) \<le> 4096" "tools_config_ok (sv_Runtime s)"
proof -
  obtain rd wr idle turn age mcp n where
      "env_duration w ''STS_TURN_TIMEOUT'' (30 * second_ns) = Inr turn"
      "env_duration w ''STS_NOVA_MAX_SESSION_AGE'' (7 * minute_ns + 30 * second_ns) = Inr age"
      "env_duration w ''STS_MCP_TIMEOUT'' (10 * second_ns) = Inr mcp"
    and body: "(let address = envValue w ''STS_AGENT_ADDRESS'' ''127.0.0.1:8090''; token = Getenv w ''STS_AGENT_TOKEN'' in
       if \<not> IsLoopbackAddress w address then Inl ''Agent Session v1 must listen on loopback''
       else if token = [] \<or> length token > 4096 then Inl ''STS_AGENT_TOKEN is required''
       else checked (env_tools w (env_config w turn age mcp)) (\<lambda>c.
         let s = \<lparr>sv_Runtime = c, sv_Address = address,
                  sv_AgentID = envValue w ''STS_AGENT_ID'' ''personal-assistant'', sv_Token = token,
                  sv_ReadTimeout = rd, sv_WriteTimeout = wr, sv_IdleTimeout = idle, sv_MaxSessions = n\<rparr> in
         if cf_Provider c = ''fake'' then Inr s
         else (case ValidateConfig w c of Some err \<Rightarrow> Inl err | None \<Rightarrow> Inr s))) = Inr s"
    using assms unfolding LoadService_def checked_Inr by blast
  then have t: "0 < turn" "0 < age" "0 < mcp"
    by (auto dest!: env_duration_pos simp: second_ns_def minute_ns_def)
  have c: "env_tools w (env_config w turn age mcp) = Inr (sv_Runtime s)"
    and s: "IsLoopbackAddress w (sv_Address s)" "sv_Token s = Getenv w ''STS_AGENT_TOKEN''"
      "sv_Token s \<noteq> []" "length (sv_Token s) \<le> 4096"
    using body by (auto simp: Let_def split: if_splits option.splits)
  then show "IsLoopbackAddress w (sv_Address s)" "sv_Token s = Getenv w ''STS_AGENT_TOKEN''"
    "sv_Token s \<noteq> []" "length (sv_Token s) \<le> 4096" "tools_config_ok (sv_Runtime s)"
    using env_tools_config [OF c] s t by (simp_all add: env_config_def)
qed

text \<open>
  A service that starts listens on a loopback address, under a token of 1 to 4096 bytes and an
  identifier; its handler has positive timeouts and 1 to 64 sessions; its sessions' timers run and a
  session is renewed before its hard limit; at most one kind of tool backend is configured, and the
  demo apart, its provider, key, URL, prompt, servers and envelope secret were all accepted, so
  that no session meets an invalid configuration.
\<close>
theorem service_started:
  "case agent_main w loaded of
     Inl _ \<Rightarrow> True
   | Inr (s, h) \<Rightarrow> IsLoopbackAddress w (sv_Address s) \<and> sv_Token s = Getenv w ''STS_AGENT_TOKEN''
       \<and> h = \<lparr>sc_Protocol = Protocol, sc_AgentID = sv_AgentID s, sc_Token = sv_Token s,
          sc_ReadTimeout = sv_ReadTimeout s, sc_WriteTimeout = sv_WriteTimeout s,
          sc_IdleTimeout = sv_IdleTimeout s, sc_MaxSessions = sv_MaxSessions s\<rparr>
       \<and> identifier_ok (sv_AgentID s) \<and> length (sv_Token s) \<in> {1..4096} \<and> sv_MaxSessions s \<in> {1..MaxRemoteSessions}
       \<and> 0 < sv_ReadTimeout s \<and> 0 < sv_WriteTimeout s \<and> 0 < sv_IdleTimeout s \<and> tools_config_ok (sv_Runtime s)
       \<and> (cf_Provider (sv_Runtime s) = ''fake'' \<or> config_ok w loaded (sv_Runtime s))"
proof (cases "agent_main w loaded")
  case (Inr x)
  obtain s h where x: "x = (s, h)" by (cases x)
  have "LoadService w = Inr s" using Inr by (auto simp: agent_main_def x)
  note s = LoadService_Inr [OF this]
  have "cf_Provider (sv_Runtime s) = ''fake'' \<or> config_ok w loaded (sv_Runtime s)"
    using Inr by (auto simp: agent_main_def x split: if_splits dest: NewFactory_config_ok)
  moreover have "NewHandler \<lparr>sc_Protocol = [], sc_AgentID = sv_AgentID s, sc_Token = sv_Token s,
      sc_ReadTimeout = sv_ReadTimeout s, sc_WriteTimeout = sv_WriteTimeout s,
      sc_IdleTimeout = sv_IdleTimeout s, sc_MaxSessions = sv_MaxSessions s\<rparr> True = Inr h"
    using Inr by (auto simp: agent_main_def x)
  ultimately show ?thesis using s unfolding Inr x sum.case prod.case
    by (auto simp: NewHandler_Inr Suc_le_eq)
qed simp

end
