(* ===== verification/Account_Tools.thy ===== *)
theory Account_Tools
  imports Agent_Service
begin

text \<open>
  The parts of the account agent (\<open>apps/account-agent/internal/account\<close>) that its session loop uses:
  the configuration and the policies (\<open>config.go\<close>), the client of the identity and profile servers
  behind the LiteLLM gateway (\<open>mcp.go\<close>), the login surface (\<open>ui.go\<close>), the welcome (\<open>welcome.go\<close>), the
  results shown to the client and the confirmation from its interface (\<open>tools.go\<close>), and the
  translation of events (\<open>session.go\<close>). HTTP exchanges are the argument \<open>answer\<close>, by request number;
  the requests sent are kept in \<open>mc_sent\<close>.
\<close>

section \<open>Configuration\<close>

record account_config =
  acf_Provider :: string
  acf_PromptFile :: string
  acf_LiteLLMURL :: string
  acf_LiteLLMAPIKey :: string
  acf_LiteLLMModel :: string
  acf_MCPContextSecret :: string
  acf_NovaMaxSessionAge :: duration
  acf_MCPTimeout :: duration
  acf_TurnTimeout :: duration

definition ValidateAccount :: "world \<Rightarrow> account_config \<Rightarrow> error option" where
  "ValidateAccount w c =
     (let failed = Some ''invalid account configuration'' in
      case wd_ParseURL w (acf_LiteLLMURL c) of
        None \<Rightarrow> failed
      | Some u \<Rightarrow> if pu_Host u = [] \<or> pu_Scheme u \<notin> {''http'', ''https''} \<or> acf_LiteLLMAPIKey c = [] \<or> acf_PromptFile c = []
          then failed else None)"

definition LoadAccount :: "world \<Rightarrow> account_config" where
  "LoadAccount w =
     \<lparr>acf_Provider = envValue w ''STS_PROVIDER'' ''nova'', acf_PromptFile = Getenv w ''STS_AGENT_PROMPT_FILE'',
      acf_LiteLLMURL = Getenv w ''STS_LITELLM_URL'', acf_LiteLLMAPIKey = Getenv w ''STS_LITELLM_API_KEY'',
      acf_LiteLLMModel = envValue w ''STS_LITELLM_REALTIME_MODEL'' ''nova-sonic'',
      acf_MCPContextSecret = Getenv w ''STS_MCP_CONTEXT_SECRET'', acf_NovaMaxSessionAge = 7 * minute_ns,
      acf_MCPTimeout = 10 * second_ns, acf_TurnTimeout = 30 * second_ns\<rparr>"

definition LoadAccountPrompt :: "world \<Rightarrow> string \<Rightarrow> error + string" where
  "LoadAccountPrompt w path =
     (case wd_ReadFile w path of
        None \<Rightarrow> Inl ''account prompt unavailable''
      | Some b \<Rightarrow> if length b = 0 \<or> length b > 65536 then Inl ''account prompt unavailable'' else Inr (trim_space b))"

definition read_profile :: profile where
  "read_profile = zero_profile\<lparr>pf_Policy := ReadOnly\<rparr>"

definition confirm_profile :: "string \<Rightarrow> profile" where
  "confirm_profile phrase = zero_profile\<lparr>pf_Policy := ConfirmLater, pf_ConfirmationPhrase := phrase, pf_AllowUIConfirmation := True\<rparr>"

definition account_policies :: registry where
  "account_policies =
     [(''identity.begin_login'', zero_profile\<lparr>pf_Policy := ExplicitIntent, pf_Direct := True\<rparr>),
      (''identity.login_status'', read_profile),
      (''identity.logout'', confirm_profile ''confirmo sair''),
      (''profile.get_me'', read_profile),
      (''profile.update_me'', confirm_profile ''confirmo alterar meus dados'')]"

definition account_descriptions :: "string gomap" where
  "account_descriptions =
     [(''identity.begin_login'', ''Apresentar autentica'' @ tl acao @ '' segura no app. Nunca solicitar senha ou c''
         @ encode_rune 243 @ ''digo por voz.''),
      (''identity.login_status'', ''Consultar se a sess'' @ encode_rune 227 @ ''o atual est'' @ encode_rune 225 @ '' autenticada.''),
      (''identity.logout'', ''Encerrar minha sess'' @ encode_rune 227 @ ''o ap'' @ encode_rune 243 @ ''s confirma'' @ tl acao @ ''.''),
      (''profile.get_me'', ''Consultar apenas meus dados autenticados: nome, idade, cidade, g'' @ encode_rune 234
         @ ''nero e profiss'' @ encode_rune 227 @ ''o.''),
      (''profile.update_me'', ''Atualizar meus dados com a vers'' @ encode_rune 227 @ ''o consultada e altera''
         @ encode_rune 231 @ encode_rune 245 @ ''es confirmadas. N'' @ encode_rune 227 @ ''o inferir g''
         @ encode_rune 234 @ ''nero ou idade.'')]"

section \<open>The identity and profile servers\<close>

record http_answer =
  ha_Status :: int
  ha_Session :: string
  ha_ContentType :: string
  ha_Body :: "string option"

datatype http_outcome = BadRequest error | Unanswered | Answered http_answer

record rpc_call =
  rc_Body :: string
  rc_Protocol :: string
  rc_Session :: string

record account_mcp =
  mc_url :: string
  mc_key :: string
  mc_session :: string
  mc_protocol :: string
  mc_sequence :: u64
  mc_tools :: "tool list"
  mc_routes :: "string gomap"
  mc_codecs :: "envelope_codec gomap"
  mc_identity :: identity_context
  mc_sent :: "rpc_call list"

definition rpc_body :: "u64 \<Rightarrow> string \<Rightarrow> string option \<Rightarrow> bool \<Rightarrow> string" where
  "rpc_body ident method params target = obj_text
     ((if target then [(''id'', nat_text (unat ident))] else [])
      @ [(''jsonrpc'', json_quote ''2.0''), (''method'', json_quote method)]
      @ (case params of None \<Rightarrow> [] | Some p \<Rightarrow> [(''params'', p)]))"

text \<open>The data line of an event stream that carries the response.\<close>
fun sse_data :: "u64 \<Rightarrow> string list \<Rightarrow> string option" where
  "sse_data ident [] = None"
| "sse_data ident (l # ls) =
     (let d = trim_space (drop 5 l) in
      if has_prefix l ''data:'' \<and> unmarshal [uint64_field ''id'' (\<lambda>v x. v)] 0 d = Some ident then Some d
      else sse_data ident ls)"

record account_reply =
  ar_ID :: u64
  ar_Result :: string
  ar_Error :: string

definition account_reply_fields :: "account_reply fields" where
  "account_reply_fields =
     [uint64_field ''id'' (\<lambda>v x. x\<lparr>ar_ID := v\<rparr>), raw_field ''result'' (\<lambda>v x. x\<lparr>ar_Result := v\<rparr>),
      raw_field ''error'' (\<lambda>v x. x\<lparr>ar_Error := v\<rparr>)]"

text \<open>The result in the body of an answer: at most 262144 bytes are read.\<close>
definition read_answer :: "u64 \<Rightarrow> http_answer \<Rightarrow> error + string" where
  "read_answer ident a =
     (case ha_Body a of
        None \<Rightarrow> Inl ''MCP response exceeds limit''
      | Some body \<Rightarrow>
          if length body > 262144 then Inl ''MCP response exceeds limit''
          else (case (if contains_sub (ha_ContentType a) ''text/event-stream'' then sse_data ident (fst (scan_lines body)) else Some body) of
              None \<Rightarrow> Inl ''missing MCP response''
            | Some d \<Rightarrow>
              (case unmarshal account_reply_fields \<lparr>ar_ID = 0, ar_Result = [], ar_Error = []\<rparr> d of
                 None \<Rightarrow> Inl ''MCP protocol error''
               | Some r \<Rightarrow>
                   if ar_ID r \<noteq> ident then Inl ''MCP protocol error''
                   else if ar_Error r \<noteq> [] then
                     Inl (if contains_sub (ar_Error r) ''account_policy_blocked'' then ''account_policy_blocked'' else ''MCP protocol error'')
                   else if ar_Result r = [] then Inl ''MCP protocol error'' else Inr (ar_Result r))))"

text \<open>\<open>rpc\<close>; \<open>target\<close> says that a result is wanted, and the result is its text.\<close>
definition rpc ::
  "(u64 \<Rightarrow> http_outcome) \<Rightarrow> string \<Rightarrow> string option \<Rightarrow> bool \<Rightarrow> account_mcp \<Rightarrow> account_mcp \<times> (error + string)"
where
  "rpc answer method params target b0 =
     (let ident = mc_sequence b0 + 1;
          b1 = b0\<lparr>mc_sequence := ident\<rparr>;
          b2 = b1\<lparr>mc_sent := mc_sent b1 @ [\<lparr>rc_Body = rpc_body ident method params target,
                 rc_Protocol = mc_protocol b1, rc_Session = mc_session b1\<rparr>]\<rparr> in
      case answer ident of
        BadRequest err \<Rightarrow> (b1, Inl err)
      | Unanswered \<Rightarrow> (b2, Inl ''MCP unavailable'')
      | Answered a \<Rightarrow>
          if ha_Status a < 200 \<or> 300 \<le> ha_Status a
          then (b2, Inl (''MCP request rejected ('' @ int_text (ha_Status a) @ '')''))
          else (let b = (if ha_Session a \<noteq> [] \<and> method = ''initialize'' then b2\<lparr>mc_session := ha_Session a\<rparr> else b2) in
            (b, if target then read_answer ident a else Inr [])))"

definition rpc_then :: "account_mcp \<times> (error + string) \<Rightarrow> (account_mcp \<Rightarrow> string \<Rightarrow> error + 'a) \<Rightarrow> error + 'a" where
  "rpc_then x f = (case x of (b, r) \<Rightarrow> checked r (f b))"

text \<open>Is a tool of the catalog the one of a policy: under its name or behind a prefix of the gateway?\<close>
definition offers :: "tool \<Rightarrow> string \<Rightarrow> bool" where
  "offers remote original \<longleftrightarrow> tl_Name remote = original
     \<or> has_suffix (model_name (tl_Name remote)) (''_'' @ replace_byte CHR ''.'' CHR ''_'' original)"

fun catalog_policies :: "tool \<Rightarrow> (string \<times> profile) list \<Rightarrow> account_mcp \<Rightarrow> error + account_mcp" where
  "catalog_policies remote [] b = Inr b"
| "catalog_policies remote ((original, p) # ps) b =
     (if \<not> offers remote original then catalog_policies remote ps b
      else if gget (mc_routes b) original \<noteq> None then Inl ''ambiguous MCP tool''
      else (case payload_schema (tl_InputSchema remote) of
          None \<Rightarrow> Inl ''unsigned MCP tool''
        | Some payload \<Rightarrow>
            if payload = [] then Inl ''unsigned MCP tool''
            else catalog_policies remote ps (b\<lparr>mc_routes := gput original (tl_Name remote) (mc_routes b),
              mc_tools := mc_tools b @ [zero_mcp_tool\<lparr>tl_Name := original, tl_OriginalName := original,
                tl_HostPolicy := pf_Policy p, tl_Description := gstr account_descriptions original,
                tl_InputSchema := payload\<rparr>]\<rparr>)))"

text \<open>A Go map is iterated in any order; a tool offers at most one policy, so the order is immaterial.\<close>
fun catalog_tools :: "tool list \<Rightarrow> account_mcp \<Rightarrow> error + account_mcp" where
  "catalog_tools [] b = Inr b"
| "catalog_tools (t # ts) b = checked (catalog_policies t account_policies b) (catalog_tools ts)"

definition account_identity :: "principal \<Rightarrow> identity_context" where
  "account_identity p = \<lparr>id_Subject = p_Subject p, id_ClientCode = p_ClientCode p, id_SessionRef = p_SessionRef p,
     id_DeviceID = p_DeviceID p,
     id_Scopes = Some (if p_Authenticated p then [''profile:read'', ''profile:write''] else [])\<rparr>"

definition account_initialize_params :: string where
  "account_initialize_params = obj_text
     [(''capabilities'', obj_text []),
      (''clientInfo'', obj_text [(''name'', json_quote ''sts-account''), (''version'', json_quote ''0.1.0'')]),
      (''protocolVersion'', json_quote ''2025-06-18'')]"

text \<open>\<open>%v\<close> prints a slice of strings in brackets.\<close>
definition NewMCP :: "(u64 \<Rightarrow> http_outcome) \<Rightarrow> account_config \<Rightarrow> principal \<Rightarrow> error + account_mcp" where
  "NewMCP answer c p =
     checked (NewEnvelopeCodec (acf_MCPContextSecret c) ''identity'') (\<lambda>identity.
     checked (NewEnvelopeCodec (acf_MCPContextSecret c) ''profile'') (\<lambda>profile.
     rpc_then (rpc answer ''initialize'' (Some account_initialize_params) True
       \<lparr>mc_url = trim_slashes (acf_LiteLLMURL c) @ ''/mcp'', mc_key = acf_LiteLLMAPIKey c, mc_session = [],
        mc_protocol = ''2025-06-18'', mc_sequence = 0, mc_tools = [], mc_routes = [],
        mc_codecs = [(''identity'', identity), (''profile'', profile)], mc_identity = account_identity p,
        mc_sent = []\<rparr>) (\<lambda>b raw.
     case unmarshal [string_field ''protocolVersion'' (\<lambda>v x. v)] [] raw of
       None \<Rightarrow> Inl ''json''
     | Some version \<Rightarrow>
         if version \<noteq> ''2025-06-18'' \<and> version \<noteq> ''2025-11-25'' then Inl ''unsupported MCP protocol''
         else
           rpc_then (rpc answer ''notifications/initialized'' None False (b\<lparr>mc_protocol := version\<rparr>)) (\<lambda>b _.
           rpc_then (rpc answer ''tools/list'' (Some (obj_text [])) True b) (\<lambda>b raw.
           case unmarshal [list_field ''tools'' tool_decode_fields zero_mcp_tool (\<lambda>x. x) (\<lambda>v x. v)] [] raw of
             None \<Rightarrow> Inl ''json''
           | Some listing \<Rightarrow>
               checked (catalog_tools listing b) (\<lambda>b.
                 if length (mc_routes b) \<noteq> length account_policies
                 then Inl (''account tool catalog incomplete: ['' @ join_space (map tl_Name listing) @ '']'')
                 else Inr b))))))"

section \<open>Calls\<close>

text \<open>A JSON value decoded with \<open>UseNumber\<close> and marshalled again: keys in order, numbers as they were.\<close>
definition remarshal :: "string \<Rightarrow> string" where
  "remarshal data = (case json_whole data of None \<Rightarrow> [] | Some v \<Rightarrow> json_text (\<lambda>l. l) v)"

definition account_call_params :: "string \<Rightarrow> string \<Rightarrow> string" where
  "account_call_params remote arguments = obj_text [(''arguments'', arguments), (''name'', json_quote remote)]"

definition CallMCP ::
  "(byte list \<Rightarrow> string \<Rightarrow> byte list) \<Rightarrow> 'sch lib \<Rightarrow> (u64 \<Rightarrow> http_outcome) \<Rightarrow> instant \<Rightarrow> string \<Rightarrow> string \<Rightarrow> string \<Rightarrow> bool
   \<Rightarrow> account_mcp \<Rightarrow> account_mcp \<times> (error + result)"
where
  "CallMCP mac L answer now name args key confirmed b =
     (case gget (mc_routes b) name of
        None \<Rightarrow> (b, Inl ''tool not allowed'')
      | Some remote \<Rightarrow>
          if has_prefix name ''profile.'' \<and> id_SessionRef (mc_identity b) = []
          then (b, Inr (Failure ''authentication_required''))
          else (case gget (mc_codecs b) (fst (cut_byte CHR ''.'' name)) of
              None \<Rightarrow> (b, Inl nil_panic)
            | Some cdc \<Rightarrow>
              (case WrapV2 mac L cdc now name args key confirmed (mc_identity b) of
                 Inl err \<Rightarrow> (b, Inl err)
               | Inr data \<Rightarrow>
                   if json_whole data = None then (b, Inl ''invalid envelope'')
                   else (case rpc answer ''tools/call'' (Some (account_call_params remote (remarshal data))) True b of
                       (b', Inl err) \<Rightarrow> (b', Inl err)
                     | (b', Inr raw) \<Rightarrow> (b', case unmarshal result_fields zero_result raw of
                           None \<Rightarrow> Inl ''json'' | Some r \<Rightarrow> Inr r)))))"

text \<open>What \<open>json.Unmarshal\<close> leaves in a result when members have the wrong type.\<close>
definition lenient_result :: "string \<Rightarrow> result" where
  "lenient_result raw = unmarshal_lenient
     [(''content'', \<lambda>raw x. case raw_elems raw of
         None \<Rightarrow> None
       | Some ts \<Rightarrow> Some (x\<lparr>rs_Content := map (unmarshal_lenient content_fields \<lparr>ct_Type = [], ct_Text = []\<rparr>) ts\<rparr>)),
      bool_field ''isError'' (\<lambda>v x. x\<lparr>rs_IsError := v\<rparr>)] zero_result raw"

text \<open>The envelope of a probe as a \<open>map[string]any\<close>; the first probe adds a member to its context.\<close>
definition probe_arguments :: "'sch lib \<Rightarrow> bool \<Rightarrow> string \<Rightarrow> error + string" where
  "probe_arguments L canary raw =
     (case json_whole raw of
        Some (JObj kvs) \<Rightarrow>
          (case any_value (JObj kvs) of
             JObj m \<Rightarrow>
               (if \<not> canary then Inr (json_text (f64_text L) (JObj m))
                else (case gget m ''host_context'' of
                    Some (JObj h) \<Rightarrow> Inr (json_text (f64_text L) (JObj (gput ''host_context''
                        (JObj (gput ''password'' (JStr ''sts-public-canary-not-a-secret'') h)) m)))
                  | _ \<Rightarrow> Inl nil_panic))
           | _ \<Rightarrow> Inl ''invalid probe'')
      | _ \<Rightarrow> Inl ''invalid probe'')"

definition blocked :: "error + string \<Rightarrow> bool" where
  "blocked reply \<longleftrightarrow> (case reply of
       Inl err \<Rightarrow> err = ''account_policy_blocked''
     | Inr raw \<Rightarrow> (let r = lenient_result raw in
         rs_IsError r \<and> list_ex (\<lambda>c. contains_sub (ct_Text c) ''account_policy_blocked'') (rs_Content r)))"

definition probe ::
  "(byte list \<Rightarrow> string \<Rightarrow> byte list) \<Rightarrow> 'sch lib \<Rightarrow> (u64 \<Rightarrow> http_outcome) \<Rightarrow> instant \<Rightarrow> string \<Rightarrow> bool \<Rightarrow> account_mcp
   \<Rightarrow> account_mcp \<times> error option"
where
  "probe mac L answer now key canary b =
     (case gget (mc_codecs b) ''identity'' of
        None \<Rightarrow> (b, Some nil_panic)
      | Some cdc \<Rightarrow>
        (case checked (WrapV2 mac L cdc now ''identity.login_status'' ''{}'' key False (mc_identity b)) (probe_arguments L canary) of
           Inl err \<Rightarrow> (b, Some err)
         | Inr arguments \<Rightarrow>
           (case rpc answer ''tools/call''
               (Some (account_call_params (gstr (mc_routes b) ''identity.login_status'') arguments)) True b of
              (b', reply) \<Rightarrow> (b', if blocked reply then None
                else Some (''required account guardrail did not block '' @ key)))))"

definition VerifyGuardrails ::
  "(byte list \<Rightarrow> string \<Rightarrow> byte list) \<Rightarrow> 'sch lib \<Rightarrow> (u64 \<Rightarrow> http_outcome) \<Rightarrow> instant \<Rightarrow> instant \<Rightarrow> account_mcp
   \<Rightarrow> account_mcp \<times> error option"
where
  "VerifyGuardrails mac L answer now later b =
     (case probe mac L answer now ''guardrail-probe-input'' True b of
        (b', Some err) \<Rightarrow> (b', Some err)
      | (b', None) \<Rightarrow> probe mac L answer later ''guardrail-probe-output'' False b')"

section \<open>Opening a session\<close>

text \<open>\<open>Factory.Open\<close> up to the start of the session, with the backend it will use.\<close>
definition OpenAccount ::
  "(byte list \<Rightarrow> string \<Rightarrow> byte list) \<Rightarrow> 'sch lib \<Rightarrow> (u64 \<Rightarrow> http_outcome) \<Rightarrow> world \<Rightarrow> instant \<Rightarrow> instant \<Rightarrow> account_config
   \<Rightarrow> session_start \<Rightarrow> principal \<Rightarrow> error + account_mcp \<times> string option"
where
  "OpenAccount mac L answer w now later c start p =
     (if st_AgentID start \<noteq> ''account'' \<or> st_Protocol start \<noteq> ProtocolV2 \<or> p_DeviceID p = []
      then Inl ''invalid account session''
      else checked (NewMCP answer c p) (\<lambda>b.
        case VerifyGuardrails mac L answer now later b of
          (_, Some err) \<Rightarrow> Inl err
        | (b', None) \<Rightarrow>
            if acf_Provider c = ''fake'' then Inr (b', None)
            else (case ValidateAccount w c of
                Some err \<Rightarrow> Inl err
              | None \<Rightarrow> checked (LoadAccountPrompt w (acf_PromptFile c)) (\<lambda>prompt. Inr (b', Some prompt)))))"

text \<open>The tools of a session, for each of the allowed names (\<open>openTools\<close>).\<close>
definition account_tools :: "'sch lib \<Rightarrow> account_mcp \<Rightarrow> string \<Rightarrow> string \<Rightarrow> error + 'sch tools" where
  "account_tools L b ns sessionID =
     checked (NewOrch L (Inr (mc_tools b)) (gkeys account_policies) ns account_policies)
       (\<lambda>s. Inr (new_tools s False sessionID))"

text \<open>The account agent has its own copy of the assistant's function.\<close>
definition account_command :: "agent_command \<Rightarrow> error + event" where
  "account_command = voiceEventFromAgentCommand"

text \<open>The assistant's translation, with the event of the user interface.\<close>
definition account_event :: "event \<Rightarrow> error + agent_event" where
  "account_event e =
     (if ev_Type e = ''ui.a2ui''
      then map_sum id (\<lambda>a. a\<lparr>ae_Type := ''ui.a2ui'', ae_UI := ev_UI e\<rparr>) (agentEventFromVoice (e\<lparr>ev_Type := SessionReady\<rparr>))
      else agentEventFromVoice e)"

section \<open>The interface\<close>

definition surface_message :: "string \<Rightarrow> string \<Rightarrow> string" where
  "surface_message kind body = obj_text [(kind, body), (''version'', json_quote ''v0.9.1'')]"

definition loginSurface :: "string \<Rightarrow> string" where
  "loginSurface transaction = arr_text
     [surface_message ''deleteSurface'' (obj_text [(''surfaceId'', json_quote ''account-login'')]),
      surface_message ''createSurface'' (obj_text
        [(''catalogId'', json_quote ''urn:sts:a2ui:account:v1''), (''surfaceId'', json_quote ''account-login'')]),
      obj_text [(''updateComponents'', obj_text
        [(''components'', arr_text
           [obj_text [(''children'', arr_text [json_quote ''instructions'', json_quote ''login'']),
              (''component'', json_quote ''Column''), (''id'', json_quote ''root'')],
            obj_text [(''component'', json_quote ''Text''), (''id'', json_quote ''instructions''),
              (''text'', json_quote (''Entre com sua senha e o c'' @ encode_rune 243 @ ''digo recebido por e-mail na tela segura.''))],
            obj_text [(''action'', obj_text [(''event'', obj_text
                [(''context'', obj_text [(''transaction_id'', json_quote transaction)]), (''name'', json_quote ''account.authenticate'')])]),
              (''child'', json_quote ''label''), (''component'', json_quote ''Button''), (''id'', json_quote ''login'')],
            obj_text [(''component'', json_quote ''Text''), (''id'', json_quote ''label''), (''text'', json_quote ''Autenticar'')]]),
         (''surfaceId'', json_quote ''account-login'')]), (''version'', json_quote ''v0.9.1'')]]"

definition welcomeMessage :: string where
  "welcomeMessage = ''Sou agente STS para logar sua conta, deseja continuar?''"

definition welcomeRequest :: string where
  "welcomeRequest = ''Inicie esta sess'' @ encode_rune 227 @ ''o an'' @ encode_rune 244 @ ''nima falando apenas: ''
     @ welcomeMessage @ '' Depois aguarde a resposta do usu'' @ encode_rune 225 @ ''rio, sem chamar ferramentas.''"

definition connectedRequest :: string where
  "connectedRequest = ''O gateway confirmou a sess'' @ encode_rune 227
     @ ''o autenticada. Fale somente esta confirma'' @ tl acao @ '', sem chamar ferramentas: Conta conectada com sucesso, agora voc''
     @ encode_rune 234 @ '' pode consultar e editar informa'' @ encode_rune 231 @ encode_rune 245 @ ''es da sua conta''"

definition connectedTurn :: string where "connectedTurn = ''account-connected''"
definition welcomeOperation :: string where "welcomeOperation = ''account-login-consent''"

definition welcomeEvents :: "event list" where
  "welcomeEvents =
     [(turn_event Transcript welcomeOperation)\<lparr>ev_Role := ''ASSISTANT'', ev_Stage := ''FINAL'', ev_Text := welcomeMessage\<rparr>,
      (turn_event ToolConfirmation welcomeOperation)\<lparr>ev_Tool := Some (zero_tool
         \<lparr>vt_OperationID := welcomeOperation, vt_Name := ''identity.begin_login''\<rparr>), ev_Message := welcomeMessage\<rparr>]"

abbreviation nao :: string where "nao \<equiv> ''n'' @ encode_rune 227 @ ''o''"

definition plain_words :: "uctab \<Rightarrow> string \<Rightarrow> string" where
  "plain_words u txt = join_space (text_fields (map_runes (\<lambda>r. if is_punct u r then 32 else r) (to_lower u (trim_space txt))))"

definition yes_answers :: "string list" where
  "yes_answers = [''sim'', ''sim quero'', ''sim pode'', ''sim pode continuar'', ''sim desejo continuar'', ''sim quero continuar'',
     ''pode continuar'', ''quero continuar'', ''continuar'', ''vamos'', ''claro'']"

definition no_answers :: "string list" where
  "no_answers = [nao, ''nao'', nao @ '' quero'', ''nao quero'', nao @ '' quero continuar'', ''nao quero continuar'',
     nao @ '' desejo continuar'', ''nao desejo continuar'', ''agora '' @ nao, ''agora nao'', ''cancelar'', ''encerre'', ''encerrar'']"

definition welcomeAnswer :: "uctab \<Rightarrow> string \<Rightarrow> int" where
  "welcomeAnswer u txt =
     (if plain_words u txt \<in> set yes_answers then 1 else if plain_words u txt \<in> set no_answers then - 1 else 0)"

section \<open>Results for the client\<close>

definition cancelledResult :: result where
  "cancelledResult = TextResult (obj_text [(''status'', json_quote ''cancelled'')]) False"

definition pendingJob :: "pending \<Rightarrow> job" where
  "pendingJob p = \<lparr>jb_ID = pd_OperationID p, jb_Name = pd_Name p, jb_Key = [], jb_TurnID = pd_TurnID p,
     jb_Args = pd_Args p, jb_Confirmed = False\<rparr>"

text \<open>The client sees the status of an operation only, never its data.\<close>
definition account_status :: "job \<Rightarrow> result \<Rightarrow> string" where
  "account_status j r =
     (if (case rs_Content r of [c] \<Rightarrow> unmarshal [string_field ''status'' (\<lambda>v x. v)] [] (ct_Text c) = Some ''cancelled'' | _ \<Rightarrow> False)
      then ''cancelled''
      else if jb_Name j = ''identity.logout'' \<and> \<not> rs_IsError r then ''signed_out'' else ''completed'')"

definition account_result_event :: "job \<Rightarrow> result \<Rightarrow> event" where
  "account_result_event j r = (turn_event ToolResult (jb_TurnID j))\<lparr>ev_Tool := Some (zero_tool
     \<lparr>vt_OperationID := jb_ID j, vt_Name := jb_Name j,
      vt_Result := result_text (TextResult (obj_text [(''status'', json_quote (account_status j r))]) (rs_IsError r))\<rparr>)\<rparr>"

text \<open>The transaction of a login that the identity server began.\<close>
definition login_transaction :: "job \<Rightarrow> result \<Rightarrow> string option" where
  "login_transaction j r =
     (if jb_Name j = ''identity.begin_login'' \<and> \<not> rs_IsError r then
        (case rs_Content r of
           [c] \<Rightarrow> (case unmarshal [string_field ''transaction_id'' (\<lambda>v x. v)] [] (ct_Text c) of
               Some t \<Rightarrow> if t \<noteq> [] then Some t else None | None \<Rightarrow> None)
         | _ \<Rightarrow> None)
      else None)"

end
