(* ===== verification/Account_Runtime.thy ===== *)
theory Account_Runtime
  imports Account_Tools
begin

text \<open>
  The session loop of the account agent, \<open>Run\<close> of \<open>apps/account-agent/internal/account/runtime.go\<close>,
  with \<open>confirm\<close> of \<open>tools.go\<close>. It extends the assistant's loop (\<open>Agent_Runtime\<close>), whose blocks it
  shares where the code is the same, by the welcome: an anonymous session opens with an invitation to
  log in, which the user answers by voice or in the application; the provider's own opening
  utterance is not the user's; operations confirmed in the application are put into the history and
  the stream is renewed.
\<close>

section \<open>State\<close>

record 'sch account = "'sch agent" +
  cc_waitingWelcome :: bool
  cc_greetingPending :: bool
  cc_openingBootstrap :: bool
  cc_bootstrapContents :: "string list"
  cc_uiJobs :: "string list"

record 'sch account_env = "'sch agent_env" +
  ce_authenticated :: bool

type_synonym 'sch account_block = "'sch account block"

definition openingTurn :: "'sch account_env \<Rightarrow> string" where
  "openingTurn E = (if ce_authenticated E then connectedTurn else welcomeOperation)"

definition openingRequest :: "'sch account_env \<Rightarrow> string" where
  "openingRequest E = (if ce_authenticated E then connectedRequest else welcomeRequest)"

definition sessionPrompt :: "'sch account_env \<Rightarrow> string" where
  "sessionPrompt E = rn_prompt E @ (if ce_authenticated E then
     [bchr 10] @ ''Contexto confi'' @ encode_rune 225 @ ''vel do gateway: usu'' @ encode_rune 225 @ ''rio j'' @ encode_rune 225
     @ '' autenticado. N'' @ encode_rune 227 @ ''o repita a sauda'' @ tl acao @ '' de login; atenda '' @ encode_rune 224
     @ ''s solicita'' @ encode_rune 231 @ encode_rune 245 @ ''es de perfil.'' else [])"

definition renewalNote :: string where
  "renewalNote = [bchr 10] @ ''Esta '' @ encode_rune 233 @ '' uma renova'' @ tl acao @ '' t'' @ encode_rune 233
     @ ''cnica da conversa. N'' @ encode_rune 227 @ ''o repita a apresenta'' @ tl acao
     @ '' inicial nem solicite consentimento inicial novamente.''"

section \<open>Emitting and renewing\<close>

definition account_emit_one :: "'sch account_env \<Rightarrow> instant \<Rightarrow> event \<Rightarrow> 'sch account_block" where
  "account_emit_one E now e = do {
     (if ev_TurnID e = openingTurn E \<and> (ev_Type e = TurnCompleted \<or> ev_Type e = TurnInterrupted)
      then assign (\<lambda>l. l\<lparr>cc_greetingPending := False\<rparr>) else State_Monad.return ());
     emit_one E now e }"

definition account_emit :: "'sch account_env \<Rightarrow> instant \<Rightarrow> event list \<Rightarrow> 'sch account_block" where
  "account_emit E now es = each (account_emit_one E now) es"

definition account_rotate :: "'sch account_env \<Rightarrow> instant \<Rightarrow> 'sch account_block" where
  "account_rotate E now = reopen E (sessionPrompt E @ renewalNote) now"

section \<open>The welcome\<close>

text \<open>A job whose result the application gets, and not the provider.\<close>
definition start_ui_job :: "job \<Rightarrow> 'sch account_block" where
  "start_ui_job j = do {
     assign (\<lambda>l. l\<lparr>cc_uiJobs := List.insert (jb_ID j) (cc_uiJobs l)\<rparr>);
     start_job j;
     proceed }"

definition beginWelcomeLogin :: "'sch account_env \<Rightarrow> instant \<Rightarrow> string \<Rightarrow> 'sch account_block" where
  "beginWelcomeLogin E now turn = do {
     assign (\<lambda>l. l\<lparr>cc_waitingWelcome := False\<rparr>);
     l \<leftarrow> State_Monad.get;
     (case ag_tools l of
        None \<Rightarrow> panic
      | Some t \<Rightarrow> do {
          session_call E (OpPlan now welcomeOperation ''identity_begin_login'' turn ''{}'');
          (case snd (Plan (rn_lib E) now welcomeOperation ''identity_begin_login'' turn ''{}'' (tn_session t)) of
             (j, Some r) \<Rightarrow> write_event E (account_result_event j r)
           | (j, None) \<Rightarrow> start_ui_job j) }) }"

section \<open>Client events\<close>

text \<open>The turn of a new input: while the greeting is to come, the input waits.\<close>
definition account_start_input :: "'sch account_env \<Rightarrow> instant \<Rightarrow> string \<Rightarrow> 'sch account_block" where
  "account_start_input E now turn = do {
     l \<leftarrow> State_Monad.get;
     (if cc_greetingPending l then do { set_mapper (QueueInput turn (ag_mapper l)); proceed }
      else emit_start (account_emit E now) now turn) }"

definition refuse_confirmation :: "'sch account_env \<Rightarrow> 'sch account_block" where
  "refuse_confirmation E = refuse E ''invalid_confirmation'' ''no matching pending operation''"

definition started_event :: "job \<Rightarrow> event" where
  "started_event j = (turn_event ToolStarted (jb_TurnID j))\<lparr>ev_Tool := Some (zero_tool
     \<lparr>vt_OperationID := jb_ID j, vt_Name := jb_Name j\<rparr>)\<rparr>"

text \<open>\<open>tools.confirm\<close> approved: the pending operation is planned again, and now may run.\<close>
definition run_confirmed :: "'sch account_env \<Rightarrow> instant \<Rightarrow> 'sch orch \<Rightarrow> pending \<Rightarrow> 'sch account_block" where
  "run_confirmed E now s p = do {
     session_call E (OpPlan now (pd_OperationID p) (replace_byte CHR ''.'' CHR ''_'' (pd_Name p)) (pd_TurnID p) (pd_Args p));
     (case snd (Plan (rn_lib E) now (pd_OperationID p) (replace_byte CHR ''.'' CHR ''_'' (pd_Name p)) (pd_TurnID p) (pd_Args p) s) of
        (j, Some r) \<Rightarrow> account_emit E now [account_result_event j r]
      | (j, None) \<Rightarrow> after (account_emit E now [started_event j]) (start_ui_job j)) }"

text \<open>\<open>tools.confirm\<close> and what follows it.\<close>
definition confirm_pending :: "'sch account_env \<Rightarrow> instant \<Rightarrow> string \<Rightarrow> bool \<Rightarrow> 'sch account_block" where
  "confirm_pending E now ident approved = do {
     l \<leftarrow> State_Monad.get;
     (case ag_tools l of
        None \<Rightarrow> refuse_confirmation E
      | Some t \<Rightarrow>
        (case or_Pending (tn_session t) of
           None \<Rightarrow> refuse_confirmation E
         | Some p \<Rightarrow> do {
             session_call E (OpConfirm now ident approved);
             (case Confirm now ident approved (tn_session t) of
                (s, accepted) \<Rightarrow>
                  if \<not> accepted then refuse_confirmation E
                  else if \<not> approved then account_emit E now [account_result_event (pendingJob p) cancelledResult]
                  else run_confirmed E now s p) })) }"

definition account_on_confirm :: "'sch account_env \<Rightarrow> instant \<Rightarrow> event \<Rightarrow> 'sch account_block" where
  "account_on_confirm E now e =
     (case ev_Tool e of
        None \<Rightarrow> refuse_confirmation E
      | Some v \<Rightarrow>
        (case vt_Approved v of
           None \<Rightarrow> refuse_confirmation E
         | Some approved \<Rightarrow> do {
             l \<leftarrow> State_Monad.get;
             (if vt_OperationID v = welcomeOperation \<and> cc_waitingWelcome l
              then (if \<not> approved then stop_session E else beginWelcomeLogin E now welcomeOperation)
              else confirm_pending E now (vt_OperationID v) approved) }))"

definition account_on_event :: "'sch account_env \<Rightarrow> instant \<Rightarrow> event \<Rightarrow> 'sch account_block" where
  "account_on_event E now e =
     (if ev_SessionID e \<noteq> rn_sessionID E
      then refuse E ''session_mismatch'' ''sessionId does not match this connection''
      else if ev_Type e = AudioAppend then on_audio E (account_start_input E now) e
      else if ev_Type e = TurnCommit then on_commit E now e
      else if ev_Type e = TurnCancel then on_cancel E (account_emit E now) (account_rotate E now) e
      else if ev_Type e = SessionStop then stop_session E
      else if ev_Type e = ToolConfirm then account_on_confirm E now e
      else refuse E ''invalid_transition'' ''session is already started'')"

section \<open>Finished jobs\<close>

definition ui_event :: "string \<Rightarrow> event" where
  "ui_event ui = zero_event\<lparr>ev_Type := ''ui.a2ui'', ev_UI := ui\<rparr>"

definition delete_surface :: string where
  "delete_surface = obj_text [(''version'', json_quote ''v0.9.1''),
     (''deleteSurface'', obj_text [(''surfaceId'', json_quote ''account-login'')])]"

text \<open>The surfaces that a finished job opens or closes.\<close>
definition show_surfaces :: "'sch account_env \<Rightarrow> job \<Rightarrow> result \<Rightarrow> 'sch account_block" where
  "show_surfaces E j r = after
     (case login_transaction j r of None \<Rightarrow> proceed | Some t \<Rightarrow> write_event E (ui_event (loginSurface t)))
     (if jb_Name j = ''identity.logout'' \<and> \<not> rs_IsError r
      then do { ok \<leftarrow> write_event E (ui_event delete_surface); proceed } else proceed)"

definition confirmed_note :: "result \<Rightarrow> history_message" where
  "confirmed_note r = \<lparr>hm_Role = ''ASSISTANT'',
     hm_Content = ''Resultado da opera'' @ tl acao @ '' confirmada no app: '' @ result_text r\<rparr>"

text \<open>The result of a job goes to the provider or, through the history, to its next stream.\<close>
definition deliver_result :: "'sch account_env \<Rightarrow> instant \<Rightarrow> job \<Rightarrow> result \<Rightarrow> 'sch account_block" where
  "deliver_result E now j r = do {
     l \<leftarrow> State_Monad.get;
     (if jb_ID j \<in> set (cc_uiJobs l) then do {
        assign (\<lambda>l. l\<lparr>cc_uiJobs := removeAll (jb_ID j) (cc_uiJobs l),
          ag_mapper := (ag_mapper l)\<lparr>mp_History := mp_History (ag_mapper l) @ [confirmed_note r]\<rparr>\<rparr>);
        after (account_emit E now [account_result_event j r]) (account_rotate E now) }
      else do {
        sent \<leftarrow> send_result E (jb_ID j) r;
        (if \<not> sent
         then fail_with E ''provider_unavailable'' ''Nova tool result delivery failed; retry mutations with the same requestId''
         else account_emit E now [account_result_event j r]) }) }"

definition account_on_finished ::
  "'sch account_env \<Rightarrow> instant \<Rightarrow> nat \<Rightarrow> error + result \<Rightarrow> 'sch account_block"
where
  "account_on_finished E now i outcome = do {
     l \<leftarrow> State_Monad.get;
     (case ag_tools l of
        None \<Rightarrow> proceed
      | Some t \<Rightarrow>
          if length (tn_running t) \<le> i then proceed
          else (let j = tn_running t ! i; r = Execute outcome j in do {
            set_tools (take_finished i);
            session_call E (OpComplete j r);
            after (show_surfaces E j r) (deliver_result E now j r) })) }"

section \<open>Provider events\<close>

text \<open>The user's utterance may answer the welcome, and may cancel what is pending.\<close>
definition answer_welcome :: "'sch account_env \<Rightarrow> instant \<Rightarrow> string \<Rightarrow> string \<Rightarrow> 'sch account_block" where
  "answer_welcome E now turn said = do {
     l \<leftarrow> State_Monad.get;
     (if \<not> cc_waitingWelcome l then proceed
      else if welcomeAnswer (unicode (rn_lib E)) said = - 1 then stop_session E
      else if welcomeAnswer (unicode (rn_lib E)) said = 1 then beginWelcomeLogin E now turn
      else proceed) }"

definition report_cancelled :: "'sch account_env \<Rightarrow> instant \<Rightarrow> pending option \<Rightarrow> 'sch account_block" where
  "report_cancelled E now before = do {
     l \<leftarrow> State_Monad.get;
     (case (before, ag_tools l) of
        (Some p, Some t) \<Rightarrow>
          if or_Pending (tn_session t) = None
          then account_emit E now [account_result_event (pendingJob p) cancelledResult] else proceed
      | _ \<Rightarrow> proceed) }"

definition account_observe :: "'sch account_env \<Rightarrow> instant \<Rightarrow> nova_event \<Rightarrow> 'sch account_block" where
  "account_observe E now ev = do {
     l \<leftarrow> State_Monad.get;
     (if \<not> utterance_over ev l then proceed
      else do {
        session_call E (OpObserve now (ag_completedUserTurn l) (ag_completedUser l));
        after (answer_welcome E now (ag_completedUserTurn l) (ag_completedUser l))
          (report_cancelled E now (Option.bind (ag_tools l) (\<lambda>t. or_Pending (tn_session t)))) }) }"

text \<open>The provider may not begin a login: it is told to wait for the answer to the invitation.\<close>
definition account_plan ::
  "'sch account_env \<Rightarrow> instant \<Rightarrow> 'sch tools \<Rightarrow> event \<Rightarrow> voice_tool \<Rightarrow> ('sch account, job \<times> result option) state"
where
  "account_plan E now t call v = do {
     l \<leftarrow> State_Monad.get;
     (if ev_Code call \<noteq> ''turn_cancelled'' \<and> ev_TurnID call = mp_TurnID (ag_mapper l)
         \<and> vt_Name v \<in> {''identity_begin_login'', ''identity.begin_login''}
      then State_Monad.return (\<lparr>jb_ID = vt_OperationID v, jb_Name = ''identity.begin_login'', jb_Key = [],
             jb_TurnID = ev_TurnID call, jb_Args = [], jb_Confirmed = False\<rparr>, Some (Failure ''use_pending_login_invitation''))
      else plan_staged E now t call v) }"

text \<open>The client sees a call without its arguments.\<close>
definition account_run_call ::
  "'sch account_env \<Rightarrow> instant \<Rightarrow> 'sch tools \<Rightarrow> event \<Rightarrow> voice_tool \<Rightarrow> 'sch account_block"
where
  "account_run_call E now t call v = do {
     (j, immediate) \<leftarrow> account_plan E now t call v;
     after (account_emit E now [call\<lparr>ev_Tool := Some (v\<lparr>vt_Arguments := []\<rparr>)\<rparr>])
       (execute_call E (account_emit E now) account_result_event t (ev_TurnID call) j immediate) }"

definition account_map :: "'sch account_env \<Rightarrow> instant \<Rightarrow> string \<Rightarrow> nova_event \<Rightarrow> 'sch account_block" where
  "account_map E now fresh ev = do {
     l \<leftarrow> State_Monad.get;
     set_mapper (fst (MapEvent now fresh ev (ag_mapper l)));
     (case snd (MapEvent now fresh ev (ag_mapper l)) of
        Inl err \<Rightarrow> if ne_Err ev = None \<and> err = slice_panic then panic
                   else fail_with E ''provider_failed'' ''Nova returned an invalid response''
      | Inr es \<Rightarrow>
          if ag_tools l = None then account_emit E now es
          else after (hear E (ne_ContentID ev) es) (do {
            assign (end_utterance ev);
            after (account_observe E now ev)
              (if ne_Kind ev = ''toolUse'' then stage E ev es
               else if ne_Kind ev = ''contentEnd'' then end_call (account_emit E now) (account_run_call E now) ev es
               else account_emit E now es) })) }"

text \<open>The provider's own opening utterance is dropped, from its start to its end.\<close>
definition account_on_stream :: "'sch account_env \<Rightarrow> instant \<Rightarrow> string \<Rightarrow> nova_event \<Rightarrow> 'sch account_block" where
  "account_on_stream E now fresh ev = do {
     l \<leftarrow> State_Monad.get;
     (if cc_openingBootstrap l \<and> ne_Kind ev = ''interrupted'' then proceed
      else do {
        (if cc_openingBootstrap l \<and> ne_Kind ev = ''contentStart'' \<and> ne_Role ev = ''USER''
         then assign (\<lambda>l. l\<lparr>cc_bootstrapContents := List.insert (ne_ContentID ev) (cc_bootstrapContents l)\<rparr>)
         else State_Monad.return ());
        l \<leftarrow> State_Monad.get;
        (if ne_ContentID ev \<in> set (cc_bootstrapContents l)
         then do {
           (if ne_Kind ev = ''contentEnd''
            then assign (\<lambda>l. l\<lparr>cc_bootstrapContents := removeAll (ne_ContentID ev) (cc_bootstrapContents l)\<rparr>)
            else State_Monad.return ());
           proceed }
         else do {
           (if ne_Kind ev = ''contentStart'' \<and> ne_Role ev = ''ASSISTANT''
            then assign (\<lambda>l. l\<lparr>cc_openingBootstrap := False\<rparr>) else State_Monad.return ());
           account_map E now fresh ev }) }) }"

section \<open>The loop\<close>

fun account_step :: "'sch account_env \<Rightarrow> agent_tick \<Rightarrow> 'sch account_block" where
  "account_step E (now, fresh, InDone) = leave"
| "account_step E (now, fresh, InTurnTimeout) = do {
     l \<leftarrow> State_Monad.get;
     (case ag_turnTimeout l of None \<Rightarrow> proceed
      | Some d \<Rightarrow> if now < d then proceed else on_turn_timeout E (account_emit E now)) }"
| "account_step E (now, fresh, InRenew) = do {
     l \<leftarrow> State_Monad.get;
     (if now < ag_renew l then proceed else on_renew E (account_emit E now) (account_rotate E now) now) }"
| "account_step E (now, fresh, InClosed) = leave"
| "account_step E (now, fresh, InError err) = refuse E ''invalid_event'' err"
| "account_step E (now, fresh, InEvent e) = account_on_event E now e"
| "account_step E (now, fresh, InFinished i outcome) = account_on_finished E now i outcome"
| "account_step E (now, fresh, InStreamClosed) = fail_with E ''provider_unavailable'' ''Nova stream disconnected''"
| "account_step E (now, fresh, InStream ev) = account_on_stream E now fresh ev"

definition account_loop :: "'sch account_env \<Rightarrow> agent_tick list \<Rightarrow> 'sch account_block" where
  "account_loop E ticks = each (account_step E) ticks"

definition account_start :: "'sch account_env \<Rightarrow> instant \<Rightarrow> 'sch tools \<Rightarrow> 'sch account" where
  "account_start E now t =
     \<lparr>ag_mapper = NewMapper [], ag_tools = Some t, ag_inputID = [], ag_inputSequence = 0, ag_usedInputs = [],
      ag_openedAt = now, ag_renew = now + rn_NovaMaxSessionAge E, ag_turnTimeout = None, ag_userTexts = [],
      ag_userTurns = [], ag_completedUser = [], ag_completedUserTurn = [], ag_io = 0, ag_trace = [],
      cc_waitingWelcome = \<not> ce_authenticated E, cc_greetingPending = True, cc_openingBootstrap = True,
      cc_bootstrapContents = [], cc_uiJobs = []\<rparr>"

text \<open>\<open>emit(mapper.StartAssistant(openingTurn))\<close>\<close>
definition greet :: "'sch account_env \<Rightarrow> instant \<Rightarrow> 'sch account_block" where
  "greet E now = do {
     l \<leftarrow> State_Monad.get;
     (case StartAssistant now (openingTurn E) (ag_mapper l) of (m, es) \<Rightarrow> do { set_mapper m; account_emit E now es }) }"

text \<open>What precedes the loop once the stream is open.\<close>
definition open_account :: "'sch account_env \<Rightarrow> instant \<Rightarrow> 'sch account_block" where
  "open_account E now = do {
     act (SentText (openingRequest E));
     ok \<leftarrow> attempt E;
     (if snd (SendText (\<lambda>_. ok) (openingRequest E)) \<noteq> None
      then fail_with E ''provider_unavailable'' ''Nova opening request failed''
      else after (write_event E (zero_event\<lparr>ev_Type := SessionReady, ev_Provider := ''nova'', ev_State := Idle\<rparr>))
        (after (if ce_authenticated E then proceed else each (write_event E) (tl welcomeEvents)) (greet E now))) }"

definition account_run ::
  "'sch account_env \<Rightarrow> instant \<Rightarrow> error + 'sch tools \<Rightarrow> error option \<Rightarrow> agent_tick list \<Rightarrow> 'sch account_block"
where
  "account_run E now ts opened ticks =
     (case ts of
        Inl _ \<Rightarrow> fail_with E ''mcp_unavailable'' ''MCP initialization or discovery failed''
      | Inr t \<Rightarrow> deferred (case opened of
            Some err \<Rightarrow> fail_with E ''provider_unavailable'' err
          | None \<Rightarrow> do {
              act (OpenedStream (sessionPrompt E) []);
              deferred (after (open_account E now) (account_loop E ticks)) ClosedStream }) ClosedTools)"

end
