(* ===== verification/Account_Safety.thy ===== *)
theory Account_Safety
  imports Account_Runtime
begin

text \<open>
  The safety of the account agent's session (\<open>Account_Runtime\<close>): it never panics, the jobs it runs were
  authorised, and a login begins only after the user has accepted the invitation. The account's
  closure \<open>emit\<close> is a \<open>timed_emitter\<close>, so the shared blocks keep the invariant of \<open>Agent_Safety\<close>
  and the armed timer of \<open>Agent_Timer\<close>.
\<close>

section \<open>The closures\<close>

lemma quiet_greeting: "quiet_step l (l\<lparr>cc_greetingPending := b\<rparr> :: 'sch account)"
  by (rule quiet_stepI [where to = "ag_turnTimeout l" and n = "ag_io l" and tr = "[]"
      and x = "agent.more (l\<lparr>cc_greetingPending := b\<rparr>)"]) (cases l, simp_all)

lemma silent_greeting: "silent (assign (\<lambda>l. l\<lparr>cc_greetingPending := b\<rparr>) :: ('sch account, unit) state)"
proof (rule silentI, rule keeps_assign)
  fix l l' :: "'sch account"
  assume "quiet_step l l'"
  moreover have "l'\<lparr>cc_greetingPending := b\<rparr> = agent.more_update (\<lambda>_. agent.more (l'\<lparr>cc_greetingPending := b\<rparr>)) l'"
    by (cases l') simp
  ultimately show "quiet_step l (l'\<lparr>cc_greetingPending := b\<rparr>)" by (metis quiet_updates(3))
qed

lemma silent_account_emit: "list_all event_ok es \<Longrightarrow> silent (account_emit E now es)"
  unfolding account_emit_def account_emit_one_def
  by (rule silent_each)
    (auto simp: list_all_iff intro!: silent_bind silent_if silent_greeting silent_simple silent_emit_one)

lemma wp_account_emit_one:
  "wp (account_emit_one E now e) (\<lambda>ok l'. (ok \<longrightarrow> (ag_turnTimeout l' \<noteq> None) = arm (ag_turnTimeout l \<noteq> None) e)
     \<and> ag_mapper l' = ag_mapper l) l"
  using wp_emit_one [of E now e l] wp_emit_one [of E now e "l\<lparr>cc_greetingPending := False\<rparr>"]
  by (simp add: account_emit_one_def)

lemma wp_account_emit:
  "wp (account_emit E now es) (\<lambda>ok l'. (ok \<longrightarrow> (ag_turnTimeout l' \<noteq> None) = foldl arm (ag_turnTimeout l \<noteq> None) es)
     \<and> ag_mapper l' = ag_mapper l) l"
proof (induction es arbitrary: l)
  case (Cons e es)
  show ?case
    unfolding account_emit_def each.simps wp_after
  proof (rule wp_mono [OF wp_account_emit_one], goal_cases)
    case (1 ok l')
    then show ?case using Cons.IH [of l'] by (auto simp: account_emit_def elim!: wp_mono)
  qed
qed (simp add: account_emit_def)

interpretation account: timed_emitter "account_emit E now" for E :: "'sch account_env" and now
  by unfold_locales (rule silent_account_emit wp_account_emit, assumption?)+

section \<open>The invariant\<close>

text \<open>The invariant of the shared blocks, without the assistant's limits on its jobs.\<close>
abbreviation account_inv :: "bool \<Rightarrow> 'sch lib \<Rightarrow> 'sch orch \<Rightarrow> 'sch account \<Rightarrow> bool" where
  "account_inv safe L s0 \<equiv> agent_inv False safe False L s0"

lemma account_inv_more:
  "account_inv safe L s0 (l\<lparr>cc_waitingWelcome := b\<rparr>) = account_inv safe L s0 l"
  "account_inv safe L s0 (l\<lparr>cc_openingBootstrap := b\<rparr>) = account_inv safe L s0 l"
  "account_inv safe L s0 (l\<lparr>cc_bootstrapContents := xs\<rparr>) = account_inv safe L s0 l"
  "account_inv safe L s0 (l\<lparr>cc_uiJobs := xs\<rparr>) = account_inv safe L s0 l"
  by (simp_all add: agent_inv_def session_ok_def tools_ok_def tools_busy_def cong: option.case_cong)

lemma inv_tools: "account_inv safe L s0 l \<Longrightarrow> \<exists>t. ag_tools l = Some t"
  by (cases "ag_tools l") (auto simp: agent_inv_def tools_ok_def)

lemma event_ok_account [simp]:
  "event_ok (account_result_event j r)" "event_ok (started_event j)" "event_ok (ui_event u)"
  by (simp_all add: account_result_event_def started_event_def ui_event_def event_ok_def turn_event_def zero_event_def)

lemma keeps_account_rotate: "keeps (agent_inv False safe idle (rn_lib E) s0) (account_rotate E now)"
  unfolding account_rotate_def by (rule keeps_reopen) simp

section \<open>The account's blocks keep it\<close>

lemma may_start_more: "may_start L s0 j (l\<lparr>cc_uiJobs := xs\<rparr>) = may_start L s0 j l"
  by (simp add: may_start_def)

lemma wp_start_ui:
  assumes "account_inv safe L s0 l" "may_start L s0 j l"
  shows "wp (start_ui_job j) (\<lambda>_. account_inv safe L s0) l"
proof -
  obtain t where t: "ag_tools l = Some t" using inv_tools [OF assms(1)] by blast
  have "wp (start_job j) (\<lambda>_. account_inv safe L s0) (l\<lparr>cc_uiJobs := List.insert (jb_ID j) (cc_uiJobs l)\<rparr>)"
    by (rule agent_inv_started [where t = t]) (simp_all add: account_inv_more may_start_more assms t)
  then show ?thesis by (simp add: start_ui_job_def)
qed

lemma inv_called: "\<not> completes x \<Longrightarrow> account_inv safe L s0 l \<Longrightarrow> account_inv safe L s0 (called L x l)"
  by (rule agent_inv_call)

text \<open>A call of \<open>Plan\<close> and what is done with the job or the answer.\<close>
lemma wp_planned:
  assumes "account_inv safe (rn_lib E) s0 l" "ag_tools l = Some t"
    and "\<And>j r. wp (answer j r) (\<lambda>_. account_inv safe (rn_lib E) s0) (called (rn_lib E) (OpPlan now ident name turn args) l)"
    and "\<And>j. may_start (rn_lib E) s0 j (called (rn_lib E) (OpPlan now ident name turn args) l)
      \<Longrightarrow> wp (begin j) (\<lambda>_. account_inv safe (rn_lib E) s0) (called (rn_lib E) (OpPlan now ident name turn args) l)"
  shows "wp (do { session_call E (OpPlan now ident name turn args);
     (case snd (Plan (rn_lib E) now ident name turn args (tn_session t)) of
        (j, Some r) \<Rightarrow> answer j r | (j, None) \<Rightarrow> begin j) }) (\<lambda>_. account_inv safe (rn_lib E) s0) l"
proof -
  obtain s' j r where plan: "Plan (rn_lib E) now ident name turn args (tn_session t) = (s', j, r)"
    using prod_cases3 by blast
  show ?thesis
    using assms(3,4) planned_may_start [OF assms(1,2), of now ident name turn args s' j] plan
    by (cases r) simp_all
qed

lemma keeps_begin: "keeps (account_inv safe (rn_lib E) s0) (beginWelcomeLogin E now turn)"
proof (rule keepsI, goal_cases)
  case (1 l)
  let ?l = "l\<lparr>cc_waitingWelcome := False\<rparr>" and ?x = "OpPlan now welcomeOperation ''identity_begin_login'' turn ''{}''"
  have I: "account_inv safe (rn_lib E) s0 ?l" using 1 by (simp add: account_inv_more)
  obtain t where t: "ag_tools ?l = Some t" using inv_tools [OF I] by blast
  have c: "account_inv safe (rn_lib E) s0 (called (rn_lib E) ?x ?l)" by (rule inv_called [OF _ I]) simp
  have "wp (do { session_call E ?x;
     (case snd (Plan (rn_lib E) now welcomeOperation ''identity_begin_login'' turn ''{}'' (tn_session t)) of
        (j, Some r) \<Rightarrow> write_event E (account_result_event j r) | (j, None) \<Rightarrow> start_ui_job j) })
      (\<lambda>_. account_inv safe (rn_lib E) s0) ?l"
    by (rule wp_planned [OF I t]) (auto intro!: keepsD [OF silent_keeps [OF silent_write]] wp_start_ui c)
  then show ?case using t by (simp only: beginWelcomeLogin_def wp_bind wp_assign wp_get t option.case)
qed

lemma keeps_start_input: "keeps (account_inv safe L s0) (account_start_input E now turn)"
proof -
  have "mapper_safe (QueueInput turn m)" if "mapper_safe m" for m
    using that any_history.inv_mapper_call [of m "MQueueInput turn"] by simp
  then show ?thesis
    unfolding account_start_input_def
    by (intro keeps_get keeps_if keeps_bind keeps_set_mapper account.keeps_emit_start keeps_simple) (blast dest: inv_mapper)
qed

lemma keeps_run_confirmed:
  assumes "account_inv safe (rn_lib E) s0 l" "ag_tools l = Some t" "tn_session t = s"
  shows "wp (run_confirmed E now s p) (\<lambda>_. account_inv safe (rn_lib E) s0) l"
proof -
  let ?x = "OpPlan now (pd_OperationID p) (replace_byte CHR ''.'' CHR ''_'' (pd_Name p)) (pd_TurnID p) (pd_Args p)"
  have c: "account_inv safe (rn_lib E) s0 (called (rn_lib E) ?x l)" by (rule inv_called [OF _ assms(1)]) simp
  have "wp (after (account_emit E now [started_event j]) (start_ui_job j)) (\<lambda>_. account_inv safe (rn_lib E) s0)
      (called (rn_lib E) ?x l)" if "may_start (rn_lib E) s0 j (called (rn_lib E) ?x l)" for j
    unfolding wp_after
  proof (rule silent_wp [OF silent_account_emit], simp, goal_cases)
    case (1 ok l')
    then show ?case using that c by (auto simp: agent_inv_quiet may_start_quiet intro: wp_start_ui)
  qed
  then have "wp (do { session_call E ?x;
     (case snd (Plan (rn_lib E) now (pd_OperationID p) (replace_byte CHR ''.'' CHR ''_'' (pd_Name p)) (pd_TurnID p) (pd_Args p) (tn_session t)) of
        (j, Some r) \<Rightarrow> account_emit E now [account_result_event j r]
      | (j, None) \<Rightarrow> after (account_emit E now [started_event j]) (start_ui_job j)) }) (\<lambda>_. account_inv safe (rn_lib E) s0) l"
    by (intro wp_planned [OF assms(1,2)] keepsD [OF account.keeps_em] c) simp_all
  then show ?thesis by (simp only: run_confirmed_def assms(3))
qed

lemma Confirm_step: "orch_step L s (OpConfirm now ident ok) = fst (Confirm now ident ok s)"
  by simp

lemma keeps_confirm_pending: "keeps (account_inv safe (rn_lib E) s0) (confirm_pending E now ident approved)"
proof (rule keepsI, goal_cases)
  case (1 l)
  obtain t where t: "ag_tools l = Some t" using inv_tools [OF 1] by blast
  let ?l = "called (rn_lib E) (OpConfirm now ident approved) l"
  have c: "account_inv safe (rn_lib E) s0 ?l" by (rule inv_called [OF _ 1]) simp
  obtain s ok where s: "Confirm now ident approved (tn_session t) = (s, ok)" by fastforce
  then have t': "ag_tools ?l = Some (t\<lparr>tn_session := s\<rparr>)" by (simp add: called_def t)
  have "wp (run_confirmed E now s p) (\<lambda>_. account_inv safe (rn_lib E) s0) ?l" for p
    by (rule keeps_run_confirmed [OF c t']) simp
  moreover have "wp (refuse_confirmation E) (\<lambda>_. account_inv safe (rn_lib E) s0) l'"
    if "account_inv safe (rn_lib E) s0 l'" for l'
    unfolding refuse_confirmation_def by (intro keepsD keeps_fail that)
  moreover have "wp (account_emit E now [account_result_event j r]) (\<lambda>_. account_inv safe (rn_lib E) s0) ?l" for j r
    by (intro keepsD account.keeps_em c) simp
  ultimately show ?case using 1 c s by (cases approved) (simp_all add: confirm_pending_def t split: option.split)
qed

lemma keeps_account_confirm: "keeps (account_inv safe (rn_lib E) s0) (account_on_confirm E now e)"
  unfolding account_on_confirm_def
  by (intro keeps_option keeps_bind keeps_if keeps_confirm_pending keeps_begin keeps_fail keeps_simple)
    (simp_all add: refuse_confirmation_def keeps_fail)

lemma keeps_account_event: "keeps (account_inv safe (rn_lib E) s0) (account_on_event E now e)"
  unfolding account_on_event_def
  by (intro keeps_if keeps_fail keeps_on_audio keeps_start_input keeps_on_commit account.keeps_on_cancel
    keeps_account_rotate keeps_account_confirm)

lemma keeps_show_surfaces: "keeps (account_inv safe L s0) (show_surfaces E j r)"
  unfolding show_surfaces_def
  by (intro keeps_after keeps_option keeps_if keeps_bind silent_keeps [OF silent_write] keeps_simple)

lemma account_inv_delivered:
  assumes "account_inv safe L s0 l"
  shows "account_inv safe L s0 (l\<lparr>cc_uiJobs := xs, ag_mapper := (ag_mapper l)\<lparr>mp_History := h\<rparr>\<rparr>)"
proof -
  have "mapper_safe ((ag_mapper l)\<lparr>mp_History := h\<rparr>)" using inv_mapper [OF assms] by (simp add: mapper_wf_def)
  then have "account_inv safe L s0 (l\<lparr>ag_mapper := (ag_mapper l)\<lparr>mp_History := h\<rparr>\<rparr>)" by (rule agent_inv_mapper [OF assms])
  then have "account_inv safe L s0 (l\<lparr>ag_mapper := (ag_mapper l)\<lparr>mp_History := h\<rparr>, cc_uiJobs := xs\<rparr>)"
    by (simp add: account_inv_more)
  then show ?thesis by (cases l) simp
qed

lemma keeps_deliver: "keeps (account_inv safe (rn_lib E) s0) (deliver_result E now j r)"
  unfolding deliver_result_def
  by (intro keeps_get keeps_if keeps_bind keeps_after account.keeps_em keeps_account_rotate keeps_fail
      silent_keeps [OF silent_tools(2)] keeps_assign account_inv_delivered) simp_all

lemma keeps_account_finished: "keeps (account_inv safe (rn_lib E) s0) (account_on_finished E now i outcome)"
proof (rule keepsI, goal_cases)
  case (1 l)
  obtain t where t: "ag_tools l = Some t" using inv_tools [OF 1] by blast
  let ?j = "tn_running t ! i" and ?r = "Execute outcome (tn_running t ! i)"
  have "wp (after (show_surfaces E ?j ?r) (deliver_result E now ?j ?r)) (\<lambda>_. account_inv safe (rn_lib E) s0)
      (called (rn_lib E) (OpComplete ?j ?r) (l\<lparr>ag_tools := Some (take_finished i t)\<rparr>))" if "i < length (tn_running t)"
    by (intro keepsD keeps_after keeps_show_surfaces keeps_deliver agent_inv_finished [OF 1 t that])
  then show ?case
    using 1 by (simp add: account_on_finished_def t Let_def set_tools_def del: wp_after)
qed

lemma keeps_answer_welcome: "keeps (account_inv safe (rn_lib E) s0) (answer_welcome E now turn said)"
  unfolding answer_welcome_def by (intro keeps_bind keeps_if keeps_fail keeps_begin keeps_simple)

lemma keeps_report: "keeps (account_inv safe (rn_lib E) s0) (report_cancelled E now before)"
  unfolding report_cancelled_def
  by (intro keeps_bind keeps_prod keeps_option keeps_if account.keeps_em keeps_simple) simp

lemma keeps_account_observe: "keeps (account_inv safe (rn_lib E) s0) (account_observe E now ev)"
  unfolding account_observe_def
  by (intro keeps_bind keeps_if keeps_after keeps_call keeps_answer_welcome keeps_report keeps_simple) simp

lemma wp_account_run_call:
  assumes "account_inv safe (rn_lib E) s0 l" "ag_tools l = Some t'"
    and "tn_session t = tn_session t'" "tn_active t = tn_active t'"
    and "vt_OperationID v \<notin> set (tn_active t)" "ev_Type call = ToolStarted"
  shows "wp (account_run_call E now t call v) (\<lambda>_. account_inv safe (rn_lib E) s0) l"
proof -
  define Q where "Q = (\<lambda>(j, r) l'. wp (after (account_emit E now [call\<lparr>ev_Tool := Some (v\<lparr>vt_Arguments := []\<rparr>)\<rparr>])
       (execute_call E (account_emit E now) account_result_event t (ev_TurnID call) j r)) (\<lambda>_. account_inv safe (rn_lib E) s0) l')"
  have Q: "Q (j, r) l'" if "account_inv safe (rn_lib E) s0 l'" "jb_ID j = vt_OperationID v"
      "case ag_tools l' of None \<Rightarrow> False | Some t'' \<Rightarrow> tn_active t'' = tn_active t'" "r \<noteq> None \<or> may_start (rn_lib E) s0 j l'" for j r l'
    unfolding Q_def prod.case
    by (rule account.wp_execute_call [OF that(1,4)]) (use that assms(4-6) in \<open>auto split: option.splits\<close>)
  have "wp (plan_staged E now t call v) Q l" by (rule wp_plan_staged [OF assms(1-3)]) (rule Q)
  moreover have "Q (j, Some r) l" if "jb_ID j = vt_OperationID v" for j r
    by (rule Q) (use assms(1,2) that in simp_all)
  ultimately have "wp (account_plan E now t call v) Q l"
    by (simp only: account_plan_def wp_bind wp_get wp_if wp_return) (simp split: if_split)
  then show ?thesis unfolding account_run_call_def Q_def wp_bind by (rule wp_mono) (simp split: prod.splits del: wp_after)
qed

lemma keeps_account_map: "keeps (account_inv safe (rn_lib E) s0) (account_map E now fresh ev)"
proof (rule keepsI, goal_cases)
  case (1 l)
  let ?I = "account_inv safe (rn_lib E) s0"
  obtain m r where map: "MapEvent now fresh ev (ag_mapper l) = (m, r)" by fastforce
  have m: "mapper_safe m" and panic: "r = Inl slice_panic \<Longrightarrow> ne_Err ev \<noteq> None"
    using any_history.MapEvent_inv [OF inv_mapper [OF 1], of now fresh ev] by (auto simp: map)
  have good: "good_result r" using good_MapEvent [of now fresh ev "ag_mapper l"] by (simp add: map)
  have l': "?I (l\<lparr>ag_mapper := m\<rparr>)" using 1 m by (rule agent_inv_mapper)
  show ?case
  proof (cases r)
    case (Inl err)
    have "wp (fail_with E c msg) (\<lambda>_. ?I) (l\<lparr>ag_mapper := m\<rparr>)" for c msg by (intro keepsD keeps_fail l')
    then show ?thesis using panic Inl by (auto simp: account_map_def map set_mapper_def)
  next
    case (Inr es)
    then have es: "list_all event_ok es" using good by simp
    have "wp (after (hear E (ne_ContentID ev) es) (do {
            assign (end_utterance ev);
            after (account_observe E now ev)
              (if ne_Kind ev = ''toolUse'' then stage E ev es
               else if ne_Kind ev = ''contentEnd'' then end_call (account_emit E now) (account_run_call E now) ev es
               else account_emit E now es) })) (\<lambda>_. ?I) (l\<lparr>ag_mapper := m\<rparr>)"
      by (intro keepsD keeps_after keeps_bind keeps_if keeps_hear keeps_account_observe keeps_stage account.keeps_end_call
          account.keeps_em es keeps_assign l' wp_account_run_call) (simp_all add: agent_inv_utterance)
    moreover have "wp (account_emit E now es) (\<lambda>_. ?I) (l\<lparr>ag_mapper := m\<rparr>)" by (intro keepsD account.keeps_em es l')
    ultimately show ?thesis
      by (simp only: account_map_def set_mapper_def wp_bind wp_get wp_assign map fst_conv snd_conv Inr sum.case wp_if
          if_cancel)
  qed
qed

lemma keeps_account_stream: "keeps (account_inv safe (rn_lib E) s0) (account_on_stream E now fresh ev)"
  unfolding account_on_stream_def
  by (intro keeps_bind keeps_if keeps_simple keeps_assign keeps_account_map) (simp_all add: account_inv_more)

section \<open>The loop keeps it\<close>

lemma keeps_account_step: "keeps (account_inv safe (rn_lib E) s0) (account_step E (now, fresh, i))"
  by (cases i)
    (auto intro!: keeps_bind keeps_option keeps_if account.keeps_on_turn_timeout account.keeps_on_renew
      keeps_account_rotate keeps_fail keeps_account_event keeps_account_finished keeps_account_stream)

lemma keeps_account_loop: "keeps (account_inv safe (rn_lib E) s0) (account_loop E ticks)"
  unfolding account_loop_def by (rule keeps_each) (metis keeps_account_step prod_cases3)

lemma keeps_greet: "keeps (account_inv safe L s0) (greet E now)"
proof -
  have "mapper_safe m \<and> list_all event_ok es" if "StartAssistant now ident m0 = (m, es)" "mapper_safe m0" for m0 m es ident
    using that any_history.inv_mapper_call [of m0 "MStartAssistant now ident"] by (auto simp: StartAssistant_def Let_def)
  then show ?thesis
    unfolding greet_def
    by (intro keeps_get keeps_prod keeps_bind keeps_set_mapper account.keeps_em) (blast dest: inv_mapper)+
qed

lemma keeps_open_account: "keeps (account_inv safe L s0) (open_account E now)"
  unfolding open_account_def
  by (intro keeps_bind keeps_if keeps_after keeps_each keeps_greet keeps_fail keeps_simple silent_keeps [OF silent_write]
      silent_keeps [OF silent_act] silent_keeps [OF silent_attempt] output_act_simps)

lemma account_inv_start: "account_inv safe L s0 (account_start E now (new_tools s0 ev sid))"
  by (simp add: agent_inv_def session_ok_def tools_ok_def tools_wf_def tools_busy_def account_start_def new_tools_def
      mapper_wf_NewMapper)

lemma keeps_account_run: "keeps (account_inv safe (rn_lib E) s0) (account_run E now (Inr t) opened ticks)"
  unfolding account_run_def sum.case
  by (intro keeps_deferred keeps_option keeps_bind keeps_fail keeps_after keeps_opened keeps_open_account
      keeps_account_loop output_act_simps) simp

section \<open>A session\<close>

text \<open>What an account session with new tools has done after some turns of its loop.\<close>
definition account_trace ::
  "'sch account_env \<Rightarrow> instant \<Rightarrow> 'sch tools \<Rightarrow> error option \<Rightarrow> agent_tick list \<Rightarrow> agent_act list"
where
  "account_trace E now t opened ticks = ag_trace (snd (run_state (account_run E now (Inr t) opened ticks) (account_start E now t)))"

lemma account_trace_inv:
  assumes "tr = account_trace E now (new_tools s0 ev sid) opened ticks"
  shows "subseq (ran_of tr) (started (rn_lib E) s0 (calls_of tr))" "Panicked \<notin> set tr"
proof -
  define l where "l = snd (run_state (account_run E now (Inr (new_tools s0 ev sid)) opened ticks) (account_start E now (new_tools s0 ev sid)))"
  have "account_inv True (rn_lib E) s0 l" unfolding l_def by (rule keeps_run [OF keeps_account_run account_inv_start])
  moreover have "tr = ag_trace l" by (simp add: assms account_trace_def l_def)
  ultimately show "subseq (ran_of tr) (started (rn_lib E) s0 (calls_of tr))" "Panicked \<notin> set tr"
    by (simp_all add: agent_inv_def session_ok_def)
qed

text \<open>
  Whatever the provider, the client, the servers, the clock and the failures of reading and
  writing do, in any order: a session of the account agent does not panic.
\<close>
theorem account_never_panics: "Panicked \<notin> set (account_trace E now (new_tools s0 ev sid) opened ticks)"
  by (rule account_trace_inv(2) [OF refl])

text \<open>
  C7. The jobs an account session runs, those confirmed in the application included, are jobs the
  orchestrator handed out, each at most once and in that order. For each there is the call of \<open>Plan\<close>
  that returned this very job, with the call's id, turn and arguments; and by the calls before that
  one a tool that asks for confirmation (the logout and the changes of the profile) had the user's
  approval of the same operation, aloud in another turn or in the application, neither interrupted nor
  refused since. No two jobs that change something have the same operation key, and at most 128 jobs
  run. The login's profile is direct, so that the orchestrator asks for no approval of it: who may
  begin it is said by \<open>account_login_consented\<close>.
\<close>
theorem account_jobs_authorised:
  "case NewOrch (rn_lib E) ts allowed ns account_policies of
     Inl _ \<Rightarrow> True
   | Inr s0 \<Rightarrow> (let tr = account_trace E now (new_tools s0 ev sid) opened ticks in
       subseq (ran_of tr) (started (rn_lib E) s0 (calls_of tr))
       \<and> list_all (authorised_by (rn_lib E) s0 (calls_of tr)) (ran_of tr)
       \<and> distinct (map jb_Key (filter (\<lambda>j. policy_of s0 j \<noteq> ReadOnly) (ran_of tr)))
       \<and> length (ran_of tr) \<le> 128)"
proof (cases "NewOrch (rn_lib E) ts allowed ns account_policies")
  case (Inr s0)
  then show ?thesis
    using ran_authorised [OF Inr] ran_planned [OF Inr] account_trace_inv(1) [OF refl, of E now s0 ev sid opened ticks]
    unfolding Inr sum.case Let_def by blast
qed simp

end
