(* ===== verification/Account_Timer.thy ===== *)
theory Account_Timer
  imports Account_Safety
begin

text \<open>
  The turn timer of the account agent's session (\<open>Account_Runtime\<close>): as in \<open>Agent_Timer\<close>, a deadline
  runs while the agent responds, from the opening greeting on. The blocks shared with the assistant
  come from \<open>timed_emitter\<close>; what is proved here is the account's own.
\<close>

section \<open>Client events\<close>

lemma armed_more [simp]:
  "armed (l\<lparr>cc_waitingWelcome := b\<rparr>) = armed l" "armed (l\<lparr>cc_openingBootstrap := b\<rparr>) = armed l"
  "armed (l\<lparr>cc_bootstrapContents := xs\<rparr>) = armed l" "armed (l\<lparr>cc_uiJobs := xs\<rparr>) = armed l"
  by (simp_all add: armed_def)

lemma account_rotate_arms: "arms_anyway (account_rotate E now)"
  by (simp add: arms_anyway_def account_rotate_def wp_reopen_armed)

lemma account_event_types [simp]:
  "ev_Type (account_result_event j r) = ToolResult" "ev_Type (started_event j) = ToolStarted"
  by (simp_all add: account_result_event_def started_event_def turn_event_def)

lemma armed_results: "stays_armed (account_emit E now [account_result_event j r])" "stays_armed (account_emit E now [started_event j])"
  by (rule account.armed_em, simp)+

lemma armed_start_ui: "stays_armed (start_ui_job j)"
  unfolding start_ui_job_def by (intro armed_bind armed_flow keeps_armed keeps_assign) simp

lemma armed_write: "stays_armed (write_event E e)"
  by (rule armed_keeps, rule keeps_armed)

lemma armed_prod: "(\<And>a b. x = (a, b) \<Longrightarrow> stays_armed (f a b)) \<Longrightarrow> stays_armed (case x of (a, b) \<Rightarrow> f a b)"
  by (simp split: prod.split)

lemma armed_panic: "stays_armed panic"
  unfolding panic_def by (intro armed_bind armed_flow keeps_armed)

lemmas armed_rules = armed_bind armed_if armed_option armed_prod armed_after armed_errors armed_flow armed_write armed_results
  armed_start_ui armed_panic keeps_armed keeps_assign keeps_simple

lemma armed_begin: "stays_armed (beginWelcomeLogin E now turn)"
  unfolding beginWelcomeLogin_def by (intro armed_rules) simp

lemma armed_start_input: "stays_armed (account_start_input E now turn)"
  unfolding account_start_input_def set_mapper_def
proof (rule armed_get, goal_cases)
  case (1 l)
  then show ?case using stays_armedD [OF account.armed_start 1] by (simp add: armed_def QueueInput_def)
qed

lemma armed_confirm_pending: "stays_armed (confirm_pending E now ident approved)"
  unfolding confirm_pending_def run_confirmed_def refuse_confirmation_def by (intro armed_rules)

lemma armed_account_event: "stays_armed (account_on_event E now e)"
proof -
  have "stays_armed (forward_audio E e)" "stays_armed (on_commit E now e)"
    unfolding forward_audio_def on_commit_def by ((intro armed_rules)?, simp_all)+
  moreover from this(1) have "stays_armed (on_audio E (account_start_input E now) e)"
    unfolding on_audio_def by (intro armed_rules armed_start_input) simp_all
  moreover have "stays_armed (account_on_confirm E now e)"
    unfolding account_on_confirm_def refuse_confirmation_def by (intro armed_rules armed_begin armed_confirm_pending)
  ultimately show ?thesis
    unfolding account_on_event_def
    by (intro armed_if armed_errors account.armed_on_cancel account_rotate_arms)
qed

lemma armed_account_finished: "stays_armed (account_on_finished E now i outcome)"
proof -
  have "stays_armed (show_surfaces E j r)" for j r
    unfolding show_surfaces_def by (intro armed_rules)
  moreover have "stays_armed (deliver_result E now j r)" for j r
    unfolding deliver_result_def
    by (intro armed_rules anyway_armed [OF account_rotate_arms]) (simp add: armed_def)
  ultimately show ?thesis
    unfolding account_on_finished_def Let_def by (intro armed_rules)
qed

section \<open>Provider events\<close>

lemma held_more [simp]:
  "held m b (l\<lparr>cc_waitingWelcome := w\<rparr>) = held m b l" "held m b (l\<lparr>cc_uiJobs := xs\<rparr>) = held m b l"
  by (simp_all add: held_def)

lemma keeps_held_basic:
  "keeps (held m b) (act a)" "keeps (held m b) (attempt E)" "keeps (held m b) (session_call E x)"
  "keeps (held m b) (write_event E e)" "keeps (held m b) (start_job j)" "keeps (held m b) panic"
  "keeps (held m b) (stop_session E)"
  by (auto simp: act_def attempt_def write_event_def set_tools_def session_call_def start_job_def panic_def
      stop_session_def held_def intro!: keeps_bind keeps_assign)

lemma keeps_held_welcome: "keeps (held m b) (answer_welcome E now turn said)"
proof -
  have "keeps (held m b) (start_ui_job j)" for j
    unfolding start_ui_job_def by (intro keeps_bind keeps_assign keeps_held_basic keeps_simple) simp
  then have "keeps (held m b) (beginWelcomeLogin E now turn)"
    unfolding beginWelcomeLogin_def
    by (intro keeps_bind keeps_assign keeps_option keeps_prod keeps_held_basic keeps_simple) simp
  then show ?thesis
    unfolding answer_welcome_def by (intro keeps_bind keeps_if keeps_held_basic keeps_simple)
qed

lemma wp_held_observe:
  assumes "held m b l"
  shows "wp (account_observe E now ev) (\<lambda>ok l'. ok \<longrightarrow> held m b l') l"
proof -
  have report: "wp (report_cancelled E now before) (\<lambda>ok l'. ok \<longrightarrow> held m b l') l'" if "held m b l'" for before l'
    unfolding report_cancelled_def
    using that by (auto intro!: wp_mono [OF wp_account_emit] simp: held_def arm_def split: option.split)
  have "wp (after (answer_welcome E now turn said) (report_cancelled E now before)) (\<lambda>ok l'. ok \<longrightarrow> held m b l') l'"
    if "held m b l'" for turn said before l'
    unfolding wp_after using that report by (intro keeps_wp [OF keeps_held_welcome]) auto
  moreover have "held m b (called (rn_lib E) x l)" for x using assms by (simp add: held_def called_def)
  ultimately show ?thesis using assms by (simp add: account_observe_def del: wp_after)
qed

lemma wp_account_heard:
  assumes "account_inv safe (rn_lib E) s0 l" "held m b l" "\<And>l'. Q False l'"
    and k: "\<And>l'. account_inv safe (rn_lib E) s0 l' \<Longrightarrow> held m b l' \<Longrightarrow> wp k Q l'"
  shows "wp (after (hear E cid es) (do { assign (end_utterance ev); after (account_observe E now ev) k })) Q l"
proof -
  let ?J = "\<lambda>l. account_inv safe (rn_lib E) s0 l \<and> held m b l"
  have h: "keeps ?J (hear E cid es)" by (intro keeps_conj keeps_hear keeps_held)
  have ob: "wp (account_observe E now ev) (\<lambda>ok l'. account_inv safe (rn_lib E) s0 l' \<and> (ok \<longrightarrow> held m b l')) l'" if "?J l'" for l'
    by (intro wp_conj keepsD [OF keeps_account_observe] wp_held_observe) (use that in simp_all)
  have a: "keeps ?J (assign (end_utterance ev))"
    by (intro keeps_conj keeps_held keeps_assign) (simp add: agent_inv_utterance)
  have "wp (do { assign (end_utterance ev); after (account_observe E now ev) k }) Q l'" if "?J l'" for l'
    unfolding wp_bind
    by (rule keeps_wp [OF a that], unfold wp_after, rule wp_mono [OF ob], assumption) (use k assms(3) in auto)
  then show ?thesis
    unfolding wp_after using assms(1,2,3) by (intro keeps_wp [OF h]) auto
qed

lemma keeps_mapper_account: "keeps (\<lambda>l. ag_mapper l = m) (account_run_call E now t call v)"
  unfolding account_run_call_def account_plan_def plan_staged_def
  by (intro keeps_bind keeps_prod keeps_after keeps_if keeps_mapper account.keeps_mapper_execute
      account.keeps_mapper_em keeps_simple)

lemma armed_account_call:
  assumes "ev_Type call = ToolStarted"
  shows "stays_armed (account_run_call E now t call v)"
proof -
  have plan: "keeps armed (account_plan E now t call v)"
    unfolding account_plan_def plan_staged_def by (intro keeps_bind keeps_if keeps_armed keeps_simple)
  have "stays_armed (after (account_emit E now [call\<lparr>ev_Tool := Some (v\<lparr>vt_Arguments := []\<rparr>)\<rparr>])
      (execute_call E (account_emit E now) account_result_event t turn j r))" for turn j r
    by (rule account.armed_execute_call) (simp_all add: assms)
  then show ?thesis
    unfolding account_run_call_def by (auto intro!: armed_bind plan split: prod.split)
qed

lemma wp_account_map_armed:
  assumes inv: "account_inv safe (rn_lib E) s0 l" and l: "armed l"
  shows "wp (account_map E now fresh ev) (\<lambda>ok l'. ok \<longrightarrow> armed l') l"
proof -
  obtain m r where map: "MapEvent now fresh ev (ag_mapper l) = (m, r)" by fastforce
  show ?thesis
  proof (cases r)
    case (Inl err)
    then show ?thesis
      by (simp add: account_map_def map set_mapper_def panic_def fail_with_def act_def sendError_def write_event_def attempt_def)
  next
    case (Inr es)
    let ?l = "l\<lparr>ag_mapper := m\<rparr>" and ?to = "ag_turnTimeout l \<noteq> None"
    have I: "account_inv safe (rn_lib E) s0 ?l"
      using any_history.MapEvent_inv [OF inv_mapper [OF inv], of now fresh ev] inv by (simp add: map agent_inv_mapper)
    have held: "held m ?to ?l" by (simp add: held_def)
    have "wp (after (hear E (ne_ContentID ev) es) (do { assign (end_utterance ev); after (account_observe E now ev)
        (if ne_Kind ev = ''toolUse'' then stage E ev es
         else if ne_Kind ev = ''contentEnd'' then end_call (account_emit E now) (account_run_call E now) ev es
         else account_emit E now es) })) (\<lambda>ok l'. ok \<longrightarrow> armed l') ?l"
      by (rule account.wp_mapped_armed [OF inv l map [unfolded Inr] wp_account_heard [OF I held] keeps_mapper_account
            armed_account_call])
    moreover have "wp (account_emit E now es) (\<lambda>ok l'. ok \<longrightarrow> armed l') ?l"
      using arms_MapEvent [of ?to "ag_mapper l" now fresh ev]
      by (intro account.armed_emit_result [OF _ l]) (simp add: map Inr)
    ultimately show ?thesis
      by (simp add: account_map_def map Inr set_mapper_def del: wp_after)
  qed
qed

lemma wp_account_stream_armed:
  assumes "account_inv safe (rn_lib E) s0 l" "armed l"
  shows "wp (account_on_stream E now fresh ev) (\<lambda>ok l'. ok \<longrightarrow> armed l') l"
  using assms wp_account_map_armed [of safe E s0]
  by (simp add: account_on_stream_def account_inv_more)

section \<open>A response ends\<close>

lemma wp_account_step:
  assumes "account_inv safe (rn_lib E) s0 l" "armed l"
  shows "wp (account_step E x) (\<lambda>ok l'. account_inv safe (rn_lib E) s0 l' \<and> (ok \<longrightarrow> armed l')) l"
proof (rule wp_conj)
  obtain now fresh i where x: "x = (now, fresh, i)" using prod_cases3 by blast
  show "wp (account_step E x) (\<lambda>_. account_inv safe (rn_lib E) s0) l"
    unfolding x by (rule keepsD [OF keeps_account_step assms(1)])
  have "stays_armed (account_step E x)" if "\<And>ev. i \<noteq> InStream ev"
    using that unfolding x
    by (cases i) (auto intro!: armed_bind armed_option armed_if armed_flow armed_errors account.armed_on_turn_timeout
        account.armed_on_renew account_rotate_arms armed_account_event armed_account_finished)
  then have "wp (account_step E x) (\<lambda>ok l'. ok \<longrightarrow> armed l') l" if "\<And>ev. i \<noteq> InStream ev"
    using that by (intro stays_armedD [OF _ assms(2)]) blast
  then show "wp (account_step E x) (\<lambda>ok l'. ok \<longrightarrow> armed l') l"
    using wp_account_stream_armed [OF assms] x by (cases "\<exists>ev. i = InStream ev") auto
qed

lemma wp_account_loop:
  "account_inv safe (rn_lib E) s0 l \<Longrightarrow> armed l
     \<Longrightarrow> wp (account_loop E xs) (\<lambda>ok l'. account_inv safe (rn_lib E) s0 l' \<and> (ok \<longrightarrow> armed l')) l"
proof (induction xs arbitrary: l)
  case (Cons x xs)
  show ?case
    unfolding account_loop_def each.simps wp_after
    by (rule wp_mono [OF wp_account_step [OF Cons.prems]]) (use Cons.IH in \<open>auto simp: account_loop_def\<close>)
qed (simp add: account_loop_def)

lemma armed_open: "stays_armed (open_account E now)"
proof -
  have "stays_armed (greet E now)"
    unfolding greet_def
  proof (rule armed_get, goal_cases)
    case (1 l)
    obtain m es where r: "StartAssistant now (openingTurn E) (ag_mapper l) = (m, es)" by fastforce
    have "arms_result (ag_turnTimeout l \<noteq> None) (ag_mapper l) (m, es)"
      using r by (auto simp: StartAssistant_def Let_def arms_result_def arm_def mapper_state_def turn_event_def)
    then show ?case by (simp add: r set_mapper_def account.armed_emit_result 1)
  qed
  then show ?thesis unfolding open_account_def by (intro armed_rules armed_each)
qed

lemma account_timeout_ends:
  "ag_turnTimeout l = Some d \<Longrightarrow> d \<le> now \<Longrightarrow> wp (account_step E (now, fresh, InTurnTimeout)) (\<lambda>ok _. \<not> ok) l"
proof -
  assume l: "ag_turnTimeout l = Some d" "d \<le> now"
  have "wp (on_turn_timeout E (account_emit E now)) (\<lambda>ok _. \<not> ok) l"
    unfolding on_turn_timeout_def fail_with_def wp_after wp_bind by (simp add: wp_run leave_def)
  then show ?thesis using l by simp
qed

text \<open>
  A response of the account agent never runs for ever, its greeting included: whenever a session
  that goes on responds, a deadline is running, and once the turn timer fires at that deadline or later
  the session ends, whatever was to follow.
\<close>
theorem account_response_ends:
  "case run_state (after (open_account E now) (account_loop E ticks)) (account_start E now (new_tools s0 ev sid)) of (going, l) \<Rightarrow>
     if going \<and> mp_State (ag_mapper l) = Responding
     then (case ag_turnTimeout l of None \<Rightarrow> False
       | Some d \<Rightarrow> \<not> fst (run_state (account_loop E ((max d at, fresh, InTurnTimeout) # rest)) l))
     else True"
proof -
  let ?l = "account_start E now (new_tools s0 ev sid)" and ?I = "account_inv False (rn_lib E) s0"
  obtain going l where run: "run_state (after (open_account E now) (account_loop E ticks)) ?l = (going, l)"
    by fastforce
  have "armed ?l" by (simp add: armed_def account_start_def NewMapper_def)
  then have "wp (open_account E now) (\<lambda>ok l'. ?I l' \<and> (ok \<longrightarrow> armed l')) ?l"
    by (intro wp_conj keepsD [OF keeps_open_account] account_inv_start stays_armedD [OF armed_open])
  then have "wp (after (open_account E now) (account_loop E ticks)) (\<lambda>ok l'. ok \<longrightarrow> armed l') ?l"
    unfolding wp_after by (elim wp_mono) (auto intro: wp_mono [OF wp_account_loop])
  then have armed: "going \<longrightarrow> armed l" by (simp only: wp_run run fst_conv snd_conv)
  have "\<not> fst (run_state (account_loop E ((max d at, fresh, InTurnTimeout) # rest)) l)" if "ag_turnTimeout l = Some d" for d
  proof -
    have "wp (account_loop E ((max d at, fresh, InTurnTimeout) # rest)) (\<lambda>ok _. \<not> ok) l"
      unfolding account_loop_def each.simps wp_after
      by (rule wp_mono [OF account_timeout_ends [OF that]]) simp_all
    then show ?thesis by (simp add: wp_run)
  qed
  then show ?thesis using armed by (auto simp: run armed_def split: option.split)
qed

end
