(* ===== verification/Account_Login.thy ===== *)
theory Account_Login
  imports Account_Timer
begin

text \<open>
  Who may begin a login (\<open>Account_Runtime\<close>): the session itself, once, after the user has accepted the
  invitation by voice or in the application. Most blocks are \<open>calm\<close>: they make no such call and
  leave the invitation as it is. The provider is refused the call, and a confirmed operation is never
  a login, since only tools whose policy is \<open>confirm_later\<close> are confirmed.
\<close>

section \<open>Calls and answers\<close>

text \<open>A call for a job that begins a login; the user's words that accept; the application's answer.\<close>
definition login_plan :: "orch_op \<Rightarrow> bool" where
  "login_plan x \<longleftrightarrow> (case x of OpPlan now ident name turn args \<Rightarrow> name = ''identity_begin_login'' | _ \<Rightarrow> False)"

definition agreed_aloud :: "uctab \<Rightarrow> orch_op \<Rightarrow> bool" where
  "agreed_aloud u x \<longleftrightarrow> (case x of OpObserve now turn said \<Rightarrow> welcomeAnswer u said = 1 | _ \<Rightarrow> False)"

definition agreed_in_app :: "agent_input \<Rightarrow> bool" where
  "agreed_in_app i \<longleftrightarrow> (case i of
       InEvent e \<Rightarrow> ev_Type e = ToolConfirm \<and> (case ev_Tool e of None \<Rightarrow> False
         | Some v \<Rightarrow> vt_OperationID v = welcomeOperation \<and> vt_Approved v = Some True)
     | _ \<Rightarrow> False)"

definition aloud_first :: "uctab \<Rightarrow> orch_op list \<Rightarrow> bool" where
  "aloud_first u xs = list_ex (agreed_aloud u) (takeWhile (\<lambda>x. \<not> login_plan x) xs)"

definition logins :: "orch_op list \<Rightarrow> nat" where
  "logins xs = length (filter login_plan xs)"

lemma logins_append [simp]: "logins (xs @ ys) = logins xs + logins ys"
  by (simp add: logins_def)

lemma logins_simps [simp]:
  "logins [] = 0" "logins (x # xs) = (if login_plan x then Suc (logins xs) else logins xs)"
  by (simp_all add: logins_def)

lemma login_plan_simps [simp]:
  "login_plan (OpPlan now ident name turn args) \<longleftrightarrow> name = ''identity_begin_login''"
  "\<not> login_plan (OpObserve now turn said)" "\<not> login_plan (OpConfirm now ident ok)" "\<not> login_plan OpInterrupt"
  "\<not> login_plan (OpComplete j r)"
  by (simp_all add: login_plan_def)

lemma aloud_append: "aloud_first u xs \<Longrightarrow> aloud_first u (xs @ ys)"
proof -
  assume "aloud_first u xs"
  moreover have "\<exists>zs. takeWhile P (xs @ ys) = takeWhile P xs @ zs" for P :: "orch_op \<Rightarrow> bool"
    by (induction xs) auto
  then obtain zs where "takeWhile (\<lambda>x. \<not> login_plan x) (xs @ ys) = takeWhile (\<lambda>x. \<not> login_plan x) xs @ zs" by blast
  ultimately show ?thesis by (simp add: aloud_first_def)
qed

lemma aloud_now: "logins xs = 0 \<Longrightarrow> agreed_aloud u x \<Longrightarrow> \<not> login_plan x \<Longrightarrow> aloud_first u (xs @ [x])"
  by (simp add: aloud_first_def logins_def filter_empty_conv takeWhile_append2)

section \<open>The invariant\<close>

text \<open>At most one login, none while the invitation waits or in a session that is logged in.\<close>
definition login_ok :: "'sch account_env \<Rightarrow> bool \<Rightarrow> 'sch account \<Rightarrow> bool" where
  "login_ok E app l \<longleftrightarrow> (let xs = calls_of (ag_trace l) in
     logins xs + (if cc_waitingWelcome l then 1 else 0) \<le> (if ce_authenticated E then 0 else 1)
     \<and> (logins xs = 0 \<or> app \<or> aloud_first (unicode (rn_lib E)) xs))"

text \<open>What a block does that has nothing to do with the login.\<close>
definition calm :: "'sch account \<Rightarrow> 'sch account \<Rightarrow> bool" where
  "calm l l' \<longleftrightarrow> cc_waitingWelcome l' = cc_waitingWelcome l
     \<and> (\<exists>xs. calls_of (ag_trace l') = calls_of (ag_trace l) @ xs \<and> logins xs = 0)"

lemma calm_refl [simp]: "calm l l"
  by (auto simp: calm_def)

lemma calm_login: "login_ok E app l \<Longrightarrow> calm l l' \<Longrightarrow> login_ok E app l'"
  by (auto simp: login_ok_def calm_def Let_def aloud_append)

lemma calm_wp: "(\<And>l0. keeps (calm l0) m) \<Longrightarrow> (\<And>x l'. calm l l' \<Longrightarrow> Q x l') \<Longrightarrow> wp m Q l"
  by (rule keeps_wp [where I = "calm l"]) auto

lemma calm_same:
  "calm l l' \<Longrightarrow> cc_waitingWelcome l'' = cc_waitingWelcome l' \<Longrightarrow> ag_trace l'' = ag_trace l' \<Longrightarrow> calm l l''"
  by (simp add: calm_def)

lemma calm_assign:
  "(\<And>l. cc_waitingWelcome (f l) = cc_waitingWelcome l \<and> ag_trace (f l) = ag_trace l) \<Longrightarrow> keeps (calm l0) (assign f)"
  by (rule keeps_assign) (simp add: calm_def)

lemma calm_act: "(case a of Called x \<Rightarrow> \<not> login_plan x | _ \<Rightarrow> True) \<Longrightarrow> keeps (calm l0) (act a)"
  unfolding act_def by (rule keeps_assign) (cases a; force simp: calm_def)

lemma calm_call: "\<not> login_plan x \<Longrightarrow> keeps (calm l0) (session_call E x)"
  by (rule keepsI) (force simp: calm_def called_def)

lemmas calm_rules = keeps_bind keeps_after keeps_if keeps_option keeps_prod keeps_each keeps_simple calm_assign calm_act calm_call

section \<open>Calm blocks\<close>

lemma calm_output:
  "keeps (calm l0) (attempt E)" "keeps (calm l0) (write_event E e)" "keeps (calm l0) panic"
  "keeps (calm l0) (sendError E c msg)" "keeps (calm l0) (fail_with E c msg)" "keeps (calm l0) (refuse E c msg)"
  "keeps (calm l0) (stop_session E)" "keeps (calm l0) (evidenceResult E t j r)" "keeps (calm l0) (send_result E i r)"
  unfolding attempt_def write_event_def panic_def sendError_def fail_with_def refuse_def stop_session_def
    evidenceResult_def send_result_def
  by (intro calm_rules; simp)+

lemma calm_state:
  "keeps (calm l0) (set_tools f)" "keeps (calm l0) (set_mapper m)" "keeps (calm l0) (start_job j)"
  unfolding set_tools_def set_mapper_def start_job_def by (intro calm_rules; simp)+

lemma calm_emit: "keeps (calm l0) (account_emit E now es)"
  unfolding account_emit_def account_emit_one_def emit_one_def
  by (intro calm_rules calm_output) simp_all

lemma calm_rotate: "keeps (calm l0) (account_rotate E now)"
  unfolding account_rotate_def reopen_def by (intro calm_rules calm_output calm_state) simp_all

lemmas calm_blocks = calm_rules calm_output calm_state calm_emit calm_rotate

lemma calm_moves:
  "keeps (calm l0) (emit_interrupt (account_emit E now))" "keeps (calm l0) (emit_start (account_emit E now) now turn)"
  "keeps (calm l0) (forward_audio E e)" "keeps (calm l0) (on_commit E now e)"
  "keeps (calm l0) (account_start_input E now turn)" "keeps (calm l0) (try_later now)"
  unfolding emit_interrupt_def emit_start_def forward_audio_def on_commit_def account_start_input_def try_later_def
  by (intro calm_blocks; simp)+

lemma calm_events:
  "keeps (calm l0) (on_audio E (account_start_input E now) e)"
  "keeps (calm l0) (on_cancel E (account_emit E now) (account_rotate E now) e)"
  "keeps (calm l0) (on_renew E (account_emit E now) (account_rotate E now) now)"
  "keeps (calm l0) (on_turn_timeout E (account_emit E now))"
  "keeps (calm l0) (account_on_finished E now i outcome)"
  unfolding on_audio_def on_cancel_def on_renew_def on_turn_timeout_def account_on_finished_def show_surfaces_def
    deliver_result_def Let_def
  by (intro calm_blocks calm_moves; simp)+

section \<open>What may be pending\<close>

text \<open>Only a tool whose policy is \<open>confirm_later\<close> is ever pending.\<close>
definition pending_asks :: "'sch orch \<Rightarrow> bool" where
  "pending_asks s \<longleftrightarrow> (case or_Pending s of None \<Rightarrow> True
     | Some p \<Rightarrow> list_ex (\<lambda>(n, b). bd_policy b = ConfirmLater \<and> tl_Name (bd_tool b) = pd_Name p) (or_tools s))"

lemma plan_counted_pending:
  assumes "or_Pending (fst (plan_counted L now name b j s)) = Some p"
  shows "or_Pending s = Some p \<or> (bd_policy b = ConfirmLater \<and> pd_Name p = jb_Name j)"
proof (cases "bd_policy b = ConfirmLater")
  case True
  show ?thesis
    using assms by (cases L now name b j s rule: plan_counted_cases) (auto simp: True asked_def)
next
  case False
  then show ?thesis using assms by (auto simp: plan_counted_def plan_fail_def split: if_splits)
qed

lemma pending_asks_step: "pending_asks s \<Longrightarrow> pending_asks (orch_step L s x)"
proof (cases x)
  case (OpPlan now ident name turn args)
  assume s: "pending_asks s"
  have tools: "or_tools (orch_step L s x) = or_tools s" using same_tools_step [of s L x] by (simp add: same_tools_def)
  have "or_Pending s = Some p \<or> (\<exists>b. gget (or_tools s) name = Some b \<and> bd_policy b = ConfirmLater \<and> pd_Name p = tl_Name (bd_tool b))"
    if p: "or_Pending (orch_step L s x) = Some p" for p
  proof (cases L now ident name turn args s rule: Plan_cases)
    case (refused j r)
    then show ?thesis using p by (simp add: OpPlan)
  next
    case (counted b)
    then show ?thesis using p by (auto simp: OpPlan dest!: plan_counted_pending)
  qed
  then show ?thesis
    using s by (fastforce simp: pending_asks_def tools list_ex_iff split: option.split dest: map_of_SomeD)
next
  case (OpObserve now turn said)
  then show "pending_asks s \<Longrightarrow> ?thesis"
    by (auto simp: pending_asks_def ObserveUser_def Let_def split: option.splits)
next
  case (OpConfirm now oper ok)
  then show "pending_asks s \<Longrightarrow> ?thesis"
    by (auto simp: pending_asks_def Confirm_def split: option.splits)
qed (auto simp: pending_asks_def Interrupt_def Complete_frame Complete_frame(1) [unfolded same_tools_def] split: option.splits)

interpretation asking: machine "orch_step L" pending_asks for L
  by unfold_locales (rule pending_asks_step)

text \<open>A tool set where a login needs no confirmation.\<close>
definition login_direct :: "'sch orch \<Rightarrow> bool" where
  "login_direct s \<longleftrightarrow> orch_wf s \<and> or_Pending s = None
     \<and> (case gget (or_tools s) ''identity_begin_login'' of None \<Rightarrow> True | Some b \<Rightarrow> bd_policy b \<noteq> ConfirmLater)"

lemma confirmed_not_login:
  assumes "login_direct s0" "or_Pending (orch_run L s0 xs) = Some p"
  shows "replace_byte CHR ''.'' CHR ''_'' (pd_Name p) \<noteq> ''identity_begin_login''"
proof
  assume name: "replace_byte CHR ''.'' CHR ''_'' (pd_Name p) = ''identity_begin_login''"
  have "pending_asks s0" using assms(1) by (simp add: login_direct_def pending_asks_def)
  then have "pending_asks (orch_run L s0 xs)" by (rule asking.run_inv)
  moreover have wf: "orch_wf (orch_run L s0 xs)" using assms(1) by (intro bindings.run_inv) (simp add: login_direct_def)
  moreover have tools: "or_tools (orch_run L s0 xs) = or_tools s0"
    by (induction xs rule: rev_induct) (auto simp: same_tools_step [unfolded same_tools_def])
  ultimately obtain n b where b: "(n, b) \<in> set (or_tools s0)" "bd_policy b = ConfirmLater" "tl_Name (bd_tool b) = pd_Name p"
    using assms(2) by (auto simp: pending_asks_def list_ex_iff)
  then have "model_name (pd_Name p) = n" using wf tools by (auto simp: orch_wf_def list_all_iff)
  then have "n = ''identity_begin_login''" by (simp add: model_name_def name) (simp add: replace_byte_def)
  then have "gget (or_tools s0) ''identity_begin_login'' = Some b"
    using b(1) wf tools by (simp add: orch_wf_def gwf_def)
  then show False using assms(1) b(2) by (simp add: login_direct_def)
qed

section \<open>Every block keeps it\<close>

abbreviation login_inv :: "'sch account_env \<Rightarrow> 'sch orch \<Rightarrow> bool \<Rightarrow> 'sch account \<Rightarrow> bool" where
  "login_inv E s0 app \<equiv> \<lambda>l. account_inv True (rn_lib E) s0 l \<and> login_ok E app l"

lemma keeps_login_calm: "(\<And>l0. keeps (calm l0) m) \<Longrightarrow> keeps (login_ok E app) m"
  by (rule keepsI) (blast intro: calm_wp calm_login)

lemma keeps_login_inv: "keeps (account_inv True (rn_lib E) s0) m \<Longrightarrow> (\<And>l0. keeps (calm l0) m) \<Longrightarrow> keeps (login_inv E s0 app) m"
  by (intro keeps_conj keeps_login_calm)

text \<open>The session's own login: the invitation waits, and the user has just agreed.\<close>
lemma wp_begin_login:
  assumes "login_ok E app l" "cc_waitingWelcome l" "app \<or> aloud_first (unicode (rn_lib E)) (calls_of (ag_trace l))"
  shows "wp (beginWelcomeLogin E now turn) (\<lambda>_. login_ok E app) l"
proof (cases "ag_tools l")
  case None
  have "wp panic (\<lambda>_. login_ok E app) (l\<lparr>cc_waitingWelcome := False\<rparr>)"
    by (rule calm_wp, rule calm_output, erule calm_login [rotated]) (use assms in \<open>auto simp: login_ok_def Let_def\<close>)
  then show ?thesis by (simp add: beginWelcomeLogin_def None)
next
  case (Some t)
  let ?l = "called (rn_lib E) (OpPlan now welcomeOperation ''identity_begin_login'' turn ''{}'') (l\<lparr>cc_waitingWelcome := False\<rparr>)"
  have l: "login_ok E app ?l" using assms by (auto simp: login_ok_def called_def Let_def aloud_append)
  have "keeps (calm l0) (start_ui_job j)" for l0 j
    unfolding start_ui_job_def by (intro calm_blocks) simp
  then have "wp (start_ui_job j) (\<lambda>_. login_ok E app) ?l" for j
    by (intro keepsD keeps_login_calm l)
  moreover have "wp (write_event E e) (\<lambda>_. login_ok E app) ?l" for e
    by (intro keepsD keeps_login_calm l calm_output)
  ultimately show ?thesis
    by (simp add: beginWelcomeLogin_def Some split: prod.split option.split)
qed

lemma keeps_login_observe: "keeps (login_ok E app) (account_observe E now ev)"
proof (rule keepsI, goal_cases)
  case (1 l)
  let ?x = "\<lambda>turn said. OpObserve now turn said"
  have report: "wp (report_cancelled E now before) (\<lambda>_. login_ok E app) l'" if "login_ok E app l'" for before l'
    by (rule keepsD [OF keeps_login_calm that]) (unfold report_cancelled_def, intro calm_blocks)
  have "wp (answer_welcome E now turn said) (\<lambda>_. login_ok E app) (called (rn_lib E) (?x turn said) l)" for turn said
  proof -
    let ?l = "called (rn_lib E) (?x turn said) l"
    have l: "login_ok E app ?l" by (rule calm_login [OF 1]) (force simp: calm_def called_def)
    have "wp (beginWelcomeLogin E now turn) (\<lambda>_. login_ok E app) ?l"
      if "cc_waitingWelcome ?l" "welcomeAnswer (unicode (rn_lib E)) said = 1"
    proof (rule wp_begin_login [OF l that(1)], rule disjI2)
      have "logins (calls_of (ag_trace l)) = 0" using 1 that(1) by (auto simp: login_ok_def called_def Let_def split: if_splits)
      then show "aloud_first (unicode (rn_lib E)) (calls_of (ag_trace ?l))"
        using that(2) by (simp add: called_def aloud_now agreed_aloud_def)
    qed
    moreover have "wp (stop_session E) (\<lambda>_. login_ok E app) ?l"
      by (rule keepsD [OF keeps_login_calm l]) (rule calm_output)
    ultimately show ?thesis using l by (simp add: answer_welcome_def)
  qed
  then have "wp (after (answer_welcome E now turn said) (report_cancelled E now before)) (\<lambda>_. login_ok E app)
      (called (rn_lib E) (?x turn said) l)" for turn said before
    unfolding wp_after by (rule wp_mono) (auto intro: report)
  then show ?case using 1 by (simp add: account_observe_def del: wp_after)
qed

text \<open>A confirmed operation is planned under another name.\<close>
lemma keeps_login_pending:
  assumes "login_direct s0"
  shows "keeps (login_inv E s0 app) (confirm_pending E now ident approved)"
proof (rule keepsI, rule wp_conj, goal_cases)
  case (1 l)
  then show ?case by (intro keepsD [OF keeps_confirm_pending]) simp
next
  case (2 l)
  obtain t where t: "ag_tools l = Some t" using inv_tools [of True "rn_lib E" s0 l] 2 by auto
  let ?x = "OpConfirm now ident approved"
  have s: "tn_session t = orch_run (rn_lib E) s0 (calls_of (ag_trace l))"
    using 2 t by (simp add: agent_inv_def session_ok_def)
  have l: "login_ok E app (called (rn_lib E) ?x l)"
    by (rule calm_login [of E app l]) (use 2 in \<open>auto simp: calm_def called_def\<close>)
  have "wp (run_confirmed E now s p) (\<lambda>_. login_ok E app) (called (rn_lib E) ?x l)"
    if "or_Pending (tn_session t) = Some p" for s p
  proof (intro keepsD [OF keeps_login_calm l])
    fix l0 :: "'a account"
    have "replace_byte CHR ''.'' CHR ''_'' (pd_Name p) \<noteq> ''identity_begin_login''"
      by (rule confirmed_not_login [OF assms that [unfolded s]])
    then show "keeps (calm l0) (run_confirmed E now s p)"
      unfolding run_confirmed_def start_ui_job_def by (intro calm_blocks) simp_all
  qed
  moreover have "wp (refuse_confirmation E) (\<lambda>_. login_ok E app) l'" if "login_ok E app l'" for l'
    unfolding refuse_confirmation_def by (intro keepsD [OF keeps_login_calm that] calm_output)
  moreover have "wp (account_emit E now es) (\<lambda>_. login_ok E app) (called (rn_lib E) ?x l)" for es
    by (intro keepsD [OF keeps_login_calm l] calm_emit)
  ultimately show ?case
    using 2 l by (cases approved) (simp_all add: confirm_pending_def t split: option.split prod.split)
qed

lemma keeps_login_event:
  assumes "login_direct s0" "agreed_in_app (InEvent e) \<Longrightarrow> app"
  shows "keeps (login_inv E s0 app) (account_on_event E now e)"
proof -
  have stop: "keeps (login_inv E s0 app) (stop_session E)" "keeps (login_inv E s0 app) (refuse E c m)" for c m
    by (intro keeps_login_inv keeps_fail calm_output)+
  have agree: "wp (beginWelcomeLogin E now turn) (\<lambda>_. login_inv E s0 app) l"
    if "login_inv E s0 app l" "cc_waitingWelcome l" app for l turn
    using that by (intro wp_conj keepsD [OF keeps_begin] wp_begin_login) auto
  have "keeps (login_inv E s0 app) (account_on_confirm E now e)" if "ev_Type e = ToolConfirm"
    unfolding account_on_confirm_def refuse_confirmation_def
  proof (intro keeps_option stop, rule keepsI, goal_cases)
    case (1 v approved l)
    have app if "vt_OperationID v = welcomeOperation" approved
      using assms(2) 1(1,2) that \<open>ev_Type e = ToolConfirm\<close> by (auto simp: agreed_in_app_def)
    then show ?case
      using 1 agree [of l] keepsD [OF stop(1) 1(3)] keepsD [OF keeps_login_pending [OF assms(1)] 1(3)]
      by auto
  qed
  moreover have "keeps (login_inv E s0 app) (on_audio E (account_start_input E now) e)"
    "keeps (login_inv E s0 app) (on_commit E now e)"
    "keeps (login_inv E s0 app) (on_cancel E (account_emit E now) (account_rotate E now) e)"
    by (intro keeps_login_inv keeps_on_audio keeps_start_input keeps_on_commit account.keeps_on_cancel
        keeps_account_rotate calm_events calm_moves)+
  ultimately show ?thesis
    unfolding account_on_event_def by (intro keeps_if stop)
qed

section \<open>Provider events\<close>

lemma calm_run_call: "keeps (calm l0) (account_run_call E now t call v)"
proof -
  have "keeps (calm l0) (account_plan E now t call v)"
  proof (rule keepsI, goal_cases)
    case (1 l)
    have "keeps (calm l0) (plan_staged E now t call v)" if "vt_Name v \<noteq> ''identity_begin_login''"
      using that unfolding plan_staged_def by (intro calm_blocks) simp
    moreover have "wp (plan_staged E now t call v) (\<lambda>_. calm l0) l" if "ev_Code call = ''turn_cancelled'' \<or> ev_TurnID call \<noteq> mp_TurnID (ag_mapper l)"
      using that 1 by (auto simp: plan_staged_def)
    ultimately show ?case using 1 by (auto simp: account_plan_def intro: keepsD)
  qed
  then show ?thesis
    unfolding account_run_call_def execute_call_def answer_now_def ask_confirmation_def
    by (intro calm_blocks)
qed

lemma keeps_login_map: "keeps (login_ok E app) (account_map E now fresh ev)"
proof -
  have "keeps (calm l0) (end_call (account_emit E now) (account_run_call E now) ev es)" "keeps (calm l0) (stage E ev es)"
    "keeps (calm l0) (hear E cid es)" for l0 es cid
    unfolding end_call_def stage_def hear_def hear_one_def by (intro calm_blocks calm_run_call; simp)+
  moreover have "keeps (calm l0) (assign (end_utterance ev))" for l0 :: "'a account"
    by (rule calm_assign) (simp add: end_utterance_def Let_def split: option.split)
  ultimately show ?thesis
    unfolding account_map_def
    by (intro keeps_bind keeps_after keeps_if keeps_sum keeps_login_observe keeps_simple)
      (auto intro!: keeps_login_calm calm_output calm_state calm_emit keeps_if)
qed

lemma keeps_login_stream: "keeps (login_ok E app) (account_on_stream E now fresh ev)"
  unfolding account_on_stream_def
  by (intro keeps_bind keeps_if keeps_simple keeps_login_map keeps_login_calm calm_assign; simp)

section \<open>The loop\<close>

lemma calm_step:
  assumes "\<And>e. i \<noteq> InEvent e" "\<And>ev. i \<noteq> InStream ev"
  shows "keeps (calm l0) (account_step E (now, fresh, i))"
  using assms by (cases i) (auto intro!: keeps_bind keeps_option keeps_if calm_output calm_events)

lemma keeps_login_step:
  assumes "login_direct s0" "agreed_in_app i \<Longrightarrow> app"
  shows "keeps (login_inv E s0 app) (account_step E (now, fresh, i))"
proof (cases "\<exists>e. i = InEvent e")
  case True
  then show ?thesis using keeps_login_event [OF assms(1)] assms(2) by auto
next
  case False
  have "keeps (login_inv E s0 app) (account_on_stream E now fresh ev)" for ev
    by (intro keeps_conj keeps_account_stream keeps_login_stream)
  moreover have "keeps (login_inv E s0 app) (account_step E (now, fresh, i))" if "\<And>ev. i \<noteq> InStream ev"
    using that False by (intro keeps_login_inv keeps_account_step calm_step) auto
  ultimately show ?thesis by (cases "\<exists>ev. i = InStream ev") auto
qed

lemma keeps_login_loop:
  assumes "login_direct s0" "list_ex (\<lambda>(_, _, i). agreed_in_app i) ticks \<Longrightarrow> app"
  shows "keeps (login_inv E s0 app) (account_loop E ticks)"
  unfolding account_loop_def
proof (rule keeps_each)
  fix x
  assume x: "x \<in> set ticks"
  obtain now fresh i where t: "x = (now, fresh, i)" using prod_cases3 by blast
  show "keeps (login_inv E s0 app) (account_step E x)"
    unfolding t using assms x by (intro keeps_login_step) (auto simp: list_ex_iff t)
qed

lemma keeps_login_run:
  assumes "login_direct s0" "list_ex (\<lambda>(_, _, i). agreed_in_app i) ticks \<Longrightarrow> app"
  shows "keeps (login_inv E s0 app) (account_run E now (Inr t) opened ticks)"
proof -
  have "keeps (calm l0) (open_account E now)" for l0
    unfolding open_account_def greet_def by (intro calm_blocks; simp)
  then have greeted: "keeps (login_inv E s0 app) (open_account E now)"
    by (intro keeps_login_inv keeps_open_account)
  have acts: "keeps (login_inv E s0 app) (act (OpenedStream prompt []))" "keeps (login_inv E s0 app) (fail_with E c m)" for prompt c m
    by (intro keeps_login_inv keeps_opened calm_act keeps_fail calm_output; simp)+
  have deferred: "keeps (login_inv E s0 app) (deferred m a)" if "keeps (login_inv E s0 app) m" "output_act a" for m a
  proof -
    have "keeps (login_inv E s0 app) (act a)"
      using that(2) by (intro keeps_login_inv silent_keeps silent_act calm_act) (simp_all add: output_act_def split: agent_act.splits)
    then show ?thesis unfolding deferred_def by (intro keeps_bind keeps_if keeps_simple that(1))
  qed
  show ?thesis
    unfolding account_run_def sum.case
    by (intro deferred keeps_option keeps_bind keeps_after greeted acts keeps_login_loop assms(1) output_act_simps) (erule assms(2))
qed

section \<open>The tools of the account\<close>

text \<open>The catalog gives each tool the name its policy is under.\<close>
definition named_tools :: "account_mcp \<Rightarrow> bool" where
  "named_tools b \<longleftrightarrow> list_all (\<lambda>t. tl_OriginalName t = tl_Name t) (mc_tools b)"

lemma rpc_tools: "rpc answer method params target b = (b', r) \<Longrightarrow> mc_tools b' = mc_tools b \<and> mc_routes b' = mc_routes b
    \<and> mc_codecs b' = mc_codecs b \<and> mc_identity b' = mc_identity b"
  by (auto simp: rpc_def Let_def split: http_outcome.splits if_splits)

lemma catalog_policies_named: "catalog_policies t ps b = Inr b' \<Longrightarrow> named_tools b \<Longrightarrow> named_tools b'"
proof (induction t ps b rule: catalog_policies.induct)
  case (2 remote original p ps b)
  then show ?case by (auto simp: named_tools_def split: if_splits option.splits)
qed simp

lemma catalog_tools_named: "catalog_tools ts b = Inr b' \<Longrightarrow> named_tools b \<Longrightarrow> named_tools b'"
  by (induction ts arbitrary: b) (auto simp: checked_Inr dest: catalog_policies_named)

lemma rpc_then_Inr:
  "rpc_then (rpc answer method params target b) f = Inr x \<Longrightarrow> \<exists>b' raw. f b' raw = Inr x \<and> mc_tools b' = mc_tools b
     \<and> mc_routes b' = mc_routes b \<and> mc_codecs b' = mc_codecs b \<and> mc_identity b' = mc_identity b"
  by (cases "rpc answer method params target b") (auto simp: rpc_then_def checked_Inr dest!: rpc_tools)

lemma NewMCP_catalog:
  assumes "NewMCP answer c p = Inr b"
  obtains b0 listing identity profile where "catalog_tools listing b0 = Inr b" "mc_tools b0 = []" "mc_routes b0 = []"
    "mc_identity b0 = account_identity p" "length (mc_routes b) = length account_policies"
    "mc_codecs b0 = [(''identity'', identity), (''profile'', profile)]"
    "NewEnvelopeCodec (acf_MCPContextSecret c) ''identity'' = Inr identity"
    "NewEnvelopeCodec (acf_MCPContextSecret c) ''profile'' = Inr profile"
proof -
  obtain identity profile where codecs: "NewEnvelopeCodec (acf_MCPContextSecret c) ''identity'' = Inr identity"
      "NewEnvelopeCodec (acf_MCPContextSecret c) ''profile'' = Inr profile"
    using assms unfolding NewMCP_def checked_Inr by blast
  obtain b1 raw1 where b1: "mc_tools b1 = []" "mc_routes b1 = []" "mc_identity b1 = account_identity p"
      "mc_codecs b1 = [(''identity'', identity), (''profile'', profile)]"
    and "(case unmarshal [string_field ''protocolVersion'' (\<lambda>v x. v)] [] raw1 of
       None \<Rightarrow> Inl ''json''
     | Some version \<Rightarrow>
         if version \<noteq> ''2025-06-18'' \<and> version \<noteq> ''2025-11-25'' then Inl ''unsupported MCP protocol''
         else
           rpc_then (rpc answer ''notifications/initialized'' None False (b1\<lparr>mc_protocol := version\<rparr>)) (\<lambda>b _.
           rpc_then (rpc answer ''tools/list'' (Some (obj_text [])) True b) (\<lambda>b raw.
           case unmarshal [list_field ''tools'' tool_decode_fields zero_mcp_tool (\<lambda>x. x) (\<lambda>v x. v)] [] raw of
             None \<Rightarrow> Inl ''json''
           | Some listing \<Rightarrow>
               checked (catalog_tools listing b) (\<lambda>b.
                 if length (mc_routes b) \<noteq> length account_policies
                 then Inl (''account tool catalog incomplete: ['' @ join_space (map tl_Name listing) @ '']'')
                 else Inr b)))) = Inr b"
    using assms by (auto simp: NewMCP_def checked_Inr codecs dest!: rpc_then_Inr)
  then obtain version where "rpc_then (rpc answer ''notifications/initialized'' None False (b1\<lparr>mc_protocol := version\<rparr>)) (\<lambda>b _.
           rpc_then (rpc answer ''tools/list'' (Some (obj_text [])) True b) (\<lambda>b raw.
           case unmarshal [list_field ''tools'' tool_decode_fields zero_mcp_tool (\<lambda>x. x) (\<lambda>v x. v)] [] raw of
             None \<Rightarrow> Inl ''json''
           | Some listing \<Rightarrow>
               checked (catalog_tools listing b) (\<lambda>b.
                 if length (mc_routes b) \<noteq> length account_policies
                 then Inl (''account tool catalog incomplete: ['' @ join_space (map tl_Name listing) @ '']'')
                 else Inr b))) = Inr b"
    by (auto split: option.splits if_splits)
  then obtain b2 listing where "catalog_tools listing b2 = Inr b" "length (mc_routes b) = length account_policies"
      "mc_tools b2 = []" "mc_routes b2 = []" "mc_identity b2 = account_identity p"
      "mc_codecs b2 = [(''identity'', identity), (''profile'', profile)]"
    by (auto simp: checked_Inr b1 dest!: rpc_then_Inr split: option.splits if_splits)
  then show ?thesis using codecs that by blast
qed

lemma NewMCP_named: "NewMCP answer c p = Inr b \<Longrightarrow> named_tools b"
  by (erule NewMCP_catalog, erule catalog_tools_named) (simp add: named_tools_def)

lemma probe_tools: "probe mac L answer now key canary b = (b', r) \<Longrightarrow> mc_tools b' = mc_tools b \<and> mc_routes b' = mc_routes b
    \<and> mc_codecs b' = mc_codecs b \<and> mc_identity b' = mc_identity b"
  by (auto simp: probe_def split: option.splits sum.splits prod.splits if_splits dest!: rpc_tools)

lemma OpenAccount_opened:
  assumes "OpenAccount mac L answer w now later c start p = Inr (b, prompt)"
  obtains b0 where "NewMCP answer c p = Inr b0" "mc_tools b = mc_tools b0" "mc_routes b = mc_routes b0"
    "mc_codecs b = mc_codecs b0" "mc_identity b = mc_identity b0"
proof -
  obtain b0 where new: "NewMCP answer c p = Inr b0"
    and rest: "(case VerifyGuardrails mac L answer now later b0 of
          (_, Some err) \<Rightarrow> Inl err
        | (b', None) \<Rightarrow>
            if acf_Provider c = ''fake'' then Inr (b', None)
            else (case ValidateAccount w c of
                Some err \<Rightarrow> Inl err
              | None \<Rightarrow> checked (LoadAccountPrompt w (acf_PromptFile c)) (\<lambda>prompt. Inr (b', Some prompt)))) = Inr (b, prompt)"
    using assms unfolding OpenAccount_def by (auto simp only: checked_Inr split: if_splits)
  have b0: "NewMCP answer c p = Inr b0" "VerifyGuardrails mac L answer now later b0 = (b, None)"
    using new rest by (cases "VerifyGuardrails mac L answer now later b0"; auto simp: checked_Inr split: option.splits if_splits)+
  then have "mc_tools b = mc_tools b0 \<and> mc_routes b = mc_routes b0 \<and> mc_codecs b = mc_codecs b0 \<and> mc_identity b = mc_identity b0"
    by (auto simp: VerifyGuardrails_def split: prod.splits option.splits dest!: probe_tools)
  then show ?thesis using b0(1) that by blast
qed

text \<open>Each binding has the profile of its name.\<close>
definition bound_profiles :: "profile gomap \<Rightarrow> 'sch orch \<Rightarrow> bool" where
  "bound_profiles profiles s \<longleftrightarrow> list_all (\<lambda>(n, b). gget profiles (tl_Name (bd_tool b)) = Some (bd_profile b)) (or_tools s)"

lemma bind_tool_profiles:
  assumes "bind_tool L profiles t s = Inr s'" "tl_OriginalName t = tl_Name t" "bound_profiles profiles s"
  shows "bound_profiles profiles s'"
proof -
  have "(if tl_OriginalName t = [] then tl_Name t else tl_OriginalName t) = tl_Name t" using assms(2) by simp
  then obtain schema pf where "gget profiles (tl_Name t) = Some pf"
      "or_tools s' = gput (model_name (tl_Name t)) \<lparr>bd_tool = t, bd_schema = schema, bd_policy = pf_Policy pf,
         bd_original = tl_Name t, bd_profile = pf\<rparr> (or_tools s)"
    using assms(1) by (auto simp: bind_tool_def Let_def split: if_splits option.splits)
  then show ?thesis
    using assms(3) set_gput_subset [of "model_name (tl_Name t)" _ "or_tools s"] by (fastforce simp: bound_profiles_def list_all_iff)
qed

lemma bind_tools_profiles:
  "bind_tools L allowed profiles ts s = Inr s' \<Longrightarrow> list_all (\<lambda>t. tl_OriginalName t = tl_Name t) ts
     \<Longrightarrow> bound_profiles profiles s \<Longrightarrow> bound_profiles profiles s'"
  by (induction ts arbitrary: s) (auto split: if_splits sum.splits dest: bind_tool_profiles)

lemma account_login_direct:
  assumes "OpenAccount mac L answer w now later c start p = Inr (b, prompt)"
    and "NewOrch L (Inr (mc_tools b)) allowed ns account_policies = Inr s0"
  shows "login_direct s0"
proof -
  obtain b0 where "NewMCP answer c p = Inr b0" "mc_tools b = mc_tools b0" by (rule OpenAccount_opened [OF assms(1)])
  then have "list_all (\<lambda>t. tl_OriginalName t = tl_Name t) (mc_tools b)"
    using NewMCP_named [of answer c p b0] by (simp add: named_tools_def)
  then have bound: "bound_profiles account_policies s0"
    using assms(2) bind_tools_profiles [of L allowed account_policies "mc_tools b" "fresh_orch ns" s0]
    by (simp add: NewOrch_def bound_profiles_def fresh_orch_def)
  have wf: "orch_wf s0" by (rule NewOrch_wf [OF assms(2)])
  have "bd_policy b \<noteq> ConfirmLater" if "gget (or_tools s0) ''identity_begin_login'' = Some b" for b
  proof
    assume later: "bd_policy b = ConfirmLater"
    have member: "(''identity_begin_login'', b) \<in> set (or_tools s0)" using that by (rule map_of_SomeD)
    then have name: "model_name (tl_Name (bd_tool b)) = ''identity_begin_login''" and pol: "bd_policy b = pf_Policy (bd_profile b)"
      and pf: "gget account_policies (tl_Name (bd_tool b)) = Some (bd_profile b)"
      using wf bound by (auto simp: orch_wf_def bound_profiles_def list_all_iff)
    have "tl_Name (bd_tool b) \<in> {''identity.logout'', ''profile.update_me''}"
    proof -
      obtain q where "gget account_policies (tl_Name (bd_tool b)) = Some q" "pf_Policy q = ConfirmLater"
        using pf later pol by simp
      then show ?thesis by (auto simp: account_policies_def read_profile_def split: if_splits)
    qed
    then show False using name by (auto simp: model_name_def replace_byte_def)
  qed
  then show ?thesis
    using wf NewOrch_fresh [OF assms(2)] by (auto simp: login_direct_def split: option.split)
qed

section \<open>A login is asked for\<close>

abbreviation login_job :: "job \<Rightarrow> bool" where
  "login_job j \<equiv> jb_Name j = ''identity.begin_login''"

lemma start_named:
  "j \<in> set (orch_start L s x) \<Longrightarrow> \<exists>now ident name turn args b. x = OpPlan now ident name turn args
     \<and> gget (or_tools s) name = Some b \<and> jb_Name j = tl_Name (bd_tool b)"
  by (erule orch_start_cases) auto

text \<open>Each started login has its own call.\<close>
lemma started_logins: "orch_wf s \<Longrightarrow> length (filter login_job (started L s xs)) \<le> logins xs"
proof (induction xs arbitrary: s)
  case (Cons x xs)
  have "login_plan x" if j: "j \<in> set (orch_start L s x)" "login_job j" for j
  proof -
    obtain now ident name turn args b where x: "x = OpPlan now ident name turn args"
      and b: "gget (or_tools s) name = Some b" "tl_Name (bd_tool b) = ''identity.begin_login''"
      using start_named [OF j(1)] j(2) by auto
    then have "model_name ''identity.begin_login'' = name"
      using Cons.prems map_of_SomeD [OF b(1)] by (force simp: orch_wf_def list_all_iff)
    then show ?thesis by (auto simp: x model_name_def replace_byte_def)
  qed
  then have "length (filter login_job (orch_start L s x)) \<le> (if login_plan x then 1 else 0)"
    using orch_start_at_most_one [of L s x] le_trans [OF length_filter_le [of login_job "orch_start L s x"]]
    by (auto simp: filter_empty_conv)
  then show ?case using Cons.IH [of "orch_step L s x"] orch_wf_step [OF Cons.prems, of L x] by auto
qed simp

lemma account_logins:
  assumes "tr = account_trace E now (new_tools s0 ev sid) opened ticks" "login_direct s0"
  shows "length (filter login_job (ran_of tr)) \<le> logins (calls_of tr)"
    "logins (calls_of tr) \<le> (if ce_authenticated E then 0 else 1)"
    "logins (calls_of tr) = 0 \<or> list_ex (\<lambda>(_, _, i). agreed_in_app i) ticks \<or> aloud_first (unicode (rn_lib E)) (calls_of tr)"
proof -
  let ?l = "account_start E now (new_tools s0 ev sid)" and ?app = "list_ex (\<lambda>(_, _, i). agreed_in_app i) ticks"
  define l where "l = snd (run_state (account_run E now (Inr (new_tools s0 ev sid)) opened ticks) ?l)"
  have "login_inv E s0 ?app ?l" by (simp add: account_inv_start) (simp add: login_ok_def account_start_def)
  moreover have "keeps (login_inv E s0 ?app) (account_run E now (Inr (new_tools s0 ev sid)) opened ticks)"
    by (rule keeps_login_run [OF assms(2)])
  ultimately have l: "login_inv E s0 ?app l" unfolding l_def by (rule keeps_run [where I = "login_inv E s0 ?app", rotated])
  have tr: "tr = ag_trace l" by (simp add: assms(1) account_trace_def l_def)
  have "length (filter login_job (ran_of tr)) \<le> length (filter login_job (started (rn_lib E) s0 (calls_of tr)))"
    using l by (intro list_emb_length [of "(=)"] subseq_filter) (simp add: tr agent_inv_def session_ok_def)
  then show "length (filter login_job (ran_of tr)) \<le> logins (calls_of tr)"
    using started_logins [of s0 "rn_lib E" "calls_of tr"] assms(2) by (simp add: login_direct_def)
  show "logins (calls_of tr) \<le> (if ce_authenticated E then 0 else 1)"
    "logins (calls_of tr) = 0 \<or> ?app \<or> aloud_first (unicode (rn_lib E)) (calls_of tr)"
    using l by (auto simp: login_ok_def tr Let_def split: if_splits)
qed

text \<open>
  C3. In a session of the account agent with the tools it was opened with, a login begins at most once,
  and never in a session that is logged in; and only if the user has agreed, by confirming the
  invitation in the application or by words that say yes, and these come before the call.
\<close>
theorem account_login_consented:
  "case OpenAccount mac (rn_lib E) answer w at later c start p of
     Inl _ \<Rightarrow> True
   | Inr (b, prompt) \<Rightarrow>
     (case account_tools (rn_lib E) b ns sid of
        Inl _ \<Rightarrow> True
      | Inr t \<Rightarrow>
        (let tr = account_trace E now t opened ticks; n = length (filter login_job (ran_of tr)) in
          n \<le> (if ce_authenticated E then 0 else 1)
          \<and> (n = 0 \<or> list_ex (\<lambda>(_, _, i). agreed_in_app i) ticks \<or> aloud_first (unicode (rn_lib E)) (calls_of tr))))"
proof (cases "OpenAccount mac (rn_lib E) answer w at later c start p")
  case (Inr x)
  obtain b prompt where x: "x = (b, prompt)" by (cases x)
  show ?thesis
  proof (cases "account_tools (rn_lib E) b ns sid")
    case tools: (Inr t)
    then obtain s0 where s0: "NewOrch (rn_lib E) (Inr (mc_tools b)) (gkeys account_policies) ns account_policies = Inr s0"
      and t: "t = new_tools s0 False sid" by (auto simp: account_tools_def checked_Inr)
    have "login_direct s0" by (rule account_login_direct [OF _ s0]) (use Inr x in simp)
    note tr = account_logins [OF refl this, of E now False sid opened ticks]
    show ?thesis
      unfolding Inr x sum.case prod.case tools Let_def t using le_trans [OF tr(1,2)] tr(1,3) by auto
  qed (simp add: Inr x)
qed simp

end
