(* ===== verification/Account_Fake.thy ===== *)
theory Account_Fake
  imports Account_Login
begin

text \<open>
  The account agent as a process and without a model: what \<open>main\<close>
  (\<open>apps/account-agent/cmd/account-agent/main.go\<close>) checks before it listens, and the demo session
  \<open>newFake\<close> (\<open>apps/account-agent/internal/account/fake.go\<close>), which goes the same way to the identity
  server as the real one. The demo's loop is written with the blocks of \<open>Go_Flow\<close>; \<open>dm_io\<close> says of the
  n-th event whether it could be handed over.
\<close>

section \<open>The process\<close>

text \<open>The principal of the readiness probe: its device id is 64 times \<open>a\<close>.\<close>
definition probe_principal :: principal where
  "probe_principal = zero_principal\<lparr>p_Subject := ''readiness'', p_DeviceID := replicate 64 CHR ''a''\<rparr>"

text \<open>\<open>main\<close> up to the listening: the address, the handler's configuration and its path.\<close>
definition account_main ::
  "(byte list \<Rightarrow> string \<Rightarrow> byte list) \<Rightarrow> 'sch lib \<Rightarrow> (u64 \<Rightarrow> http_outcome) \<Rightarrow> world \<Rightarrow> instant \<Rightarrow> instant
   \<Rightarrow> error + string \<times> Agent_Remote.server_config \<times> string"
where
  "account_main mac L answer w now later =
     (let c = LoadAccount w; address = envValue w ''STS_AGENT_ADDRESS'' ''127.0.0.1:8091'' in
      if \<not> IsLoopbackAddress w address then Inl ''account agent must listen on loopback''
      else if ValidateAccount w c \<noteq> None then Inl ''invalid account runtime configuration''
      else (case checked (NewMCP answer c probe_principal) (\<lambda>b.
               case VerifyGuardrails mac L answer now later b of (_, Some err) \<Rightarrow> Inl err | (b', None) \<Rightarrow> Inr b') of
          Inl _ \<Rightarrow> Inl ''account readiness failed: MCP guardrails required''
        | Inr _ \<Rightarrow>
            (case NewHandler \<lparr>sc_Protocol = ProtocolV2, sc_AgentID = ''account'', sc_Token = Getenv w ''STS_AGENT_TOKEN'',
                sc_ReadTimeout = 10 * second_ns, sc_WriteTimeout = 10 * second_ns, sc_IdleTimeout = 90 * second_ns,
                sc_MaxSessions = 16\<rparr> True of
               Inl _ \<Rightarrow> Inl ''invalid account configuration''
             | Inr h \<Rightarrow> Inr (address, h, ''/v2/session''))))"

section \<open>The demo session\<close>

definition connectedMessage :: string where
  "connectedMessage = ''Conta conectada com sucesso, agora voc'' @ encode_rune 234 @ '' pode consultar e editar informa''
     @ encode_rune 231 @ encode_rune 245 @ ''es da sua conta''"

datatype demo_act = DEmitted agent_event | DHeard event | DBeganLogin string

record demo =
  dm_waiting :: bool
  dm_backend :: account_mcp
  dm_io :: nat
  dm_trace :: "demo_act list"

text \<open>What the session is given; \<open>de_call\<close> is \<open>backend.Call\<close> with the argument \<open>{}\<close>, unconfirmed.\<close>
record demo_env =
  de_io :: "nat \<Rightarrow> bool"
  de_start :: session_start
  de_call :: "instant \<Rightarrow> string \<Rightarrow> string \<Rightarrow> account_mcp \<Rightarrow> account_mcp \<times> (error + result)"

definition demo_do :: "demo_act \<Rightarrow> (demo, unit) state" where
  "demo_do a = assign (\<lambda>l. l\<lparr>dm_trace := dm_trace l @ [a]\<rparr>)"

definition demo_emit :: "demo_env \<Rightarrow> agent_event \<Rightarrow> demo block" where
  "demo_emit E e = do {
     l \<leftarrow> State_Monad.get;
     demo_do (DEmitted e);
     assign (\<lambda>l. l\<lparr>dm_io := Suc (dm_io l)\<rparr>);
     State_Monad.return (de_io E (dm_io l)) }"

definition demo_welcome :: "demo_env \<Rightarrow> event \<Rightarrow> demo block" where
  "demo_welcome E e = (case account_event e of Inl _ \<Rightarrow> leave | Inr a \<Rightarrow> demo_emit E a)"

definition authenticated :: "demo_env \<Rightarrow> bool" where
  "authenticated E \<longleftrightarrow> p_Authenticated (st_Principal (de_start E))"

text \<open>What precedes the loop.\<close>
definition demo_open :: "demo_env \<Rightarrow> demo block" where
  "demo_open E =
     after (demo_emit E (zero_agent_event\<lparr>ae_Type := AgentSessionReady, ae_Provider := ''fake'', ae_State := Idle\<rparr>))
       (after (if authenticated E
          then demo_emit E (zero_agent_event\<lparr>ae_Type := OutputTranscript, ae_TurnID := connectedTurn,
                 ae_Role := ''ASSISTANT'', ae_Stage := ''FINAL'', ae_Text := connectedMessage\<rparr>)
          else proceed)
         (do {
           assign (\<lambda>l. l\<lparr>dm_waiting := \<not> authenticated E\<rparr>);
           (if \<not> authenticated E then each (demo_welcome E) welcomeEvents else proceed) }))"

text \<open>The transaction in the result of \<open>identity.begin_login\<close>.\<close>
definition begun_transaction :: "error + result \<Rightarrow> string option" where
  "begun_transaction res = (case res of
       Inl _ \<Rightarrow> None
     | Inr r \<Rightarrow> if rs_IsError r then None
         else (case rs_Content r of
             [c] \<Rightarrow> (case unmarshal [string_field ''transaction_id'' (\<lambda>v x. v)] [] (ct_Text c) of
                 Some t \<Rightarrow> if t \<noteq> [] then Some t else None | None \<Rightarrow> None)
           | _ \<Rightarrow> None))"

definition demo_login :: "demo_env \<Rightarrow> instant \<Rightarrow> demo block" where
  "demo_login E now = do {
     l \<leftarrow> State_Monad.get;
     (let key = st_SessionID (de_start E) @ ''-login'' in do {
       demo_do (DBeganLogin key);
       assign (\<lambda>l. l\<lparr>dm_backend := fst (de_call E now ''identity.begin_login'' key (dm_backend l))\<rparr>);
       (case begun_transaction (snd (de_call E now ''identity.begin_login'' key (dm_backend l))) of
          None \<Rightarrow> proceed
        | Some t \<Rightarrow> do {
            ok \<leftarrow> demo_emit E (zero_agent_event\<lparr>ae_Type := ''ui.a2ui'', ae_UI := loginSurface t\<rparr>);
            proceed }) }) }"

definition demo_close :: "demo_env \<Rightarrow> demo block" where
  "demo_close E = do {
     ok \<leftarrow> demo_emit E (zero_agent_event\<lparr>ae_Type := AgentSessionClosed, ae_State := Closed\<rparr>);
     leave }"

text \<open>The answer to the invitation, if the event is one.\<close>
definition consent_answer :: "event \<Rightarrow> bool option" where
  "consent_answer e =
     (if ev_Type e \<noteq> ToolConfirm then None
      else (case ev_Tool e of
          None \<Rightarrow> None
        | Some v \<Rightarrow> if vt_OperationID v \<noteq> welcomeOperation then None else vt_Approved v))"

datatype demo_input = DDone | DInput event

fun demo_step :: "demo_env \<Rightarrow> instant \<times> demo_input \<Rightarrow> demo block" where
  "demo_step E (now, DDone) = leave"
| "demo_step E (now, DInput e) = do {
     demo_do (DHeard e);
     l \<leftarrow> State_Monad.get;
     after (case (if dm_waiting l then consent_answer e else None) of
         None \<Rightarrow> proceed
       | Some approved \<Rightarrow> do {
           assign (\<lambda>l. l\<lparr>dm_waiting := False\<rparr>);
           (if \<not> approved then demo_close E
            else if \<not> authenticated E then demo_login E now else proceed) })
       (if ev_Type e = SessionStop then demo_close E else proceed) }"

definition demo_run :: "demo_env \<Rightarrow> (instant \<times> demo_input) list \<Rightarrow> demo block" where
  "demo_run E ticks = after (demo_open E) (each (demo_step E) ticks)"

definition demo_start :: "account_mcp \<Rightarrow> demo" where
  "demo_start b = \<lparr>dm_waiting = False, dm_backend = b, dm_io = 0, dm_trace = []\<rparr>"

definition demo_trace :: "demo_env \<Rightarrow> account_mcp \<Rightarrow> (instant \<times> demo_input) list \<Rightarrow> demo_act list" where
  "demo_trace E b ticks = dm_trace (snd (run_state (demo_run E ticks) (demo_start b)))"

section \<open>A process that starts\<close>

text \<open>
  An account agent that starts listens on a loopback address, under a token and the identifier
  \<open>account\<close> of the second protocol; its configuration is valid; and the identity and profile servers
  behind the gateway had the whole catalog of account tools and blocked both guardrail probes.
\<close>
theorem account_agent_started:
  "case account_main mac L answer w now later of
     Inl _ \<Rightarrow> True
   | Inr (address, h, path) \<Rightarrow> IsLoopbackAddress w address \<and> sc_Protocol h = ProtocolV2 \<and> sc_AgentID h = ''account''
       \<and> sc_Token h = Getenv w ''STS_AGENT_TOKEN'' \<and> sc_Token h \<noteq> [] \<and> path = ''/v2/session''
       \<and> ValidateAccount w (LoadAccount w) = None
       \<and> (\<exists>b. NewMCP answer (LoadAccount w) probe_principal = Inr b
            \<and> snd (VerifyGuardrails mac L answer now later b) = None \<and> length (mc_routes b) = length account_policies)"
proof (cases "account_main mac L answer w now later")
  case (Inr x)
  obtain address h path where x: "x = (address, h, path)" by (cases x)
  have run: "IsLoopbackAddress w address" "ValidateAccount w (LoadAccount w) = None" "path = ''/v2/session''"
    "\<exists>b'. checked (NewMCP answer (LoadAccount w) probe_principal) (\<lambda>b.
        case VerifyGuardrails mac L answer now later b of (_, Some err) \<Rightarrow> Inl err | (b', None) \<Rightarrow> Inr b') = Inr b'"
    "NewHandler \<lparr>sc_Protocol = ProtocolV2, sc_AgentID = ''account'', sc_Token = Getenv w ''STS_AGENT_TOKEN'',
        sc_ReadTimeout = 10 * second_ns, sc_WriteTimeout = 10 * second_ns, sc_IdleTimeout = 90 * second_ns,
        sc_MaxSessions = 16\<rparr> True = Inr h"
    using Inr by (auto simp: account_main_def x Let_def split: if_splits sum.splits)
  obtain b b' where b0: "NewMCP answer (LoadAccount w) probe_principal = Inr b"
    and verified: "(case VerifyGuardrails mac L answer now later b of (_, Some err) \<Rightarrow> Inl err | (b', None) \<Rightarrow> Inr b') = Inr b'"
    using run(4) unfolding checked_Inr by blast
  have b: "NewMCP answer (LoadAccount w) probe_principal = Inr b" "snd (VerifyGuardrails mac L answer now later b) = None"
    using b0 verified by (cases "VerifyGuardrails mac L answer now later b", auto split: option.splits)+
  then have "length (mc_routes b) = length account_policies" by (metis NewMCP_catalog)
  then show ?thesis using run(1-3,5) b unfolding Inr x sum.case prod.case by (auto simp: NewHandler_Inr)
qed simp

section \<open>Logins of the demo\<close>

text \<open>
  The specification: an invitation is answered once; only an approval lets a login begin, once, and
  before anything else is heard.
\<close>
datatype consent = Asked | Agreed | Settled

inductive consent_step :: "consent \<Rightarrow> demo_act \<Rightarrow> consent \<Rightarrow> bool" where
  unanswered: "consent_answer e = None \<Longrightarrow> consent_step Asked (DHeard e) Asked"
| approved: "consent_answer e = Some True \<Longrightarrow> consent_step Asked (DHeard e) Agreed"
| refused: "consent_answer e = Some False \<Longrightarrow> consent_step Asked (DHeard e) Settled"
| begun: "consent_step Agreed (DBeganLogin key) Settled"
| later: "c \<noteq> Asked \<Longrightarrow> consent_step c (DHeard e) Settled"
| emitted: "consent_step c (DEmitted a) c"

inductive consent_path :: "consent \<Rightarrow> demo_act list \<Rightarrow> consent \<Rightarrow> bool" where
  start: "consent_path c [] c"
| step: "consent_path c xs d \<Longrightarrow> consent_step d x d' \<Longrightarrow> consent_path c (xs @ [x]) d'"

inductive_cases login_stepE: "consent_step c (DBeganLogin key) d"
inductive_simps heard_step: "consent_step c (DHeard e) d"

definition is_login :: "demo_act \<Rightarrow> bool" where
  "is_login a \<longleftrightarrow> (case a of DBeganLogin _ \<Rightarrow> True | _ \<Rightarrow> False)"

lemma path_logins:
  "consent_path c xs d \<Longrightarrow> length (filter is_login xs) \<le> (if c = Settled \<or> d \<noteq> Settled then 0 else 1) \<and> (c = Settled \<longrightarrow> d = Settled)"
proof (induction rule: consent_path.induct)
  case (step c xs d x d')
  from step.hyps(2) step.IH show ?case by cases (auto simp: is_login_def split: if_splits)
qed simp

text \<open>The demo follows the specification: it waits exactly while the invitation is unanswered.\<close>
definition asked_first :: "demo_env \<Rightarrow> consent" where
  "asked_first E = (if authenticated E then Settled else Asked)"

definition login_key :: "demo_env \<Rightarrow> string" where
  "login_key E = st_SessionID (de_start E) @ ''-login''"

definition on_path :: "demo_env \<Rightarrow> consent \<Rightarrow> demo \<Rightarrow> bool" where
  "on_path E c l \<longleftrightarrow> consent_path (asked_first E) (dm_trace l) c
     \<and> list_all (\<lambda>a. case a of DBeganLogin key \<Rightarrow> key = login_key E | _ \<Rightarrow> True) (dm_trace l)"

definition demo_inv :: "demo_env \<Rightarrow> demo \<Rightarrow> bool" where
  "demo_inv E l \<longleftrightarrow> (\<exists>c. on_path E c l \<and> dm_waiting l = (c = Asked))"

lemma on_path_update [simp]:
  "on_path E c (l\<lparr>dm_waiting := b\<rparr>) = on_path E c l" "on_path E c (l\<lparr>dm_backend := m\<rparr>) = on_path E c l"
  "on_path E c (l\<lparr>dm_io := n\<rparr>) = on_path E c l"
  by (simp_all add: on_path_def)

lemma on_path_act:
  "on_path E c l \<Longrightarrow> consent_step c a d \<Longrightarrow> (case a of DBeganLogin key \<Rightarrow> key = login_key E | _ \<Rightarrow> True)
     \<Longrightarrow> on_path E d (l\<lparr>dm_trace := dm_trace l @ [a]\<rparr>)"
  by (auto simp: on_path_def intro: consent_path.step)

definition stays :: "demo_env \<Rightarrow> consent \<Rightarrow> bool \<Rightarrow> demo \<Rightarrow> bool" where
  "stays E c b l \<longleftrightarrow> on_path E c l \<and> dm_waiting l = b"

lemma keeps_demo_emit: "keeps (stays E c b) (demo_emit E a)"
  by (auto simp: demo_emit_def demo_do_def stays_def intro!: keepsI on_path_act consent_step.emitted)

lemma keeps_welcome: "keeps (stays E c b) (each (demo_welcome E) es)"
  by (intro keeps_each) (auto simp: demo_welcome_def keeps_demo_emit split: sum.split)

text \<open>What a step must show.\<close>
definition demo_post :: "demo_env \<Rightarrow> bool \<Rightarrow> demo \<Rightarrow> bool" where
  "demo_post E ok l \<longleftrightarrow> (\<exists>c. on_path E c l) \<and> (ok \<longrightarrow> demo_inv E l)"

lemma stays_post: "stays E c b l \<Longrightarrow> b = (c = Asked) \<Longrightarrow> demo_post E ok l"
  by (auto simp: stays_def demo_post_def demo_inv_def)

lemma stays_left: "stays E c b l \<Longrightarrow> demo_post E False l"
  by (auto simp: stays_def demo_post_def)

lemma demo_open_post: "wp (demo_open E) (demo_post E) (demo_start m)"
proof -
  let ?c = "asked_first E" and ?b = "\<not> authenticated E"
  have "stays E ?c False (demo_start m)"
    by (simp add: stays_def on_path_def demo_start_def consent_path.start)
  moreover have "keeps (stays E ?c False) (if authenticated E
      then demo_emit E (zero_agent_event\<lparr>ae_Type := OutputTranscript, ae_TurnID := connectedTurn,
             ae_Role := ''ASSISTANT'', ae_Stage := ''FINAL'', ae_Text := connectedMessage\<rparr>) else proceed)"
    by (simp add: keeps_demo_emit)
  moreover have "wp (do { assign (\<lambda>l. l\<lparr>dm_waiting := ?b\<rparr>);
      (if ?b then each (demo_welcome E) welcomeEvents else proceed) }) (demo_post E) l"
    if "stays E ?c False l" for l
  proof -
    have "stays E ?c ?b (l\<lparr>dm_waiting := ?b\<rparr>)" using that by (simp add: stays_def)
    moreover have "keeps (stays E ?c ?b) (if ?b then each (demo_welcome E) welcomeEvents else proceed)"
      by (simp add: keeps_welcome)
    moreover have "?b = (?c = Asked)" by (simp add: asked_first_def)
    ultimately show ?thesis unfolding wp_bind wp_assign by (blast intro: keeps_wp stays_post)
  qed
  ultimately show ?thesis
    unfolding demo_open_def wp_after
    by (smt (verit, best) keeps_demo_emit keeps_wp stays_left)
qed

lemma demo_close_post: "stays E c b l \<Longrightarrow> wp (demo_close E) (\<lambda>ok l'. \<not> ok \<and> demo_post E False l') l"
  unfolding demo_close_def wp_bind
  by (rule keeps_wp [OF keeps_demo_emit], assumption) (simp add: stays_left)

lemma demo_finish:
  "stays E c b l \<Longrightarrow> b = (c = Asked) \<Longrightarrow> wp (if stop then demo_close E else proceed) (demo_post E) l"
  by (auto intro: wp_mono [OF demo_close_post] stays_post)

text \<open>A login begins right after its approval.\<close>
lemma demo_login_stays:
  assumes "stays E Agreed False l"
  shows "wp (demo_login E now) (\<lambda>ok l'. ok \<and> stays E Settled False l') l"
proof -
  have "stays E Settled False (l\<lparr>dm_trace := dm_trace l @ [DBeganLogin (login_key E)], dm_backend := m\<rparr>)" for m
    using assms on_path_act [OF _ consent_step.begun, of E l "login_key E"] by (simp add: stays_def)
  then show ?thesis
    unfolding demo_login_def demo_do_def Let_def login_key_def [symmetric]
    by (auto intro: keeps_wp [OF keeps_demo_emit] split: option.split)
qed

lemma demo_step_post:
  assumes "demo_inv E l" shows "wp (demo_step E (now, i)) (demo_post E) l"
proof (cases i)
  case DDone
  then show ?thesis using assms by (auto simp: demo_post_def demo_inv_def)
next
  case (DInput e)
  obtain c where c: "on_path E c l" "dm_waiting l = (c = Asked)" using assms by (auto simp: demo_inv_def)
  let ?l = "l\<lparr>dm_trace := dm_trace l @ [DHeard e]\<rparr>"
  let ?rest = "if ev_Type e = SessionStop then demo_close E else proceed"
  have heard: "stays E d b ?l" if "consent_step c (DHeard e) d" "b = dm_waiting l" for d b
    using that on_path_act [OF c(1) that(1)] by (simp add: stays_def)
  show ?thesis
  proof (cases "if dm_waiting l then consent_answer e else None")
    case None
    have "consent_step c (DHeard e) (if c = Asked then Asked else Settled)"
      using None c(2) by (auto intro: consent_step.intros split: if_splits)
    then have "stays E (if c = Asked then Asked else Settled) (dm_waiting l) ?l" using heard by blast
    then have "wp ?rest (demo_post E) ?l" by (rule demo_finish) (simp add: c(2))
    then show ?thesis using None by (simp add: DInput demo_do_def)
  next
    case (Some approved)
    then have waiting: "c = Asked" "dm_waiting l" "consent_answer e = Some approved" using c(2) by (auto split: if_splits)
    then have step: "consent_step c (DHeard e) (if approved then Agreed else Settled)"
      by (auto intro: consent_step.intros)
    let ?l' = "?l\<lparr>dm_waiting := False\<rparr>"
    have l': "stays E (if approved then Agreed else Settled) False ?l'"
      using heard [OF step refl] by (simp add: stays_def)
    have "wp (after (if \<not> approved then demo_close E else if \<not> authenticated E then demo_login E now else proceed) ?rest)
        (demo_post E) ?l'"
    proof (cases approved)
      case False
      have "wp (demo_close E) (\<lambda>ok l'. if ok then wp ?rest (demo_post E) l' else demo_post E False l') ?l'"
        by (rule wp_mono [OF demo_close_post [OF l']]) auto
      then show ?thesis using False by simp
    next
      case True
      then have agreed: "stays E Agreed False ?l'" using l' by simp
      show ?thesis
      proof (cases "authenticated E")
        case auth: True
        then show ?thesis using True demo_finish [OF agreed] by (simp add: wp_run after_def proceed_def split: prod.split)
      next
        case False
        have "wp (demo_login E now) (\<lambda>ok l'. if ok then wp ?rest (demo_post E) l' else demo_post E False l') ?l'"
          by (rule wp_mono [OF demo_login_stays [OF agreed]])
            (auto intro: stays_post wp_mono [OF demo_close_post])
        then show ?thesis using True False by simp
      qed
    qed
    then show ?thesis using waiting by (simp add: DInput demo_do_def)
  qed
qed

lemma demo_loop_post: "demo_inv E l \<Longrightarrow> wp (each (demo_step E) ticks) (demo_post E) l"
proof (induction ticks arbitrary: l)
  case (Cons x ticks)
  have "wp (demo_step E x) (\<lambda>ok l'. if ok then wp (each (demo_step E) ticks) (demo_post E) l' else demo_post E False l') l"
    by (cases x, simp only:) (rule wp_mono [OF demo_step_post [OF Cons.prems]], auto simp: demo_post_def [of E True] Cons.IH)
  then show ?case by simp
qed (auto simp: demo_post_def demo_inv_def)

text \<open>
  C31. The demo of the account agent logs in only with consent: a session of an authenticated user
  begins no login, any other at most one, and only as the answer to the first reply to its
  invitation, an approval, under a key of its session.
\<close>
theorem demo_login_consented:
  "(\<exists>c. consent_path (if authenticated E then Settled else Asked) (demo_trace E m ticks) c)
   \<and> length (filter is_login (demo_trace E m ticks)) \<le> (if authenticated E then 0 else 1)
   \<and> list_all (\<lambda>a. case a of DBeganLogin key \<Rightarrow> key = st_SessionID (de_start E) @ ''-login'' | _ \<Rightarrow> True) (demo_trace E m ticks)"
proof -
  have "wp (demo_open E) (\<lambda>ok l. if ok then wp (each (demo_step E) ticks) (demo_post E) l else demo_post E False l) (demo_start m)"
    by (rule wp_mono [OF demo_open_post]) (auto simp: demo_post_def [of E True] demo_loop_post)
  then have "wp (demo_run E ticks) (demo_post E) (demo_start m)" by (simp add: demo_run_def)
  then obtain c where path: "consent_path (asked_first E) (demo_trace E m ticks) c"
    and keys: "list_all (\<lambda>a. case a of DBeganLogin key \<Rightarrow> key = login_key E | _ \<Rightarrow> True) (demo_trace E m ticks)"
    by (auto simp: wp_run demo_post_def on_path_def demo_trace_def)
  moreover have "length (filter is_login (demo_trace E m ticks)) \<le> (if authenticated E then 0 else 1)"
    using path_logins [OF path] by (auto simp: asked_first_def split: if_splits)
  ultimately show ?thesis unfolding asked_first_def login_key_def by blast
qed

end
