(* ===== verification/Fake_Session.thy ===== *)
theory Fake_Session
  imports Go_Flow Conversation Bridge
begin

text \<open>
  The deterministic demo of the personal assistant: the scripted provider \<open>Respond\<close>
  (\<open>internal/fake/provider/fake.go\<close>), the session loop \<open>runFake\<close> (\<open>internal/fake/fake_session.go\<close>)
  and the session the factory opens (\<open>internal/fake/fake_factory.go\<close>), all under
  \<open>apps/personal-assistant-agent\<close>. The loop is written with the blocks of \<open>Go_Flow\<close>: one step per
  turn of the \<open>select\<close>, with the clock read at the start of the step and again where the code calls
  \<open>time.Since\<close>. The goroutine of a committed turn is its entry in \<open>fk_jobs\<close>, the turn and the events it
  has still to emit; any of them may be the next to be heard, and one whose context is done may
  give up at any point.
\<close>

section \<open>The scripted provider\<close>

definition user_line :: string where
  "user_line = [CHR 0xC3, CHR 0x81] @ ''udio recebido (simula'' @ [CHR 0xC3, CHR 0xA7, CHR 0xC3, CHR 0xA3]
     @ ''o, sem transcri'' @ [CHR 0xC3, CHR 0xA7, CHR 0xC3, CHR 0xA3] @ ''o real).''"

definition assistant_line :: string where
  "assistant_line = ''Ol'' @ [CHR 0xC3, CHR 0xA1] @ ''! Esta '' @ [CHR 0xC3, CHR 0xA9]
     @ '' uma resposta simulada. O gateway est'' @ [CHR 0xC3, CHR 0xA1] @ '' funcionando.''"

text \<open>\<open>sample n\<close> is \<open>uint16(int16(1600 * math.Sin(2 * math.Pi * 440 * n / 24000)))\<close>.\<close>
definition tone_chunk :: "(nat \<Rightarrow> u16) \<Rightarrow> nat \<Rightarrow> byte list" where
  "tone_chunk sample chunk = concat (map (\<lambda>k. put_u16 (sample (chunk * 960 + k))) [0..<960])"

text \<open>What \<open>Respond\<close> emits unless its context ends first.\<close>
definition Respond :: "(nat \<Rightarrow> u16) \<Rightarrow> event list" where
  "Respond sample =
     [zero_event\<lparr>ev_Type := Transcript, ev_Role := ''USER'', ev_Text := user_line\<rparr>,
      zero_event\<lparr>ev_Type := Transcript, ev_Role := ''ASSISTANT'', ev_Text := assistant_line\<rparr>]
     @ map (\<lambda>chunk. zero_event\<lparr>ev_Type := AudioOutput, ev_Audio := b64_encode (tone_chunk sample chunk),
                               ev_SampleRate := 24000\<rparr>) [0..<20]"

section \<open>State\<close>

datatype fake_act =
    FWrote event
  | FStarted string duration
  | FCancelled
  | FLogged string

text \<open>The variables of \<open>runFake\<close>, the count of writes and the trace.\<close>
record fake_loop =
  fk_conv :: session
  fk_turnCancel :: bool
  fk_startedAt :: instant
  fk_firstAudio :: duration
  fk_outputSequence :: u64
  fk_jobs :: "(string \<times> event list) list"
  fk_io :: nat
  fk_trace :: "fake_act list"

record fake_env =
  fe_io :: "nat \<Rightarrow> bool"
  fe_sample :: "nat \<Rightarrow> u16"
  fe_TurnTimeout :: duration

type_synonym fake_block = "fake_loop block"

section \<open>Effects\<close>

definition fake_do :: "fake_act \<Rightarrow> (fake_loop, unit) state" where
  "fake_do a = assign (\<lambda>l. l\<lparr>fk_trace := fk_trace l @ [a]\<rparr>)"

text \<open>\<open>write\<close>: the event is converted, then handed over unless the session's context is done.\<close>
definition fake_write :: "fake_env \<Rightarrow> event \<Rightarrow> fake_block" where
  "fake_write E e = do {
     fake_do (FWrote e);
     l \<leftarrow> State_Monad.get;
     assign (\<lambda>l. l\<lparr>fk_io := Suc (fk_io l)\<rparr>);
     State_Monad.return (case fakeAgentEvent e of Inl err \<Rightarrow> False | Inr _ \<Rightarrow> fe_io E (fk_io l)) }"

definition fake_error :: "fake_env \<Rightarrow> string \<Rightarrow> string \<Rightarrow> fake_block" where
  "fake_error E code msg = do {
     l \<leftarrow> State_Monad.get;
     fake_write E ((turn_event ErrorEvent (cs_TurnID (fk_conv l)))\<lparr>ev_Code := code, ev_Message := msg\<rparr>) }"

definition fake_state :: "fake_env \<Rightarrow> fake_block" where
  "fake_state E = do {
     l \<leftarrow> State_Monad.get;
     fake_write E ((turn_event SessionState (cs_TurnID (fk_conv l)))\<lparr>ev_State := cs_State (fk_conv l)\<rparr>) }"

definition fake_interrupt :: "fake_env \<Rightarrow> instant \<Rightarrow> string \<Rightarrow> instant \<Rightarrow> fake_block" where
  "fake_interrupt E later turn at = do {
     l \<leftarrow> State_Monad.get;
     (if fk_turnCancel l then do { fake_do FCancelled; assign (\<lambda>l. l\<lparr>fk_turnCancel := False\<rparr>) }
      else State_Monad.return ());
     fake_write E ((turn_event TurnInterrupted turn)\<lparr>ev_Metrics := Some (zero_metrics
        \<lparr>m_InterruptionMS := ms_text (since later at)\<rparr>)\<rparr>) }"

text \<open>\<open>startProvider\<close>: the scripted provider ignores the audio it is given.\<close>
definition startProvider :: "fake_env \<Rightarrow> instant \<Rightarrow> (fake_loop, unit) state" where
  "startProvider E later = do {
     l \<leftarrow> State_Monad.get;
     fake_do (FStarted (cs_TurnID (fk_conv l)) (fe_TurnTimeout E));
     assign (\<lambda>l. l\<lparr>fk_turnCancel := True, fk_startedAt := later, fk_firstAudio := 0, fk_outputSequence := 0,
        fk_jobs := fk_jobs l @ [(cs_TurnID (fk_conv l), Respond (fe_sample E))]\<rparr>) }"

section \<open>Client events\<close>

definition set_conv :: "session \<Rightarrow> (fake_loop, unit) state" where
  "set_conv c = assign (\<lambda>l. l\<lparr>fk_conv := c\<rparr>)"

definition fake_append :: "fake_env \<Rightarrow> instant \<Rightarrow> instant \<Rightarrow> event \<Rightarrow> fake_block" where
  "fake_append E at later e = do {
     l \<leftarrow> State_Monad.get;
     set_conv (fst (Append e (fk_conv l)));
     (case snd (Append e (fk_conv l)) of
        Inl err \<Rightarrow> fake_error E ''invalid_audio'' err
      | Inr interrupted \<Rightarrow>
          after (if interrupted \<noteq> [] then fake_interrupt E later interrupted at else proceed)
            (if cs_TurnID (fk_conv l) \<noteq> cs_TurnID (fst (Append e (fk_conv l))) \<or> cs_State (fk_conv l) = Idle
             then after (fake_write E (turn_event TurnStarted (cs_TurnID (fst (Append e (fk_conv l))))))
                    (fake_state E)
             else proceed)) }"

definition fake_commit :: "fake_env \<Rightarrow> instant \<Rightarrow> event \<Rightarrow> fake_block" where
  "fake_commit E later e = do {
     l \<leftarrow> State_Monad.get;
     set_conv (fst (Commit (ev_TurnID e) (fk_conv l)));
     (case snd (Commit (ev_TurnID e) (fk_conv l)) of
        Inl err \<Rightarrow> fake_error E ''invalid_turn'' err
      | Inr pcm \<Rightarrow> after (fake_state E) (do { startProvider E later; proceed })) }"

definition fake_cancel :: "fake_env \<Rightarrow> instant \<Rightarrow> instant \<Rightarrow> event \<Rightarrow> fake_block" where
  "fake_cancel E at later e = do {
     l \<leftarrow> State_Monad.get;
     set_conv (fst (Cancel (ev_TurnID e) (fk_conv l)));
     (case snd (Cancel (ev_TurnID e) (fk_conv l)) of
        Some err \<Rightarrow> fake_error E ''invalid_turn'' err
      | None \<Rightarrow> after (fake_interrupt E later (ev_TurnID e) at) (fake_state E)) }"

definition fake_stop :: "fake_env \<Rightarrow> fake_block" where
  "fake_stop E = do {
     l \<leftarrow> State_Monad.get;
     set_conv (CloseSession (fk_conv l));
     ok \<leftarrow> fake_write E (zero_event\<lparr>ev_Type := SessionStopped, ev_State := Closed\<rparr>);
     leave }"

definition fake_event :: "fake_env \<Rightarrow> instant \<Rightarrow> instant \<Rightarrow> event \<Rightarrow> fake_block" where
  "fake_event E at later e =
     (if ev_Type e = AudioAppend then fake_append E at later e
      else if ev_Type e = TurnCommit then fake_commit E later e
      else if ev_Type e = TurnCancel then fake_cancel E at later e
      else if ev_Type e = SessionStop then fake_stop E
      else fake_error E ''invalid_transition'' ''session is already started'')"

section \<open>What the provider says\<close>

text \<open>Output of a turn that is not the one responding is dropped.\<close>
definition current :: "string \<Rightarrow> fake_loop \<Rightarrow> bool" where
  "current turn l \<longleftrightarrow> cs_State (fk_conv l) = Responding \<and> turn = cs_TurnID (fk_conv l)"

definition fake_output :: "fake_env \<Rightarrow> instant \<Rightarrow> string \<Rightarrow> event \<Rightarrow> fake_block" where
  "fake_output E now turn e = do {
     l \<leftarrow> State_Monad.get;
     (if \<not> current turn l then proceed
      else if ev_Type e = AudioOutput then do {
        assign (\<lambda>l. l\<lparr>fk_outputSequence := fk_outputSequence l + 1,
           fk_firstAudio := (if fk_firstAudio l = 0 then since now (fk_startedAt l) else fk_firstAudio l)\<rparr>);
        fake_write E (e\<lparr>ev_TurnID := turn, ev_Sequence := fk_outputSequence l + 1\<rparr>) }
      else fake_write E (e\<lparr>ev_TurnID := turn\<rparr>)) }"

text \<open>\<open>deadline\<close> says that an error is \<open>context.DeadlineExceeded\<close>.\<close>
definition fake_done :: "fake_env \<Rightarrow> instant \<Rightarrow> string \<Rightarrow> bool option \<Rightarrow> fake_block" where
  "fake_done E now turn err = do {
     l \<leftarrow> State_Monad.get;
     (if \<not> current turn l then proceed
      else do {
        assign (\<lambda>l. l\<lparr>fk_conv := fst (CompleteTurn turn (fk_conv l)), fk_turnCancel := False\<rparr>);
        after (case err of
            Some deadline \<Rightarrow> fake_error E (if deadline then ''provider_timeout'' else ''provider_failed'')
                ''provider could not complete the turn''
          | None \<Rightarrow>
              after (fake_write E ((turn_event TurnCompleted turn)\<lparr>ev_Metrics := Some (zero_metrics
                  \<lparr>m_FirstAudioMS := ms_text (fk_firstAudio l),
                   m_DurationMS := ms_text (since now (fk_startedAt l))\<rparr>)\<rparr>))
                (do { fake_do (FLogged turn); proceed }))
          (fake_state E) }) }"

section \<open>The loop\<close>

datatype fake_input =
    FDone | FClosed
  | FEvent event
  | FSaid nat
  | FEnded nat "bool option"

type_synonym fake_tick = "instant \<times> instant \<times> fake_input"

definition drop_nth :: "nat \<Rightarrow> 'a list \<Rightarrow> 'a list" where
  "drop_nth i xs = take i xs @ drop (Suc i) xs"

text \<open>
  \<open>FSaid i\<close>: the \<open>i\<close>-th responder emits its next event. \<open>FEnded i err\<close>: it returns, without an
  error only at the end of its script.
\<close>
fun fake_step :: "fake_env \<Rightarrow> fake_tick \<Rightarrow> fake_block" where
  "fake_step E (now, later, FDone) = leave"
| "fake_step E (now, later, FClosed) = leave"
| "fake_step E (now, later, FEvent e) = fake_event E now later e"
| "fake_step E (now, later, FSaid i) = do {
     l \<leftarrow> State_Monad.get;
     (if length (fk_jobs l) \<le> i then proceed
      else (case fk_jobs l ! i of
          (turn, []) \<Rightarrow> proceed
        | (turn, e # es) \<Rightarrow> do {
            assign (\<lambda>l. l\<lparr>fk_jobs := (fk_jobs l)[i := (turn, es)]\<rparr>);
            fake_output E now turn e })) }"
| "fake_step E (now, later, FEnded i err) = do {
     l \<leftarrow> State_Monad.get;
     (if length (fk_jobs l) \<le> i \<or> err = None \<and> snd (fk_jobs l ! i) \<noteq> [] then proceed
      else do {
        assign (\<lambda>l. l\<lparr>fk_jobs := drop_nth i (fk_jobs l)\<rparr>);
        fake_done E now (fst (fk_jobs l ! i)) err }) }"

definition fake_start :: "string \<Rightarrow> string \<Rightarrow> fake_loop" where
  "fake_start rid sid = \<lparr>fk_conv = (NewSession rid)\<lparr>cs_ID := sid\<rparr>, fk_turnCancel = False, fk_startedAt = zero_time,
     fk_firstAudio = 0, fk_outputSequence = 0, fk_jobs = [], fk_io = 0, fk_trace = []\<rparr>"

text \<open>\<open>runFake\<close>; when it returns the deferred call closes the conversation.\<close>
definition runFake :: "fake_env \<Rightarrow> fake_tick list \<Rightarrow> fake_block" where
  "runFake E ticks = do {
     ok \<leftarrow> after (fake_write E (zero_event\<lparr>ev_Type := SessionReady, ev_Provider := ''fake'', ev_State := Idle\<rparr>))
       (each (fake_step E) ticks);
     (if ok then proceed else do {
        assign (\<lambda>l. l\<lparr>fk_conv := CloseSession (fk_conv l)\<rparr>);
        leave }) }"

text \<open>\<open>Open\<close> of the demo's factory, and what a run of the session writes.\<close>
definition FakeOpen :: "session_start \<Rightarrow> string \<Rightarrow> error + fake_loop" where
  "FakeOpen st rid =
     (if st_SessionID st = [] \<or> st_Provider st \<noteq> ''fake'' then Inl ''invalid fake agent session''
      else Inr (fake_start rid (st_SessionID st)))"

fun written :: "fake_act list \<Rightarrow> event list" where
  "written [] = []"
| "written (FWrote e # xs) = e # written xs"
| "written (_ # xs) = written xs"

text \<open>A command the client sends is queued when it can be translated; \<open>Send\<close> refuses the others.\<close>
definition fake_ticks :: "(instant \<times> instant \<times> (agent_command + fake_input)) list \<Rightarrow> fake_tick list" where
  "fake_ticks xs = List.map_filter (\<lambda>(now, later, x). case x of
       Inl c \<Rightarrow> (case fakeVoiceCommand c of Inl err \<Rightarrow> None | Inr e \<Rightarrow> Some (now, later, FEvent e))
     | Inr (FEvent e) \<Rightarrow> None
     | Inr i \<Rightarrow> Some (now, later, i)) xs"

section \<open>The stream it writes\<close>

lemma written_append [simp]: "written (xs @ ys) = written xs @ written ys"
  by (induction xs rule: written.induct) simp_all

definition convertible :: "event \<Rightarrow> bool" where
  "convertible e \<longleftrightarrow> (case fakeAgentEvent e of Inl _ \<Rightarrow> False | Inr _ \<Rightarrow> True)"

lemma convertible_iff:
  "convertible e \<longleftrightarrow> fake_type (ev_Type e) \<noteq> None
     \<and> (ev_Type e = AudioOutput \<longrightarrow> (\<exists>pcm. DecodeAudio (ev_Audio e) = Inr pcm))"
  by (auto simp: convertible_def fakeAgentEvent_def split: option.splits sum.splits)

lemma fake_types_simps [simp]:
  "fake_type SessionReady = Some AgentSessionReady" "fake_type SessionState = Some AgentSessionState"
  "fake_type SessionStopped = Some AgentSessionClosed" "fake_type AudioOutput = Some OutputAudio"
  "fake_type Transcript = Some OutputTranscript" "fake_type TurnStarted = Some AgentTurnStarted"
  "fake_type TurnCompleted = Some AgentTurnCompleted" "fake_type TurnInterrupted = Some AgentTurnInterrupted"
  "fake_type ErrorEvent = Some AgentError"
  by (simp_all add: fake_type_def fake_types_def)

text \<open>What a responder may still emit.\<close>
definition scripted :: "event \<Rightarrow> bool" where
  "scripted e \<longleftrightarrow> ev_Type e = Transcript
     \<or> (ev_Type e = AudioOutput \<and> (\<exists>pcm. DecodeAudio (ev_Audio e) = Inr pcm))"

lemma length_concat_put: "length (concat (map (\<lambda>k. put_u16 (f k)) xs)) = 2 * length xs"
  by (induction xs) simp_all

lemma length_tone_chunk [simp]: "length (tone_chunk sample chunk) = 1920"
  by (simp add: tone_chunk_def length_concat_put)

lemma DecodeAudio_tone: "DecodeAudio (b64_encode (tone_chunk sample chunk)) = Inr (tone_chunk sample chunk)"
proof -
  have "tone_chunk sample chunk \<noteq> []" by (metis length_tone_chunk list.size(3) zero_neq_numeral)
  then show ?thesis by (simp add: DecodeAudio_encode)
qed

lemma scripted_Respond: "list_all scripted (Respond sample)"
  by (auto simp: Respond_def scripted_def list_all_iff zero_event_def intro: DecodeAudio_tone)

definition fake_pos :: "fake_loop \<Rightarrow> (u64 \<times> string list) option" where
  "fake_pos l = track (0, []) (written (fk_trace l))"

definition stream_safe :: "fake_loop \<Rightarrow> bool" where
  "stream_safe l \<longleftrightarrow> fake_pos l \<noteq> None \<and> list_all convertible (written (fk_trace l))"

text \<open>
  The turn being heard or answered is used and not interrupted; every interrupted turn is used, so
  none is ever opened again.
\<close>
definition turn_ok :: "session \<Rightarrow> u64 \<Rightarrow> (u64 \<times> string list) option \<Rightarrow> bool" where
  "turn_ok c n st \<longleftrightarrow> (case st of None \<Rightarrow> False | Some (k, dead) \<Rightarrow>
     set dead \<subseteq> set (cs_usedTurns c)
     \<and> (cs_State c = Listening \<longrightarrow> k = 0 \<and> cs_TurnID c \<in> set (cs_usedTurns c) - set dead)
     \<and> (cs_State c = Responding \<longrightarrow> k = n \<and> cs_TurnID c \<in> set (cs_usedTurns c) - set dead))"

definition fake_inv :: "fake_loop \<Rightarrow> bool" where
  "fake_inv l \<longleftrightarrow> stream_safe l \<and> turn_ok (fk_conv l) (fk_outputSequence l) (fake_pos l)
     \<and> list_all (\<lambda>(_, es). list_all scripted es) (fk_jobs l)"

text \<open>What a step must show: the invariant when it goes on, and in any case a good stream.\<close>
definition fake_post :: "bool \<Rightarrow> fake_loop \<Rightarrow> bool" where
  "fake_post ok l \<longleftrightarrow> stream_safe l \<and> (ok \<longrightarrow> fake_inv l)"

lemma wp_fake_do [simp]: "wp (fake_do a) Q l = Q () (l\<lparr>fk_trace := fk_trace l @ [a]\<rparr>)"
  by (simp add: fake_do_def)

lemma wp_set_conv [simp]: "wp (set_conv c) Q l = Q () (l\<lparr>fk_conv := c\<rparr>)"
  by (simp add: set_conv_def)

lemma fake_pos_simps [simp]:
  "fake_pos (l\<lparr>fk_trace := fk_trace l @ [a]\<rparr>) = (case a of
     FWrote e \<Rightarrow> (case fake_pos l of None \<Rightarrow> None | Some st \<Rightarrow> track_step st e) | _ \<Rightarrow> fake_pos l)"
  "fake_pos (l\<lparr>fk_conv := c\<rparr>) = fake_pos l" "fake_pos (l\<lparr>fk_turnCancel := b\<rparr>) = fake_pos l"
  "fake_pos (l\<lparr>fk_startedAt := t\<rparr>) = fake_pos l" "fake_pos (l\<lparr>fk_firstAudio := d\<rparr>) = fake_pos l"
  "fake_pos (l\<lparr>fk_outputSequence := q\<rparr>) = fake_pos l" "fake_pos (l\<lparr>fk_jobs := js\<rparr>) = fake_pos l"
  "fake_pos (l\<lparr>fk_io := k\<rparr>) = fake_pos l"
  by (cases a) (simp_all add: fake_pos_def track_append split: option.split)

lemma stream_safe_simps [simp]:
  "stream_safe (l\<lparr>fk_trace := fk_trace l @ [a]\<rparr>) \<longleftrightarrow> (case a of
     FWrote e \<Rightarrow> stream_safe l \<and> convertible e \<and> (case fake_pos l of None \<Rightarrow> False | Some st \<Rightarrow> track_step st e \<noteq> None)
   | _ \<Rightarrow> stream_safe l)"
  "stream_safe (l\<lparr>fk_conv := c\<rparr>) = stream_safe l" "stream_safe (l\<lparr>fk_turnCancel := b\<rparr>) = stream_safe l"
  "stream_safe (l\<lparr>fk_startedAt := t\<rparr>) = stream_safe l" "stream_safe (l\<lparr>fk_firstAudio := d\<rparr>) = stream_safe l"
  "stream_safe (l\<lparr>fk_outputSequence := q\<rparr>) = stream_safe l" "stream_safe (l\<lparr>fk_jobs := js\<rparr>) = stream_safe l"
  "stream_safe (l\<lparr>fk_io := k\<rparr>) = stream_safe l"
  by (cases a; auto simp: stream_safe_def fake_pos_def track_append split: option.split)+

lemma stream_safe_pos: "stream_safe l \<Longrightarrow> \<exists>k dead. fake_pos l = Some (k, dead)"
  by (auto simp: stream_safe_def)

text \<open>A write of an event the stream allows; the state after it is where the code goes on.\<close>
lemma wp_fake_write:
  assumes "stream_safe l" "convertible e" "fake_pos l = Some st" "track_step st e = Some st'"
    "\<And>ok l'. stream_safe l' \<Longrightarrow> fake_pos l' = Some st' \<Longrightarrow> fk_conv l' = fk_conv l \<Longrightarrow> fk_jobs l' = fk_jobs l
       \<Longrightarrow> fk_outputSequence l' = fk_outputSequence l \<Longrightarrow> Q ok l'"
  shows "wp (fake_write E e) Q l"
  using assms by (simp add: fake_write_def)

lemma wp_fake_error:
  assumes "stream_safe l" "fake_pos l = Some st"
    "\<And>ok l'. stream_safe l' \<Longrightarrow> fake_pos l' = Some st \<Longrightarrow> fk_conv l' = fk_conv l \<Longrightarrow> fk_jobs l' = fk_jobs l
       \<Longrightarrow> fk_outputSequence l' = fk_outputSequence l \<Longrightarrow> Q ok l'"
  shows "wp (fake_error E code msg) Q l"
  unfolding fake_error_def using assms
  by (auto intro!: wp_fake_write [where st = st and st' = st] simp: convertible_iff track_step_def Let_def)

lemma wp_fake_state:
  assumes "stream_safe l" "fake_pos l = Some st"
    "\<And>ok l'. stream_safe l' \<Longrightarrow> fake_pos l' = Some st \<Longrightarrow> fk_conv l' = fk_conv l \<Longrightarrow> fk_jobs l' = fk_jobs l
       \<Longrightarrow> fk_outputSequence l' = fk_outputSequence l \<Longrightarrow> Q ok l'"
  shows "wp (fake_state E) Q l"
  unfolding fake_state_def using assms
  by (auto intro!: wp_fake_write [where st = st and st' = st] simp: convertible_iff track_step_def Let_def)

lemma wp_fake_interrupt:
  assumes "stream_safe l" "fake_pos l = Some (k, dead)" "turn \<notin> set dead"
    "\<And>ok l'. stream_safe l' \<Longrightarrow> fake_pos l' = Some (k, turn # dead) \<Longrightarrow> fk_conv l' = fk_conv l
       \<Longrightarrow> fk_jobs l' = fk_jobs l \<Longrightarrow> fk_outputSequence l' = fk_outputSequence l \<Longrightarrow> Q ok l'"
  shows "wp (fake_interrupt E later turn at) Q l"
  unfolding fake_interrupt_def using assms
  by (auto intro!: wp_fake_write [where st = "(k, dead)" and st' = "(k, turn # dead)"]
      simp: convertible_iff track_step_def Let_def)


lemma fake_invD:
  assumes "fake_inv l"
  obtains k dead where "stream_safe l" "fake_pos l = Some (k, dead)"
    "turn_ok (fk_conv l) (fk_outputSequence l) (Some (k, dead))" "list_all (\<lambda>(_, es). list_all scripted es) (fk_jobs l)"
  using assms stream_safe_pos by (fastforce simp: fake_inv_def)

lemma fake_postI:
  "stream_safe l \<Longrightarrow> fake_pos l = Some st \<Longrightarrow> turn_ok (fk_conv l) (fk_outputSequence l) (Some st)
     \<Longrightarrow> list_all (\<lambda>(_, es). list_all scripted es) (fk_jobs l) \<Longrightarrow> fake_post ok l"
  by (simp add: fake_post_def fake_inv_def)

lemma fake_error_post:
  assumes "fake_inv l" shows "wp (fake_error E code msg) fake_post l"
proof -
  obtain k dead where l: "stream_safe l" "fake_pos l = Some (k, dead)"
    "turn_ok (fk_conv l) (fk_outputSequence l) (Some (k, dead))" "list_all (\<lambda>(_, es). list_all scripted es) (fk_jobs l)"
    using assms by (rule fake_invD)
  show ?thesis
    by (rule wp_fake_error [OF l(1,2)]) (rule fake_postI [where st = "(k, dead)"]; use l in simp)
qed

text \<open>\<open>Append\<close> either keeps the conversation, extends the turn, or opens an unused one.\<close>
lemma Append_Inr:
  assumes "snd (Append e c) = Inr interrupted"
  shows "(if opens_turn c e
     then cs_TurnID (fst (Append e c)) = ev_TurnID e \<and> cs_State (fst (Append e c)) = Listening
        \<and> cs_usedTurns (fst (Append e c)) = ev_TurnID e # cs_usedTurns c
        \<and> ev_TurnID e \<notin> set (cs_usedTurns c) \<and> interrupted = (if cs_State c = Responding then cs_TurnID c else [])
        \<and> cs_State c \<in> {Idle, Responding}
     else cs_State c = Listening \<and> interrupted = [] \<and> cs_TurnID (fst (Append e c)) = cs_TurnID c
        \<and> cs_State (fst (Append e c)) = Listening \<and> cs_usedTurns (fst (Append e c)) = cs_usedTurns c)"
proof (cases "DecodeAudio (ev_Audio e)")
  case (Inl err)
  then show ?thesis using assms by (auto simp: Append_def split: if_splits)
next
  case (Inr pcm)
  show ?thesis
  proof (cases "opens_turn c e")
    case True
    then have "cs_State c \<in> {Idle, Responding}" by (auto simp: opens_turn_def)
    then show ?thesis using assms True Inr
      by (simp add: Append_def Let_def List.insert_def split: if_splits)
  next
    case False
    then show ?thesis using assms Inr by (simp add: Append_def Let_def split: if_splits)
  qed
qed

lemma Append_Inl: "snd (Append e c) = Inl err \<Longrightarrow> fst (Append e c) = c"
  by (cases "DecodeAudio (ev_Audio e)") (auto simp: Append_def Let_def split: if_splits)

text \<open>The announcement of a new turn.\<close>
lemma wp_announce:
  assumes "stream_safe l" "fake_pos l = Some (k, dead)" "list_all (\<lambda>(_, es). list_all scripted es) (fk_jobs l)"
    "turn_ok (fk_conv l) (fk_outputSequence l) (Some (0, dead))"
  shows "wp (after (fake_write E (turn_event TurnStarted t)) (fake_state E)) fake_post l"
  unfolding wp_after using assms
  by (auto intro!: wp_fake_write [where st = "(k, dead)" and st' = "(0, dead)"]
      wp_fake_state [where st = "(0, dead)"] fake_postI [where st = "(0, dead)"]
      simp: convertible_iff track_step_def fake_post_def)

lemma fake_append_post:
  assumes "fake_inv l" shows "wp (fake_append E at later e) fake_post l"
proof -
  obtain k dead where l: "stream_safe l" "fake_pos l = Some (k, dead)"
    "turn_ok (fk_conv l) (fk_outputSequence l) (Some (k, dead))" "list_all (\<lambda>(_, es). list_all scripted es) (fk_jobs l)"
    using assms by (rule fake_invD)
  show ?thesis
  proof (cases "snd (Append e (fk_conv l))")
    case (Inl err)
    then show ?thesis using assms by (simp add: fake_append_def Append_Inl fake_error_post)
  next
    case (Inr interrupted)
    note app = Append_Inr [OF Inr]
    show ?thesis
    proof (cases "opens_turn (fk_conv l) e")
      case False
      then have c: "cs_State (fk_conv l) = Listening" "interrupted = []"
        "cs_TurnID (fst (Append e (fk_conv l))) = cs_TurnID (fk_conv l)"
        "cs_State (fst (Append e (fk_conv l))) = Listening"
        "cs_usedTurns (fst (Append e (fk_conv l))) = cs_usedTurns (fk_conv l)"
        using app by auto
      then have "fake_post True (l\<lparr>fk_conv := fst (Append e (fk_conv l))\<rparr>)"
        using l by (intro fake_postI) (auto simp: turn_ok_def)
      then show ?thesis using c by (simp add: fake_append_def Inr)
    next
      case True
      let ?c = "fst (Append e (fk_conv l))"
      have c: "cs_TurnID ?c = ev_TurnID e" "cs_usedTurns ?c = ev_TurnID e # cs_usedTurns (fk_conv l)"
        "cs_State ?c = Listening" "ev_TurnID e \<notin> set (cs_usedTurns (fk_conv l))"
        "interrupted = (if cs_State (fk_conv l) = Responding then cs_TurnID (fk_conv l) else [])"
        "cs_State (fk_conv l) \<in> {Idle, Responding}"
        using app True by simp_all
      have new: "cs_TurnID (fk_conv l) \<noteq> cs_TurnID ?c \<or> cs_State (fk_conv l) = Idle"
        using c l(3) by (auto simp: turn_ok_def)
      have turns: "turn_ok ?c (fk_outputSequence l) (Some (0, dead))"
        "interrupted \<noteq> [] \<Longrightarrow> turn_ok ?c (fk_outputSequence l) (Some (0, interrupted # dead))"
        "interrupted \<noteq> [] \<Longrightarrow> interrupted \<notin> set dead"
        using l(3) c by (auto simp: turn_ok_def split: if_splits)
      have announced: "wp (after (fake_write E (turn_event TurnStarted (cs_TurnID ?c))) (fake_state E)) fake_post l'"
        if "stream_safe l'" "fake_pos l' = Some (k, d)" "fk_conv l' = ?c" "fk_jobs l' = fk_jobs l"
          "turn_ok ?c (fk_outputSequence l') (Some (0, d))" for l' d
        by (rule wp_announce) (use that l(4) in simp_all)
      show ?thesis
      proof (cases "interrupted = []")
        case True
        then show ?thesis using l new turns(1) announced [of "l\<lparr>fk_conv := ?c\<rparr>" dead]
          by (simp add: fake_append_def Inr del: wp_after) simp
      next
        case False
        let ?l = "l\<lparr>fk_conv := ?c\<rparr>"
        have "wp (after (fake_interrupt E later interrupted at)
            (after (fake_write E (turn_event TurnStarted (cs_TurnID ?c))) (fake_state E))) fake_post ?l"
        proof (rule wp_after [THEN iffD2], rule wp_fake_interrupt [where k = k and dead = dead])
          show "stream_safe ?l" "fake_pos ?l = Some (k, dead)" "interrupted \<notin> set dead"
            using l turns(3) [OF False] by simp_all
        next
          fix ok l'
          assume l': "stream_safe l'" "fake_pos l' = Some (k, interrupted # dead)" "fk_conv l' = fk_conv ?l"
            "fk_jobs l' = fk_jobs ?l" "fk_outputSequence l' = fk_outputSequence ?l"
          then have "wp (after (fake_write E (turn_event TurnStarted (cs_TurnID ?c))) (fake_state E)) fake_post l'"
            using turns(2) [OF False] by (intro announced [where d = "interrupted # dead"]) simp_all
          then show "if ok then wp (after (fake_write E (turn_event TurnStarted (cs_TurnID ?c))) (fake_state E)) fake_post l'
              else fake_post False l'" using l' by (simp add: fake_post_def del: wp_after)
        qed
        then show ?thesis using new False by (simp add: fake_append_def Inr del: wp_after)
      qed
    qed
  qed
qed

lemma fake_commit_post:
  assumes "fake_inv l" shows "wp (fake_commit E later e) fake_post l"
proof -
  obtain k dead where l: "stream_safe l" "fake_pos l = Some (k, dead)"
    "turn_ok (fk_conv l) (fk_outputSequence l) (Some (k, dead))" "list_all (\<lambda>(_, es). list_all scripted es) (fk_jobs l)"
    using assms by (rule fake_invD)
  show ?thesis
  proof (cases "snd (Commit (ev_TurnID e) (fk_conv l))")
    case (Inl err)
    then have "fst (Commit (ev_TurnID e) (fk_conv l)) = fk_conv l" by (auto simp: Commit_def split: if_splits)
    then show ?thesis using assms by (simp add: fake_commit_def Inl fake_error_post)
  next
    case (Inr pcm)
    let ?c = "fst (Commit (ev_TurnID e) (fk_conv l))"
    have "turn_ok ?c 0 (Some (k, dead))"
      using Inr l(3) by (auto simp: Commit_def turn_ok_def split: if_splits)
    then have "fake_post ok (l'\<lparr>fk_trace := fk_trace l' @ [FStarted t d], fk_turnCancel := True, fk_startedAt := later,
        fk_firstAudio := 0, fk_outputSequence := 0, fk_jobs := fk_jobs l' @ [(t', Respond (fe_sample E))]\<rparr>)"
      if "stream_safe l'" "fake_pos l' = Some (k, dead)" "fk_conv l' = ?c" "fk_jobs l' = fk_jobs l" for ok l' t d t'
      using that l(4) scripted_Respond by (intro fake_postI [where st = "(k, dead)"]) simp_all
    then show ?thesis using l
      by (auto simp: fake_commit_def Inr startProvider_def fake_post_def intro!: wp_fake_state)
  qed
qed

lemma fake_cancel_post:
  assumes "fake_inv l" shows "wp (fake_cancel E at later e) fake_post l"
proof -
  obtain k dead where l: "stream_safe l" "fake_pos l = Some (k, dead)"
    "turn_ok (fk_conv l) (fk_outputSequence l) (Some (k, dead))" "list_all (\<lambda>(_, es). list_all scripted es) (fk_jobs l)"
    using assms by (rule fake_invD)
  show ?thesis
  proof (cases "snd (Cancel (ev_TurnID e) (fk_conv l))")
    case (Some err)
    then have "fst (Cancel (ev_TurnID e) (fk_conv l)) = fk_conv l" by (auto simp: Cancel_def split: if_splits)
    then show ?thesis using assms by (simp add: fake_cancel_def Some fake_error_post)
  next
    case None
    let ?c = "fst (Cancel (ev_TurnID e) (fk_conv l))" and ?st = "(k, ev_TurnID e # dead)"
    have dead: "ev_TurnID e \<notin> set dead" and "turn_ok ?c n (Some ?st)" for n
      using None l(3) by (auto simp: Cancel_def turn_ok_def split: if_splits)
    then have "fake_post ok l'"
      if "stream_safe l'" "fake_pos l' = Some ?st" "fk_conv l' = ?c" "fk_jobs l' = fk_jobs l" for ok l'
      using that l(4) by (intro fake_postI [where st = ?st]) simp_all
    then show ?thesis using l dead
      by (auto simp: fake_cancel_def None fake_post_def intro!: wp_fake_interrupt wp_fake_state)
  qed
qed

lemma fake_stop_post:
  assumes "fake_inv l" shows "wp (fake_stop E) fake_post l"
proof -
  obtain k dead where "stream_safe l" "fake_pos l = Some (k, dead)" using assms by (rule fake_invD)
  then show ?thesis
    by (auto intro!: wp_fake_write [where st = "(k, dead)" and st' = "(k, dead)"]
        simp: fake_stop_def convertible_iff track_step_def fake_post_def zero_event_def Let_def)
qed

lemma fake_event_post: "fake_inv l \<Longrightarrow> wp (fake_event E at later e) fake_post l"
  by (simp add: fake_event_def fake_append_post fake_commit_post fake_cancel_post fake_stop_post fake_error_post)

lemma fake_output_post:
  assumes "fake_inv l" "scripted e" shows "wp (fake_output E now turn e) fake_post l"
proof -
  obtain k dead where l: "stream_safe l" "fake_pos l = Some (k, dead)"
    "turn_ok (fk_conv l) (fk_outputSequence l) (Some (k, dead))" "list_all (\<lambda>(_, es). list_all scripted es) (fk_jobs l)"
    using assms(1) by (rule fake_invD)
  show ?thesis
  proof (cases "current turn l")
    case False
    then show ?thesis using assms by (simp add: fake_output_def fake_post_def fake_inv_def)
  next
    case True
    then have turn: "turn \<notin> set dead" "k = fk_outputSequence l" "cs_State (fk_conv l) = Responding"
      using l(3) by (auto simp: turn_ok_def current_def)
    have kept: "turn_ok (fk_conv l) (k + 1) (Some (k + 1, dead))"
      using l(3) turn by (auto simp: turn_ok_def)
    have post: "fake_post ok l'"
      if "stream_safe l'" "fake_pos l' = Some (n, dead)" "fk_conv l' = fk_conv l" "fk_jobs l' = fk_jobs l"
        "turn_ok (fk_conv l) (fk_outputSequence l') (Some (n, dead))" for ok l' n
      using that l(4) by (intro fake_postI [where st = "(n, dead)"]) simp_all
    show ?thesis
    proof (cases "ev_Type e = AudioOutput")
      case audio: True
      show ?thesis using True audio assms(2) l turn kept
        by (auto simp: fake_output_def scripted_def convertible_iff track_step_def Let_def
            intro!: wp_fake_write [where st = "(k, dead)" and st' = "(k + 1, dead)"] post [where n = "k + 1"])
    next
      case other: False
      then show ?thesis using True assms(2) l turn
        by (auto simp: fake_output_def scripted_def convertible_iff track_step_def Let_def
            intro!: wp_fake_write [where st = "(k, dead)" and st' = "(k, dead)"] post [where n = k])
    qed
  qed
qed

lemma fake_done_post:
  assumes "fake_inv l" shows "wp (fake_done E now turn err) fake_post l"
proof -
  obtain k dead where l: "stream_safe l" "fake_pos l = Some (k, dead)"
    "turn_ok (fk_conv l) (fk_outputSequence l) (Some (k, dead))" "list_all (\<lambda>(_, es). list_all scripted es) (fk_jobs l)"
    using assms(1) by (rule fake_invD)
  show ?thesis
  proof (cases "current turn l")
    case False
    then show ?thesis using assms by (simp add: fake_done_def fake_post_def fake_inv_def)
  next
    case True
    let ?c = "fst (CompleteTurn turn (fk_conv l))" and ?st = "(k, dead)"
    have turn: "turn \<notin> set dead" and kept: "turn_ok ?c n (Some ?st)" for n
      using l(3) True by (auto simp: turn_ok_def current_def CompleteTurn_def)
    have post: "fake_post ok l'"
      if "stream_safe l'" "fake_pos l' = Some ?st" "fk_conv l' = ?c" "fk_jobs l' = fk_jobs l" for ok l'
      using that l(4) kept by (intro fake_postI [where st = ?st]) simp_all
    show ?thesis
    proof (cases err)
      case None
      then show ?thesis using True l turn
        by (auto simp: fake_done_def convertible_iff track_step_def Let_def fake_post_def
            intro!: wp_fake_write [where st = ?st and st' = ?st] wp_fake_state [where st = ?st]
              post [unfolded fake_post_def, THEN conjunct2, rule_format])
    next
      case (Some deadline)
      then show ?thesis using True l
        by (auto simp: fake_done_def fake_post_def intro!: wp_fake_error [where st = ?st] wp_fake_state [where st = ?st]
              post [unfolded fake_post_def, THEN conjunct2, rule_format])
    qed
  qed
qed

lemma fake_inv_post: "fake_inv l \<Longrightarrow> fake_post ok l"
  by (simp add: fake_post_def fake_inv_def)

lemma fake_inv_jobs:
  "fake_inv l \<Longrightarrow> list_all (\<lambda>(_, es). list_all scripted es) js \<Longrightarrow> fake_inv (l\<lparr>fk_jobs := js\<rparr>)"
  by (simp add: fake_inv_def)

lemma fake_step_post:
  assumes "fake_inv l" shows "wp (fake_step E x) fake_post l"
proof -
  have jobs: "list_all (\<lambda>(_, es). list_all scripted es) (fk_jobs l)" using assms by (simp add: fake_inv_def)
  obtain now later i where x: "x = (now, later, i)" by (cases x)
  show ?thesis
  proof (cases i)
    case (FSaid n)
    show ?thesis
    proof (cases "n < length (fk_jobs l)")
      case True
      obtain turn es where job: "fk_jobs l ! n = (turn, es)" by (cases "fk_jobs l ! n")
      then have script: "list_all scripted es" using jobs True by (metis (mono_tags, lifting) case_prodD list_all_length)
      have updated: "list_all (\<lambda>(_, es). list_all scripted es) ((fk_jobs l)[n := (turn, es')])"
        if "list_all scripted es'" for es'
        using jobs that by (auto simp: list_all_iff dest!: set_update_subset_insert [THEN subsetD])
      show ?thesis using True assms jobs job script
        by (cases es) (auto simp: x FSaid fake_inv_post intro!: fake_output_post fake_inv_jobs updated)
    qed (simp add: x FSaid fake_inv_post assms)
  next
    case (FEnded n err)
    have "list_all (\<lambda>(_, es). list_all scripted es) (drop_nth n (fk_jobs l))"
      using jobs by (auto simp: drop_nth_def list_all_iff dest: in_set_takeD in_set_dropD)
    then show ?thesis using assms by (auto simp: x FEnded fake_inv_post intro!: fake_done_post fake_inv_jobs)
  qed (use assms in \<open>simp_all add: x fake_inv_post fake_event_post\<close>)
qed

lemma fake_loop_post: "fake_inv l \<Longrightarrow> wp (each (fake_step E) ticks) fake_post l"
proof (induction ticks arbitrary: l)
  case (Cons x ticks)
  have go: "if ok then wp (each (fake_step E) ticks) fake_post l' else fake_post False l'"
    if "fake_post ok l'" for ok l'
  proof (cases ok)
    case True
    then have "fake_inv l'" using that by (simp add: fake_post_def)
    then show ?thesis using True Cons.IH by simp
  qed (use that in simp)
  have "wp (fake_step E x) (\<lambda>ok l'. if ok then wp (each (fake_step E) ticks) fake_post l' else fake_post False l') l"
    by (rule wp_mono [OF fake_step_post [OF Cons.prems] go])
  then show ?case by simp
qed (simp add: fake_inv_post)

definition fake_written :: "fake_env \<Rightarrow> fake_loop \<Rightarrow> fake_tick list \<Rightarrow> event list" where
  "fake_written E l ticks = written (fk_trace (snd (run_state (runFake E ticks) l)))"

lemma fake_start_inv: "fake_inv (fake_start rid sid)"
  by (simp add: fake_inv_def stream_safe_def fake_pos_def turn_ok_def fake_start_def NewSession_def)

lemma runFake_safe:
  assumes "fake_inv l"
  shows "wp (runFake E ticks) (\<lambda>_ l'. stream_safe l') l"
proof -
  obtain k dead where l: "stream_safe l" "fake_pos l = Some (k, dead)"
    "turn_ok (fk_conv l) (fk_outputSequence l) (Some (k, dead))" "list_all (\<lambda>(_, es). list_all scripted es) (fk_jobs l)"
    using assms(1) by (rule fake_invD)
  have "wp (after (fake_write E (zero_event\<lparr>ev_Type := SessionReady, ev_Provider := ''fake'', ev_State := Idle\<rparr>))
      (each (fake_step E) ticks)) fake_post l"
    unfolding wp_after using l
    by (auto intro!: wp_fake_write [where st = "(k, dead)" and st' = "(k, dead)"] fake_loop_post
        simp: convertible_iff track_step_def zero_event_def Let_def fake_inv_def) (simp add: fake_post_def)
  then show ?thesis
    unfolding runFake_def wp_bind by (rule wp_mono) (simp add: fake_post_def)
qed

text \<open>
  Whatever a client sends the demo, however its responders are interleaved and whichever writes
  fail: the stream of a session numbers the audio of each turn from 1 without gaps, interrupts a
  turn at most once and never says anything of it again, and every event it writes has a
  counterpart in the agent protocol, so that no write fails for its content.
\<close>
theorem fake_stream_ok:
  "case FakeOpen st rid of
     Inl _ \<Rightarrow> st_SessionID st = [] \<or> st_Provider st \<noteq> ''fake''
   | Inr l \<Rightarrow> stream_ok (fake_written E l (fake_ticks inputs))
       \<and> list_all (\<lambda>e. case fakeAgentEvent e of Inl _ \<Rightarrow> False | Inr _ \<Rightarrow> True) (fake_written E l (fake_ticks inputs))"
proof -
  have "stream_safe (snd (run_state (runFake E ticks) (fake_start rid (st_SessionID st))))" for ticks
    using runFake_safe [OF fake_start_inv] by (simp add: wp_run)
  then show ?thesis
    by (simp add: FakeOpen_def fake_written_def stream_safe_def stream_ok_def fake_pos_def convertible_def [abs_def])
qed

section \<open>A committed turn is answered\<close>

text \<open>The events of a responder as the session writes them.\<close>
fun spoken :: "string \<Rightarrow> u64 \<Rightarrow> event list \<Rightarrow> event list" where
  "spoken turn q [] = []"
| "spoken turn q (e # es) =
     (if ev_Type e = AudioOutput then e\<lparr>ev_TurnID := turn, ev_Sequence := q + 1\<rparr> # spoken turn (q + 1) es
      else e\<lparr>ev_TurnID := turn\<rparr> # spoken turn q es)"

lemma wp_write_ok:
  assumes "fe_io E = (\<lambda>_. True)" "convertible e"
    "\<And>l'. fk_conv l' = fk_conv l \<Longrightarrow> fk_jobs l' = fk_jobs l \<Longrightarrow> fk_outputSequence l' = fk_outputSequence l
       \<Longrightarrow> written (fk_trace l') = written (fk_trace l) @ [e] \<Longrightarrow> Q True l'"
  shows "wp (fake_write E e) Q l"
  using assms by (simp add: fake_write_def convertible_def split: sum.splits)

lemma wp_said:
  assumes "fe_io E = (\<lambda>_. True)" "list_all scripted es" "length ts = length es"
    "cs_State (fk_conv l) = Responding" "cs_TurnID (fk_conv l) = turn" "n < length (fk_jobs l)"
    "fk_jobs l ! n = (turn, es)"
  shows "wp (each (fake_step E) (map (\<lambda>(a, b). (a, b, FSaid n)) ts)) (\<lambda>ok l'. ok \<and> fk_conv l' = fk_conv l
    \<and> n < length (fk_jobs l') \<and> fk_jobs l' ! n = (turn, [])
    \<and> written (fk_trace l') = written (fk_trace l) @ spoken turn (fk_outputSequence l) es) l"
  using assms(2-)
proof (induction es arbitrary: ts l)
  case (Cons e es)
  then obtain a b ts' where ts: "ts = (a, b) # ts'" "length ts' = length es" by (cases ts) auto
  let ?w = "e\<lparr>ev_TurnID := turn, ev_Sequence := (if ev_Type e = AudioOutput then fk_outputSequence l + 1 else ev_Sequence e)\<rparr>"
  have conv: "convertible ?w" using Cons.prems(1) by (auto simp: scripted_def convertible_iff)
  have w: "?w = (if ev_Type e = AudioOutput then e\<lparr>ev_TurnID := turn, ev_Sequence := fk_outputSequence l + 1\<rparr>
      else e\<lparr>ev_TurnID := turn\<rparr>)" by simp
  have rest: "wp (each (fake_step E) (map (\<lambda>(a, b). (a, b, FSaid n)) ts')) (\<lambda>ok l''. ok \<and> fk_conv l'' = fk_conv l
      \<and> n < length (fk_jobs l'') \<and> fk_jobs l'' ! n = (turn, [])
      \<and> written (fk_trace l'') = written (fk_trace l) @ spoken turn (fk_outputSequence l) (e # es)) l'"
    if "fk_conv l' = fk_conv l" "fk_jobs l' = (fk_jobs l)[n := (turn, es)]"
      "fk_outputSequence l' = (if ev_Type e = AudioOutput then fk_outputSequence l + 1 else fk_outputSequence l)"
      "written (fk_trace l') = written (fk_trace l) @ [?w]" for l'
    by (rule wp_mono [OF Cons.IH [of ts' l']]) (use Cons.prems ts that in \<open>auto simp: w\<close>)
  show ?case
  proof (cases "ev_Type e = AudioOutput")
    case True
    then show ?thesis using Cons.prems assms(1) conv rest
      by (auto simp: ts fake_output_def current_def intro!: wp_write_ok)
  next
    case False
    then show ?thesis using Cons.prems assms(1) conv rest
      by (auto simp: ts fake_output_def current_def intro!: wp_write_ok)
  qed
qed simp

lemma each_append: "wp (each f (xs @ ys)) Q l \<longleftrightarrow> wp (each f xs) (\<lambda>ok l'. if ok then wp (each f ys) Q l' else Q False l') l"
proof (induction xs arbitrary: l)
  case (Cons x xs)
  have "(if ok then wp (each f (xs @ ys)) Q l' else Q False l')
      = (if ok then wp (each f xs) (\<lambda>ok l'. if ok then wp (each f ys) Q l' else Q False l') l'
         else if False then wp (each f ys) Q l' else Q False l')" for ok l'
    using Cons.IH by simp
  then show ?case by simp
qed simp

lemma each_single: "wp (each f [x]) Q l = wp (f x) Q l"
  by (auto simp: after_def proceed_def leave_def wp_def split: prod.split)

text \<open>What a client is told of an answered turn: the events' types, turns and numbers.\<close>
definition outline :: "event list \<Rightarrow> (string \<times> string \<times> u64) list" where
  "outline es = map (\<lambda>e. (ev_Type e, ev_TurnID e, ev_Sequence e)) es"

definition answer_outline :: "string \<Rightarrow> (string \<times> string \<times> u64) list" where
  "answer_outline turn = [(SessionState, turn, 0), (Transcript, turn, 0), (Transcript, turn, 0)]
     @ map (\<lambda>k. (AudioOutput, turn, word_of_nat (Suc k))) [0..<20]
     @ [(TurnCompleted, turn, 0), (SessionState, turn, 0)]"

lemma outline_Respond:
  "outline (spoken turn 0 (Respond sample))
     = [(Transcript, turn, 0), (Transcript, turn, 0)] @ map (\<lambda>k. (AudioOutput, turn, word_of_nat (Suc k))) [0..<20]"
  by (simp add: outline_def Respond_def zero_event_def upt_rec)

lemma wp_ended:
  assumes "fe_io E = (\<lambda>_. True)" "cs_State (fk_conv l) = Responding" "cs_TurnID (fk_conv l) = turn"
    "n < length (fk_jobs l)" "fk_jobs l ! n = (turn, [])"
  shows "wp (fake_step E (now, later, FEnded n None)) (\<lambda>ok l'. ok \<and> cs_State (fk_conv l') = Idle
    \<and> (\<exists>ws. written (fk_trace l') = written (fk_trace l) @ ws
         \<and> outline ws = [(TurnCompleted, turn, 0), (SessionState, turn, 0)])) l"
  using assms
  by (auto simp: fake_done_def fake_state_def current_def CompleteTurn_def convertible_iff outline_def turn_event_def
      zero_event_def intro!: wp_write_ok)

text \<open>
  C27. A committed turn is answered: when its responder is heard to the end and no write fails, the
  session announces that it is responding, writes the two transcripts, the twenty audio frames
  numbered from 1 and the completion, all under the turn's id, and goes back to idle. What else the
  client did before does not matter.
\<close>
theorem fake_turn_answered:
  assumes "fe_io E = (\<lambda>_. True)" "cs_State (fk_conv l) = Listening" "cs_TurnID (fk_conv l) = turn"
    "cs_pcm (fk_conv l) \<noteq> []" "ev_Type e = TurnCommit" "ev_TurnID e = turn" "length ts = 22"
    "run_state (each (fake_step E) ([(t1, t2, FEvent e)] @ map (\<lambda>(a, b). (a, b, FSaid (length (fk_jobs l)))) ts
       @ [(t3, t4, FEnded (length (fk_jobs l)) None)])) l = (ok, l')"
  shows "ok \<and> cs_State (fk_conv l') = Idle \<and> take (length (written (fk_trace l))) (written (fk_trace l')) = written (fk_trace l)
     \<and> outline (drop (length (written (fk_trace l))) (written (fk_trace l'))) = answer_outline turn"
proof -
  let ?n = "length (fk_jobs l)" and ?R = "Respond (fe_sample E)"
  have len: "length ?R = 22" by (simp add: Respond_def)
  have "wp (fake_step E (t1, t2, FEvent e)) (\<lambda>ok l1. ok \<and> cs_State (fk_conv l1) = Responding
      \<and> cs_TurnID (fk_conv l1) = turn \<and> ?n < length (fk_jobs l1) \<and> fk_jobs l1 ! ?n = (turn, ?R)
      \<and> fk_outputSequence l1 = 0
      \<and> (\<exists>ws. written (fk_trace l1) = written (fk_trace l) @ ws \<and> outline ws = [(SessionState, turn, 0)])) l"
    using assms
    by (auto simp: fake_event_def fake_commit_def Commit_def fake_state_def startProvider_def convertible_iff outline_def
        turn_event_def zero_event_def nth_append intro!: wp_write_ok)
  moreover have "wp (each (fake_step E) (map (\<lambda>(a, b). (a, b, FSaid ?n)) ts @ [(t3, t4, FEnded ?n None)]))
      (\<lambda>ok l'. ok \<and> cs_State (fk_conv l') = Idle \<and> (\<exists>ws. written (fk_trace l') = written (fk_trace l) @ ws
         \<and> outline ws = answer_outline turn)) l1"
    if l1: "cs_State (fk_conv l1) = Responding" "cs_TurnID (fk_conv l1) = turn" "?n < length (fk_jobs l1)"
      "fk_jobs l1 ! ?n = (turn, ?R)" "fk_outputSequence l1 = 0" "written (fk_trace l1) = written (fk_trace l) @ ws1"
      "outline ws1 = [(SessionState, turn, 0)]" for l1 ws1
    unfolding each_append
  proof (rule wp_mono [OF wp_said [OF assms(1) scripted_Respond, where turn = turn and n = ?n and ts = ts and l = l1]])
    fix ok and l2 :: fake_loop
    assume l2: "ok \<and> fk_conv l2 = fk_conv l1 \<and> ?n < length (fk_jobs l2) \<and> fk_jobs l2 ! ?n = (turn, [])
      \<and> written (fk_trace l2) = written (fk_trace l1) @ spoken turn (fk_outputSequence l1) ?R"
    have "wp (fake_step E (t3, t4, FEnded ?n None)) (\<lambda>ok l'. ok \<and> cs_State (fk_conv l') = Idle
        \<and> (\<exists>ws. written (fk_trace l') = written (fk_trace l) @ ws \<and> outline ws = answer_outline turn)) l2"
      by (rule wp_mono [OF wp_ended [OF assms(1), where turn = turn]])
        (use l1 l2 outline_Respond [of turn "fe_sample E"] in \<open>auto simp: answer_outline_def outline_def\<close>)
    then show "if ok then wp (each (fake_step E) [(t3, t4, FEnded ?n None)]) (\<lambda>ok l'. ok \<and> cs_State (fk_conv l') = Idle
        \<and> (\<exists>ws. written (fk_trace l') = written (fk_trace l) @ ws \<and> outline ws = answer_outline turn)) l2
      else False \<and> cs_State (fk_conv l2) = Idle
        \<and> (\<exists>ws. written (fk_trace l2) = written (fk_trace l) @ ws \<and> outline ws = answer_outline turn)"
      using l2 by (simp add: each_single del: each.simps fake_step.simps)
  qed (use l1 assms(7) len in simp_all)
  ultimately have "wp (each (fake_step E) ([(t1, t2, FEvent e)] @ map (\<lambda>(a, b). (a, b, FSaid ?n)) ts
       @ [(t3, t4, FEnded ?n None)])) (\<lambda>ok l'. ok \<and> cs_State (fk_conv l') = Idle
        \<and> (\<exists>ws. written (fk_trace l') = written (fk_trace l) @ ws \<and> outline ws = answer_outline turn)) l"
    by (simp del: fake_step.simps) (auto elim!: wp_mono simp del: fake_step.simps)
  then show ?thesis unfolding wp_run assms(8) fst_conv snd_conv by auto
qed

theorem fake_turn_answered_witness:
  "\<exists>ok l'. run_state (each (fake_step \<lparr>fe_io = \<lambda>_. True, fe_sample = \<lambda>_. 0, fe_TurnTimeout = 1\<rparr>)
     ([(0, 0, FEvent (turn_event TurnCommit ''t''))] @ map (\<lambda>(a, b). (a, b, FSaid 0)) (replicate 22 (1, 1))
       @ [(2, 2, FEnded 0 None)])) ((fake_start [] ''s'')\<lparr>fk_conv := (NewSession ''s'')\<lparr>cs_State := Listening,
          cs_TurnID := ''t'', cs_pcm := [0, 0]\<rparr>\<rparr>) = (ok, l')
     \<and> ok \<and> outline (written (fk_trace l')) = answer_outline ''t''"
proof -
  let ?E = "\<lparr>fe_io = \<lambda>_. True, fe_sample = \<lambda>_. 0, fe_TurnTimeout = 1\<rparr>"
  let ?l = "(fake_start [] ''s'')\<lparr>fk_conv := (NewSession ''s'')\<lparr>cs_State := Listening, cs_TurnID := ''t'', cs_pcm := [0, 0]\<rparr>\<rparr>"
  obtain ok l' where run: "run_state (each (fake_step ?E) ([(0, 0, FEvent (turn_event TurnCommit ''t''))]
      @ map (\<lambda>(a, b). (a, b, FSaid (length (fk_jobs ?l)))) (replicate 22 (1, 1))
      @ [(2, 2, FEnded (length (fk_jobs ?l)) None)])) ?l = (ok, l')"
    by (metis surj_pair)
  have "ok \<and> outline (written (fk_trace l')) = answer_outline ''t''"
    using fake_turn_answered [OF _ _ _ _ _ _ _ run, of "''t''"] by (simp add: fake_start_def)
  moreover have "length (fk_jobs ?l) = 0" by (simp add: fake_start_def)
  ultimately show ?thesis using run by metis
qed

end
