(* ===== verification/Gateway_Config.thy ===== *)
theory Gateway_Config
  imports Gateway_Voice Agent_Service
begin

text \<open>
  The configuration of the voice gateway: \<open>Load\<close> and \<open>loadAgentCatalog\<close> of
  \<open>apps/voice-gateway/internal/bootstrap/config/config.go\<close>, and what \<open>main\<close>
  (\<open>apps/voice-gateway/cmd/gateway/main.go\<close>) builds from it. \<open>ge_world\<close> is what a process reads, as
  for the agent, \<open>ge_Environ\<close> what \<open>os.Environ\<close> lists, and \<open>ge_URLPath\<close> the path of a parsed URL.
\<close>

record gateway_env =
  ge_world :: world
  ge_Environ :: "string list"
  ge_URLPath :: "string \<Rightarrow> string"

section \<open>Variables\<close>

text \<open>The variables that only the agent reads.\<close>
definition agent_variable :: "string \<Rightarrow> bool" where
  "agent_variable key \<longleftrightarrow> has_prefix key ''STS_LITELLM_'' \<or> has_prefix key ''STS_MCP_'' \<or> has_prefix key ''STS_NOVA_''
     \<or> key \<in> {''STS_AGENT_PROMPT_FILE'', ''STS_INTEGRATIONS_DIR'', ''STS_TURN_TIMEOUT''}"

fun environ_error :: "string list \<Rightarrow> error option" where
  "environ_error [] = None"
| "environ_error (item # items) =
     (case cut_byte CHR ''='' item of
        (key, v, _) \<Rightarrow> if v \<noteq> [] \<and> agent_variable key then Some (key @ '' belongs to the agent'') else environ_error items)"

text \<open>The two loops that check variables; a variable that is empty or not set is not checked.\<close>
fun durations_error :: "world \<Rightarrow> string list \<Rightarrow> error option" where
  "durations_error w [] = None"
| "durations_error w (key # keys) =
     (if Getenv w key = [] then durations_error w keys
      else (case wd_ParseDuration w (Getenv w key) of
          None \<Rightarrow> Some (key @ '' must be a positive duration'')
        | Some d \<Rightarrow> if d \<le> 0 then Some (key @ '' must be a positive duration'') else durations_error w keys))"

fun integers_error :: "world \<Rightarrow> string list \<Rightarrow> error option" where
  "integers_error w [] = None"
| "integers_error w (key # keys) =
     (if Getenv w key = [] then integers_error w keys
      else (case Atoi (Getenv w key) of
          None \<Rightarrow> Some (key @ '' must be positive'')
        | Some n \<Rightarrow> if n \<le> 0 then Some (key @ '' must be positive'') else integers_error w keys))"

definition env_duration_or :: "world \<Rightarrow> string \<Rightarrow> duration \<Rightarrow> duration" where
  "env_duration_or w key fallback =
     (if Getenv w key = [] then fallback
      else (case wd_ParseDuration w (Getenv w key) of None \<Rightarrow> fallback | Some d \<Rightarrow> d))"

definition env_integer_or :: "world \<Rightarrow> string \<Rightarrow> int \<Rightarrow> int" where
  "env_integer_or w key fallback =
     (if Getenv w key = [] then fallback
      else (case Atoi (Getenv w key) of None \<Rightarrow> fallback | Some n \<Rightarrow> if n \<le> 0 then fallback else n))"

section \<open>The catalog of agents\<close>

record catalog_entry =
  ce_ID :: string
  ce_Endpoint :: string
  ce_Protocol :: string
  ce_TokenEnv :: string

definition zero_entry :: catalog_entry where
  "zero_entry = \<lparr>ce_ID = [], ce_Endpoint = [], ce_Protocol = [], ce_TokenEnv = []\<rparr>"

definition entry_fields :: "catalog_entry fields" where
  "entry_fields =
     [string_field ''id'' (\<lambda>v x. x\<lparr>ce_ID := v\<rparr>), string_field ''endpoint'' (\<lambda>v x. x\<lparr>ce_Endpoint := v\<rparr>),
      string_field ''protocol'' (\<lambda>v x. x\<lparr>ce_Protocol := v\<rparr>), string_field ''token_env'' (\<lambda>v x. x\<lparr>ce_TokenEnv := v\<rparr>)]"

text \<open>A slice of structs off the front of the input, unknown fields refused, and what follows it.\<close>
definition decode_entries :: "string \<Rightarrow> (catalog_entry list \<times> string) option" where
  "decode_entries raw =
     (case json_prefix raw of
        Some (JNull, r) \<Rightarrow> Some ([], r)
      | Some (JArr _, r) \<Rightarrow>
          (case raw_elems raw of
             None \<Rightarrow> None
           | Some ts \<Rightarrow> map_option (\<lambda>es. (es, r)) (those (map (decode_whole (strict_fields entry_fields) zero_entry) ts)))
      | _ \<Rightarrow> None)"

fun catalog_endpoints :: "world \<Rightarrow> catalog_entry list \<Rightarrow> error + endpoint list" where
  "catalog_endpoints w [] = Inr []"
| "catalog_endpoints w (e # es) =
     (if (ce_Protocol e \<noteq> Protocol \<and> ce_Protocol e \<noteq> ProtocolV2) \<or> \<not> envName (ce_TokenEnv e)
         \<or> \<not> has_prefix (ce_TokenEnv e) ''STS_AGENT_TOKEN''
      then Inl ''agent catalog protocol or token reference is invalid''
      else (case wd_LookupEnv w (ce_TokenEnv e) of
          None \<Rightarrow> Inl ''agent catalog token reference is missing''
        | Some token \<Rightarrow>
            if token = [] then Inl ''agent catalog token reference is missing''
            else checked (catalog_endpoints w es) (\<lambda>eps.
              Inr (\<lparr>ep_Protocol = ce_Protocol e, ep_AgentID = ce_ID e, ep_URL = ce_Endpoint e, ep_Token = token\<rparr> # eps))))"

definition loadAgentCatalog :: "world \<Rightarrow> string \<Rightarrow> error + endpoint list" where
  "loadAgentCatalog w raw =
     (case decode_entries raw of
        None \<Rightarrow> Inl ''STS_AGENT_CATALOG must be a nonempty strict JSON array''
      | Some (entries, r) \<Rightarrow>
          if entries = [] then Inl ''STS_AGENT_CATALOG must be a nonempty strict JSON array''
          else if \<not> at_eof r then Inl ''STS_AGENT_CATALOG contains trailing JSON''
          else checked (catalog_endpoints w entries) (\<lambda>endpoints.
            checked (NewRemoteFactory (wd_ParseURL w) (wd_LoopbackIP w) endpoints) (\<lambda>_. Inr endpoints)))"

section \<open>The configuration\<close>

text \<open>The configuration a server is built from, with what only \<open>main\<close> uses.\<close>
record loaded_config =
  lc_Environment :: string
  lc_GatewayAddress :: string
  lc_config :: Gateway_Voice.gateway_config

definition identity_url_ok :: "gateway_env \<Rightarrow> string \<Rightarrow> bool" where
  "identity_url_ok G url \<longleftrightarrow> (case wd_ParseURL (ge_world G) url of
       None \<Rightarrow> False
     | Some u \<Rightarrow> \<not> (pu_Host u = [] \<or> pu_User u \<or> pu_RawQuery u \<noteq> [] \<or> pu_Fragment u \<noteq> []
         \<or> (ge_URLPath G url \<noteq> [] \<and> ge_URLPath G url \<noteq> ''/'')
         \<or> (pu_Scheme u \<noteq> ''https'' \<and> \<not> (pu_Scheme u = ''http'' \<and> pu_Hostname u \<in> {''127.0.0.1'', ''::1''}))))"

text \<open>May the gateway run without a development token?\<close>
definition local_development :: "world \<Rightarrow> string \<Rightarrow> string \<Rightarrow> bool" where
  "local_development w environment host \<longleftrightarrow>
     environment = ''development'' \<and> (host = ''localhost'' \<or> wd_LoopbackIP w host)"

definition env_gateway :: "world \<Rightarrow> string \<Rightarrow> Gateway_Voice.gateway_config" where
  "env_gateway w principalID =
     \<lparr>gc_Provider = envValue w ''STS_PROVIDER'' ''fake'', gc_MaxSessions = env_integer_or w ''STS_MAX_SESSIONS'' 16,
      gc_MaxEventBytes = env_integer_or w ''STS_MAX_EVENT_BYTES'' (512 * 1024),
      gc_ReadTimeout = env_duration_or w ''STS_READ_TIMEOUT'' (15 * second_ns),
      gc_WriteTimeout = env_duration_or w ''STS_WRITE_TIMEOUT'' (15 * second_ns),
      gc_IdleTimeout = env_duration_or w ''STS_IDLE_TIMEOUT'' (90 * second_ns),
      gc_DefaultAgentID = envValue w ''STS_DEFAULT_AGENT_ID'' ''personal-assistant'',
      gc_DevelopmentToken = Getenv w ''STS_DEVELOPMENT_TOKEN'',
      gc_Principal = \<lparr>p_Subject = principalID, p_ClientCode = [], p_SessionRef = [], p_DeviceID = [], p_Authenticated = False\<rparr>,
      gc_Catalog = [], gc_IdentityURL = [], gc_IdentityToken = []\<rparr>"

definition principal_id :: "world \<Rightarrow> string \<Rightarrow> error + string" where
  "principal_id w environment =
     (if Getenv w ''STS_PRINCIPAL_ID'' \<noteq> [] then Inr (Getenv w ''STS_PRINCIPAL_ID'')
      else if environment \<noteq> ''development'' then Inl ''STS_PRINCIPAL_ID is required outside development''
      else Inr ''local-user'')"

definition env_identity :: "gateway_env \<Rightarrow> Gateway_Voice.gateway_config \<Rightarrow> error + Gateway_Voice.gateway_config" where
  "env_identity G c =
     (let w = ge_world G; url = Getenv w ''STS_IDENTITY_URL'';
          c1 = c\<lparr>gc_IdentityURL := url, gc_IdentityToken := Getenv w ''STS_IDENTITY_SERVICE_TOKEN''\<rparr> in
      if url = [] then Inr c1
      else if \<not> identity_url_ok G url then Inl ''identity URL must be loopback or HTTPS''
      else Inr (c1\<lparr>gc_IdentityURL := trim_slashes url\<rparr>))"

text \<open>\<open>if err := ...; err != nil { return err }\<close>\<close>
definition guarded :: "error option \<Rightarrow> error + 'a \<Rightarrow> error + 'a" where
  "guarded x y = (case x of Some err \<Rightarrow> Inl err | None \<Rightarrow> y)"

definition LoadGateway :: "gateway_env \<Rightarrow> error + loaded_config" where
  "LoadGateway G =
     (let w = ge_world G; environment = envValue w ''STS_ENV'' ''development'' in
      if Getenv w ''STS_AGENT_MODE'' \<noteq> [] \<and> Getenv w ''STS_AGENT_MODE'' \<noteq> ''remote''
      then Inl ''inprocess was removed; roll back the complete v0.10.x release''
      else guarded (environ_error (ge_Environ G))
        (guarded (durations_error w [''STS_READ_TIMEOUT'', ''STS_WRITE_TIMEOUT'', ''STS_IDLE_TIMEOUT''])
        (guarded (integers_error w [''STS_MAX_EVENT_BYTES'', ''STS_MAX_SESSIONS''])
        (checked (principal_id w environment) (\<lambda>pid.
         guarded (ValidatePrincipal (gc_Principal (env_gateway w pid)))
        (checked (loadAgentCatalog w (Getenv w ''STS_AGENT_CATALOG'')) (\<lambda>catalog.
         checked (env_identity G ((env_gateway w pid)\<lparr>gc_Catalog := catalog\<rparr>)) (\<lambda>c.
         if \<not> list_ex (\<lambda>e. ep_AgentID e = gc_DefaultAgentID c) catalog then Inl ''default agent absent from catalog''
         else (case wd_SplitHostPort w (envValue w ''STS_GATEWAY_ADDRESS'' ''127.0.0.1:8080'') of
             None \<Rightarrow> Inl ''gateway address must be host:port''
           | Some host \<Rightarrow>
               if gc_DevelopmentToken c = [] \<and> \<not> local_development w environment host
               then Inl ''development token required outside local development''
               else if gc_Provider c \<noteq> ''fake'' \<and> gc_Provider c \<noteq> ''nova'' then Inl ''unsupported provider''
               else Inr \<lparr>lc_Environment = environment,
                  lc_GatewayAddress = envValue w ''STS_GATEWAY_ADDRESS'' ''127.0.0.1:8080'', lc_config = c\<rparr>)))))))))"

text \<open>
  \<open>main\<close> up to the listening: the address and the timeouts of the HTTP server, the certificate and
  key when it serves TLS, and the handler's configuration and agents.
\<close>
record gateway_process =
  gp_Addr :: string
  gp_ReadTimeout :: duration
  gp_WriteTimeout :: duration
  gp_IdleTimeout :: duration
  gp_TLS :: "(string \<times> string) option"
  gp_config :: Gateway_Voice.gateway_config
  gp_agents :: "endpoint gomap"

definition gateway_main :: "gateway_env \<Rightarrow> error + gateway_process" where
  "gateway_main G =
     checked (LoadGateway G) (\<lambda>lc.
     checked (NewServer (wd_ParseURL (ge_world G)) (wd_LoopbackIP (ge_world G)) (lc_config lc)) (\<lambda>(c, f).
       let cert = Getenv (ge_world G) ''STS_TLS_CERT'' in
       Inr \<lparr>gp_Addr = lc_GatewayAddress lc, gp_ReadTimeout = gc_ReadTimeout (lc_config lc),
         gp_WriteTimeout = gc_WriteTimeout (lc_config lc), gp_IdleTimeout = gc_IdleTimeout (lc_config lc),
         gp_TLS = (if cert \<noteq> [] then Some (cert, Getenv (ge_world G) ''STS_TLS_KEY'') else None),
         gp_config = c, gp_agents = f\<rparr>))"

section \<open>A gateway that starts\<close>

lemma guarded_Inr [simp]: "guarded x y = Inr z \<longleftrightarrow> x = None \<and> y = Inr z"
  by (cases x) (simp_all add: guarded_def)

lemma checked_eq_Inr: "checked x f = Inr z \<longleftrightarrow> (\<exists>y. x = Inr y \<and> f y = Inr z)"
  by (cases x) (simp_all add: checked_def)

text \<open>An entry of the environment that does not set a variable of the agent.\<close>
definition not_of_agent :: "string \<Rightarrow> bool" where
  "not_of_agent item \<longleftrightarrow> (case cut_byte CHR ''='' item of (key, v, _) \<Rightarrow> v = [] \<or> \<not> agent_variable key)"

lemma environ_error_None: "environ_error items = None \<Longrightarrow> list_all not_of_agent items"
proof (induction items)
  case (Cons item items)
  then show ?case by (cases "cut_byte CHR ''='' item") (auto simp: not_of_agent_def split: if_splits)
qed simp

lemma durations_error_None:
  "durations_error w keys = None \<Longrightarrow> key \<in> set keys \<Longrightarrow> 0 < fallback \<Longrightarrow> 0 < env_duration_or w key fallback"
  by (induction keys) (auto simp: env_duration_or_def split: if_splits option.splits)

lemma env_integer_or_pos: "0 < fallback \<Longrightarrow> 0 < env_integer_or w key fallback"
  by (auto simp: env_integer_or_def split: option.split)

text \<open>An endpoint of a catalog: its token is in a variable of that name and its URL is safe.\<close>
definition endpoint_safe :: "world \<Rightarrow> endpoint \<Rightarrow> bool" where
  "endpoint_safe w ep \<longleftrightarrow> ep_Protocol ep \<in> {Protocol, ProtocolV2}
     \<and> ValidateEndpoint (wd_ParseURL w) (wd_LoopbackIP w) ep = None
     \<and> (\<exists>v. has_prefix v ''STS_AGENT_TOKEN'' \<and> wd_LookupEnv w v = Some (ep_Token ep))"

lemma catalog_endpoints_Inr:
  "catalog_endpoints w es = Inr eps \<Longrightarrow> list_all (\<lambda>ep. ep_Protocol ep \<in> {Protocol, ProtocolV2}
     \<and> (\<exists>v. has_prefix v ''STS_AGENT_TOKEN'' \<and> wd_LookupEnv w v = Some (ep_Token ep))) eps"
  by (induction es arbitrary: eps) (auto simp: checked_eq_Inr split: if_splits option.splits)

lemma add_endpoints_valid:
  "add_endpoints parse loopback eps f = Inr g \<Longrightarrow> list_all (\<lambda>ep. ep_Protocol ep \<in> {Protocol, ProtocolV2}) eps
     \<Longrightarrow> list_all (\<lambda>ep. ValidateEndpoint parse loopback ep = None) eps"
  by (induction eps arbitrary: f) (auto simp: Let_def split: if_splits option.splits)

lemma loadAgentCatalog_Inr:
  assumes "loadAgentCatalog w raw = Inr eps"
  shows "list_all (endpoint_safe w) eps" "length eps \<in> {1..16}" "distinct (map ep_AgentID eps)"
    "\<exists>f. NewRemoteFactory (wd_ParseURL w) (wd_LoopbackIP w) eps = Inr f"
proof -
  obtain es f where es: "catalog_endpoints w es = Inr eps"
    and new: "NewRemoteFactory (wd_ParseURL w) (wd_LoopbackIP w) eps = Inr f"
    using assms by (auto simp: loadAgentCatalog_def checked_eq_Inr split: option.splits if_splits)
  have add: "add_endpoints (wd_ParseURL w) (wd_LoopbackIP w) eps [] = Inr f" "length eps \<in> {1..16}"
    using new by (auto simp: NewRemoteFactory_def Suc_le_eq split: if_splits)
  then show "length eps \<in> {1..16}" "distinct (map ep_AgentID eps)" using add_endpoints_Inr by blast+
  show "\<exists>f. NewRemoteFactory (wd_ParseURL w) (wd_LoopbackIP w) eps = Inr f" using new by blast
  show "list_all (endpoint_safe w) eps"
    using catalog_endpoints_Inr [OF es] add_endpoints_valid [OF add(1)]
    by (auto simp: endpoint_safe_def list_all_iff)
qed

text \<open>What a gateway that starts relies on.\<close>
definition gateway_safe :: "gateway_env \<Rightarrow> gateway_process \<Rightarrow> bool" where
  "gateway_safe G p \<longleftrightarrow>
     (let w = ge_world G; c = gp_config p in
      list_all not_of_agent (ge_Environ G)
      \<and> gc_Provider c \<in> {''fake'', ''nova''} \<and> ValidatePrincipal (gc_Principal c) = None
      \<and> (gc_DevelopmentToken c \<noteq> []
          \<or> (\<exists>host. wd_SplitHostPort w (gp_Addr p) = Some host
               \<and> local_development w (envValue w ''STS_ENV'' ''development'') host))
      \<and> 0 < gc_MaxSessions c \<and> 0 < gc_MaxEventBytes c
      \<and> 0 < gp_ReadTimeout p \<and> 0 < gp_WriteTimeout p \<and> 1000000 \<le> gp_IdleTimeout p
      \<and> gp_ReadTimeout p = gc_ReadTimeout c \<and> gp_WriteTimeout p = gc_WriteTimeout c \<and> gp_IdleTimeout p = gc_IdleTimeout c
      \<and> list_all (endpoint_safe w) (gc_Catalog c) \<and> length (gc_Catalog c) \<in> {1..16} \<and> distinct (map ep_AgentID (gc_Catalog c))
      \<and> gget (gp_agents p) (gc_DefaultAgentID c) \<noteq> None
      \<and> (gc_IdentityURL c = [] \<and> Getenv w ''STS_IDENTITY_URL'' = []
          \<or> identity_url_ok G (Getenv w ''STS_IDENTITY_URL'') \<and> gc_IdentityURL c = trim_slashes (Getenv w ''STS_IDENTITY_URL'')))"

lemma env_identity_Inr:
  "env_identity G c = Inr c' \<Longrightarrow> \<exists>url tok. c' = c\<lparr>gc_IdentityURL := url, gc_IdentityToken := tok\<rparr>
     \<and> (if Getenv (ge_world G) ''STS_IDENTITY_URL'' = [] then url = []
        else identity_url_ok G (Getenv (ge_world G) ''STS_IDENTITY_URL'') \<and> url = trim_slashes (Getenv (ge_world G) ''STS_IDENTITY_URL''))"
  by (cases c) (auto simp: env_identity_def Let_def split: if_splits)

lemma envValue_nonempty: "fallback \<noteq> [] \<Longrightarrow> envValue w key fallback \<noteq> []"
  by (simp add: envValue_def)

lemma NewServer_Inr:
  assumes "NewServer parse loopback c0 = Inr (c, f)" "gc_DefaultAgentID c0 \<noteq> []"
  shows "c = c0" "ValidatePrincipal (gc_Principal c) = None" "gc_Provider c \<in> {''fake'', ''nova''}"
    "0 < gc_MaxSessions c" "0 < gc_MaxEventBytes c" "0 < gc_ReadTimeout c" "0 < gc_WriteTimeout c"
    "1000000 \<le> gc_IdleTimeout c" "add_endpoints parse loopback (gc_Catalog c) [] = Inr f"
  using assms by (auto simp: NewServer_def NewRemoteFactory_def Let_def split: if_splits option.splits sum.splits)

lemma LoadGateway_Inr:
  assumes "LoadGateway G = Inr lc"
  shows "list_all not_of_agent (ge_Environ G)"
    "list_all (endpoint_safe (ge_world G)) (gc_Catalog (lc_config lc))"
    "length (gc_Catalog (lc_config lc)) \<in> {1..16}" "distinct (map ep_AgentID (gc_Catalog (lc_config lc)))"
    "gc_DefaultAgentID (lc_config lc) \<noteq> []"
    "list_ex (\<lambda>e. ep_AgentID e = gc_DefaultAgentID (lc_config lc)) (gc_Catalog (lc_config lc))"
    "gc_DevelopmentToken (lc_config lc) \<noteq> [] \<or> (\<exists>host. wd_SplitHostPort (ge_world G) (lc_GatewayAddress lc) = Some host
       \<and> local_development (ge_world G) (envValue (ge_world G) ''STS_ENV'' ''development'') host)"
    "gc_IdentityURL (lc_config lc) = [] \<and> Getenv (ge_world G) ''STS_IDENTITY_URL'' = []
       \<or> identity_url_ok G (Getenv (ge_world G) ''STS_IDENTITY_URL'')
         \<and> gc_IdentityURL (lc_config lc) = trim_slashes (Getenv (ge_world G) ''STS_IDENTITY_URL'')"
    "gc_IdleTimeout (lc_config lc) < 1000000
       \<or> (\<exists>x. NewServer (wd_ParseURL (ge_world G)) (wd_LoopbackIP (ge_world G)) (lc_config lc) = Inr x)"
proof -
  let ?w = "ge_world G" and ?c = "lc_config lc"
  obtain pid catalog host where *: "environ_error (ge_Environ G) = None"
    "loadAgentCatalog ?w (Getenv ?w ''STS_AGENT_CATALOG'') = Inr catalog"
    "env_identity G ((env_gateway ?w pid)\<lparr>gc_Catalog := catalog\<rparr>) = Inr ?c"
    "list_ex (\<lambda>e. ep_AgentID e = gc_DefaultAgentID ?c) catalog"
    "wd_SplitHostPort ?w (lc_GatewayAddress lc) = Some host"
    "gc_DevelopmentToken ?c = [] \<Longrightarrow> local_development ?w (envValue ?w ''STS_ENV'' ''development'') host"
    "durations_error ?w [''STS_READ_TIMEOUT'', ''STS_WRITE_TIMEOUT'', ''STS_IDLE_TIMEOUT''] = None"
    "ValidatePrincipal (gc_Principal (env_gateway ?w pid)) = None" "gc_Provider ?c \<in> {''fake'', ''nova''}"
    using assms
    by (auto simp: LoadGateway_def Let_def checked_eq_Inr simp del: durations_error.simps integers_error.simps
        split: if_splits option.splits)
  then obtain url tok where c: "?c = (env_gateway ?w pid)\<lparr>gc_Catalog := catalog, gc_IdentityURL := url, gc_IdentityToken := tok\<rparr>"
    "if Getenv ?w ''STS_IDENTITY_URL'' = [] then url = []
     else identity_url_ok G (Getenv ?w ''STS_IDENTITY_URL'') \<and> url = trim_slashes (Getenv ?w ''STS_IDENTITY_URL'')"
    using env_identity_Inr by blast
  have cat: "gc_Catalog ?c = catalog" "gc_IdentityURL ?c = url" by (simp_all add: c)
  show "list_all not_of_agent (ge_Environ G)" using *(1) by (rule environ_error_None)
  show "list_all (endpoint_safe ?w) (gc_Catalog ?c)" "length (gc_Catalog ?c) \<in> {1..16}"
    "distinct (map ep_AgentID (gc_Catalog ?c))"
    using loadAgentCatalog_Inr [OF *(2)] by (simp_all add: cat)
  show "gc_DefaultAgentID ?c \<noteq> []" by (simp add: c env_gateway_def envValue_nonempty)
  show "list_ex (\<lambda>e. ep_AgentID e = gc_DefaultAgentID ?c) (gc_Catalog ?c)" using *(4) by (simp add: cat)
  show "gc_DevelopmentToken ?c \<noteq> [] \<or> (\<exists>host. wd_SplitHostPort ?w (lc_GatewayAddress lc) = Some host
       \<and> local_development ?w (envValue ?w ''STS_ENV'' ''development'') host)"
    using *(5,6) by blast
  show "gc_IdentityURL ?c = [] \<and> Getenv ?w ''STS_IDENTITY_URL'' = []
       \<or> identity_url_ok G (Getenv ?w ''STS_IDENTITY_URL'') \<and> gc_IdentityURL ?c = trim_slashes (Getenv ?w ''STS_IDENTITY_URL'')"
    using c(2) by (auto simp: cat split: if_splits)
  have "0 < gc_ReadTimeout ?c" "0 < gc_WriteTimeout ?c" "0 < gc_MaxSessions ?c" "0 < gc_MaxEventBytes ?c"
    using durations_error_None [OF *(7)] by (simp_all add: c env_gateway_def env_integer_or_pos second_ns_def)
  moreover have "ValidatePrincipal (gc_Principal ?c) = None" using *(8) by (simp add: c)
  moreover obtain f where "NewRemoteFactory (wd_ParseURL ?w) (wd_LoopbackIP ?w) (gc_Catalog ?c) = Inr f"
    using loadAgentCatalog_Inr(4) [OF *(2)] by (auto simp: cat)
  ultimately show "gc_IdleTimeout ?c < 1000000 \<or> (\<exists>x. NewServer (wd_ParseURL ?w) (wd_LoopbackIP ?w) ?c = Inr x)"
    using *(9) \<open>gc_DefaultAgentID ?c \<noteq> []\<close> by (auto simp: NewServer_def Let_def)
qed

text \<open>
  C30. A gateway that starts is configured safely: no variable of the agent is set; it has a
  development token, unless it listens on a loopback address in development; its provider,
  principal, limits and timeouts are valid; it has 1 to 16 agents with distinct identifiers, each
  reached over TLS or on loopback under a token of its own, the default agent among them; and the
  identity service, when there is one, is reached over HTTPS or on loopback. Once the variables have
  been accepted, it fails to start only for an idle timeout below a millisecond.
\<close>
theorem gateway_started:
  "case gateway_main G of
     Inl err \<Rightarrow> (case LoadGateway G of Inl e \<Rightarrow> e = err | Inr lc \<Rightarrow> gc_IdleTimeout (lc_config lc) < 1000000)
   | Inr p \<Rightarrow> gateway_safe G p"
proof (cases "gateway_main G")
  case (Inl err)
  show ?thesis
  proof (cases "LoadGateway G")
    case (Inr lc)
    then show ?thesis using Inl LoadGateway_Inr(9) [OF Inr]
      by (auto simp: gateway_main_def checked_def Let_def)
  qed (use Inl in \<open>simp add: gateway_main_def checked_def\<close>)
next
  case (Inr p)
  then obtain lc c f where lc: "LoadGateway G = Inr lc"
    and new: "NewServer (wd_ParseURL (ge_world G)) (wd_LoopbackIP (ge_world G)) (lc_config lc) = Inr (c, f)"
    and p: "gp_config p = c" "gp_agents p = f" "gp_Addr p = lc_GatewayAddress lc" "gp_ReadTimeout p = gc_ReadTimeout (lc_config lc)"
      "gp_WriteTimeout p = gc_WriteTimeout (lc_config lc)" "gp_IdleTimeout p = gc_IdleTimeout (lc_config lc)"
    by (auto simp: gateway_main_def checked_eq_Inr Let_def)
  note l = LoadGateway_Inr [OF lc]
  note n = NewServer_Inr [OF new l(5)]
  obtain e where e: "e \<in> set (gc_Catalog c)" "ep_AgentID e = gc_DefaultAgentID c"
    using l(6) by (auto simp: n(1) list_ex_iff)
  then have "find (\<lambda>ep. ep_AgentID ep = gc_DefaultAgentID c) (gc_Catalog c) \<noteq> None"
    by (auto simp: find_None_iff)
  then have "gget f (gc_DefaultAgentID c) \<noteq> None"
    using add_endpoints_Inr [OF n(9)] by (auto split: option.splits)
  then show ?thesis using l(1-8) n by (simp add: Inr gateway_safe_def Let_def p)
qed

end
