(* ===== verification/Gateway_Account.thy ===== *)
theory Gateway_Account
  imports Gateway_Config
begin

text \<open>
  The HTTP surface of the voice gateway: account identity
  (\<open>apps/voice-gateway/internal/adapters/voice/account.go\<close>) and the routes of \<open>server.go\<close> behind
  \<open>authorize\<close>, up to the upgrade of a WebSocket. A request is what \<open>net/http\<close> parsed of it. SHA-256 is
  the argument \<open>sha\<close>; \<open>call\<close> is what the identity service answers to a request. Each handler gives
  its response with the requests it made of the identity service.
\<close>

record http_request =
  hq_Method :: string
  hq_Path :: string
  hq_TLS :: bool
  hq_RemoteAddr :: string
  hq_Header :: "string \<Rightarrow> string"
  hq_Body :: string

datatype response = Respond nat string | UpgradeTo int principal

record identity_call =
  ic_URL :: string
  ic_Token :: string
  ic_Body :: string

text \<open>\<open>None\<close> is a body that cannot be read.\<close>
datatype identity_outcome = IdNotSent error | IdSilent | IdReplied int "string option"

section \<open>Account identity\<close>

definition secureAccountRequest :: "world \<Rightarrow> http_request \<Rightarrow> bool" where
  "secureAccountRequest w r \<longleftrightarrow> hq_TLS r
     \<or> (case wd_SplitHostPort w (hq_RemoteAddr r) of None \<Rightarrow> False | Some host \<Rightarrow> wd_LoopbackIP w host)"

definition deviceIdentity :: "(byte list \<Rightarrow> byte list) \<Rightarrow> http_request \<Rightarrow> error + string" where
  "deviceIdentity sha r =
     (let device = hq_Header r ''X-STS-Device'' in
      if length device < 43 \<or> length device > 128 \<or> contains_any device [32, 13, 10, 9]
      then Inl ''device binding required''
      else Inr (hex_encode (sha (bytes_of device))))"

text \<open>\<open>json.Marshal\<close> of a \<open>map[string]string\<close>.\<close>
definition strings_text :: "string gomap \<Rightarrow> string" where
  "strings_text m = obj_text (map (\<lambda>(k, v). (k, json_quote v)) (sort_key fst m))"

definition identityRequest ::
  "Gateway_Voice.gateway_config \<Rightarrow> (identity_call \<Rightarrow> identity_outcome) \<Rightarrow> string \<Rightarrow> string gomap
   \<Rightarrow> identity_call list \<times> (error + string)"
where
  "identityRequest cfg call path body =
     (if gc_IdentityURL cfg = [] \<or> gc_IdentityToken cfg = [] then ([], Inl ''account unavailable'')
      else (let c = \<lparr>ic_URL = gc_IdentityURL cfg @ path, ic_Token = gc_IdentityToken cfg, ic_Body = strings_text body\<rparr> in
        case call c of
          IdNotSent err \<Rightarrow> ([], Inl err)
        | IdSilent \<Rightarrow> ([c], Inl ''identity unavailable'')
        | IdReplied status data \<Rightarrow>
            ([c], case data of
               None \<Rightarrow> Inl ''identity rejected operation''
             | Some d \<Rightarrow> if length d > 32768 \<or> status \<noteq> 200 then Inl ''identity rejected operation'' else Inr d)))"

definition anonymous :: "string \<Rightarrow> principal" where
  "anonymous device = zero_principal\<lparr>p_Subject := ''anon-'' @ take 24 device, p_DeviceID := device\<rparr>"

definition accountPrincipal ::
  "world \<Rightarrow> (byte list \<Rightarrow> byte list) \<Rightarrow> Gateway_Voice.gateway_config \<Rightarrow> (identity_call \<Rightarrow> identity_outcome) \<Rightarrow> http_request
   \<Rightarrow> identity_call list \<times> (error + principal)"
where
  "accountPrincipal w sha cfg call r =
     (if \<not> secureAccountRequest w r then ([], Inl ''TLS required'')
      else (case deviceIdentity sha r of
          Inl err \<Rightarrow> ([], Inl err)
        | Inr device \<Rightarrow>
          (let token = hq_Header r ''X-STS-Account'' in
           if token = [] then ([], Inr (anonymous device))
           else if length token > 256 then ([], Inl ''invalid account token'')
           else (case identityRequest cfg call ''/internal/introspect''
                   [(''access_token'', token), (''device_id'', device)] of
               (cs, Inl err) \<Rightarrow> (cs, Inl err)
             | (cs, Inr data) \<Rightarrow>
                 (cs, case unmarshal principal_fields zero_principal data of
                    None \<Rightarrow> Inl ''invalid identity response''
                  | Some p \<Rightarrow>
                      if \<not> p_Authenticated p \<or> p_DeviceID p \<noteq> device \<or> ValidatePrincipal p \<noteq> None
                      then Inl ''invalid identity response'' else Inr p)))))"

section \<open>Account operations\<close>

definition allowed_fields :: "(string \<times> string list) list" where
  "allowed_fields =
     [(''begin'', []), (''prepare'', [''transaction_id'']), (''complete'', [''transaction_id'', ''state'', ''code'']),
      (''refresh'', [''refresh_token'']), (''logout'', [''refresh_token''])]"

text \<open>\<open>writeJSON\<close>: the encoder ends the text with a newline.\<close>
definition writeJSON :: "nat \<Rightarrow> string \<Rightarrow> response" where
  "writeJSON status data = Respond status (data @ [bchr 10])"

definition error_json :: "nat \<Rightarrow> string \<Rightarrow> response" where
  "error_json status msg = writeJSON status (strings_text [(''error'', msg)])"

definition not_found :: response where
  "not_found = Respond 404 (''404 page not found'' @ [bchr 10])"

text \<open>
  One \<open>map[string]string\<close> and nothing after it, in at most 8192 bytes; \<open>null\<close> is nil. A longer body
  fails the first or the second \<open>Decode\<close>.
\<close>
definition decode_body :: "string \<Rightarrow> string gomap option" where
  "decode_body s =
     (if length s > 8192 then None
      else (case json_prefix s of
          Some (JObj _, r) \<Rightarrow>
            (case raw_members s of
               None \<Rightarrow> None
             | Some (ms, _) \<Rightarrow> (case decode_strings ms [] of
                 None \<Rightarrow> None | Some m \<Rightarrow> if at_eof r then Some m else None))
        | _ \<Rightarrow> None))"

definition accountControl ::
  "world \<Rightarrow> (byte list \<Rightarrow> byte list) \<Rightarrow> Gateway_Voice.gateway_config \<Rightarrow> (identity_call \<Rightarrow> identity_outcome) \<Rightarrow> http_request
   \<Rightarrow> identity_call list \<times> response"
where
  "accountControl w sha cfg call r =
     (if \<not> secureAccountRequest w r then ([], error_json 426 ''TLS required'')
      else (case deviceIdentity sha r of
          Inl _ \<Rightarrow> ([], error_json 401 ''device binding required'')
        | Inr device \<Rightarrow>
          (let action = trim_prefix (hq_Path r) ''/v2/auth/'' in
           case map_of allowed_fields action of
             None \<Rightarrow> ([], not_found)
           | Some names \<Rightarrow>
             (case decode_body (hq_Body r) of
                None \<Rightarrow> ([], error_json 400 ''invalid request'')
              | Some body \<Rightarrow>
                  if length body \<noteq> length names
                     \<or> list_ex (\<lambda>key. gstr body key = [] \<or> length (gstr body key) > 4096) names
                  then ([], error_json 400 ''invalid request'')
                  else (case identityRequest cfg call (''/auth/'' @ action) (gput ''device_id'' device body) of
                      (cs, Inl _) \<Rightarrow> (cs, error_json 401 ''authentication_failed'')
                    | (cs, Inr data) \<Rightarrow> (cs, Respond 200 data))))))"

section \<open>Routes\<close>

datatype route = Health | Providers | Voice | Auth | Agents | Metrics

definition routes :: "Gateway_Voice.gateway_config \<Rightarrow> (string \<times> string \<times> route) list" where
  "routes cfg =
     [(''GET'', ''/healthz'', Health), (''GET'', ''/v1/providers'', Providers), (''GET'', ''/v1/voice'', Voice)]
     @ (if gc_IdentityURL cfg \<noteq> []
        then [(''GET'', ''/v2/voice'', Voice), (''POST'', ''/v2/auth/{action}'', Auth), (''GET'', ''/v2/agents'', Agents)]
        else [])
     @ [(''GET'', ''/v1/metrics'', Metrics)]"

text \<open>
  The patterns of \<open>http.ServeMux\<close> for paths without escapes: a wildcard is one segment that is not
  empty, and \<open>GET\<close> includes \<open>HEAD\<close>.
\<close>
definition path_matches :: "string \<Rightarrow> string \<Rightarrow> bool" where
  "path_matches pattern path \<longleftrightarrow>
     (if pattern = ''/v2/auth/{action}''
      then has_prefix path ''/v2/auth/'' \<and> trim_prefix path ''/v2/auth/'' \<noteq> []
        \<and> CHR ''/'' \<notin> set (trim_prefix path ''/v2/auth/'')
      else path = pattern)"

definition find_route :: "Gateway_Voice.gateway_config \<Rightarrow> string \<Rightarrow> string \<Rightarrow> route option" where
  "find_route cfg method path = map_option (\<lambda>(_, _, rt). rt)
     (find (\<lambda>(m, p, _). path_matches p path \<and> (method = m \<or> m = ''GET'' \<and> method = ''HEAD'')) (routes cfg))"

definition no_route :: "Gateway_Voice.gateway_config \<Rightarrow> string \<Rightarrow> response" where
  "no_route cfg path =
     (if list_ex (\<lambda>(_, p, _). path_matches p path) (routes cfg)
      then Respond 405 (''Method Not Allowed'' @ [bchr 10]) else not_found)"

definition providers_json :: "Gateway_Voice.gateway_config \<Rightarrow> string" where
  "providers_json cfg =
     (let entry = (\<lambda>ident speech extra. obj_text ([(''available'', ''true''), (''id'', json_quote ident),
            (''inputSampleRate'', ''16000''), (''outputSampleRate'', ''24000'')] @ extra @ [(''speech'', bool_text speech)])) in
      obj_text [(''agentMode'', json_quote ''remote''),
        (''providers'', arr_text [entry ''fake'' False [],
           entry ''nova'' True [(''requires'', json_quote ''LiteLLM Realtime and AWS Bedrock authorization'')]]),
        (''selected'', json_quote (gc_Provider cfg))])"

text \<open>\<open>ratio a b\<close> is the text of the \<open>float64\<close> \<open>a / b / 1000\<close>.\<close>
definition statistics_json :: "(int \<Rightarrow> int \<Rightarrow> string) \<Rightarrow> int \<Rightarrow> counters \<Rightarrow> string" where
  "statistics_json ratio used k =
     (case percentiles (ct_window k) of (p50, p95) \<Rightarrow>
        obj_text [(''activeSessions'', int_text used), (''completedTurns'', int_text (ct_Completed k)),
          (''errors'', int_text (ct_Errors k)),
          (''firstAudioMeanMs'', if ct_FirstAudioCount k > 0 then ratio (ct_FirstAudioMicros k) (ct_FirstAudioCount k) else ''0''),
          (''firstAudioP50Ms'', ratio p50 1), (''firstAudioP95Ms'', ratio p95 1),
          (''firstAudioSamples'', int_text (ct_FirstAudioCount k)), (''interruptedTurns'', int_text (ct_Interrupted k)),
          (''totalSessions'', int_text (ct_Sessions k))])"

text \<open>\<open>handleVoice\<close> up to the upgrade: the account is asked for only on \<open>/v2/voice\<close>.\<close>
definition handleVoice ::
  "world \<Rightarrow> (byte list \<Rightarrow> byte list) \<Rightarrow> Gateway_Voice.gateway_config \<Rightarrow> (identity_call \<Rightarrow> identity_outcome) \<Rightarrow> int \<Rightarrow> http_request
   \<Rightarrow> identity_call list \<times> response"
where
  "handleVoice w sha cfg call used r =
     (case (if hq_Path r = ''/v2/voice'' \<and> ValidatePrincipal (gc_Principal cfg) = None
            then accountPrincipal w sha cfg call r else ([], Inr (gc_Principal cfg))) of
        (cs, account) \<Rightarrow> (cs, case voice_admission cfg (hq_Path r) account used of
            Inl (status, msg) \<Rightarrow> error_json status msg
          | Inr (version, p) \<Rightarrow> UpgradeTo version p))"

record gateway_state =
  gs_config :: Gateway_Voice.gateway_config
  gs_stopping :: bool
  gs_used :: int
  gs_counters :: counters

text \<open>\<open>ServeHTTP\<close>\<close>
definition ServeHTTP ::
  "world \<Rightarrow> (byte list \<Rightarrow> byte list) \<Rightarrow> (int \<Rightarrow> int \<Rightarrow> string) \<Rightarrow> (identity_call \<Rightarrow> identity_outcome) \<Rightarrow> gateway_state \<Rightarrow> http_request
   \<Rightarrow> identity_call list \<times> response"
where
  "ServeHTTP w sha ratio call s r =
     (let cfg = gs_config s in
      if gs_stopping s then ([], error_json 503 ''gateway shutting down'')
      else (case find_route cfg (hq_Method r) (hq_Path r) of
          None \<Rightarrow> ([], no_route cfg (hq_Path r))
        | Some rt \<Rightarrow>
            if rt = Health then ([], writeJSON 200 (obj_text [(''protocolVersion'', ''1''), (''status'', json_quote ''ok'')]))
            else if \<not> authorize cfg (hq_Header r ''Authorization'') then ([], error_json 401 ''unauthorized'')
            else (case rt of
                Health \<Rightarrow> ([], not_found)
              | Providers \<Rightarrow> ([], writeJSON 200 (providers_json cfg))
              | Voice \<Rightarrow> handleVoice w sha cfg call (gs_used s) r
              | Auth \<Rightarrow> accountControl w sha cfg call r
              | Agents \<Rightarrow> ([], writeJSON 200 (obj_text [(''agents'', arr_text (map (\<lambda>e. json_quote (ep_AgentID e)) (gc_Catalog cfg)))]))
              | Metrics \<Rightarrow> ([], writeJSON 200 (statistics_json ratio (gs_used s) (gs_counters s))))))"

section \<open>The identity of an account\<close>

lemma identity_calls:
  "identityRequest cfg call path body = (cs, res) \<Longrightarrow>
     cs = [] \<and> (\<exists>err. res = Inl err)
     \<or> gc_IdentityURL cfg \<noteq> [] \<and> gc_IdentityToken cfg \<noteq> []
       \<and> cs = [\<lparr>ic_URL = gc_IdentityURL cfg @ path, ic_Token = gc_IdentityToken cfg, ic_Body = strings_text body\<rparr>]
       \<and> (case res of Inl _ \<Rightarrow> True | Inr d \<Rightarrow> length d \<le> 32768 \<and> call (hd cs) = IdReplied 200 (Some d))"
  by (auto simp: identityRequest_def Let_def split: if_splits identity_outcome.splits option.splits)

lemma hex_digit_alnum: "n < 16 \<Longrightarrow> is_alnum (hex_digit n)"
  by (simp add: hex_digit_def is_alnum_def is_alpha_def is_lower_def is_digit_def bval_def bchr_def)

lemma hex_encode_alnum: "c \<in> set (hex_encode bs) \<Longrightarrow> is_alnum c"
  using hex_digit_alnum byte_div_less by (fastforce simp: hex_encode_def)

lemma hex_identifier:
  assumes "length bs = 32"
  shows "identifier_ok (hex_encode bs)" "identifier_ok (''anon-'' @ take 24 (hex_encode bs))"
proof -
  have l: "length (hex_encode bs) = 64" using assms by simp
  then have "hex_encode bs \<noteq> []" by (metis list.size(3) zero_neq_numeral)
  then have "is_alnum (hd (hex_encode bs))" by (intro hex_encode_alnum [where bs = bs]) simp
  then show "identifier_ok (hex_encode bs)"
    using l \<open>hex_encode bs \<noteq> []\<close> hex_encode_alnum by (auto simp: identifier_ok_iff ident_char_def)
  have "\<forall>c \<in> set (take 24 (hex_encode bs)). ident_char c"
    using hex_encode_alnum by (auto simp: ident_char_def dest: in_set_takeD)
  then show "identifier_ok (''anon-'' @ take 24 (hex_encode bs))"
    by (auto simp: identifier_ok_iff ident_char_def is_alnum_def is_alpha_def is_lower_def bval_Char)
qed

definition introspection :: "Gateway_Voice.gateway_config \<Rightarrow> string \<Rightarrow> string \<Rightarrow> identity_call" where
  "introspection cfg token device = \<lparr>ic_URL = gc_IdentityURL cfg @ ''/internal/introspect'',
     ic_Token = gc_IdentityToken cfg, ic_Body = strings_text [(''access_token'', token), (''device_id'', device)]\<rparr>"

text \<open>
  C16. The principal of an account is bound to the device that asks: it is given only over TLS or to
  a loopback peer, its device id is the hash of the device secret in the request, and it is a valid
  principal. Without an account token it is anonymous and the identity service is not asked; with
  one it is authenticated, by the answer of the identity service to exactly one introspection of
  that token for that device.
\<close>
theorem account_principal_bound:
  assumes "\<And>bs. length (sha bs) = 32"
  shows "case accountPrincipal w sha cfg call r of
      (cs, Inl _) \<Rightarrow> length cs \<le> 1
    | (cs, Inr p) \<Rightarrow>
        (let device = hex_encode (sha (bytes_of (hq_Header r ''X-STS-Device''))); token = hq_Header r ''X-STS-Account'' in
         secureAccountRequest w r \<and> p_DeviceID p = device \<and> ValidatePrincipal p = None
         \<and> (if token = [] then p = anonymous device \<and> cs = []
            else p_Authenticated p \<and> cs = [introspection cfg token device]
              \<and> (\<exists>data. call (introspection cfg token device) = IdReplied 200 (Some data)
                   \<and> unmarshal principal_fields zero_principal data = Some p)))"
proof -
  let ?device = "hex_encode (sha (bytes_of (hq_Header r ''X-STS-Device'')))" and ?token = "hq_Header r ''X-STS-Account''"
  have valid: "ValidatePrincipal (anonymous ?device) = None"
    using hex_identifier [OF assms] by (simp add: ValidatePrincipal_def anonymous_def zero_principal_def)
  obtain cs res where req: "identityRequest cfg call ''/internal/introspect''
      [(''access_token'', ?token), (''device_id'', ?device)] = (cs, res)" by (cases "identityRequest cfg call ''/internal/introspect''
      [(''access_token'', ?token), (''device_id'', ?device)]")
  show ?thesis
    using valid req identity_calls [OF req]
    by (auto simp: accountPrincipal_def deviceIdentity_def Let_def introspection_def anonymous_def
        split: sum.splits option.splits)
qed

theorem account_principal_bound_witness:
  "\<forall>w cfg call. \<exists>p. snd (accountPrincipal w (\<lambda>_. replicate 32 7) cfg call
     \<lparr>hq_Method = ''GET'', hq_Path = ''/v2/voice'', hq_TLS = True, hq_RemoteAddr = [],
      hq_Header = (\<lambda>h. if h = ''X-STS-Device'' then replicate 43 CHR ''d'' else []), hq_Body = []\<rparr>) = Inr p
   \<and> p_Subject p = ''anon-'' @ concat (replicate 12 ''07'') \<and> \<not> p_Authenticated p \<and> ValidatePrincipal p = None"
    (is "\<forall>w cfg call. ?thesis_of w cfg call")
proof (intro allI)
  fix w cfg call
  let ?r = "\<lparr>hq_Method = ''GET'', hq_Path = ''/v2/voice'', hq_TLS = True, hq_RemoteAddr = [],
      hq_Header = (\<lambda>h. if h = ''X-STS-Device'' then replicate 43 CHR ''d'' else []), hq_Body = []\<rparr>"
  let ?d = "hex_encode (replicate 32 7)"
  have "runes (replicate 43 CHR ''d'') = replicate 43 100" by (simp add: runes_ascii ascii_def bval_Char)
  then have p: "accountPrincipal w (\<lambda>_. replicate 32 7) cfg call ?r = ([], Inr (anonymous ?d))"
    by (simp add: accountPrincipal_def secureAccountRequest_def deviceIdentity_def contains_any_def)
  moreover have "ValidatePrincipal (anonymous ?d) = None"
    using account_principal_bound [where sha = "\<lambda>_. replicate 32 7" and w = w and cfg = cfg and call = call and r = ?r] by (simp add: p Let_def)
  moreover have "p_Subject (anonymous ?d) = ''anon-'' @ concat (replicate 12 ''07'')"
    by code_simp
  moreover have "\<not> p_Authenticated (anonymous ?d)" by (simp add: anonymous_def zero_principal_def)
  ultimately show "?thesis_of w cfg call" by simp
qed

section \<open>What the identity service is asked\<close>

lemma decode_strings_gwf: "decode_strings ms m = Some m' \<Longrightarrow> gwf m \<Longrightarrow> gwf m'"
  by (induction ms m rule: decode_strings.induct) (auto split: option.splits)

lemma decode_body_gwf: "decode_body s = Some m \<Longrightarrow> gwf m \<and> length s \<le> 8192"
  using decode_strings_gwf [where m = "[]" and m' = m]
  by (auto simp: decode_body_def split: if_splits option.splits json.splits)

lemma gstr_key: "gstr m k \<noteq> [] \<Longrightarrow> k \<in> set (map fst m)"
  by (force simp: gstr_def dest: map_of_SomeD split: option.splits)

text \<open>As many members as names, and every name among them: the names are all there is.\<close>
lemma exact_keys:
  assumes "gwf m" "length m = length names" "distinct names" "\<And>k. k \<in> set names \<Longrightarrow> gstr m k \<noteq> []"
  shows "set (map fst m) = set names"
proof -
  have "set names \<subseteq> set (map fst m)" using assms(4) gstr_key by blast
  moreover have "card (set (map fst m)) = card (set names)"
    using assms(1-3) by (simp only: gwf_def distinct_card length_map)
  ultimately show ?thesis by (metis List.finite_set card_subset_eq)
qed

lemma allowed_distinct: "map_of allowed_fields action = Some names \<Longrightarrow> distinct names"
  by (auto simp: allowed_fields_def split: if_splits)

text \<open>
  C17. What a client can make the identity service do: \<open>accountControl\<close> sends it at most one request,
  under the gateway's own token, for one of the five operations, from a secure peer; its members are
  exactly the operation's, each of 1 to 4096 bytes as the client gave them, and the device id,
  which is the hash of the device secret and not what the client says. Only the answer of the
  service is passed on, with status 200; everything else is a refusal.
\<close>
theorem auth_forwarded_exactly:
  "case accountControl w sha cfg call r of (cs, resp) \<Rightarrow>
     (case cs of
        [] \<Rightarrow> (case resp of Respond status _ \<Rightarrow> status \<in> {400, 401, 404, 426} | UpgradeTo _ _ \<Rightarrow> False)
      | [c] \<Rightarrow> secureAccountRequest w r \<and> ic_Token c = gc_IdentityToken cfg
          \<and> (\<exists>action names m. map_of allowed_fields action = Some names
               \<and> ic_URL c = gc_IdentityURL cfg @ ''/auth/'' @ action \<and> ic_Body c = strings_text m
               \<and> set (map fst m) = insert ''device_id'' (set names)
               \<and> gget m ''device_id'' = Some (hex_encode (sha (bytes_of (hq_Header r ''X-STS-Device''))))
               \<and> (\<exists>body. decode_body (hq_Body r) = Some body
                    \<and> list_all (\<lambda>k. gget m k = gget body k \<and> length (gstr m k) \<in> {1..4096}) names))
          \<and> (resp = error_json 401 ''authentication_failed''
              \<or> (\<exists>data. resp = Respond 200 data \<and> call c = IdReplied 200 (Some data) \<and> length data \<le> 32768))
      | _ \<Rightarrow> False)"
proof (cases "secureAccountRequest w r")
  case secure: True
  show ?thesis
  proof (cases "deviceIdentity sha r")
    case (Inl err)
    then show ?thesis using secure by (simp add: accountControl_def error_json_def writeJSON_def)
  next
    case (Inr device)
    then have device: "device = hex_encode (sha (bytes_of (hq_Header r ''X-STS-Device'')))"
      by (auto simp: deviceIdentity_def Let_def split: if_splits)
    let ?action = "trim_prefix (hq_Path r) ''/v2/auth/''"
    show ?thesis
    proof (cases "\<exists>names body. map_of allowed_fields ?action = Some names \<and> decode_body (hq_Body r) = Some body
        \<and> length body = length names \<and> \<not> list_ex (\<lambda>key. gstr body key = [] \<or> length (gstr body key) > 4096) names")
      case False
      then show ?thesis using secure Inr
        by (auto simp: accountControl_def Let_def error_json_def writeJSON_def not_found_def split: option.split)
    next
      case True
      then obtain names body where ok: "map_of allowed_fields ?action = Some names" "decode_body (hq_Body r) = Some body"
        "length body = length names" "\<And>k. k \<in> set names \<Longrightarrow> gstr body k \<noteq> [] \<and> length (gstr body k) \<le> 4096"
        "\<not> list_ex (\<lambda>key. gstr body key = [] \<or> length (gstr body key) > 4096) names"
        by (fastforce simp: list_ex_iff not_less)
      let ?m = "gput ''device_id'' device body"
      have keys: "set (map fst body) = set names"
        using decode_body_gwf [OF ok(2)] ok(3,4) allowed_distinct [OF ok(1)] by (intro exact_keys) auto
      have "''device_id'' \<notin> set names" using ok(1) by (auto simp: allowed_fields_def split: if_splits)
      then have kept: "list_all (\<lambda>k. gget ?m k = gget body k \<and> length (gstr ?m k) \<in> {1..4096}) names"
        using ok(4) by (auto simp: list_all_iff Suc_le_eq)
      have dom: "set (map fst ?m) = insert ''device_id'' (set names)" using keys by (simp add: dom_map_of_conv_image_fst [symmetric] update_conv')
      obtain cs res where req: "identityRequest cfg call (''/auth/'' @ ?action) ?m = (cs, res)"
        by (cases "identityRequest cfg call (''/auth/'' @ ?action) ?m")
      have run: "accountControl w sha cfg call r
          = (cs, case res of Inl _ \<Rightarrow> error_json 401 ''authentication_failed'' | Inr data \<Rightarrow> Respond 200 data)"
        using secure Inr ok req by (simp add: accountControl_def Let_def split: sum.split)
      show ?thesis
      proof (cases cs)
        case Nil
        then show ?thesis using identity_calls [OF req] by (auto simp: run error_json_def writeJSON_def)
      next
        case (Cons c cs')
        then have c: "cs' = []" "c = \<lparr>ic_URL = gc_IdentityURL cfg @ ''/auth/'' @ ?action, ic_Token = gc_IdentityToken cfg, ic_Body = strings_text ?m\<rparr>"
          and res: "case res of Inl _ \<Rightarrow> True | Inr d \<Rightarrow> length d \<le> 32768 \<and> call c = IdReplied 200 (Some d)"
          using identity_calls [OF req] by (auto simp: Cons split: sum.splits)
        have "\<exists>action names m. map_of allowed_fields action = Some names
               \<and> ic_URL c = gc_IdentityURL cfg @ ''/auth/'' @ action \<and> ic_Body c = strings_text m
               \<and> set (map fst m) = insert ''device_id'' (set names) \<and> gget m ''device_id'' = Some device
               \<and> (\<exists>body. decode_body (hq_Body r) = Some body
                    \<and> list_all (\<lambda>k. gget m k = gget body k \<and> length (gstr m k) \<in> {1..4096}) names)"
          by (intro exI [of _ ?action] exI [of _ names] exI [of _ ?m] exI [of _ body] conjI ok(1,2) dom kept)
            (simp_all add: c)
        then show ?thesis using secure res by (simp add: run Cons c(1) device c(2) split: sum.splits)
      qed
    qed
  qed
qed (simp add: accountControl_def error_json_def writeJSON_def)

section \<open>What the gateway admits\<close>

lemma accountPrincipal_secure:
  "accountPrincipal w sha cfg call r = (cs, res) \<Longrightarrow> secureAccountRequest w r \<or> cs = [] \<and> (\<exists>err. res = Inl err)"
  by (auto simp: accountPrincipal_def split: if_splits)

text \<open>A request the gateway may make: of the identity service, under its token.\<close>
definition identity_ok :: "Gateway_Voice.gateway_config \<Rightarrow> identity_call \<Rightarrow> bool" where
  "identity_ok cfg c \<longleftrightarrow> gc_IdentityURL cfg \<noteq> [] \<and> gc_IdentityToken cfg \<noteq> []
     \<and> has_prefix (ic_URL c) (gc_IdentityURL cfg) \<and> ic_Token c = gc_IdentityToken cfg"

lemma identityRequest_ok:
  "identityRequest cfg call path body = (cs, res) \<Longrightarrow> list_all (identity_ok cfg) cs \<and> length cs \<le> 1"
  using identity_calls [of cfg call path body cs res] by (auto simp: identity_ok_def has_prefix_def)

lemma accountPrincipal_ok:
  "accountPrincipal w sha cfg call r = (cs, res) \<Longrightarrow> list_all (identity_ok cfg) cs \<and> length cs \<le> 1"
  by (auto simp: accountPrincipal_def Let_def dest: identityRequest_ok split: if_splits sum.splits prod.splits)

lemma accountControl_ok:
  "accountControl w sha cfg call r = (cs, res) \<Longrightarrow> list_all (identity_ok cfg) cs \<and> length cs \<le> 1
     \<and> (\<exists>status data. res = Respond status data)"
  by (auto simp: accountControl_def error_json_def writeJSON_def not_found_def Let_def dest: identityRequest_ok
      split: if_splits sum.splits prod.splits option.splits)

text \<open>An upgrade the gateway may grant.\<close>
definition upgrade_ok ::
  "world \<Rightarrow> (byte list \<Rightarrow> byte list) \<Rightarrow> Gateway_Voice.gateway_config \<Rightarrow> (identity_call \<Rightarrow> identity_outcome) \<Rightarrow> int
   \<Rightarrow> http_request \<Rightarrow> int \<Rightarrow> principal \<Rightarrow> bool"
where
  "upgrade_ok w sha cfg call used r v p \<longleftrightarrow> used < gc_MaxSessions cfg \<and> hq_Method r \<in> {''GET'', ''HEAD''}
     \<and> (if hq_Path r = ''/v2/voice''
        then v = 2 \<and> gc_IdentityURL cfg \<noteq> [] \<and> secureAccountRequest w r \<and> snd (accountPrincipal w sha cfg call r) = Inr p
        else hq_Path r = ''/v1/voice'' \<and> v = 1 \<and> p = gc_Principal cfg \<and> ValidatePrincipal p = None)"

lemma handleVoice_ok:
  assumes "handleVoice w sha cfg call used r = (cs, resp)" "find_route cfg (hq_Method r) (hq_Path r) = Some Voice"
  shows "list_all (identity_ok cfg) cs \<and> length cs \<le> 1
    \<and> (case resp of UpgradeTo v p \<Rightarrow> upgrade_ok w sha cfg call used r v p | Respond _ _ \<Rightarrow> True)"
proof -
  have path: "hq_Method r \<in> {''GET'', ''HEAD''}" "hq_Path r = ''/v1/voice'' \<or> hq_Path r = ''/v2/voice'' \<and> gc_IdentityURL cfg \<noteq> []"
    using assms(2) by (auto simp: find_route_def routes_def path_matches_def split: if_splits)
  obtain cs' account where acc: "accountPrincipal w sha cfg call r = (cs', account)" by (cases "accountPrincipal w sha cfg call r")
  show ?thesis
    using assms(1) path acc accountPrincipal_ok [OF acc] accountPrincipal_secure [OF acc]
    by (auto simp: handleVoice_def voice_admission_def upgrade_ok_def error_json_def writeJSON_def Let_def
        split: if_splits sum.splits response.splits)
qed

text \<open>
  C13. What a request can get out of the gateway. Unless it carries the development token, when one
  is configured, the gateway neither asks the identity service nor upgrades the connection, and the
  same while it shuts down. The identity service is asked at most once, under the gateway's token
  and at its configured address. A connection is upgraded only while a session is free: on
  \<open>/v1/voice\<close> for the gateway's own principal, on \<open>/v2/voice\<close> only when an identity service is
  configured, for a secure peer and for the principal its account gave.
\<close>
theorem gateway_admits:
  "case ServeHTTP w sha ratio call s r of (cs, resp) \<Rightarrow>
     (if \<not> gs_stopping s \<and> authorize (gs_config s) (hq_Header r ''Authorization'')
      then list_all (identity_ok (gs_config s)) cs \<and> length cs \<le> 1
        \<and> (case resp of UpgradeTo v p \<Rightarrow> upgrade_ok w sha (gs_config s) call (gs_used s) r v p | Respond _ _ \<Rightarrow> True)
      else cs = [] \<and> (case resp of Respond status _ \<Rightarrow> if hq_Path r = ''/healthz'' then True else status \<in> {401, 404, 405, 503}
         | UpgradeTo _ _ \<Rightarrow> False))"
proof (cases "gs_stopping s")
  case True
  then show ?thesis by (simp add: ServeHTTP_def error_json_def writeJSON_def)
next
  case False
  let ?cfg = "gs_config s"
  show ?thesis
  proof (cases "find_route ?cfg (hq_Method r) (hq_Path r)")
    case None
    then show ?thesis using False by (simp add: ServeHTTP_def Let_def no_route_def not_found_def)
  next
    case (Some rt)
    show ?thesis
    proof (cases "rt = Health")
      case True
      then have "hq_Path r = ''/healthz''"
        using Some by (auto simp: find_route_def routes_def path_matches_def split: if_splits)
      then show ?thesis using False Some True by (simp add: ServeHTTP_def Let_def writeJSON_def)
    next
      case health: False
      show ?thesis
      proof (cases "authorize ?cfg (hq_Header r ''Authorization'')")
        case auth: False
        then show ?thesis using False Some health by (simp add: ServeHTTP_def Let_def error_json_def writeJSON_def)
      next
        case True
        obtain cs resp where voice: "handleVoice w sha ?cfg call (gs_used s) r = (cs, resp)"
          by (cases "handleVoice w sha ?cfg call (gs_used s) r")
        obtain cs' resp' where control: "accountControl w sha ?cfg call r = (cs', resp')"
          by (cases "accountControl w sha ?cfg call r")
        show ?thesis
          using False Some health True voice control accountControl_ok [OF control] handleVoice_ok [OF voice]
          by (cases rt) (auto simp: ServeHTTP_def Let_def writeJSON_def)
      qed
    qed
  qed
qed

end
