(* ===== verification/Voice_Client.thy ===== *)
theory Voice_Client
  imports Go_Flow Audio_Wav Conversation Bridge Mcp_Client
begin

text \<open>
  The voice client command, \<open>apps/voice-client/cmd/voice-client/main.go\<close>: the options it accepts,
  the handshake, the upload of a WAV file in frames of 1024 bytes, and its loop over what the gateway
  sends, which collects the audio of a turn and saves it as a WAV file. The command-line parser, files,
  the WebSocket and the timers are arguments: what opening a path gives, which writes fail, which
  channel of the \<open>select\<close> is ready. The text of \<open>json.Marshal\<close> on the metrics is one as well. Every effect
  is an entry of the trace.
\<close>

section \<open>Options\<close>

text \<open>The flags, after parsing.\<close>
record voice_flags =
  vf_url :: string
  vf_wav :: string
  vf_output :: string
  vf_provider :: string
  vf_barge :: string
  vf_cancelAfter :: duration
  vf_followup :: string
  vf_requestID :: string
  vf_events :: string
  vf_expect :: string

text \<open>The arguments of \<open>runWithOptions\<close>, \<open>clientOptions\<close> among them.\<close>
record voice_args =
  va_url :: string
  va_wavPath :: string
  va_outputPath :: string
  va_cancelAfter :: duration
  va_selected :: string
  va_bargePath :: string
  va_RequestID :: string
  va_FollowupWAV :: string
  va_EventsPath :: string
  va_ExpectedTools :: "string list"

definition voice_args_of :: "voice_flags \<Rightarrow> voice_args" where
  "voice_args_of f =
     \<lparr>va_url = vf_url f, va_wavPath = vf_wav f,
      va_outputPath = (if vf_output f = [] then ''/private/tmp/sts-'' @ vf_provider f @ ''-response.wav'' else vf_output f),
      va_cancelAfter = vf_cancelAfter f, va_selected = vf_provider f, va_bargePath = vf_barge f,
      va_RequestID = vf_requestID f, va_FollowupWAV = vf_followup f, va_EventsPath = vf_events f,
      va_ExpectedTools = split_byte CHR '','' (vf_expect f)\<rparr>"

text \<open>\<open>runProvider\<close> with at most one barge path, and \<open>run\<close>.\<close>
definition voice_args_provider :: "string \<Rightarrow> string \<Rightarrow> string \<Rightarrow> duration \<Rightarrow> string \<Rightarrow> string list \<Rightarrow> voice_args" where
  "voice_args_provider url wav output cancel selected barge =
     \<lparr>va_url = url, va_wavPath = wav, va_outputPath = output, va_cancelAfter = cancel, va_selected = selected,
      va_bargePath = (case barge of [] \<Rightarrow> [] | b # _ \<Rightarrow> b), va_RequestID = [], va_FollowupWAV = [],
      va_EventsPath = [], va_ExpectedTools = []\<rparr>"

definition voice_args_fake :: "string \<Rightarrow> string \<Rightarrow> string \<Rightarrow> duration \<Rightarrow> voice_args" where
  "voice_args_fake url wav output cancel = voice_args_provider url wav output cancel ''fake'' []"

section \<open>Preparation\<close>

text \<open>What is ready when the client dials.\<close>
record voice_plan =
  vp_pcm :: "byte list"
  vp_barge :: "byte list"
  vp_followup :: "byte list"
  vp_RequestID :: string
  vp_capture :: bool

text \<open>The files: opening a path fails or gives a stream, that fails or gives its bytes.\<close>
type_synonym voice_files = "string \<Rightarrow> error + (error + byte list)"

definition load_wav :: "voice_files \<Rightarrow> string \<Rightarrow> error + byte list" where
  "load_wav fs path = (case fs path of Inl e \<Rightarrow> Inl e | Inr stream \<Rightarrow> ReadPCM16WAV stream 16000 MaxTurnBytes)"

text \<open>The barge-in and follow-up files: absent, refused or loaded.\<close>
definition second_wav :: "voice_files \<Rightarrow> bool \<Rightarrow> error \<Rightarrow> string \<Rightarrow> error + byte list" where
  "second_wav fs allowed msg path =
     (if path = [] then Inr [] else if \<not> allowed then Inl msg else load_wav fs path)"

definition voice_prepare ::
  "voice_files \<Rightarrow> (string \<Rightarrow> error option) \<Rightarrow> string \<Rightarrow> voice_args \<Rightarrow> error + voice_plan"
where
  "voice_prepare fs create rid a =
     (let nova = (va_selected a = ''nova'') in
      if va_selected a \<noteq> ''fake'' \<and> \<not> nova then Inl ''provider must be fake or nova''
      else if nova \<and> va_wavPath a = [] then Inl ''Nova requires -wav with PT-BR mono PCM16 at 16 kHz''
      else (case second_wav fs (nova \<and> va_cancelAfter a = 0)
                   ''barge-wav requires Nova and cannot be combined with cancel-after'' (va_bargePath a) of
          Inl e \<Rightarrow> Inl e
        | Inr barge \<Rightarrow>
      (case second_wav fs (nova \<and> va_bargePath a = [] \<and> va_cancelAfter a = 0)
                   ''followup-wav requires Nova without barge-wav or cancellation'' (va_FollowupWAV a) of
          Inl e \<Rightarrow> Inl e
        | Inr followup \<Rightarrow>
      (let request = (if va_RequestID a = [] then rid else va_RequestID a) in
       if \<not> ValidID request then Inl ''invalid request-id''
       else (case (if va_EventsPath a = [] then None else create (va_EventsPath a)) of
          Some e \<Rightarrow> Inl e
        | None \<Rightarrow>
            if va_cancelAfter a < 0 then Inl ''cancel-after must not be negative''
            else (case (if va_wavPath a = [] then Inr (replicate 16000 0) else load_wav fs (va_wavPath a)) of
                Inl e \<Rightarrow> Inl e
              | Inr pcm \<Rightarrow> Inr \<lparr>vp_pcm = pcm, vp_barge = barge, vp_followup = followup, vp_RequestID = request,
                               vp_capture = (va_EventsPath a \<noteq> [])\<rparr>))))))"

section \<open>State\<close>

datatype voice_act =
    VDialed string "string option"
  | VWrote event
  | VHeard event
  | VCaptured event
  | VPrinted string
  | VTimer duration
  | VDeadline
  | VSaved string "byte list list"

record voice_loop =
  vl_sequence :: u64
  vl_response :: "byte list"
  vl_audioSequence :: u64
  vl_sampleRate :: int
  vl_stopping :: bool
  vl_outputTurnID :: string
  vl_bargeStarted :: bool
  vl_bargeInterrupted :: bool
  vl_bargeOffset :: nat
  vl_followupOffset :: nat
  vl_followupStarted :: bool
  vl_followupAt :: "instant option"
  vl_firstOutputTurn :: string
  vl_tools :: "string list"
  vl_cancellation :: bool
  vl_nativeCancellation :: bool
  vl_io :: nat
  vl_result :: "error option option"
  vl_trace :: "voice_act list"

text \<open>
  The arguments and the environment: \<open>ve_io\<close> is the outcome of the writes and captures, in their
  order, \<open>ve_ctx\<close> the context's error where the upload asks for it and \<open>ve_wait\<close> where it waits.
\<close>
record voice_env =
  ve_args :: voice_args
  ve_plan :: voice_plan
  ve_token :: string
  ve_session :: string
  ve_turn :: string
  ve_dial :: "error option"
  ve_ready :: "error + event"
  ve_io :: "nat \<Rightarrow> error option"
  ve_ctx :: "nat \<Rightarrow> error option"
  ve_wait :: "nat \<Rightarrow> error option"
  ve_create :: "string \<Rightarrow> error option"
  ve_writer :: "string \<Rightarrow> byte list \<Rightarrow> nat \<times> error option"
  ve_close :: "string \<Rightarrow> error option"
  ve_metrics :: "metrics option \<Rightarrow> string"

type_synonym voice_block = "voice_loop block"

abbreviation ve_nova :: "voice_env \<Rightarrow> bool" where "ve_nova E \<equiv> va_selected (ve_args E) = ''nova''"

definition voice_start :: "string \<Rightarrow> voice_loop" where
  "voice_start tid = \<lparr>vl_sequence = 0, vl_response = [], vl_audioSequence = 0, vl_sampleRate = 0, vl_stopping = False,
     vl_outputTurnID = tid, vl_bargeStarted = False, vl_bargeInterrupted = False, vl_bargeOffset = 0,
     vl_followupOffset = 0, vl_followupStarted = False, vl_followupAt = None, vl_firstOutputTurn = [],
     vl_tools = [], vl_cancellation = False, vl_nativeCancellation = False, vl_io = 0, vl_result = None,
     vl_trace = []\<rparr>"

section \<open>Effects\<close>

definition voice_do :: "voice_act \<Rightarrow> (voice_loop, unit) state" where
  "voice_do a = assign (\<lambda>l. l\<lparr>vl_trace := vl_trace l @ [a]\<rparr>)"

definition voice_print :: "string \<Rightarrow> (voice_loop, unit) state" where
  "voice_print s = voice_do (VPrinted s)"

text \<open>\<open>return err\<close>\<close>
definition voice_return :: "error option \<Rightarrow> voice_block" where
  "voice_return r = do { assign (\<lambda>l. l\<lparr>vl_result := Some r\<rparr>); leave }"

text \<open>A call with an error that ends the run.\<close>
definition voice_try :: "error option \<Rightarrow> voice_block" where
  "voice_try r = (case r of None \<Rightarrow> proceed | Some e \<Rightarrow> voice_return (Some e))"

definition voice_io :: "voice_env \<Rightarrow> voice_block" where
  "voice_io E = do {
     l \<leftarrow> State_Monad.get;
     assign (\<lambda>l. l\<lparr>vl_io := Suc (vl_io l)\<rparr>);
     voice_try (ve_io E (vl_io l)) }"

definition voice_write :: "voice_env \<Rightarrow> event \<Rightarrow> voice_block" where
  "voice_write E e = do { voice_do (VWrote (e\<lparr>ev_Version := 1\<rparr>)); voice_io E }"

definition voice_event :: "voice_env \<Rightarrow> string \<Rightarrow> event" where
  "voice_event E t = zero_event\<lparr>ev_Type := t, ev_SessionID := ve_session E, ev_TurnID := ve_turn E\<rparr>"

text \<open>\<open>sequence++\<close> and the frame with that number.\<close>
definition voice_audio :: "voice_env \<Rightarrow> byte list \<Rightarrow> voice_block" where
  "voice_audio E frame = do {
     assign (\<lambda>l. l\<lparr>vl_sequence := vl_sequence l + 1\<rparr>);
     l \<leftarrow> State_Monad.get;
     voice_write E ((voice_event E AudioAppend)\<lparr>ev_Sequence := vl_sequence l, ev_SampleRate := 16000,
        ev_Audio := b64_encode frame\<rparr>) }"

definition voice_stop :: "voice_env \<Rightarrow> voice_block" where
  "voice_stop E = voice_write E (zero_event\<lparr>ev_Type := SessionStop, ev_SessionID := ve_session E\<rparr>)"

section \<open>Handshake and upload\<close>

text \<open>The session of \<open>ready\<close> is \<open>ve_session\<close> from here on.\<close>
definition voice_open :: "voice_env \<Rightarrow> voice_block" where
  "voice_open E = do {
     voice_do (VDialed (va_url (ve_args E)) (if ve_token E = [] then None else Some (''Bearer '' @ ve_token E)));
     after (voice_try (map_option ((@) ''gateway connection failed: '') (ve_dial E)))
       (after (voice_write E (zero_event\<lparr>ev_Type := SessionStart, ev_Provider := va_selected (ve_args E),
            ev_RequestID := vp_RequestID (ve_plan E)\<rparr>))
         (case ve_ready E of
            Inl e \<Rightarrow> voice_return (Some e)
          | Inr ready \<Rightarrow>
              if ev_Type ready \<noteq> SessionReady \<or> ev_Version ready \<noteq> 1
              then voice_return (Some (''session not ready: '' @ ev_Code ready @ '' '' @ ev_Message ready))
              else do {
                voice_print (''session='' @ ev_SessionID ready @ '' provider='' @ ev_Provider ready @ '' turn='' @ ve_turn E);
                voice_print (''request-id='' @ vp_RequestID (ve_plan E));
                proceed })) }"

text \<open>\<open>pcm[offset:min(offset+1024, len(pcm))]\<close> for each \<open>offset\<close>.\<close>
function voice_frames :: "byte list \<Rightarrow> byte list list" where
  "voice_frames pcm = (if pcm = [] then [] else take 1024 pcm # voice_frames (drop 1024 pcm))"
  by pat_completeness auto
termination by (relation "measure length") auto

declare voice_frames.simps [simp del]

definition voice_upload_frame :: "voice_env \<Rightarrow> byte list \<Rightarrow> voice_block" where
  "voice_upload_frame E frame = do {
     l \<leftarrow> State_Monad.get;
     after (voice_try (ve_ctx E (vl_io l)))
       (after (voice_audio E frame)
         (if ve_nova E then voice_try (ve_wait E (vl_io l)) else proceed)) }"

definition voice_upload :: "voice_env \<Rightarrow> voice_block" where
  "voice_upload E =
     after (each (voice_upload_frame E) (voice_frames (vp_pcm (ve_plan E))))
       (voice_write E (voice_event E TurnCommit))"

section \<open>The loop\<close>

text \<open>A frame of 1024 bytes: silence, over which speech is copied.\<close>
definition copy_frame :: "byte list \<Rightarrow> byte list \<Rightarrow> byte list" where
  "copy_frame speech frame = take (length frame) speech @ drop (length speech) frame"

definition slice_frame :: "nat \<Rightarrow> byte list \<Rightarrow> byte list" where
  "slice_frame offset pcm = take 1024 (drop offset pcm)"

definition voice_silence :: "voice_env \<Rightarrow> instant \<Rightarrow> voice_block" where
  "voice_silence E now = do {
     l \<leftarrow> State_Monad.get;
     (if vl_stopping l then proceed
      else (let barge = vp_barge (ve_plan E); followup = vp_followup (ve_plan E);
                barging = (vl_bargeStarted l \<and> vl_bargeOffset l < length barge);
                following = ((case vl_followupAt l of None \<Rightarrow> False | Some at \<Rightarrow> at < now)
                              \<and> vl_followupOffset l < length followup);
                f0 = replicate 1024 0;
                f1 = (if barging then copy_frame (slice_frame (vl_bargeOffset l) barge) f0 else f0);
                f2 = (if following then copy_frame (slice_frame (vl_followupOffset l) followup) f1 else f1)
            in do {
              assign (\<lambda>l. l\<lparr>
                vl_bargeOffset := (if barging then min (vl_bargeOffset l + 1024) (length barge) else vl_bargeOffset l),
                vl_followupStarted := (following \<or> vl_followupStarted l),
                vl_followupOffset := (if following then min (vl_followupOffset l + 1024) (length followup)
                                      else vl_followupOffset l)\<rparr>);
              voice_audio E f2 })) }"

definition voice_cancel :: "voice_env \<Rightarrow> voice_block" where
  "voice_cancel E = do {
     assign (\<lambda>l. l\<lparr>vl_cancellation := False\<rparr>);
     l \<leftarrow> State_Monad.get;
     (if vl_stopping l then proceed else voice_write E (voice_event E TurnCancel)) }"

text \<open>\<open>response = nil; sampleRate = 0; audioSequence = 0\<close>\<close>
definition voice_discard :: "(voice_loop, unit) state" where
  "voice_discard = assign (\<lambda>l. l\<lparr>vl_response := [], vl_sampleRate := 0, vl_audioSequence := 0\<rparr>)"

definition voice_turn_started :: "voice_env \<Rightarrow> event \<Rightarrow> voice_block" where
  "voice_turn_started E e = do {
     l \<leftarrow> State_Monad.get;
     (if ve_nova E \<and> ev_TurnID e \<noteq> vl_outputTurnID l
      then do { assign (\<lambda>l. l\<lparr>vl_outputTurnID := ev_TurnID e\<rparr>); voice_discard; proceed }
      else proceed) }"

text \<open>A result of a tool succeeded if one of its texts has a status that says so.\<close>
definition status_text :: "string \<Rightarrow> string option" where
  "status_text = unmarshal [string_field ''status'' (\<lambda>v _. v)] []"

definition tool_succeeded :: "string \<Rightarrow> bool" where
  "tool_succeeded raw =
     (case unmarshal result_fields zero_result raw of
        None \<Rightarrow> False
      | Some r \<Rightarrow> \<not> rs_IsError r
          \<and> list_ex (\<lambda>c. case status_text (ct_Text c) of
                Some s \<Rightarrow> s \<noteq> ''confirmation_required'' \<and> s \<noteq> ''error'' \<and> s \<noteq> []
              | None \<Rightarrow> False) (rs_Content r))"

text \<open>\<open>e.Tool\<close> is dereferenced: nil is a panic.\<close>
definition voice_tool_event :: "event \<Rightarrow> voice_block" where
  "voice_tool_event e = (case ev_Tool e of
      None \<Rightarrow> voice_return (Some nil_panic)
    | Some t \<Rightarrow>
        if ev_Type e = ToolStarted then do {
          voice_print (''tool.started id='' @ vt_OperationID t @ '' name='' @ vt_Name t @ '' args='' @ vt_Arguments t);
          proceed }
        else if ev_Type e = ToolConfirmation then do {
          voice_print (''tool.confirmation id='' @ vt_OperationID t @ '' '' @ ev_Message e);
          proceed }
        else do {
          voice_print (''tool.result id='' @ vt_OperationID t @ '' name='' @ vt_Name t @ '' result='' @ vt_Result t);
          (if tool_succeeded (vt_Result t)
           then assign (\<lambda>l. l\<lparr>vl_tools := List.insert (vt_Name t) (vl_tools l)\<rparr>) else State_Monad.return ());
          proceed })"

text \<open>The first output starts the second speech and the timer of a native cancellation.\<close>
definition voice_first_output :: "voice_env \<Rightarrow> (voice_loop, unit) state" where
  "voice_first_output E = do {
     l \<leftarrow> State_Monad.get;
     (if vp_barge (ve_plan E) \<noteq> [] \<and> \<not> vl_bargeStarted l then do {
        assign (\<lambda>l. l\<lparr>vl_bargeStarted := True\<rparr>);
        voice_print ''sending second speech through the same live microphone stream'' }
      else State_Monad.return ());
     (if ve_nova E \<and> 0 < va_cancelAfter (ve_args E) \<and> \<not> vl_nativeCancellation l then do {
        voice_do (VTimer (va_cancelAfter (ve_args E)));
        assign (\<lambda>l. l\<lparr>vl_nativeCancellation := True, vl_cancellation := True\<rparr>) }
      else State_Monad.return ()) }"

text \<open>The checks on a frame, then \<open>response = append(response, decoded...)\<close>.\<close>
definition voice_collect :: "event \<Rightarrow> voice_block" where
  "voice_collect e = do {
     l \<leftarrow> State_Monad.get;
     (if vl_stopping l \<or> ev_TurnID e \<noteq> vl_outputTurnID l \<or> ev_Sequence e \<noteq> vl_audioSequence l + 1
      then voice_return (Some ''stale or out-of-order audio'')
      else if vl_sampleRate l \<noteq> 0 \<and> vl_sampleRate l \<noteq> ev_SampleRate e
      then voice_return (Some ''output sample rate changed within turn'')
      else (case b64_decode (ev_Audio e) of
          None \<Rightarrow> voice_return (Some ''invalid output PCM'')
        | Some decoded \<Rightarrow>
            if length decoded mod 2 \<noteq> 0 then voice_return (Some ''invalid output PCM'')
            else if length (vl_response l) + length decoded > 30 * 48000 * 2
            then voice_return (Some ''output exceeds demo buffer limit'')
            else do {
              assign (\<lambda>l. l\<lparr>vl_sampleRate := ev_SampleRate e, vl_audioSequence := vl_audioSequence l + 1,
                 vl_response := vl_response l @ decoded\<rparr>);
              proceed })) }"

definition voice_output :: "voice_env \<Rightarrow> event \<Rightarrow> voice_block" where
  "voice_output E e = do { voice_first_output E; voice_collect e }"

text \<open>The file of a completed turn: created, written, closed.\<close>
definition voice_save :: "voice_env \<Rightarrow> string \<Rightarrow> voice_block" where
  "voice_save E path =
     after (voice_try (ve_create E path)) (do {
       l \<leftarrow> State_Monad.get;
       (case WritePCM16WAV (ve_writer E path) (vl_response l) (vl_sampleRate l) of
          (err, chunks) \<Rightarrow> do {
            voice_do (VSaved path chunks);
            after (voice_try err) (voice_try (ve_close E path)) }) })"

definition voice_completed :: "voice_env \<Rightarrow> instant \<Rightarrow> event \<Rightarrow> voice_block" where
  "voice_completed E now e = do {
     l \<leftarrow> State_Monad.get;
     (let followup = vp_followup (ve_plan E); first = (followup \<noteq> [] \<and> \<not> vl_followupStarted l);
          path = (if first then va_outputPath (ve_args E) @ ''.turn-1.wav'' else va_outputPath (ve_args E)) in
      if vp_barge (ve_plan E) \<noteq> [] \<and> \<not> vl_bargeInterrupted l
      then voice_return (Some ''Nova completed before native barge-in; interruption scenario did not pass'')
      else do {
        (if first then assign (\<lambda>l. l\<lparr>vl_firstOutputTurn := ev_TurnID e\<rparr>) else State_Monad.return ());
        (if vl_followupStarted l \<and> (ev_TurnID e = vl_firstOutputTurn l \<or> vl_followupOffset l < length followup)
         then proceed
         else after (voice_save E path) (do {
           voice_print (''audio='' @ path @ '' bytes='' @ nat_text (length (vl_response l)) @ '' metrics='' @ ve_metrics E (ev_Metrics e));
           (if first then do {
              assign (\<lambda>l. l\<lparr>vl_followupAt := Some (now + 1000000000)\<rparr>);
              voice_do VDeadline;
              proceed }
            else do {
              assign (\<lambda>l. l\<lparr>vl_stopping := True, vl_cancellation := False\<rparr>);
              voice_stop E }) })) }) }"

definition voice_interrupted :: "voice_env \<Rightarrow> voice_block" where
  "voice_interrupted E = do {
     voice_discard;
     l \<leftarrow> State_Monad.get;
     (if vl_followupStarted l then proceed
      else if vp_barge (ve_plan E) \<noteq> [] \<and> vl_bargeStarted l then do {
        assign (\<lambda>l. l\<lparr>vl_bargeInterrupted := True\<rparr>);
        voice_print ''native barge-in confirmed; old audio discarded'';
        proceed }
      else do {
        assign (\<lambda>l. l\<lparr>vl_stopping := True\<rparr>);
        voice_print ''turn interrupted; output discarded'';
        voice_stop E }) }"

text \<open>The first expected tool that did not succeed.\<close>
definition missing_tool :: "string list \<Rightarrow> string list \<Rightarrow> error option" where
  "missing_tool expected tools = map_option (\<lambda>n. ''expected successful tool '' @ n @ '' was not observed'')
     (List.find (\<lambda>n. n \<noteq> [] \<and> n \<notin> set tools) expected)"

definition voice_stopped :: "voice_env \<Rightarrow> voice_block" where
  "voice_stopped E = do {
     voice_print ''session stopped'';
     l \<leftarrow> State_Monad.get;
     voice_return (missing_tool (va_ExpectedTools (ve_args E)) (vl_tools l)) }"

text \<open>The \<open>switch e.Type\<close>.\<close>
definition voice_switch :: "voice_env \<Rightarrow> instant \<Rightarrow> event \<Rightarrow> voice_block" where
  "voice_switch E now e =
     (if ev_Type e = TurnStarted then voice_turn_started E e
      else if ev_Type e = ErrorEvent then voice_return (Some (ev_Code e @ '': '' @ ev_Message e))
      else if ev_Type e = Transcript then do { voice_print (ev_Role e @ '': '' @ ev_Text e); proceed }
      else if ev_Type e \<in> {ToolStarted, ToolConfirmation, ToolResult} then voice_tool_event e
      else if ev_Type e = SessionState then do { voice_print (''state='' @ ev_State e); proceed }
      else if ev_Type e = AudioOutput then voice_output E e
      else if ev_Type e = TurnCompleted then voice_completed E now e
      else if ev_Type e = TurnInterrupted then voice_interrupted E
      else if ev_Type e = SessionStopped then voice_stopped E
      else proceed)"

definition voice_receive :: "voice_env \<Rightarrow> instant \<Rightarrow> event \<Rightarrow> voice_block" where
  "voice_receive E now e = do {
     voice_do (VHeard e);
     after (if vp_capture (ve_plan E) then do { voice_do (VCaptured e); voice_io E } else proceed)
       (if ev_Version e \<noteq> 1 \<or> ev_SessionID e \<noteq> ve_session E
        then voice_return (Some ''protocol/session mismatch'')
        else voice_switch E now e) }"

datatype voice_input =
    VIDone error
  | VITimedOut
  | VISilence
  | VICancel
  | VIRead "error + event"

text \<open>One turn of the \<open>select\<close>; a nil channel is never ready.\<close>
fun voice_step :: "voice_env \<Rightarrow> instant \<times> voice_input \<Rightarrow> voice_block" where
  "voice_step E (now, VIDone e) = voice_return (Some e)"
| "voice_step E (now, VITimedOut) = voice_return (Some ''voice demo timed out'')"
| "voice_step E (now, VISilence) = (if ve_nova E then voice_silence E now else proceed)"
| "voice_step E (now, VICancel) = do {
     l \<leftarrow> State_Monad.get;
     (if vl_cancellation l then voice_cancel E else proceed) }"
| "voice_step E (now, VIRead (Inl e)) = voice_return (Some e)"
| "voice_step E (now, VIRead (Inr e)) = voice_receive E now e"

text \<open>The timer of a cancellation of the simulated response.\<close>
definition voice_timer :: "voice_env \<Rightarrow> voice_block" where
  "voice_timer E =
     (if 0 < va_cancelAfter (ve_args E) \<and> va_selected (ve_args E) = ''fake'' then do {
        voice_do (VTimer (va_cancelAfter (ve_args E)));
        assign (\<lambda>l. l\<lparr>vl_cancellation := True\<rparr>);
        proceed }
      else proceed)"

definition voice_session :: "voice_env \<Rightarrow> (instant \<times> voice_input) list \<Rightarrow> voice_block" where
  "voice_session E ticks =
     after (voice_open E) (after (voice_upload E) (after (voice_timer E) (each (voice_step E) ticks)))"

text \<open>
  \<open>runWithOptions\<close> from the loaded files on: the session is the one \<open>ready\<close> names. The result is the
  state the run ends in, with the error it returned.
\<close>
definition voice_run :: "voice_files \<Rightarrow> string \<Rightarrow> voice_env \<Rightarrow> (instant \<times> voice_input) list \<Rightarrow> error + voice_loop" where
  "voice_run fs rid E ticks =
     (case voice_prepare fs (ve_create E) rid (ve_args E) of
        Inl e \<Rightarrow> Inl e
      | Inr p \<Rightarrow>
          (let E' = E\<lparr>ve_plan := p, ve_session := (case ve_ready E of Inl _ \<Rightarrow> [] | Inr ready \<Rightarrow> ev_SessionID ready)\<rparr>
           in Inr (snd (run_state (voice_session E' ticks) (voice_start (ve_turn E))))))"

section \<open>The upload\<close>

fun voice_wrote :: "voice_act list \<Rightarrow> event list" where
  "voice_wrote [] = []"
| "voice_wrote (VWrote e # as) = e # voice_wrote as"
| "voice_wrote (_ # as) = voice_wrote as"

lemma voice_wrote_append [simp]: "voice_wrote (as @ bs) = voice_wrote as @ voice_wrote bs"
  by (induction as rule: voice_wrote.induct) auto

lemma wp_voice_do [simp]: "wp (voice_do a) Q l = Q () (l\<lparr>vl_trace := vl_trace l @ [a]\<rparr>)"
  by (simp add: voice_do_def)

lemma wp_voice_print [simp]: "wp (voice_print t) Q l = Q () (l\<lparr>vl_trace := vl_trace l @ [VPrinted t]\<rparr>)"
  by (simp add: voice_print_def)

lemma wp_voice_return [simp]: "wp (voice_return r) Q l = Q False (l\<lparr>vl_result := Some r\<rparr>)"
  by (simp add: voice_return_def)

lemma wp_voice_try [simp]:
  "wp (voice_try r) Q l = (case r of None \<Rightarrow> Q True l | Some e \<Rightarrow> Q False (l\<lparr>vl_result := Some (Some e)\<rparr>))"
  by (simp add: voice_try_def split: option.split)

lemma voice_frames_concat: "concat (voice_frames pcm) = pcm"
  by (induction pcm rule: voice_frames.induct) (simp add: voice_frames.simps)

lemma voice_frames_sizes:
  "f \<in> set (voice_frames pcm) \<Longrightarrow> f \<noteq> [] \<and> length f \<le> 1024 \<and> (even (length pcm) \<longrightarrow> even (length f))"
proof (induction pcm rule: voice_frames.induct)
  case (1 pcm)
  then show ?case by (subst (asm) (2) voice_frames.simps) (auto split: if_splits simp: min_def)
qed

text \<open>The frames as they are written.\<close>
definition frame_event :: "voice_env \<Rightarrow> u64 \<Rightarrow> byte list \<Rightarrow> event" where
  "frame_event E n frame = client_wire 1 (CAudio (ve_session E) (ve_turn E) n (b64_encode frame))"

fun frame_events :: "voice_env \<Rightarrow> u64 \<Rightarrow> byte list list \<Rightarrow> event list" where
  "frame_events E n [] = []"
| "frame_events E n (f # fs) = frame_event E (n + 1) f # frame_events E (n + 1) fs"

definition quiet_client :: "voice_env \<Rightarrow> bool" where
  "quiet_client E \<longleftrightarrow> ve_io E = (\<lambda>_. None) \<and> ve_ctx E = (\<lambda>_. None) \<and> ve_wait E = (\<lambda>_. None)"

lemma wp_frame:
  "quiet_client E \<Longrightarrow> wp (voice_upload_frame E f) (\<lambda>ok l'. ok \<and> vl_sequence l' = vl_sequence l + 1
     \<and> voice_wrote (vl_trace l') = voice_wrote (vl_trace l) @ [frame_event E (vl_sequence l + 1) f]) l"
  by (simp add: quiet_client_def voice_upload_frame_def voice_audio_def voice_write_def voice_io_def frame_event_def
      voice_event_def zero_event_def)

lemma wp_frames:
  "quiet_client E \<Longrightarrow> wp (each (voice_upload_frame E) fs) (\<lambda>ok l'. ok
     \<and> voice_wrote (vl_trace l') = voice_wrote (vl_trace l) @ frame_events E (vl_sequence l) fs) l"
proof (induction fs arbitrary: l)
  case (Cons f fs)
  show ?case
    by (simp, rule wp_mono [OF wp_frame [OF Cons.prems]]) (auto intro: wp_mono [OF Cons.IH [OF Cons.prems]])
qed simp

text \<open>What the demo's conversation makes of the events that reach it through the gateway.\<close>
definition demo_hears :: "event \<Rightarrow> session \<times> byte list list \<Rightarrow> session \<times> byte list list" where
  "demo_hears e s =
     (case agentCommandFromVoice e of
        Inl _ \<Rightarrow> s
      | Inr command \<Rightarrow>
          (case fakeVoiceCommand command of
             Inl _ \<Rightarrow> s
           | Inr v \<Rightarrow>
               if ev_Type v = AudioAppend then (fst (Append v (fst s)), snd s)
               else if ev_Type v = TurnCommit then
                 (case Commit (ev_TurnID v) (fst s) of
                    (c, Inl _) \<Rightarrow> (c, snd s)
                  | (c, Inr pcm) \<Rightarrow> (c, snd s @ [pcm]))
               else s))"

definition frame_ok :: "byte list \<Rightarrow> bool" where
  "frame_ok f \<longleftrightarrow> f \<noteq> [] \<and> even (length f) \<and> length f \<le> 1024"

lemma frame_decodes: "frame_ok f \<Longrightarrow> DecodeAudio (b64_encode f) = Inr f"
  by (simp add: DecodeAudio_encode frame_ok_def)

lemma demo_hears_frame:
  assumes "frame_ok f" "cs_ID c = ve_session E"
  shows "demo_hears (frame_event E n f) (c, turns)
    = (fst (Append (frame_event E n f) c), turns)"
proof -
  note frame_decodes [OF assms(1)]
  moreover have "f \<noteq> []" using assms(1) by (simp add: frame_ok_def)
  ultimately show ?thesis
    by (simp add: demo_hears_def frame_event_def agentCommandFromVoice_def fakeVoiceCommand_def Append_def
        opens_turn_def zero_event_def zero_command_def Let_def)
qed

definition hearing :: "voice_env \<Rightarrow> u64 \<Rightarrow> byte list \<Rightarrow> session \<Rightarrow> bool" where
  "hearing E n pcm c \<longleftrightarrow> cs_ID c = ve_session E \<and> cs_State c = Listening \<and> cs_TurnID c = ve_turn E
     \<and> cs_sequence c = n \<and> cs_pcm c = pcm"

lemma hears_frame:
  assumes "hearing E n pcm c" "frame_ok f" "length pcm + length f \<le> MaxTurnBytes"
  shows "hearing E (n + 1) (pcm @ f) (fst (Append (frame_event E (n + 1) f) c))"
  using assms by (simp add: hearing_def Append_def opens_turn_def frame_event_def frame_decodes zero_event_def Let_def)

lemma hears_frames:
  assumes "hearing E n pcm c" "list_all frame_ok fs" "length pcm + length (concat fs) \<le> MaxTurnBytes"
  shows "\<exists>c' n'. fold demo_hears (frame_events E n fs) (c, turns) = (c', turns) \<and> hearing E n' (pcm @ concat fs) c'"
  using assms
proof (induction fs arbitrary: n pcm c)
  case (Cons f fs)
  let ?c = "fst (Append (frame_event E (n + 1) f) c)"
  have "demo_hears (frame_event E (n + 1) f) (c, turns) = (?c, turns)"
    using Cons.prems by (intro demo_hears_frame) (auto simp: hearing_def)
  moreover have "hearing E (n + 1) (pcm @ f) ?c"
    using Cons.prems by (intro hears_frame) auto
  ultimately show ?case using Cons.IH [of "n + 1" "pcm @ f" ?c] Cons.prems by simp
qed auto

lemma hears_commit:
  assumes "hearing E n pcm c" "pcm \<noteq> []"
  shows "\<exists>c'. demo_hears (client_wire 1 (CCommit (ve_session E) (ve_turn E))) (c, turns) = (c', turns @ [pcm])
    \<and> cs_State c' = Responding"
  using assms by (simp add: demo_hears_def agentCommandFromVoice_def fakeVoiceCommand_def zero_event_def zero_command_def
      Commit_def hearing_def)

lemma hears_upload:
  assumes c: "cs_ID c = ve_session E" "cs_State c = Idle" "ve_turn E \<notin> set (cs_usedTurns c)"
      "length (cs_usedTurns c) < MaxTurns"
    and pcm: "pcm \<noteq> []" "even (length pcm)" "length pcm \<le> MaxTurnBytes"
  shows "\<exists>c'. fold demo_hears (frame_events E 0 (voice_frames pcm) @ [client_wire 1 (CCommit (ve_session E) (ve_turn E))]) (c, [])
    = (c', [pcm]) \<and> cs_State c' = Responding"
proof -
  obtain f fs where fs: "voice_frames pcm = f # fs" using pcm(1) by (simp add: voice_frames.simps)
  have ok: "list_all frame_ok (f # fs)"
    using voice_frames_sizes [of _ pcm] pcm(2) by (auto simp: fs list_all_iff frame_ok_def)
  have all: "f @ concat fs = pcm" using voice_frames_concat [of pcm] by (simp add: fs)
  let ?c = "fst (Append (frame_event E 1 f) c)"
  have "demo_hears (frame_event E 1 f) (c, []) = (?c, [])"
    using ok c(1) by (intro demo_hears_frame) auto
  moreover have "hearing E 1 f ?c"
    using c ok by (simp add: hearing_def Append_def opens_turn_def frame_event_def frame_decodes zero_event_def Let_def)
  moreover have "length f + length (concat fs) \<le> MaxTurnBytes" using pcm(3) all by (metis length_append)
  ultimately obtain c' n' where c': "fold demo_hears (frame_events E 0 (f # fs)) (c, []) = (c', [])" "hearing E n' pcm c'"
    using hears_frames [of E 1 f ?c fs "[]"] ok all by auto
  then show ?thesis using hears_commit [OF c'(2) pcm(1), of "[]"] by (simp add: fs del: client_wire.simps)
qed

text \<open>A plan's audio is what the turn may hold.\<close>
lemma voice_prepare_Inr:
  assumes "voice_prepare fs create rid a = Inr p"
  shows "vp_pcm p \<noteq> []" "even (length (vp_pcm p))" "length (vp_pcm p) \<le> MaxTurnBytes" "ValidID (vp_RequestID p)"
    "vp_RequestID p = (if va_RequestID a = [] then rid else va_RequestID a)"
proof -
  have load: "pcm \<noteq> [] \<and> even (length pcm) \<and> length pcm \<le> MaxTurnBytes" if loaded: "load_wav fs path = Inr pcm" for path pcm
  proof -
    obtain stream where stream: "ReadPCM16WAV stream 16000 MaxTurnBytes = Inr pcm"
      using loaded by (auto simp: load_wav_def split: sum.splits)
    then show ?thesis
      using read_wav_safe [where wav = "projr stream" and rate = 16000 and max_bytes = MaxTurnBytes] stream
      by (cases stream) (auto simp: wav_pcm_ok_def ReadPCM16WAV_def)
  qed
  have "(case (if va_wavPath a = [] then Inr (replicate 16000 0) else load_wav fs (va_wavPath a)) of
          Inl _ \<Rightarrow> False | Inr pcm \<Rightarrow> vp_pcm p = pcm) \<and> ValidID (vp_RequestID p)
      \<and> vp_RequestID p = (if va_RequestID a = [] then rid else va_RequestID a)"
    using assms by (auto simp: voice_prepare_def Let_def split: if_splits sum.splits option.splits)
  then show "vp_pcm p \<noteq> []" "even (length (vp_pcm p))" "length (vp_pcm p) \<le> MaxTurnBytes" "ValidID (vp_RequestID p)"
      "vp_RequestID p = (if va_RequestID a = [] then rid else va_RequestID a)"
    using load by (auto split: if_splits sum.splits)
qed

text \<open>
  C26. The audio of a file reaches the conversation of the demo unchanged. Every WAV the client accepts is
  uploaded in frames such that, translated by the gateway and by the demo's session, an idle
  conversation collects exactly its samples as one turn and then responds.
\<close>
theorem upload_received:
  assumes "voice_prepare fs create rid a = Inr (ve_plan E)" "quiet_client E" "vl_sequence l = 0"
    and "cs_ID c = ve_session E" "cs_State c = Idle" "ve_turn E \<notin> set (cs_usedTurns c)" "length (cs_usedTurns c) < MaxTurns"
    and "run_state (voice_upload E) l = (ok, l')"
  shows "ok \<and> (\<exists>ws. voice_wrote (vl_trace l') = voice_wrote (vl_trace l) @ ws
    \<and> (case fold demo_hears ws (c, []) of (c', turns) \<Rightarrow> turns = [vp_pcm (ve_plan E)] \<and> cs_State c' = Responding))"
proof -
  let ?commit = "client_wire 1 (CCommit (ve_session E) (ve_turn E))"
  let ?ws = "frame_events E 0 (voice_frames (vp_pcm (ve_plan E))) @ [?commit]"
  have "wp (voice_upload E) (\<lambda>ok l'. ok \<and> voice_wrote (vl_trace l') = voice_wrote (vl_trace l) @ ?ws) l"
    unfolding voice_upload_def wp_after
    by (rule wp_mono [OF wp_frames [OF assms(2)]])
      (use assms(2,3) in \<open>auto simp: quiet_client_def voice_write_def voice_io_def voice_event_def zero_event_def\<close>)
  then have "ok" "voice_wrote (vl_trace l') = voice_wrote (vl_trace l) @ ?ws" using assms(8) by (auto simp: wp_def)
  moreover note hears_upload [OF assms(4-7) voice_prepare_Inr(1-3) [OF assms(1)]]
  ultimately show ?thesis by auto
qed

text \<open>A concrete client, with nothing but silence to send.\<close>
definition sample_voice_env :: voice_env where
  "sample_voice_env = \<lparr>ve_args = voice_args_fake ''ws://gateway'' [] ''out.wav'' 0,
     ve_plan = \<lparr>vp_pcm = replicate 16000 0, vp_barge = [], vp_followup = [], vp_RequestID = ''r-1'', vp_capture = False\<rparr>,
     ve_token = [], ve_session = ''s-1'', ve_turn = ''t-1'', ve_dial = None,
     ve_ready = Inr (zero_event\<lparr>ev_Version := 1, ev_Type := SessionReady, ev_SessionID := ''s-1''\<rparr>),
     ve_io = (\<lambda>_. None), ve_ctx = (\<lambda>_. None), ve_wait = (\<lambda>_. None), ve_create = (\<lambda>_. None),
     ve_writer = (\<lambda>_. full_writer), ve_close = (\<lambda>_. None), ve_metrics = (\<lambda>_. [])\<rparr>"

lemma sample_ids: "ValidID ''r-1''" "ValidID ''s-1''" "ValidID ''t-1''"
  by code_simp+

lemma sample_prepare:
  "voice_prepare (\<lambda>_. Inl ''none'') create ''r-1'' (ve_args sample_voice_env) = Inr (ve_plan sample_voice_env)"
  by (simp add: sample_voice_env_def voice_args_fake_def voice_args_provider_def voice_prepare_def second_wav_def sample_ids)

lemma sample_quiet: "quiet_client sample_voice_env"
  by (simp add: quiet_client_def sample_voice_env_def)

theorem upload_received_witness:
  "\<exists>ok l' ws. run_state (voice_upload sample_voice_env) (voice_start ''t-1'') = (ok, l') \<and> ok \<and> voice_wrote (vl_trace l') = ws
     \<and> snd (fold demo_hears ws (NewSession ''s-1'', [])) = [replicate 16000 0]"
proof -
  obtain ok l' where run: "run_state (voice_upload sample_voice_env) (voice_start ''t-1'') = (ok, l')" by (metis surj_pair)
  have "ok \<and> (\<exists>ws. voice_wrote (vl_trace l') = voice_wrote (vl_trace (voice_start ''t-1'')) @ ws
    \<and> (case fold demo_hears ws (NewSession ''s-1'', []) of (c', turns) \<Rightarrow> turns = [vp_pcm (ve_plan sample_voice_env)] \<and> cs_State c' = Responding))"
    by (rule upload_received [OF sample_prepare sample_quiet _ _ _ _ _ run])
      (simp_all add: voice_start_def NewSession_def sample_voice_env_def)
  then show ?thesis using run by (auto simp: voice_start_def sample_voice_env_def split: prod.splits)
qed

section \<open>What a run does\<close>

fun voice_heard :: "voice_act list \<Rightarrow> event list" where
  "voice_heard [] = []"
| "voice_heard (VHeard e # as) = e # voice_heard as"
| "voice_heard (_ # as) = voice_heard as"

lemma voice_heard_append [simp]: "voice_heard (as @ bs) = voice_heard as @ voice_heard bs"
  by (induction as rule: voice_heard.induct) auto

subsection \<open>What it writes\<close>

text \<open>The messages of this client.\<close>
fun own_msg :: "voice_env \<Rightarrow> client_msg \<Rightarrow> bool" where
  "own_msg E (CStart agent request provider) =
     (agent = [] \<and> request = vp_RequestID (ve_plan E) \<and> provider = va_selected (ve_args E))"
| "own_msg E (CAudio sid turn n audio) = (sid = ve_session E \<and> turn = ve_turn E \<and> (\<exists>f. frame_ok f \<and> audio = b64_encode f))"
| "own_msg E (CCommit sid turn) = (sid = ve_session E \<and> turn = ve_turn E)"
| "own_msg E (CCancel sid turn) = (sid = ve_session E \<and> turn = ve_turn E)"
| "own_msg E (CStop sid turn) = (sid = ve_session E \<and> turn = [])"
| "own_msg E (CConfirm sid turn oper approved) = False"

definition own_event :: "voice_env \<Rightarrow> event \<Rightarrow> bool" where
  "own_event E e \<longleftrightarrow> (\<exists>m. own_msg E m \<and> e = client_wire 1 m)"

definition audio_numbers :: "event list \<Rightarrow> u64 list" where
  "audio_numbers es = map ev_Sequence (filter (\<lambda>e. ev_Type e = AudioAppend) es)"

definition numbered :: "nat \<Rightarrow> u64 list" where
  "numbered n = map of_nat [1..<Suc n]"

lemma numbered_Suc [simp]: "numbered (Suc n) = numbered n @ [of_nat n + 1]"
  by (simp add: numbered_def add.commute)

lemma numbered_0 [simp]: "numbered 0 = []"
  by (simp add: numbered_def)

lemma audio_numbers_snoc [simp]:
  "audio_numbers (es @ [e]) = audio_numbers es @ (if ev_Type e = AudioAppend then [ev_Sequence e] else [])"
  "audio_numbers [] = []"
  by (simp_all add: audio_numbers_def)

subsection \<open>What it saves\<close>

definition event_pcm :: "event \<Rightarrow> byte list" where
  "event_pcm e = (case b64_decode (ev_Audio e) of None \<Rightarrow> [] | Some pcm \<Rightarrow> pcm)"

text \<open>
  The samples a run should hold, from what it heard: the turn and its output frames, since the turn
  started (a live session names it then) or was interrupted.
\<close>
fun turn_step :: "bool \<Rightarrow> event \<Rightarrow> string \<times> event list \<Rightarrow> string \<times> event list" where
  "turn_step nova e (turn, es) =
     (if ev_Type e = TurnStarted \<and> nova \<and> ev_TurnID e \<noteq> turn then (ev_TurnID e, [])
      else if ev_Type e = TurnInterrupted then (turn, [])
      else if ev_Type e = AudioOutput then (turn, es @ [e])
      else (turn, es))"

definition turn_heard :: "voice_env \<Rightarrow> event list \<Rightarrow> string \<times> event list" where
  "turn_heard E hs = fold (turn_step (ve_nova E)) hs (ve_turn E, [])"

definition turn_pcm :: "event list \<Rightarrow> byte list" where
  "turn_pcm es = concat (map event_pcm es)"

definition turn_rate :: "event list \<Rightarrow> int" where
  "turn_rate es = (if es = [] then 0 else ev_SampleRate (last es))"

text \<open>Audio of one turn without gaps; \<open>sampleRate != 0\<close> is how the code knows that it has a rate.\<close>
definition turn_audio :: "string \<Rightarrow> event list \<Rightarrow> bool" where
  "turn_audio turn es \<longleftrightarrow>
     map ev_Sequence es = numbered (length es)
     \<and> list_all (\<lambda>e. ev_TurnID e = turn \<and> ev_SampleRate e \<in> {0, turn_rate es} \<and> b64_decode (ev_Audio e) \<noteq> None) es"

text \<open>The client holds the samples of the events \<open>hs\<close>.\<close>
definition collected :: "voice_env \<Rightarrow> event list \<Rightarrow> voice_loop \<Rightarrow> bool" where
  "collected E hs l \<longleftrightarrow> (case turn_heard E hs of (turn, es) \<Rightarrow>
     turn_audio turn es \<and> vl_outputTurnID l = turn \<and> vl_response l = turn_pcm es
     \<and> vl_sampleRate l = turn_rate es \<and> vl_audioSequence l = of_nat (length es))"

text \<open>Why a file cannot be written: no samples or a rate that is not allowed, or the system refuses it.\<close>
definition file_refused :: "voice_env \<Rightarrow> string \<Rightarrow> byte list \<Rightarrow> int \<Rightarrow> bool" where
  "file_refused E path pcm rate \<longleftrightarrow> \<not> wav_writable pcm rate
     \<or> ve_writer E path (wav_header pcm rate) \<noteq> (length (wav_header pcm rate), None)
     \<or> ve_writer E path pcm \<noteq> (length pcm, None) \<or> ve_close E path \<noteq> None"

definition run_failed :: "error option option \<Rightarrow> bool" where
  "run_failed r = (case r of Some (Some e) \<Rightarrow> True | _ \<Rightarrow> False)"

text \<open>
  A file written after the events \<open>hs\<close> were heard reads back as exactly the samples of their turn; one
  that cannot be written is the last thing the run does, which then fails.
\<close>
definition saved_turn ::
  "voice_env \<Rightarrow> error option option \<Rightarrow> bool \<Rightarrow> event list \<Rightarrow> string \<Rightarrow> byte list list \<Rightarrow> bool"
where
  "saved_turn E r final hs path chunks \<longleftrightarrow> (case turn_heard E hs of (turn, es) \<Rightarrow>
     turn_audio turn es
     \<and> (if file_refused E path (turn_pcm es) (turn_rate es) then final \<and> run_failed r
        else turn_pcm es \<noteq> []
          \<and> ReadPCM16WAV (Inr (concat chunks)) (turn_rate es) (30 * 48000 * 2) = Inr (turn_pcm es)))"

fun saves_ok :: "voice_env \<Rightarrow> error option option \<Rightarrow> event list \<Rightarrow> voice_act list \<Rightarrow> bool" where
  "saves_ok E r hs [] = True"
| "saves_ok E r hs (VHeard e # as) = saves_ok E r (hs @ [e]) as"
| "saves_ok E r hs (VSaved path chunks # as) = (saved_turn E r (as = []) hs path chunks \<and> saves_ok E r hs as)"
| "saves_ok E r hs (_ # as) = saves_ok E r hs as"

lemma run_failed_simps [simp]: "\<not> run_failed None" "\<not> run_failed (Some None)" "run_failed (Some (Some e))"
  by (simp_all add: run_failed_def)

lemma saved_turn_running: "saved_turn E None b hs path chunks \<Longrightarrow> saved_turn E r b' hs path chunks"
  by (auto simp: saved_turn_def split: prod.splits if_splits)

lemma saves_ok_append:
  "saves_ok E None hs as \<Longrightarrow> saves_ok E r hs (as @ bs) \<longleftrightarrow> saves_ok E r (hs @ voice_heard as) bs"
proof (induction as arbitrary: hs)
  case (Cons a as)
  then show ?case by (cases a) (auto intro: saved_turn_running)
qed simp

lemma saves_ok_running: "saves_ok E None hs as \<Longrightarrow> saves_ok E r hs as"
  using saves_ok_append [of E hs as r "[]"] by simp

lemma saves_ok_snoc [simp]:
  "saves_ok E None [] as \<Longrightarrow> saves_ok E r [] (as @ [a]) \<longleftrightarrow>
     (case a of VSaved path chunks \<Rightarrow> saved_turn E r True (voice_heard as) path chunks | _ \<Rightarrow> True)"
  by (cases a) (simp_all add: saves_ok_append)

lemma turn_heard_snoc [simp]: "turn_heard E (hs @ [e]) = turn_step (ve_nova E) e (turn_heard E hs)"
  by (simp add: turn_heard_def)

subsection \<open>How it ends\<close>

definition tool_heard :: "event list \<Rightarrow> string \<Rightarrow> bool" where
  "tool_heard es n = list_ex (\<lambda>e. ev_Type e = ToolResult
     \<and> (case ev_Tool e of None \<Rightarrow> False | Some t \<Rightarrow> vt_Name t = n \<and> tool_succeeded (vt_Result t))) es"

lemma tool_heard_append [simp]: "tool_heard (es @ es') n \<longleftrightarrow> tool_heard es n \<or> tool_heard es' n"
  by (simp add: tool_heard_def)

text \<open>Success: the session stopped, and every tool named on the command line was seen to succeed.\<close>
definition voice_success :: "voice_env \<Rightarrow> event list \<Rightarrow> bool" where
  "voice_success E es \<longleftrightarrow> es \<noteq> [] \<and> ev_Type (last es) = SessionStopped
     \<and> list_all (\<lambda>n. n = [] \<or> tool_heard es n) (va_ExpectedTools (ve_args E))"

subsection \<open>The invariant\<close>

definition voice_core :: "voice_env \<Rightarrow> voice_loop \<Rightarrow> bool" where
  "voice_core E l \<longleftrightarrow>
     list_all (own_event E) (voice_wrote (vl_trace l))
     \<and> (\<exists>n. audio_numbers (voice_wrote (vl_trace l)) = numbered n \<and> vl_sequence l = of_nat n)
     \<and> saves_ok E (vl_result l) [] (vl_trace l)
     \<and> list_all (tool_heard (voice_heard (vl_trace l))) (vl_tools l)
     \<and> (vl_result l = Some None \<longrightarrow> voice_success E (voice_heard (vl_trace l)))"

text \<open>While the loop runs, \<open>response\<close> holds the samples of what was heard.\<close>
definition voice_inv :: "voice_env \<Rightarrow> bool \<Rightarrow> voice_loop \<Rightarrow> bool" where
  "voice_inv E ok l \<longleftrightarrow> voice_core E l \<and> (if ok then vl_result l = None \<and> collected E (voice_heard (vl_trace l)) l else True)"

definition voice_ok :: "voice_env \<Rightarrow> voice_block \<Rightarrow> bool" where
  "voice_ok E m \<longleftrightarrow> (\<forall>l. voice_inv E True l \<longrightarrow> wp m (voice_inv E) l)"

abbreviation voice_stays :: "voice_env \<Rightarrow> (voice_loop, 'a) state \<Rightarrow> bool" where
  "voice_stays E \<equiv> keeps (voice_inv E True)"

lemma voice_okI: "(\<And>l. voice_inv E True l \<Longrightarrow> wp m (voice_inv E) l) \<Longrightarrow> voice_ok E m"
  by (simp add: voice_ok_def)

lemma voice_okD: "voice_ok E m \<Longrightarrow> voice_inv E True l \<Longrightarrow> wp m (voice_inv E) l"
  by (simp add: voice_ok_def)

lemma voice_ok_after: "voice_ok E m \<Longrightarrow> voice_ok E k \<Longrightarrow> voice_ok E (after m k)"
  by (auto simp: voice_ok_def intro: wp_mono)

lemma voice_ok_bind: "voice_stays E m \<Longrightarrow> (\<And>x. voice_ok E (f x)) \<Longrightarrow> voice_ok E (State_Monad.bind m f)"
  by (auto simp: voice_ok_def intro: keeps_wp)

lemma voice_ok_get: "(\<And>l. voice_inv E True l \<Longrightarrow> voice_ok E (f l)) \<Longrightarrow> voice_ok E (State_Monad.bind State_Monad.get f)"
  by (simp add: voice_ok_def)

lemma voice_ok_each: "(\<And>x. x \<in> set xs \<Longrightarrow> voice_ok E (f x)) \<Longrightarrow> voice_ok E (each f xs)"
  by (induction xs) (auto intro: voice_ok_after simp: voice_ok_def [of E proceed])

lemma voice_ok_flow [simp, intro]: "voice_ok E proceed"
  by (simp add: voice_ok_def)

lemma voice_ok_if: "(b \<Longrightarrow> voice_ok E m) \<Longrightarrow> (\<not> b \<Longrightarrow> voice_ok E n) \<Longrightarrow> voice_ok E (if b then m else n)"
  by simp

lemma collected_frame [simp]:
  "collected E hs (l\<lparr>vl_trace := as\<rparr>) = collected E hs l"
  "collected E hs (l\<lparr>vl_io := a\<rparr>) = collected E hs l"
  "collected E hs (l\<lparr>vl_sequence := s\<rparr>) = collected E hs l"
  "collected E hs (l\<lparr>vl_tools := t\<rparr>) = collected E hs l"
  "collected E hs (l\<lparr>vl_result := r\<rparr>) = collected E hs l"
  "collected E hs (l\<lparr>vl_stopping := b\<rparr>) = collected E hs l"
  "collected E hs (l\<lparr>vl_bargeStarted := b\<rparr>) = collected E hs l"
  "collected E hs (l\<lparr>vl_bargeInterrupted := b\<rparr>) = collected E hs l"
  "collected E hs (l\<lparr>vl_followupStarted := b\<rparr>) = collected E hs l"
  "collected E hs (l\<lparr>vl_bargeOffset := n\<rparr>) = collected E hs l"
  "collected E hs (l\<lparr>vl_followupOffset := n\<rparr>) = collected E hs l"
  "collected E hs (l\<lparr>vl_followupAt := at\<rparr>) = collected E hs l"
  "collected E hs (l\<lparr>vl_firstOutputTurn := u\<rparr>) = collected E hs l"
  "collected E hs (l\<lparr>vl_cancellation := b\<rparr>) = collected E hs l"
  "collected E hs (l\<lparr>vl_nativeCancellation := b\<rparr>) = collected E hs l"
  by (simp_all add: collected_def)

lemma voice_inv_frame [simp]:
  "voice_inv E ok (l\<lparr>vl_io := a\<rparr>) = voice_inv E ok l"
  "voice_inv E ok (l\<lparr>vl_stopping := b\<rparr>) = voice_inv E ok l"
  "voice_inv E ok (l\<lparr>vl_bargeStarted := b\<rparr>) = voice_inv E ok l"
  "voice_inv E ok (l\<lparr>vl_bargeInterrupted := b\<rparr>) = voice_inv E ok l"
  "voice_inv E ok (l\<lparr>vl_followupStarted := b\<rparr>) = voice_inv E ok l"
  "voice_inv E ok (l\<lparr>vl_bargeOffset := n\<rparr>) = voice_inv E ok l"
  "voice_inv E ok (l\<lparr>vl_followupOffset := n\<rparr>) = voice_inv E ok l"
  "voice_inv E ok (l\<lparr>vl_followupAt := at\<rparr>) = voice_inv E ok l"
  "voice_inv E ok (l\<lparr>vl_firstOutputTurn := u\<rparr>) = voice_inv E ok l"
  "voice_inv E ok (l\<lparr>vl_cancellation := b\<rparr>) = voice_inv E ok l"
  "voice_inv E ok (l\<lparr>vl_nativeCancellation := b\<rparr>) = voice_inv E ok l"
  by (simp_all add: voice_inv_def voice_core_def)

lemma core_leave: "voice_core E l \<Longrightarrow> vl_result l = None \<Longrightarrow> voice_inv E False (l\<lparr>vl_result := Some (Some err)\<rparr>)"
  by (simp add: voice_inv_def voice_core_def saves_ok_running)

lemma voice_inv_leave: "voice_inv E True l \<Longrightarrow> voice_inv E False (l\<lparr>vl_result := Some (Some e)\<rparr>)"
  using core_leave [of E l e] by (simp add: voice_inv_def)

lemma voice_ok_return [simp, intro]: "voice_ok E (voice_return (Some e))"
  by (auto intro!: voice_okI voice_inv_leave)

lemma voice_ok_try [simp, intro]: "voice_ok E (voice_try r)"
  by (auto intro!: voice_okI voice_inv_leave split: option.split)

lemma voice_ok_io [simp, intro]: "voice_ok E (voice_io E)"
  by (auto intro!: voice_okI voice_inv_leave simp: voice_io_def split: option.split)

text \<open>Acts the invariant does not look at.\<close>
fun voice_silent :: "voice_act \<Rightarrow> bool" where
  "voice_silent (VWrote e) = False"
| "voice_silent (VHeard e) = False"
| "voice_silent (VSaved path chunks) = False"
| "voice_silent a = True"

lemma voice_silent_act:
  "voice_silent a \<Longrightarrow> voice_wrote [a] = [] \<and> voice_heard [a] = [] \<and> (case a of VSaved path chunks \<Rightarrow> b path chunks | _ \<Rightarrow> True)"
  by (cases a) simp_all

lemma core_silent:
  "voice_silent a \<Longrightarrow> vl_trace l = as \<Longrightarrow> vl_result l = None \<Longrightarrow> voice_core E l \<Longrightarrow> voice_core E (l\<lparr>vl_trace := as @ [a]\<rparr>)"
  using voice_silent_act by (auto simp: voice_core_def saves_ok_snoc)

lemma stays_silent: "voice_silent a \<Longrightarrow> voice_stays E (voice_do a)"
  using voice_silent_act by (auto simp: keeps_def voice_inv_def core_silent)

lemma stays_print [simp, intro]: "voice_stays E (voice_print t)"
  unfolding voice_print_def by (rule stays_silent) simp

lemmas stays_intros = stays_silent stays_print keeps_assign keeps_bind keeps_if

lemma ok_write:
  assumes "own_event E (e\<lparr>ev_Version := 1\<rparr>)" "ev_Type e \<noteq> AudioAppend"
  shows "voice_ok E (voice_write E e)"
  unfolding voice_write_def
  using assms by (auto intro!: voice_ok_bind keepsI simp: voice_inv_def voice_core_def)

lemma ok_audio:
  assumes "frame_ok f" shows "voice_ok E (voice_audio E f)"
proof (rule voice_okI)
  fix l assume l: "voice_inv E True l"
  let ?e = "client_wire 1 (CAudio (ve_session E) (ve_turn E) (vl_sequence l + 1) (b64_encode f))"
  have "own_event E ?e" 
    using assms by (auto simp: own_event_def intro!: exI [of _ "CAudio (ve_session E) (ve_turn E) (vl_sequence l + 1) (b64_encode f)"])
  then have "voice_inv E True (l\<lparr>vl_sequence := vl_sequence l + 1, vl_trace := vl_trace l @ [VWrote ?e]\<rparr>)"
    using l by (auto simp: voice_inv_def voice_core_def intro: exI [of _ "Suc n" for n])
  then show "wp (voice_audio E f) (voice_inv E) l"
    using voice_okD [OF voice_ok_io]
    by (simp add: voice_audio_def voice_write_def voice_event_def zero_event_def)
qed

lemma voice_event_Type [simp]: "ev_Type (voice_event E t) = t"
  by (simp add: voice_event_def)

lemma voice_inv_silent [simp]:
  "vl_trace l = as \<Longrightarrow> voice_silent a \<Longrightarrow> voice_inv E True l \<Longrightarrow> voice_inv E True (l\<lparr>vl_trace := as @ [a]\<rparr>)"
  using voice_silent_act [of a] by (auto simp: voice_inv_def core_silent)

lemma voice_inv_tools:
  assumes "voice_inv E True l" "tool_heard (voice_heard (vl_trace l)) n" "voice_silent a"
  shows "voice_inv E True (l\<lparr>vl_trace := vl_trace l @ [a], vl_tools := List.insert n (vl_tools l)\<rparr>)"
proof -
  have "voice_inv E True (l\<lparr>vl_trace := vl_trace l @ [a]\<rparr>)" using assms by simp
  then show ?thesis using assms(2) by (auto simp: voice_inv_def voice_core_def list_all_iff)
qed

lemma own_events [simp]:
  "own_event E ((voice_event E TurnCommit)\<lparr>ev_Version := 1\<rparr>)"
  "own_event E ((voice_event E TurnCancel)\<lparr>ev_Version := 1\<rparr>)"
  "own_event E (zero_event\<lparr>ev_Version := 1, ev_Type := SessionStop, ev_SessionID := ve_session E\<rparr>)"
  "own_event E (zero_event\<lparr>ev_Version := 1, ev_Type := SessionStart, ev_Provider := va_selected (ve_args E),
     ev_RequestID := vp_RequestID (ve_plan E)\<rparr>)"
  by (auto simp: own_event_def voice_event_def zero_event_def
      intro: exI [of _ "CCommit (ve_session E) (ve_turn E)"] exI [of _ "CCancel (ve_session E) (ve_turn E)"]
        exI [of _ "CStop (ve_session E) []"] exI [of _ "CStart [] (vp_RequestID (ve_plan E)) (va_selected (ve_args E))"])

lemma ok_stop [simp, intro]: "voice_ok E (voice_stop E)"
  unfolding voice_stop_def by (rule ok_write) (use own_events(3) in \<open>simp_all add: zero_event_def\<close>)

lemma ok_open: "voice_ok E (voice_open E)"
  unfolding voice_open_def
  by (auto intro!: voice_ok_bind voice_ok_after stays_silent ok_write split: sum.split)
    (use own_events(4) in \<open>simp_all add: zero_event_def\<close>)

lemma ok_upload:
  assumes "even (length (vp_pcm (ve_plan E)))" shows "voice_ok E (voice_upload E)"
proof -
  have "voice_ok E (voice_upload_frame E f)" if "f \<in> set (voice_frames (vp_pcm (ve_plan E)))" for f
    unfolding voice_upload_frame_def
    using voice_frames_sizes [OF that] assms
    by (auto intro!: voice_ok_get voice_ok_after ok_audio simp: frame_ok_def)
  moreover have "voice_ok E (voice_write E (voice_event E TurnCommit))"
    by (rule ok_write) simp_all
  ultimately show ?thesis unfolding voice_upload_def by (auto intro!: voice_ok_after voice_ok_each)
qed

lemma ok_timer: "voice_ok E (voice_timer E)"
  unfolding voice_timer_def by (auto intro!: voice_ok_if voice_ok_bind stays_intros)

lemma length_copy_frame [simp]: "length (copy_frame speech frame) = length frame"
  by (simp add: copy_frame_def)

lemma ok_silence: "voice_ok E (voice_silence E now)"
  unfolding voice_silence_def Let_def
  by (auto intro!: voice_ok_get voice_ok_if voice_ok_bind keeps_assign ok_audio simp: frame_ok_def
      simp flip: length_greater_0_conv)

lemma ok_cancel: "voice_ok E (voice_cancel E)"
  unfolding voice_cancel_def
  by (auto intro!: voice_ok_bind voice_ok_get voice_ok_if keeps_assign ok_write)

lemma ok_tool_event:
  assumes "ev_Type e \<in> {ToolStarted, ToolConfirmation, ToolResult}"
  shows "voice_inv E True l \<Longrightarrow> e \<in> set (voice_heard (vl_trace l)) \<Longrightarrow> wp (voice_tool_event e) (voice_inv E) l"
proof -
  assume l: "voice_inv E True l" and e: "e \<in> set (voice_heard (vl_trace l))"
  show ?thesis
  proof (cases "ev_Tool e")
    case (Some t)
    have "tool_heard (voice_heard (vl_trace l)) (vt_Name t)" if "ev_Type e = ToolResult" "tool_succeeded (vt_Result t)"
      using e that Some by (auto simp: tool_heard_def list_ex_iff intro!: bexI [of _ e])
    then show ?thesis using assms l Some by (auto simp: voice_tool_event_def intro: voice_inv_tools)
  qed (use l in \<open>simp add: voice_tool_event_def voice_inv_leave\<close>)
qed

text \<open>An event was heard, and not yet looked at.\<close>
definition voice_pending :: "voice_env \<Rightarrow> event \<Rightarrow> voice_loop \<Rightarrow> bool" where
  "voice_pending E e l \<longleftrightarrow> voice_core E l \<and> vl_result l = None
     \<and> (\<exists>hs. voice_heard (vl_trace l) = hs @ [e] \<and> collected E hs l)"

lemma pending_heard: "voice_inv E True l \<Longrightarrow> voice_pending E e (l\<lparr>vl_trace := vl_trace l @ [VHeard e]\<rparr>)"
  by (auto simp: voice_pending_def voice_inv_def voice_core_def saves_ok_snoc list_all_iff)

lemma pending_silent: "voice_silent a \<Longrightarrow> keeps (voice_pending E e) (voice_do a)"
  using voice_silent_act by (auto simp: keeps_def voice_pending_def core_silent)

lemma pending_flags:
  "keeps (voice_pending E e) (assign (\<lambda>l. l\<lparr>vl_bargeStarted := b\<rparr>))"
  "keeps (voice_pending E e) (assign (\<lambda>l. l\<lparr>vl_nativeCancellation := b, vl_cancellation := c\<rparr>))"
  "keeps (voice_pending E e) (assign (\<lambda>l. l\<lparr>vl_io := f l\<rparr>))"
  by (auto intro!: keeps_assign simp: voice_pending_def voice_core_def)

lemma pending_first_output: "keeps (voice_pending E e) (voice_first_output E)"
  unfolding voice_first_output_def voice_print_def
  by (auto intro!: keeps_bind keeps_if pending_silent pending_flags)

text \<open>Events that do not change what the run should hold.\<close>
lemma pending_other:
  "voice_pending E e l \<Longrightarrow> ev_Type e \<notin> {TurnStarted, TurnInterrupted, AudioOutput} \<Longrightarrow> voice_inv E True l"
  by (auto simp: voice_pending_def voice_inv_def split: prod.splits) (auto simp: collected_def split: prod.splits)

lemma pending_leave: "voice_pending E e l \<Longrightarrow> voice_inv E False (l\<lparr>vl_result := Some (Some err)\<rparr>)"
  by (auto simp: voice_pending_def intro: core_leave)

lemma core_audio:
  "voice_core E l \<Longrightarrow> voice_core E (l\<lparr>vl_outputTurnID := t, vl_response := p, vl_sampleRate := r, vl_audioSequence := n\<rparr>)"
  "voice_core E l \<Longrightarrow> voice_core E (l\<lparr>vl_response := p, vl_sampleRate := r, vl_audioSequence := n\<rparr>)"
  "voice_core E l \<Longrightarrow> voice_core E (l\<lparr>vl_sampleRate := r, vl_audioSequence := n, vl_response := p\<rparr>)"
  by (simp_all add: voice_core_def)

lemma pending_turn_started:
  assumes "voice_pending E e l" "ev_Type e = TurnStarted" shows "wp (voice_turn_started E e) (voice_inv E) l"
  using assms by (auto simp: voice_turn_started_def voice_discard_def voice_pending_def voice_inv_def core_audio)
    (auto simp: collected_def turn_audio_def turn_pcm_def turn_rate_def split: prod.splits)

lemma pending_interrupted:
  assumes "voice_pending E e l" "ev_Type e = TurnInterrupted" shows "wp (voice_interrupted E) (voice_inv E) l"
proof -
  have "voice_inv E True (l\<lparr>vl_response := [], vl_sampleRate := 0, vl_audioSequence := 0\<rparr>)"
    using assms by (auto simp: voice_pending_def voice_inv_def core_audio)
      (auto simp: collected_def turn_audio_def turn_pcm_def turn_rate_def split: prod.splits)
  moreover have "voice_ok E (do {
     l \<leftarrow> State_Monad.get;
     (if vl_followupStarted l then proceed
      else if vp_barge (ve_plan E) \<noteq> [] \<and> vl_bargeStarted l then do {
        assign (\<lambda>l. l\<lparr>vl_bargeInterrupted := True\<rparr>);
        voice_print ''native barge-in confirmed; old audio discarded'';
        proceed }
      else do {
        assign (\<lambda>l. l\<lparr>vl_stopping := True\<rparr>);
        voice_print ''turn interrupted; output discarded'';
        voice_stop E }) })"
    by (auto intro!: voice_ok_bind voice_ok_get voice_ok_if keeps_assign)
  ultimately show ?thesis
    unfolding voice_interrupted_def voice_discard_def wp_bind [of "assign _"] wp_assign by (rule voice_okD [rotated])
qed

text \<open>A frame that passes the checks is one more of its turn.\<close>
lemma collect_frame:
  assumes "collected E hs l" "ev_Type e = AudioOutput" "ev_TurnID e = vl_outputTurnID l"
    and "ev_Sequence e = vl_audioSequence l + 1" "b64_decode (ev_Audio e) = Some decoded"
      "vl_sampleRate l = 0 \<or> vl_sampleRate l = ev_SampleRate e"
  shows "collected E (hs @ [e]) (l\<lparr>vl_sampleRate := ev_SampleRate e, vl_audioSequence := vl_audioSequence l + 1,
        vl_response := vl_response l @ decoded\<rparr>)"
  using assms by (auto simp: collected_def turn_audio_def turn_pcm_def turn_rate_def event_pcm_def list_all_iff split: prod.splits if_splits)

lemma pending_collect:
  assumes "voice_pending E e l" "ev_Type e = AudioOutput" shows "wp (voice_collect e) (voice_inv E) l"
proof -
  obtain hs where l: "voice_core E l" "vl_result l = None" "voice_heard (vl_trace l) = hs @ [e]" "collected E hs l"
    using assms by (auto simp: voice_pending_def)
  note err = pending_leave [OF assms(1)]
  show ?thesis
  proof (cases "vl_stopping l \<or> ev_TurnID e \<noteq> vl_outputTurnID l \<or> ev_Sequence e \<noteq> vl_audioSequence l + 1
      \<or> vl_sampleRate l \<noteq> 0 \<and> vl_sampleRate l \<noteq> ev_SampleRate e")
    case True
    then show ?thesis using err by (auto simp: voice_collect_def)
  next
    case False
    have "voice_inv E True (l\<lparr>vl_sampleRate := ev_SampleRate e, vl_audioSequence := vl_audioSequence l + 1,
        vl_response := vl_response l @ decoded\<rparr>)" if "b64_decode (ev_Audio e) = Some decoded" for decoded
      using collect_frame [OF l(4) assms(2) _ _ that] False l(1-3) core_audio(3) [OF l(1)] by (auto simp: voice_inv_def)
    then show ?thesis using False err by (auto simp: voice_collect_def split: option.split)
  qed
qed

lemma pending_output: "voice_pending E e l \<Longrightarrow> ev_Type e = AudioOutput \<Longrightarrow> wp (voice_output E e) (voice_inv E) l"
  unfolding voice_output_def wp_bind by (rule keeps_wp [OF pending_first_output]) (auto intro: pending_collect)

text \<open>The file: a complete one, or an error.\<close>
lemma written_wav:
  assumes "WritePCM16WAV (ve_writer E path) pcm rate = (err, chunks)"
  shows "if file_refused E path pcm rate then err \<noteq> None \<or> ve_close E path \<noteq> None
    else err = None \<and> ve_close E path = None \<and> pcm \<noteq> []
      \<and> ReadPCM16WAV (Inr (concat chunks)) rate (30 * 48000 * 2) = Inr pcm"
proof (cases "wav_writable pcm rate")
  case True
  then have "length pcm \<le> 30 * 48000 * 2" "pcm \<noteq> []" by (auto simp: wav_writable_def)
  then have "ReadPCM16WAV (Inr (wav_header pcm rate @ pcm)) rate (30 * 48000 * 2) = Inr pcm" "pcm \<noteq> []"
    using wav_roundtrip [OF True] True by (simp_all add: WritePCM16WAV_def full_writer_def)
  then show ?thesis
    using assms True by (auto simp: WritePCM16WAV_def file_refused_def Let_def split: prod.splits option.splits if_splits)
qed (use assms in \<open>auto simp: WritePCM16WAV_def file_refused_def\<close>)

lemma ok_save: "voice_ok E (voice_save E path)"
proof (rule voice_okI)
  fix l assume l: "voice_inv E True l"
  obtain err chunks where w: "WritePCM16WAV (ve_writer E path) (vl_response l) (vl_sampleRate l) = (err, chunks)"
    by (metis surj_pair)
  let ?l = "l\<lparr>vl_trace := vl_trace l @ [VSaved path chunks]\<rparr>"
  obtain turn es where held: "turn_heard E (voice_heard (vl_trace l)) = (turn, es)" "turn_audio turn es"
      "vl_response l = turn_pcm es" "vl_sampleRate l = turn_rate es"
    using l by (auto simp: voice_inv_def collected_def split: prod.splits)
  note written = written_wav [OF w, unfolded held(3,4)]
  have keep: "voice_inv E ok (?l\<lparr>vl_result := r\<rparr>)" if "r \<noteq> Some None" "if ok then r = None else True"
      "saved_turn E r True (voice_heard (vl_trace l)) path chunks" for ok r
    using l that by (auto simp: voice_inv_def voice_core_def saves_ok_snoc)
  have "wp (after (voice_try err) (voice_try (ve_close E path))) (voice_inv E) ?l"
  proof (cases "file_refused E path (turn_pcm es) (turn_rate es)")
    case True
    then have "saved_turn E (Some (Some x)) True (voice_heard (vl_trace l)) path chunks" for x
      by (simp add: saved_turn_def held(1,2))
    then show ?thesis using True written keep by (auto split: option.split)
  next
    case False
    then have "saved_turn E None True (voice_heard (vl_trace l)) path chunks"
      using written by (simp add: saved_turn_def held(1,2))
    moreover have "vl_result l = None" using l by (simp add: voice_inv_def)
    ultimately show ?thesis using False written keep [of None True] by (simp add: voice_inv_def voice_core_def)
  qed
  then have "wp (do {
       l \<leftarrow> State_Monad.get;
       (case WritePCM16WAV (ve_writer E path) (vl_response l) (vl_sampleRate l) of
          (err, chunks) \<Rightarrow> do {
            voice_do (VSaved path chunks);
            after (voice_try err) (voice_try (ve_close E path)) }) }) (voice_inv E) l"
    by (simp add: w del: wp_after wp_voice_try)
  moreover have "voice_inv E False (l\<lparr>vl_result := Some (Some e)\<rparr>)" for e using voice_inv_leave [OF l] .
  ultimately show "wp (voice_save E path) (voice_inv E) l"
    unfolding voice_save_def wp_after wp_voice_try by (auto split: option.split)
qed

lemma ok_completed: "voice_ok E (voice_completed E now e)"
  unfolding voice_completed_def Let_def
  by (auto intro!: voice_ok_get voice_ok_if voice_ok_bind voice_ok_after ok_save keeps_assign stays_silent keeps_if)

lemma stopped_inv:
  assumes "voice_inv E True l" "voice_heard (vl_trace l) = es @ [e]" "ev_Type e = SessionStopped"
  shows "wp (voice_stopped E) (voice_inv E) l"
proof -
  have "voice_success E (es @ [e])" if "missing_tool (va_ExpectedTools (ve_args E)) (vl_tools l) = None"
    using that assms by (auto simp: voice_success_def missing_tool_def find_None_iff list_all_iff voice_inv_def voice_core_def)
  then show ?thesis using assms
    by (auto simp: voice_stopped_def voice_inv_def voice_core_def)
qed

lemma pending_io:
  assumes "voice_pending E e l" shows "wp (voice_io E) (\<lambda>ok l. if ok then voice_pending E e l else voice_inv E False l) l"
proof -
  have p: "voice_pending E e (l\<lparr>vl_io := Suc (vl_io l)\<rparr>)" using keepsD [OF pending_flags(3) assms] by simp
  show ?thesis using p pending_leave [OF p] by (simp add: voice_io_def split: option.split)
qed

lemma pending_capture:
  assumes "voice_pending E e l"
  shows "wp (if vp_capture (ve_plan E) then do { voice_do (VCaptured e); voice_io E } else proceed)
     (\<lambda>ok l. if ok then voice_pending E e l else voice_inv E False l) l"
proof (cases "vp_capture (ve_plan E)")
  case True
  have "voice_pending E e (l\<lparr>vl_trace := vl_trace l @ [VCaptured e]\<rparr>)"
    using keepsD [OF pending_silent assms, of "VCaptured e"] by simp
  then show ?thesis using True pending_io by (simp del: if_split)
qed (use assms in simp)

lemma pending_switch:
  assumes "voice_pending E e l" shows "wp (voice_switch E now e) (voice_inv E) l"
proof (cases "ev_Type e \<in> {TurnStarted, TurnInterrupted, AudioOutput}")
  case True
  then show ?thesis
    using pending_turn_started [OF assms] pending_interrupted [OF assms] pending_output [OF assms] by (auto simp: voice_switch_def)
next
  case False
  note l = pending_other [OF assms False]
  obtain hs where hs: "voice_heard (vl_trace l) = hs @ [e]" using assms by (auto simp: voice_pending_def)
  have tool: "wp (voice_tool_event e) (voice_inv E) l" if "ev_Type e \<in> {ToolStarted, ToolConfirmation, ToolResult}"
    by (rule ok_tool_event [OF that l]) (simp add: hs)
  have other: "wp m (voice_inv E) l" if "voice_ok E m" for m by (rule voice_okD [OF that l])
  show ?thesis
    using False tool stopped_inv [OF l hs] l
    by (simp add: voice_switch_def other ok_completed voice_inv_leave del: wp_voice_return)
qed

lemma ok_receive: "voice_ok E (voice_receive E now e)"
proof (rule voice_okI)
  fix l assume l: "voice_inv E True l"
  let ?k = "if ev_Version e \<noteq> 1 \<or> ev_SessionID e \<noteq> ve_session E
        then voice_return (Some ''protocol/session mismatch'') else voice_switch E now e"
  have "wp ?k (voice_inv E) l'" if "voice_pending E e l'" for l'
    using pending_switch [OF that] pending_leave [OF that] by simp
  then show "wp (voice_receive E now e) (voice_inv E) l"
    unfolding voice_receive_def wp_bind wp_voice_do wp_after
    by (intro wp_mono [OF pending_capture [OF pending_heard [OF l]]]) (auto split: if_splits)
qed

lemma ok_step: "voice_ok E (voice_step E t)"
proof (cases t)
  case (Pair now i)
  show ?thesis
  proof (cases i)
    case (VIRead r)
    then show ?thesis using Pair ok_receive by (cases r) auto
  qed (use Pair ok_silence ok_cancel in \<open>auto intro: voice_ok_get\<close>)
qed

lemma ok_session:
  assumes "even (length (vp_pcm (ve_plan E)))" shows "voice_ok E (voice_session E ticks)"
  unfolding voice_session_def
  by (intro voice_ok_after ok_open ok_upload ok_timer voice_ok_each ok_step assms)

lemma start_inv: "voice_inv E True (voice_start (ve_turn E))"
  by (auto simp: voice_inv_def voice_core_def voice_start_def collected_def turn_audio_def turn_heard_def
      turn_pcm_def turn_rate_def intro: exI [of _ 0])

text \<open>What a run has done, whenever it is looked at.\<close>
lemma voice_run_core:
  assumes "voice_run fs rid E ticks = Inr l"
  shows "\<exists>p. voice_prepare fs (ve_create E) rid (ve_args E) = Inr p
    \<and> voice_core (E\<lparr>ve_plan := p, ve_session := (case ve_ready E of Inl _ \<Rightarrow> [] | Inr ready \<Rightarrow> ev_SessionID ready)\<rparr>) l"
proof -
  obtain p where p: "voice_prepare fs (ve_create E) rid (ve_args E) = Inr p"
    using assms by (auto simp: voice_run_def split: sum.splits)
  let ?E = "E\<lparr>ve_plan := p, ve_session := (case ve_ready E of Inl _ \<Rightarrow> [] | Inr ready \<Rightarrow> ev_SessionID ready)\<rparr>"
  have "wp (voice_session ?E ticks) (voice_inv ?E) (voice_start (ve_turn E))"
    using voice_okD [OF ok_session [of ?E] start_inv [of ?E]] voice_prepare_Inr(2) [OF p] by simp
  then show ?thesis using assms p by (auto simp: voice_run_def wp_run voice_inv_def Let_def)
qed

text \<open>The plan and the session do not matter to what is saved.\<close>
lemma saves_ok_env: "saves_ok (E\<lparr>ve_plan := p, ve_session := s\<rparr>) r hs as = saves_ok E r hs as"
proof -
  have "saved_turn (E\<lparr>ve_plan := p, ve_session := s\<rparr>) r b hs path chunks = saved_turn E r b hs path chunks" for b hs path chunks
    by (simp add: saved_turn_def turn_heard_def file_refused_def)
  moreover have "ve_nova (E\<lparr>ve_plan := p, ve_session := s\<rparr>) = ve_nova E" by simp
  ultimately show ?thesis
  proof (induction as arbitrary: hs)
    case (Cons a as)
    then show ?case by (cases a) simp_all
  qed simp
qed

text \<open>
  C25. Every file a run writes holds the audio of one turn, complete and in order: it is not empty and
  reads back as exactly the samples of the output frames heard for the turn since it started or was
  interrupted, numbered from 1 without a gap and of one sample rate. Only where there is no sample or
  no allowed rate, or where the system refuses the write or the close, is no such file left; then it
  is the last thing the run does, which returns an error. A run returns without an error only when the
  gateway said that the session stopped and every tool named on the command line was seen to succeed.
\<close>
theorem client_saves_turn:
  "case voice_run fs rid E ticks of
     Inl _ \<Rightarrow> True
   | Inr l \<Rightarrow> saves_ok E (vl_result l) [] (vl_trace l)
       \<and> (if vl_result l = Some None then voice_success E (voice_heard (vl_trace l)) else True)"
proof (cases "voice_run fs rid E ticks")
  case (Inr l)
  then show ?thesis using voice_run_core [OF Inr] by (auto simp: voice_core_def voice_success_def saves_ok_env)
qed simp

lemma own_legal:
  assumes "own_event E e" "ValidID (ve_session E)" "ValidID (ve_turn E)" "ValidID (vp_RequestID (ve_plan E))"
    and "ev_Type e = AudioAppend \<longrightarrow> ev_Sequence e \<noteq> 0"
  shows "client_event 1 e = Inr e"
proof -
  obtain m where m: "own_msg E m" "e = client_wire 1 m" using assms(1) by (auto simp: own_event_def)
  then have "client_legal 1 m" using assms(2-5) frame_decodes by (cases m) (auto simp: opt_id_def zero_event_def)
  then show ?thesis using m(2) client_wire_accepted [of 1 m] by simp
qed

lemma audio_numbers_nonzero:
  assumes "audio_numbers es = numbered n" "length es < 2 ^ 64" "e \<in> set es" "ev_Type e = AudioAppend"
  shows "ev_Sequence e \<noteq> 0"
proof -
  have "length (audio_numbers es) \<le> length es" by (simp add: audio_numbers_def)
  then have n: "n < 2 ^ 64" using assms(1,2) by (simp add: numbered_def del: upt_Suc)
  have "ev_Sequence e \<in> set (audio_numbers es)" using assms(3,4) by (auto simp: audio_numbers_def)
  then obtain k where k: "ev_Sequence e = of_nat k" "1 \<le> k" "k \<le> n" using assms(1) by (auto simp: numbered_def)
  then have "unat (ev_Sequence e) = k" using n by (simp add: unsigned_of_nat take_bit_nat_eq_self)
  then show ?thesis using k(2) by auto
qed

text \<open>An event of this run: the start with its provider and request id, or one of its session and turn.\<close>
definition addressed :: "string \<Rightarrow> string \<Rightarrow> string \<Rightarrow> string \<Rightarrow> event \<Rightarrow> bool" where
  "addressed provider rid sid turn e \<longleftrightarrow>
     (if ev_Type e = SessionStart then ev_Provider e = provider \<and> ev_RequestID e = rid \<and> ev_SessionID e = [] \<and> ev_TurnID e = []
      else if ev_Type e = SessionStop then ev_SessionID e = sid \<and> ev_TurnID e = []
      else ev_Type e \<in> {AudioAppend, TurnCommit, TurnCancel} \<and> ev_SessionID e = sid \<and> ev_TurnID e = turn)"

lemma own_addressed:
  "own_event E e \<Longrightarrow> addressed (va_selected (ve_args E)) (vp_RequestID (ve_plan E)) (ve_session E) (ve_turn E) e"
proof -
  assume "own_event E e"
  then obtain m where m: "own_msg E m" "e = client_wire 1 m" by (auto simp: own_event_def)
  then show ?thesis by (cases m) (auto simp: addressed_def zero_event_def)
qed

text \<open>
  C24. The client speaks the protocol: every event it writes, with any files, failures, answers and timers,
  passes the gateway's decoder, and is the start of the provider and request id it was given, a frame,
  a commit or a cancel of the session the gateway named and of its own turn, or the stop of that
  session. Its audio is numbered 1, 2, 3 across the upload and the microphone stream that follows.
\<close>
theorem client_speaks_protocol:
  assumes "voice_run fs rid E ticks = Inr l" "ve_ready E = Inr ready" "ValidID (ve_turn E)" "ValidID (ev_SessionID ready)"
    and "length (voice_wrote (vl_trace l)) < 2 ^ 64"
  shows "list_all (\<lambda>e. client_event 1 e = Inr e
      \<and> addressed (va_selected (ve_args E)) (if va_RequestID (ve_args E) = [] then rid else va_RequestID (ve_args E))
          (ev_SessionID ready) (ve_turn E) e) (voice_wrote (vl_trace l))
    \<and> (\<exists>n. audio_numbers (voice_wrote (vl_trace l)) = numbered n)"
proof -
  obtain p where p: "voice_prepare fs (ve_create E) rid (ve_args E) = Inr p"
    and core: "voice_core (E\<lparr>ve_plan := p, ve_session := ev_SessionID ready\<rparr>) l"
    using voice_run_core [OF assms(1)] assms(2) by auto
  obtain n where n: "audio_numbers (voice_wrote (vl_trace l)) = numbered n" using core by (auto simp: voice_core_def)
  have "client_event 1 e = Inr e" if "e \<in> set (voice_wrote (vl_trace l))" for e
    by (rule own_legal [where E = "E\<lparr>ve_plan := p, ve_session := ev_SessionID ready\<rparr>"])
      (use core that assms voice_prepare_Inr(4) [OF p] audio_numbers_nonzero [OF n assms(5) that] in
        \<open>auto simp: voice_core_def list_all_iff\<close>)
  moreover have "addressed (va_selected (ve_args E)) (vp_RequestID p) (ev_SessionID ready) (ve_turn E) e"
    if "e \<in> set (voice_wrote (vl_trace l))" for e
    using own_addressed [of "E\<lparr>ve_plan := p, ve_session := ev_SessionID ready\<rparr>" e] core that
    by (simp add: voice_core_def list_all_iff)
  ultimately show ?thesis using n voice_prepare_Inr(5) [OF p] by (auto simp: list_all_iff)
qed

lemma frames_few: "length (voice_frames pcm) \<le> length pcm"
proof (induction pcm rule: voice_frames.induct)
  case (1 pcm)
  show ?case
  proof (cases "pcm = []")
    case False
    then have "length (voice_frames (drop 1024 pcm)) \<le> length pcm - 1024" "0 < length pcm" using 1 by simp_all
    then have "Suc (length (voice_frames (drop 1024 pcm))) \<le> length pcm" by linarith
    then show ?thesis using False by (simp add: voice_frames.simps [of pcm])
  qed (simp add: voice_frames.simps)
qed

theorem client_speaks_protocol_witness:
  "\<exists>l. voice_run (\<lambda>_. Inl ''none'') ''r-1'' sample_voice_env [] = Inr l
     \<and> list_all (\<lambda>e. client_event 1 e = Inr e \<and> addressed ''fake'' ''r-1'' ''s-1'' ''t-1'' e) (voice_wrote (vl_trace l))
     \<and> 2 \<le> length (voice_wrote (vl_trace l))"
proof -
  let ?E = sample_voice_env
  have E: "?E\<lparr>ve_plan := ve_plan ?E, ve_session := ''s-1''\<rparr> = ?E" by (simp add: sample_voice_env_def)
  define l where "l = snd (run_state (voice_session ?E []) (voice_start ''t-1''))"
  have run: "voice_run (\<lambda>_. Inl ''none'') ''r-1'' ?E [] = Inr l"
    using E unfolding voice_run_def sample_prepare l_def by (simp add: sample_voice_env_def Let_def)
  have opened: "wp (voice_open ?E) (\<lambda>ok l. ok \<and> length (voice_wrote (vl_trace l)) = 1) (voice_start ''t-1'')"
    by (simp add: voice_open_def voice_write_def voice_io_def voice_start_def sample_voice_env_def zero_event_def)
  have uploaded: "wp (voice_upload ?E) (\<lambda>ok l. ok \<and> length (voice_wrote (vl_trace l))
      = 2 + length (frame_events ?E s (voice_frames (vp_pcm (ve_plan ?E))))) l1"
    if "length (voice_wrote (vl_trace l1)) = 1" "vl_sequence l1 = s" for l1 s
    unfolding voice_upload_def wp_after
    by (rule wp_mono [OF wp_frames [OF sample_quiet]])
      (use that sample_quiet in \<open>simp add: quiet_client_def voice_write_def voice_io_def\<close>)
  have few: "length (frame_events ?E s fs) = length fs" for s fs by (induction fs arbitrary: s) auto
  have timer: "voice_timer ?E = proceed"
    by (simp add: voice_timer_def sample_voice_env_def voice_args_fake_def voice_args_provider_def)
  have size: "length (voice_frames (vp_pcm (ve_plan ?E))) \<le> 16000"
    using frames_few [of "vp_pcm (ve_plan ?E)"] by (simp add: sample_voice_env_def)
  have "wp (voice_upload ?E) (\<lambda>ok l. ok \<and> length (voice_wrote (vl_trace l)) \<in> {2..16002}) l1"
    if "length (voice_wrote (vl_trace l1)) = 1" for l1
    by (rule wp_mono [OF uploaded [OF that refl]]) (use size in \<open>simp add: few\<close>)
  then have "wp (voice_session ?E []) (\<lambda>ok l. length (voice_wrote (vl_trace l)) \<in> {2..16002}) (voice_start ''t-1'')"
    unfolding voice_session_def wp_after timer by (intro wp_mono [OF opened]) (auto intro: wp_mono)
  then have "2 \<le> length (voice_wrote (vl_trace l))" "length (voice_wrote (vl_trace l)) \<le> 16002"
    by (simp_all add: wp_run l_def)
  moreover let ?ready = "zero_event\<lparr>ev_Version := 1, ev_Type := SessionReady, ev_SessionID := ''s-1''\<rparr>"
  have "list_all (\<lambda>e. client_event 1 e = Inr e
      \<and> addressed (va_selected (ve_args ?E)) (if va_RequestID (ve_args ?E) = [] then ''r-1'' else va_RequestID (ve_args ?E))
          (ev_SessionID ?ready) (ve_turn ?E) e) (voice_wrote (vl_trace l))
      \<and> (\<exists>n. audio_numbers (voice_wrote (vl_trace l)) = numbered n)"
    by (rule client_speaks_protocol [OF run, where ready = ?ready])
      (use \<open>length (voice_wrote (vl_trace l)) \<le> 16002\<close> in \<open>simp_all add: sample_voice_env_def sample_ids zero_event_def\<close>)
  then have "list_all (\<lambda>e. client_event 1 e = Inr e \<and> addressed ''fake'' ''r-1'' ''s-1'' ''t-1'' e) (voice_wrote (vl_trace l))"
    by (simp add: sample_voice_env_def voice_args_fake_def voice_args_provider_def)
  ultimately show ?thesis using run by auto
qed

end
