(* ===== verification/Gateway_Lifecycle.thy ===== *)
theory Gateway_Lifecycle
  imports Prelude
begin

text \<open>
  The life of the gateway's connections, across the goroutines of the HTTP server: admission, the
  upgrade, registration, the loops, the reader and the deferred calls of \<open>handleVoice\<close>
  (\<open>apps/voice-gateway/internal/adapters/voice/agent_handler.go\<close>), \<open>Close\<close> of the server (\<open>server.go\<close>)
  and the end of \<open>main\<close> (\<open>cmd/gateway/main.go\<close>). A step is what one goroutine does without another in
  between: a channel operation, a call that blocks, or a section under \<open>s.mu\<close>. Any goroutine may take
  the next step, so a theorem over all sequences of steps holds for every schedule. What the loops
  answer is the matter of \<open>Gateway_Voice\<close>; here they wait, write and call.
\<close>

section \<open>State\<close>

text \<open>Where the handler of a request stands. It holds a slot from \<open>Holding\<close> to \<open>Leaving\<close>.\<close>
datatype handler_stage =
    Arrived
  | Admitted
  | Holding
  | Upgraded
  | Registered
  | Closing
  | Leaving
  | Gone

text \<open>
  Where its loop stands, in one of the two \<open>select\<close> statements or behind it: writing to the
  connection, in a call of the agent, writing what is the last, or returning.
\<close>
datatype loop_stage = Selecting | Writing | Calling | Parting | Returning

text \<open>Where \<open>readVoiceEvents\<close> stands: not started, in \<open>ReadMessage\<close>, sending to \<open>in\<close>, and in its deferred calls.\<close>
datatype reader_stage = NoReader | Reading | Offering | InputClosed | DoneClosed | ReaderGone

text \<open>
  \<open>hd_in\<close> is the number of messages in \<open>in\<close>, \<open>hd_buffered\<close> of frames that have arrived and not been read,
  \<open>hd_agent\<close> whether the agent's session was opened, \<open>hd_done\<close> whether the handler's own context was cancelled.
\<close>
record handler =
  hd_stage :: handler_stage
  hd_open :: bool
  hd_loop :: loop_stage
  hd_agent :: bool
  hd_in :: nat
  hd_reader :: reader_stage
  hd_buffered :: nat
  hd_done :: bool

definition new_handler :: handler where
  "new_handler = \<lparr>hd_stage = Arrived, hd_open = False, hd_loop = Selecting, hd_agent = False, hd_in = 0,
     hd_reader = NoReader, hd_buffered = 0, hd_done = False\<rparr>"

datatype closing = Serving | Waiting | Stopped | TimedOut

record life =
  lf_handlers :: "handler list"
  lf_slots :: nat
  lf_wg :: nat
  lf_close :: closing

definition life_start :: life where
  "life_start = \<lparr>lf_handlers = [], lf_slots = 0, lf_wg = 0, lf_close = Serving\<rparr>"

text \<open>\<open>s.ctx.Err() != nil\<close>\<close>
definition cancelled :: "life \<Rightarrow> bool" where
  "cancelled s \<longleftrightarrow> lf_close s \<noteq> Serving"

section \<open>Steps\<close>

text \<open>What the loop makes of a message: an error is written, the agent is called, or the last error is written.\<close>
datatype picked = Answered | Passed | Refused

datatype loop_act =
    Pinged
  | Picked picked
  | StartExpired
  | AgentSpoke bool
  | AgentEnded
  | Wrote bool
  | CallDone bool
  | CallCancelled
  | ContextDone
  | InputEnded

datatype reader_act =
    Received
  | ReadFrame
  | ReadFailed
  | ReadClosed
  | Offered
  | OfferDropped
  | SignalDone
  | CancelOwn

datatype life_act =
    Arrive
  | Check nat
  | TakeSlot nat
  | Upgrade nat bool
  | Register nat
  | Loop nat loop_act
  | Reader nat reader_act
  | Finish nat
  | Unregister nat
  | Release nat
  | Shutdown
  | Drained
  | Deadline

text \<open>
  The loop, with \<open>ctx\<close> for \<open>ctx.Err() != nil\<close>. Before the agent is opened the timer of the start runs and
  a message may be refused for good; after it the agent's events are heard, the last of which ends the
  session. A write succeeds only on an open connection. A call of the agent (\<open>Open\<close>, \<open>Send\<close>) ends on its own,
  or because its context is cancelled, which \<open>CallCancelled\<close> assumes of it.
\<close>
fun loop_step :: "bool \<Rightarrow> loop_act \<Rightarrow> handler \<Rightarrow> handler option" where
  "loop_step ctx Pinged h = (if hd_loop h = Selecting then Some (h\<lparr>hd_loop := Writing\<rparr>) else None)"
| "loop_step ctx (Picked p) h =
     (if hd_loop h = Selecting \<and> 0 < hd_in h \<and> (p = Refused \<longrightarrow> \<not> hd_agent h)
      then Some (h\<lparr>hd_in := hd_in h - 1, hd_loop := (case p of Answered \<Rightarrow> Writing | Passed \<Rightarrow> Calling | Refused \<Rightarrow> Parting)\<rparr>)
      else None)"
| "loop_step ctx StartExpired h = (if hd_loop h = Selecting \<and> \<not> hd_agent h then Some (h\<lparr>hd_loop := Parting\<rparr>) else None)"
| "loop_step ctx (AgentSpoke final) h =
     (if hd_loop h = Selecting \<and> hd_agent h then Some (h\<lparr>hd_loop := (if final then Parting else Writing)\<rparr>) else None)"
| "loop_step ctx AgentEnded h = (if hd_loop h = Selecting \<and> hd_agent h then Some (h\<lparr>hd_loop := Returning\<rparr>) else None)"
| "loop_step ctx (Wrote ok) h =
     (if ok \<and> \<not> hd_open h then None
      else (case hd_loop h of
          Writing \<Rightarrow> Some (h\<lparr>hd_loop := (if ok then Selecting else Returning)\<rparr>)
        | Parting \<Rightarrow> Some (h\<lparr>hd_loop := Returning\<rparr>)
        | _ \<Rightarrow> None))"
| "loop_step ctx (CallDone ok) h =
     (if hd_loop h \<noteq> Calling then None
      else if ok then Some (h\<lparr>hd_loop := Selecting, hd_agent := True\<rparr>) else Some (h\<lparr>hd_loop := Parting\<rparr>))"
| "loop_step ctx CallCancelled h = (if hd_loop h = Calling \<and> ctx then Some (h\<lparr>hd_loop := Parting\<rparr>) else None)"
| "loop_step ctx ContextDone h = (if hd_loop h = Selecting \<and> ctx then Some (h\<lparr>hd_loop := Returning\<rparr>) else None)"
| "loop_step ctx InputEnded h =
     (if hd_loop h = Selecting \<and> hd_in h = 0 \<and> hd_reader h \<in> {InputClosed, DoneClosed, ReaderGone}
      then Some (h\<lparr>hd_loop := Returning\<rparr>) else None)"

text \<open>
  The reader. A frame arrives while the connection is open, and may still be read after it was closed
  here. \<open>ReadFailed\<close> is a failure for any reason (the peer, the deadline, a frame that is not allowed),
  \<open>ReadClosed\<close> the one of a connection that is closed here.
\<close>
fun reader_step :: "bool \<Rightarrow> reader_act \<Rightarrow> handler \<Rightarrow> handler option" where
  "reader_step ctx Received h =
     (if hd_open h \<and> hd_stage h = Registered then Some (h\<lparr>hd_buffered := hd_buffered h + 1\<rparr>) else None)"
| "reader_step ctx ReadFrame h =
     (if hd_reader h = Reading \<and> 0 < hd_buffered h
      then Some (h\<lparr>hd_buffered := hd_buffered h - 1, hd_reader := Offering\<rparr>) else None)"
| "reader_step ctx ReadFailed h = (if hd_reader h = Reading then Some (h\<lparr>hd_reader := InputClosed\<rparr>) else None)"
| "reader_step ctx ReadClosed h =
     (if hd_reader h = Reading \<and> \<not> hd_open h then Some (h\<lparr>hd_reader := InputClosed\<rparr>) else None)"
| "reader_step ctx Offered h =
     (if hd_reader h = Offering \<and> hd_in h < 8 then Some (h\<lparr>hd_in := hd_in h + 1, hd_reader := Reading\<rparr>) else None)"
| "reader_step ctx OfferDropped h = (if hd_reader h = Offering \<and> ctx then Some (h\<lparr>hd_reader := InputClosed\<rparr>) else None)"
| "reader_step ctx SignalDone h = (if hd_reader h = InputClosed then Some (h\<lparr>hd_reader := DoneClosed\<rparr>) else None)"
| "reader_step ctx CancelOwn h =
     (if hd_reader h = DoneClosed then Some (h\<lparr>hd_reader := ReaderGone, hd_done := True\<rparr>) else None)"

definition stage_of :: "life \<Rightarrow> nat \<Rightarrow> handler_stage" where
  "stage_of s i = (if i < length (lf_handlers s) then hd_stage (lf_handlers s ! i) else Gone)"

abbreviation handler_at :: "life \<Rightarrow> nat \<Rightarrow> handler" where "handler_at s i \<equiv> lf_handlers s ! i"

text \<open>The handler's context, which is derived from the server's.\<close>
definition ctx_done :: "life \<Rightarrow> handler \<Rightarrow> bool" where
  "ctx_done s h \<longleftrightarrow> cancelled s \<or> hd_done h"

definition put_handler :: "nat \<Rightarrow> handler \<Rightarrow> life \<Rightarrow> life" where
  "put_handler i h s = s\<lparr>lf_handlers := (lf_handlers s)[i := h]\<rparr>"

definition is_registered :: "handler \<Rightarrow> bool" where
  "is_registered h \<longleftrightarrow> hd_stage h \<in> {Registered, Closing}"

text \<open>The section of \<open>Close\<close> under \<open>s.mu\<close>.\<close>
definition close_connections :: "life \<Rightarrow> life" where
  "close_connections s = s\<lparr>lf_close := Waiting,
     lf_handlers := map (\<lambda>h. if is_registered h then h\<lparr>hd_open := False\<rparr> else h) (lf_handlers s)\<rparr>"

definition put_option :: "nat \<Rightarrow> handler option \<Rightarrow> life \<Rightarrow> life option" where
  "put_option i r s = map_option (\<lambda>h. put_handler i h s) r"

text \<open>
  One step; \<open>None\<close> when it cannot happen. \<open>Check\<close> is the test of \<open>ServeHTTP\<close>, \<open>TakeSlot\<close> the \<open>select\<close> on
  \<open>s.slots\<close>, \<open>Upgrade\<close> succeeds or not, \<open>Register\<close> is the section under \<open>s.mu\<close> after it, with which the
  reader starts. \<open>Finish\<close>, \<open>Unregister\<close> and \<open>Release\<close> are the deferred calls of the handler in the order
  they run: \<open>Finish\<close> cancels its context and closes the agent's session and the connection, and the
  next waits for the reader's \<open>readDone\<close>. That the agent's \<open>Close\<close> returns is assumed. \<open>Shutdown\<close> is
  the section of \<open>Close\<close> under \<open>s.mu\<close>, and \<open>Drained\<close> and \<open>Deadline\<close> are the cases of its \<open>select\<close>.
\<close>
fun life_step :: "nat \<Rightarrow> life_act \<Rightarrow> life \<Rightarrow> life option" where
  "life_step limit Arrive s = Some (s\<lparr>lf_handlers := lf_handlers s @ [new_handler]\<rparr>)"
| "life_step limit (Check i) s =
     (if stage_of s i \<noteq> Arrived then None
      else Some (put_handler i ((handler_at s i)\<lparr>hd_stage := (if cancelled s then Gone else Admitted)\<rparr>) s))"
| "life_step limit (TakeSlot i) s =
     (if stage_of s i \<noteq> Admitted then None
      else if lf_slots s < limit
      then Some (put_handler i ((handler_at s i)\<lparr>hd_stage := Holding\<rparr>) (s\<lparr>lf_slots := lf_slots s + 1\<rparr>))
      else Some (put_handler i ((handler_at s i)\<lparr>hd_stage := Gone\<rparr>) s))"
| "life_step limit (Upgrade i ok) s =
     (if stage_of s i \<noteq> Holding then None
      else Some (put_handler i ((handler_at s i)\<lparr>hd_stage := (if ok then Upgraded else Leaving), hd_open := ok\<rparr>) s))"
| "life_step limit (Register i) s =
     (if stage_of s i \<noteq> Upgraded then None
      else if cancelled s then Some (put_handler i ((handler_at s i)\<lparr>hd_stage := Leaving, hd_open := False\<rparr>) s)
      else Some (put_handler i ((handler_at s i)\<lparr>hd_stage := Registered, hd_reader := Reading\<rparr>) (s\<lparr>lf_wg := lf_wg s + 1\<rparr>)))"
| "life_step limit (Loop i a) s =
     (if stage_of s i \<noteq> Registered then None
      else put_option i (loop_step (ctx_done s (handler_at s i)) a (handler_at s i)) s)"
| "life_step limit (Reader i a) s =
     (if length (lf_handlers s) \<le> i then None
      else put_option i (reader_step (ctx_done s (handler_at s i)) a (handler_at s i)) s)"
| "life_step limit (Finish i) s =
     (if stage_of s i \<noteq> Registered \<or> hd_loop (handler_at s i) \<noteq> Returning then None
      else Some (put_handler i ((handler_at s i)\<lparr>hd_stage := Closing, hd_open := False, hd_done := True\<rparr>) s))"
| "life_step limit (Unregister i) s =
     (if stage_of s i \<noteq> Closing \<or> hd_reader (handler_at s i) \<notin> {DoneClosed, ReaderGone} then None
      else Some (put_handler i ((handler_at s i)\<lparr>hd_stage := Leaving\<rparr>) (s\<lparr>lf_wg := lf_wg s - 1\<rparr>)))"
| "life_step limit (Release i) s =
     (if stage_of s i \<noteq> Leaving then None
      else Some (put_handler i ((handler_at s i)\<lparr>hd_stage := Gone\<rparr>) (s\<lparr>lf_slots := lf_slots s - 1\<rparr>)))"
| "life_step limit Shutdown s =
     (if lf_close s \<noteq> Serving then None else Some (close_connections s))"
| "life_step limit Drained s = (if lf_close s = Waiting \<and> lf_wg s = 0 then Some (s\<lparr>lf_close := Stopped\<rparr>) else None)"
| "life_step limit Deadline s = (if lf_close s = Waiting then Some (s\<lparr>lf_close := TimedOut\<rparr>) else None)"

text \<open>The states the gateway can reach.\<close>
inductive reaches :: "nat \<Rightarrow> life \<Rightarrow> bool" for limit where
  start: "reaches limit life_start"
| step: "reaches limit s \<Longrightarrow> life_step limit a s = Some s' \<Longrightarrow> reaches limit s'"

section \<open>The end of the command\<close>

text \<open>What \<open>main\<close> waits for, and the errors of \<open>Close\<close> and of the HTTP server's \<open>Shutdown\<close>.\<close>
datatype gateway_event =
    ListenEnded bool
  | Interrupted bool bool

text \<open>What it logs, the exit status, and whether the HTTP server is closed by force.\<close>
fun gateway_exit :: "gateway_event \<Rightarrow> string list \<times> int \<times> bool" where
  "gateway_exit (ListenEnded server_closed) = (if server_closed then ([], 0, False) else ([''gateway failed''], 1, False))"
| "gateway_exit (Interrupted close_failed shutdown_failed) =
     ((if close_failed then [''voice shutdown timed out''] else [])
        @ (if shutdown_failed then [''http shutdown timed out''] else []), 0, shutdown_failed)"

section \<open>The invariant\<close>

definition holds_slot :: "handler \<Rightarrow> bool" where
  "holds_slot h \<longleftrightarrow> hd_stage h \<in> {Holding, Upgraded, Registered, Closing, Leaving}"

text \<open>A handler's reader runs from its registration, and \<open>in\<close> has room for eight messages.\<close>
definition handler_ok :: "handler \<Rightarrow> bool" where
  "handler_ok h \<longleftrightarrow> hd_in h \<le> 8 \<and> (hd_reader h = NoReader \<longrightarrow> hd_in h = 0 \<and> hd_buffered h = 0)
     \<and> (hd_stage h \<in> {Arrived, Admitted, Holding, Upgraded} \<longrightarrow> hd_reader h = NoReader)
     \<and> (hd_stage h \<in> {Registered, Closing} \<longrightarrow> hd_reader h \<noteq> NoReader) \<and> (hd_stage h = Closing \<longrightarrow> hd_done h)"

text \<open>
  Slots and the wait group count what they stand for; a connection is open only between its upgrade
  and its end; once the server is closed, no registered connection is open.
\<close>
definition life_ok :: "nat \<Rightarrow> life \<Rightarrow> bool" where
  "life_ok limit s \<longleftrightarrow>
     lf_slots s = length (filter holds_slot (lf_handlers s)) \<and> lf_slots s \<le> limit
     \<and> lf_wg s = length (filter is_registered (lf_handlers s))
     \<and> list_all (\<lambda>h. hd_open h \<longrightarrow> hd_stage h = Upgraded \<or> hd_stage h = Registered \<and> \<not> cancelled s) (lf_handlers s)
     \<and> list_all handler_ok (lf_handlers s)
     \<and> (lf_close s = Stopped \<longrightarrow> lf_wg s = 0)"

lemma count_update:
  "i < length xs \<Longrightarrow>
     length (filter P (xs[i := x])) + (if P (xs ! i) then 1 else 0) = length (filter P xs) + (if P x then 1 else (0 :: nat))"
proof (induction xs arbitrary: i)
  case (Cons y ys)
  then show ?case by (cases i) auto
qed simp

lemma stage_of_SomeD: "stage_of s i \<noteq> Gone \<Longrightarrow> i < length (lf_handlers s) \<and> hd_stage (lf_handlers s ! i) = stage_of s i"
  by (simp add: stage_of_def split: if_splits)

text \<open>A handler moves: the two counts follow.\<close>
lemma put_handler_counts:
  assumes "stage_of s i = st" "st \<noteq> Gone"
  shows "length (filter holds_slot (lf_handlers (put_handler i h s))) + (if st \<in> {Holding, Upgraded, Registered, Closing, Leaving} then 1 else 0)
      = length (filter holds_slot (lf_handlers s)) + (if holds_slot h then 1 else 0)"
    "length (filter is_registered (lf_handlers (put_handler i h s))) + (if st \<in> {Registered, Closing} then 1 else 0)
      = length (filter is_registered (lf_handlers s)) + (if is_registered h then 1 else 0)"
  using stage_of_SomeD [of s i] assms count_update [of i "lf_handlers s" holds_slot h] count_update [of i "lf_handlers s" is_registered h]
  by (simp_all add: put_handler_def holds_slot_def is_registered_def)

lemma put_handler_open:
  "list_all P (lf_handlers s) \<Longrightarrow> P h \<Longrightarrow> list_all P (lf_handlers (put_handler i h s))"
  by (auto simp: put_handler_def list_all_iff dest: set_update_subset_insert [THEN subsetD])

lemma put_handler_frame [simp]:
  "lf_slots (put_handler i h s) = lf_slots s" "lf_wg (put_handler i h s) = lf_wg s" "lf_close (put_handler i h s) = lf_close s"
  "cancelled (put_handler i h s) = cancelled s"
  "lf_handlers (put_handler i h (s\<lparr>lf_slots := n\<rparr>)) = lf_handlers (put_handler i h s)"
  "lf_handlers (put_handler i h (s\<lparr>lf_wg := n\<rparr>)) = lf_handlers (put_handler i h s)"
  "cancelled (s\<lparr>lf_slots := n\<rparr>) = cancelled s" "cancelled (s\<lparr>lf_wg := n\<rparr>) = cancelled s"
  "stage_of (s\<lparr>lf_slots := n\<rparr>) = stage_of s" "stage_of (s\<lparr>lf_wg := n\<rparr>) = stage_of s"
  by (simp_all add: put_handler_def cancelled_def stage_of_def fun_eq_iff)

text \<open>The loop and the reader do not open, close or end a connection.\<close>
lemma handler_ok_loop [simp]:
  "handler_ok (h\<lparr>hd_loop := l\<rparr>) = handler_ok h" "handler_ok (h\<lparr>hd_agent := b\<rparr>) = handler_ok h"
  "handler_ok (h\<lparr>hd_open := b\<rparr>) = handler_ok h"
  "handler_ok h \<Longrightarrow> handler_ok (h\<lparr>hd_in := hd_in h - Suc 0\<rparr>)"
  by (auto simp: handler_ok_def)

lemma handler_ok_stage:
  "handler_ok h \<Longrightarrow> st = Gone \<or> st = Leaving \<Longrightarrow> handler_ok (h\<lparr>hd_stage := st\<rparr>)"
  "handler_ok h \<Longrightarrow> hd_stage h \<in> {Arrived, Admitted, Holding} \<Longrightarrow> st \<in> {Admitted, Holding, Upgraded} \<Longrightarrow> handler_ok (h\<lparr>hd_stage := st\<rparr>)"
  "handler_ok h \<Longrightarrow> hd_stage h = Upgraded \<Longrightarrow> handler_ok (h\<lparr>hd_stage := Registered, hd_reader := Reading\<rparr>)"
  "handler_ok h \<Longrightarrow> hd_stage h = Registered \<Longrightarrow> handler_ok (h\<lparr>hd_stage := Closing, hd_open := False, hd_done := True\<rparr>)"
  by (auto simp: handler_ok_def)

lemma loop_step_same:
  assumes "loop_step ctx a h = Some h'"
  shows "hd_stage h' = hd_stage h \<and> hd_open h' = hd_open h \<and> (handler_ok h \<longrightarrow> handler_ok h')"
proof (cases a)
  case (Wrote ok)
  then show ?thesis using assms by (cases "hd_loop h") (auto split: if_splits)
qed (use assms in \<open>auto split: if_splits\<close>)

lemma reader_step_same:
  "reader_step ctx a h = Some h' \<Longrightarrow> hd_stage h' = hd_stage h \<and> hd_open h' = hd_open h \<and> (handler_ok h \<longrightarrow> handler_ok h')"
  by (cases a) (auto simp: handler_ok_def split: if_splits)

lemma life_ok_same:
  assumes "life_ok limit s" "i < length (lf_handlers s)" "hd_stage h = hd_stage (handler_at s i)" "hd_open h = hd_open (handler_at s i)"
    and "handler_ok (handler_at s i) \<longrightarrow> handler_ok h"
  shows "life_ok limit (put_handler i h s)"
proof -
  have "length (filter holds_slot (lf_handlers (put_handler i h s))) = length (filter holds_slot (lf_handlers s))"
    "length (filter is_registered (lf_handlers (put_handler i h s))) = length (filter is_registered (lf_handlers s))"
    using count_update [OF assms(2), of holds_slot h] count_update [OF assms(2), of is_registered h] assms(3)
    by (simp_all add: put_handler_def holds_slot_def is_registered_def)
  moreover have "list_all P (lf_handlers (put_handler i h s))" if "list_all P (lf_handlers s)" "P (handler_at s i) \<Longrightarrow> P h" for P
    using that assms(2) by (intro put_handler_open) (simp_all add: list_all_length)
  ultimately show ?thesis using assms by (auto simp: life_ok_def)
qed

lemma life_step_ok:
  assumes "life_ok limit s" "life_step limit a s = Some s'"
  shows "life_ok limit s'"
proof -
  have keep: "life_ok limit (put_handler i h t)"
    if "stage_of s i = st" "st \<noteq> Gone" "lf_handlers t = lf_handlers s" "lf_close t = lf_close s"
      "lf_slots t + (if st \<in> {Holding, Upgraded, Registered, Closing, Leaving} then 1 else 0) = lf_slots s + (if holds_slot h then 1 else 0)"
      "lf_wg t + (if st \<in> {Registered, Closing} then 1 else 0) = lf_wg s + (if is_registered h then 1 else 0)"
      "lf_slots t \<le> limit" "hd_open h \<longrightarrow> hd_stage h = Upgraded \<or> hd_stage h = Registered \<and> \<not> cancelled s"
      "lf_close s = Stopped \<longrightarrow> lf_wg t = 0" "handler_ok h"
    for i h t st
  proof -
    have t: "lf_handlers (put_handler i h t) = lf_handlers (put_handler i h s)" "cancelled t = cancelled s"
      using that by (simp_all add: put_handler_def cancelled_def)
    show ?thesis
      using put_handler_counts [OF that(1,2), of h] that assms(1) put_handler_open [of _ s h i]
      by (auto simp: life_ok_def t)
  qed
  have pos: "0 < length (filter P (lf_handlers s))" if "stage_of s i = st" "st \<noteq> Gone" "\<And>h. hd_stage h = st \<Longrightarrow> P h" for P i st
    using stage_of_SomeD [of s i] that by (auto simp: filter_empty_conv intro!: nth_mem)
  have slots: "lf_slots s \<le> limit" "lf_slots s = length (filter holds_slot (lf_handlers s))"
    "lf_wg s = length (filter is_registered (lf_handlers s))" "lf_close s = Stopped \<longrightarrow> lf_wg s = 0"
    using assms(1) by (auto simp: life_ok_def)
  have at: "handler_ok (handler_at s i)" "hd_stage (handler_at s i) = stage_of s i"
      "stage_of s i \<notin> {Upgraded, Registered} \<Longrightarrow> \<not> hd_open (handler_at s i)" if "stage_of s i \<noteq> Gone" for i
    using stage_of_SomeD [OF that] assms(1) by (auto simp: life_ok_def list_all_length)
  show ?thesis
  proof (cases a)
    case Arrive
    then show ?thesis using assms
      by (auto simp: life_ok_def holds_slot_def is_registered_def cancelled_def new_handler_def handler_ok_def)
  next
    case (Check i)
    then show ?thesis using assms(2) slots at [of i]
      by (auto simp: holds_slot_def is_registered_def handler_ok_stage split: if_splits intro!: keep [of i Arrived s])
  next
    case (TakeSlot i)
    then have st: "stage_of s i = Admitted" using assms(2) by (auto split: if_splits)
    show ?thesis
    proof (cases "lf_slots s < limit")
      case True
      then show ?thesis using TakeSlot st assms(2) slots at [of i]
        by (auto simp: holds_slot_def is_registered_def handler_ok_stage intro!: keep [of i Admitted])
    next
      case False
      then have "s' = put_handler i ((handler_at s i)\<lparr>hd_stage := Gone\<rparr>) s" using TakeSlot st assms(2) by simp
      then show ?thesis using st slots at [of i]
        by (simp only:) (rule keep [of i Admitted s], simp_all add: holds_slot_def is_registered_def handler_ok_stage)
    qed
  next
    case (Upgrade i ok)
    then show ?thesis using assms(2) slots at [of i]
      by (auto simp: holds_slot_def is_registered_def handler_ok_stage split: if_splits intro!: keep [of i Holding])
  next
    case (Register i)
    then show ?thesis using assms(2) slots at [of i]
      by (auto simp: holds_slot_def is_registered_def handler_ok_stage cancelled_def split: if_splits intro!: keep [of i Upgraded])
  next
    case (Loop i b)
    then obtain h where "i < length (lf_handlers s)" "loop_step (ctx_done s (handler_at s i)) b (handler_at s i) = Some h"
        "s' = put_handler i h s"
      using assms(2) stage_of_SomeD [of s i] by (auto simp: put_option_def split: if_splits)
    then show ?thesis using life_ok_same [OF assms(1)] loop_step_same by metis
  next
    case (Reader i b)
    then obtain h where "i < length (lf_handlers s)" "reader_step (ctx_done s (handler_at s i)) b (handler_at s i) = Some h"
        "s' = put_handler i h s"
      using assms(2) by (auto simp: put_option_def split: if_splits)
    then show ?thesis using life_ok_same [OF assms(1)] reader_step_same by metis
  next
    case (Finish i)
    then show ?thesis using assms(2) slots at [of i]
      by (auto simp: holds_slot_def is_registered_def handler_ok_stage split: if_splits intro!: keep [of i Registered])
  next
    case (Unregister i)
    then have "stage_of s i = Closing" using assms(2) by (auto split: if_splits)
    moreover from this have "0 < lf_wg s" using pos [of i Closing is_registered] slots by (simp add: is_registered_def)
    ultimately show ?thesis using Unregister assms(2) slots at [of i]
      by (auto simp: holds_slot_def is_registered_def handler_ok_stage split: if_splits intro!: keep [of i Closing])
  next
    case (Release i)
    then have "stage_of s i = Leaving" using assms(2) by (auto split: if_splits)
    moreover from this have "0 < lf_slots s" using pos [of i Leaving holds_slot] slots by (simp add: holds_slot_def)
    ultimately show ?thesis using Release assms(2) slots at [of i]
      by (auto simp: holds_slot_def is_registered_def handler_ok_stage intro!: keep [of i Leaving])
  next
    case Shutdown
    have "filter P (map (\<lambda>h. if is_registered h then h\<lparr>hd_open := False\<rparr> else h) hs)
        = map (\<lambda>h. if is_registered h then h\<lparr>hd_open := False\<rparr> else h) (filter P hs)"
      if "\<And>h. P (h\<lparr>hd_open := False\<rparr>) = P h" for P hs
      using that by (induction hs) auto
    then show ?thesis using Shutdown assms
      by (auto simp: life_ok_def close_connections_def holds_slot_def is_registered_def cancelled_def list_all_iff split: if_splits)
  next
    case Drained
    then show ?thesis using assms by (auto simp: life_ok_def cancelled_def split: if_splits)
  next
    case Deadline
    then show ?thesis using assms by (auto simp: life_ok_def cancelled_def split: if_splits)
  qed
qed

lemma reaches_ok: "reaches limit s \<Longrightarrow> life_ok limit s"
proof (induction rule: reaches.induct)
  case start
  show ?case by (simp add: life_ok_def life_start_def)
qed (rule life_step_ok)

section \<open>The end of every handler\<close>

text \<open>
  The work a handler has left once the server is closed. A message in \<open>in\<close> may still be answered or
  passed to the agent, and a frame that has arrived may still be read; on a connection that is open
  there is no such bound, for more arrives and the agent may speak for ever.
\<close>
definition loop_work :: "loop_stage \<Rightarrow> nat" where
  "loop_work l = (case l of Selecting \<Rightarrow> 2 | Writing \<Rightarrow> 1 | Calling \<Rightarrow> 3 | Parting \<Rightarrow> 1 | Returning \<Rightarrow> 0)"

definition reader_work :: "reader_stage \<Rightarrow> nat" where
  "reader_work r = (case r of NoReader \<Rightarrow> 0 | Reading \<Rightarrow> 3 | Offering \<Rightarrow> 6 | InputClosed \<Rightarrow> 2 | DoneClosed \<Rightarrow> 1 | ReaderGone \<Rightarrow> 0)"

definition stage_work :: "handler \<Rightarrow> nat" where
  "stage_work h = (case hd_stage h of Arrived \<Rightarrow> 5 | Admitted \<Rightarrow> 4 | Holding \<Rightarrow> 3 | Upgraded \<Rightarrow> 2
     | Registered \<Rightarrow> 3 + loop_work (hd_loop h) | Closing \<Rightarrow> 2 | Leaving \<Rightarrow> 1 | Gone \<Rightarrow> 0)"

definition handler_work :: "handler \<Rightarrow> nat" where
  "handler_work h = stage_work h + 2 * hd_in h + reader_work (hd_reader h) + 4 * hd_buffered h"

lemma stage_work_frame [simp]:
  "stage_work (h\<lparr>hd_in := n\<rparr>) = stage_work h" "stage_work (h\<lparr>hd_reader := r\<rparr>) = stage_work h"
  "stage_work (h\<lparr>hd_buffered := n\<rparr>) = stage_work h" "stage_work (h\<lparr>hd_done := b\<rparr>) = stage_work h"
  by (cases "hd_stage h"; simp add: stage_work_def)+

text \<open>The work of the handler \<open>i\<close>, which may not have arrived.\<close>
definition work_at :: "life \<Rightarrow> nat \<Rightarrow> nat" where
  "work_at s i = (if i < length (lf_handlers s) then handler_work (handler_at s i) else 5)"

text \<open>The handler whose goroutines take a step, if any do.\<close>
fun actor :: "life_act \<Rightarrow> nat option" where
  "actor (Check i) = Some i"
| "actor (TakeSlot i) = Some i"
| "actor (Upgrade i ok) = Some i"
| "actor (Register i) = Some i"
| "actor (Loop i a) = Some i"
| "actor (Reader i a) = (if a = Received then None else Some i)"
| "actor (Finish i) = Some i"
| "actor (Unregister i) = Some i"
| "actor (Release i) = Some i"
| "actor _ = None"

definition steps_of :: "nat \<Rightarrow> life_act list \<Rightarrow> nat" where
  "steps_of i as = length (filter (\<lambda>a. actor a = Some i) as)"

fun life_run :: "nat \<Rightarrow> life_act list \<Rightarrow> life \<Rightarrow> life option" where
  "life_run limit [] s = Some s"
| "life_run limit (a # as) s = (case life_step limit a s of None \<Rightarrow> None | Some s' \<Rightarrow> life_run limit as s')"

lemmas work_defs = handler_work_def stage_work_def loop_work_def reader_work_def

lemma loop_step_work:
  "loop_step ctx a h = Some h' \<Longrightarrow> hd_stage h = Registered \<Longrightarrow> \<not> hd_open h \<Longrightarrow> handler_work h' < handler_work h"
  by (cases a) (auto simp: work_defs split: if_splits loop_stage.splits picked.splits)

lemma reader_step_work:
  "reader_step ctx a h = Some h' \<Longrightarrow> \<not> (hd_open h \<and> hd_stage h = Registered) \<Longrightarrow> a \<noteq> Received \<and> handler_work h' < handler_work h"
  by (cases a) (auto simp: handler_work_def reader_work_def split: if_splits)

lemma work_at_put:
  "lf_handlers t = lf_handlers s \<Longrightarrow> i < length (lf_handlers s) \<Longrightarrow>
     work_at (put_handler i h t) j = (if j = i then handler_work h else work_at s j)"
  by (simp add: work_at_def put_handler_def)

lemma put_work:
  assumes "cancelled s" "lf_handlers t = lf_handlers s" "lf_close t = lf_close s" "i < length (lf_handlers s)"
    and "handler_work h < handler_work (handler_at s i)"
  shows "work_at (put_handler i h t) j + (if i = j then 1 else 0) \<le> work_at s j \<and> cancelled (put_handler i h t)"
  using assms work_at_put [OF assms(2,4), of h j] by (auto simp: cancelled_def work_at_def [of s])

text \<open>Once the server is closed, a step of a handler costs it work, and no other step gives it any.\<close>
lemma deferred_work:
  assumes "cancelled s" "life_step limit a s = Some s'"
    and "a \<in> {Check i, TakeSlot i, Upgrade i ok, Register i, Finish i, Unregister i, Release i}"
  shows "work_at s' j + (if i = j then 1 else 0) \<le> work_at s j \<and> cancelled s'"
proof -
  have moved: "work_at s' j + (if i = j then 1 else 0) \<le> work_at s j \<and> cancelled s'"
    if "stage_of s i = st" "s' = put_handler i h t" "st \<noteq> Gone" "lf_handlers t = lf_handlers s" "lf_close t = lf_close s"
      "hd_in h = hd_in (handler_at s i)" "hd_reader h = hd_reader (handler_at s i)" "hd_buffered h = hd_buffered (handler_at s i)"
      "\<And>h'. hd_stage h' = st \<Longrightarrow> stage_work h < stage_work h'" for st h t
    using put_work [OF assms(1) that(4,5), of i h j] stage_of_SomeD [of s i] that by (simp add: handler_work_def)
  note step = assms(1,2) and work = stage_work_def loop_work_def
  from assms(3) consider "a = Check i" | "a = TakeSlot i" "lf_slots s < limit" | "a = TakeSlot i" "\<not> lf_slots s < limit"
    | "a = Upgrade i ok" | "a = Register i" | "a = Finish i" | "a = Unregister i" | "a = Release i" by auto
  then show ?thesis
  proof cases
    case 1
    show ?thesis by (rule moved [of Arrived "(handler_at s i)\<lparr>hd_stage := Gone\<rparr>" s])
        (use 1 step in \<open>auto simp: work split: if_splits\<close>)
  next
    case 2
    show ?thesis by (rule moved [of Admitted "(handler_at s i)\<lparr>hd_stage := Holding\<rparr>" "s\<lparr>lf_slots := lf_slots s + 1\<rparr>"])
        (use 2 step in \<open>auto simp: work split: if_splits\<close>)
  next
    case 3
    show ?thesis by (rule moved [of Admitted "(handler_at s i)\<lparr>hd_stage := Gone\<rparr>" s])
        (use 3 step in \<open>auto simp: work split: if_splits\<close>)
  next
    case 4
    show ?thesis
      by (rule moved [of Holding "(handler_at s i)\<lparr>hd_stage := (if ok then Upgraded else Leaving), hd_open := ok\<rparr>" s])
        (use 4 step in \<open>auto simp: work split: if_splits\<close>)
  next
    case 5
    show ?thesis by (rule moved [of Upgraded "(handler_at s i)\<lparr>hd_stage := Leaving, hd_open := False\<rparr>" s])
        (use 5 step in \<open>auto simp: work split: if_splits\<close>)
  next
    case 6
    show ?thesis by (rule moved [of Registered "(handler_at s i)\<lparr>hd_stage := Closing, hd_open := False, hd_done := True\<rparr>" s])
        (use 6 step in \<open>auto simp: work split: if_splits\<close>)
  next
    case 7
    show ?thesis by (rule moved [of Closing "(handler_at s i)\<lparr>hd_stage := Leaving\<rparr>" "s\<lparr>lf_wg := lf_wg s - 1\<rparr>"])
        (use 7 step in \<open>auto simp: work split: if_splits\<close>)
  next
    case 8
    show ?thesis by (rule moved [of Leaving "(handler_at s i)\<lparr>hd_stage := Gone\<rparr>" "s\<lparr>lf_slots := lf_slots s - 1\<rparr>"])
        (use 8 step in \<open>auto simp: work split: if_splits\<close>)
  qed
qed

lemma step_work:
  assumes "life_ok limit s" "cancelled s" "life_step limit a s = Some s'"
  shows "work_at s' j + (if actor a = Some j then 1 else 0) \<le> work_at s j \<and> cancelled s'"
proof -
  have shut: "\<not> (hd_open (handler_at s i) \<and> hd_stage (handler_at s i) = Registered)" if "i < length (lf_handlers s)" for i
    using assms(1,2) that by (auto simp: life_ok_def list_all_length)
  show ?thesis
  proof (cases a)
    case (Loop i b)
    then obtain h where h: "stage_of s i = Registered" "loop_step (ctx_done s (handler_at s i)) b (handler_at s i) = Some h"
        "s' = put_handler i h s"
      using assms(3) by (auto simp: put_option_def split: if_splits)
    then have i: "i < length (lf_handlers s)" "hd_stage (handler_at s i) = Registered" using stage_of_SomeD [of s i] by auto
    have "handler_work h < handler_work (handler_at s i)" using loop_step_work [OF h(2)] shut [OF i(1)] i(2) by simp
    then show ?thesis using put_work [OF assms(2) _ _ i(1), of s h j] Loop unfolding h(3) by simp
  next
    case (Reader i b)
    then obtain h where h: "i < length (lf_handlers s)" "reader_step (ctx_done s (handler_at s i)) b (handler_at s i) = Some h"
        "s' = put_handler i h s"
      using assms(3) by (auto simp: put_option_def split: if_splits)
    then show ?thesis
      using put_work [OF assms(2) _ _ h(1), of s h j] reader_step_work [OF h(2) shut [OF h(1)]] Reader unfolding h(3) by simp
  next
    case Arrive
    have "handler_work new_handler = 5" by (simp add: work_defs new_handler_def)
    then have "work_at s' j = work_at s j" using Arrive assms(3) by (auto simp: work_at_def nth_append)
    then show ?thesis using Arrive assms(2,3) by (auto simp: cancelled_def)
  next
    case Shutdown
    then show ?thesis using assms(2,3) by (simp add: cancelled_def)
  qed (use assms(2,3) deferred_work [OF assms(2,3)] in \<open>auto simp: work_at_def cancelled_def split: if_splits\<close>)
qed

lemma run_work:
  "life_ok limit s \<Longrightarrow> cancelled s \<Longrightarrow> life_run limit as s = Some s' \<Longrightarrow>
     steps_of i as + work_at s' i \<le> work_at s i \<and> life_ok limit s' \<and> cancelled s'"
proof (induction as arbitrary: s)
  case (Cons a as)
  then obtain s1 where s1: "life_step limit a s = Some s1" "life_run limit as s1 = Some s'" by (auto split: option.splits)
  have "steps_of i as + work_at s' i \<le> work_at s1 i \<and> life_ok limit s' \<and> cancelled s'"
    using Cons.IH [of s1] s1 life_step_ok [OF Cons.prems(1) s1(1)] step_work [OF Cons.prems(1,2) s1(1)] by blast
  then show ?case using step_work [OF Cons.prems(1,2) s1(1), of i] by (auto simp: steps_of_def)
qed (simp add: steps_of_def)

lemma work_bound: "handler_ok h \<Longrightarrow> handler_work h \<le> 28 + 4 * hd_buffered h"
  by (auto simp: handler_ok_def work_defs split: handler_stage.split loop_stage.split reader_stage.split)

text \<open>
  The steps of the goroutines of one handler that do not wait for anyone else: not those that need a
  frame, a message, an event of the agent, an answer of its calls or a timer.
\<close>
definition acts_of :: "nat \<Rightarrow> life_act list" where
  "acts_of i = [Check i, TakeSlot i, Upgrade i True, Upgrade i False, Register i, Finish i, Unregister i, Release i]
     @ map (Loop i) [Wrote True, Wrote False, CallCancelled, ContextDone, InputEnded]
     @ map (Reader i) [ReadClosed, Offered, OfferDropped, SignalDone, CancelOwn]"

definition handlers_stuck :: "nat \<Rightarrow> life \<Rightarrow> bool" where
  "handlers_stuck limit s \<longleftrightarrow>
     list_all (\<lambda>i. list_all (\<lambda>a. life_step limit a s = None) (acts_of i)) [0..<length (lf_handlers s)]"

lemma handler_can_step:
  assumes "life_ok limit s" "cancelled s" "stage_of s i \<noteq> Gone"
  shows "\<exists>a \<in> set (acts_of i). life_step limit a s \<noteq> None"
proof -
  let ?h = "handler_at s i"
  have h: "i < length (lf_handlers s)" "hd_stage ?h = stage_of s i" using stage_of_SomeD [OF assms(3)] by auto
  have ok: "handler_ok ?h" "hd_open ?h \<longrightarrow> hd_stage ?h = Upgraded" using assms(1,2) h(1) by (auto simp: life_ok_def list_all_length)
  have ctx: "ctx_done s ?h" using assms(2) by (simp add: ctx_done_def)
  show ?thesis
  proof (cases "stage_of s i")
    case Registered
    then show ?thesis using ctx by (cases "hd_loop ?h") (simp_all add: acts_of_def put_option_def)
  next
    case Closing
    then show ?thesis using ok h ctx by (cases "hd_reader ?h") (auto simp: acts_of_def put_option_def handler_ok_def)
  qed (use assms(3) in \<open>auto simp: acts_of_def\<close>)
qed

lemma stuck_done:
  assumes "handlers_stuck limit s" "life_ok limit s" "cancelled s"
  shows "lf_slots s = 0 \<and> lf_wg s = 0"
proof -
  have "stage_of s i = Gone" if "i < length (lf_handlers s)" for i
    using assms that handler_can_step [of limit s i] by (fastforce simp: handlers_stuck_def list_all_iff)
  then have "hd_stage h = Gone" if "h \<in> set (lf_handlers s)" for h
    using that by (auto simp: in_set_conv_nth stage_of_def)
  then have "filter holds_slot (lf_handlers s) = []" "filter is_registered (lf_handlers s) = []"
    by (auto simp: filter_empty_conv holds_slot_def is_registered_def)
  then show ?thesis using assms(2) by (simp add: life_ok_def)
qed

lemma run_reaches: "reaches limit s \<Longrightarrow> life_run limit as s = Some s' \<Longrightarrow> reaches limit s'"
  by (induction as arbitrary: s) (auto split: option.splits intro: reaches.step)

text \<open>
  C14. Whatever the schedule, the gateway never holds more sessions than its limit, counts exactly the
  handlers that hold one, and a connection is open only from its upgrade to the end of its handler.
  Once the server was closed no registered connection is open and none is registered any more, and
  when \<open>Close\<close> has returned without an error none is left.
\<close>
theorem connections_closed:
  assumes "reaches limit s"
  shows "lf_slots s = length (filter holds_slot (lf_handlers s)) \<and> lf_slots s \<le> limit
    \<and> list_all (\<lambda>h. if hd_open h then hd_stage h = Upgraded \<or> hd_stage h = Registered \<and> \<not> cancelled s else True) (lf_handlers s)
    \<and> (if cancelled s then (case life_step limit (Register i) s of None \<Rightarrow> True | Some s' \<Rightarrow> lf_wg s' = lf_wg s) else True)
    \<and> (if lf_close s = Stopped then filter is_registered (lf_handlers s) = [] else True)"
  using reaches_ok [OF assms] by (auto simp: life_ok_def list_all_iff)

text \<open>What the handler \<open>i\<close> has to read when the server is closed.\<close>
definition frames_left :: "life \<Rightarrow> nat \<Rightarrow> nat" where
  "frames_left s i = (if i < length (lf_handlers s) then hd_buffered (handler_at s i) else 0)"

text \<open>
  C15. A shutdown ends. After \<open>Close\<close> cancelled the context and closed the connections, in any run
  whatever, with requests that still arrive, agents that go on speaking and any order of the
  goroutines, the goroutines of one handler take at most 28 steps, and four more for each frame that had
  arrived and not been read. When all of them wait for someone else, every session is free, the wait
  group is at zero, and \<open>Close\<close>, if its deadline has not passed, returns without an error.
\<close>
theorem shutdown_drains:
  assumes "reaches limit s" "lf_close s = Waiting" "life_run limit as s = Some s'"
  shows "steps_of i as \<le> 28 + 4 * frames_left s i
    \<and> (if handlers_stuck limit s' then lf_slots s' = 0 \<and> lf_wg s' = 0
         \<and> (if lf_close s' = Waiting then life_step limit Drained s' = Some (s'\<lparr>lf_close := Stopped\<rparr>) else True)
       else True)"
proof -
  have ok: "life_ok limit s" "cancelled s" using reaches_ok [OF assms(1)] assms(2) by (simp_all add: cancelled_def)
  note run = run_work [OF ok assms(3)]
  have "work_at s i \<le> 28 + 4 * frames_left s i"
    using ok(1) work_bound by (auto simp: work_at_def frames_left_def life_ok_def list_all_length)
  then show ?thesis using run [of i] stuck_done [of limit s'] by auto
qed

text \<open>One session that is open when the gateway is closed.\<close>
definition open_session :: "life_act list" where
  "open_session = [Arrive, Check 0, TakeSlot 0, Upgrade 0 True, Register 0, Reader 0 Received, Shutdown]"

definition closed_session :: life where
  "closed_session = \<lparr>lf_handlers = [new_handler\<lparr>hd_stage := Registered, hd_reader := Reading, hd_buffered := 1\<rparr>],
     lf_slots = 1, lf_wg = 1, lf_close = Waiting\<rparr>"

lemma open_session_reaches: "reaches 1 closed_session"
proof -
  have "life_run 1 open_session life_start = Some closed_session" by code_simp
  then show ?thesis using run_reaches [OF reaches.start] by blast
qed

theorem connections_closed_witness:
  "cancelled closed_session \<and> list_all (\<lambda>h. \<not> hd_open h) (lf_handlers closed_session) \<and> lf_slots closed_session \<le> 1"
proof -
  have "cancelled closed_session" by code_simp
  moreover have "lf_slots closed_session \<le> 1" using connections_closed [OF open_session_reaches, of 0] by blast
  moreover have "list_all (\<lambda>h. \<not> hd_open h) (lf_handlers closed_session)" by code_simp
  ultimately show ?thesis by blast
qed

text \<open>The last frame is still read and answered, in vain; then the reader and the handler end.\<close>
definition last_steps :: "life_act list" where
  "last_steps = [Reader 0 ReadFrame, Reader 0 Offered, Loop 0 (Picked Answered), Loop 0 (Wrote False), Reader 0 ReadClosed,
     Finish 0, Reader 0 SignalDone, Unregister 0, Reader 0 CancelOwn, Release 0]"

theorem shutdown_drains_witness:
  "\<exists>s'. life_run 1 last_steps closed_session = Some s' \<and> steps_of 0 last_steps = 10 \<and> steps_of 0 last_steps \<le> 32
     \<and> lf_slots s' = 0 \<and> life_step 1 Drained s' = Some (s'\<lparr>lf_close := Stopped\<rparr>)"
proof -
  let ?s = "\<lparr>lf_handlers = [new_handler\<lparr>hd_stage := Gone, hd_loop := Returning, hd_reader := ReaderGone, hd_done := True\<rparr>],
     lf_slots = 0, lf_wg = 0, lf_close = Waiting\<rparr>"
  have run: "life_run 1 last_steps closed_session = Some ?s" by code_simp
  moreover have "handlers_stuck 1 ?s" by code_simp
  moreover have "steps_of 0 last_steps = 10" by code_simp
  moreover have "lf_close closed_session = Waiting" "frames_left closed_session 0 = 1" by code_simp+
  ultimately show ?thesis
    using shutdown_drains [OF open_session_reaches _ run, of 0] by simp
qed

end
