(* ===== verification/Store_Open.thy ===== *)
theory Store_Open
  imports Tool_Servers Mcp_Client
begin

text \<open>
  Opening the database of a tool server: \<open>OpenAgenda\<close> (\<open>apps/mcp-agenda/internal/adapters/sqlite/store.go\<close>),
  \<open>Open\<close> (\<open>apps/mcp-notes/internal/adapters/sqlite/store.go\<close>), the schema of \<open>migrations/\<close>, the copy
  of the ledger that older versions kept in one table \<open>operations\<close>, and the embedded tool contracts
  (\<open>contracts/v1/tools.go\<close>). A database file is its tables; the outcome of each call of the driver and
  of the file system is an argument. The theorems: an operation an older version recorded is never
  repeated, and closing and opening a store between calls changes nothing.
\<close>

section \<open>Contracts\<close>

text \<open>\<open>Tools\<close>: a list of tools whose schemas are compacted; an error is a panic.\<close>
definition contract_tools :: "string \<Rightarrow> error + tool list" where
  "contract_tools data =
     (case snd (list_field ''tools'' tool_decode_fields zero_mcp_tool id (\<lambda>v _. v)) data [] of
        None \<Rightarrow> Inl ''panic''
      | Some tools \<Rightarrow> Inr (map (\<lambda>t. t\<lparr>tl_InputSchema := json_compact (tl_InputSchema t)\<rparr>) tools))"

section \<open>A database file\<close>

text \<open>The tables of one server, absent before its first start, and the table of older versions.\<close>
record 'e store_file =
  sf_versions :: "int list option"
  sf_rows :: "'e list option"
  sf_operations :: "ledger option"
  sf_legacy :: "(string \<times> ledger_row) list option"

definition new_file :: "'e store_file" where
  "new_file = \<lparr>sf_versions = None, sf_rows = None, sf_operations = None, sf_legacy = None\<rparr>"

text \<open>\<open>CREATE TABLE IF NOT EXISTS\<close> and \<open>INSERT OR IGNORE\<close> of a version.\<close>
definition if_not_exists :: "'a list option \<Rightarrow> 'a list option" where
  "if_not_exists t = (case t of None \<Rightarrow> Some [] | Some rows \<Rightarrow> Some rows)"

definition insert_version :: "int \<Rightarrow> int list option \<Rightarrow> int list option" where
  "insert_version v t = map_option (\<lambda>vs. if v \<in> set vs then vs else vs @ [v]) t"

text \<open>The statements of \<open>001_initial.sql\<close>.\<close>
definition Schema :: "('e store_file \<Rightarrow> 'e store_file) list" where
  "Schema =
     [\<lambda>f. f,
      \<lambda>f. f\<lparr>sf_versions := if_not_exists (sf_versions f)\<rparr>,
      \<lambda>f. f\<lparr>sf_rows := if_not_exists (sf_rows f)\<rparr>,
      \<lambda>f. f\<lparr>sf_operations := if_not_exists (sf_operations f)\<rparr>,
      \<lambda>f. f\<lparr>sf_versions := insert_version 1 (sf_versions f)\<rparr>]"

text \<open>\<open>db.Exec\<close> of a script: it may fail after some of its statements.\<close>
definition exec_script :: "('f \<Rightarrow> 'f) list \<Rightarrow> (nat \<times> error) option \<Rightarrow> 'f \<Rightarrow> 'f \<times> error option" where
  "exec_script script outcome f =
     (case outcome of
        None \<Rightarrow> (fold (\<lambda>stmt f. stmt f) script f, None)
      | Some (n, err) \<Rightarrow> (fold (\<lambda>stmt f. stmt f) (take n script) f, Some err))"

section \<open>Opening\<close>

text \<open>The outcomes of the calls \<open>Open\<close> makes.\<close>
record open_outcomes =
  oo_MkdirAll :: "error option"
  oo_OpenFile :: "error option"
  oo_Open :: "error option"
  oo_Schema :: "(nat \<times> error) option"
  oo_Count :: "error option"
  oo_Begin :: "error option"
  oo_Copy :: "error option"
  oo_Version :: "error option"
  oo_Commit :: "error option"

definition no_failures :: open_outcomes where
  "no_failures = \<lparr>oo_MkdirAll = None, oo_OpenFile = None, oo_Open = None, oo_Schema = None, oo_Count = None,
     oo_Begin = None, oo_Copy = None, oo_Version = None, oo_Commit = None\<rparr>"

text \<open>The pattern \<open>prefix%\<close>: \<open>LIKE\<close> folds ASCII letters.\<close>
definition like_prefix :: "string \<Rightarrow> string \<Rightarrow> bool" where
  "like_prefix p s \<longleftrightarrow> take (length p) (sql_lower s) = sql_lower p"

text \<open>\<open>INSERT OR IGNORE INTO ... SELECT\<close> on the primary key.\<close>
definition insert_or_ignore :: "(string \<times> ledger_row) list \<Rightarrow> ledger \<Rightarrow> ledger" where
  "insert_or_ignore rows ops = fold (\<lambda>(k, row) ops. if gget ops k = None then gput k row ops else ops) rows ops"

definition copied_rows :: "string \<Rightarrow> (string \<times> ledger_row) list \<Rightarrow> (string \<times> ledger_row) list" where
  "copied_rows p legacy = filter (\<lambda>(k, row). like_prefix p (lr_name row)) legacy"

text \<open>\<open>migrateLegacyLedger\<close>; an error rolls the transaction back.\<close>
definition migrateLegacyLedger :: "string \<Rightarrow> open_outcomes \<Rightarrow> 'e store_file \<Rightarrow> 'e store_file \<times> error option" where
  "migrateLegacyLedger p oc f =
     (case (oo_Count oc, sf_legacy f) of
        (Some err, _) \<Rightarrow> (f, Some err)
      | (None, None) \<Rightarrow> (f, None)
      | (None, Some legacy) \<Rightarrow>
          (case oo_Begin oc of
             Some err \<Rightarrow> (f, Some err)
           | None \<Rightarrow>
               (let f1 = f\<lparr>sf_operations := map_option (insert_or_ignore (copied_rows p legacy)) (sf_operations f)\<rparr>;
                    f2 = f1\<lparr>sf_versions := insert_version 2 (sf_versions f1)\<rparr>
                in case oo_Copy oc of
                   Some err \<Rightarrow> (f, Some err)
                 | None \<Rightarrow>
                     (case oo_Version oc of
                        Some err \<Rightarrow> (f, Some err)
                      | None \<Rightarrow> (case oo_Commit oc of Some err \<Rightarrow> (f, Some err) | None \<Rightarrow> (f2, None))))))"

definition no_rows :: "'a list option \<Rightarrow> 'a list" where
  "no_rows t = (case t of None \<Rightarrow> [] | Some rows \<Rightarrow> rows)"

text \<open>The file after opening it, and the error or the two tables a store uses.\<close>
definition open_store ::
  "string \<Rightarrow> open_outcomes \<Rightarrow> string \<Rightarrow> 'e store_file \<Rightarrow> 'e store_file \<times> (error + 'e list \<times> ledger)"
where
  "open_store p oc path f =
     (let f0 = (if path = '':memory:'' then new_file else f) in
      if path = [] then (f, Inl ''database path required'')
      else (case (if path = '':memory:'' then None else oo_MkdirAll oc) of
          Some err \<Rightarrow> (f, Inl err)
        | None \<Rightarrow>
      (case (if path = '':memory:'' then None else oo_OpenFile oc) of
          Some err \<Rightarrow> (f, Inl err)
        | None \<Rightarrow>
      (case oo_Open oc of
          Some err \<Rightarrow> (f0, Inl err)
        | None \<Rightarrow>
      (case exec_script Schema (oo_Schema oc) f0 of
          (f1, Some err) \<Rightarrow> (f1, Inl err)
        | (f1, None) \<Rightarrow>
      (case migrateLegacyLedger p oc f1 of
          (f2, Some err) \<Rightarrow> (f2, Inl err)
        | (f2, None) \<Rightarrow> (f2, Inr (no_rows (sf_rows f2), no_rows (sf_operations f2)))))))))"

definition OpenAgenda ::
  "open_outcomes \<Rightarrow> string \<Rightarrow> agenda_row store_file \<Rightarrow> agenda_row store_file \<times> (error + agenda_db)"
where
  "OpenAgenda oc path f =
     apsnd (map_sum id (\<lambda>(rows, ops). \<lparr>ag_events = rows, ag_operations = ops\<rparr>)) (open_store ''agenda.'' oc path f)"

definition OpenNotes ::
  "open_outcomes \<Rightarrow> string \<Rightarrow> note_row store_file \<Rightarrow> note_row store_file \<times> (error + notes_db)"
where
  "OpenNotes oc path f =
     apsnd (map_sum id (\<lambda>(rows, ops). \<lparr>nd_notes = rows, nd_operations = ops\<rparr>)) (open_store ''notes.'' oc path f)"

text \<open>The file of a store, after the calls that made it \<open>db\<close>.\<close>
definition agenda_file :: "agenda_db \<Rightarrow> agenda_row store_file \<Rightarrow> agenda_row store_file" where
  "agenda_file db f = f\<lparr>sf_rows := Some (ag_events db), sf_operations := Some (ag_operations db)\<rparr>"

definition notes_file :: "notes_db \<Rightarrow> note_row store_file \<Rightarrow> note_row store_file" where
  "notes_file db f = f\<lparr>sf_rows := Some (nd_notes db), sf_operations := Some (nd_operations db)\<rparr>"

section \<open>What opening does\<close>

lemma insert_or_ignore_gget:
  "gget (insert_or_ignore rows ops) key = (case gget ops key of Some row \<Rightarrow> Some row | None \<Rightarrow> map_of rows key)"
proof (induction rows arbitrary: ops)
  case (Cons kr rows)
  obtain k row where kr: "kr = (k, row)" by force
  have "insert_or_ignore (kr # rows) ops = insert_or_ignore rows (if gget ops k = None then gput k row ops else ops)"
    by (simp add: insert_or_ignore_def kr)
  then show ?case using Cons.IH [of "if gget ops k = None then gput k row ops else ops"]
    by (auto simp: kr split: option.splits)
qed (simp add: insert_or_ignore_def split: option.split)

lemma insert_or_ignore_same:
  "(\<And>k. k \<in> fst ` set rows \<Longrightarrow> gget ops k \<noteq> None) \<Longrightarrow> insert_or_ignore rows ops = ops"
proof (induction rows)
  case (Cons kr rows)
  obtain k row where kr: "kr = (k, row)" by force
  obtain y where "gget ops k = Some y" using Cons.prems [of k] by (auto simp: kr)
  then have "insert_or_ignore (kr # rows) ops = insert_or_ignore rows ops" by (simp add: kr insert_or_ignore_def)
  then show ?case using Cons by simp
qed (simp add: insert_or_ignore_def)

lemma exec_Schema:
  "exec_script Schema None f = (f\<lparr>sf_versions := insert_version 1 (if_not_exists (sf_versions f)),
     sf_rows := if_not_exists (sf_rows f), sf_operations := if_not_exists (sf_operations f)\<rparr>, None)"
  by (simp add: exec_script_def Schema_def if_not_exists_def)

lemma version_inserted: "\<exists>vs. insert_version v (if_not_exists t) = Some vs \<and> v \<in> set vs"
  by (cases t) (simp_all add: insert_version_def if_not_exists_def)

text \<open>A store that opened: its tables exist, and its ledger is the one it had with the older one behind it.\<close>
definition opened_file :: "string \<Rightarrow> 'e store_file \<Rightarrow> 'e list \<Rightarrow> ledger \<Rightarrow> bool" where
  "opened_file p f rows ops \<longleftrightarrow> sf_rows f = Some rows \<and> sf_operations f = Some ops
     \<and> (case sf_versions f of None \<Rightarrow> False | Some vs \<Rightarrow> 1 \<in> set vs \<and> (sf_legacy f \<noteq> None \<longrightarrow> 2 \<in> set vs))
     \<and> (case sf_legacy f of None \<Rightarrow> True
        | Some legacy \<Rightarrow> list_all (\<lambda>(k, _). gget ops k \<noteq> None) (copied_rows p legacy))"

lemma open_store_Inr:
  assumes "open_store p oc path f = (f', Inr (rows, ops))" "path \<noteq> '':memory:''"
  shows "opened_file p f' rows ops" "sf_legacy f' = sf_legacy f" "rows = no_rows (sf_rows f)"
    "gget ops key = (case gget (no_rows (sf_operations f)) key of Some row \<Rightarrow> Some row
       | None \<Rightarrow> map_of (copied_rows p (no_rows (sf_legacy f))) key)"
proof -
  have quiet: "oo_Schema oc = None"
    using assms by (auto simp: open_store_def exec_script_def Let_def split: option.splits prod.splits if_splits)
  define f1 where "f1 = fst (exec_script Schema None f)"
  have f1: "sf_legacy f1 = sf_legacy f" "sf_rows f1 = Some (no_rows (sf_rows f))"
    "sf_operations f1 = Some (no_rows (sf_operations f))" "\<exists>vs. sf_versions f1 = Some vs \<and> 1 \<in> set vs"
    using version_inserted [of 1 "sf_versions f"]
    by (auto simp: f1_def exec_Schema no_rows_def if_not_exists_def [of "sf_rows f"] if_not_exists_def [of "sf_operations f"]
        split: option.split)
  have m: "migrateLegacyLedger p oc f1 = (f', None)" "rows = no_rows (sf_rows f')" "ops = no_rows (sf_operations f')"
    using assms quiet by (auto simp: open_store_def f1_def exec_Schema Let_def split: option.splits prod.splits if_splits)
  have keys: "gget (insert_or_ignore xs ys) k \<noteq> None" if "k \<in> fst ` set xs" for xs ys k
    using that map_of_eq_None_iff [of xs k] by (auto simp: insert_or_ignore_gget split: option.split)
  show "sf_legacy f' = sf_legacy f" "rows = no_rows (sf_rows f)"
    using m f1 by (auto simp: migrateLegacyLedger_def Let_def no_rows_def split: option.splits prod.splits)
  show "gget ops key = (case gget (no_rows (sf_operations f)) key of Some row \<Rightarrow> Some row
       | None \<Rightarrow> map_of (copied_rows p (no_rows (sf_legacy f))) key)"
    using m f1 by (cases "sf_legacy f") (auto simp: migrateLegacyLedger_def Let_def no_rows_def insert_or_ignore_gget
        copied_rows_def split: option.splits prod.splits)
  show "opened_file p f' rows ops"
  proof (cases "sf_legacy f")
    case None
    then show ?thesis using m f1 by (auto simp: migrateLegacyLedger_def opened_file_def no_rows_def split: option.splits)
  next
    case (Some legacy)
    then have f': "sf_operations f' = Some (insert_or_ignore (copied_rows p legacy) (no_rows (sf_operations f)))"
      "sf_versions f' = insert_version 2 (sf_versions f1)" "sf_rows f' = sf_rows f1" "sf_legacy f' = Some legacy"
      using m f1 by (auto simp: migrateLegacyLedger_def Let_def split: option.splits)
    have "list_all (\<lambda>(k, _). gget (insert_or_ignore (copied_rows p legacy) (no_rows (sf_operations f))) k \<noteq> None) (copied_rows p legacy)"
      using keys [of _ "copied_rows p legacy"] by (fastforce simp: list_all_iff)
    then show ?thesis using m f1 f' by (auto simp: opened_file_def insert_version_def no_rows_def)
  qed
qed

text \<open>Opening it again, after calls that kept its ledger, finds it as it was.\<close>
lemma open_store_again:
  assumes "opened_file p f rows ops" "path \<notin> {[], '':memory:''}"
  shows "open_store p no_failures path f = (f, Inr (rows, ops))"
proof -
  obtain vs where f: "sf_rows f = Some rows" "sf_operations f = Some ops" "sf_versions f = Some vs" "1 \<in> set vs"
    using assms(1) by (auto simp: opened_file_def split: option.splits)
  have schema: "exec_script Schema None f = (f, None)"
    by (cases f) (use f in \<open>simp add: exec_Schema if_not_exists_def insert_version_def\<close>)
  have "migrateLegacyLedger p no_failures f = (f, None)"
  proof (cases "sf_legacy f")
    case (Some legacy)
    then have "2 \<in> set vs" "list_all (\<lambda>(k, _). gget ops k \<noteq> None) (copied_rows p legacy)"
      using assms(1) f by (auto simp: opened_file_def)
    then have "insert_or_ignore (copied_rows p legacy) ops = ops"
      by (intro insert_or_ignore_same) (auto simp: list_all_iff)
    then show ?thesis using Some f \<open>2 \<in> set vs\<close>
      by (cases f) (simp add: migrateLegacyLedger_def no_failures_def insert_version_def Let_def)
  qed (simp add: migrateLegacyLedger_def no_failures_def)
  then show ?thesis using assms(2) schema f by (simp add: open_store_def no_failures_def no_rows_def)
qed

section \<open>Across versions and restarts\<close>

context idempotent_store
begin

text \<open>A key the ledger has takes no effect any more, and every answer under it is the recorded one.\<close>
lemma key_settled:
  assumes "gget (ledger_of s) key = Some row"
  shows "key \<notin> set (effects apply_call call_id s cs)"
    "list_all (\<lambda>((k, name, args), r). if k = key then name = lr_name row \<and> args = lr_args row \<and> r = lr_result row else True)
       (answers apply_call call_id s cs)"
proof -
  show "key \<notin> set (effects apply_call call_id s cs)" using assms effects_fresh by fastforce
  show "list_all (\<lambda>((k, name, args), r). if k = key then name = lr_name row \<and> args = lr_args row \<and> r = lr_result row else True)
       (answers apply_call call_id s cs)"
    using answers_recorded [OF assms] by (fastforce simp: list_all_iff)
qed

lemma ledger_kept: "gget (ledger_of s) key = Some row \<Longrightarrow> gget (ledger_of (foldl (\<lambda>s c. fst (apply_call c s)) s cs)) key = Some row"
  by (induction cs arbitrary: s) (auto intro: kept)

end

text \<open>What the ledger of an opened store holds for a key.\<close>
definition recorded_row :: "string \<Rightarrow> 'e store_file \<Rightarrow> string \<Rightarrow> ledger_row option" where
  "recorded_row p f key =
     (case gget (no_rows (sf_operations f)) key of Some row \<Rightarrow> Some row
      | None \<Rightarrow> map_of (copied_rows p (no_rows (sf_legacy f))) key)"

text \<open>
  C19. No operation is repeated after an upgrade. When the agenda opens its database, every key that its
  ledger or the ledger of an older version holds for an agenda tool stays settled: in any sequence of
  calls, with any failures, none of them takes effect under that key, and each answer under it is the
  recorded result of the recorded call.
\<close>
theorem legacy_not_repeated:
  assumes "OpenAgenda oc path f = (f', Inr db)" "path \<noteq> '':memory:''" "recorded_row ''agenda.'' f key = Some row"
  shows "key \<notin> set (effects (agenda_apply L tz) (mutation_id L) db ms)
    \<and> list_all (\<lambda>((k, name, args), r). if k = key then name = lr_name row \<and> args = lr_args row \<and> r = lr_result row else True)
        (answers (agenda_apply L tz) (mutation_id L) db ms)"
proof -
  have "open_store ''agenda.'' oc path f = (f', Inr (ag_events db, ag_operations db))"
    using assms(1) by (cases "open_store ''agenda.'' oc path f"; cases "snd (open_store ''agenda.'' oc path f)")
      (auto simp: OpenAgenda_def)
  then have "gget (ag_operations db) key = Some row"
    using open_store_Inr(4) [of _ oc path f f' _ "ag_operations db" key] assms(2,3) by (simp add: recorded_row_def)
  then show ?thesis using agenda_ops.key_settled by blast
qed

text \<open>
  A restart of the agenda is invisible. After any calls, closing the store and opening its file again
  gives the same store and leaves the file as it is, the copy of an older ledger included.
\<close>
theorem restart_invisible:
  assumes "OpenAgenda oc path f = (f1, Inr db)" "path \<notin> {[], '':memory:''}"
    and "db' = foldl (\<lambda>db m. fst (agenda_apply L tz m db)) db ms"
  shows "OpenAgenda no_failures path (agenda_file db' f1) = (agenda_file db' f1, Inr db')"
proof -
  have "open_store ''agenda.'' oc path f = (f1, Inr (ag_events db, ag_operations db))"
    using assms(1) by (cases "open_store ''agenda.'' oc path f"; cases "snd (open_store ''agenda.'' oc path f)")
      (auto simp: OpenAgenda_def)
  from open_store_Inr(1) [OF this] have op: "opened_file ''agenda.'' f1 (ag_events db) (ag_operations db)"
    using assms(2) by simp
  have "gget (ag_operations db') k \<noteq> None" if "gget (ag_operations db) k \<noteq> None" for k
    using that agenda_ops.ledger_kept [of db k _ L tz ms] by (auto simp: assms(3))
  then have "opened_file ''agenda.'' (agenda_file db' f1) (ag_events db') (ag_operations db')"
    using op by (fastforce simp: opened_file_def agenda_file_def list_all_iff split: option.splits)
  from open_store_again [OF this assms(2)] show ?thesis by (simp add: OpenAgenda_def)
qed

text \<open>The same of the notes.\<close>
theorem notes_legacy_not_repeated:
  assumes "OpenNotes oc path f = (f', Inr db)" "path \<noteq> '':memory:''" "recorded_row ''notes.'' f key = Some row"
  shows "key \<notin> set (effects (notes_apply L) (mutation_id L) db ms)
    \<and> list_all (\<lambda>((k, name, args), r). if k = key then name = lr_name row \<and> args = lr_args row \<and> r = lr_result row else True)
        (answers (notes_apply L) (mutation_id L) db ms)"
proof -
  have "open_store ''notes.'' oc path f = (f', Inr (nd_notes db, nd_operations db))"
    using assms(1) by (cases "open_store ''notes.'' oc path f"; cases "snd (open_store ''notes.'' oc path f)")
      (auto simp: OpenNotes_def)
  then have "gget (nd_operations db) key = Some row"
    using open_store_Inr(4) [of _ oc path f f' _ "nd_operations db" key] assms(2,3) by (simp add: recorded_row_def)
  then show ?thesis using notes_ops.key_settled by blast
qed

text \<open>A file of an older version.\<close>
definition old_file :: "agenda_row store_file" where
  "old_file = new_file\<lparr>sf_legacy := Some
     [(''k-1'', \<lparr>lr_name = ''agenda.create_event'', lr_args = ''{}'', lr_result = ''{ok}'', lr_completed = ''then''\<rparr>),
      (''k-2'', \<lparr>lr_name = ''notes.create'', lr_args = ''{}'', lr_result = ''{}'', lr_completed = ''then''\<rparr>)]\<rparr>"

theorem legacy_not_repeated_witness:
  "\<exists>f' db. OpenAgenda no_failures ''a.db'' old_file = (f', Inr db)
     \<and> ''k-1'' \<notin> set (effects (agenda_apply toy_lib (\<lambda>_. 0)) (mutation_id toy_lib) db
          [\<lparr>mu_key = ''k-1'', mu_name = ''agenda.create_event'', mu_args = ''{}'', mu_confirmed = True, mu_fresh = ''x'',
            mu_stamp = ''now'', mu_commit = None\<rparr>])"
proof -
  obtain f' db where o: "OpenAgenda no_failures ''a.db'' old_file = (f', Inr db)"
    by (simp add: OpenAgenda_def open_store_def no_failures_def exec_Schema migrateLegacyLedger_def old_file_def new_file_def Let_def)
  have "recorded_row ''agenda.'' old_file ''k-1'' = Some \<lparr>lr_name = ''agenda.create_event'', lr_args = ''{}'',
      lr_result = ''{ok}'', lr_completed = ''then''\<rparr>"
    by code_simp
  then show ?thesis using o legacy_not_repeated [OF o] by blast
qed

theorem restart_invisible_witness:
  "\<exists>f1 db db'. OpenAgenda no_failures ''a.db'' old_file = (f1, Inr db) \<and> sf_operations f1 \<noteq> Some []
     \<and> OpenAgenda no_failures ''a.db'' (agenda_file db' f1) = (agenda_file db' f1, Inr db')"
proof -
  obtain f1 db where o: "OpenAgenda no_failures ''a.db'' old_file = (f1, Inr db)" and ops: "sf_operations f1 \<noteq> Some []"
    by (simp add: OpenAgenda_def open_store_def no_failures_def exec_Schema migrateLegacyLedger_def old_file_def new_file_def
        Let_def copied_rows_def like_prefix_def sql_lower_def insert_or_ignore_def if_not_exists_def
        char_classes bchr_def)
  have "OpenAgenda no_failures ''a.db'' (agenda_file db f1) = (agenda_file db f1, Inr db)"
    by (rule restart_invisible [OF o, of db toy_lib "\<lambda>_. 0" "[]"]) simp_all
  then show ?thesis using o ops by blast
qed

end
