(* ===== verification/Client_Process.thy ===== *)
theory Client_Process
  imports Mcp_Client
begin

text \<open>
  The MCP client with the process behind it, \<open>packages/go/mcpwire/client.go\<close>: \<open>StartProcess\<close>, the gate
  that lets one request through at a time, what a timeout does, and \<open>Close\<close>. The lines the process
  writes, and which call of the operating system fails, are arguments; so is the moment a context ends.
\<close>

section \<open>State\<close>

datatype proc_act =
    PStart string "string list" string "string list option"
  | PWrite string
  | PCloseStdin
  | PKill
  | PCloseStdout
  | PWait

text \<open>\<open>mp_messages\<close> is what \<open>read\<close> has still to hand over.\<close>
record mcp_process =
  mp_client :: client
  mp_messages :: "rpc_message list"
  mp_closed :: bool
  mp_trace :: "proc_act list"

record start_outcome =
  so_StdinPipe :: "error option"
  so_StdoutPipe :: "error option"
  so_Start :: "error option"
  so_lines :: "string list"

text \<open>
  What happens to a request: the error of its context while it waits for the gate, the error of its
  write, the error of its context while it waits for the answer, and whether the context ends just
  after an answer was taken.
\<close>
record request_outcome =
  ro_gate :: "error option"
  ro_Encode :: "error option"
  ro_expired :: "error option"
  ro_late :: bool

section \<open>Operations\<close>

definition proc_do :: "proc_act list \<Rightarrow> mcp_process \<Rightarrow> mcp_process" where
  "proc_do acts p = p\<lparr>mp_trace := mp_trace p @ acts\<rparr>"

text \<open>\<open>Close\<close>, under \<open>once\<close>.\<close>
definition CloseClient :: "mcp_process \<Rightarrow> mcp_process" where
  "CloseClient p =
     (if mp_closed p then p
      else proc_do [PCloseStdin, PKill, PCloseStdout, PWait] (p\<lparr>mp_closed := True\<rparr>))"

text \<open>\<open>request\<close>: a context that ends closes the client (\<open>context.AfterFunc\<close>).\<close>
definition process_request ::
  "request_outcome \<Rightarrow> string \<Rightarrow> string \<Rightarrow> mcp_process \<Rightarrow> mcp_process \<times> (error + string)"
where
  "process_request ro verb ps p =
     (case ro_gate ro of
        Some err \<Rightarrow> (p, Inl err)
      | None \<Rightarrow>
          (case client_request verb ps (mp_client p) of
             (c', ident, line) \<Rightarrow>
               (let p1 = p\<lparr>mp_client := c'\<rparr>;
                    ended = (ro_expired ro \<noteq> None \<or> ro_late ro);
                    finish = (\<lambda>q. if ended then CloseClient q else q)
                in if mp_closed p1 \<or> ro_Encode ro \<noteq> None then (finish p1, Inl ''MCP disconnected'')
                   else (case client_await ident (ro_expired ro) (mp_messages p1) of
                       (ans, ms) \<Rightarrow> (finish (proc_do [PWrite line] (p1\<lparr>mp_messages := ms\<rparr>)), ans)))))"

text \<open>\<open>StartProcess\<close>: the trace of a start that failed is part of the result.\<close>
definition StartProcess ::
  "start_outcome \<Rightarrow> request_outcome \<Rightarrow> error option \<Rightarrow> string \<Rightarrow> string list \<Rightarrow> string \<Rightarrow> string list option
   \<Rightarrow> proc_act list \<times> (error + mcp_process)"
where
  "StartProcess so ro notified command args dir env =
     (case so_StdinPipe so of
        Some err \<Rightarrow> ([], Inl err)
      | None \<Rightarrow>
      (case so_StdoutPipe so of
        Some err \<Rightarrow> ([PCloseStdin], Inl err)
      | None \<Rightarrow>
      (case so_Start so of
        Some _ \<Rightarrow> ([PCloseStdin, PCloseStdout], Inl ''MCP process failed to start'')
      | None \<Rightarrow>
          (let p0 = \<lparr>mp_client = \<lparr>cl_next = 0\<rparr>, mp_messages = client_read (so_lines so), mp_closed = False,
                    mp_trace = [PStart command args dir env]\<rparr>
           in case process_request ro ''initialize'' initialize_params p0 of
                (p1, ans) \<Rightarrow>
                  if \<not> handshake_ok ans \<or> notified \<noteq> None \<or> mp_closed p1
                  then (mp_trace (CloseClient p1), Inl ''MCP initialization failed'')
                  else (let p2 = proc_do [PWrite initialized_text] p1 in (mp_trace p2, Inr p2))))))"

definition StartWithTimeout ::
  "start_outcome \<Rightarrow> request_outcome \<Rightarrow> error option \<Rightarrow> string \<Rightarrow> string list \<Rightarrow> proc_act list \<times> (error + mcp_process)"
where
  "StartWithTimeout so ro notified command args = StartProcess so ro notified command args [] None"

text \<open>\<open>Call\<close> and \<open>Tools\<close>\<close>
definition ProcessCall ::
  "request_outcome \<Rightarrow> string \<Rightarrow> string \<Rightarrow> string \<Rightarrow> bool \<Rightarrow> mcp_process \<Rightarrow> mcp_process \<times> (error + result)"
where
  "ProcessCall ro name args key confirmed p =
     apsnd call_result (process_request ro ''tools/call'' (call_params name args key confirmed) p)"

definition ProcessTools :: "request_outcome \<Rightarrow> mcp_process \<Rightarrow> mcp_process \<times> (error + tool list)" where
  "ProcessTools ro p = apsnd client_tools (process_request ro ''tools/list'' (obj_text []) p)"

section \<open>No process is left, and none is reused after a timeout\<close>

text \<open>A trace in order: at most one process, killed and waited for at most once, and nothing sent to it after.\<close>
definition closing_acts :: "proc_act list" where
  "closing_acts = [PCloseStdin, PKill, PCloseStdout, PWait]"

definition is_write :: "proc_act \<Rightarrow> bool" where
  "is_write a \<longleftrightarrow> (case a of PWrite _ \<Rightarrow> True | _ \<Rightarrow> False)"

definition process_ok :: "proc_act \<Rightarrow> mcp_process \<Rightarrow> bool" where
  "process_ok start p \<longleftrightarrow> (\<exists>ws. mp_trace p = start # ws @ (if mp_closed p then closing_acts else []) \<and> list_all is_write ws)"

lemma CloseClient_ok: "process_ok a p \<Longrightarrow> process_ok a (CloseClient p) \<and> mp_closed (CloseClient p)"
  by (auto simp: process_ok_def CloseClient_def proc_do_def closing_acts_def)

lemma CloseClient_closed [simp]: "mp_closed p \<Longrightarrow> CloseClient p = p"
  by (simp add: CloseClient_def)

lemma CloseClient_closes [simp]: "mp_closed (CloseClient p)"
  by (simp add: CloseClient_def proc_do_def)

lemma write_ok:
  assumes "process_ok a p" "\<not> mp_closed p" shows "process_ok a (proc_do [PWrite line] p)"
proof -
  obtain ws where "mp_trace p = a # ws" "list_all is_write ws" using assms by (auto simp: process_ok_def)
  then show ?thesis using assms(2) by (auto simp: process_ok_def proc_do_def is_write_def intro!: exI [of _ "ws @ [PWrite line]"])
qed

lemma process_ok_frame [simp]:
  "process_ok a (p\<lparr>mp_client := c\<rparr>) = process_ok a p" "process_ok a (p\<lparr>mp_messages := ms\<rparr>) = process_ok a p"
  by (simp_all add: process_ok_def)

lemma process_request_ok:
  assumes "process_ok a p" "process_request ro verb ps p = (p', ans)"
  shows "process_ok a p'" "mp_closed p \<Longrightarrow> mp_closed p' \<and> mp_trace p' = mp_trace p \<and> (\<exists>err. ans = Inl err)"
    "ro_gate ro = None \<Longrightarrow> ro_expired ro \<noteq> None \<or> ro_late ro \<Longrightarrow> mp_closed p'"
  using assms CloseClient_ok write_ok
  by (auto simp: process_request_def Let_def split: option.splits prod.splits if_splits)

text \<open>The requests of a session, one after the other through the gate.\<close>
fun process_requests ::
  "(request_outcome \<times> string \<times> string) list \<Rightarrow> mcp_process \<Rightarrow> mcp_process \<times> (error + string) list"
where
  "process_requests [] p = (p, [])"
| "process_requests ((ro, verb, ps) # rs) p =
     (case process_request ro verb ps p of
        (p1, ans) \<Rightarrow> (case process_requests rs p1 of (p2, answers) \<Rightarrow> (p2, ans # answers)))"

lemma closed_requests:
  assumes "process_ok a p" "mp_closed p" "process_requests rs p = (p', answers)"
  shows "mp_closed p' \<and> mp_trace p' = mp_trace p \<and> list_all isl answers"
  using assms
proof (induction rs arbitrary: p answers)
  case (Cons r rs)
  obtain ro verb ps where r: "r = (ro, verb, ps)" by (metis prod_cases3)
  obtain p1 ans where p1: "process_request ro verb ps p = (p1, ans)" by (metis surj_pair)
  obtain p2 as where p2: "process_requests rs p1 = (p2, as)" by (metis surj_pair)
  show ?case
    using process_request_ok [OF Cons.prems(1) p1] Cons.prems Cons.IH [of p1 as] p1 p2 by (auto simp: r)
qed simp

lemma process_requests_ok: "process_ok a p \<Longrightarrow> process_requests rs p = (p', answers) \<Longrightarrow> process_ok a p'"
proof (induction rs arbitrary: p answers)
  case (Cons r rs)
  then show ?case using process_request_ok(1) by (cases r) (fastforce split: prod.splits)
qed simp

lemma last_request_closes:
  assumes "process_ok a p" "process_requests (before @ [(r, verb, ps)]) p = (p', answers)"
    "ro_gate r = None" "ro_expired r \<noteq> None \<or> ro_late r"
  shows "mp_closed p'"
  using assms(1,2)
proof (induction before arbitrary: p answers)
  case Nil
  then show ?case using process_request_ok(3) [OF Nil.prems(1) _ assms(3,4)] by (auto split: prod.splits)
next
  case (Cons q before)
  then show ?case using process_request_ok(1) by (cases q) (fastforce split: prod.splits)
qed

lemma started_ok:
  "StartProcess so ro notified command args dir env = (tr, Inr p) \<Longrightarrow> process_ok (PStart command args dir env) p \<and> \<not> mp_closed p \<and> mp_trace p = tr"
proof -
  assume s: "StartProcess so ro notified command args dir env = (tr, Inr p)"
  let ?p0 = "\<lparr>mp_client = \<lparr>cl_next = 0\<rparr>, mp_messages = client_read (so_lines so), mp_closed = False,
                    mp_trace = [PStart command args dir env]\<rparr>"
  have "process_ok (PStart command args dir env) ?p0" by (simp add: process_ok_def)
  then show ?thesis using s process_request_ok(1) [of "PStart command args dir env" ?p0 ro "''initialize''" initialize_params] write_ok
    by (fastforce simp: StartProcess_def Let_def proc_do_def split: option.splits prod.splits if_splits)
qed

text \<open>
  No process is left behind, and none is used after a timeout. A start that fails after the process ran
  has killed it and waited for it. A client that started talks to its one process only, kills it at
  most once, and once the context of a request ended, every request after it fails and nothing more is
  written.
\<close>
theorem process_contained:
  "case StartProcess so ro notified command args dir env of
     (tr, Inl _) \<Rightarrow> (if PStart command args dir env \<in> set tr then \<exists>ws. tr = PStart command args dir env # ws @ closing_acts \<and> list_all is_write ws
                   else list_all (\<lambda>a. a = PCloseStdin \<or> a = PCloseStdout) tr)
   | (tr, Inr p) \<Rightarrow>
       (case process_requests (before @ [(r, verb, ps)]) p of (p1, _) \<Rightarrow>
          (case process_requests after p1 of (p2, answers) \<Rightarrow>
             (\<exists>ws. mp_trace p2 = PStart command args dir env # ws @ (if mp_closed p2 then closing_acts else []) \<and> list_all is_write ws)
             \<and> (if ro_gate r = None \<and> (ro_expired r \<noteq> None \<or> ro_late r)
                then list_all isl answers \<and> mp_trace p2 = mp_trace p1 else True)))"
proof -
  let ?a = "PStart command args dir env"
  obtain tr res where s: "StartProcess so ro notified command args dir env = (tr, res)" by (metis surj_pair)
  show ?thesis
  proof (cases res)
    case (Inl err)
    let ?p0 = "\<lparr>mp_client = \<lparr>cl_next = 0\<rparr>, mp_messages = client_read (so_lines so), mp_closed = False, mp_trace = [?a]\<rparr>"
    obtain p1 ans where req: "process_request ro ''initialize'' initialize_params ?p0 = (p1, ans)" by (metis surj_pair)
    have "process_ok ?a ?p0" by (simp add: process_ok_def)
    then have "process_ok ?a (CloseClient p1) \<and> mp_closed (CloseClient p1)"
      using CloseClient_ok process_request_ok(1) [OF _ req] by blast
    then obtain ws where ws: "mp_trace (CloseClient p1) = ?a # ws @ closing_acts" "list_all is_write ws"
      by (auto simp: process_ok_def)
    have "tr = mp_trace (CloseClient p1) \<or> tr = [] \<or> tr = [PCloseStdin] \<or> tr = [PCloseStdin, PCloseStdout]"
      using s Inl req by (auto simp: StartProcess_def Let_def split: option.splits if_splits)
    then show ?thesis using s Inl ws by auto
  next
    case (Inr p)
    obtain p1 as where p1: "process_requests (before @ [(r, verb, ps)]) p = (p1, as)" by (metis surj_pair)
    obtain p2 answers where p2: "process_requests after p1 = (p2, answers)" by (metis surj_pair)
    have ok: "process_ok ?a p" using started_ok s Inr by blast
    note ok1 = process_requests_ok [OF ok p1] and ok2 = process_requests_ok [OF process_requests_ok [OF ok p1] p2]
    have "mp_closed p1" if "ro_gate r = None" "ro_expired r \<noteq> None \<or> ro_late r"
      using last_request_closes [OF ok p1 that] .
    then have "list_all isl answers \<and> mp_trace p2 = mp_trace p1" if "ro_gate r = None" "ro_expired r \<noteq> None \<or> ro_late r"
      using closed_requests [OF ok1 _ p2] that by blast
    then show ?thesis using s Inr p1 p2 ok2 by (simp add: process_ok_def)
  qed
qed

end
