(* ===== verification/Realtime_Open.thy ===== *)
theory Realtime_Open
  imports Realtime_Stream
begin

text \<open>
  Where the realtime stream is opened and how it ends, the rest of \<open>packages/go/realtime/stream.go\<close>:
  the address \<open>realtimeURL\<close>, the request \<open>Open\<close> dials with, and \<open>Close\<close>. Parsing and printing a URL and
  \<open>url.Values.Encode\<close> are parameters.
\<close>

record rt_url =
  ru_Scheme :: string
  ru_User :: string
  ru_Host :: string
  ru_Path :: string
  ru_RawQuery :: string
  ru_Fragment :: string

text \<open>
  \<open>realtimeURL\<close>, before \<open>parsed.String()\<close>; the query of a URL with an empty \<open>RawQuery\<close> is empty, so
  \<open>model\<close> is its only key.
\<close>
definition realtimeURL ::
  "(string \<Rightarrow> rt_url option) \<Rightarrow> ((string \<times> string) list \<Rightarrow> string) \<Rightarrow> string \<Rightarrow> string \<Rightarrow> error + rt_url"
where
  "realtimeURL parse encode endpoint model =
     (case parse endpoint of
        None \<Rightarrow> Inl ''invalid LiteLLM URL''
      | Some u \<Rightarrow>
          if ru_Host u = [] \<or> ru_RawQuery u \<noteq> [] \<or> ru_Fragment u \<noteq> [] then Inl ''invalid LiteLLM URL''
          else
            (case (if ru_Scheme u = ''http'' then Some ''ws''
                   else if ru_Scheme u = ''https'' then Some ''wss''
                   else if ru_Scheme u = ''ws'' \<or> ru_Scheme u = ''wss'' then Some (ru_Scheme u)
                   else None) of
               None \<Rightarrow> Inl ''invalid LiteLLM URL''
             | Some scheme \<Rightarrow>
                 Inr (u\<lparr>ru_Scheme := scheme, ru_Path := trim_right_byte CHR ''/'' (ru_Path u) @ ''/v1/realtime'',
                        ru_RawQuery := encode [(''model'', model)]\<rparr>)))"

text \<open>The headers \<open>Open\<close> dials with.\<close>
definition realtime_headers :: "string \<Rightarrow> string \<Rightarrow> string \<Rightarrow> (string \<times> string) list" where
  "realtime_headers apiKey sessionID requestID =
     [(''Authorization'', ''Bearer '' @ apiKey), (''X-LiteLLM-Session-ID'', sessionID),
      (''X-LiteLLM-Trace-ID'', requestID), (''X-LiteLLM-Tags'', ''sts,voice,nova'')]"

text \<open>What one attempt to open a stream does to the network, and what it gives.\<close>
datatype stream_act =
    Dialed string "(string \<times> string) list"
  | Wrote string
  | CloseFrame
  | CancelRead
  | CloseConn

record realtime_env =
  re_parse :: "string \<Rightarrow> rt_url option"
  re_encode :: "(string \<times> string) list \<Rightarrow> string"
  re_String :: "rt_url \<Rightarrow> string"
  re_dial :: "nat option"
  re_wrote :: bool
  re_frames :: "string list"

definition OpenRealtime ::
  "realtime_env \<Rightarrow> (string \<Rightarrow> string) \<Rightarrow> string \<Rightarrow> string \<Rightarrow> string \<Rightarrow> string \<Rightarrow> string \<Rightarrow> string \<Rightarrow> history_message list
   \<Rightarrow> tool_spec list \<Rightarrow> stream_act list \<times> (error + stream \<times> string list)"
where
  "OpenRealtime E num endpoint apiKey model sessionID requestID prompt hist tools =
     (let address = realtimeURL (re_parse E) (re_encode E) endpoint model;
          result = OpenStream apiKey model (map_sum id (re_String E) address) (re_dial E) (re_wrote E) (re_frames E)
      in if apiKey = [] \<or> model = [] then ([], result)
         else (case address of
             Inl _ \<Rightarrow> ([], result)
           | Inr u \<Rightarrow>
               (let dialed = [Dialed (re_String E u) (realtime_headers apiKey sessionID requestID)] in
                if re_dial E \<noteq> None then (dialed, result)
                else (case re_frames E of
                    [] \<Rightarrow> (dialed @ [CloseConn], result)
                  | f # fs \<Rightarrow>
                      if (case decode_raw_map f of None \<Rightarrow> True | Some m \<Rightarrow> messageType m \<noteq> ''session.created'')
                      then (dialed @ [CloseConn], result)
                      else (dialed @ Wrote (update_text num prompt hist tools)
                              # (case result of Inl _ \<Rightarrow> [CloseConn] | Inr _ \<Rightarrow> []), result)))))"

text \<open>\<open>Close\<close>, under \<open>once\<close>: the acts of the first call and of the others.\<close>
definition CloseStream :: "bool \<Rightarrow> stream_act list \<times> bool" where
  "CloseStream closed = (if closed then ([], True) else ([CloseFrame, CancelRead, CloseConn], True))"

section \<open>Where the key goes\<close>

lemma realtimeURL_Inr:
  "realtimeURL parse encode endpoint model = Inr u \<Longrightarrow> \<exists>v. parse endpoint = Some v \<and> ru_Host u = ru_Host v \<and> ru_Host u \<noteq> []
     \<and> ru_Scheme u = (if ru_Scheme v \<in> {''https'', ''wss''} then ''wss'' else ''ws'') \<and> ru_RawQuery u = encode [(''model'', model)]
     \<and> ru_User u = ru_User v \<and> ru_Fragment u = []"
  by (auto simp: realtimeURL_def split: option.splits if_splits)

definition endpoint_address :: "realtime_env \<Rightarrow> string \<Rightarrow> string \<Rightarrow> string \<Rightarrow> bool" where
  "endpoint_address E endpoint model address \<longleftrightarrow> (\<exists>u v. realtimeURL (re_parse E) (re_encode E) endpoint model = Inr u
     \<and> address = re_String E u \<and> re_parse E endpoint = Some v \<and> ru_Host u = ru_Host v
     \<and> ru_Scheme u = (if ru_Scheme v \<in> {''https'', ''wss''} then ''wss'' else ''ws''))"

text \<open>
  The key of the provider goes to the configured host alone: an attempt to open a stream dials at most
  once, at an address with the host of the endpoint, encrypted if the endpoint is, and a connection
  that gives no stream is closed.
\<close>
theorem realtime_dials_endpoint:
  "case OpenRealtime E num endpoint apiKey model sessionID requestID prompt hist tools of (acts, res) \<Rightarrow>
     (case acts of
        [] \<Rightarrow> isl res
      | Dialed address headers # rest \<Rightarrow>
          endpoint_address E endpoint model address
          \<and> headers = realtime_headers apiKey sessionID requestID
          \<and> list_all (\<lambda>a. case a of Dialed _ _ \<Rightarrow> False | _ \<Rightarrow> True) rest
          \<and> (if isl res then re_dial E \<noteq> None \<and> rest = [] \<or> rest \<noteq> [] \<and> last rest = CloseConn else CloseConn \<notin> set rest)
      | _ \<Rightarrow> False)"
proof (cases "realtimeURL (re_parse E) (re_encode E) endpoint model")
  case (Inl e)
  then show ?thesis by (auto simp: OpenRealtime_def OpenStream_def Let_def)
next
  case (Inr u)
  have "endpoint_address E endpoint model (re_String E u)"
    using realtimeURL_Inr [OF Inr] Inr unfolding endpoint_address_def by blast
  then show ?thesis
    using Inr
    by (cases "re_frames E") (auto simp: OpenRealtime_def OpenStream_def Let_def split: option.splits sum.splits)
qed

end
