(* ===== verification/Session_Pipe.thy ===== *)
theory Session_Pipe
  imports Agent_Service
begin

text \<open>
  The channels between an agent's server and the goroutine that runs a session: \<open>runningSession\<close> of
  \<open>apps/personal-assistant-agent/session/factory.go\<close> and of
  \<open>apps/account-agent/internal/account/session.go\<close>, and \<open>fakeAgentSession\<close> of
  \<open>internal/fake/fake_factory.go\<close>. Both channels hold eight values; \<open>Send\<close> waits for room, for the end
  of the session or for its own context; the closure \<open>emit\<close> waits for room or for the end of the
  session's context; \<open>Close\<close> cancels that context and waits for the goroutine. The goroutine is in one
  of its cases, with events to emit, or in the \<open>select\<close> of its loop, which watches the context beside
  the commands and whatever else wakes it. The steps of the three parties interleave in any order. What
  the cases do is the matter of \<open>Agent_Runtime\<close>, \<open>Account_Runtime\<close> and \<open>Fake_Session\<close>.
\<close>

section \<open>State and steps\<close>

text \<open>
  Where the goroutine stands: in a case, with the events it has yet to emit, in the \<open>select\<close>, in its
  deferred calls, or ended, with \<open>events\<close> and \<open>done\<close> closed.
\<close>
datatype 'e goroutine = Handling "'e list" | Selecting | Leaving | Ended

text \<open>The last four fields record what \<open>Send\<close> accepted, what the session took, what \<open>emit\<close> handed over and what was received.\<close>
record ('i, 'e) pipe =
  sp_input :: "'i list"
  sp_events :: "'e list"
  sp_stage :: "'e goroutine"
  sp_cancelled :: bool
  sp_accepted :: "'i list"
  sp_taken :: "'i list"
  sp_emitted :: "'e list"
  sp_received :: "'e list"

text \<open>The goroutine starts with what it emits before its loop.\<close>
definition pipe_open :: "'e list \<Rightarrow> ('i, 'e) pipe" where
  "pipe_open first = \<lparr>sp_input = [], sp_events = [], sp_stage = Handling first, sp_cancelled = False,
     sp_accepted = [], sp_taken = [], sp_emitted = [], sp_received = []\<rparr>"

definition channel_size :: nat where "channel_size = 8"

text \<open>What a step is, with the error it returns to its caller, or the events the case it enters is to emit.\<close>
datatype ('i, 'e) pipe_act =
    Sent 'i
  | SendClosed
  | SendExpired error
  | Took 'i "'e list"
  | Woke "'e list"
  | Emitted 'e
  | EmitCancelled 'e
  | Handled
  | ContextDone
  | Quit
  | Returned
  | Received 'e
  | EventsClosed
  | CloseCalled
  | CloseReturned

text \<open>
  After an emission that was cancelled the case may go on or quit; it quits for any reason of its own,
  an error, the end of a stream or the command to stop.
\<close>
inductive pipe_step :: "('i, 'e) pipe \<Rightarrow> ('i, 'e) pipe_act \<Rightarrow> ('i, 'e) pipe \<Rightarrow> bool" where
  sent: "length (sp_input s) < channel_size \<Longrightarrow>
    pipe_step s (Sent x) (s\<lparr>sp_input := sp_input s @ [x], sp_accepted := sp_accepted s @ [x]\<rparr>)"
| send_closed: "sp_stage s = Ended \<Longrightarrow> pipe_step s SendClosed s"
| send_expired: "pipe_step s (SendExpired err) s"
| took: "sp_stage s = Selecting \<Longrightarrow> sp_input s = x # xs \<Longrightarrow>
    pipe_step s (Took x es) (s\<lparr>sp_stage := Handling es, sp_input := xs, sp_taken := sp_taken s @ [x]\<rparr>)"
| woke: "sp_stage s = Selecting \<Longrightarrow> pipe_step s (Woke es) (s\<lparr>sp_stage := Handling es\<rparr>)"
| emitted: "sp_stage s = Handling (e # es) \<Longrightarrow> length (sp_events s) < channel_size \<Longrightarrow>
    pipe_step s (Emitted e) (s\<lparr>sp_stage := Handling es, sp_events := sp_events s @ [e], sp_emitted := sp_emitted s @ [e]\<rparr>)"
| emit_cancelled: "sp_stage s = Handling (e # es) \<Longrightarrow> sp_cancelled s \<Longrightarrow>
    pipe_step s (EmitCancelled e) (s\<lparr>sp_stage := Handling es\<rparr>)"
| handled: "sp_stage s = Handling [] \<Longrightarrow> pipe_step s Handled (s\<lparr>sp_stage := Selecting\<rparr>)"
| context_done: "sp_stage s = Selecting \<Longrightarrow> sp_cancelled s \<Longrightarrow> pipe_step s ContextDone (s\<lparr>sp_stage := Leaving\<rparr>)"
| quit: "sp_stage s = Handling es \<Longrightarrow> pipe_step s Quit (s\<lparr>sp_stage := Leaving\<rparr>)"
| returned: "sp_stage s = Leaving \<Longrightarrow> pipe_step s Returned (s\<lparr>sp_stage := Ended\<rparr>)"
| received: "sp_events s = e # es \<Longrightarrow>
    pipe_step s (Received e) (s\<lparr>sp_events := es, sp_received := sp_received s @ [e]\<rparr>)"
| events_closed: "sp_stage s = Ended \<Longrightarrow> sp_events s = [] \<Longrightarrow> pipe_step s EventsClosed s"
| close_called: "pipe_step s CloseCalled (s\<lparr>sp_cancelled := True\<rparr>)"
| close_returned: "sp_stage s = Ended \<Longrightarrow> pipe_step s CloseReturned s"

inductive_cases pipe_stepE: "pipe_step s a s'"

inductive_simps pipe_step_simps:
  "pipe_step s (Sent x) s'" "pipe_step s (Took x es) s'" "pipe_step s (Emitted e) s'" "pipe_step s (EmitCancelled e) s'"
  "pipe_step s Handled s'" "pipe_step s ContextDone s'" "pipe_step s Returned s'"
  "pipe_step s CloseReturned s'" "pipe_step s CloseCalled s'" "pipe_step s SendClosed s'" "pipe_step s EventsClosed s'"

inductive pipe_run :: "('i, 'e) pipe \<Rightarrow> ('i, 'e) pipe_act list \<Rightarrow> ('i, 'e) pipe \<Rightarrow> bool" where
  none: "pipe_run s [] s"
| some: "pipe_run s as s1 \<Longrightarrow> pipe_step s1 a s2 \<Longrightarrow> pipe_run s (as @ [a]) s2"

section \<open>Nothing is lost, nothing overtakes\<close>

text \<open>The abstract session: two unbounded queues, seen by what went in and what came out.\<close>
fun sent_of :: "('i, 'e) pipe_act list \<Rightarrow> 'i list" where
  "sent_of [] = []"
| "sent_of (Sent x # as) = x # sent_of as"
| "sent_of (_ # as) = sent_of as"

fun taken_of :: "('i, 'e) pipe_act list \<Rightarrow> 'i list" where
  "taken_of [] = []"
| "taken_of (Took x es # as) = x # taken_of as"
| "taken_of (_ # as) = taken_of as"

fun emitted_of :: "('i, 'e) pipe_act list \<Rightarrow> 'e list" where
  "emitted_of [] = []"
| "emitted_of (Emitted e # as) = e # emitted_of as"
| "emitted_of (_ # as) = emitted_of as"

fun received_of :: "('i, 'e) pipe_act list \<Rightarrow> 'e list" where
  "received_of [] = []"
| "received_of (Received e # as) = e # received_of as"
| "received_of (_ # as) = received_of as"

lemma acts_append [simp]:
  "sent_of (as @ bs) = sent_of as @ sent_of bs" "taken_of (as @ bs) = taken_of as @ taken_of bs"
  "emitted_of (as @ bs) = emitted_of as @ emitted_of bs" "received_of (as @ bs) = received_of as @ received_of bs"
  by (induction as rule: sent_of.induct) auto

definition pipe_ok :: "('i, 'e) pipe \<Rightarrow> bool" where
  "pipe_ok s \<longleftrightarrow> sp_accepted s = sp_taken s @ sp_input s \<and> sp_emitted s = sp_received s @ sp_events s
     \<and> length (sp_input s) \<le> channel_size \<and> length (sp_events s) \<le> channel_size"

lemma pipe_step_ok: "pipe_step s a s' \<Longrightarrow> pipe_ok s \<Longrightarrow> pipe_ok s'"
  by (erule pipe_stepE) (auto simp: pipe_ok_def)

lemma pipe_step_logs:
  "pipe_step s a s' \<Longrightarrow> sp_accepted s' = sp_accepted s @ sent_of [a] \<and> sp_taken s' = sp_taken s @ taken_of [a]
     \<and> sp_emitted s' = sp_emitted s @ emitted_of [a] \<and> sp_received s' = sp_received s @ received_of [a]"
  by (erule pipe_stepE) auto

lemma pipe_run_logs:
  "pipe_run s as s' \<Longrightarrow> s = pipe_open first \<Longrightarrow> pipe_ok s' \<and> sp_accepted s' = sent_of as \<and> sp_taken s' = taken_of as
     \<and> sp_emitted s' = emitted_of as \<and> sp_received s' = received_of as"
proof (induction rule: pipe_run.induct)
  case (none s)
  then show ?case by (simp add: pipe_ok_def pipe_open_def)
next
  case (some s as s1 a s2)
  then show ?case using pipe_step_ok [OF some.hyps(2)] pipe_step_logs [OF some.hyps(2)] by simp
qed

text \<open>
  The channels of a session are queues: whatever the interleaving, the commands a session takes are
  those \<open>Send\<close> accepted, in their order, with at most eight not yet taken, and the events received are
  those emitted, in their order, with at most eight on the way.
\<close>
theorem pipe_fifo:
  assumes "pipe_run (pipe_open first) as s"
  shows "sent_of as = taken_of as @ sp_input s \<and> emitted_of as = received_of as @ sp_events s
    \<and> length (sp_input s) \<le> 8 \<and> length (sp_events s) \<le> 8"
  using pipe_run_logs [OF assms refl] unfolding pipe_ok_def channel_size_def by metis

section \<open>Close returns\<close>

text \<open>The steps the goroutine has left, if nothing wakes it again.\<close>
definition steps_left :: "('i, 'e) pipe \<Rightarrow> nat" where
  "steps_left s = (case sp_stage s of Handling es \<Rightarrow> 3 + length es | Selecting \<Rightarrow> 2 | Leaving \<Rightarrow> 1 | Ended \<Rightarrow> 0)"

text \<open>The steps of the goroutine, and what a case it enters costs.\<close>
fun own_steps :: "('i, 'e) pipe_act list \<Rightarrow> nat" where
  "own_steps [] = 0"
| "own_steps (a # as) = (if a \<in> {Handled, ContextDone, Quit, Returned} then 1
     else (case a of Took x es \<Rightarrow> 1 | Woke es \<Rightarrow> 1 | Emitted e \<Rightarrow> 1 | EmitCancelled e \<Rightarrow> 1 | _ \<Rightarrow> 0)) + own_steps as"

fun woken_steps :: "('i, 'e) pipe_act list \<Rightarrow> nat" where
  "woken_steps [] = 0"
| "woken_steps (Took x es # as) = 2 + length es + woken_steps as"
| "woken_steps (Woke es # as) = 2 + length es + woken_steps as"
| "woken_steps (_ # as) = woken_steps as"

text \<open>The goroutine can go on without a value, room in a channel or anything else from another party.\<close>
definition goes_on :: "('i, 'e) pipe \<Rightarrow> bool" where
  "goes_on s \<longleftrightarrow> (\<exists>a s'. pipe_step s a s' \<and> (a \<in> {Handled, ContextDone, Returned} \<or> (\<exists>e. a = EmitCancelled e)))"

lemma steps_append [simp]:
  "own_steps (as @ bs) = own_steps as + own_steps bs" "woken_steps (as @ bs) = woken_steps as + woken_steps bs"
  by (induction as rule: woken_steps.induct) auto

lemma pipe_step_steps:
  "pipe_step s a s' \<Longrightarrow> own_steps [a] + steps_left s' \<le> steps_left s + woken_steps [a] \<and> (sp_cancelled s \<longrightarrow> sp_cancelled s')"
  by (erule pipe_stepE) (auto simp: steps_left_def)

lemma pipe_run_steps:
  "pipe_run s bs s' \<Longrightarrow> own_steps bs + steps_left s' \<le> steps_left s + woken_steps bs \<and> (sp_cancelled s \<longrightarrow> sp_cancelled s')"
proof (induction rule: pipe_run.induct)
  case (some s as s1 a s2)
  then show ?case using pipe_step_steps [OF some.hyps(2)] by auto
qed simp

lemma cancelled_goes_on:
  assumes "sp_cancelled s" "sp_stage s \<noteq> Ended" shows "goes_on s"
proof (cases "sp_stage s")
  case (Handling es)
  then show ?thesis using assms(1) unfolding goes_on_def
    by (cases es) (blast intro: pipe_step.handled, blast intro: pipe_step.emit_cancelled)
next
  case Selecting
  then show ?thesis using assms(1) unfolding goes_on_def by (blast intro: pipe_step.context_done)
next
  case Leaving
  then show ?thesis unfolding goes_on_def by (blast intro: pipe_step.returned)
qed (use assms(2) in simp)

text \<open>Once the goroutine has ended, only the channels' other ends are used.\<close>
lemma ended_step:
  "pipe_step s a s' \<Longrightarrow> sp_stage s = Ended \<Longrightarrow> sp_stage s' = Ended \<and> taken_of [a] = [] \<and> emitted_of [a] = []
     \<and> sp_events s = received_of [a] @ sp_events s' \<and> sp_input s' = sp_input s @ sent_of [a]"
  by (erule pipe_stepE) auto

lemma ended_run:
  "pipe_run s bs s' \<Longrightarrow> sp_stage s = Ended \<Longrightarrow> sp_stage s' = Ended \<and> taken_of bs = [] \<and> emitted_of bs = []
     \<and> sp_events s = received_of bs @ sp_events s' \<and> sp_input s' = sp_input s @ sent_of bs"
proof (induction rule: pipe_run.induct)
  case (some s as s1 a s2)
  then show ?case using ended_step [OF some.hyps(2)] by auto
qed simp

lemma pipe_run_trans: "pipe_run s1 bs s2 \<Longrightarrow> pipe_run s as s1 \<Longrightarrow> pipe_run s (as @ bs) s2"
proof (induction rule: pipe_run.induct)
  case (some s1 bs s2 b s3)
  then show ?case using pipe_run.some [OF some.IH [OF some.prems] some.hyps(2)] by simp
qed simp

text \<open>
  C34. \<open>Close\<close> returns, and is a barrier. Whatever happens after the context was cancelled, the goroutine
  that has not ended can always go on by itself, even when nobody receives its events, and the steps
  it takes are at most those of the case it is in and of the cases it is woken for again. Once it has
  ended, \<open>Close\<close> returns; from then on no command is taken, no event is emitted, what is
  received are the events that were left, at most eight, and a command that \<open>Send\<close> still accepts stays in
  the channel, which has room for eight.
\<close>
theorem pipe_closes:
  assumes "pipe_run (pipe_open first) as s" "pipe_run s bs s'"
  shows "(if sp_cancelled s then own_steps bs \<le> steps_left s + woken_steps bs \<and> (sp_stage s' = Ended \<or> goes_on s') else True)
    \<and> (if sp_stage s = Ended
       then pipe_step s' CloseReturned s' \<and> pipe_step s' SendClosed s' \<and> taken_of bs = [] \<and> emitted_of bs = []
         \<and> sp_events s = received_of bs @ sp_events s' \<and> length (sp_events s) \<le> 8
         \<and> sp_input s' = sp_input s @ sent_of bs \<and> length (sp_input s') \<le> 8
       else True)"
proof -
  have "pipe_ok s" "pipe_ok s'" using pipe_run_logs [OF assms(1) refl] pipe_run_logs [OF pipe_run_trans [OF assms(2,1)] refl] by auto
  then have "length (sp_events s) \<le> 8" "length (sp_input s') \<le> 8" by (auto simp: pipe_ok_def channel_size_def)
  then show ?thesis
    using pipe_run_steps [OF assms(2)] cancelled_goes_on [of s'] ended_run [OF assms(2)] by (auto simp: pipe_step_simps)
qed

text \<open>A command goes in, an event is on its way when \<open>Close\<close> is called.\<close>
definition sample_acts :: "(string, string) pipe_act list" where
  "sample_acts = [Sent ''commit'', Handled, Took ''commit'' [''answer''], CloseCalled]"

definition sample_pipe :: "(string, string) pipe" where
  "sample_pipe = (pipe_open [])\<lparr>sp_stage := Handling [''answer''], sp_cancelled := True, sp_accepted := [''commit''],
     sp_taken := [''commit'']\<rparr>"

lemma run_one: "pipe_step s a s' \<Longrightarrow> pipe_run s [a] s'"
  using pipe_run.some [OF pipe_run.none] by fastforce

lemma run_Cons: "pipe_step s a s1 \<Longrightarrow> pipe_run s1 as s2 \<Longrightarrow> pipe_run s (a # as) s2"
  using pipe_run_trans [OF _ run_one] by fastforce

lemmas sample_simps = sample_pipe_def pipe_open_def channel_size_def pipe_step_simps

lemma sample_run: "pipe_run (pipe_open []) sample_acts sample_pipe"
  unfolding sample_acts_def by (rule run_Cons run_one, simp add: sample_simps)+

theorem pipe_fifo_witness: "taken_of sample_acts @ sp_input sample_pipe = [''commit'']"
  using pipe_fifo [OF sample_run] by (simp add: sample_acts_def)

lemma sample_close:
  "pipe_run sample_pipe [EmitCancelled ''answer'', Handled, ContextDone, Returned, Sent ''late''] (sample_pipe\<lparr>sp_stage := Ended,
     sp_input := [''late''], sp_accepted := [''commit'', ''late'']\<rparr>)"
  by (rule run_Cons run_one, simp add: sample_simps)+

theorem pipe_closes_witness:
  "\<exists>s. pipe_run sample_pipe [EmitCancelled ''answer'', Handled, ContextDone, Returned, Sent ''late''] s \<and> sp_stage s = Ended
     \<and> own_steps [EmitCancelled ''answer'', Handled, ContextDone, Returned, Sent ''late'' :: (string, string) pipe_act] \<le> 4
     \<and> pipe_step s CloseReturned s \<and> sp_input s = [''late'']"
proof -
  let ?s = "sample_pipe\<lparr>sp_stage := Ended, sp_input := [''late''], sp_accepted := [''commit'', ''late'']\<rparr>"
  have "own_steps [EmitCancelled ''answer'', Handled, ContextDone, Returned, Sent ''late'' :: (string, string) pipe_act] \<le> 4"
    using pipe_closes [OF sample_run sample_close] by (simp add: sample_pipe_def steps_left_def)
  moreover have "pipe_step ?s CloseReturned ?s"
    using pipe_closes [OF pipe_run_trans [OF sample_close sample_run] pipe_run.none] by simp
  ultimately show ?thesis using sample_close by (intro exI [of _ ?s]) simp
qed

end
