(* ===== verification/Spec2Isabelle.thy ===== *)
theory Spec2Isabelle
  imports Audio_Wav Conversation Action_Runtime Realtime_Mapper Gateway_Voice Tool_Routing Tool_Servers Agent_Service
    Account_Fake Fake_Session Gateway_Account Voice_Client Gateway_Lifecycle
    Store_Open Client_Process Realtime_Open Session_Pipe
begin

text \<open>
  A model of the Go code of the speech-to-speech system, and what it guarantees.

  The system. A voice client talks to the voice gateway over a WebSocket; the gateway opens a
  session with an agent process and relays commands and events. The agent drives a realtime
  provider (or a fake one), maps its stream to voice events, and decides which of the model's tool
  calls may run. Tools live in separate server processes (agenda, notes) that speak JSON-RPC, reached
  either over pipes or through a LiteLLM gateway that carries signed envelopes.

  \<^bold>\<open>The theories\<close>, in the order they build on each other.

    \<^item> Prelude: type synonyms for Go's types, Go maps as association lists, the locales \<open>machine\<close>,
      \<open>monotone_machine\<close> and \<open>codec\<close> that several components interpret.
    \<^item> Go_Text, Go_Encoding, Go_Json, Json_Text: what the code uses of Go's standard library - UTF-8,
      decimal and hex text, base64, \<open>encoding/json\<close> (a tokenizer and a stack machine on bytes, struct
      decoding by field name, \<open>DisallowUnknownFields\<close>, the encoder with its escapes). Json_Text proves
      that what the encoder writes is read back, that what the parser returns is well formed and at
      most 10000 levels deep, and that compaction leaves encoder output alone.
    \<^item> Go_Time: civil dates, RFC 3339 parsing and formatting.
    \<^item> Audio_Wav (\<open>packages/go/audio/wav.go\<close>), Voice_Wire (\<open>packages/go/voicewire\<close>), Agent_Wire
      (\<open>packages/go/agentwire/session.go\<close>, \<open>protocol.go\<close>): formats and validation.
    \<^item> Conversation (\<open>personal-assistant-agent/internal/fake/conversation\<close>): the fake session's turn
      automaton, refined from an abstract one.
    \<^item> Mcp_Types (\<open>packages/go/mcpwire/types.go\<close>, \<open>policy.go\<close>), Mcp_Envelope (\<open>envelope.go\<close>,
      \<open>envelope_v2.go\<close>), Mcp_Server (\<open>server.go\<close>), Mcp_Client (\<open>client.go\<close>): tools, the signed host
      context, the server loop and the client.
    \<^item> Action_Runtime (\<open>packages/go/actionruntime\<close>): planning, authorising, executing tool calls.
    \<^item> Realtime_Stream, Realtime_Mapper (\<open>packages/go/realtime\<close>): the provider's stream and its
      translation into voice events.
    \<^item> Bridge (\<open>personal-assistant-agent/session\<close> and the gateway's translations), Agent_Remote
      (\<open>packages/go/agentwire/remote.go\<close>), Gateway_Metrics and Gateway_Voice
      (\<open>voice-gateway/internal/adapters/voice\<close>): sessions between client, gateway and agent.
    \<^item> Ledger, Agenda (\<open>apps/mcp-agenda\<close>), Notes (\<open>apps/mcp-notes\<close>), Tool_Servers (their commands and
      the servers as they run): the stores behind the tools, with the retry ledger both share.
    \<^item> Host_Config (\<open>personal-assistant-agent/config/integrations\<close> and the validation of server
      configurations), Tool_Routing (\<open>adapters/mcpclient/router.go\<close>, \<open>gateway.go\<close>).
    \<^item> Go_Flow: code that returns early, as blocks of a state monad, with weakest preconditions.
    \<^item> Agent_Config (\<open>personal-assistant-agent/config/config.go\<close>), Agent_Runtime (\<open>internal/agent/runtime.go\<close>,
      \<open>tools.go\<close>, \<open>evidence.go\<close>): the session loop of the assistant, one block per case of its \<open>select\<close>.
      A tick is one turn of the loop: a reading of the clock, fresh random text, and what was received.
      The oracle \<open>rn_io\<close> says which write or send succeeds. Every effect goes into a trace.
      Agent_Safety (the invariant \<open>agent_inv\<close> and the jobs), Agent_Timer (the turn deadline).
    \<^item> Agent_Service (\<open>config/service.go\<close>, \<open>cmd/agent/main.go\<close>, \<open>session/factory.go\<close>, the opening of tools):
      from the environment variables to a session.
    \<^item> Account_Tools (\<open>apps/account-agent/internal/account\<close>: \<open>config.go\<close>, \<open>mcp.go\<close>, \<open>ui.go\<close>, \<open>welcome.go\<close>,
      \<open>tools.go\<close>, \<open>session.go\<close>), Account_Runtime (\<open>runtime.go\<close>): the account agent. Its loop extends the
      assistant's record and shares the blocks the two have in common; the locales \<open>emitter\<close> and
      \<open>timed_emitter\<close> state what these blocks need of the closure \<open>emit\<close>, and both loops interpret them.
      Account_Safety, Account_Timer and Account_Login prove its properties.
    \<^item> Fake_Session (\<open>personal-assistant-agent/internal/fake\<close>: \<open>fake_session.go\<close>, \<open>fake_factory.go\<close>,
      \<open>provider/fake.go\<close>): the deterministic demo, its scripted answer and its loop.
    \<^item> Gateway_Config (\<open>voice-gateway/internal/bootstrap/config\<close>, \<open>cmd/gateway/main.go\<close>), Gateway_Account
      (\<open>adapters/voice/account.go\<close> and the routes of \<open>server.go\<close>): from the environment to a listening
      gateway, and from an HTTP request to a principal and an upgraded connection.
    \<^item> Gateway_Lifecycle (\<open>handleVoice\<close>, \<open>Close\<close> of \<open>server.go\<close>): the goroutines of the connections as steps in
      any order, from admission to shutdown. Session_Pipe (\<open>runningSession\<close> of the agents): the channels
      between an agent's server and a session.
    \<^item> Client_Process (\<open>packages/go/mcpwire/client.go\<close> with its process), Realtime_Open
      (\<open>packages/go/realtime/stream.go\<close>: the address, \<open>Open\<close>, \<open>Close\<close>), Store_Open (\<open>OpenAgenda\<close>, \<open>Open\<close> of
      the notes, the schema, the copy of an older ledger, the embedded contracts).
    \<^item> Voice_Client (\<open>apps/voice-client/cmd/voice-client/main.go\<close>): the command-line client, from its flags
      through the upload of a WAV file to the files it writes and its result.
    \<^item> Account_Fake (\<open>account-agent/internal/account/fake.go\<close>, \<open>cmd/account-agent/main.go\<close>): the account
      agent's command and its demo session.

  \<^bold>\<open>How the code is translated.\<close> A Go struct is a record with the same fields, a Go string a list of
  bytes, a \<open>uint64\<close> a 64-bit word, a time an integer of nanoseconds, a Go error a string in the left
  part of a sum, in the order in which the code checks. A method is a function from the old to the
  new state. A goroutine loop is a step function; what its environment does - which message comes next,
  whether a write succeeds, what a clock or a random source says, what a commit returns - is an
  argument, so a theorem holds for every environment. A SQLite store is the list of its rows with its
  ledger, and a transaction has one outcome, that of its commit. Code that is not the repository's is a
  parameter: HMAC and SHA-256, JSON Schema, regular expressions, the text of a \<open>float64\<close>, URL parsing,
  the offset of a time zone, HTTP exchanges and processes. No theorem assumes more of such a parameter
  than its statement shows (that two given texts do not collide, that a \<open>float64\<close> is written as a number).

  \<^bold>\<open>What the lemmas show.\<close> Authorisation: a job is the job of its call, and where the policy of
  its tool asks for it, the user approved that very operation or asked for it in his last words
  (\<open>plan_authorised\<close>; direct and read-only tools need neither), no operation runs twice in a session or in a store (\<open>mutations_at_most_once\<close>,
  \<open>agenda_at_most_once\<close>, \<open>served_agenda_refines\<close>), a signature of the host names one operation
  (\<open>one_signature_one_operation\<close>), and in envelope mode nothing is cancelled or deleted without a
  confirmed, signed call (\<open>deletions_confirmed\<close>). The session loops: for every sequence of inputs and
  failures, the jobs that run are those that were planned, each once, and authorised (\<open>agent_jobs_authorised\<close>,
  \<open>account_jobs_authorised\<close>), a login was asked for (\<open>account_login_consented\<close>), a response ends
  (\<open>agent_response_ends\<close>, \<open>account_response_ends\<close>), nothing panics (\<open>agent_never_panics\<close>,
  \<open>account_never_panics\<close>), and a service that starts is configured safely (\<open>service_started\<close>, \<open>gateway_started\<close>). The demo
  answers a committed turn with its script (\<open>fake_turn_answered\<close>), and the account demo begins a login
  only after a yes to its question (\<open>demo_login_consented\<close>). The client: what it writes is legal
  (\<open>client_speaks_protocol\<close>), a file reaches the demo's conversation unchanged (\<open>upload_received\<close>), and
  what it saves is exactly the audio it heard of one turn (\<open>client_saves_turn\<close>). Life cycles: connections are closed and
  counted under every schedule and after a shutdown every handler ends in a bounded number of its steps
  (\<open>connections_closed\<close>, \<open>shutdown_drains\<close>), a closed session ends and is silent (\<open>pipe_closes\<close>) and loses nothing (\<open>pipe_fifo\<close>), no tool process is left behind
  (\<open>process_contained\<close>), and an upgrade or a restart of a store repeats nothing
  (\<open>legacy_not_repeated\<close>, \<open>restart_invisible\<close>). Admission: who reaches a session and as
  whom (\<open>gateway_admits\<close>, \<open>account_principal_bound\<close>), and what of a sign-in request the identity
  service gets (\<open>auth_forwarded_exactly\<close>). Transport: calls, envelopes, events and audio arrive
  as they were sent (\<open>tool_call_through\<close>, \<open>envelope_round_trip\<close>, \<open>gateway_round_trip\<close>,
  \<open>agent_event_relayed\<close>, \<open>wav_roundtrip\<close>), with the cases where they do not
  (\<open>gateway_number_refused\<close>, \<open>large_audio_not_carried\<close>). Protocols: streams of the mapper, connections
  of the gateway, the agent server and the tool server keep their order, their identities and their
  handshakes. Bounds: calls per turn, history, contents, capacity, durations. Equivalences: validation and slot
  search against declarative descriptions.

  \<^bold>\<open>Bounds and fuel.\<close> No function runs on fuel: loops recurse on what they consume (bytes, lines,
  members, grid points) with measures, and the parser's depth limit is Go's, 10000. The steps of the
  concurrent parts are relations without a bound of their own; that the goroutines of a handler or of a
  session end after their context was cancelled is shown by measures of the work they have left, and
  assumes of others only that a call of an agent ends when its context is cancelled and that its
  \<open>Close\<close> returns.

  \<^bold>\<open>Not modelled.\<close> What sockets, processes, files and SQLite do below the calls of the code (their
  outcomes are arguments), the listening of the HTTP servers, the process test kit (it starts and stops
  the programs for tests); Swift, Java and deployment files.
\<close>

end
